(* ===== verification/Py_Prelude.thy ===== *)
theory Py_Prelude
  imports Complex_Main "HOL-Library.Char_ord" "HOL-Library.List_Lexorder"
begin

text \<open>
  The part of Python that the runtime's contracts are written in: dynamically typed values
  (the \<open>Any\<close> of \<open>Mapping[str, Any]\<close>), text operations, dictionaries, and exceptions as
  values of a sum type. Every other theory builds on the definitions and simplification
  rules of this one.

  Conventions.
  \<^item> Text is a \<^typ>\<open>string\<close>; a \<^typ>\<open>char\<close> stands for the code point of the same number.
    Case conversion is modelled on ASCII letters.
  \<^item> A dictionary is an association list in insertion order with text keys; the
    operations below keep its keys distinct.
  \<^item> A float is its exact value together with its \<open>repr\<close> text, an infinity or NaN.
  \<^item> A value of any other class (an object the contracts can only refuse) is \<open>PObj\<close> with
    its \<open>repr\<close> text.
\<close>

section \<open>Collections of facts\<close>

named_theorems py_simps \<open>unfolding rules of the Python operations\<close>
named_theorems res_simps \<open>rules for results and guards\<close>

section \<open>Exceptions and results\<close>

text \<open>The exception classes the modelled modules raise or catch.\<close>

datatype exc_class =
    ValueError | TypeError | KeyError | AttributeError | OverflowError | RuntimeError
  | FileNotFoundError | JSONDecodeError
  | CheckpointError | CheckpointConflict | HandoffLineageError
  | BoundedReconciliationError
  | GenerationError | GenerationConflict
  | EffectJournalError | EffectIdentityMismatch
  | EffectAuthorizationError
  | ModelCallResolutionError | BoundedDecisionError
  | MissingExecutionBindingError
  | OtherError string

type_synonym exn = "exc_class \<times> string"
type_synonym 'a res = "exn + 'a"

text \<open>\<open>isinstance(exc, RuntimeError)\<close>: the subclasses of RuntimeError among the above.\<close>

definition is_runtime_error :: "exn \<Rightarrow> bool" where
  "is_runtime_error e \<longleftrightarrow>
     fst e \<in> {RuntimeError, GenerationError, GenerationConflict, EffectJournalError,
              EffectIdentityMismatch, MissingExecutionBindingError}"

text \<open>\<open>isinstance(exc, ValueError)\<close>.\<close>

definition is_value_error :: "exn \<Rightarrow> bool" where
  "is_value_error e \<longleftrightarrow>
     fst e \<in> {ValueError, JSONDecodeError, CheckpointError, CheckpointConflict, HandoffLineageError,
              BoundedReconciliationError, EffectAuthorizationError, ModelCallResolutionError, BoundedDecisionError}"

text \<open>\<open>type(exc).__name__\<close>.\<close>

fun exc_name :: "exc_class \<Rightarrow> string" where
  "exc_name ValueError = ''ValueError''"
| "exc_name TypeError = ''TypeError''"
| "exc_name KeyError = ''KeyError''"
| "exc_name AttributeError = ''AttributeError''"
| "exc_name OverflowError = ''OverflowError''"
| "exc_name RuntimeError = ''RuntimeError''"
| "exc_name FileNotFoundError = ''FileNotFoundError''"
| "exc_name JSONDecodeError = ''JSONDecodeError''"
| "exc_name CheckpointError = ''CheckpointError''"
| "exc_name CheckpointConflict = ''CheckpointConflict''"
| "exc_name HandoffLineageError = ''HandoffLineageError''"
| "exc_name BoundedReconciliationError = ''BoundedReconciliationError''"
| "exc_name GenerationError = ''GenerationError''"
| "exc_name GenerationConflict = ''GenerationConflict''"
| "exc_name EffectJournalError = ''EffectJournalError''"
| "exc_name EffectIdentityMismatch = ''EffectIdentityMismatch''"
| "exc_name EffectAuthorizationError = ''EffectAuthorizationError''"
| "exc_name ModelCallResolutionError = ''ModelCallResolutionError''"
| "exc_name BoundedDecisionError = ''BoundedDecisionError''"
| "exc_name MissingExecutionBindingError = ''MissingExecutionBindingError''"
| "exc_name (OtherError n) = n"

text \<open>Sequencing of fallible code, and a raise under a condition.\<close>

fun bindr :: "'a res \<Rightarrow> ('a \<Rightarrow> 'b res) \<Rightarrow> 'b res" where
  "bindr (Inl e) f = Inl e"
| "bindr (Inr x) f = f x"

definition raise_if :: "bool \<Rightarrow> exc_class \<Rightarrow> string \<Rightarrow> unit res" where
  "raise_if b c msg = (if b then Inl (c, msg) else Inr ())"

fun map_res :: "('a \<Rightarrow> 'b res) \<Rightarrow> 'a list \<Rightarrow> 'b list res" where
  "map_res f [] = Inr []"
| "map_res f (x # xs) = bindr (f x) (\<lambda>y. bindr (map_res f xs) (\<lambda>ys. Inr (y # ys)))"

lemma bindr_eq_Inr [res_simps]:
  "bindr m f = Inr y \<longleftrightarrow> (\<exists>x. m = Inr x \<and> f x = Inr y)"
  by (cases m) auto

lemma bindr_eq_Inl [res_simps]:
  "bindr m f = Inl e \<longleftrightarrow> m = Inl e \<or> (\<exists>x. m = Inr x \<and> f x = Inl e)"
  by (cases m) auto

lemma raise_if_eq_Inr [res_simps]: "raise_if b c msg = Inr u \<longleftrightarrow> \<not> b"
  by (simp add: raise_if_def)

lemma raise_if_eq_Inl [res_simps]: "raise_if b c msg = Inl e \<longleftrightarrow> b \<and> e = (c, msg)"
  by (auto simp: raise_if_def)

lemma raise_if_simps [simp]:
  "raise_if True c msg = Inl (c, msg)" "raise_if False c msg = Inr ()"
  by (simp_all add: raise_if_def)

lemma bindr_cong [fundef_cong]:
  "m = m' \<Longrightarrow> (\<And>x. m' = Inr x \<Longrightarrow> f x = f' x) \<Longrightarrow> bindr m f = bindr m' f'"
  by (cases m') auto

lemma map_res_cong [fundef_cong]:
  "xs = ys \<Longrightarrow> (\<And>x. x \<in> set ys \<Longrightarrow> f x = g x) \<Longrightarrow> map_res f xs = map_res g ys"
  by (induction ys arbitrary: xs) auto

lemma map_res_map: "map_res f (map g xs) = map_res (\<lambda>x. f (g x)) xs"
  by (induction xs) auto

lemma map_res_eq_Inr:
  "map_res f xs = Inr ys \<longleftrightarrow> list_all2 (\<lambda>x y. f x = Inr y) xs ys"
  by (induction xs arbitrary: ys) (auto simp: res_simps list_all2_Cons1)

lemma map_res_Inr_map: "(\<And>x. x \<in> set xs \<Longrightarrow> f x = Inr (g x)) \<Longrightarrow> map_res f xs = Inr (map g xs)"
  by (induction xs) auto

lemma map_res_unit: "map_res f xs = Inr (ys :: unit list) \<Longrightarrow> x \<in> set xs \<Longrightarrow> f x = Inr ()"
  by (auto simp: map_res_eq_Inr list_all2_conv_all_nth in_set_conv_nth)

text \<open>\<open>all(f(x) for x in xs)\<close> for a test that may raise: it stops at the first False.\<close>

fun all_res :: "('a \<Rightarrow> bool res) \<Rightarrow> 'a list \<Rightarrow> bool res" where
  "all_res f [] = Inr True"
| "all_res f (x # xs) = bindr (f x) (\<lambda>b. if b then all_res f xs else Inr False)"

lemma all_res_cong [fundef_cong]:
  "xs = ys \<Longrightarrow> (\<And>x. x \<in> set ys \<Longrightarrow> f x = g x) \<Longrightarrow> all_res f xs = all_res g ys"
  by (induction ys arbitrary: xs) (auto cong: if_cong)

lemma all_res_True: "all_res f xs = Inr True \<longleftrightarrow> (\<forall>x \<in> set xs. f x = Inr True)"
  by (induction xs) (auto simp: bindr_eq_Inr split: if_splits)

lemma all_res_total: "(\<And>x. x \<in> set xs \<Longrightarrow> f x = Inr (g x)) \<Longrightarrow> all_res f xs = Inr (\<forall>x \<in> set xs. g x)"
  by (induction xs) auto

section \<open>Values\<close>

datatype pyfloat = FFin rat string | FInf bool | FNan

datatype pyval =
    PNone
  | PBool bool
  | PInt int
  | PFloat pyfloat
  | PStr string
  | PList "pyval list"
  | PTuple "pyval list"
  | PDict "(string \<times> pyval) list"
  | PObj string

type_synonym dict = "(string \<times> pyval) list"

fun is_none :: "pyval \<Rightarrow> bool" where
  "is_none PNone = True"
| "is_none _ = False"

fun is_str :: "pyval \<Rightarrow> bool" where
  "is_str (PStr _) = True"
| "is_str _ = False"

fun is_mapping :: "pyval \<Rightarrow> bool" where
  "is_mapping (PDict _) = True"
| "is_mapping _ = False"

text \<open>\<open>isinstance(v, Sequence) and not isinstance(v, (str, bytes, bytearray))\<close>.\<close>

fun is_array :: "pyval \<Rightarrow> bool" where
  "is_array (PList _) = True"
| "is_array (PTuple _) = True"
| "is_array _ = False"

text \<open>\<open>isinstance(v, int) and not isinstance(v, bool)\<close>.\<close>

fun is_int :: "pyval \<Rightarrow> bool" where
  "is_int (PInt _) = True"
| "is_int _ = False"

fun items_of :: "pyval \<Rightarrow> pyval list" where
  "items_of (PList xs) = xs"
| "items_of (PTuple xs) = xs"
| "items_of _ = []"

fun dict_of :: "pyval \<Rightarrow> dict" where
  "dict_of (PDict d) = d"
| "dict_of _ = []"

fun truthy :: "pyval \<Rightarrow> bool" where
  "truthy PNone = False"
| "truthy (PBool b) = b"
| "truthy (PInt i) = (i \<noteq> 0)"
| "truthy (PFloat (FFin r _)) = (r \<noteq> 0)"
| "truthy (PFloat _) = True"
| "truthy (PStr s) = (s \<noteq> [])"
| "truthy (PList xs) = (xs \<noteq> [])"
| "truthy (PTuple xs) = (xs \<noteq> [])"
| "truthy (PDict d) = (d \<noteq> [])"
| "truthy (PObj _) = True"

definition py_or :: "pyval \<Rightarrow> pyval \<Rightarrow> pyval" where
  "py_or a b = (if truthy a then a else b)"

text \<open>\<open>v is False\<close> and \<open>v is True\<close>.\<close>

definition is_False :: "pyval \<Rightarrow> bool" where
  "is_False v \<longleftrightarrow> v = PBool False"

definition is_True :: "pyval \<Rightarrow> bool" where
  "is_True v \<longleftrightarrow> v = PBool True"

section \<open>Dictionaries\<close>

text \<open>\<open>d.get(k)\<close>, \<open>k in d\<close>, \<open>d[k] = v\<close>, \<open>d.pop(k, None)\<close> and \<open>{**d, **e}\<close>.\<close>

definition dget_opt :: "dict \<Rightarrow> string \<Rightarrow> pyval option" where
  "dget_opt d k = map_of d k"

definition dget :: "dict \<Rightarrow> string \<Rightarrow> pyval" where
  "dget d k = (case map_of d k of None \<Rightarrow> PNone | Some v \<Rightarrow> v)"

definition dget_default :: "dict \<Rightarrow> string \<Rightarrow> pyval \<Rightarrow> pyval" where
  "dget_default d k v = (case map_of d k of None \<Rightarrow> v | Some w \<Rightarrow> w)"

definition dkeys :: "dict \<Rightarrow> string list" where
  "dkeys d = map fst d"

fun dset :: "string \<Rightarrow> 'v \<Rightarrow> (string \<times> 'v) list \<Rightarrow> (string \<times> 'v) list" where
  "dset k v [] = [(k, v)]"
| "dset k v ((k', v') # d) = (if k' = k then (k, v) # d else (k', v') # dset k v d)"

definition ddel :: "string \<Rightarrow> (string \<times> 'v) list \<Rightarrow> (string \<times> 'v) list" where
  "ddel k d = filter (\<lambda>p. fst p \<noteq> k) d"

definition dmerge :: "(string \<times> 'v) list \<Rightarrow> (string \<times> 'v) list \<Rightarrow> (string \<times> 'v) list" where
  "dmerge d e = fold (\<lambda>(k, v) acc. dset k v acc) e d"

text \<open>\<open>value.get(k)\<close> on a dynamic value: only a mapping has the method.\<close>

definition vget :: "pyval \<Rightarrow> string \<Rightarrow> pyval" where
  "vget v k = dget (dict_of v) k"

lemma map_of_dset [simp]: "map_of (dset k v d) = (map_of d)(k \<mapsto> v)"
  by (induction k v d rule: dset.induct) auto

lemma dget_dset [simp]: "dget (dset k v d) k' = (if k' = k then v else dget d k')"
  by (simp add: dget_def)

lemma keys_dset [simp]: "set (map fst (dset k v d)) = insert k (set (map fst d))"
  by (induction k v d rule: dset.induct) auto

lemma dset_dset [simp]: "dset k v (dset k w d) = dset k v d"
  by (induction k w d rule: dset.induct) auto

lemma ddel_dset [simp]: "ddel k (dset k v d) = ddel k d"
  by (induction k v d rule: dset.induct) (auto simp: ddel_def)

lemma dkeys_dset [simp]: "set (dkeys (dset k v d)) = insert k (set (dkeys d))"
  using keys_dset by (simp add: dkeys_def)

lemma set_dset: "set (dset k v d) \<subseteq> insert (k, v) (set d)"
  by (induction k v d rule: dset.induct) auto

lemma distinct_dset: "distinct (map fst d) \<Longrightarrow> distinct (map fst (dset k v d))"
proof (induction k v d rule: dset.induct)
  case (2 k v k' v' d)
  then show ?case using keys_dset [of k v d] by auto
qed simp

lemma map_of_ddel [simp]: "map_of (ddel k d) k' = (if k' = k then None else map_of d k')"
  by (induction d) (auto simp: ddel_def)

lemma map_of_dmerge: "distinct (map fst e) \<Longrightarrow> map_of (dmerge d e) = map_of d ++ map_of e"
proof (induction e arbitrary: d)
  case Nil
  then show ?case by (simp add: dmerge_def)
next
  case (Cons p e)
  obtain k v where p: "p = (k, v)" by force
  have "map_of (dmerge d (p # e)) = map_of (dset k v d) ++ map_of e"
    using Cons by (simp add: dmerge_def p)
  also have "\<dots> = map_of d ++ map_of (p # e)"
  proof
    fix x
    from Cons.prems have "map_of e k = None" by (simp add: p map_of_eq_None_iff)
    then show "(map_of (dset k v d) ++ map_of e) x = (map_of d ++ map_of (p # e)) x"
      by (cases "x = k") (simp_all add: p map_add_def split: option.split)
  qed
  finally show ?case .
qed

section \<open>Text\<close>

definition py_space :: "char \<Rightarrow> bool" where
  "py_space c = (let n = (of_char c :: nat) in
     (9 \<le> n \<and> n \<le> 13) \<or> (28 \<le> n \<and> n \<le> 32) \<or> n = 133 \<or> n = 160)"

definition strip :: "string \<Rightarrow> string" where
  "strip s = rev (dropWhile py_space (rev (dropWhile py_space s)))"

definition upper_char :: "char \<Rightarrow> char" where
  "upper_char c = (let n = (of_char c :: nat) in
     if 97 \<le> n \<and> n \<le> 122 then char_of (n - 32) else c)"

definition upper :: "string \<Rightarrow> string" where
  "upper s = map upper_char s"

definition lower_char :: "char \<Rightarrow> char" where
  "lower_char c = (let n = (of_char c :: nat) in
     if 65 \<le> n \<and> n \<le> 90 then char_of (n + 32) else c)"

definition lower :: "string \<Rightarrow> string" where
  "lower s = map lower_char s"

definition starts_with :: "string \<Rightarrow> string \<Rightarrow> bool" where
  "starts_with p s \<longleftrightarrow> take (length p) s = p"

text \<open>\<open>token in s\<close>.\<close>

fun contains_text :: "string \<Rightarrow> string \<Rightarrow> bool" where
  "contains_text token [] = (token = [])"
| "contains_text token (c # s) = (starts_with token (c # s) \<or> contains_text token s)"

text \<open>\<open>s.split(sep, 1)[0]\<close> for a non-empty separator: the text before its first occurrence.\<close>

fun before_sep :: "string \<Rightarrow> string \<Rightarrow> string" where
  "before_sep sep [] = []"
| "before_sep sep (c # s) = (if starts_with sep (c # s) then [] else c # before_sep sep s)"

definition sort_strings :: "string list \<Rightarrow> string list" where
  "sort_strings xs = sort (remdups xs)"

text \<open>\<open>tuple(dict.fromkeys(values))\<close>: first occurrences, in order.\<close>

fun dedup_from :: "'a list \<Rightarrow> 'a list \<Rightarrow> 'a list" where
  "dedup_from seen [] = []"
| "dedup_from seen (x # xs) =
     (if x \<in> set seen then dedup_from seen xs else x # dedup_from (x # seen) xs)"

definition dedup :: "'a list \<Rightarrow> 'a list" where
  "dedup xs = dedup_from [] xs"

fun join :: "string \<Rightarrow> string list \<Rightarrow> string" where
  "join sep [] = []"
| "join sep [x] = x"
| "join sep (x # y # xs) = x @ sep @ join sep (y # xs)"

lemma starts_with_iff: "starts_with p s \<longleftrightarrow> (\<exists>v. s = p @ v)"
  by (metis append_eq_conv_conj append_take_drop_id starts_with_def)

lemma starts_with_append [simp]: "starts_with p (p @ s)"
  by (simp add: starts_with_def)

lemma set_dedup_from: "set (dedup_from seen xs) = set xs - set seen"
  by (induction seen xs rule: dedup_from.induct) auto

lemma set_dedup [simp]: "set (dedup xs) = set xs"
  by (simp add: dedup_def set_dedup_from)

lemma distinct_dedup_from: "distinct (dedup_from seen xs)"
  by (induction seen xs rule: dedup_from.induct) (auto simp: set_dedup_from)

lemma distinct_dedup [simp]: "distinct (dedup xs)"
  by (simp add: dedup_def distinct_dedup_from)

lemma dedup_from_id: "distinct xs \<Longrightarrow> set xs \<inter> set seen = {} \<Longrightarrow> dedup_from seen xs = xs"
  by (induction seen xs rule: dedup_from.induct) auto

lemma dedup_id [simp]: "distinct xs \<Longrightarrow> dedup xs = xs"
  by (simp add: dedup_def dedup_from_id)

lemma set_sort_strings [simp]: "set (sort_strings xs) = set xs"
  by (simp add: sort_strings_def)

lemma sorted_distinct_sort_strings [simp]:
  "sorted (sort_strings xs)" "distinct (sort_strings xs)"
  by (simp_all add: sort_strings_def)

lemma sort_strings_id [simp]: "sorted xs \<Longrightarrow> distinct xs \<Longrightarrow> sort_strings xs = xs"
  by (simp add: sort_strings_def distinct_remdups_id sorted_sort_id)

lemma sort_strings_cong: "set xs = set ys \<Longrightarrow> sort_strings xs = sort_strings ys"
  by (rule sorted_distinct_set_unique) simp_all

lemma dropWhile_hd_idem: "dropWhile P (dropWhile P xs) = dropWhile P xs"
  by (induction xs) auto

lemma strip_eq_Nil_iff: "strip s = [] \<longleftrightarrow> (\<forall>c \<in> set s. py_space c)"
proof -
  have "strip s = [] \<longleftrightarrow> (\<forall>c \<in> set (dropWhile py_space s). py_space c)"
    by (auto simp: strip_def dropWhile_eq_Nil_conv)
  also have "\<dots> \<longleftrightarrow> (\<forall>c \<in> set s. py_space c)"
    by (induction s) auto
  finally show ?thesis .
qed

lemma dropWhile_rev_dropWhile:
  "dropWhile P (rev (dropWhile P (rev (dropWhile P xs)))) = rev (dropWhile P (rev (dropWhile P xs)))"
proof -
  let ?ys = "dropWhile P xs"
  show ?thesis
  proof (cases "dropWhile P (rev ?ys) = []")
    case False
    obtain zs where zs: "rev ?ys = zs @ dropWhile P (rev ?ys)"
      by (metis takeWhile_dropWhile_id)
    then have "?ys = rev (dropWhile P (rev ?ys)) @ rev zs"
      by (metis rev_append rev_rev_ident)
    moreover have "\<not> P (hd ?ys)"
      using False by (metis hd_dropWhile dropWhile.simps(1) rev.simps(1))
    ultimately have "\<not> P (hd (rev (dropWhile P (rev ?ys))))"
      using False by (metis Nil_is_rev_conv hd_append2)
    with False show ?thesis
      by (metis Nil_is_rev_conv dropWhile_eq_self_iff)
  next
    case True
    then show ?thesis by (simp only: rev.simps dropWhile.simps)
  qed
qed

lemma strip_strip [simp]: "strip (strip s) = strip s"
  by (simp add: strip_def dropWhile_rev_dropWhile dropWhile_hd_idem)

lemma strip_Nil [simp]: "strip [] = []"
  by (simp add: strip_def)

lemma strip_id_iff: "strip s = s \<longleftrightarrow> (s = [] \<or> \<not> py_space (hd s) \<and> \<not> py_space (last s))"
proof (cases "s = []")
  case False
  show ?thesis
  proof
    assume st: "strip s = s"
    have "dropWhile py_space s = s"
      using st by (metis dropWhile_hd_idem dropWhile_rev_dropWhile strip_def)
    then have "\<not> py_space (hd s)" using False by (metis dropWhile_eq_self_iff)
    moreover have "dropWhile py_space (rev s) = rev s"
      using st \<open>dropWhile py_space s = s\<close> by (metis rev_rev_ident strip_def)
    then have "\<not> py_space (hd (rev s))" using False by (metis Nil_is_rev_conv dropWhile_eq_self_iff)
    ultimately show "s = [] \<or> \<not> py_space (hd s) \<and> \<not> py_space (last s)"
      using False by (simp add: hd_rev)
  next
    assume "s = [] \<or> \<not> py_space (hd s) \<and> \<not> py_space (last s)"
    with False have "dropWhile py_space s = s" "dropWhile py_space (rev s) = rev s"
      by (simp_all add: dropWhile_eq_self_iff hd_rev)
    then show "strip s = s" by (simp add: strip_def)
  qed
qed simp

lemma upper_char_space [simp]: "py_space (upper_char c) = py_space c"
  by (auto simp: py_space_def upper_char_def Let_def)

lemma upper_char_idem [simp]: "upper_char (upper_char c) = upper_char c"
  by (auto simp: upper_char_def Let_def)

lemma upper_upper [simp]: "upper (upper s) = upper s"
  by (simp add: upper_def)

lemma upper_eq_Nil [simp]: "upper s = [] \<longleftrightarrow> s = []"
  by (simp add: upper_def)

section \<open>Required text\<close>

text \<open>
  The check every contract module repeats with its own exception class: a value must be a text
  that is not blank; the result is the text without surrounding white space.
\<close>

fun require_text :: "exc_class \<Rightarrow> pyval \<Rightarrow> string \<Rightarrow> string res" where
  "require_text c (PStr s) name =
     (if strip s = [] then Inl (c, name @ '' must be a non-empty string'') else Inr (strip s))"
| "require_text c _ name = Inl (c, name @ '' must be a non-empty string'')"

definition solid :: "string \<Rightarrow> bool" where
  "solid s \<longleftrightarrow> s \<noteq> [] \<and> strip s = s"

lemma require_text_eq_Inr [res_simps]:
  "require_text c v name = Inr t \<longleftrightarrow> (\<exists>s. v = PStr s \<and> strip s \<noteq> [] \<and> t = strip s)"
  by (cases v) auto

lemma require_text_solid: "require_text c v name = Inr t \<Longrightarrow> solid t"
  by (auto simp: res_simps solid_def)

lemma require_text_of_solid [simp]: "solid s \<Longrightarrow> require_text c (PStr s) name = Inr s"
  by (simp add: solid_def)

declare require_text.simps [simp del]

lemma solid_strip [simp]: "solid (strip s) \<longleftrightarrow> strip s \<noteq> []"
  by (auto simp: solid_def)

lemma solid_iff: "solid s \<longleftrightarrow> s \<noteq> [] \<and> \<not> py_space (hd s) \<and> \<not> py_space (last s)"
  by (auto simp: solid_def strip_id_iff)

lemma solid_upper [simp]: "solid (upper s) = solid s"
  by (cases "s = []") (simp_all add: solid_iff upper_def hd_map last_map)

lemma solid_append: "solid a \<Longrightarrow> solid b \<Longrightarrow> solid (a @ b)"
  by (simp add: solid_iff)

lemma solid_neq_Nil: "solid s \<Longrightarrow> s \<noteq> []"
  by (simp add: solid_def)

section \<open>Conversion to text\<close>

definition digit_char :: "nat \<Rightarrow> char" where
  "digit_char d = char_of (48 + d)"

fun show_nat :: "nat \<Rightarrow> string" where
  "show_nat n = (if n < 10 then [digit_char n] else show_nat (n div 10) @ [digit_char (n mod 10)])"

declare show_nat.simps [simp del]

definition show_int :: "int \<Rightarrow> string" where
  "show_int i = (if i < 0 then CHR ''-'' # show_nat (nat (- i)) else show_nat (nat i))"

text \<open>\<open>f"{n:08d}"\<close> for a non-negative number.\<close>

definition pad8 :: "int \<Rightarrow> string" where
  "pad8 i = (let s = show_int i in replicate (8 - length s) CHR ''0'' @ s)"

definition hex_digit :: "nat \<Rightarrow> char" where
  "hex_digit d = (if d < 10 then char_of (48 + d) else char_of (87 + d))"

text \<open>\<open>repr\<close> of a text: quotes, backslash escapes, \<open>\xHH\<close> for what is not printable.\<close>

definition repr_char :: "char \<Rightarrow> char \<Rightarrow> string" where
  "repr_char q c = (let n = (of_char c :: nat) in
     if c = q \<or> n = 92 then [char_of (92::nat), c]
     else if n = 10 then [char_of (92::nat), CHR ''n'']
     else if n = 13 then [char_of (92::nat), CHR ''r'']
     else if n = 9 then [char_of (92::nat), CHR ''t'']
     else if n < 32 \<or> (127 \<le> n \<and> n \<le> 160) \<or> n = 173
     then [char_of (92::nat), CHR ''x'', hex_digit (n div 16), hex_digit (n mod 16)]
     else [c])"

definition repr_str :: "string \<Rightarrow> string" where
  "repr_str s = (let q = (if char_of (39::nat) \<in> set s \<and> CHR 0x22 \<notin> set s
                          then CHR 0x22 else char_of (39::nat))
     in q # concat (map (repr_char q) s) @ [q])"

fun show_float :: "pyfloat \<Rightarrow> string" where
  "show_float (FFin _ t) = t"
| "show_float (FInf neg) = (if neg then ''-inf'' else ''inf'')"
| "show_float FNan = ''nan''"

fun py_repr :: "pyval \<Rightarrow> string" where
  "py_repr PNone = ''None''"
| "py_repr (PBool b) = (if b then ''True'' else ''False'')"
| "py_repr (PInt i) = show_int i"
| "py_repr (PFloat f) = show_float f"
| "py_repr (PStr s) = repr_str s"
| "py_repr (PList xs) = ''['' @ join '', '' (map py_repr xs) @ '']''"
| "py_repr (PTuple xs) = ''('' @ join '', '' (map py_repr xs) @
     (if length xs = 1 then '',)'' else '')'')"
| "py_repr (PDict d) =
     ''{'' @ join '', '' (map (\<lambda>(k, v). repr_str k @ '': '' @ py_repr v) d) @ ''}''"
| "py_repr (PObj r) = r"

fun py_str :: "pyval \<Rightarrow> string" where
  "py_str (PStr s) = s"
| "py_str v = py_repr v"

text \<open>\<open>str(v or "")\<close>, the idiom the modules use to read an optional text.\<close>

definition str_or :: "pyval \<Rightarrow> string \<Rightarrow> string" where
  "str_or v s = py_str (py_or v (PStr s))"

lemma str_or_PStr [simp]: "str_or (PStr s) t = (if s = [] then t else s)"
  by (simp add: str_or_def py_or_def)

lemma str_or_PNone [simp]: "str_or PNone t = t"
  by (simp add: str_or_def py_or_def)

section \<open>Conversion to integers\<close>

definition is_digit :: "char \<Rightarrow> bool" where
  "is_digit c = (let n = (of_char c :: nat) in 48 \<le> n \<and> n \<le> 57)"

definition digit_val :: "char \<Rightarrow> int" where
  "digit_val c = int (of_char c) - 48"

text \<open>The digits of an integer literal: single underscores between digits are allowed.\<close>

fun int_digits :: "int \<Rightarrow> string \<Rightarrow> int option" where
  "int_digits acc [] = None"
| "int_digits acc [c] = (if is_digit c then Some (10 * acc + digit_val c) else None)"
| "int_digits acc (c # c' # s) =
     (if \<not> is_digit c then None
      else if c' = CHR ''_'' then int_digits (10 * acc + digit_val c) s
      else int_digits (10 * acc + digit_val c) (c' # s))"

definition parse_int :: "string \<Rightarrow> int option" where
  "parse_int s = (case strip s of [] \<Rightarrow> None
     | c # r \<Rightarrow> if c = CHR ''-'' then map_option uminus (int_digits 0 r)
                else if c = CHR ''+'' then int_digits 0 r
                else int_digits 0 (c # r))"

fun py_int :: "pyval \<Rightarrow> int res" where
  "py_int (PInt i) = Inr i"
| "py_int (PBool b) = Inr (if b then 1 else 0)"
| "py_int (PFloat (FFin r _)) = Inr (if r < 0 then \<lceil>r\<rceil> else \<lfloor>r\<rfloor>)"
| "py_int (PFloat (FInf _)) = Inl (OverflowError, ''cannot convert float infinity to integer'')"
| "py_int (PFloat FNan) = Inl (ValueError, ''cannot convert float NaN to integer'')"
| "py_int (PStr s) = (case parse_int s of Some i \<Rightarrow> Inr i
     | None \<Rightarrow> Inl (ValueError, ''invalid literal for int() with base 10: '' @ repr_str s))"
| "py_int _ = Inl (TypeError, ''int() argument must be a string, a bytes-like object or a real number'')"

section \<open>Containers\<close>

fun is_bool :: "pyval \<Rightarrow> bool" where
  "is_bool (PBool _) = True"
| "is_bool _ = False"

definition opt_str :: "string option \<Rightarrow> pyval" where
  "opt_str x = (case x of None \<Rightarrow> PNone | Some s \<Rightarrow> PStr s)"

fun type_name :: "pyval \<Rightarrow> string" where
  "type_name PNone = ''NoneType''"
| "type_name (PBool _) = ''bool''"
| "type_name (PInt _) = ''int''"
| "type_name (PFloat _) = ''float''"
| "type_name (PStr _) = ''str''"
| "type_name (PList _) = ''list''"
| "type_name (PTuple _) = ''tuple''"
| "type_name (PDict _) = ''dict''"
| "type_name (PObj _) = ''object''"

definition quoted :: "string \<Rightarrow> string" where
  "quoted s = CHR 0x27 # s @ [CHR 0x27]"

text \<open>\<open>v.get(k)\<close>, \<open>len(v)\<close> and \<open>d[k]\<close>.\<close>

definition py_get :: "pyval \<Rightarrow> string \<Rightarrow> pyval res" where
  "py_get v k = (case v of PDict d \<Rightarrow> Inr (dget d k)
     | _ \<Rightarrow> Inl (AttributeError, quoted (type_name v) @ '' object has no attribute '' @ quoted ''get''))"

fun py_len :: "pyval \<Rightarrow> int res" where
  "py_len (PStr s) = Inr (int (length s))"
| "py_len (PList xs) = Inr (int (length xs))"
| "py_len (PTuple xs) = Inr (int (length xs))"
| "py_len (PDict d) = Inr (int (length d))"
| "py_len v = Inl (TypeError, ''object of type '' @ quoted (type_name v) @ '' has no len()'')"

definition dindex :: "dict \<Rightarrow> string \<Rightarrow> pyval res" where
  "dindex d k = (case map_of d k of Some v \<Rightarrow> Inr v | None \<Rightarrow> Inl (KeyError, quoted k))"

text \<open>\<open>tuple(v)\<close>: what iterating over a value gives.\<close>

fun py_iter :: "pyval \<Rightarrow> pyval list res" where
  "py_iter (PList xs) = Inr xs"
| "py_iter (PTuple xs) = Inr xs"
| "py_iter (PStr s) = Inr (map (\<lambda>c. PStr [c]) s)"
| "py_iter (PDict d) = Inr (map (\<lambda>p. PStr (fst p)) d)"
| "py_iter v = Inl (TypeError, quoted (type_name v) @ '' object is not iterable'')"

text \<open>Values that can be a dictionary key or a member of a set.\<close>

fun hashable :: "pyval \<Rightarrow> bool" where
  "hashable (PList _) = False"
| "hashable (PDict _) = False"
| "hashable (PTuple xs) = (\<forall>x \<in> set xs. hashable x)"
| "hashable _ = True"

lemma is_mapping_iff: "is_mapping v \<longleftrightarrow> (\<exists>d. v = PDict d)"
  by (cases v) auto

section \<open>Equality\<close>

text \<open>
  \<open>==\<close> on values: booleans are the integers 0 and 1, numbers compare by value, NaN is unequal
  to itself, lists differ from tuples, dictionaries compare without regard to order.
\<close>

fun num_val :: "pyval \<Rightarrow> rat option" where
  "num_val (PBool b) = Some (if b then 1 else 0)"
| "num_val (PInt i) = Some (of_int i)"
| "num_val (PFloat (FFin r _)) = Some r"
| "num_val _ = None"

fun py_eq :: "pyval \<Rightarrow> pyval \<Rightarrow> bool" where
  "py_eq PNone w = (w = PNone)"
| "py_eq (PStr s) w = (w = PStr s)"
| "py_eq (PFloat (FInf a)) w = (w = PFloat (FInf a))"
| "py_eq (PList xs) w = (case w of PList ys \<Rightarrow> list_all2 py_eq xs ys | _ \<Rightarrow> False)"
| "py_eq (PTuple xs) w = (case w of PTuple ys \<Rightarrow> list_all2 py_eq xs ys | _ \<Rightarrow> False)"
| "py_eq (PDict d) w = (case w of
       PDict e \<Rightarrow> length d = length e \<and>
         list_all (\<lambda>(k, x). case map_of e k of Some y \<Rightarrow> py_eq x y | None \<Rightarrow> False) d
     | _ \<Rightarrow> False)"
| "py_eq (PObj r) w = (w = PObj r)"
| "py_eq v w = (num_val v \<noteq> None \<and> num_val v = num_val w)"

lemma py_eq_PStr_right [simp]: "py_eq v (PStr s) \<longleftrightarrow> v = PStr s"
proof (cases v)
  case (PFloat f)
  then show ?thesis by (cases f) auto
qed (auto split: pyval.splits)

lemma py_eq_PNone_right [simp]: "py_eq v PNone \<longleftrightarrow> v = PNone"
proof (cases v)
  case (PFloat f)
  then show ?thesis by (cases f) auto
qed (auto split: pyval.splits)

lemma py_eq_PInt_PInt [simp]: "py_eq (PInt i) (PInt j) \<longleftrightarrow> i = j"
  by simp

section \<open>Evaluation\<close>

text \<open>
  Code points are compared as binary integers when a concrete term is evaluated: the natural
  number a character stands for would be evaluated in unary.
\<close>

lemma of_char_nat_int:
  "(of_char c :: nat) = numeral k \<longleftrightarrow> (of_char c :: int) = numeral k"
  "(of_char c :: nat) \<le> numeral k \<longleftrightarrow> (of_char c :: int) \<le> numeral k"
  "(of_char c :: nat) < numeral k \<longleftrightarrow> (of_char c :: int) < numeral k"
  "numeral k \<le> (of_char c :: nat) \<longleftrightarrow> numeral k \<le> (of_char c :: int)"
  unfolding of_nat_of_char [symmetric, where ?'a = int] by simp_all

lemma less_eq_char_int [code]: "c \<le> d \<longleftrightarrow> (of_char c :: int) \<le> of_char d"
  unfolding less_eq_char_def of_nat_of_char [symmetric, where ?'a = int] by simp

lemma less_char_int [code]: "c < d \<longleftrightarrow> (of_char c :: int) < of_char d"
  unfolding less_char_def of_nat_of_char [symmetric, where ?'a = int] by simp

lemma py_space_int [code]:
  "py_space c = (let n = (of_char c :: int) in
     (9 \<le> n \<and> n \<le> 13) \<or> (28 \<le> n \<and> n \<le> 32) \<or> n = 133 \<or> n = 160)"
  by (simp add: py_space_def Let_def of_char_nat_int)

lemma upper_char_int [code]:
  "upper_char c = (let n = (of_char c :: int) in
     if 97 \<le> n \<and> n \<le> 122 then char_of (n - 32) else c)"
proof -
  have "char_of ((of_char c :: nat) - 32) = (char_of ((of_char c :: int) - 32) :: char)"
    if "97 \<le> (of_char c :: nat)"
  proof -
    have "(of_char c :: int) - 32 = int ((of_char c :: nat) - 32)"
      unfolding of_nat_of_char [symmetric, where ?'a = int] using that by simp
    then show ?thesis by (metis char_of_nat)
  qed
  then show ?thesis by (simp add: upper_char_def Let_def of_char_nat_int)
qed

lemma lower_char_int [code]:
  "lower_char c = (let n = (of_char c :: int) in
     if 65 \<le> n \<and> n \<le> 90 then char_of (n + 32) else c)"
proof -
  have "char_of ((of_char c :: nat) + 32) = (char_of ((of_char c :: int) + 32) :: char)"
  proof -
    have "(of_char c :: int) + 32 = int ((of_char c :: nat) + 32)"
      unfolding of_nat_of_char [symmetric, where ?'a = int] by simp
    then show ?thesis by (metis char_of_nat)
  qed
  then show ?thesis by (simp add: lower_char_def Let_def of_char_nat_int)
qed

lemma is_digit_int [code]:
  "is_digit c = (let n = (of_char c :: int) in 48 \<le> n \<and> n \<le> 57)"
  by (simp add: is_digit_def Let_def of_char_nat_int)

section \<open>Digests\<close>

text \<open>The hash functions are parameters; what the code relies on is the form of a digest.\<close>

definition is_hex :: "char \<Rightarrow> bool" where
  "is_hex c = (let n = (of_char c :: nat) in (48 \<le> n \<and> n \<le> 57) \<or> (97 \<le> n \<and> n \<le> 102))"

definition hex64 :: "string \<Rightarrow> bool" where
  "hex64 s \<longleftrightarrow> length s = 64 \<and> list_all is_hex s"

lemma is_hex_int [code]:
  "is_hex c = (let n = (of_char c :: int) in (48 \<le> n \<and> n \<le> 57) \<or> (97 \<le> n \<and> n \<le> 102))"
  by (simp add: is_hex_def Let_def of_char_nat_int)

lemma hex_not_space: "is_hex c \<Longrightarrow> \<not> py_space c"
  by (auto simp: is_hex_def py_space_def Let_def)

lemma hex64_solid: "hex64 s \<Longrightarrow> solid s"
  by (cases "s = []") (auto simp: hex64_def solid_iff list_all_iff dest!: hex_not_space)

locale digest =
  fixes H :: "string \<Rightarrow> string"
  assumes hex_digest: "hex64 (H s)"
begin

lemma solid_digest: "solid (H s)"
  by (rule hex64_solid [OF hex_digest])

lemma nonblank_digest: "strip (H s) \<noteq> []"
  using solid_digest by (simp add: solid_def)

end

text \<open>A digest for concrete evaluations.\<close>

definition sample_hash :: "string \<Rightarrow> string" where
  "sample_hash s = replicate 64 CHR ''a''"

lemma hex64_sample_hash: "hex64 (sample_hash s)"
  by (simp add: hex64_def sample_hash_def is_hex_def list_all_iff)

end
