(* ===== verification/Task_Lifecycle.thy ===== *)
theory Task_Lifecycle
  imports Py_Prelude
begin

text \<open>
  The task status vocabulary (\<open>task_lifecycle.py\<close>), the attempt budget
  (\<open>task_retry/attempt_budget.py\<close>) and the minting of retry identities
  (\<open>task_retry/retry_identity.py\<close>).
\<close>

section \<open>Status vocabulary\<close>

definition TERMINAL_STATUSES :: "string set" where
  "TERMINAL_STATUSES =
     {''FINAL_BLOCK'', ''RETAINED_FOR_REVIEW'', ''REJECTED'', ''SUPERSEDED'', ''INTEGRATED'',
      ''INTEGRATION_FAILED'', ''CANCELLED'', ''REHEARSAL_VERIFIED'', ''DIRECT_COMPLETED'',
      ''DIRECT_RECONCILE_REQUIRED'', ''INTEGRATED_AND_CLEANED''}"

definition PENDING_CANDIDATE_STATUSES :: "string set" where
  "PENDING_CANDIDATE_STATUSES =
     {''PENDING_HUMAN_APPROVAL'', ''APPROVED'', ''APPROVAL_INVALIDATED'', ''INTEGRATING''}"

definition RESUMABLE_STATUSES :: "string set" where
  "RESUMABLE_STATUSES =
     {''WORKER_COMPLETED'', ''WORKER_ESCALATING'', ''CANDIDATE_CAPTURED'', ''VERIFIED''}"

definition ACTIVE_EXECUTION_STATUSES :: "string set" where
  "ACTIVE_EXECUTION_STATUSES =
     {''ADOPTING'', ''SUBMITTED'', ''TARGET_LEASED'', ''WORKER_RUNNING'', ''CANDIDATE_COMMITTED'',
      ''CANDIDATE_REF_PROTECTED'', ''TARGET_CLEANED''}"

definition INTEGRATION_INTERMEDIATE_STATUSES :: "string set" where
  "INTEGRATION_INTERMEDIATE_STATUSES =
     {''INTEGRATION_FAILED_PRE_APPLY'', ''INTEGRATION_VERIFY_FAILED_AFTER_APPLY'',
      ''INTEGRATED_TARGET_RETAINED''}"

definition DIRECT_EXECUTION_STATUSES :: "string set" where
  "DIRECT_EXECUTION_STATUSES =
     {''DIRECT_INTENT_RECORDED'', ''DIRECT_STARTED'', ''DIRECT_APPLIED'', ''DIRECT_VERIFIED'',
      ''DIRECT_COMMITTED''}"

definition INVALID_STATE_STATUSES :: "string set" where
  "INVALID_STATE_STATUSES = {''BLOCKED_INVALID_STATE''}"

definition DURABLE_SELF_HOSTED_STATUSES :: "string set" where
  "DURABLE_SELF_HOSTED_STATUSES =
     TERMINAL_STATUSES \<union> PENDING_CANDIDATE_STATUSES \<union> RESUMABLE_STATUSES \<union>
     ACTIVE_EXECUTION_STATUSES \<union> INTEGRATION_INTERMEDIATE_STATUSES \<union> DIRECT_EXECUTION_STATUSES"

definition KNOWN_SELF_HOSTED_STATUSES :: "string set" where
  "KNOWN_SELF_HOSTED_STATUSES = DURABLE_SELF_HOSTED_STATUSES \<union> INVALID_STATE_STATUSES"

definition RETRYABLE_TASK_STATUSES :: "string set" where
  "RETRYABLE_TASK_STATUSES = {''FINAL_BLOCK'', ''CANCELLED''}"

lemmas basic_status_defs =
  TERMINAL_STATUSES_def PENDING_CANDIDATE_STATUSES_def RESUMABLE_STATUSES_def
  ACTIVE_EXECUTION_STATUSES_def INTEGRATION_INTERMEDIATE_STATUSES_def
  DIRECT_EXECUTION_STATUSES_def INVALID_STATE_STATUSES_def

lemmas status_defs =
  basic_status_defs DURABLE_SELF_HOSTED_STATUSES_def KNOWN_SELF_HOSTED_STATUSES_def
  RETRYABLE_TASK_STATUSES_def

text \<open>The seven status families, in the order the module lists them.\<close>

definition status_families :: "string set list" where
  "status_families =
     [TERMINAL_STATUSES, PENDING_CANDIDATE_STATUSES, RESUMABLE_STATUSES, ACTIVE_EXECUTION_STATUSES,
      INTEGRATION_INTERMEDIATE_STATUSES, DIRECT_EXECUTION_STATUSES, INVALID_STATE_STATUSES]"

section \<open>Attempt budget\<close>

definition DEFAULT_MAXIMUM_ATTEMPTS_PER_TASK :: int where
  "DEFAULT_MAXIMUM_ATTEMPTS_PER_TASK = 5"

definition resolve_maximum_attempts :: "dict \<Rightarrow> int \<Rightarrow> int res" where
  "resolve_maximum_attempts request dflt =
     (case dget_opt request ''maximum_attempts_per_task'' of
        None \<Rightarrow> Inr dflt
      | Some raw \<Rightarrow>
          (case (if is_bool raw then Inl (ValueError, ''bool'') else py_int raw) of
             Inl e \<Rightarrow> if fst e \<in> {TypeError, ValueError}
                      then Inl (ValueError, ''ATTEMPT_BUDGET_INVALID:'' @ py_repr raw)
                      else Inl e
           | Inr value \<Rightarrow> if value < 1
                      then Inl (ValueError, ''ATTEMPT_BUDGET_INVALID:'' @ py_repr raw)
                      else Inr value))"

section \<open>Retry identity\<close>

record retry_identity =
  ri_task_id :: string
  ri_attempt_id :: string
  ri_action_id :: string
  ri_idempotency_key :: string

definition MAX_KEY_LENGTH :: nat where
  "MAX_KEY_LENGTH = 256"

definition retry_sep :: string where
  "retry_sep = '':retry-''"

definition retry_identity_to_dict :: "retry_identity \<Rightarrow> dict" where
  "retry_identity_to_dict r =
     [(''task_id'', PStr (ri_task_id r)), (''attempt_id'', PStr (ri_attempt_id r)),
      (''action_id'', PStr (ri_action_id r)), (''idempotency_key'', PStr (ri_idempotency_key r))]"

definition mint_retry_identity :: "dict \<Rightarrow> dict \<Rightarrow> string \<Rightarrow> retry_identity res" where
  "mint_retry_identity state request token =
     bindr (raise_if (token = [] \<or> CHR '':'' \<in> set token) ValueError ''RETRY_TOKEN_INVALID'') (\<lambda>_.
     let task_id = strip (str_or (py_or (dget state ''task_id'') (dget request ''task_id'')) '''') in
     bindr (raise_if (task_id = []) ValueError ''RETRY_TASK_ID_MISSING'') (\<lambda>_.
     let previous_key = str_or (py_or (dget state ''idempotency_key'')
                                      (dget request ''idempotency_key'')) task_id;
         base_key = before_sep retry_sep previous_key;
         suffix = retry_sep @ token
     in Inr \<lparr> ri_task_id = task_id,
              ri_attempt_id = ''attempt-'' @ token,
              ri_action_id = ''action-'' @ token,
              ri_idempotency_key = take (max 1 (MAX_KEY_LENGTH - length suffix)) base_key @ suffix \<rparr>))"

section \<open>Lemmas\<close>

subsection \<open>Splitting at a separator\<close>

definition occurs_in :: "string \<Rightarrow> string \<Rightarrow> bool" where
  "occurs_in p s \<longleftrightarrow> (\<exists>u v. s = u @ p @ v)"

lemma occurs_in_Cons: "occurs_in p (c # s) \<longleftrightarrow> starts_with p (c # s) \<or> occurs_in p s"
  unfolding occurs_in_def starts_with_iff
  by (metis append_Cons append_Nil append_eq_Cons_conv)

lemma occurs_in_prefix: "occurs_in p (take k s) \<Longrightarrow> occurs_in p s"
  unfolding occurs_in_def by (metis append.assoc append_take_drop_id)

lemma before_sep_prefix: "\<exists>k. before_sep sep s = take k s"
proof (induction sep s rule: before_sep.induct)
  case (2 sep c s)
  show ?case
  proof (cases "starts_with sep (c # s)")
    case True
    then show ?thesis by (auto intro: exI [of _ 0])
  next
    case False
    with 2 obtain k where "before_sep sep s = take k s" by blast
    with False have "before_sep sep (c # s) = take (Suc k) (c # s)" by simp
    then show ?thesis by blast
  qed
qed simp

lemma before_sep_no_occurrence: "sep \<noteq> [] \<Longrightarrow> \<not> occurs_in sep (before_sep sep s)"
proof (induction sep s rule: before_sep.induct)
  case (1 sep)
  then show ?case by (simp add: occurs_in_def)
next
  case (2 sep c s)
  show ?case
  proof (cases "starts_with sep (c # s)")
    case True
    with 2 show ?thesis by (simp add: occurs_in_def)
  next
    case False
    obtain k where k: "before_sep sep s = take k s" using before_sep_prefix by blast
    have "\<not> starts_with sep (c # before_sep sep s)"
      using False k unfolding starts_with_iff
      by (metis append.assoc append_take_drop_id take_Suc_Cons)
    with False 2 show ?thesis by (simp add: occurs_in_Cons)
  qed
qed

text \<open>A separator whose first character does not recur in it cannot overlap itself.\<close>

lemma before_sep_append:
  assumes "sep \<noteq> []" and "\<And>m. 0 < m \<Longrightarrow> m < length sep \<Longrightarrow> sep ! m \<noteq> sep ! 0"
    and "\<not> occurs_in sep b"
  shows "before_sep sep (b @ sep @ t) = b"
  using assms(3)
proof (induction b)
  case Nil
  show ?case using assms(1) by (cases sep) (auto simp: starts_with_def)
next
  case (Cons c b)
  have "\<not> starts_with sep ((c # b) @ sep @ t)"
  proof
    assume st: "starts_with sep ((c # b) @ sep @ t)"
    let ?m = "length (c # b)"
    show False
    proof (cases "?m < length sep")
      case True
      have "sep ! ?m = ((c # b) @ sep @ t) ! ?m"
        using st True by (metis starts_with_def nth_take)
      also have "\<dots> = sep ! 0" using assms(1) by (simp add: nth_append)
      finally show False using assms(2) [of ?m] True by simp
    next
      case False
      then have "take (length sep) ((c # b) @ sep @ t) = take (length sep) (c # b)"
        by (subst take_append) simp
      then have "starts_with sep (c # b)" using st by (simp only: starts_with_def)
      with Cons.prems show False by (simp add: occurs_in_Cons)
    qed
  qed
  with Cons show ?case by (simp add: occurs_in_Cons)
qed

lemma retry_sep_no_overlap: "0 < m \<Longrightarrow> m < length retry_sep \<Longrightarrow> retry_sep ! m \<noteq> retry_sep ! 0"
  by (auto simp: retry_sep_def less_Suc_eq numeral_2_eq_2 numeral_eq_Suc)

lemma retry_sep_neq_Nil [simp]: "retry_sep \<noteq> []"
  by (simp add: retry_sep_def)

text \<open>Two keys with tokens free of colons agree only when the tokens do.\<close>

lemma retry_suffix_inj:
  assumes "b @ retry_sep @ t = b' @ retry_sep @ t'" and "CHR '':'' \<notin> set t" and "CHR '':'' \<notin> set t'"
  shows "b = b' \<and> t = t'"
proof -
  let ?q = "\<lambda>s. takeWhile (\<lambda>c. c \<noteq> CHR '':'') (rev s)"
  have q: "?q (x @ retry_sep @ y) = rev y @ ''-yrter''" if "CHR '':'' \<notin> set y" for x y
  proof -
    have "\<forall>c \<in> set (rev y). c \<noteq> CHR '':''" using that by auto
    then show ?thesis by (simp add: retry_sep_def takeWhile_append)
  qed
  from q [OF assms(2), of b] q [OF assms(3), of b'] assms(1) have "t = t'" by simp
  with assms(1) show ?thesis by simp
qed

lemma mint_retry_identity_eq_Inr:
  "mint_retry_identity st rq token = Inr r \<longleftrightarrow>
     token \<noteq> [] \<and> CHR '':'' \<notin> set token \<and>
     strip (str_or (py_or (dget st ''task_id'') (dget rq ''task_id'')) '''') \<noteq> [] \<and>
     r = \<lparr> ri_task_id = strip (str_or (py_or (dget st ''task_id'') (dget rq ''task_id'')) ''''),
           ri_attempt_id = ''attempt-'' @ token,
           ri_action_id = ''action-'' @ token,
           ri_idempotency_key =
             take (max 1 (MAX_KEY_LENGTH - length (retry_sep @ token)))
               (before_sep retry_sep
                 (str_or (py_or (dget st ''idempotency_key'') (dget rq ''idempotency_key''))
                   (strip (str_or (py_or (dget st ''task_id'') (dget rq ''task_id'')) ''''))))
             @ retry_sep @ token \<rparr>"
  by (auto simp: mint_retry_identity_def Let_def res_simps)

lemma mint_retry_identity_key:
  assumes "mint_retry_identity st rq token = Inr r"
  obtains b where "ri_idempotency_key r = b @ retry_sep @ token" and "\<not> occurs_in retry_sep b"
    and "length b \<le> max 1 (MAX_KEY_LENGTH - length (retry_sep @ token))" and "CHR '':'' \<notin> set token"
proof -
  let ?k = "max 1 (MAX_KEY_LENGTH - length (retry_sep @ token))"
  from assms obtain s where key: "ri_idempotency_key r = take ?k (before_sep retry_sep s) @ retry_sep @ token"
    and "CHR '':'' \<notin> set token"
    by (auto simp: mint_retry_identity_eq_Inr)
  moreover have "\<not> occurs_in retry_sep (take ?k (before_sep retry_sep s))"
    using before_sep_no_occurrence [of retry_sep s] occurs_in_prefix retry_sep_neq_Nil by metis
  ultimately show ?thesis by (intro that [OF key]) simp_all
qed

section \<open>Properties\<close>

text \<open>
  The seven status families are pairwise disjoint and together are
  exactly the known statuses; every retryable status is terminal, and no status that a running,
  pending or resumable task can have is retryable.
\<close>

theorem status_partition:
  "\<Union> (set status_families) = KNOWN_SELF_HOSTED_STATUSES \<and>
   sorted_wrt disjnt status_families \<and>
   RETRYABLE_TASK_STATUSES \<subseteq> TERMINAL_STATUSES \<and>
   RETRYABLE_TASK_STATUSES \<inter> (PENDING_CANDIDATE_STATUSES \<union> RESUMABLE_STATUSES \<union>
     ACTIVE_EXECUTION_STATUSES \<union> INTEGRATION_INTERMEDIATE_STATUSES \<union> DIRECT_EXECUTION_STATUSES) = {}"
proof (intro conjI)
  show "\<Union> (set status_families) = KNOWN_SELF_HOSTED_STATUSES"
    unfolding status_families_def KNOWN_SELF_HOSTED_STATUSES_def DURABLE_SELF_HOSTED_STATUSES_def
    by auto
  show "sorted_wrt disjnt status_families"
    by (simp add: status_families_def disjnt_def basic_status_defs)
  show "RETRYABLE_TASK_STATUSES \<subseteq> TERMINAL_STATUSES"
    by (simp add: status_defs)
  show "RETRYABLE_TASK_STATUSES \<inter> (PENDING_CANDIDATE_STATUSES \<union> RESUMABLE_STATUSES \<union>
     ACTIVE_EXECUTION_STATUSES \<union> INTEGRATION_INTERMEDIATE_STATUSES \<union> DIRECT_EXECUTION_STATUSES) = {}"
    by (simp add: status_defs)
qed

text \<open>
  The resolved budget is the default when the request has no
  budget entry; otherwise it is the integer the entry converts to, it is at least 1, and the
  entry is not a boolean. No other value is ever returned.
\<close>

theorem resolve_maximum_attempts_spec:
  "resolve_maximum_attempts request dflt = Inr n \<longleftrightarrow>
     (case dget_opt request ''maximum_attempts_per_task'' of
        None \<Rightarrow> n = dflt
      | Some raw \<Rightarrow> \<not> is_bool raw \<and> py_int raw = Inr n \<and> 1 \<le> n)"
  by (auto simp: resolve_maximum_attempts_def split: option.splits sum.splits if_splits)

text \<open>
  An infinite float budget is not reported as an invalid
  budget: the conversion raises OverflowError, which the handler does not catch.
\<close>

theorem resolve_maximum_attempts_overflow:
  "resolve_maximum_attempts [(''maximum_attempts_per_task'', PFloat (FInf neg))] dflt
     = Inl (OverflowError, ''cannot convert float infinity to integer'')"
  by (simp add: resolve_maximum_attempts_def dget_opt_def)

text \<open>
  Retrying a task whose key was itself minted by a retry replaces the
  token and keeps the rest of the key: for tokens of one length the key does not grow and the
  base never accumulates retry suffixes, however long the chain of retries is.
\<close>

theorem mint_retry_chain:
  assumes "mint_retry_identity st rq token = Inr r"
    and "dget st' ''idempotency_key'' = PStr (ri_idempotency_key r)"
    and "mint_retry_identity st' rq' token' = Inr r'"
    and "length token' = length token"
  shows "\<exists>b. ri_idempotency_key r = b @ retry_sep @ token \<and>
             ri_idempotency_key r' = b @ retry_sep @ token' \<and> \<not> occurs_in retry_sep b"
proof -
  from assms(1) obtain b where b: "ri_idempotency_key r = b @ retry_sep @ token"
    "\<not> occurs_in retry_sep b" "length b \<le> max 1 (MAX_KEY_LENGTH - length (retry_sep @ token))"
    by (rule mint_retry_identity_key)
  have "before_sep retry_sep (ri_idempotency_key r) = b"
    unfolding b(1) by (rule before_sep_append [OF _ _ b(2)]) (simp_all add: retry_sep_no_overlap)
  moreover have "str_or (py_or (dget st' ''idempotency_key'') v) s = ri_idempotency_key r" for v s
    by (simp add: assms(2) py_or_def b(1))
  ultimately have "ri_idempotency_key r' = b @ retry_sep @ token'"
    using assms(3,4) b(3) by (auto simp: mint_retry_identity_eq_Inr)
  with b show ?thesis by blast
qed

theorem mint_retry_chain_witness:
  "\<exists>b. ri_idempotency_key \<lparr>ri_task_id = ''t'', ri_attempt_id = ''attempt-aa'', ri_action_id = ''action-aa'',
                 ri_idempotency_key = ''t:retry-aa''\<rparr> = b @ retry_sep @ ''aa'' \<and>
       ri_idempotency_key \<lparr>ri_task_id = ''t'', ri_attempt_id = ''attempt-bb'', ri_action_id = ''action-bb'',
                 ri_idempotency_key = ''t:retry-bb''\<rparr> = b @ retry_sep @ ''bb'' \<and> \<not> occurs_in retry_sep b"
proof (rule mint_retry_chain)
  show "mint_retry_identity [(''task_id'', PStr ''t'')] [] ''aa'' =
    Inr \<lparr>ri_task_id = ''t'', ri_attempt_id = ''attempt-aa'', ri_action_id = ''action-aa'',
         ri_idempotency_key = ''t:retry-aa''\<rparr>"
    by code_simp
  show "dget [(''task_id'', PStr ''t''), (''idempotency_key'', PStr ''t:retry-aa'')] ''idempotency_key''
    = PStr (ri_idempotency_key \<lparr>ri_task_id = ''t'', ri_attempt_id = ''attempt-aa'',
         ri_action_id = ''action-aa'', ri_idempotency_key = ''t:retry-aa''\<rparr>)"
    by code_simp
  show "mint_retry_identity [(''task_id'', PStr ''t''), (''idempotency_key'', PStr ''t:retry-aa'')] [] ''bb'' =
    Inr \<lparr>ri_task_id = ''t'', ri_attempt_id = ''attempt-bb'', ri_action_id = ''action-bb'',
         ri_idempotency_key = ''t:retry-bb''\<rparr>"
    by code_simp
qed simp

text \<open>
  Two retries with different tokens never share an attempt id, an action
  id or an idempotency key, whatever the states they start from; a key has at most 256
  characters when its token has at most 248.
\<close>

theorem mint_retry_fresh:
  assumes "mint_retry_identity st rq token = Inr r" and "mint_retry_identity st' rq' token' = Inr r'"
    and "token \<noteq> token'"
  shows "ri_attempt_id r \<noteq> ri_attempt_id r' \<and> ri_action_id r \<noteq> ri_action_id r' \<and>
         ri_idempotency_key r \<noteq> ri_idempotency_key r' \<and>
         (length token \<le> 248 \<longrightarrow> length (ri_idempotency_key r) \<le> 256)"
proof -
  from assms(1) obtain b where b: "ri_idempotency_key r = b @ retry_sep @ token"
    "length b \<le> max 1 (MAX_KEY_LENGTH - length (retry_sep @ token))" "CHR '':'' \<notin> set token"
    by (rule mint_retry_identity_key)
  from assms(2) obtain b' where b': "ri_idempotency_key r' = b' @ retry_sep @ token'" "CHR '':'' \<notin> set token'"
    by (rule mint_retry_identity_key)
  have "ri_idempotency_key r \<noteq> ri_idempotency_key r'"
    using b b' assms(3) retry_suffix_inj [of b token b' token'] by auto
  moreover have "length token \<le> 248 \<longrightarrow> length (ri_idempotency_key r) \<le> 256"
    using b by (auto simp: MAX_KEY_LENGTH_def retry_sep_def)
  ultimately show ?thesis
    using assms by (auto simp: mint_retry_identity_eq_Inr)
qed

theorem mint_retry_fresh_witness:
  "ri_idempotency_key \<lparr>ri_task_id = ''t'', ri_attempt_id = ''attempt-a'', ri_action_id = ''action-a'',
        ri_idempotency_key = ''t:retry-a''\<rparr> \<noteq>
   ri_idempotency_key \<lparr>ri_task_id = ''t'', ri_attempt_id = ''attempt-b'', ri_action_id = ''action-b'',
        ri_idempotency_key = ''t:retry-b''\<rparr>"
proof -
  have a: "mint_retry_identity [(''task_id'', PStr ''t'')] [] ''a'' =
    Inr \<lparr>ri_task_id = ''t'', ri_attempt_id = ''attempt-a'', ri_action_id = ''action-a'',
         ri_idempotency_key = ''t:retry-a''\<rparr>"
    by code_simp
  have b: "mint_retry_identity [(''task_id'', PStr ''t'')] [] ''b'' =
    Inr \<lparr>ri_task_id = ''t'', ri_attempt_id = ''attempt-b'', ri_action_id = ''action-b'',
         ri_idempotency_key = ''t:retry-b''\<rparr>"
    by code_simp
  have "''a'' \<noteq> ''b''" by simp
  from mint_retry_fresh [OF a b this] show ?thesis by blast
qed

end
