(* ===== verification/Py_Json.thy ===== *)
theory Py_Json
  imports Py_Prelude
begin

text \<open>
  Python's \<open>json\<close> module as the runtime uses it: \<open>json.dumps\<close> with \<open>sort_keys=True\<close> and compact
  separators (the canonical text every content hash is taken of), and the value that
  \<open>json.loads\<close> gives back for such a text. The main fact is that the canonical text determines
  the value up to the order of dictionary keys and the difference of lists and tuples, so a
  content hash binds the content up to a collision of the hash function.
\<close>

section \<open>Canonical text\<close>

definition json_char :: "bool \<Rightarrow> char \<Rightarrow> string" where
  "json_char ascii c = (let n = (of_char c :: nat); bs = char_of (92::nat) in
     if n = 34 \<or> n = 92 then [bs, c]
     else if n = 10 then [bs, CHR ''n'']
     else if n = 13 then [bs, CHR ''r'']
     else if n = 9 then [bs, CHR ''t'']
     else if n = 12 then [bs, CHR ''f'']
     else if n = 8 then [bs, CHR ''b'']
     else if n < 32 \<or> (ascii \<and> 127 \<le> n)
     then [bs, CHR ''u'', CHR ''0'', CHR ''0'', hex_digit (n div 16), hex_digit (n mod 16)]
     else [c])"

definition json_str :: "bool \<Rightarrow> string \<Rightarrow> string" where
  "json_str ascii s = CHR 0x22 # concat (map (json_char ascii) s) @ [CHR 0x22]"

fun json_float :: "bool \<Rightarrow> pyfloat \<Rightarrow> string res" where
  "json_float allow_nan (FFin _ t) = Inr t"
| "json_float allow_nan (FInf neg) =
     (if allow_nan then Inr (if neg then ''-Infinity'' else ''Infinity'')
      else Inl (ValueError, ''Out of range float values are not JSON compliant''))"
| "json_float allow_nan FNan =
     (if allow_nan then Inr ''NaN''
      else Inl (ValueError, ''Out of range float values are not JSON compliant''))"

fun json_dumps :: "bool \<Rightarrow> bool \<Rightarrow> pyval \<Rightarrow> string res" where
  "json_dumps a n PNone = Inr ''null''"
| "json_dumps a n (PBool b) = Inr (if b then ''true'' else ''false'')"
| "json_dumps a n (PInt i) = Inr (show_int i)"
| "json_dumps a n (PFloat f) = json_float n f"
| "json_dumps a n (PStr s) = Inr (json_str a s)"
| "json_dumps a n (PList xs) =
     bindr (map_res (json_dumps a n) xs) (\<lambda>ss. Inr (''['' @ join '','' ss @ '']''))"
| "json_dumps a n (PTuple xs) =
     bindr (map_res (json_dumps a n) xs) (\<lambda>ss. Inr (''['' @ join '','' ss @ '']''))"
| "json_dumps a n (PDict d) =
     bindr (map_res (\<lambda>p. bindr (json_dumps a n (snd p)) (\<lambda>s. Inr (json_str a (fst p) @ '':'' @ s)))
              (sort_key fst d))
       (\<lambda>ss. Inr (''{'' @ join '','' ss @ ''}''))"
| "json_dumps a n (PObj r) = Inl (TypeError, ''Object is not JSON serializable: '' @ r)"

section \<open>The value read back\<close>

text \<open>
  \<open>json.loads(json.dumps(v, sort_keys=True))\<close>: tuples come back as lists, keys in sorted order.
\<close>

fun json_norm :: "pyval \<Rightarrow> pyval" where
  "json_norm (PList xs) = PList (map json_norm xs)"
| "json_norm (PTuple xs) = PList (map json_norm xs)"
| "json_norm (PDict d) = PDict (map (\<lambda>p. (fst p, json_norm (snd p))) (sort_key fst d))"
| "json_norm v = v"

text \<open>What \<open>json.dump\<close> accepts: no object of another class anywhere inside.\<close>

fun json_ok :: "pyval \<Rightarrow> bool" where
  "json_ok (PList xs) = (\<forall>x \<in> set xs. json_ok x)"
| "json_ok (PTuple xs) = (\<forall>x \<in> set xs. json_ok x)"
| "json_ok (PDict d) = (\<forall>p \<in> set d. json_ok (snd p))"
| "json_ok (PObj _) = False"
| "json_ok _ = True"

fun no_float :: "pyval \<Rightarrow> bool" where
  "no_float (PList xs) = (\<forall>x \<in> set xs. no_float x)"
| "no_float (PTuple xs) = (\<forall>x \<in> set xs. no_float x)"
| "no_float (PDict d) = (\<forall>p \<in> set d. no_float (snd p))"
| "no_float (PFloat _) = False"
| "no_float _ = True"

lemma sort_key_fst_map_snd:
  "sort_key fst (map (\<lambda>p. (fst p, f (snd p))) d) = map (\<lambda>p. (fst p, f (snd p))) (sort_key fst d)"
proof -
  have ins: "insort_key fst (k, f v) (map (\<lambda>p. (fst p, f (snd p))) xs)
      = map (\<lambda>p. (fst p, f (snd p))) (insort_key fst (k, v) xs)" for k v xs
    by (induction xs) auto
  show ?thesis by (induction d) (auto simp: ins)
qed

lemma sort_key_sort_key [simp]: "sort_key fst (sort_key fst d) = sort_key fst d"
  by (rule sort_key_id_if_sorted) (rule sorted_sort_key)

lemma json_norm_idem [simp]: "json_norm (json_norm v) = json_norm v"
proof (induction v rule: json_norm.induct)
  case (3 d)
  then show ?case by (force simp: sort_key_fst_map_snd)
qed auto

lemma json_dumps_norm: "json_dumps a n (json_norm v) = json_dumps a n v"
proof (induction v rule: json_norm.induct)
  case (3 d)
  let ?f = "\<lambda>g p. bindr (json_dumps a n (g (snd p))) (\<lambda>s. Inr (json_str a (fst p) @ '':'' @ s))"
  have "map_res (?f json_norm) (sort_key fst d) = map_res (?f (\<lambda>v. v)) (sort_key fst d)"
    by (rule map_res_cong) (simp_all add: 3)
  then show ?case by (simp add: map_res_map sort_key_fst_map_snd)
qed (simp_all add: map_res_map cong: map_res_cong)

section \<open>The text determines the value\<close>

text \<open>On code points the escapes are plain arithmetic.\<close>

definition hex_code :: "nat \<Rightarrow> nat" where
  "hex_code d = (if d < 10 then 48 + d else 87 + d)"

definition hex_pair :: "nat \<Rightarrow> nat list" where
  "hex_pair n = [hex_code (n div 16), hex_code (n mod 16)]"

definition json_code :: "bool \<Rightarrow> nat \<Rightarrow> nat list" where
  "json_code ascii n =
    (if n = 34 \<or> n = 92 then [92, n]
     else if n = 10 then [92, 110]
     else if n = 13 then [92, 114]
     else if n = 9 then [92, 116]
     else if n = 12 then [92, 102]
     else if n = 8 then [92, 98]
     else if n < 32 \<or> (ascii \<and> 127 \<le> n) then [92, 117, 48, 48] @ hex_pair n
     else [n])"

text \<open>Reading one escaped code point back.\<close>

definition unhex :: "nat \<Rightarrow> nat" where
  "unhex c = (if c < 58 then c - 48 else c - 87)"

definition decode_hex :: "nat list \<Rightarrow> nat \<times> nat list" where
  "decode_hex r = (16 * unhex (hd (tl (tl r))) + unhex (hd (tl (tl (tl r)))), drop 4 r)"

definition decode_escape :: "nat list \<Rightarrow> nat \<times> nat list" where
  "decode_escape r = (if hd r = 117 then decode_hex (tl r)
     else (if hd r = 110 then 10 else if hd r = 114 then 13 else if hd r = 116 then 9
           else if hd r = 102 then 12 else if hd r = 98 then 8 else hd r, tl r))"

definition decode_one :: "nat list \<Rightarrow> nat \<times> nat list" where
  "decode_one r = (if hd r = 92 then decode_escape (tl r) else (hd r, tl r))"

lemma unhex_hex_code: "d < 16 \<Longrightarrow> unhex (hex_code d) = d"
  by (simp add: unhex_def hex_code_def)

lemma decode_hex_pair: "n < 256 \<Longrightarrow> decode_hex (48 # 48 # hex_pair n @ xs) = (n, xs)"
  using less_mult_imp_div_less [of n 16 16]
  by (simp add: decode_hex_def hex_pair_def unhex_hex_code)

lemma decode_json_code: "n < 256 \<Longrightarrow> decode_one (json_code a n @ xs) = (n, xs)"
  using decode_hex_pair [of n xs] by (simp add: json_code_def decode_one_def decode_escape_def)

lemma of_char_lt: "(of_char c :: nat) < 256"
proof -
  have "(of_char c :: nat) mod 256 = of_char c" by (rule of_char_mod_256)
  then show ?thesis by (metis mod_less_divisor zero_less_numeral)
qed

lemma of_char_hex_digit: "d < 16 \<Longrightarrow> (of_char (hex_digit d) :: nat) = hex_code d"
  by (simp add: hex_digit_def hex_code_def)

lemma of_char_json_char: "map of_char (json_char a c) = json_code a (of_char c)"
proof -
  have "(of_char c :: nat) div 16 < 16" 
    using of_char_lt [of c] by (intro less_mult_imp_div_less) simp
  then show ?thesis
    by (simp add: json_char_def json_code_def hex_pair_def of_char_hex_digit Let_def)
qed

lemma json_char_prefix_code:
  assumes "json_char a c @ xs = json_char a c' @ ys"
  shows "c = c' \<and> xs = ys"
proof -
  let ?f = "map (of_char :: char \<Rightarrow> nat)"
  from assms have "json_code a (of_char c) @ ?f xs = json_code a (of_char c') @ ?f ys"
    by (metis map_append of_char_json_char)
  then have "decode_one (json_code a (of_char c) @ ?f xs) = decode_one (json_code a (of_char c') @ ?f ys)"
    by (rule arg_cong)
  then have "(of_char c :: nat) = of_char c' \<and> ?f xs = ?f ys"
    by (simp add: decode_json_code of_char_lt del: of_char_eq_iff)
  then show ?thesis by (simp add: inj_map_eq_map inj_of_char)
qed

lemma hd_json_char: "json_char a c \<noteq> [] \<and> hd (json_char a c @ xs) \<noteq> CHR 0x22"
proof -
  have "json_code a (of_char c) \<noteq> [] \<and> hd (json_code a (of_char c)) \<noteq> 34"
    by (simp add: json_code_def)
  then have "json_char a c \<noteq> [] \<and> (of_char (hd (json_char a c)) :: nat) \<noteq> 34"
    by (metis of_char_json_char hd_map map_is_Nil_conv)
  then show ?thesis by auto
qed

lemma json_char_neq_quote [simp]:
  "json_char a c @ xs \<noteq> CHR 0x22 # ys" "CHR 0x22 # ys \<noteq> json_char a c @ xs"
  by (metis hd_json_char list.sel(1))+

lemma json_body_prefix_code:
  assumes "concat (map (json_char a) s) @ CHR 0x22 # xs = concat (map (json_char a) t) @ CHR 0x22 # ys"
  shows "s = t \<and> xs = ys"
  using assms
proof (induction s arbitrary: t)
  case Nil
  then show ?case by (cases t) auto
next
  case (Cons c s)
  show ?case
  proof (cases t)
    case Nil
    with Cons.prems show ?thesis by simp
  next
    fix c' r assume t: "t = c' # r"
    with Cons.prems have "json_char a c @ concat (map (json_char a) s) @ CHR 0x22 # xs
        = json_char a c' @ concat (map (json_char a) r) @ CHR 0x22 # ys" by simp
    from json_char_prefix_code [OF this] Cons.IH t show ?thesis by blast
  qed
qed

lemma json_str_prefix_code:
  "json_str a s @ xs = json_str a t @ ys \<Longrightarrow> s = t \<and> xs = ys"
  by (auto simp: json_str_def dest: json_body_prefix_code)

subsection \<open>Numbers\<close>

definition digits_val :: "string \<Rightarrow> nat" where
  "digits_val s = foldl (\<lambda>a c. 10 * a + (of_char c - 48)) 0 s"

lemma of_char_digit_char: "d < 10 \<Longrightarrow> (of_char (digit_char d) :: nat) = 48 + d"
  by (simp add: digit_char_def)

lemma digits_val_show_nat: "digits_val (show_nat n) = n"
proof (induction n rule: show_nat.induct)
  case (1 n)
  then show ?case
    by (cases "n < 10")
      (simp_all add: show_nat.simps [of n] digits_val_def of_char_digit_char)
qed

lemma show_nat_digits: "c \<in> set (show_nat n) \<Longrightarrow> is_digit c"
proof (induction n rule: show_nat.induct)
  case (1 n)
  then show ?case
    by (cases "n < 10")
      (auto simp: show_nat.simps [of n] is_digit_def of_char_digit_char)
qed

lemma show_nat_neq_Nil [simp]: "show_nat n \<noteq> []"
  by (subst show_nat.simps) simp

definition delim :: "string \<Rightarrow> bool" where
  "delim s \<longleftrightarrow> s = [] \<or> hd s \<in> {CHR '','', CHR '']'', CHR ''}''}"

lemma not_digit_delim:
  "\<not> is_digit CHR '',''" "\<not> is_digit CHR '']''" "\<not> is_digit CHR ''}''" "\<not> is_digit CHR ''-''"
  by (simp_all add: is_digit_def)

lemma takeWhile_show_nat: "delim xs \<Longrightarrow> takeWhile is_digit (show_nat n @ xs) = show_nat n"
  using show_nat_digits [of _ n]
  by (cases xs) (auto simp: delim_def not_digit_delim takeWhile_append2)

lemma show_nat_prefix_code:
  assumes "show_nat m @ xs = show_nat n @ ys" and "delim xs" and "delim ys"
  shows "m = n \<and> xs = ys"
proof -
  have "show_nat m = show_nat n" using assms by (metis takeWhile_show_nat)
  then show ?thesis using assms(1) by (metis digits_val_show_nat same_append_eq)
qed

lemma hd_show_nat: "is_digit (hd (show_nat n))"
  by (meson hd_in_set show_nat_digits show_nat_neq_Nil)

lemma show_nat_neq_Cons: "\<not> is_digit c \<Longrightarrow> show_nat n @ xs \<noteq> c # ys"
  by (metis hd_append hd_show_nat list.sel(1) show_nat_neq_Nil)

lemma show_int_prefix_code:
  assumes "show_int i @ xs = show_int j @ ys" and "delim xs" and "delim ys"
  shows "i = j \<and> xs = ys"
proof -
  have neg: "(i < 0) = (j < 0)"
  proof (rule ccontr)
    assume "(i < 0) \<noteq> (j < 0)"
    then show False
      using assms(1) show_nat_neq_Cons [OF not_digit_delim(4)]
      by (cases "i < 0") (auto simp: show_int_def dest: sym)
  qed
  with assms show ?thesis
    by (cases "i < 0") (auto simp: show_int_def dest!: show_nat_prefix_code)
qed

lemma show_int_neq_Cons:
  assumes "\<not> is_digit c" and "c \<noteq> CHR ''-''"
  shows "show_int i @ xs \<noteq> c # ys" and "c # ys \<noteq> show_int i @ xs"
proof -
  from assms show "show_int i @ xs \<noteq> c # ys" by (simp add: show_int_def show_nat_neq_Cons)
  then show "c # ys \<noteq> show_int i @ xs" by metis
qed

subsection \<open>Sequences\<close>

abbreviation comma_tail :: "string list \<Rightarrow> string" where
  "comma_tail ss \<equiv> concat (map (\<lambda>s. CHR '','' # s) ss)"

lemma join_Cons: "join '','' (s # ss) = s @ comma_tail ss"
  by (induction ss arbitrary: s) auto

lemma delim_comma_tail: "c \<in> {CHR '']'', CHR ''}''} \<Longrightarrow> delim (comma_tail ss @ c # xs)"
  by (cases ss) (auto simp: delim_def)

lemma comma_tail_prefix_code:
  assumes "list_all2 R vs ss" and "list_all2 R ws ts"
    and "\<And>v w s t xs ys. v \<in> set vs \<Longrightarrow> w \<in> set ws \<Longrightarrow> R v s \<Longrightarrow> R w t \<Longrightarrow> s @ xs = t @ ys \<Longrightarrow>
           delim xs \<Longrightarrow> delim ys \<Longrightarrow> g v = g w \<and> xs = ys"
    and "c \<in> {CHR '']'', CHR ''}''}" and "comma_tail ss @ c # xs = comma_tail ts @ c # ys"
  shows "map g vs = map g ws \<and> xs = ys"
  using assms
proof (induction vs arbitrary: ss ws ts)
  case Nil
  then show ?case by (cases ts) (auto simp: list_all2_Cons2)
next
  case (Cons v vs)
  from Cons.prems(1) obtain s ss' where ss: "ss = s # ss'" "R v s" "list_all2 R vs ss'"
    by (auto simp: list_all2_Cons1)
  from Cons.prems(5,4) ss obtain t ts' where ts: "ts = t # ts'" by (cases ts) auto
  with Cons.prems(2) obtain w ws' where ws: "ws = w # ws'" "R w t" "list_all2 R ws' ts'"
    by (auto simp: list_all2_Cons2)
  have "s @ comma_tail ss' @ c # xs = t @ comma_tail ts' @ c # ys"
    using Cons.prems(5) by (simp add: ss ts)
  then have hd: "g v = g w" and tl: "comma_tail ss' @ c # xs = comma_tail ts' @ c # ys"
    using Cons.prems(3) [of v w s t] ss ws delim_comma_tail [OF Cons.prems(4)] by auto
  have "map g vs = map g ws' \<and> xs = ys"
  proof (rule Cons.IH [OF ss(3) ws(3) _ Cons.prems(4) tl])
    fix v' w' s' t' xs' ys'
    assume "v' \<in> set vs" "w' \<in> set ws'" "R v' s'" "R w' t'" "s' @ xs' = t' @ ys'" "delim xs'" "delim ys'"
    then show "g v' = g w' \<and> xs' = ys'"
      using Cons.prems(3) [of v' w' s' t' xs' ys'] by (simp add: ws)
  qed
  with hd show ?case by (simp add: ws)
qed

lemma join_prefix_code:
  assumes "list_all2 R vs ss" and "list_all2 R ws ts"
    and step: "\<And>v w s t xs ys. v \<in> set vs \<Longrightarrow> w \<in> set ws \<Longrightarrow> R v s \<Longrightarrow> R w t \<Longrightarrow> s @ xs = t @ ys \<Longrightarrow>
           delim xs \<Longrightarrow> delim ys \<Longrightarrow> g v = g w \<and> xs = ys"
    and hd: "\<And>v s xs ys. R v s \<Longrightarrow> s @ xs \<noteq> c # ys"
    and c: "c \<in> {CHR '']'', CHR ''}''}" and eq: "join '','' ss @ c # xs = join '','' ts @ c # ys"
  shows "map g vs = map g ws \<and> xs = ys"
proof (cases "ss = [] \<or> ts = []")
  case True
  have "ts = []" if "ss = []"
  proof (rule ccontr)
    assume "ts \<noteq> []"
    then obtain t ts' w ws' where "ts = t # ts'" "R w t"
      using assms(2) by (auto simp: neq_Nil_conv list_all2_Cons2)
    with hd [of w t] eq that show False by (metis append.assoc append.simps(1) join.simps(1) join_Cons)
  qed
  moreover have "ss = []" if "ts = []"
  proof (rule ccontr)
    assume "ss \<noteq> []"
    then obtain s ss' v vs' where "ss = s # ss'" "R v s"
      using assms(1) by (auto simp: neq_Nil_conv list_all2_Cons2)
    with hd [of v s] eq that show False by (metis append.assoc append.simps(1) join.simps(1) join_Cons)
  qed
  ultimately have "ss = [] \<and> ts = []" using True by blast
  with assms(1,2) eq show ?thesis by simp
next
  case False
  then obtain s ss' t ts' where st: "ss = s # ss'" "ts = t # ts'" by (meson neq_Nil_conv)
  with eq have "comma_tail ss @ c # xs = comma_tail ts @ c # ys" by (simp add: join_Cons)
  from comma_tail_prefix_code [where g = g and R = R, OF assms(1,2) step c this] show ?thesis .
qed

subsection \<open>Fractions\<close>

text \<open>
  The texts \<open>repr\<close> gives for floating-point numbers. A finite one has a fraction or an exponent, so it is never
  the text of an integer; its value is that of its text, which is all that the text of a value tells.
\<close>

definition number_char :: "char \<Rightarrow> bool" where
  "number_char c \<longleftrightarrow> is_digit c \<or> c \<in> {CHR ''-'', CHR ''+'', CHR ''.'', CHR ''e''}"

fun float_text :: "pyfloat \<Rightarrow> bool" where
  "float_text (FFin _ t) = (list_all number_char t \<and> (CHR ''.'' \<in> set t \<or> CHR ''e'' \<in> set t))"
| "float_text _ = True"

fun float_texts :: "pyval \<Rightarrow> bool" where
  "float_texts (PList xs) = (\<forall>x \<in> set xs. float_texts x)"
| "float_texts (PTuple xs) = (\<forall>x \<in> set xs. float_texts x)"
| "float_texts (PDict d) = (\<forall>p \<in> set d. float_texts (snd p))"
| "float_texts (PFloat f) = float_text f"
| "float_texts _ = True"

text \<open>The value read back, with a finite floating-point number known by its text only.\<close>

fun json_shape :: "pyval \<Rightarrow> pyval" where
  "json_shape (PList xs) = PList (map json_shape xs)"
| "json_shape (PTuple xs) = PList (map json_shape xs)"
| "json_shape (PDict d) = PDict (map (\<lambda>p. (fst p, json_shape (snd p))) (sort_key fst d))"
| "json_shape (PFloat (FFin r t)) = PFloat (FFin 0 t)"
| "json_shape v = v"

lemma no_float_texts: "no_float v \<Longrightarrow> float_texts v"
  by (induction v rule: json_norm.induct) auto

lemma json_shape_no_float: "no_float v \<Longrightarrow> json_shape v = json_norm v"
  by (induction v rule: json_norm.induct) auto

lemma number_char_delim: "delim xs \<Longrightarrow> takeWhile number_char xs = []"
  by (cases xs) (auto simp: delim_def number_char_def is_digit_def)

lemma number_text_prefix_code:
  assumes "list_all number_char s" and "list_all number_char t" and "s @ xs = t @ ys" and "delim xs" and "delim ys"
  shows "s = t \<and> xs = ys"
proof -
  have "takeWhile number_char (s @ xs) = s" if "list_all number_char s" "delim xs" for s xs
    using that by (simp add: number_char_delim list_all_iff)
  from this [OF assms(1,4)] this [OF assms(2,5)] have "s = t" by (simp add: assms(3))
  with assms(3) show ?thesis by simp
qed

lemma show_int_number_chars: "list_all number_char (show_int i)" "CHR ''.'' \<notin> set (show_int i)" "CHR ''e'' \<notin> set (show_int i)"
  using show_nat_digits by (auto simp: show_int_def list_all_iff number_char_def is_digit_def dest: show_nat_digits)

lemma show_int_neq_float:
  assumes "float_text (FFin r t)" and "delim xs" and "delim ys"
  shows "show_int i @ xs \<noteq> t @ ys" "t @ ys \<noteq> show_int i @ xs"
proof -
  show "show_int i @ xs \<noteq> t @ ys"
    using number_text_prefix_code [OF show_int_number_chars(1) _ _ assms(2,3), of t i] assms(1) show_int_number_chars(2,3) [of i]
    by auto
  then show "t @ ys \<noteq> show_int i @ xs" by metis
qed

lemma float_text_neq_Cons:
  assumes "float_text (FFin r t)" and "\<not> number_char c"
  shows "t @ xs \<noteq> c # ys" "c # ys \<noteq> t @ xs"
proof -
  from assms show "t @ xs \<noteq> c # ys" by (cases t) auto
  then show "c # ys \<noteq> t @ xs" by metis
qed

text \<open>The text of minus infinity is no number followed by a delimiter.\<close>

lemma minus_infinity_prefix:
  assumes "list_all number_char t" and "delim ys" and "t @ ys = CHR ''-'' # CHR ''I'' # zs"
  shows False
proof (cases t)
  case Nil
  with assms show ?thesis by (auto simp: delim_def)
next
  case (Cons c cs)
  with assms show ?thesis by (cases cs) (auto simp: delim_def number_char_def is_digit_def)
qed

lemma minus_infinity_no_number:
  assumes "list_all number_char t" and "delim ys"
  shows "t @ ys \<noteq> CHR ''-'' # CHR ''I'' # zs" "CHR ''-'' # CHR ''I'' # zs \<noteq> t @ ys"
  using minus_infinity_prefix [OF assms, of zs] by metis+

subsection \<open>Values\<close>

lemma json_dumps_hd:
  "json_dumps a n v = Inr s \<Longrightarrow> float_texts v \<Longrightarrow> c \<in> {CHR '']'', CHR ''}'', CHR '',''} \<Longrightarrow> s @ xs \<noteq> c # ys"
  by (cases v rule: json_shape.cases)
    (auto simp: res_simps json_str_def show_int_neq_Cons not_digit_delim number_char_def float_text_neq_Cons split: if_splits)

text \<open>The first character tells the kind of value.\<close>

lemmas json_mismatch = res_simps json_str_def show_int_neq_Cons is_digit_def number_char_def float_text_neq_Cons show_int_neq_float
  show_int_number_chars minus_infinity_no_number

lemma json_list_prefix_code:
  assumes IH: "\<And>v w s t xs ys. v \<in> set vs \<Longrightarrow> json_dumps a n v = Inr s \<Longrightarrow> json_dumps a n w = Inr t \<Longrightarrow>
      float_texts v \<Longrightarrow> float_texts w \<Longrightarrow> s @ xs = t @ ys \<Longrightarrow> delim xs \<Longrightarrow> delim ys \<Longrightarrow>
      json_shape v = json_shape w \<and> xs = ys"
    and "map_res (json_dumps a n) vs = Inr ss" and "map_res (json_dumps a n) ws = Inr ts"
    and ok: "\<forall>v \<in> set vs. float_texts v" "\<forall>w \<in> set ws. float_texts w"
    and eq: "join '','' ss @ CHR '']'' # xs = join '','' ts @ CHR '']'' # ys"
  shows "map json_shape vs = map json_shape ws \<and> xs = ys"
proof -
  let ?R = "\<lambda>v s. json_dumps a n v = Inr s \<and> float_texts v"
  have R: "list_all2 ?R vs ss" "list_all2 ?R ws ts"
    using assms(2,3) ok by (auto simp: map_res_eq_Inr list_all2_conv_all_nth)
  show ?thesis
    by (rule join_prefix_code [OF R _ _ _ eq])
      (use IH json_dumps_hd in \<open>blast+\<close>)
qed

lemma json_dict_prefix_code:
  fixes d e :: dict
  assumes IH: "\<And>p w s t xs ys. p \<in> set d \<Longrightarrow> json_dumps a n (snd p) = Inr s \<Longrightarrow> json_dumps a n w = Inr t \<Longrightarrow>
      float_texts (snd p) \<Longrightarrow> float_texts w \<Longrightarrow> s @ xs = t @ ys \<Longrightarrow> delim xs \<Longrightarrow> delim ys \<Longrightarrow>
      json_shape (snd p) = json_shape w \<and> xs = ys"
    and "map_res (\<lambda>p. bindr (json_dumps a n (snd p)) (\<lambda>s. Inr (json_str a (fst p) @ '':'' @ s))) d = Inr ss"
    and "map_res (\<lambda>p. bindr (json_dumps a n (snd p)) (\<lambda>s. Inr (json_str a (fst p) @ '':'' @ s))) e = Inr ts"
    and ok: "\<forall>p \<in> set d. float_texts (snd p)" "\<forall>p \<in> set e. float_texts (snd p)"
    and eq: "join '','' ss @ CHR ''}'' # xs = join '','' ts @ CHR ''}'' # ys"
  shows "map (\<lambda>p. (fst p, json_shape (snd p))) d = map (\<lambda>p. (fst p, json_shape (snd p))) e \<and> xs = ys"
proof -
  let ?R = "\<lambda>p t. (\<exists>s. json_dumps a n (snd p) = Inr s \<and> t = json_str a (fst p) @ '':'' @ s) \<and> float_texts (snd p)"
  have R: "list_all2 ?R d ss" "list_all2 ?R e ts"
    using assms(2,3) ok by (auto simp: map_res_eq_Inr list_all2_conv_all_nth res_simps)
  show ?thesis
  proof (rule join_prefix_code [OF R _ _ _ eq])
    fix p q s t xs ys
    assume "p \<in> set d" and p: "?R p s" and q: "?R q t" and eq: "s @ xs = t @ ys" and dl: "delim xs" "delim ys"
    then obtain s' t' where s': "json_dumps a n (snd p) = Inr s'" "s = json_str a (fst p) @ '':'' @ s'"
      and t': "json_dumps a n (snd q) = Inr t'" "t = json_str a (fst q) @ '':'' @ t'" by blast
    have "fst p = fst q \<and> CHR '':'' # s' @ xs = CHR '':'' # t' @ ys"
      using eq by (intro json_str_prefix_code [of a]) (simp add: s' t')
    with IH [OF \<open>p \<in> set d\<close> s'(1) t'(1) _ _ _ dl] p q
    show "(fst p, json_shape (snd p)) = (fst q, json_shape (snd q)) \<and> xs = ys" by simp
  qed (auto simp: json_str_def)
qed

lemma json_dumps_prefix_code:
  assumes "json_dumps a n v = Inr s" and "json_dumps a n w = Inr t" and "float_texts v" and "float_texts w"
    and "s @ xs = t @ ys" and "delim xs" and "delim ys"
  shows "json_shape v = json_shape w \<and> xs = ys"
  using assms
proof (induction v arbitrary: w s t xs ys rule: json_shape.induct)
  case (1 vs)
  have step: "map_res (json_dumps a n) vs = Inr ss \<Longrightarrow> map_res (json_dumps a n) ws = Inr ts \<Longrightarrow>
      \<forall>v \<in> set vs. float_texts v \<Longrightarrow> \<forall>w \<in> set ws. float_texts w \<Longrightarrow>
      join '','' ss @ CHR '']'' # xs = join '','' ts @ CHR '']'' # ys \<Longrightarrow>
      map json_shape vs = map json_shape ws \<and> xs = ys" for ss ws ts
    by (rule json_list_prefix_code [OF "1.IH"])
  from "1.prems" show ?case
    by (cases w rule: json_shape.cases) (auto simp: json_mismatch split: if_splits dest: step)
next
  case (2 vs)
  have step: "map_res (json_dumps a n) vs = Inr ss \<Longrightarrow> map_res (json_dumps a n) ws = Inr ts \<Longrightarrow>
      \<forall>v \<in> set vs. float_texts v \<Longrightarrow> \<forall>w \<in> set ws. float_texts w \<Longrightarrow>
      join '','' ss @ CHR '']'' # xs = join '','' ts @ CHR '']'' # ys \<Longrightarrow>
      map json_shape vs = map json_shape ws \<and> xs = ys" for ss ws ts
    by (rule json_list_prefix_code [OF "2.IH"])
  from "2.prems" show ?case
    by (cases w rule: json_shape.cases) (auto simp: json_mismatch split: if_splits dest: step)
next
  case (3 d)
  let ?e = "\<lambda>p. bindr (json_dumps a n (snd p)) (\<lambda>s. Inr (json_str a (fst p) @ '':'' @ s))"
  let ?g = "\<lambda>p. (fst p, json_shape (snd p))"
  from "3.prems"(1,3) obtain ss where ss: "map_res ?e (sort_key fst d) = Inr ss"
    "s = ''{'' @ join '','' ss @ ''}''" "\<forall>p \<in> set (sort_key fst d). float_texts (snd p)"
    by (auto simp: res_simps)
  show ?case
  proof (cases w rule: json_shape.cases)
    case (3 e)
    note PDict = this
    from "3.prems"(2,4) obtain ts where ts: "map_res ?e (sort_key fst e) = Inr ts"
      "t = ''{'' @ join '','' ts @ ''}''" "\<forall>p \<in> set (sort_key fst e). float_texts (snd p)"
      by (auto simp: res_simps PDict)
    from "3.prems"(5) have eq: "join '','' ss @ CHR ''}'' # xs = join '','' ts @ CHR ''}'' # ys"
      by (simp add: ss ts)
    have "map ?g (sort_key fst d) = map ?g (sort_key fst e) \<and> xs = ys"
      by (rule json_dict_prefix_code [OF "3.IH" ss(1) ts(1) ss(3) ts(3) eq])
    then show ?thesis by (simp add: PDict)
  qed (use "3.prems" ss in \<open>auto simp: json_mismatch split: if_splits\<close>)
next
  case (4 r u)
  then have u: "s = u" "float_text (FFin r u)" "list_all number_char u" by simp_all
  show ?case
  proof (cases w rule: json_shape.cases)
    case (4 r' u')
    then have "t = u'" "list_all number_char u'" using "4.prems" by simp_all
    with number_text_prefix_code [OF u(3) _ _ "4.prems"(6,7), of u'] "4.prems"(5) 4 show ?thesis by (simp add: u(1))
  qed (use "4.prems"(2,4-7) u in \<open>auto simp: json_mismatch split: if_splits\<close>)
qed (case_tac w rule: json_shape.cases, auto simp: json_mismatch split: if_splits
    dest!: show_int_prefix_code json_body_prefix_code)+

theorem json_dumps_determines_value:
  assumes "json_dumps a n v = Inr s" and "json_dumps a n w = Inr s" and "no_float v" and "no_float w"
  shows "json_norm v = json_norm w"
  using json_dumps_prefix_code [OF assms(1,2), of "[]" "[]"] assms(3,4)
  by (simp add: delim_def no_float_texts json_shape_no_float)

theorem json_dumps_determines_shape:
  assumes "json_dumps a n v = Inr s" and "json_dumps a n w = Inr s" and "float_texts v" and "float_texts w"
  shows "json_shape v = json_shape w"
  using json_dumps_prefix_code [OF assms, of "[]" "[]"] by (simp add: delim_def)

text \<open>Fields of two dictionaries with the same canonical text.\<close>

lemma map_of_filter_key: "map_of d k = (case filter (\<lambda>p. fst p = k) d of [] \<Rightarrow> None | p # _ \<Rightarrow> Some (snd p))"
  by (induction d) auto

lemma map_of_sort_key: "map_of (sort_key fst d) k = map_of d k"
  unfolding map_of_filter_key sort_key_stable ..

lemma map_of_json_norm: "map_of (dict_of (json_norm (PDict d))) k = map_option json_norm (map_of d k)"
proof -
  have m: "map_of (map (\<lambda>p. (fst p, json_norm (snd p))) xs) k = map_option json_norm (map_of xs k)" for xs
    by (induction xs) auto
  show ?thesis by (simp add: m map_of_sort_key)
qed

lemma json_norm_PDict_fields:
  "json_norm (PDict d) = json_norm (PDict e) \<Longrightarrow>
     map_option json_norm (map_of d k) = map_option json_norm (map_of e k)"
  by (metis map_of_json_norm)

lemma json_norm_eq_scalar [simp]:
  "json_norm v = PStr s \<longleftrightarrow> v = PStr s" "json_norm v = PInt i \<longleftrightarrow> v = PInt i"
  by (cases v; auto)+

lemma map_json_norm_PStr [simp]: "map json_norm (map PStr xs) = map PStr xs"
  by simp

lemma inj_map_PStr [simp]: "map PStr xs = map PStr ys \<longleftrightarrow> xs = ys"
  by (simp add: inj_map_eq_map inj_def)

lemma json_shape_fields:
  "json_shape (PDict d) = json_shape (PDict e) \<Longrightarrow> map_option json_shape (map_of d k) = map_option json_shape (map_of e k)"
proof -
  have m: "map_of (map (\<lambda>p. (fst p, json_shape (snd p))) xs) k = map_option json_shape (map_of xs k)" for xs
    by (induction xs) auto
  assume "json_shape (PDict d) = json_shape (PDict e)"
  then have "map_of (map (\<lambda>p. (fst p, json_shape (snd p))) (sort_key fst d)) k =
      map_of (map (\<lambda>p. (fst p, json_shape (snd p))) (sort_key fst e)) k" by simp
  then show ?thesis by (simp add: m map_of_sort_key)
qed

lemma json_shape_eq_scalar [simp]:
  "json_shape v = PStr s \<longleftrightarrow> v = PStr s" "json_shape v = PInt i \<longleftrightarrow> v = PInt i"
  by (cases v rule: json_shape.cases; simp)+

text \<open>Printing succeeds on every value built from text, numbers and containers.\<close>

lemma map_res_total: "(\<And>x. x \<in> set xs \<Longrightarrow> \<exists>y. f x = Inr y) \<Longrightarrow> \<exists>ys. map_res f xs = Inr ys"
proof (induction xs)
  case (Cons x xs)
  then obtain y ys where "f x = Inr y" "map_res f xs = Inr ys" by (metis list.set_intros)
  then show ?case by simp
qed simp

lemma json_float_succeeds: "\<exists>s. json_float True f = Inr s"
  by (cases f) simp_all

lemma json_dumps_succeeds: "json_ok v \<Longrightarrow> no_float v \<or> n \<Longrightarrow> \<exists>s. json_dumps a n v = Inr s"
proof (induction v rule: json_norm.induct)
  case (1 xs)
  then have "\<exists>ys. map_res (json_dumps a n) xs = Inr ys" by (intro map_res_total) auto
  then show ?case by auto
next
  case (2 xs)
  then have "\<exists>ys. map_res (json_dumps a n) xs = Inr ys" by (intro map_res_total) auto
  then show ?case by auto
next
  case (3 d)
  let ?e = "\<lambda>p. bindr (json_dumps a n (snd p)) (\<lambda>s. Inr (json_str a (fst p) @ '':'' @ s))"
  have "\<exists>y. ?e p = Inr y" if "p \<in> set (sort_key fst d)" for p
  proof -
    have "json_ok (snd p)" "no_float (snd p) \<or> n" using that "3.prems" by auto
    with "3.IH" [OF that] have "\<exists>s. json_dumps a n (snd p) = Inr s" by blast
    then show ?thesis by auto
  qed
  then have "\<exists>ys. map_res ?e (sort_key fst d) = Inr ys" by (rule map_res_total)
  then show ?case by auto
qed (auto intro: json_float_succeeds)

lemma json_dumps_total: "json_ok v \<Longrightarrow> no_float v \<Longrightarrow> \<exists>s. json_dumps a n v = Inr s"
  by (rule json_dumps_succeeds) simp_all


lemma json_char_int [code]:
  "json_char ascii c = (let n = (of_char c :: int); bs = CHR 0x5C in
     if n = 34 \<or> n = 92 then [bs, c]
     else if n = 10 then [bs, CHR ''n'']
     else if n = 13 then [bs, CHR ''r'']
     else if n = 9 then [bs, CHR ''t'']
     else if n = 12 then [bs, CHR ''f'']
     else if n = 8 then [bs, CHR ''b'']
     else if n < 32 \<or> (ascii \<and> 127 \<le> n)
     then [bs, CHR ''u'', CHR ''0'', CHR ''0'', hex_digit (of_char c div 16), hex_digit (of_char c mod 16)]
     else [c])"
proof -
  have "char_of (92::nat) = CHR 0x5C" by code_simp
  then show ?thesis by (simp add: json_char_def Let_def of_char_nat_int)
qed

end
