(* ===== verification/Bounded_Reconciliation.thy ===== *)
theory Bounded_Reconciliation
  imports Py_Json
begin

text \<open>
  The bounded repair policy (\<open>task_retry/bounded_reconciliation.py\<close>): the content-hashed packet in
  which an external verifier reports why a candidate was rejected, the decision whether one repair
  successor may be submitted, and the metadata such a successor carries. The hash function is the
  parameter \<open>H\<close> of the definitions, from canonical text to hex digest.
\<close>

section \<open>Constants and field checks\<close>

definition VERIFIER_RESIDUAL_PACKET_SCHEMA :: string where
  "VERIFIER_RESIDUAL_PACKET_SCHEMA = ''nexus.runtime.verifier_residual_packet.v1''"

definition BOUNDED_RECONCILIATION_DECISION_SCHEMA :: string where
  "BOUNDED_RECONCILIATION_DECISION_SCHEMA = ''nexus.runtime.bounded_reconciliation_decision.v1''"

definition BOUNDED_RECONCILIATION_REQUEST_SCHEMA :: string where
  "BOUNDED_RECONCILIATION_REQUEST_SCHEMA = ''nexus.runtime.bounded_reconciliation_request.v1''"

definition MAX_REPAIR_ROUNDS_V1 :: int where
  "MAX_REPAIR_ROUNDS_V1 = 1"

definition ALLOWED_REPAIR_TARGETS :: "string set" where
  "ALLOWED_REPAIR_TARGETS =
     {''IMPLEMENTATION'', ''STATE_TRANSITION'', ''EVIDENCE_BINDING'', ''SCHEMA_CONTRACT'',
      ''ORDERING_CONCURRENCY'', ''TEST_SEMANTICS'', ''AUTHORITY_BOUNDARY''}"

abbreviation rc_error :: "string \<Rightarrow> 'a res" where
  "rc_error msg \<equiv> Inl (BoundedReconciliationError, msg)"

definition rc_text :: "pyval \<Rightarrow> string \<Rightarrow> string res" where
  "rc_text v name = require_text BoundedReconciliationError v name"

definition rc_string_tuple :: "pyval \<Rightarrow> string \<Rightarrow> nat \<Rightarrow> string list res" where
  "rc_string_tuple v name minimum =
     bindr (raise_if (\<not> is_array v) BoundedReconciliationError
              (name @ '' must be an array of strings'')) (\<lambda>_.
     bindr (map_res (\<lambda>x. rc_text x name) (items_of v)) (\<lambda>texts.
     let result = sort_strings texts in
     bindr (raise_if (length result < minimum) BoundedReconciliationError
              (name @ '' requires at least '' @ show_nat minimum @ '' item(s)'')) (\<lambda>_.
     Inr result)))"

text \<open>\<open>_SHA256_RE.fullmatch\<close>: an optional prefix, then 64 lowercase hex digits.\<close>

definition sha256_re :: "string \<Rightarrow> bool" where
  "sha256_re s \<longleftrightarrow> hex64 s \<or> (starts_with ''sha256:'' s \<and> hex64 (drop 7 s))"

definition rc_sha256 :: "pyval \<Rightarrow> string \<Rightarrow> string res" where
  "rc_sha256 v name =
     bindr (rc_text v name) (\<lambda>text.
     bindr (raise_if (\<not> sha256_re text) BoundedReconciliationError
              (name @ '' must be a SHA-256 digest'')) (\<lambda>_.
     Inr (if starts_with ''sha256:'' text then text else ''sha256:'' @ text)))"

definition rc_canonical_json :: "dict \<Rightarrow> string res" where
  "rc_canonical_json d =
     (case json_dumps False False (PDict d) of
        Inl e \<Rightarrow> if fst e \<in> {TypeError, ValueError}
                 then rc_error ''bounded reconciliation payload must be canonical JSON'' else Inl e
      | Inr s \<Rightarrow> Inr s)"

definition rc_payload_sha256 :: "(string \<Rightarrow> string) \<Rightarrow> dict \<Rightarrow> string res" where
  "rc_payload_sha256 H d = bindr (rc_canonical_json d) (\<lambda>s. Inr (''sha256:'' @ H s))"

section \<open>The residual packet\<close>

record residual_packet =
  vp_task_id :: string
  vp_predecessor_attempt_id :: string
  vp_candidate_id :: string
  vp_candidate_sha256 :: string
  vp_source_revision :: string
  vp_verifier_id :: string
  vp_verifier_version :: string
  vp_verifier_receipt_ref :: string
  vp_failure_class :: string
  vp_residual_family :: string
  vp_failed_invariants :: "string list"
  vp_counterexample_refs :: "string list"
  vp_repair_target :: string
  vp_claim_ceiling :: string
  vp_packet_sha256 :: string

definition packet_content :: "residual_packet \<Rightarrow> dict" where
  "packet_content p =
     [(''schema'', PStr VERIFIER_RESIDUAL_PACKET_SCHEMA),
      (''task_id'', PStr (vp_task_id p)),
      (''predecessor_attempt_id'', PStr (vp_predecessor_attempt_id p)),
      (''candidate_id'', PStr (vp_candidate_id p)),
      (''candidate_sha256'', PStr (vp_candidate_sha256 p)),
      (''source_revision'', PStr (vp_source_revision p)),
      (''verifier_id'', PStr (vp_verifier_id p)),
      (''verifier_version'', PStr (vp_verifier_version p)),
      (''verifier_receipt_ref'', PStr (vp_verifier_receipt_ref p)),
      (''failure_class'', PStr (vp_failure_class p)),
      (''residual_family'', PStr (vp_residual_family p)),
      (''failed_invariants'', PList (map PStr (vp_failed_invariants p))),
      (''counterexample_refs'', PList (map PStr (vp_counterexample_refs p))),
      (''repair_target'', PStr (vp_repair_target p)),
      (''claim_ceiling'', PStr (vp_claim_ceiling p))]"

definition packet_to_dict :: "residual_packet \<Rightarrow> dict" where
  "packet_to_dict p = packet_content p @ [(''packet_sha256'', PStr (vp_packet_sha256 p))]"

definition packet_verify :: "(string \<Rightarrow> string) \<Rightarrow> residual_packet \<Rightarrow> unit res" where
  "packet_verify H p =
     bindr (rc_payload_sha256 H (packet_content p)) (\<lambda>h.
     raise_if (vp_packet_sha256 p \<noteq> h) BoundedReconciliationError
       ''verifier residual packet hash mismatch'')"

text \<open>\<open>VerifierResidualPacket.build\<close>: the keyword arguments come as a dictionary of values.\<close>

definition packet_build :: "(string \<Rightarrow> string) \<Rightarrow> (string \<Rightarrow> pyval) \<Rightarrow> residual_packet res" where
  "packet_build H arg =
     bindr (rc_text (arg ''repair_target'') ''repair_target'') (\<lambda>rt.
     let target = upper rt in
     bindr (raise_if (target \<notin> ALLOWED_REPAIR_TARGETS) BoundedReconciliationError
              ''repair_target is not an admitted abstraction'') (\<lambda>_.
     bindr (rc_text (arg ''task_id'') ''task_id'') (\<lambda>task_id.
     bindr (rc_text (arg ''predecessor_attempt_id'') ''predecessor_attempt_id'') (\<lambda>pred.
     bindr (rc_text (arg ''candidate_id'') ''candidate_id'') (\<lambda>cand.
     bindr (rc_sha256 (arg ''candidate_sha256'') ''candidate_sha256'') (\<lambda>cand_sha.
     bindr (rc_text (arg ''source_revision'') ''source_revision'') (\<lambda>src.
     bindr (rc_text (arg ''verifier_id'') ''verifier_id'') (\<lambda>vid.
     bindr (rc_text (arg ''verifier_version'') ''verifier_version'') (\<lambda>vver.
     bindr (rc_text (arg ''verifier_receipt_ref'') ''verifier_receipt_ref'') (\<lambda>vref.
     bindr (rc_text (arg ''failure_class'') ''failure_class'') (\<lambda>fclass.
     bindr (rc_text (arg ''residual_family'') ''residual_family'') (\<lambda>family.
     bindr (rc_string_tuple (arg ''failed_invariants'') ''failed_invariants'' 1) (\<lambda>invs.
     bindr (rc_string_tuple (arg ''counterexample_refs'') ''counterexample_refs'' 0) (\<lambda>refs.
     bindr (rc_text (arg ''claim_ceiling'') ''claim_ceiling'') (\<lambda>ceil.
     let packet = \<lparr> vp_task_id = task_id, vp_predecessor_attempt_id = pred, vp_candidate_id = cand,
           vp_candidate_sha256 = cand_sha, vp_source_revision = src, vp_verifier_id = vid,
           vp_verifier_version = vver, vp_verifier_receipt_ref = vref,
           vp_failure_class = upper fclass, vp_residual_family = family,
           vp_failed_invariants = invs, vp_counterexample_refs = refs, vp_repair_target = target,
           vp_claim_ceiling = ceil, vp_packet_sha256 = '''' \<rparr> in
     bindr (rc_payload_sha256 H (packet_content packet)) (\<lambda>h.
     Inr (packet\<lparr>vp_packet_sha256 := h\<rparr>)))))))))))))))))"

definition packet_fields :: "string set" where
  "packet_fields =
     {''schema'', ''task_id'', ''predecessor_attempt_id'', ''candidate_id'', ''candidate_sha256'',
      ''source_revision'', ''verifier_id'', ''verifier_version'', ''verifier_receipt_ref'',
      ''failure_class'', ''residual_family'', ''failed_invariants'', ''counterexample_refs'',
      ''repair_target'', ''claim_ceiling'', ''packet_sha256''}"

definition packet_from_mapping :: "(string \<Rightarrow> string) \<Rightarrow> pyval \<Rightarrow> residual_packet res" where
  "packet_from_mapping H value =
     bindr (raise_if (\<not> is_mapping value) BoundedReconciliationError
              ''verifier residual packet must be a mapping'') (\<lambda>_.
     bindr (raise_if (set (dkeys (dict_of value)) \<noteq> packet_fields) BoundedReconciliationError
              ''verifier residual packet fields mismatch'') (\<lambda>_.
     bindr (raise_if (vget value ''schema'' \<noteq> PStr VERIFIER_RESIDUAL_PACKET_SCHEMA)
              BoundedReconciliationError ''verifier residual packet schema mismatch'') (\<lambda>_.
     bindr (packet_build H (vget value)) (\<lambda>built.
     bindr (rc_sha256 (vget value ''packet_sha256'') ''packet_sha256'') (\<lambda>observed.
     bindr (raise_if (observed \<noteq> vp_packet_sha256 built) BoundedReconciliationError
              ''verifier residual packet hash mismatch'') (\<lambda>_.
     Inr built))))))"

section \<open>The decision\<close>

record rc_decision =
  rd_disposition :: string
  rd_reason :: string
  rd_residual_packet_sha256 :: "string option"
  rd_current_repair_round :: int
  rd_next_repair_round :: "int option"
  rd_required_next_gate :: string
  rd_replan_requested :: bool

definition rc_eligible :: "rc_decision \<Rightarrow> bool" where
  "rc_eligible d \<longleftrightarrow> rd_disposition d = ''REPAIR_ELIGIBLE''"

definition rc_decision_to_dict :: "rc_decision \<Rightarrow> dict" where
  "rc_decision_to_dict d =
     [(''schema'', PStr BOUNDED_RECONCILIATION_DECISION_SCHEMA),
      (''disposition'', PStr (rd_disposition d)),
      (''reason'', PStr (rd_reason d)),
      (''residual_packet_sha256'', opt_str (rd_residual_packet_sha256 d)),
      (''current_repair_round'', PInt (rd_current_repair_round d)),
      (''next_repair_round'', (case rd_next_repair_round d of None \<Rightarrow> PNone | Some n \<Rightarrow> PInt n)),
      (''required_next_gate'', PStr (rd_required_next_gate d)),
      (''replan_requested'', PBool (rd_replan_requested d)),
      (''eligible'', PBool (rc_eligible d)),
      (''runtime_is_planner_authority'', PBool False),
      (''runtime_is_completion_authority'', PBool False)]"

definition rc_ineligible :: "string \<Rightarrow> string option \<Rightarrow> int \<Rightarrow> rc_decision" where
  "rc_ineligible reason packet_sha current_round =
     \<lparr> rd_disposition = ''REPAIR_INELIGIBLE'', rd_reason = reason,
       rd_residual_packet_sha256 = packet_sha, rd_current_repair_round = current_round,
       rd_next_repair_round = None, rd_required_next_gate = ''STOP_EXISTING_AUTHORITY_PATH'',
       rd_replan_requested = False \<rparr>"

definition current_repair_round :: "dict \<Rightarrow> int res" where
  "current_repair_round request =
     (let previous = dget request ''bounded_reconciliation'' in
      if is_none previous then Inr 0
      else bindr (raise_if (\<not> is_mapping previous) BoundedReconciliationError
                    ''existing bounded_reconciliation metadata is malformed'') (\<lambda>_.
        let raw_round = dget_default (dict_of previous) ''repair_round'' (PInt 0) in
        (case raw_round of
           PBool _ \<Rightarrow> rc_error ''existing repair_round is malformed''
         | _ \<Rightarrow> (case py_int raw_round of
                 Inl e \<Rightarrow> if fst e \<in> {TypeError, ValueError}
                          then rc_error ''existing repair_round is malformed'' else Inl e
               | Inr value \<Rightarrow>
                   if value < 0 then rc_error ''existing repair_round is negative''
                   else Inr value))))"

text \<open>The pairs of packet field and state value that must agree, in the order the code checks them.\<close>

definition residual_bindings ::
  "dict \<Rightarrow> dict \<Rightarrow> dict \<Rightarrow> string \<Rightarrow> residual_packet \<Rightarrow> (string \<times> pyval \<times> string) list" where
  "residual_bindings st identity verifier candidate_sha256 p =
     [(vp_task_id p, dget st ''task_id'', ''task_id''),
      (vp_predecessor_attempt_id p, dget st ''attempt_id'', ''predecessor_attempt_id''),
      (vp_candidate_id p, dget identity ''candidate_id'', ''candidate_id''),
      (vp_candidate_sha256 p, PStr candidate_sha256, ''candidate_sha256''),
      (vp_source_revision p, dget identity ''source_revision'', ''source_revision''),
      (vp_verifier_id p, dget verifier ''verifier_id'', ''verifier_id''),
      (vp_verifier_version p, dget verifier ''verifier_version'', ''verifier_version''),
      (vp_verifier_receipt_ref p, dget verifier ''receipt_ref'', ''verifier_receipt_ref'')]"

definition evaluate_packet_against_state :: "dict \<Rightarrow> int \<Rightarrow> residual_packet \<Rightarrow> rc_decision" where
  "evaluate_packet_against_state st current_round packet =
    (let inel = (\<lambda>reason. rc_ineligible reason (Some (vp_packet_sha256 packet)) current_round);
         identity = dget st ''candidate_identity''; verifier = dget st ''verifier_identity'' in
     if str_or (dget st ''status'') '''' \<noteq> ''FINAL_BLOCK''
     then inel ''predecessor_not_terminal_repairable_status''
     else if str_or (dget st ''acceptance_decision'') '''' \<noteq> ''REPAIRABLE''
     then inel ''acceptance_decision_not_repairable''
     else if vp_failure_class packet \<noteq> ''CLEAN_SEMANTIC_REJECT''
     then inel (''failure_class_not_semantic:'' @ vp_failure_class packet)
     else if \<not> is_False (dget st ''has_unresolved_external_effect'')
     then inel ''unresolved_external_effect_not_proven_false''
     else if dget st ''active_effect_count'' \<noteq> PInt 0
     then inel ''active_predecessor_effect_not_proven_zero''
     else if \<not> is_mapping identity then inel ''candidate_identity_missing''
     else if \<not> is_mapping verifier then inel ''verifier_identity_missing''
     else (case rc_sha256 (vget identity ''candidate_sha256'') ''candidate_identity.candidate_sha256'' of
         Inl _ \<Rightarrow> inel ''candidate_identity_sha256_invalid''
       | Inr candidate_sha256 \<Rightarrow>
           (case find (\<lambda>(observed, expected, field). expected \<noteq> PStr observed)
                   (residual_bindings st (dict_of identity) (dict_of verifier) candidate_sha256 packet) of
              Some (_, _, field) \<Rightarrow> inel (''residual_binding_mismatch:'' @ field)
            | None \<Rightarrow>
                \<lparr> rd_disposition = ''REPAIR_ELIGIBLE'',
                  rd_reason = ''clean_semantic_reject_bound_and_budgeted'',
                  rd_residual_packet_sha256 = Some (vp_packet_sha256 packet),
                  rd_current_repair_round = current_round,
                  rd_next_repair_round = Some (current_round + 1),
                  rd_required_next_gate = ''SUBMIT_FRESH_REPAIR_ATTEMPT'',
                  rd_replan_requested = False \<rparr>)))"

definition evaluate_bounded_reconciliation ::
  "(string \<Rightarrow> string) \<Rightarrow> pyval \<Rightarrow> pyval \<Rightarrow> rc_decision res" where
  "evaluate_bounded_reconciliation H state residual_value =
    (if \<not> is_mapping state then Inr (rc_ineligible ''STATE_NOT_MAPPING'' None 0)
     else let request = vget state ''request'' in
     if \<not> is_mapping request then Inr (rc_ineligible ''DURABLE_REQUEST_MISSING'' None 0)
     else (case current_repair_round (dict_of request) of
         Inl e \<Rightarrow> if fst e = BoundedReconciliationError then Inr (rc_ineligible (snd e) None 0) else Inl e
       | Inr current_round \<Rightarrow>
           if current_round \<ge> MAX_REPAIR_ROUNDS_V1
           then Inr \<lparr> rd_disposition = ''REPAIR_BUDGET_EXHAUSTED'',
                      rd_reason = ''repair_round_budget_exhausted'',
                      rd_residual_packet_sha256 = None,
                      rd_current_repair_round = current_round,
                      rd_next_repair_round = None,
                      rd_required_next_gate = ''REPLAN_REQUEST'',
                      rd_replan_requested = True \<rparr>
           else (case packet_from_mapping H residual_value of
               Inl e \<Rightarrow> if fst e = BoundedReconciliationError
                        then Inr (rc_ineligible (''residual_packet_invalid:'' @ snd e) None current_round)
                        else Inl e
             | Inr packet \<Rightarrow> Inr (evaluate_packet_against_state (dict_of state) current_round packet))))"

definition build_repair_request_metadata :: "rc_decision \<Rightarrow> pyval \<Rightarrow> pyval \<Rightarrow> dict res" where
  "build_repair_request_metadata d predecessor_attempt_id successor_attempt_id =
     (case (rc_eligible d, rd_next_repair_round d) of
        (True, Some next_round) \<Rightarrow>
          bindr (rc_text predecessor_attempt_id ''predecessor_attempt_id'') (\<lambda>pred.
          bindr (rc_text successor_attempt_id ''successor_attempt_id'') (\<lambda>succ.
          bindr (rc_text (opt_str (rd_residual_packet_sha256 d)) ''residual_packet_sha256'') (\<lambda>sha.
          Inr [(''schema'', PStr BOUNDED_RECONCILIATION_REQUEST_SCHEMA),
               (''predecessor_attempt_id'', PStr pred),
               (''successor_attempt_id'', PStr succ),
               (''residual_packet_sha256'', PStr sha),
               (''repair_round'', PInt next_round),
               (''max_repair_rounds'', PInt MAX_REPAIR_ROUNDS_V1),
               (''required_post_repair_gate'', PStr ''EXTERNAL_VERIFIER''),
               (''replan_on_exhaustion'', PStr ''REQUEST_ONLY''),
               (''runtime_is_planner_authority'', PBool False),
               (''runtime_is_completion_authority'', PBool False)])))
      | _ \<Rightarrow> rc_error ''repair request metadata requires an eligible reconciliation decision'')"

section \<open>Lemmas\<close>

lemma rc_text_eq_Inr [res_simps]:
  "rc_text v name = Inr t \<longleftrightarrow> (\<exists>s. v = PStr s \<and> strip s \<noteq> [] \<and> t = strip s)"
  by (simp add: rc_text_def res_simps)

lemma rc_text_of_solid [simp]: "solid s \<Longrightarrow> rc_text (PStr s) name = Inr s"
  by (simp add: rc_text_def)

lemma rc_text_solid: "rc_text v name = Inr t \<Longrightarrow> solid t"
  by (auto simp: res_simps)

lemma not_starts_with_sha256: "hex64 s \<Longrightarrow> \<not> starts_with ''sha256:'' s"
  by (cases s) (auto simp: hex64_def starts_with_def is_hex_def)

definition prefixed_sha :: "string \<Rightarrow> bool" where
  "prefixed_sha s \<longleftrightarrow> (\<exists>h. hex64 h \<and> s = ''sha256:'' @ h)"

lemma prefixed_sha_solid: "prefixed_sha s \<Longrightarrow> solid s"
proof -
  have "solid ''sha256:''" by (simp add: solid_iff py_space_def)
  then show "prefixed_sha s \<Longrightarrow> solid s"
    using hex64_solid solid_append unfolding prefixed_sha_def by blast
qed

lemma rc_sha256_prefixed: "rc_sha256 v name = Inr t \<Longrightarrow> prefixed_sha t"
proof -
  assume "rc_sha256 v name = Inr t"
  then obtain s where s: "sha256_re s" "t = (if starts_with ''sha256:'' s then s else ''sha256:'' @ s)"
    by (auto simp: rc_sha256_def res_simps)
  show ?thesis
  proof (cases "starts_with ''sha256:'' s")
    case True
    then obtain h where "s = ''sha256:'' @ h" by (auto simp: starts_with_iff)
    with s True show ?thesis using not_starts_with_sha256 by (auto simp: sha256_re_def prefixed_sha_def)
  next
    case False
    with s show ?thesis by (auto simp: sha256_re_def prefixed_sha_def)
  qed
qed

lemma rc_sha256_of_prefixed [simp]: "prefixed_sha s \<Longrightarrow> rc_sha256 (PStr s) name = Inr s"
  using prefixed_sha_solid [of s] by (auto simp: rc_sha256_def sha256_re_def prefixed_sha_def starts_with_def)

lemma rc_string_tuple_wf:
  assumes "rc_string_tuple v name m = Inr xs"
  shows "sorted xs \<and> distinct xs \<and> (\<forall>x \<in> set xs. solid x) \<and> m \<le> length xs"
proof -
  from assms obtain ts where ts: "map_res (\<lambda>x. rc_text x name) (items_of v) = Inr ts"
    "xs = sort_strings ts" "m \<le> length xs"
    by (auto simp: rc_string_tuple_def res_simps Let_def)
  have "solid t" if "t \<in> set ts" for t
    using ts(1) that by (auto simp: map_res_eq_Inr list_all2_conv_all_nth in_set_conv_nth intro: rc_text_solid)
  with ts show ?thesis by simp
qed

lemma rc_string_tuple_id:
  "sorted xs \<Longrightarrow> distinct xs \<Longrightarrow> \<forall>x \<in> set xs. solid x \<Longrightarrow> m \<le> length xs \<Longrightarrow>
     rc_string_tuple (PList (map PStr xs)) name m = Inr xs"
  using map_res_Inr_map [of xs "\<lambda>x. rc_text (PStr x) name" "\<lambda>x. x"]
  by (simp add: rc_string_tuple_def map_res_map Let_def)

text \<open>What a built packet satisfies, and the round trip through a mapping.\<close>

definition packet_wf :: "(string \<Rightarrow> string) \<Rightarrow> residual_packet \<Rightarrow> bool" where
  "packet_wf H p \<longleftrightarrow>
     solid (vp_task_id p) \<and> solid (vp_predecessor_attempt_id p) \<and> solid (vp_candidate_id p) \<and>
     prefixed_sha (vp_candidate_sha256 p) \<and> solid (vp_source_revision p) \<and> solid (vp_verifier_id p) \<and>
     solid (vp_verifier_version p) \<and> solid (vp_verifier_receipt_ref p) \<and>
     solid (vp_failure_class p) \<and> upper (vp_failure_class p) = vp_failure_class p \<and>
     solid (vp_residual_family p) \<and>
     sorted (vp_failed_invariants p) \<and> distinct (vp_failed_invariants p) \<and>
     (\<forall>x \<in> set (vp_failed_invariants p). solid x) \<and> 1 \<le> length (vp_failed_invariants p) \<and>
     sorted (vp_counterexample_refs p) \<and> distinct (vp_counterexample_refs p) \<and>
     (\<forall>x \<in> set (vp_counterexample_refs p). solid x) \<and>
     solid (vp_repair_target p) \<and> upper (vp_repair_target p) = vp_repair_target p \<and>
     vp_repair_target p \<in> ALLOWED_REPAIR_TARGETS \<and> solid (vp_claim_ceiling p) \<and>
     rc_payload_sha256 H (packet_content p) = Inr (vp_packet_sha256 p)"

lemma packet_content_sha [simp]: "packet_content (p\<lparr>vp_packet_sha256 := h\<rparr>) = packet_content p"
  by (simp add: packet_content_def)

lemma packet_build_wf: "packet_build H arg = Inr p \<Longrightarrow> packet_wf H p"
  by (auto simp: packet_build_def packet_wf_def Let_def bindr_eq_Inr raise_if_eq_Inr
      packet_content_def dest: rc_text_solid rc_sha256_prefixed rc_string_tuple_wf)

lemma packet_from_mapping_wf: "packet_from_mapping H v = Inr p \<Longrightarrow> packet_wf H p"
  by (auto simp: packet_from_mapping_def bindr_eq_Inr intro: packet_build_wf)

lemma vget_packet_to_dict:
  "vget (PDict (packet_to_dict p)) ''schema'' = PStr VERIFIER_RESIDUAL_PACKET_SCHEMA"
  "vget (PDict (packet_to_dict p)) ''task_id'' = PStr (vp_task_id p)"
  "vget (PDict (packet_to_dict p)) ''predecessor_attempt_id'' = PStr (vp_predecessor_attempt_id p)"
  "vget (PDict (packet_to_dict p)) ''candidate_id'' = PStr (vp_candidate_id p)"
  "vget (PDict (packet_to_dict p)) ''candidate_sha256'' = PStr (vp_candidate_sha256 p)"
  "vget (PDict (packet_to_dict p)) ''source_revision'' = PStr (vp_source_revision p)"
  "vget (PDict (packet_to_dict p)) ''verifier_id'' = PStr (vp_verifier_id p)"
  "vget (PDict (packet_to_dict p)) ''verifier_version'' = PStr (vp_verifier_version p)"
  "vget (PDict (packet_to_dict p)) ''verifier_receipt_ref'' = PStr (vp_verifier_receipt_ref p)"
  "vget (PDict (packet_to_dict p)) ''failure_class'' = PStr (vp_failure_class p)"
  "vget (PDict (packet_to_dict p)) ''residual_family'' = PStr (vp_residual_family p)"
  "vget (PDict (packet_to_dict p)) ''failed_invariants'' = PList (map PStr (vp_failed_invariants p))"
  "vget (PDict (packet_to_dict p)) ''counterexample_refs'' = PList (map PStr (vp_counterexample_refs p))"
  "vget (PDict (packet_to_dict p)) ''repair_target'' = PStr (vp_repair_target p)"
  "vget (PDict (packet_to_dict p)) ''claim_ceiling'' = PStr (vp_claim_ceiling p)"
  "vget (PDict (packet_to_dict p)) ''packet_sha256'' = PStr (vp_packet_sha256 p)"
  by (simp_all add: vget_def dget_def packet_to_dict_def packet_content_def)

lemma keys_packet_to_dict: "set (dkeys (packet_to_dict p)) = packet_fields"
  by (simp add: dkeys_def packet_to_dict_def packet_content_def packet_fields_def)

lemma packet_eq_content_upd:
  "\<lparr> vp_task_id = vp_task_id p, vp_predecessor_attempt_id = vp_predecessor_attempt_id p,
     vp_candidate_id = vp_candidate_id p, vp_candidate_sha256 = vp_candidate_sha256 p,
     vp_source_revision = vp_source_revision p, vp_verifier_id = vp_verifier_id p,
     vp_verifier_version = vp_verifier_version p, vp_verifier_receipt_ref = vp_verifier_receipt_ref p,
     vp_failure_class = vp_failure_class p, vp_residual_family = vp_residual_family p,
     vp_failed_invariants = vp_failed_invariants p, vp_counterexample_refs = vp_counterexample_refs p,
     vp_repair_target = vp_repair_target p, vp_claim_ceiling = vp_claim_ceiling p,
     vp_packet_sha256 = h \<rparr> = p\<lparr>vp_packet_sha256 := h\<rparr>"
  by simp

lemma packet_build_of_wf: "packet_wf H p \<Longrightarrow> packet_build H (vget (PDict (packet_to_dict p))) = Inr p"
  unfolding packet_build_def vget_packet_to_dict packet_wf_def Let_def
  by (simp add: rc_string_tuple_id packet_eq_content_upd del: One_nat_def)

lemma packet_wf_hash:
  "packet_wf H p \<Longrightarrow> rc_canonical_json (packet_content p) = Inr s \<Longrightarrow> vp_packet_sha256 p = ''sha256:'' @ H s"
  by (simp add: packet_wf_def rc_payload_sha256_def)

lemma packet_sha_prefixed:
  "packet_wf H p \<Longrightarrow> hex64 (H s) \<Longrightarrow> rc_canonical_json (packet_content p) = Inr s \<Longrightarrow>
     prefixed_sha (vp_packet_sha256 p)"
  by (auto simp: packet_wf_def rc_payload_sha256_def prefixed_sha_def)

lemma packet_canonical_total: "\<exists>s. rc_canonical_json (packet_content p) = Inr s"
proof -
  have "json_ok (PDict (packet_content p)) \<and> no_float (PDict (packet_content p))"
    by (auto simp: packet_content_def)
  then obtain s where "json_dumps False False (PDict (packet_content p)) = Inr s"
    using json_dumps_total by blast
  then show ?thesis by (simp add: rc_canonical_json_def)
qed

lemma packet_content_inj:
  assumes "json_norm (PDict (packet_content p)) = json_norm (PDict (packet_content q))"
    and "vp_packet_sha256 p = vp_packet_sha256 q"
  shows "p = q"
proof -
  note f = json_norm_PDict_fields [OF assms(1)]
  show ?thesis
    using f [of "''task_id''"] f [of "''predecessor_attempt_id''"] f [of "''candidate_id''"]
      f [of "''candidate_sha256''"] f [of "''source_revision''"] f [of "''verifier_id''"]
      f [of "''verifier_version''"] f [of "''verifier_receipt_ref''"] f [of "''failure_class''"]
      f [of "''residual_family''"] f [of "''failed_invariants''"] f [of "''counterexample_refs''"]
      f [of "''repair_target''"] f [of "''claim_ceiling''"] assms(2)
    by (simp add: packet_content_def comp_def)
qed

lemma current_repair_round_nonneg: "current_repair_round rq = Inr n \<Longrightarrow> 0 \<le> n"
  by (auto simp: current_repair_round_def Let_def res_simps split: pyval.splits sum.splits if_splits)

lemma rc_ineligible_not_eligible [simp]: "\<not> rc_eligible (rc_ineligible reason sha n)"
  by (simp add: rc_eligible_def rc_ineligible_def)

lemma rc_eligible_record [simp]:
  "rc_eligible \<lparr> rd_disposition = d, rd_reason = r, rd_residual_packet_sha256 = h,
     rd_current_repair_round = n, rd_next_repair_round = m, rd_required_next_gate = g,
     rd_replan_requested = b \<rparr> \<longleftrightarrow> d = ''REPAIR_ELIGIBLE''"
  by (simp add: rc_eligible_def)

lemma no_binding_mismatch_iff:
  "find (\<lambda>(observed, expected, field). expected \<noteq> PStr observed) (residual_bindings st i v sha p) = None \<longleftrightarrow>
     dget st ''task_id'' = PStr (vp_task_id p) \<and>
     dget st ''attempt_id'' = PStr (vp_predecessor_attempt_id p) \<and>
     dget i ''candidate_id'' = PStr (vp_candidate_id p) \<and> sha = vp_candidate_sha256 p \<and>
     dget i ''source_revision'' = PStr (vp_source_revision p) \<and>
     dget v ''verifier_id'' = PStr (vp_verifier_id p) \<and>
     dget v ''verifier_version'' = PStr (vp_verifier_version p) \<and>
     dget v ''receipt_ref'' = PStr (vp_verifier_receipt_ref p)"
  by (auto simp: find_None_iff residual_bindings_def)

lemma evaluate_packet_eligible_iff:
  "rc_eligible (evaluate_packet_against_state s n p) \<longleftrightarrow>
     str_or (dget s ''status'') [] = ''FINAL_BLOCK'' \<and>
     str_or (dget s ''acceptance_decision'') [] = ''REPAIRABLE'' \<and>
     vp_failure_class p = ''CLEAN_SEMANTIC_REJECT'' \<and>
     dget s ''has_unresolved_external_effect'' = PBool False \<and>
     dget s ''active_effect_count'' = PInt 0 \<and>
     is_mapping (dget s ''candidate_identity'') \<and> is_mapping (dget s ''verifier_identity'') \<and>
     (\<exists>sha. rc_sha256 (vget (dget s ''candidate_identity'') ''candidate_sha256'')
              ''candidate_identity.candidate_sha256'' = Inr sha \<and>
        find (\<lambda>(observed, expected, field). expected \<noteq> PStr observed)
          (residual_bindings s (dict_of (dget s ''candidate_identity''))
             (dict_of (dget s ''verifier_identity'')) sha p) = None)"
  unfolding evaluate_packet_against_state_def Let_def is_False_def
  by (auto split: sum.splits option.splits)

lemma evaluate_eligible_iff:
  "(\<exists>d. evaluate_bounded_reconciliation H st rv = Inr d \<and> rc_eligible d) \<longleftrightarrow>
   (\<exists>s rq p. st = PDict s \<and> dget s ''request'' = PDict rq \<and> current_repair_round rq = Inr 0 \<and>
      packet_from_mapping H rv = Inr p \<and> rc_eligible (evaluate_packet_against_state s 0 p))"
  (is "?L \<longleftrightarrow> ?R")
proof
  assume ?L
  then obtain d where d: "evaluate_bounded_reconciliation H st rv = Inr d" "rc_eligible d" by blast
  from d obtain s rq n p where sp: "st = PDict s" "dget s ''request'' = PDict rq"
    "current_repair_round rq = Inr n" "n < 1" "packet_from_mapping H rv = Inr p"
    "d = evaluate_packet_against_state s n p"
    by (auto simp: evaluate_bounded_reconciliation_def Let_def is_mapping_iff vget_def
        MAX_REPAIR_ROUNDS_V1_def split: if_splits sum.splits)
  with current_repair_round_nonneg [of rq n] have "n = 0" by simp
  with sp d(2) show ?R by blast
next
  assume ?R
  then show ?L
    by (auto simp: evaluate_bounded_reconciliation_def Let_def vget_def MAX_REPAIR_ROUNDS_V1_def)
qed

lemma evaluate_packet_eligible:
  assumes "rc_eligible (evaluate_packet_against_state s n p)"
  shows "rd_current_repair_round (evaluate_packet_against_state s n p) = n \<and>
         rd_next_repair_round (evaluate_packet_against_state s n p) = Some (n + 1)"
  using assms unfolding evaluate_packet_eligible_iff
  by (elim conjE exE) (simp add: evaluate_packet_against_state_def is_False_def)

lemma evaluate_eligible_next_round:
  assumes "evaluate_bounded_reconciliation H st rv = Inr d" and "rc_eligible d"
  shows "rd_current_repair_round d = 0 \<and> rd_next_repair_round d = Some 1"
proof -
  from assms obtain s rq n p where sp: "current_repair_round rq = Inr n" "n < 1"
    "d = evaluate_packet_against_state s n p"
    by (auto simp: evaluate_bounded_reconciliation_def Let_def MAX_REPAIR_ROUNDS_V1_def
        split: if_splits sum.splits)
  with current_repair_round_nonneg [of rq n] have "n = 0" by simp
  with sp(3) assms(2) have "rc_eligible (evaluate_packet_against_state s 0 p)" by simp
  from evaluate_packet_eligible [OF this] \<open>n = 0\<close> sp(3) show ?thesis by simp
qed

lemma build_repair_request_metadata_round:
  assumes "build_repair_request_metadata d pr su = Inr m" and "rd_next_repair_round d = Some n"
  shows "dget_default m ''repair_round'' x = PInt n"
proof -
  have "rc_eligible d" using assms(1) by (cases "rc_eligible d") (simp_all add: build_repair_request_metadata_def)
  with assms have "\<exists>pred succ sha.
      m = [(''schema'', PStr BOUNDED_RECONCILIATION_REQUEST_SCHEMA),
           (''predecessor_attempt_id'', PStr pred), (''successor_attempt_id'', PStr succ),
           (''residual_packet_sha256'', PStr sha), (''repair_round'', PInt n),
           (''max_repair_rounds'', PInt MAX_REPAIR_ROUNDS_V1),
           (''required_post_repair_gate'', PStr ''EXTERNAL_VERIFIER''),
           (''replan_on_exhaustion'', PStr ''REQUEST_ONLY''),
           (''runtime_is_planner_authority'', PBool False),
           (''runtime_is_completion_authority'', PBool False)]"
    unfolding build_repair_request_metadata_def
    by (simp only: prod.case bool.case option.case bindr_eq_Inr sum.inject) metis
  then obtain pred succ sha where m:
    "map_of m ''repair_round'' = map_of [(''schema'', PStr BOUNDED_RECONCILIATION_REQUEST_SCHEMA),
           (''predecessor_attempt_id'', PStr pred), (''successor_attempt_id'', PStr succ),
           (''residual_packet_sha256'', PStr sha), (''repair_round'', PInt n),
           (''max_repair_rounds'', PInt MAX_REPAIR_ROUNDS_V1),
           (''required_post_repair_gate'', PStr ''EXTERNAL_VERIFIER''),
           (''replan_on_exhaustion'', PStr ''REQUEST_ONLY''),
           (''runtime_is_planner_authority'', PBool False),
           (''runtime_is_completion_authority'', PBool False)] ''repair_round''" by blast
  show ?thesis unfolding dget_default_def m by simp
qed

lemma current_repair_round_of_metadata:
  assumes "dget rq ''bounded_reconciliation'' = PDict m"
    and "\<And>x. dget_default m ''repair_round'' x = PInt n" and "0 \<le> n"
  shows "current_repair_round rq = Inr n"
  using assms by (simp add: current_repair_round_def Let_def)

text \<open>A concrete verifier report and the state it belongs to.\<close>

definition sample_residual :: dict where
  "sample_residual =
     [(''schema'', PStr VERIFIER_RESIDUAL_PACKET_SCHEMA), (''task_id'', PStr ''t''),
      (''predecessor_attempt_id'', PStr ''a''), (''candidate_id'', PStr ''c''),
      (''candidate_sha256'', PStr (replicate 64 CHR ''b'')), (''source_revision'', PStr ''r''),
      (''verifier_id'', PStr ''v''), (''verifier_version'', PStr ''1''),
      (''verifier_receipt_ref'', PStr ''rr''), (''failure_class'', PStr ''clean_semantic_reject''),
      (''residual_family'', PStr ''f''), (''failed_invariants'', PList [PStr ''i'']),
      (''counterexample_refs'', PList []), (''repair_target'', PStr ''IMPLEMENTATION''),
      (''claim_ceiling'', PStr ''x''), (''packet_sha256'', PStr (replicate 64 CHR ''a''))]"

definition sample_state :: dict where
  "sample_state =
     [(''task_id'', PStr ''t''), (''attempt_id'', PStr ''a''), (''status'', PStr ''FINAL_BLOCK''),
      (''acceptance_decision'', PStr ''REPAIRABLE''), (''request'', PDict []),
      (''has_unresolved_external_effect'', PBool False), (''active_effect_count'', PInt 0),
      (''candidate_identity'', PDict [(''candidate_id'', PStr ''c''),
          (''candidate_sha256'', PStr (replicate 64 CHR ''b'')), (''source_revision'', PStr ''r'')]),
      (''verifier_identity'', PDict [(''verifier_id'', PStr ''v''),
          (''verifier_version'', PStr ''1''), (''receipt_ref'', PStr ''rr'')])]"

definition sample_packet :: residual_packet where
  "sample_packet = projr (packet_from_mapping sample_hash (PDict sample_residual))"

definition sample_decision :: rc_decision where
  "sample_decision = projr (evaluate_bounded_reconciliation sample_hash (PDict sample_state) (PDict sample_residual))"

definition sample_metadata :: dict where
  "sample_metadata =
     projr (build_repair_request_metadata sample_decision (PStr ''a'') (PStr ''attempt-b''))"

lemma sample_packet_ok: "packet_from_mapping sample_hash (PDict sample_residual) = Inr sample_packet"
  by code_simp

lemma sample_build_ok: "packet_build sample_hash (vget (PDict sample_residual)) = Inr sample_packet"
  using sample_packet_ok by (auto simp: packet_from_mapping_def bindr_eq_Inr)

lemma sample_decision_ok:
  "evaluate_bounded_reconciliation sample_hash (PDict sample_state) (PDict sample_residual) = Inr sample_decision"
  "rc_eligible sample_decision"
  by code_simp+

lemma sample_metadata_ok:
  "build_repair_request_metadata sample_decision (PStr ''a'') (PStr ''attempt-b'') = Inr sample_metadata"
  by code_simp

section \<open>Properties\<close>

text \<open>
  A packet that \<open>build\<close> returns survives the trip through its
  dictionary: \<open>from_mapping (to_dict p)\<close> returns the same packet. The hash is any function to
  64 hex digits, as SHA-256 is.
\<close>

theorem packet_roundtrip:
  assumes "packet_build H arg = Inr p" and "\<And>s. hex64 (H s)"
  shows "packet_from_mapping H (PDict (packet_to_dict p)) = Inr p"
proof -
  have wf: "packet_wf H p" by (rule packet_build_wf [OF assms(1)])
  obtain s where "rc_canonical_json (packet_content p) = Inr s" using packet_canonical_total by blast
  then have "prefixed_sha (vp_packet_sha256 p)" by (rule packet_sha_prefixed [OF wf assms(2)])
  then show ?thesis
    by (simp add: packet_from_mapping_def keys_packet_to_dict packet_build_of_wf [OF wf] vget_packet_to_dict)
qed

theorem packet_roundtrip_witness:
  "packet_from_mapping sample_hash (PDict (packet_to_dict sample_packet)) = Inr sample_packet"
  by (rule packet_roundtrip [OF sample_build_ok hex64_sample_hash])

text \<open>
  The packet hash binds the content: two mappings that are both accepted
  and have the same packet hash are the same packet, unless they exhibit two different canonical
  texts with the same digest.
\<close>

theorem packet_hash_binds:
  assumes "packet_from_mapping H v = Inr p" and "packet_from_mapping H w = Inr q"
    and "vp_packet_sha256 p = vp_packet_sha256 q"
  shows "p = q \<or> (\<exists>x y. rc_canonical_json (packet_content p) = Inr x \<and>
                        rc_canonical_json (packet_content q) = Inr y \<and> x \<noteq> y \<and> H x = H y)"
proof -
  obtain x y where x: "rc_canonical_json (packet_content p) = Inr x"
    and y: "rc_canonical_json (packet_content q) = Inr y"
    using packet_canonical_total by blast
  have "packet_wf H p" "packet_wf H q" using assms by (auto intro: packet_from_mapping_wf)
  then have "H x = H y" using assms(3) packet_wf_hash [OF _ x] packet_wf_hash [OF _ y] by simp
  show ?thesis
  proof (cases "x = y")
    case True
    with x y have "json_norm (PDict (packet_content p)) = json_norm (PDict (packet_content q))"
      by (intro json_dumps_determines_value [of False False _ x])
        (auto simp: rc_canonical_json_def packet_content_def split: sum.splits if_splits)
    then show ?thesis using packet_content_inj assms(3) by blast
  qed (use x y \<open>H x = H y\<close> in blast)
qed

theorem packet_hash_binds_witness:
  "sample_packet = sample_packet \<or>
     (\<exists>x y. rc_canonical_json (packet_content sample_packet) = Inr x \<and>
            rc_canonical_json (packet_content sample_packet) = Inr y \<and> x \<noteq> y \<and> sample_hash x = sample_hash y)"
  by (rule packet_hash_binds [OF sample_packet_ok sample_packet_ok refl])

text \<open>
  A repair successor is admitted exactly when the durable
  request carries no earlier repair round, the residual packet is valid, the predecessor ended in
  FINAL_BLOCK with a repairable clean semantic reject, it is proven (the literal False and the
  integer 0) that no external effect is unresolved or active, and the packet is bound to the
  state's task, attempt, candidate, source revision and verifier.
\<close>

theorem reconciliation_eligible_iff:
  "(\<exists>d. evaluate_bounded_reconciliation H st rv = Inr d \<and> rc_eligible d) \<longleftrightarrow>
   (\<exists>s rq p i v. st = PDict s \<and> dget s ''request'' = PDict rq \<and> current_repair_round rq = Inr 0 \<and>
      packet_from_mapping H rv = Inr p \<and>
      str_or (dget s ''status'') '''' = ''FINAL_BLOCK'' \<and>
      str_or (dget s ''acceptance_decision'') '''' = ''REPAIRABLE'' \<and>
      vp_failure_class p = ''CLEAN_SEMANTIC_REJECT'' \<and>
      dget s ''has_unresolved_external_effect'' = PBool False \<and>
      dget s ''active_effect_count'' = PInt 0 \<and>
      dget s ''candidate_identity'' = PDict i \<and> dget s ''verifier_identity'' = PDict v \<and>
      rc_sha256 (dget i ''candidate_sha256'') ''candidate_identity.candidate_sha256''
        = Inr (vp_candidate_sha256 p) \<and>
      dget s ''task_id'' = PStr (vp_task_id p) \<and>
      dget s ''attempt_id'' = PStr (vp_predecessor_attempt_id p) \<and>
      dget i ''candidate_id'' = PStr (vp_candidate_id p) \<and>
      dget i ''source_revision'' = PStr (vp_source_revision p) \<and>
      dget v ''verifier_id'' = PStr (vp_verifier_id p) \<and>
      dget v ''verifier_version'' = PStr (vp_verifier_version p) \<and>
      dget v ''receipt_ref'' = PStr (vp_verifier_receipt_ref p))"
  unfolding evaluate_eligible_iff evaluate_packet_eligible_iff no_binding_mismatch_iff
  by (auto simp: is_mapping_iff vget_def)

text \<open>
  A task is repaired at most once: when the request of an eligible
  decision's successor carries the metadata built for it, evaluating any later state of that
  request reports the repair budget exhausted and asks for a new plan, whatever residual packet
  is presented.
\<close>

theorem repair_at_most_once:
  assumes "evaluate_bounded_reconciliation H st rv = Inr d" and "rc_eligible d"
    and "build_repair_request_metadata d pr su = Inr m"
    and "dget rq' ''bounded_reconciliation'' = PDict m" and "dget s' ''request'' = PDict rq'"
  shows "\<exists>d'. evaluate_bounded_reconciliation H (PDict s') rv' = Inr d' \<and> \<not> rc_eligible d' \<and>
              rd_disposition d' = ''REPAIR_BUDGET_EXHAUSTED'' \<and>
              rd_required_next_gate d' = ''REPLAN_REQUEST'' \<and> rd_replan_requested d'"
proof -
  have "rd_next_repair_round d = Some 1" using evaluate_eligible_next_round [OF assms(1,2)] by simp
  then have "current_repair_round rq' = Inr 1"
    using build_repair_request_metadata_round [OF assms(3)] assms(4)
    by (intro current_repair_round_of_metadata) auto
  then show ?thesis
    using assms(5) by (simp add: evaluate_bounded_reconciliation_def vget_def MAX_REPAIR_ROUNDS_V1_def)
qed

theorem repair_at_most_once_witness:
  "\<exists>d'. evaluate_bounded_reconciliation sample_hash
          (PDict [(''request'', PDict [(''bounded_reconciliation'', PDict sample_metadata)])])
          (PDict sample_residual) = Inr d' \<and> \<not> rc_eligible d' \<and>
        rd_disposition d' = ''REPAIR_BUDGET_EXHAUSTED'' \<and>
        rd_required_next_gate d' = ''REPLAN_REQUEST'' \<and> rd_replan_requested d'"
  by (rule repair_at_most_once [OF sample_decision_ok sample_metadata_ok]) (simp_all add: dget_def)

end
