(* ===== verification/Retry_Service.thy ===== *)
theory Retry_Service
  imports Task_Lifecycle Bounded_Reconciliation
begin

text \<open>
  The retry service (\<open>task_retry/retry_service.py\<close>). The four ports (\<open>task_retry/ports.py\<close>) are
  implemented outside the package and are the fields of the parameter record \<open>retry_ports\<close>; a port call may
  raise. \<open>retry_task\<close> gives the requests handed to the submission port together with its result, so that
  what is submitted can be spoken about even when the submission raises.
\<close>

section \<open>Control flow\<close>

text \<open>A statement sequence that may raise, return early with a report, or go on.\<close>

datatype 'a flow = Raise exn | Return dict | Next 'a

fun bindf :: "'a flow \<Rightarrow> ('a \<Rightarrow> 'b flow) \<Rightarrow> 'b flow" where
  "bindf (Raise e) f = Raise e"
| "bindf (Return d) f = Return d"
| "bindf (Next x) f = f x"

definition return_if :: "bool \<Rightarrow> dict \<Rightarrow> unit flow" where
  "return_if b d = (if b then Return d else Next ())"

fun lift_res :: "'a res \<Rightarrow> 'a flow" where
  "lift_res (Inl e) = Raise e"
| "lift_res (Inr x) = Next x"

section \<open>Ports\<close>

record retry_ports =
  rp_read_snapshot :: "string \<Rightarrow> dict option"
  rp_maximum_attempts :: "pyval \<Rightarrow> pyval res"
  rp_build_retry_request :: "dict \<Rightarrow> dict res"
  rp_workforce_inputs :: "dict \<Rightarrow> (pyval \<times> pyval) res"
  rp_recover_predecessor :: "dict \<Rightarrow> dict \<Rightarrow> exn \<Rightarrow> dict option res"
  rp_validate_predecessor :: "dict \<Rightarrow> dict \<Rightarrow> dict option res"
  rp_validate_repair :: "dict \<Rightarrow> dict option res"
  rp_rebind_fresh_attempt :: "dict \<Rightarrow> dict \<Rightarrow> pyval res"
  rp_validate_fresh :: "dict \<Rightarrow> dict \<Rightarrow> pyval res"
  rp_submit :: "dict \<Rightarrow> dict res"

section \<open>Status sets\<close>

text \<open>The module repeats the status sets of \<open>task_lifecycle.py\<close> as literals.\<close>

definition retry_TERMINAL_STATUSES :: "string set" where
  "retry_TERMINAL_STATUSES =
     {''FINAL_BLOCK'', ''RETAINED_FOR_REVIEW'', ''REJECTED'', ''SUPERSEDED'', ''INTEGRATED'',
      ''INTEGRATION_FAILED'', ''CANCELLED'', ''REHEARSAL_VERIFIED'', ''DIRECT_COMPLETED'',
      ''DIRECT_RECONCILE_REQUIRED'', ''INTEGRATED_AND_CLEANED''}"

definition retry_PENDING_CANDIDATE_STATUSES :: "string set" where
  "retry_PENDING_CANDIDATE_STATUSES =
     {''PENDING_HUMAN_APPROVAL'', ''APPROVED'', ''APPROVAL_INVALIDATED'', ''INTEGRATING''}"

definition retry_INTEGRATION_INTERMEDIATE_STATUSES :: "string set" where
  "retry_INTEGRATION_INTERMEDIATE_STATUSES =
     {''INTEGRATION_FAILED_PRE_APPLY'', ''INTEGRATION_VERIFY_FAILED_AFTER_APPLY'',
      ''INTEGRATED_TARGET_RETAINED''}"

definition retry_RETRYABLE_TASK_STATUSES :: "string set" where
  "retry_RETRYABLE_TASK_STATUSES = {''FINAL_BLOCK'', ''CANCELLED''}"

section \<open>The service\<close>

definition retry_meta :: "string \<Rightarrow> dict \<Rightarrow> pyval \<Rightarrow> pyval \<Rightarrow> dict" where
  "retry_meta task_id state decision blocker =
     [(''task_id'', PStr task_id),
      (''previous_status'', PStr (str_or (dget state ''status'') ''UNKNOWN'')),
      (''previous_attempt_id'', dget state ''attempt_id''),
      (''decision'', decision),
      (''blocker'', blocker)]"

text \<open>\<open>{**state, "retry": {**meta, "decision": d, "blocker": b}}\<close>\<close>

definition retry_report :: "dict \<Rightarrow> dict \<Rightarrow> string \<Rightarrow> string \<Rightarrow> dict" where
  "retry_report state meta d b =
     dset ''retry'' (PDict (dset ''blocker'' (PStr b) (dset ''decision'' (PStr d) meta))) state"

text \<open>The attempt budget and the gate on the durable status, then on the target's disposition.\<close>

definition retry_budget_gate :: "retry_ports \<Rightarrow> dict \<Rightarrow> dict \<Rightarrow> unit flow" where
  "retry_budget_gate ports state meta =
     (case bindr (rp_maximum_attempts ports (py_or (dget state ''request'') (PDict []))) py_int of
        Inl _ \<Rightarrow> Return (retry_report state meta ''BLOCK'' ''ATTEMPT_BUDGET_UNAVAILABLE'')
      | Inr maximum \<Rightarrow>
          bindf (lift_res (py_len (py_or (dget state ''attempts'') (PTuple [])))) (\<lambda>n.
          return_if (n \<ge> maximum) (retry_report state meta ''BLOCK'' ''ATTEMPT_BUDGET_EXHAUSTED'')))"

definition retry_status_gate :: "dict \<Rightarrow> dict \<Rightarrow> unit flow" where
  "retry_status_gate state meta =
     (let status = str_or (dget state ''status'') ''UNKNOWN'' in
      if status = ''RETAINED_FOR_REVIEW''
      then Return (retry_report state meta ''BLOCKED_RETAINED_REVIEW''
        ''human disposition or retained-candidate recovery is required before retry; clean no-Candidate retention may retry only after formal cleanup'')
      else if status \<in> retry_INTEGRATION_INTERMEDIATE_STATUSES \<or> status = ''INTEGRATION_FAILED''
      then Return (retry_report state meta ''BLOCKED_INTEGRATION_FAILURE''
        ''integration failure requires dedicated integration retry; generic task retry is forbidden'')
      else if status \<in> retry_TERMINAL_STATUSES - retry_RETRYABLE_TASK_STATUSES -
                {''RETAINED_FOR_REVIEW'', ''INTEGRATION_FAILED''}
      then Return (retry_report state meta ''BLOCKED_ABSORBING_STATUS''
        (''task is in absorbing terminal status '' @ status @ ''; same-semantic task retry is forbidden''))
      else if status \<notin> retry_RETRYABLE_TASK_STATUSES
      then Return (retry_report state meta ''NO_DUPLICATE_ACTIVE_TASK''
        (''task is '' @ status @ ''; wait for its existing attempt instead of resubmitting''))
      else if str_or (dget state ''cleanup_decision'') '''' \<notin> {''REMOVED'', ''ALREADY_REMOVED'', ''TARGET_CLEANED''}
      then Return (retry_report state meta ''BLOCKED_TARGET_DISPOSITION''
        ''previous Target disposition is not removed/cleaned'')
      else if \<not> is_mapping (dget state ''request'')
      then Return (retry_report state meta ''BLOCKED_MISSING_REQUEST''
        ''durable request is missing; cannot safely reconstruct the task'')
      else Next ())"

text \<open>The dispatch of the predecessor attempt, when the task was dispatched through one.\<close>

definition envelope_malformed :: "dict \<Rightarrow> bool" where
  "envelope_malformed source =
     (case dget_opt source ''canonical_dispatch_envelope'' of None \<Rightarrow> False | Some v \<Rightarrow> \<not> is_mapping v)"

definition retry_predecessor :: "retry_ports \<Rightarrow> dict \<Rightarrow> dict \<Rightarrow> dict \<Rightarrow> dict option flow" where
  "retry_predecessor ports state meta request =
     (let envelope_present = (\<not> is_none (dget request ''canonical_dispatch_envelope'') \<or>
                              \<not> is_none (dget state ''canonical_dispatch_envelope'')) in
      bindf (return_if (envelope_present \<and> (envelope_malformed request \<or> envelope_malformed state))
               (retry_report state meta ''BLOCK'' ''WORKFORCE_DISPATCH_ENVELOPE_INVALID'')) (\<lambda>_.
      bindf (lift_res (rp_workforce_inputs ports request)) (\<lambda>(demands, admission).
      bindf (if envelope_present \<or> \<not> is_none demands \<or> \<not> is_none admission
             then (case rp_validate_predecessor ports request state of
                     Inr p \<Rightarrow> Next p
                   | Inl e \<Rightarrow> if \<not> is_runtime_error e then Raise e
                       else bindf (lift_res (rp_recover_predecessor ports state request e)) (\<lambda>r.
                         (case r of None \<Rightarrow> Return (retry_report state meta ''BLOCK'' (snd e))
                          | Some p \<Rightarrow> Next (Some p))))
             else Next None) (\<lambda>predecessor.
      bindf (return_if (case predecessor of None \<Rightarrow> False
                        | Some p \<Rightarrow> \<not> is_mapping (dget p ''canonical_dispatch_envelope''))
               (retry_report state meta ''BLOCK'' ''WORKFORCE_DISPATCH_ENVELOPE_MISSING'')) (\<lambda>_.
      Next predecessor)))))"

text \<open>The bounded repair of a repairable task: the request with its repair worker, the repair
  dispatch and the reconciliation decision.\<close>

definition retry_repair ::
  "(string \<Rightarrow> string) \<Rightarrow> retry_ports \<Rightarrow> dict \<Rightarrow> dict \<Rightarrow> dict \<Rightarrow> (dict \<times> dict option \<times> rc_decision option) flow"
where
  "retry_repair H ports state meta request =
     (if str_or (dget state ''acceptance_decision'') '''' \<noteq> ''REPAIRABLE''
      then Next (request, None, None)
      else
      bindf (return_if (\<not> is_mapping (dget request ''planner_output''))
               (retry_report state meta ''BLOCK'' ''WORKFORCE_ADMISSION_BINDING_MISSING'')) (\<lambda>_.
      bindf (lift_res (evaluate_bounded_reconciliation H (PDict state) (dget state ''verifier_residual''))) (\<lambda>d.
      bindf (return_if (\<not> rc_eligible d)
               (dset ''retry'' (PDict (dset ''bounded_reconciliation'' (PDict (rc_decision_to_dict d))
                  (dset ''blocker'' (PStr (rd_reason d))
                    (dset ''decision'' (PStr (if rd_disposition d = ''REPAIR_BUDGET_EXHAUSTED''
                                              then ''BLOCKED_REPAIR_BUDGET_EXHAUSTED''
                                              else ''BLOCKED_BOUNDED_RECONCILIATION'')) meta)))) state)) (\<lambda>_.
      (case rp_validate_repair ports request of
         Inl e \<Rightarrow> if is_runtime_error e then Return (retry_report state meta ''BLOCK'' (snd e)) else Raise e
       | Inr repair_dispatch \<Rightarrow>
           (let worker_id = str_or (dget (case repair_dispatch of None \<Rightarrow> [] | Some r \<Rightarrow> r) ''worker_id'') '''' in
            if worker_id = '''' then Return (retry_report state meta ''BLOCK'' ''WORKFORCE_REPAIR_WORKER_MISSING'')
            else Next (dset ''repair_worker_id'' (PStr worker_id) request, repair_dispatch, Some d)))))))"

text \<open>The rebinding of the retry request to a fresh attempt of the dispatched worker.\<close>

definition retry_rebind ::
  "retry_ports \<Rightarrow> dict \<Rightarrow> dict \<Rightarrow> dict \<Rightarrow> dict option \<Rightarrow> dict flow" where
  "retry_rebind ports state meta retry_request rebind_dispatch =
     (case rebind_dispatch of None \<Rightarrow> Next retry_request
      | Some disp \<Rightarrow>
        (case rp_rebind_fresh_attempt ports retry_request disp of
           Inl e \<Rightarrow> if fst e = TypeError \<or> is_value_error e
             then Return (retry_report state meta ''BLOCK'' (''WORKFORCE_REBIND_FAILED:'' @ snd e))
             else Raise e
         | Inr rebound \<Rightarrow>
           bindf (return_if (\<not> is_mapping rebound)
                    (retry_report state meta ''BLOCK'' ''WORKFORCE_REBIND_FAILED'')) (\<lambda>_.
           bindf (lift_res (rp_validate_fresh ports (dict_of rebound) state)) (\<lambda>fresh.
           bindf (return_if (\<not> is_mapping fresh)
                    (retry_report state meta ''BLOCK'' ''WORKFORCE_REBIND_FAILED'')) (\<lambda>_.
           let f = dict_of fresh in
           bindf (lift_res (dindex f ''provider'')) (\<lambda>provider.
           bindf (lift_res (dindex f ''model'')) (\<lambda>model.
           bindf (lift_res (dindex f ''worker_id'')) (\<lambda>worker_id.
           Next (dmerge (dict_of rebound)
             [(''worker'', provider), (''provider'', provider), (''model'', model),
              (''worker_id'', worker_id), (''worker_order'', PList [provider]),
              (''workforce_dispatch'', fresh),
              (''canonical_dispatch_envelope'', dget f ''canonical_dispatch_envelope'')])))))))))"

text \<open>Everything up to the submission.\<close>

definition retry_prepare ::
  "(string \<Rightarrow> string) \<Rightarrow> retry_ports \<Rightarrow> dict \<Rightarrow> dict \<Rightarrow> (dict \<times> rc_decision option) flow" where
  "retry_prepare H ports state meta =
     bindf (retry_budget_gate ports state meta) (\<lambda>_.
     bindf (retry_status_gate state meta) (\<lambda>_.
     let request = dict_of (dget state ''request'') in
     bindf (retry_predecessor ports state meta request) (\<lambda>predecessor.
     bindf (retry_repair H ports state meta request) (\<lambda>(request', repair_dispatch, decision).
     bindf (lift_res (rp_build_retry_request ports (dset ''request'' (PDict request') state))) (\<lambda>retry_request.
     bindf (retry_rebind ports state meta retry_request
              (case repair_dispatch of Some (x # xs) \<Rightarrow> Some (x # xs) | _ \<Rightarrow> predecessor)) (\<lambda>retry_request'.
     (case decision of None \<Rightarrow> Next (retry_request', None)
      | Some d \<Rightarrow>
          bindf (lift_res (build_repair_request_metadata d
                   (PStr (str_or (dget state ''attempt_id'') ''''))
                   (PStr (str_or (dget retry_request' ''attempt_id'') '''')))) (\<lambda>m.
          Next (dset ''bounded_reconciliation'' (PDict m) retry_request', Some d)))))))))"

definition retry_success :: "dict \<Rightarrow> dict \<Rightarrow> bool \<Rightarrow> dict \<Rightarrow> dict res" where
  "retry_success meta retry_request reconciled result =
     bindr (py_len (py_or (dget result ''attempts'') (PTuple []))) (\<lambda>n.
     let retry = dmerge meta
       [(''decision'', PStr ''REUSED_TASK_ID''),
        (''new_attempt_id'', dget result ''attempt_id''),
        (''new_action_id'', dget result ''action_id''),
        (''new_idempotency_key'', dget result ''idempotency_key''),
        (''attempts'', PInt n)]
     in Inr (dset ''retry'' (PDict (if reconciled
               then dset ''bounded_reconciliation'' (dget retry_request ''bounded_reconciliation'') retry
               else retry)) result))"

definition retry_task ::
  "(string \<Rightarrow> string) \<Rightarrow> retry_ports \<Rightarrow> string \<Rightarrow> dict list \<times> dict res" where
  "retry_task H ports task_id =
     (case rp_read_snapshot ports task_id of
        None \<Rightarrow> ([], Inl (KeyError, ''unknown task_id: '' @ task_id))
      | Some state \<Rightarrow>
          if is_False (dget state ''state_valid'')
          then ([], bindr (py_get (py_or (dget state ''blocker'') (PDict [])) ''code'') (\<lambda>code.
                 Inr (dset ''retry'' (PDict (retry_meta task_id (dset ''attempt_id'' PNone state)
                        (PStr ''BLOCKED_INVALID_STATE'') code)) state)))
          else (let meta = retry_meta task_id state PNone PNone in
                case retry_prepare H ports state meta of
                  Raise e \<Rightarrow> ([], Inl e)
                | Return d \<Rightarrow> ([], Inr d)
                | Next (retry_request, decision) \<Rightarrow>
                    ([retry_request],
                     bindr (rp_submit ports retry_request)
                       (retry_success meta retry_request (decision \<noteq> None)))))"

section \<open>Lemmas\<close>

lemma bindf_eq_Next [res_simps]: "bindf m f = Next y \<longleftrightarrow> (\<exists>x. m = Next x \<and> f x = Next y)"
  by (cases m) auto

lemma return_if_eq_Next [res_simps]: "return_if b d = Next u \<longleftrightarrow> \<not> b"
  by (simp add: return_if_def)

lemma lift_res_eq_Next [res_simps]: "lift_res r = Next x \<longleftrightarrow> r = Inr x"
  by (cases r) auto

lemma retry_status_sets:
  "retry_TERMINAL_STATUSES = TERMINAL_STATUSES"
  "retry_PENDING_CANDIDATE_STATUSES = PENDING_CANDIDATE_STATUSES"
  "retry_INTEGRATION_INTERMEDIATE_STATUSES = INTEGRATION_INTERMEDIATE_STATUSES"
  "retry_RETRYABLE_TASK_STATUSES = RETRYABLE_TASK_STATUSES"
  by (simp_all add: retry_TERMINAL_STATUSES_def retry_PENDING_CANDIDATE_STATUSES_def
      retry_INTEGRATION_INTERMEDIATE_STATUSES_def retry_RETRYABLE_TASK_STATUSES_def status_defs)

lemma retry_budget_gate_Next:
  "retry_budget_gate ports state meta = Next () \<longleftrightarrow>
     (\<exists>maximum n. bindr (rp_maximum_attempts ports (py_or (dget state ''request'') (PDict []))) py_int = Inr maximum \<and>
        py_len (py_or (dget state ''attempts'') (PTuple [])) = Inr n \<and> n < maximum)"
  by (auto simp: retry_budget_gate_def res_simps not_le split: sum.splits)

lemma retry_status_gate_Next:
  "retry_status_gate state meta = Next () \<longleftrightarrow>
     str_or (dget state ''status'') ''UNKNOWN'' \<in> RETRYABLE_TASK_STATUSES \<and>
     str_or (dget state ''cleanup_decision'') '''' \<in> {''REMOVED'', ''ALREADY_REMOVED'', ''TARGET_CLEANED''} \<and>
     is_mapping (dget state ''request'')"
proof -
  define status where "status = str_or (dget state ''status'') ''UNKNOWN''"
  have "status \<noteq> ''RETAINED_FOR_REVIEW''" "status \<noteq> ''INTEGRATION_FAILED''"
    "status \<notin> INTEGRATION_INTERMEDIATE_STATUSES" if "status \<in> RETRYABLE_TASK_STATUSES"
    using that by (auto simp: status_defs)
  then show ?thesis
    unfolding retry_status_gate_def retry_status_sets Let_def status_def [symmetric] by auto
qed

lemma retry_repair_decision:
  "retry_repair H ports state meta request = Next (request', disp, Some d) \<Longrightarrow>
     evaluate_bounded_reconciliation H (PDict state) (dget state ''verifier_residual'') = Inr d \<and> rc_eligible d"
  by (cases "rp_validate_repair ports request")
    (auto simp: retry_repair_def res_simps Let_def split: if_splits)

lemma retry_repair_no_decision:
  "retry_repair H ports state meta request = Next (request', disp, None) \<Longrightarrow>
     str_or (dget state ''acceptance_decision'') [] \<noteq> ''REPAIRABLE''"
  by (cases "rp_validate_repair ports request")
    (auto simp: retry_repair_def res_simps Let_def split: if_splits)

lemma retry_prepare_Next:
  assumes "retry_prepare H ports state meta = Next (rq, dec)"
  shows "retry_budget_gate ports state meta = Next () \<and> retry_status_gate state meta = Next () \<and>
    (case dec of None \<Rightarrow> str_or (dget state ''acceptance_decision'') [] \<noteq> ''REPAIRABLE''
     | Some d \<Rightarrow> evaluate_bounded_reconciliation H (PDict state) (dget state ''verifier_residual'') = Inr d \<and>
         rc_eligible d \<and> (\<exists>pr su m. build_repair_request_metadata d pr su = Inr m \<and>
                                 dget rq ''bounded_reconciliation'' = PDict m))"
proof -
  from assms obtain request' disp dec' retry_request where p:
    "retry_budget_gate ports state meta = Next ()" "retry_status_gate state meta = Next ()"
    "retry_repair H ports state meta (dict_of (dget state ''request'')) = Next (request', disp, dec')"
    and d: "(case dec' of None \<Rightarrow> Next (retry_request, None)
      | Some d \<Rightarrow>
          bindf (lift_res (build_repair_request_metadata d
                   (PStr (str_or (dget state ''attempt_id'') ''''))
                   (PStr (str_or (dget retry_request ''attempt_id'') '''')))) (\<lambda>m.
          Next (dset ''bounded_reconciliation'' (PDict m) retry_request, Some d))) = Next (rq, dec)"
    unfolding retry_prepare_def Let_def by (auto simp: bindf_eq_Next)
  show ?thesis
  proof (cases dec')
    case None
    with p d show ?thesis using retry_repair_no_decision by auto
  next
    case (Some e)
    with p(3) have "evaluate_bounded_reconciliation H (PDict state) (dget state ''verifier_residual'') = Inr e"
      "rc_eligible e" using retry_repair_decision by auto
    with p d Some show ?thesis by (auto simp: res_simps) blast
  qed
qed

lemma retry_task_submits:
  "fst (retry_task H ports task_id) = [rq] \<longleftrightarrow>
     (\<exists>state dec. rp_read_snapshot ports task_id = Some state \<and> \<not> is_False (dget state ''state_valid'') \<and>
        retry_prepare H ports state (retry_meta task_id state PNone PNone) = Next (rq, dec))"
  by (auto simp: retry_task_def Let_def split: option.splits flow.splits)

lemma retry_task_submits_once:
  "fst (retry_task H ports task_id) = [] \<or> (\<exists>rq. fst (retry_task H ports task_id) = [rq])"
  by (auto simp: retry_task_def Let_def split: option.splits flow.splits)

lemma eligible_metadata_exhausts:
  assumes "evaluate_bounded_reconciliation H st rv = Inr d" and "rc_eligible d"
    and "build_repair_request_metadata d pr su = Inr m"
    and "dget rq' ''bounded_reconciliation'' = PDict m" and "dget s' ''request'' = PDict rq'"
  shows "\<not> (\<exists>d'. evaluate_bounded_reconciliation H (PDict s') rv' = Inr d' \<and> rc_eligible d')"
proof -
  have "rd_next_repair_round d = Some 1" using evaluate_eligible_next_round [OF assms(1,2)] by simp
  then have "current_repair_round rq' = Inr 1"
    using build_repair_request_metadata_round [OF assms(3)] assms(4)
    by (intro current_repair_round_of_metadata) auto
  then show ?thesis using assms(5) by (auto simp: evaluate_eligible_iff)
qed

text \<open>A cancelled task and a repairable task, with ports that accept the first submission.\<close>

definition sample_ports :: "dict \<Rightarrow> retry_ports" where
  "sample_ports snap =
     \<lparr> rp_read_snapshot = (\<lambda>t. Some snap),
       rp_maximum_attempts = (\<lambda>rq. Inr (PInt 5)),
       rp_build_retry_request = (\<lambda>s. Inr [(''task_id'', PStr ''t''), (''attempt_id'', PStr ''attempt-b'')]),
       rp_workforce_inputs = (\<lambda>rq. Inr (PNone, PNone)),
       rp_recover_predecessor = (\<lambda>s rq e. Inr None),
       rp_validate_predecessor = (\<lambda>rq s. Inr None),
       rp_validate_repair = (\<lambda>rq. Inr (Some [(''worker_id'', PStr ''w'')])),
       rp_rebind_fresh_attempt = (\<lambda>rq d. Inr (PDict rq)),
       rp_validate_fresh = (\<lambda>rq s. Inr (PDict [(''provider'', PStr ''p''), (''model'', PStr ''m''),
                                          (''worker_id'', PStr ''w'')])),
       rp_submit = (\<lambda>rq. Inr rq) \<rparr>"

definition sample_cancelled :: dict where
  "sample_cancelled =
     [(''status'', PStr ''CANCELLED''), (''cleanup_decision'', PStr ''REMOVED''), (''request'', PDict [])]"

definition sample_repairable :: dict where
  "sample_repairable = dmerge sample_state
     [(''cleanup_decision'', PStr ''REMOVED''), (''verifier_residual'', PDict sample_residual),
      (''request'', PDict [(''planner_output'', PDict [])])]"

definition sample_repair_request :: dict where
  "sample_repair_request = hd (fst (retry_task sample_hash (sample_ports sample_repairable) ''t''))"

definition sample_repaired :: dict where
  "sample_repaired = dset ''request'' (PDict sample_repair_request) sample_repairable"

lemma sample_cancelled_submits: "fst (retry_task sample_hash (sample_ports sample_cancelled) ''t'') \<noteq> []"
  by code_simp

lemma sample_repair_submits:
  "fst (retry_task sample_hash (sample_ports sample_repairable) ''t'') = [sample_repair_request]"
  by code_simp

section \<open>Properties\<close>

text \<open>
  C36 (retry_submission_guards). A call of \<open>retry_task\<close> submits at most one request, and only when every
  gate is passed: the snapshot exists and is not marked invalid, the number of attempts is below
  the resolved maximum, the status is one of the retryable statuses of \<open>task_lifecycle\<close>, the
  previous target is removed or cleaned, the durable request is a mapping, and a repairable task
  has an eligible reconciliation decision and carries repair round 1 in the submitted request.
\<close>

theorem retry_submission_guards:
  assumes "fst (retry_task H ports task_id) \<noteq> []"
  shows "\<exists>state rq req maximum n. rp_read_snapshot ports task_id = Some state \<and>
     fst (retry_task H ports task_id) = [rq] \<and>
     dget state ''state_valid'' \<noteq> PBool False \<and>
     bindr (rp_maximum_attempts ports (py_or (dget state ''request'') (PDict []))) py_int = Inr maximum \<and>
     py_len (py_or (dget state ''attempts'') (PTuple [])) = Inr n \<and> n < maximum \<and>
     str_or (dget state ''status'') ''UNKNOWN'' \<in> RETRYABLE_TASK_STATUSES \<and>
     str_or (dget state ''cleanup_decision'') '''' \<in> {''REMOVED'', ''ALREADY_REMOVED'', ''TARGET_CLEANED''} \<and>
     dget state ''request'' = PDict req \<and>
     (str_or (dget state ''acceptance_decision'') '''' = ''REPAIRABLE'' \<longrightarrow>
        (\<exists>d m. evaluate_bounded_reconciliation H (PDict state) (dget state ''verifier_residual'') = Inr d \<and>
               rc_eligible d \<and> dget rq ''bounded_reconciliation'' = PDict m \<and>
               dget_default m ''repair_round'' (PInt 0) = PInt 1))"
proof -
  from assms obtain rq where rq: "fst (retry_task H ports task_id) = [rq]"
    using retry_task_submits_once by blast
  then obtain state dec where s: "rp_read_snapshot ports task_id = Some state"
    "\<not> is_False (dget state ''state_valid'')"
    "retry_prepare H ports state (retry_meta task_id state PNone PNone) = Next (rq, dec)"
    by (auto simp: retry_task_submits)
  note p = retry_prepare_Next [OF s(3)]
  have "\<exists>d m. evaluate_bounded_reconciliation H (PDict state) (dget state ''verifier_residual'') = Inr d \<and>
               rc_eligible d \<and> dget rq ''bounded_reconciliation'' = PDict m \<and>
               dget_default m ''repair_round'' (PInt 0) = PInt 1"
    if "str_or (dget state ''acceptance_decision'') '''' = ''REPAIRABLE''"
    using p that evaluate_eligible_next_round build_repair_request_metadata_round
    by (cases dec) (simp, fastforce)
  with rq s p show ?thesis
    by (auto simp: retry_budget_gate_Next retry_status_gate_Next is_False_def is_mapping_iff)
qed

theorem retry_submission_guards_witness:
  "\<exists>state rq req maximum n. rp_read_snapshot (sample_ports sample_cancelled) ''t'' = Some state \<and>
     fst (retry_task sample_hash (sample_ports sample_cancelled) ''t'') = [rq] \<and>
     dget state ''state_valid'' \<noteq> PBool False \<and>
     bindr (rp_maximum_attempts (sample_ports sample_cancelled)
       (py_or (dget state ''request'') (PDict []))) py_int = Inr maximum \<and>
     py_len (py_or (dget state ''attempts'') (PTuple [])) = Inr n \<and> n < maximum \<and>
     str_or (dget state ''status'') ''UNKNOWN'' \<in> RETRYABLE_TASK_STATUSES \<and>
     dget state ''request'' = PDict req"
  using retry_submission_guards [OF sample_cancelled_submits] by blast

text \<open>
  C37 (retry_repairs_once). The repair budget holds end to end: after \<open>retry_task\<close> has submitted a
  repair of a repairable task, a later retry of any task whose durable request carries the
  submitted reconciliation metadata and is again repairable submits nothing.
\<close>

theorem retry_repairs_once:
  assumes "fst (retry_task H ports task_id) = [rq]" and "rp_read_snapshot ports task_id = Some state"
    and "str_or (dget state ''acceptance_decision'') '''' = ''REPAIRABLE''"
    and "rp_read_snapshot ports' task_id' = Some state'"
    and "str_or (dget state' ''acceptance_decision'') '''' = ''REPAIRABLE''"
    and "dget state' ''request'' = PDict rq'"
    and "dget rq' ''bounded_reconciliation'' = dget rq ''bounded_reconciliation''"
  shows "fst (retry_task H ports' task_id') = []"
proof (rule ccontr)
  assume "fst (retry_task H ports' task_id') \<noteq> []"
  then obtain rq2 dec2 where "retry_prepare H ports' state' (retry_meta task_id' state' PNone PNone) = Next (rq2, dec2)"
    using retry_task_submits_once [of H ports' task_id'] assms(4) by (auto simp: retry_task_submits)
  from retry_prepare_Next [OF this] assms(5) obtain d2
    where d2: "evaluate_bounded_reconciliation H (PDict state') (dget state' ''verifier_residual'') = Inr d2"
      "rc_eligible d2" by (cases dec2) auto
  from assms(1,2) obtain dec where "retry_prepare H ports state (retry_meta task_id state PNone PNone) = Next (rq, dec)"
    by (auto simp: retry_task_submits)
  from retry_prepare_Next [OF this] assms(3) obtain d pr su m where
    "evaluate_bounded_reconciliation H (PDict state) (dget state ''verifier_residual'') = Inr d" "rc_eligible d"
    "build_repair_request_metadata d pr su = Inr m" "dget rq ''bounded_reconciliation'' = PDict m"
    by (cases dec) auto
  then show False
    using eligible_metadata_exhausts assms(6,7) d2 by metis
qed

theorem retry_repairs_once_witness:
  "fst (retry_task sample_hash (sample_ports sample_repaired) ''t'') = []"
proof (rule retry_repairs_once [OF sample_repair_submits])
  show "rp_read_snapshot (sample_ports sample_repairable) ''t'' = Some sample_repairable"
    by (simp add: sample_ports_def)
  show acc: "str_or (dget sample_repairable ''acceptance_decision'') '''' = ''REPAIRABLE''"
    by code_simp
  show "rp_read_snapshot (sample_ports sample_repaired) ''t'' = Some sample_repaired"
    by (simp add: sample_ports_def)
  show "str_or (dget sample_repaired ''acceptance_decision'') '''' = ''REPAIRABLE''"
    using acc by (simp add: sample_repaired_def)
  show "dget sample_repaired ''request'' = PDict sample_repair_request"
    by (simp add: sample_repaired_def)
qed simp

text \<open>
  A task whose status is not retryable is never resubmitted: the service
  returns the unchanged state with a refusal that depends on the family of the status, distinguishing
  retained work, failed integrations, absorbing terminal statuses and tasks that are still active.
\<close>

theorem retry_refusal:
  assumes "rp_read_snapshot ports task_id = Some state" and "dget state ''state_valid'' \<noteq> PBool False"
    and "retry_budget_gate ports state (retry_meta task_id state PNone PNone) = Next ()"
    and "status = str_or (dget state ''status'') ''UNKNOWN''" and "status \<notin> RETRYABLE_TASK_STATUSES"
  shows "\<exists>reason. retry_task H ports task_id =
    ([], Inr (retry_report state (retry_meta task_id state PNone PNone)
      (if status = ''RETAINED_FOR_REVIEW'' then ''BLOCKED_RETAINED_REVIEW''
       else if status \<in> INTEGRATION_INTERMEDIATE_STATUSES \<union> {''INTEGRATION_FAILED''} then ''BLOCKED_INTEGRATION_FAILURE''
       else if status \<in> TERMINAL_STATUSES then ''BLOCKED_ABSORBING_STATUS''
       else ''NO_DUPLICATE_ACTIVE_TASK'') reason))"
proof -
  let ?m = "retry_meta task_id state PNone PNone"
  have "\<exists>reason. retry_status_gate state ?m = Return (retry_report state ?m
      (if status = ''RETAINED_FOR_REVIEW'' then ''BLOCKED_RETAINED_REVIEW''
       else if status \<in> INTEGRATION_INTERMEDIATE_STATUSES \<union> {''INTEGRATION_FAILED''} then ''BLOCKED_INTEGRATION_FAILURE''
       else if status \<in> TERMINAL_STATUSES then ''BLOCKED_ABSORBING_STATUS''
       else ''NO_DUPLICATE_ACTIVE_TASK'') reason)"
    unfolding retry_status_gate_def retry_status_sets Let_def assms(4) [symmetric]
    using assms(5) by auto
  then show ?thesis
    using assms(1,2,3) by (auto simp: retry_task_def retry_prepare_def is_False_def)
qed

theorem retry_refusal_witness:
  "\<exists>reason. retry_task sample_hash (sample_ports [(''status'', PStr ''INTEGRATED'')]) ''t'' =
    ([], Inr (retry_report [(''status'', PStr ''INTEGRATED'')]
      (retry_meta ''t'' [(''status'', PStr ''INTEGRATED'')] PNone PNone)
      (if ''INTEGRATED'' = ''RETAINED_FOR_REVIEW'' then ''BLOCKED_RETAINED_REVIEW''
       else if ''INTEGRATED'' \<in> INTEGRATION_INTERMEDIATE_STATUSES \<union> {''INTEGRATION_FAILED''} then ''BLOCKED_INTEGRATION_FAILURE''
       else if ''INTEGRATED'' \<in> TERMINAL_STATUSES then ''BLOCKED_ABSORBING_STATUS''
       else ''NO_DUPLICATE_ACTIVE_TASK'') reason))"
  by (rule retry_refusal)
    (simp_all add: sample_ports_def dget_def py_or_def retry_budget_gate_Next RETRYABLE_TASK_STATUSES_def)

end
