(* ===== verification/Json_Store.thy ===== *)
theory Json_Store
  imports Py_Json
begin

text \<open>
  Directories of JSON documents, as the durable stores keep them. A document is written by
  \<open>json.dump\<close> into a temporary file that atomically replaces the old one, so a path holds either
  its previous or its next document; what a reader gets is the value after a dump and a load. A
  file may also hold text that \<open>json.loads\<close> refuses. A critical section under \<open>flock\<close> is one step
  on the store.
\<close>

section \<open>Files\<close>

datatype doc_file = JsonFile pyval | BadFile

type_synonym path = "string list"
type_synonym store = "(path \<times> doc_file) list"

definition fs_get :: "store \<Rightarrow> path \<Rightarrow> doc_file option" where
  "fs_get st p = map_of st p"

definition fs_exists :: "store \<Rightarrow> path \<Rightarrow> bool" where
  "fs_exists st p \<longleftrightarrow> fs_get st p \<noteq> None"

fun fs_put :: "path \<Rightarrow> doc_file \<Rightarrow> store \<Rightarrow> store" where
  "fs_put p f [] = [(p, f)]"
| "fs_put p f ((q, g) # st) = (if q = p then (p, f) # st else (q, g) # fs_put p f st)"

text \<open>\<open>_atomic_write\<close>: the document as it will be read back.\<close>

definition atomic_write :: "store \<Rightarrow> path \<Rightarrow> dict \<Rightarrow> store" where
  "atomic_write st p payload = fs_put p (JsonFile (json_norm (PDict payload))) st"

text \<open>\<open>json.loads(path.read_text())\<close>.\<close>

definition load_json :: "store \<Rightarrow> path \<Rightarrow> pyval res" where
  "load_json st p = (case fs_get st p of
     None \<Rightarrow> Inl (FileNotFoundError, ''No such file or directory'')
   | Some BadFile \<Rightarrow> Inl (JSONDecodeError, ''Expecting value'')
   | Some (JsonFile v) \<Rightarrow> Inr v)"

definition ends_with :: "string \<Rightarrow> string \<Rightarrow> bool" where
  "ends_with suffix s \<longleftrightarrow> length suffix \<le> length s \<and> drop (length s - length suffix) s = suffix"

text \<open>\<open>sorted(directory.glob(pattern))\<close> for a pattern on the name, given as a predicate.\<close>

definition glob_names :: "store \<Rightarrow> path \<Rightarrow> (string \<Rightarrow> bool) \<Rightarrow> string list" where
  "glob_names st dir P =
     sort_strings (map last (filter (\<lambda>p. p \<noteq> [] \<and> butlast p = dir \<and> P (last p)) (map fst st)))"

section \<open>Lemmas\<close>

lemma fs_get_put [simp]: "fs_get (fs_put p f st) q = (if q = p then Some f else fs_get st q)"
  by (induction p f st rule: fs_put.induct) (auto simp: fs_get_def)

lemma fs_paths_put: "set (map fst (fs_put p f st)) = insert p (set (map fst st))"
  by (induction p f st rule: fs_put.induct) auto

lemma fs_get_None_iff: "fs_get st p = None \<longleftrightarrow> p \<notin> set (map fst st)"
  by (simp add: fs_get_def map_of_eq_None_iff)

lemma fs_get_atomic_write [simp]:
  "fs_get (atomic_write st p d) q = (if q = p then Some (JsonFile (json_norm (PDict d))) else fs_get st q)"
  by (simp add: atomic_write_def)

lemma fs_exists_atomic_write [simp]: "fs_exists (atomic_write st p d) q \<longleftrightarrow> q = p \<or> fs_exists st q"
  by (simp add: fs_exists_def)

lemma load_json_atomic_write [simp]:
  "load_json (atomic_write st p d) q = (if q = p then Inr (json_norm (PDict d)) else load_json st q)"
  by (simp add: load_json_def)

lemma load_json_cong: "fs_get st p = fs_get st' p' \<Longrightarrow> load_json st p = load_json st' p'"
  by (simp add: load_json_def)

lemma set_glob_names:
  "set (glob_names st dir P) = {n. P n \<and> fs_exists st (dir @ [n])}"
proof -
  have "n \<in> set (glob_names st dir P) \<longleftrightarrow> P n \<and> dir @ [n] \<in> set (map fst st)" for n
  proof
    assume "n \<in> set (glob_names st dir P)"
    then obtain p where "p \<in> set (map fst st)" "p \<noteq> []" "butlast p = dir" "P (last p)" "n = last p"
      by (auto simp: glob_names_def)
    then show "P n \<and> dir @ [n] \<in> set (map fst st)" using append_butlast_last_id [of p] by auto
  next
    assume "P n \<and> dir @ [n] \<in> set (map fst st)"
    then have "dir @ [n] \<in> set (filter (\<lambda>p. p \<noteq> [] \<and> butlast p = dir \<and> P (last p)) (map fst st))" by simp
    from imageI [OF this, of last] show "n \<in> set (glob_names st dir P)"
      unfolding glob_names_def set_sort_strings set_map [of last] by simp
  qed
  then show ?thesis by (auto simp: fs_exists_def fs_get_None_iff)
qed

text \<open>Reading a field of a document.\<close>

lemma vget_json_norm: "vget (json_norm (PDict d)) k = json_norm (dget d k)"
  unfolding vget_def dget_def map_of_json_norm by (auto split: option.split)

lemma dget_json_norm: "dget (dict_of (json_norm (PDict d))) k = json_norm (dget d k)"
  using vget_json_norm by (simp add: vget_def)

lemma dget_default_json_norm:
  "dget_default (dict_of (json_norm (PDict d))) k (json_norm v) = json_norm (dget_default d k v)"
  unfolding dget_default_def map_of_json_norm by (auto split: option.split)

lemma dkeys_json_norm: "set (dkeys (dict_of (json_norm (PDict d)))) = set (dkeys d)"
  by (force simp: dkeys_def)

lemma ddel_json_norm: "PDict (ddel k (dict_of (json_norm (PDict d)))) = json_norm (PDict (ddel k d))"
  by (simp add: ddel_def filter_map comp_def filter_sort [symmetric])

lemma is_mapping_json_norm [simp]: "is_mapping (json_norm v) = is_mapping v"
  by (cases v) simp_all

lemma truthy_json_norm [simp]: "truthy (json_norm v) = truthy v"
proof (cases v)
  case (PDict d)
  have "sort_key fst d = [] \<longleftrightarrow> d = []" by (metis length_0_conv length_sort)
  with PDict show ?thesis by simp
next
  case (PFloat f)
  then show ?thesis by (cases f) simp_all
qed simp_all

end
