(* ===== verification/Workflow_Checkpoint.thy ===== *)
theory Workflow_Checkpoint
  imports Json_Store
begin

text \<open>
  The workflow checkpoint (\<open>workflow_checkpoint.py\<close>): the content-hashed record of one attempt, its
  advancement, and the rule that decides whether a later session may resume it. The hash function
  is the parameter \<open>H\<close>. The store is in the theory \<open>Checkpoint_Store\<close>, its handoff part in
  \<open>Handoff_Lineage\<close>.
\<close>

section \<open>Constants and field checks\<close>

definition WORKFLOW_CHECKPOINT_SCHEMA :: string where
  "WORKFLOW_CHECKPOINT_SCHEMA = ''nexus.runtime.workflow_checkpoint.v1''"

definition WORKFLOW_CHECKPOINT_CLAIM_CEILING :: string where
  "WORKFLOW_CHECKPOINT_CLAIM_CEILING = ''RUNTIME_SESSION_CHECKPOINT_EXECUTION_STATE_ONLY''"

definition CHECKPOINT_STATUSES :: "string set" where
  "CHECKPOINT_STATUSES =
     {''RUNNING'', ''WAITING_APPROVAL'', ''WAITING_EXTERNAL'', ''RECONCILE'', ''COMPLETED'', ''FAILED''}"

definition cp_TERMINAL_STATUSES :: "string set" where
  "cp_TERMINAL_STATUSES = {''COMPLETED'', ''FAILED''}"

definition RESUME_DISPOSITIONS :: "string set" where
  "RESUME_DISPOSITIONS = {''SAFE'', ''RECONCILE'', ''WAIT'', ''BLOCKED''}"

abbreviation ck_error :: "string \<Rightarrow> 'a res" where
  "ck_error msg \<equiv> Inl (CheckpointError, msg)"

definition ck_text :: "pyval \<Rightarrow> string \<Rightarrow> string res" where
  "ck_text v name = require_text CheckpointError v name"

definition ck_canonical :: "pyval \<Rightarrow> string res" where
  "ck_canonical v =
     (case json_dumps True True v of
        Inl e \<Rightarrow> if fst e = TypeError \<or> is_value_error e
                 then ck_error ''checkpoint value must be JSON-serializable'' else Inl e
      | Inr s \<Rightarrow> Inr s)"

text \<open>\<open>_sha256\<close> of a value that is not a text.\<close>

definition ck_sha256 :: "(string \<Rightarrow> string) \<Rightarrow> pyval \<Rightarrow> string res" where
  "ck_sha256 H v = bindr (ck_canonical v) (\<lambda>s. Inr (H s))"

section \<open>Identity and effects\<close>

record identity_binding =
  ib_repository :: string
  ib_source_revision :: string
  ib_runtime_identity :: string
  ib_target_revision :: string

definition make_identity :: "string \<Rightarrow> string \<Rightarrow> string \<Rightarrow> string \<Rightarrow> identity_binding res" where
  "make_identity repository source_revision runtime_identity target_revision =
     bindr (ck_text (PStr repository) ''repository'') (\<lambda>_.
     bindr (ck_text (PStr source_revision) ''source_revision'') (\<lambda>_.
     bindr (ck_text (PStr runtime_identity) ''runtime_identity'') (\<lambda>_.
     bindr (if target_revision \<noteq> '''' then ck_text (PStr target_revision) ''target_revision'' else Inr '''') (\<lambda>_.
     Inr \<lparr> ib_repository = repository, ib_source_revision = source_revision,
           ib_runtime_identity = runtime_identity, ib_target_revision = target_revision \<rparr>))))"

definition identity_to_dict :: "identity_binding \<Rightarrow> dict" where
  "identity_to_dict i =
     [(''repository'', PStr (ib_repository i)), (''source_revision'', PStr (ib_source_revision i)),
      (''runtime_identity'', PStr (ib_runtime_identity i)), (''target_revision'', PStr (ib_target_revision i))]"

record completed_effect =
  ce_effect_key :: string
  ce_receipt_ref :: string
  ce_effect_hash :: string

definition make_effect :: "string \<Rightarrow> string \<Rightarrow> string \<Rightarrow> completed_effect res" where
  "make_effect effect_key receipt_ref effect_hash =
     bindr (ck_text (PStr effect_key) ''effect_key'') (\<lambda>_.
     bindr (ck_text (PStr receipt_ref) ''receipt_ref'') (\<lambda>_.
     bindr (if effect_hash \<noteq> '''' then ck_text (PStr effect_hash) ''effect_hash'' else Inr '''') (\<lambda>_.
     Inr \<lparr> ce_effect_key = effect_key, ce_receipt_ref = receipt_ref, ce_effect_hash = effect_hash \<rparr>)))"

definition effect_to_dict :: "completed_effect \<Rightarrow> dict" where
  "effect_to_dict e =
     [(''effect_key'', PStr (ce_effect_key e)), (''receipt_ref'', PStr (ce_receipt_ref e)),
      (''effect_hash'', PStr (ce_effect_hash e))]"

definition effect_from_dict :: "pyval \<Rightarrow> completed_effect res" where
  "effect_from_dict data =
     bindr (py_get data ''effect_key'') (\<lambda>k. bindr (ck_text k ''effect_key'') (\<lambda>effect_key.
     bindr (py_get data ''receipt_ref'') (\<lambda>r. bindr (ck_text r ''receipt_ref'') (\<lambda>receipt_ref.
     bindr (py_get data ''effect_hash'') (\<lambda>h.
     make_effect effect_key receipt_ref (str_or h ''''))))))"

section \<open>The checkpoint\<close>

record checkpoint =
  cp_task_id :: string
  cp_operation_id :: string
  cp_attempt_id :: string
  cp_identity :: identity_binding
  cp_revision :: int
  cp_status :: string
  cp_phase :: string
  cp_next_gate :: string
  cp_external_operation_ids :: "(string \<times> string) list"
  cp_leases :: "string list"
  cp_evidence_refs :: "string list"
  cp_completed_effects :: "completed_effect list"
  cp_pending_steps :: "string list"
  cp_retry_history :: "string list"
  cp_blocked_reason :: string
  cp_schema :: string
  cp_claim_ceiling :: string

text \<open>
  The arguments of the constructor. \<open>from_dict\<close> hands over decoded values as they are for the
  revision, the external ids and the members of the four text tuples.
\<close>

record checkpoint_args =
  ca_base :: checkpoint
  ca_revision :: pyval
  ca_external_operation_ids :: pyval
  ca_leases :: "pyval list"
  ca_evidence_refs :: "pyval list"
  ca_pending_steps :: "pyval list"
  ca_retry_history :: "pyval list"

definition args_of :: "checkpoint \<Rightarrow> checkpoint_args" where
  "args_of cp =
     \<lparr> ca_base = cp, ca_revision = PInt (cp_revision cp),
       ca_external_operation_ids = PDict (map (\<lambda>p. (fst p, PStr (snd p))) (cp_external_operation_ids cp)),
       ca_leases = map PStr (cp_leases cp), ca_evidence_refs = map PStr (cp_evidence_refs cp),
       ca_pending_steps = map PStr (cp_pending_steps cp),
       ca_retry_history = map PStr (cp_retry_history cp) \<rparr>"

text \<open>\<open>dict(v)\<close>: a mapping, or an iterable of pairs whose first components are hashable.\<close>

fun pset :: "pyval \<Rightarrow> pyval \<Rightarrow> (pyval \<times> pyval) list \<Rightarrow> (pyval \<times> pyval) list" where
  "pset k v [] = [(k, v)]"
| "pset k v ((k', v') # d) = (if py_eq k' k then (k', v) # d else (k', v') # pset k v d)"

definition pair_of :: "pyval \<Rightarrow> (pyval \<times> pyval) res" where
  "pair_of v =
     (case py_iter v of
        Inl _ \<Rightarrow> Inl (TypeError, ''cannot convert dictionary update sequence element to a sequence'')
      | Inr [k, x] \<Rightarrow> if hashable k then Inr (k, x) else Inl (TypeError, ''unhashable type: '' @ quoted (type_name k))
      | Inr xs \<Rightarrow> Inl (ValueError, ''dictionary update sequence element has length '' @
                     show_nat (length xs) @ ''; 2 is required''))"

definition py_dict :: "pyval \<Rightarrow> (pyval \<times> pyval) list res" where
  "py_dict v =
     (case v of PDict d \<Rightarrow> Inr (map (\<lambda>p. (PStr (fst p), snd p)) d)
      | _ \<Rightarrow> bindr (py_iter v) (\<lambda>xs. bindr (map_res pair_of xs) (\<lambda>ps.
             Inr (fold (\<lambda>(k, x) acc. pset k x acc) ps []))))"

text \<open>\<open>{str(k): str(v) for k, v in dict(v).items()}\<close>\<close>

definition str_dict :: "pyval \<Rightarrow> (string \<times> string) list res" where
  "str_dict v = bindr (py_dict v) (\<lambda>ps.
     Inr (fold (\<lambda>(k, x) acc. dset (py_str k) (py_str x) acc) ps []))"

definition nonblank_texts :: "pyval list \<Rightarrow> string \<Rightarrow> string list res" where
  "nonblank_texts vs key =
     (if \<exists>v \<in> set vs. \<not> (case v of PStr s \<Rightarrow> strip s \<noteq> [] | _ \<Rightarrow> False)
      then ck_error (key @ '' must contain non-empty strings'')
      else Inr (dedup (map py_str vs)))"

definition make_checkpoint :: "checkpoint_args \<Rightarrow> checkpoint res" where
  "make_checkpoint a =
    (let b = ca_base a in
     bindr (raise_if (cp_schema b \<noteq> WORKFLOW_CHECKPOINT_SCHEMA) CheckpointError
              ''unsupported workflow checkpoint schema'') (\<lambda>_.
     bindr (ck_text (PStr (cp_task_id b)) ''task_id'') (\<lambda>_.
     bindr (ck_text (PStr (cp_operation_id b)) ''operation_id'') (\<lambda>_.
     bindr (ck_text (PStr (cp_attempt_id b)) ''attempt_id'') (\<lambda>_.
     bindr (case ca_revision a of PInt r \<Rightarrow> Inr r | _ \<Rightarrow> ck_error ''revision must be an int'') (\<lambda>revision.
     bindr (raise_if (revision < 1) CheckpointError ''revision must be >= 1'') (\<lambda>_.
     bindr (raise_if (cp_status b \<notin> CHECKPOINT_STATUSES) CheckpointError
              (''unsupported checkpoint status: '' @ repr_str (cp_status b))) (\<lambda>_.
     bindr (str_dict (ca_external_operation_ids a)) (\<lambda>external.
     bindr (nonblank_texts (ca_leases a) ''leases'') (\<lambda>leases.
     bindr (nonblank_texts (ca_evidence_refs a) ''evidence_refs'') (\<lambda>evidence.
     bindr (nonblank_texts (ca_pending_steps a) ''pending_steps'') (\<lambda>pending.
     bindr (nonblank_texts (ca_retry_history a) ''retry_history'') (\<lambda>history.
     let effects = cp_completed_effects b in
     bindr (raise_if (\<not> distinct (map ce_effect_key effects)) CheckpointError
              ''completed_effects must not repeat an effect_key'') (\<lambda>_.
     bindr (raise_if (cp_status b \<in> cp_TERMINAL_STATUSES \<and> pending \<noteq> []) CheckpointError
              ''terminal checkpoints must not carry pending_steps'') (\<lambda>_.
     Inr (b\<lparr> cp_revision := revision, cp_external_operation_ids := external, cp_leases := leases,
            cp_evidence_refs := evidence, cp_completed_effects := sort_key ce_effect_key effects,
            cp_pending_steps := pending, cp_retry_history := history \<rparr>))))))))))))))))"

definition is_terminal :: "checkpoint \<Rightarrow> bool" where
  "is_terminal cp \<longleftrightarrow> cp_status cp \<in> cp_TERMINAL_STATUSES"

definition has_effect :: "checkpoint \<Rightarrow> string \<Rightarrow> bool" where
  "has_effect cp effect_key \<longleftrightarrow> (\<exists>e \<in> set (cp_completed_effects cp). ce_effect_key e = effect_key)"

definition cp_body :: "checkpoint \<Rightarrow> dict" where
  "cp_body cp =
     [(''schema'', PStr (cp_schema cp)), (''task_id'', PStr (cp_task_id cp)),
      (''operation_id'', PStr (cp_operation_id cp)), (''attempt_id'', PStr (cp_attempt_id cp)),
      (''revision'', PInt (cp_revision cp)), (''status'', PStr (cp_status cp)),
      (''phase'', PStr (cp_phase cp)), (''next_gate'', PStr (cp_next_gate cp)),
      (''identity'', PDict (identity_to_dict (cp_identity cp))),
      (''external_operation_ids'',
        PDict (map (\<lambda>p. (fst p, PStr (snd p))) (sort_key fst (cp_external_operation_ids cp)))),
      (''leases'', PList (map PStr (cp_leases cp))),
      (''evidence_refs'', PList (map PStr (cp_evidence_refs cp))),
      (''completed_effects'', PList (map (\<lambda>e. PDict (effect_to_dict e)) (cp_completed_effects cp))),
      (''pending_steps'', PList (map PStr (cp_pending_steps cp))),
      (''retry_history'', PList (map PStr (cp_retry_history cp))),
      (''blocked_reason'', PStr (cp_blocked_reason cp)),
      (''claim_ceiling'', PStr (cp_claim_ceiling cp))]"

definition cp_to_dict :: "(string \<Rightarrow> string) \<Rightarrow> checkpoint \<Rightarrow> dict res" where
  "cp_to_dict H cp = bindr (ck_sha256 H (PDict (cp_body cp))) (\<lambda>h.
     Inr (cp_body cp @ [(''checkpoint_hash'', PStr h)]))"

definition checkpoint_hash :: "(string \<Rightarrow> string) \<Rightarrow> checkpoint \<Rightarrow> string res" where
  "checkpoint_hash H cp = bindr (cp_to_dict H cp) (\<lambda>d. Inr (py_str (dget d ''checkpoint_hash'')))"

definition cp_from_dict :: "(string \<Rightarrow> string) \<Rightarrow> pyval \<Rightarrow> checkpoint res" where
  "cp_from_dict H data =
     bindr (raise_if (\<not> is_mapping data) CheckpointError ''checkpoint payload must be an object'') (\<lambda>_.
     bindr (raise_if (vget data ''claim_ceiling'' \<noteq> PStr WORKFLOW_CHECKPOINT_CLAIM_CEILING) CheckpointError
              ''checkpoint claim ceiling mismatch'') (\<lambda>_.
     let identity_raw = vget data ''identity'' in
     bindr (raise_if (\<not> is_mapping identity_raw) CheckpointError ''checkpoint identity must be an object'') (\<lambda>_.
     let effects_raw = py_or (vget data ''completed_effects'') (PTuple []) in
     bindr (raise_if (\<not> is_array effects_raw) CheckpointError ''completed_effects must be a list'') (\<lambda>_.
     bindr (case vget data ''checkpoint_hash'' of
              PStr s \<Rightarrow> if strip s = [] then ck_error ''checkpoint_hash is required for durable checkpoints'' else Inr s
            | _ \<Rightarrow> ck_error ''checkpoint_hash is required for durable checkpoints'') (\<lambda>stored_hash.
     bindr (ck_text (vget data ''task_id'') ''task_id'') (\<lambda>task_id.
     bindr (ck_text (vget data ''operation_id'') ''operation_id'') (\<lambda>operation_id.
     bindr (ck_text (vget data ''attempt_id'') ''attempt_id'') (\<lambda>attempt_id.
     bindr (ck_text (vget identity_raw ''repository'') ''repository'') (\<lambda>repository.
     bindr (ck_text (vget identity_raw ''source_revision'') ''source_revision'') (\<lambda>source_revision.
     bindr (ck_text (vget identity_raw ''runtime_identity'') ''runtime_identity'') (\<lambda>runtime_identity.
     bindr (make_identity repository source_revision runtime_identity
              (str_or (vget identity_raw ''target_revision'') '''')) (\<lambda>identity.
     bindr (py_iter (py_or (vget data ''leases'') (PTuple []))) (\<lambda>leases.
     bindr (py_iter (py_or (vget data ''evidence_refs'') (PTuple []))) (\<lambda>evidence.
     bindr (map_res effect_from_dict (items_of effects_raw)) (\<lambda>effects.
     bindr (py_iter (py_or (vget data ''pending_steps'') (PTuple []))) (\<lambda>pending.
     bindr (py_iter (py_or (vget data ''retry_history'') (PTuple []))) (\<lambda>history.
     bindr (make_checkpoint
       \<lparr> ca_base = \<lparr> cp_task_id = task_id, cp_operation_id = operation_id, cp_attempt_id = attempt_id,
            cp_identity = identity, cp_revision = 0, cp_status = str_or (vget data ''status'') '''',
            cp_phase = str_or (vget data ''phase'') '''', cp_next_gate = str_or (vget data ''next_gate'') '''',
            cp_external_operation_ids = [], cp_leases = [], cp_evidence_refs = [],
            cp_completed_effects = effects, cp_pending_steps = [], cp_retry_history = [],
            cp_blocked_reason = str_or (vget data ''blocked_reason'') '''',
            cp_schema = str_or (vget data ''schema'') '''',
            cp_claim_ceiling = str_or (vget data ''claim_ceiling'') '''' \<rparr>,
         ca_revision = dget_default (dict_of data) ''revision'' (PInt 1),
         ca_external_operation_ids = py_or (vget data ''external_operation_ids'') (PDict []),
         ca_leases = leases, ca_evidence_refs = evidence, ca_pending_steps = pending,
         ca_retry_history = history \<rparr>) (\<lambda>checkpoint.
     bindr (checkpoint_hash H checkpoint) (\<lambda>h.
     bindr (raise_if (h \<noteq> stored_hash) CheckpointError
              ''checkpoint_hash mismatch: payload has been tampered'') (\<lambda>_.
     Inr checkpoint))))))))))))))))))))"

text \<open>The keyword arguments of \<open>advanced\<close>, all optional.\<close>

record advance_args =
  aa_status :: "string option"
  aa_phase :: "string option"
  aa_next_gate :: "string option"
  aa_pending_steps :: "string list option"
  aa_blocked_reason :: "string option"
  aa_retry_entry :: "string option"
  aa_external_operation_ids :: "(string \<times> string) list option"
  aa_evidence_refs :: "string list option"

definition opt_or :: "string option \<Rightarrow> string \<Rightarrow> string" where
  "opt_or x y = (case x of Some (c # s) \<Rightarrow> c # s | _ \<Rightarrow> y)"

definition default :: "'a option \<Rightarrow> 'a \<Rightarrow> 'a" where
  "default x y = (case x of None \<Rightarrow> y | Some v \<Rightarrow> v)"

definition advanced :: "checkpoint \<Rightarrow> advance_args \<Rightarrow> checkpoint res" where
  "advanced cp a =
    (let merged_external = dmerge (cp_external_operation_ids cp) (default (aa_external_operation_ids a) []);
         merged_evidence = (case aa_evidence_refs a of
            Some (e # es) \<Rightarrow> dedup (cp_evidence_refs cp @ e # es) | _ \<Rightarrow> cp_evidence_refs cp) in
     bindr (case aa_retry_entry a of
              Some (c # s) \<Rightarrow> bindr (ck_text (PStr (c # s)) ''retry_entry'') (\<lambda>t. Inr (cp_retry_history cp @ [t]))
            | _ \<Rightarrow> Inr (cp_retry_history cp)) (\<lambda>merged_retry.
     make_checkpoint (args_of (cp\<lparr>
       cp_revision := cp_revision cp + 1,
       cp_status := opt_or (aa_status a) (cp_status cp),
       cp_phase := default (aa_phase a) (cp_phase cp),
       cp_next_gate := default (aa_next_gate a) (cp_next_gate cp),
       cp_external_operation_ids := merged_external,
       cp_evidence_refs := merged_evidence,
       cp_pending_steps := default (aa_pending_steps a) (cp_pending_steps cp),
       cp_retry_history := merged_retry,
       cp_blocked_reason := default (aa_blocked_reason a) (cp_blocked_reason cp),
       cp_schema := WORKFLOW_CHECKPOINT_SCHEMA,
       cp_claim_ceiling := WORKFLOW_CHECKPOINT_CLAIM_CEILING\<rparr>))))"

definition with_effect :: "checkpoint \<Rightarrow> completed_effect \<Rightarrow> checkpoint res" where
  "with_effect cp eff =
     (if has_effect cp (ce_effect_key eff) then Inr cp
      else make_checkpoint (args_of (cp\<lparr>
        cp_revision := cp_revision cp + 1,
        cp_completed_effects := cp_completed_effects cp @ [eff],
        cp_schema := WORKFLOW_CHECKPOINT_SCHEMA,
        cp_claim_ceiling := WORKFLOW_CHECKPOINT_CLAIM_CEILING\<rparr>)))"

section \<open>Resume\<close>

definition stale_fields :: "identity_binding \<Rightarrow> identity_binding \<Rightarrow> string list" where
  "stale_fields i j =
     map fst (filter (\<lambda>p. fst (snd p) \<noteq> snd (snd p))
       [(''repository'', ib_repository i, ib_repository j),
        (''source_revision'', ib_source_revision i, ib_source_revision j),
        (''runtime_identity'', ib_runtime_identity i, ib_runtime_identity j)])"

definition resume_report :: "string \<Rightarrow> string \<Rightarrow> string list \<Rightarrow> string \<Rightarrow> string \<Rightarrow> dict" where
  "resume_report disposition reason stale next_gate h =
     [(''disposition'', PStr disposition), (''reason'', PStr reason),
      (''stale_fields'', PList (map PStr stale)), (''next_gate'', PStr next_gate),
      (''replay_completed_effects'', PBool False), (''checkpoint_hash'', PStr h)]"

definition resume_disposition ::
  "(string \<Rightarrow> string) \<Rightarrow> checkpoint \<Rightarrow> identity_binding \<Rightarrow> dict res" where
  "resume_disposition H cp current_identity =
     bindr (checkpoint_hash H cp) (\<lambda>h.
     let stale = stale_fields (cp_identity cp) current_identity; gate = cp_next_gate cp in
     Inr (if stale \<noteq> [] then resume_report ''RECONCILE'' ''IDENTITY_DRIFT'' stale gate h
          else if cp_status cp = ''COMPLETED'' then resume_report ''BLOCKED'' ''ALREADY_COMPLETED'' [] '''' h
          else if cp_status cp = ''FAILED'' then resume_report ''BLOCKED'' ''TERMINAL_FAILURE'' [] gate h
          else if cp_status cp = ''RECONCILE''
          then resume_report ''RECONCILE'' (if cp_blocked_reason cp \<noteq> '''' then cp_blocked_reason cp
                                            else ''RECONCILIATION_REQUIRED'') [] gate h
          else if cp_status cp = ''WAITING_APPROVAL'' then resume_report ''WAIT'' ''APPROVAL_PENDING'' [] gate h
          else if cp_status cp = ''WAITING_EXTERNAL''
          then resume_report ''WAIT'' ''EXTERNAL_CONDITION_PENDING'' [] gate h
          else resume_report ''SAFE'' ''IDENTITY_BOUND_AND_NON_TERMINAL'' [] gate h))"

section \<open>Lemmas\<close>

subsection \<open>Construction\<close>

lemma ck_text_eq_Inr [res_simps]:
  "ck_text v name = Inr t \<longleftrightarrow> (\<exists>s. v = PStr s \<and> strip s \<noteq> [] \<and> t = strip s)"
  by (simp add: ck_text_def res_simps)

lemma ck_text_PStr: "strip s \<noteq> [] \<Longrightarrow> ck_text (PStr s) name = Inr (strip s)"
  by (simp add: ck_text_eq_Inr)

lemma ck_text_of_solid [simp]: "solid s \<Longrightarrow> ck_text (PStr s) name = Inr s"
  by (simp add: ck_text_def)

definition ib_wf :: "identity_binding \<Rightarrow> bool" where
  "ib_wf i \<longleftrightarrow> strip (ib_repository i) \<noteq> [] \<and> strip (ib_source_revision i) \<noteq> [] \<and>
     strip (ib_runtime_identity i) \<noteq> [] \<and> (ib_target_revision i \<noteq> [] \<longrightarrow> strip (ib_target_revision i) \<noteq> [])"

definition ce_wf :: "completed_effect \<Rightarrow> bool" where
  "ce_wf e \<longleftrightarrow> strip (ce_effect_key e) \<noteq> [] \<and> strip (ce_receipt_ref e) \<noteq> [] \<and>
     (ce_effect_hash e \<noteq> [] \<longrightarrow> strip (ce_effect_hash e) \<noteq> [])"

definition texts_wf :: "string list \<Rightarrow> bool" where
  "texts_wf xs \<longleftrightarrow> distinct xs \<and> (\<forall>x \<in> set xs. strip x \<noteq> [])"

definition cp_wf :: "checkpoint \<Rightarrow> bool" where
  "cp_wf cp \<longleftrightarrow> cp_schema cp = WORKFLOW_CHECKPOINT_SCHEMA \<and>
     strip (cp_task_id cp) \<noteq> [] \<and> strip (cp_operation_id cp) \<noteq> [] \<and> strip (cp_attempt_id cp) \<noteq> [] \<and>
     ib_wf (cp_identity cp) \<and> 1 \<le> cp_revision cp \<and> cp_status cp \<in> CHECKPOINT_STATUSES \<and>
     distinct (map fst (cp_external_operation_ids cp)) \<and> texts_wf (cp_leases cp) \<and>
     texts_wf (cp_evidence_refs cp) \<and> texts_wf (cp_pending_steps cp) \<and> texts_wf (cp_retry_history cp) \<and>
     (\<forall>e \<in> set (cp_completed_effects cp). ce_wf e) \<and> distinct (map ce_effect_key (cp_completed_effects cp)) \<and>
     sorted (map ce_effect_key (cp_completed_effects cp)) \<and>
     (is_terminal cp \<longrightarrow> cp_pending_steps cp = [])"

lemma make_identity_eq_Inr:
  "make_identity r s t u = Inr i \<longleftrightarrow>
     i = \<lparr> ib_repository = r, ib_source_revision = s, ib_runtime_identity = t, ib_target_revision = u \<rparr> \<and> ib_wf i"
  by (auto simp: make_identity_def ib_wf_def res_simps)

lemma make_effect_eq_Inr:
  "make_effect k r h = Inr e \<longleftrightarrow>
     e = \<lparr> ce_effect_key = k, ce_receipt_ref = r, ce_effect_hash = h \<rparr> \<and> ce_wf e"
  by (auto simp: make_effect_def ce_wf_def res_simps)

lemma effect_from_dict_wf: "effect_from_dict v = Inr e \<Longrightarrow> ce_wf e"
  by (auto simp: effect_from_dict_def res_simps make_effect_eq_Inr)

lemma fold_dset_append:
  "distinct (map fst (a @ b)) \<Longrightarrow> fold (\<lambda>p. dset (fst p) (snd p)) b a = a @ b"
proof (induction b arbitrary: a)
  case (Cons p b)
  have "dset (fst p) (snd p) a = a @ [p]"
    using Cons.prems by (induction a) auto
  with Cons.IH [of "a @ [p]"] Cons.prems show ?case by simp
qed simp

lemma distinct_fold_dset:
  "distinct (map fst a) \<Longrightarrow> distinct (map fst (fold (\<lambda>(k, x). dset (f k) (g x)) ps a))"
  by (induction ps arbitrary: a) (auto simp: distinct_dset)

lemma str_dict_texts:
  "distinct (map fst d) \<Longrightarrow> str_dict (PDict (map (\<lambda>p. (fst p, PStr (snd p))) d)) = Inr d"
  using fold_dset_append [of "[]" d]
  by (simp add: str_dict_def py_dict_def fold_map comp_def)

lemma str_dict_distinct: "str_dict v = Inr d \<Longrightarrow> distinct (map fst d)"
  using distinct_fold_dset [of "[]"] by (auto simp: str_dict_def res_simps)

lemma nonblank_texts_wf:
  assumes "nonblank_texts vs key = Inr xs"
  shows "texts_wf xs"
proof -
  have "strip (py_str v) \<noteq> []" if "v \<in> set vs" for v
    using assms that by (cases v) (force simp: nonblank_texts_def split: if_splits)+
  with assms show ?thesis by (auto simp: nonblank_texts_def texts_wf_def split: if_splits)
qed

lemma nonblank_texts_of_wf: "texts_wf xs \<Longrightarrow> nonblank_texts (map PStr xs) key = Inr xs"
  by (auto simp: nonblank_texts_def texts_wf_def comp_def)

lemma nonblank_texts_Nil [simp]: "nonblank_texts [] key = Inr []"
  by (simp add: nonblank_texts_def)

lemma nonblank_texts_PStr:
  "nonblank_texts (map PStr xs) key = Inr ys \<longleftrightarrow> (\<forall>x \<in> set xs. strip x \<noteq> []) \<and> ys = dedup xs"
  by (auto simp: nonblank_texts_def comp_def)

lemma distinct_sort_key: "distinct (map f xs) \<Longrightarrow> distinct (map f (sort_key f xs))"
  by (metis distinct_map distinct_sort set_sort)

lemma make_checkpoint_wf:
  assumes "make_checkpoint a = Inr cp" and "ib_wf (cp_identity (ca_base a))"
    and "\<forall>e \<in> set (cp_completed_effects (ca_base a)). ce_wf e"
  shows "cp_wf cp"
  using assms
  by (auto simp: make_checkpoint_def cp_wf_def Let_def bindr_eq_Inr raise_if_eq_Inr ck_text_eq_Inr is_terminal_def
      distinct_sort_key split: pyval.splits dest: nonblank_texts_wf str_dict_distinct)

lemma make_checkpoint_of_wf: "cp_wf cp \<Longrightarrow> make_checkpoint (args_of cp) = Inr cp"
  by (cases "is_terminal cp")
    (simp_all add: make_checkpoint_def args_of_def cp_wf_def Let_def ck_text_PStr str_dict_texts
      nonblank_texts_of_wf is_terminal_def sort_key_id_if_sorted)

lemma make_checkpoint_args_of:
  assumes "make_checkpoint (args_of b) = Inr cp"
  shows "cp = b\<lparr> cp_external_operation_ids := cp_external_operation_ids cp,
      cp_leases := dedup (cp_leases b), cp_evidence_refs := dedup (cp_evidence_refs b),
      cp_completed_effects := sort_key ce_effect_key (cp_completed_effects b),
      cp_pending_steps := dedup (cp_pending_steps b), cp_retry_history := dedup (cp_retry_history b) \<rparr>"
  using assms
  by (auto simp: make_checkpoint_def args_of_def Let_def bindr_eq_Inr raise_if_eq_Inr nonblank_texts_PStr)

subsection \<open>The hash and the round trip\<close>

text \<open>The canonical text of a checkpoint always exists.\<close>

definition cp_text :: "checkpoint \<Rightarrow> string" where
  "cp_text cp = projr (json_dumps True True (PDict (cp_body cp)))"

definition cp_payload :: "(string \<Rightarrow> string) \<Rightarrow> checkpoint \<Rightarrow> dict" where
  "cp_payload H cp = cp_body cp @ [(''checkpoint_hash'', PStr (H (cp_text cp)))]"

lemma cp_dumps: "json_dumps True True (PDict (cp_body cp)) = Inr (cp_text cp)"
proof -
  have "json_ok (PDict (cp_body cp)) \<and> no_float (PDict (cp_body cp))"
    by (auto simp: cp_body_def identity_to_dict_def effect_to_dict_def)
  then obtain s where "json_dumps True True (PDict (cp_body cp)) = Inr s" using json_dumps_total by blast
  then show ?thesis by (simp add: cp_text_def)
qed

lemma cp_sha256 [simp]: "ck_sha256 H (PDict (cp_body cp)) = Inr (H (cp_text cp))"
  unfolding ck_sha256_def ck_canonical_def cp_dumps by simp

lemma cp_to_dict_eq [simp]: "cp_to_dict H cp = Inr (cp_payload H cp)"
  by (simp add: cp_to_dict_def cp_payload_def)

lemma dget_hash: "dget (cp_body cp @ [(''checkpoint_hash'', v)]) ''checkpoint_hash'' = v"
  by (simp add: dget_def cp_body_def)

lemma checkpoint_hash_eq [simp]: "checkpoint_hash H cp = Inr (H (cp_text cp))"
  by (simp add: checkpoint_hash_def cp_payload_def dget_hash)

text \<open>A round trip sorts the external operation ids, which are a dictionary.\<close>

definition cp_canon :: "checkpoint \<Rightarrow> checkpoint" where
  "cp_canon cp = cp\<lparr> cp_external_operation_ids := sort_key fst (cp_external_operation_ids cp) \<rparr>"

lemma cp_body_canon [simp]: "cp_body (cp_canon cp) = cp_body cp"
  by (simp add: cp_body_def cp_canon_def)

lemma cp_text_canon [simp]: "cp_text (cp_canon cp) = cp_text cp"
  by (simp add: cp_text_def)

lemma cp_canon_fields [simp]:
  "cp_task_id (cp_canon cp) = cp_task_id cp" "cp_attempt_id (cp_canon cp) = cp_attempt_id cp"
  "cp_revision (cp_canon cp) = cp_revision cp" "cp_completed_effects (cp_canon cp) = cp_completed_effects cp"
  "cp_status (cp_canon cp) = cp_status cp" "cp_identity (cp_canon cp) = cp_identity cp"
  by (simp_all add: cp_canon_def)

lemma cp_canon_canon [simp]: "cp_canon (cp_canon cp) = cp_canon cp"
  by (simp add: cp_canon_def)

text \<open>Fields read back without surrounding white space are read back unchanged.\<close>

definition ce_clean :: "completed_effect \<Rightarrow> bool" where
  "ce_clean e \<longleftrightarrow> ce_wf e \<and> solid (ce_effect_key e) \<and> solid (ce_receipt_ref e)"

definition ib_clean :: "identity_binding \<Rightarrow> bool" where
  "ib_clean i \<longleftrightarrow> ib_wf i \<and> solid (ib_repository i) \<and> solid (ib_source_revision i) \<and> solid (ib_runtime_identity i)"

definition cp_clean :: "checkpoint \<Rightarrow> bool" where
  "cp_clean cp \<longleftrightarrow> cp_wf cp \<and> solid (cp_task_id cp) \<and> solid (cp_operation_id cp) \<and> solid (cp_attempt_id cp) \<and>
     ib_clean (cp_identity cp) \<and> (\<forall>e \<in> set (cp_completed_effects cp). ce_clean e) \<and>
     cp_claim_ceiling cp = WORKFLOW_CHECKPOINT_CLAIM_CEILING"

lemma cp_wf_canon: "cp_wf cp \<Longrightarrow> cp_wf (cp_canon cp)"
  by (simp add: cp_wf_def cp_canon_def is_terminal_def distinct_sort_key)

lemma cp_clean_canon: "cp_clean cp \<Longrightarrow> cp_clean (cp_canon cp)"
  using cp_wf_canon by (simp add: cp_clean_def) (simp add: cp_canon_def)

lemma vget_identity:
  "vget (json_norm (PDict (identity_to_dict i))) ''repository'' = PStr (ib_repository i)"
  "vget (json_norm (PDict (identity_to_dict i))) ''source_revision'' = PStr (ib_source_revision i)"
  "vget (json_norm (PDict (identity_to_dict i))) ''runtime_identity'' = PStr (ib_runtime_identity i)"
  "vget (json_norm (PDict (identity_to_dict i))) ''target_revision'' = PStr (ib_target_revision i)"
proof -
  note v = vget_json_norm
  show "vget (json_norm (PDict (identity_to_dict i))) ''repository'' = PStr (ib_repository i)"
    "vget (json_norm (PDict (identity_to_dict i))) ''source_revision'' = PStr (ib_source_revision i)"
    "vget (json_norm (PDict (identity_to_dict i))) ''runtime_identity'' = PStr (ib_runtime_identity i)"
    "vget (json_norm (PDict (identity_to_dict i))) ''target_revision'' = PStr (ib_target_revision i)"
    unfolding v by (simp_all add: dget_def identity_to_dict_def)
qed

lemma effect_from_dict_norm:
  assumes "ce_clean e"
  shows "effect_from_dict (json_norm (PDict (effect_to_dict e))) = Inr e"
proof -
  note v = vget_json_norm
  have g: "py_get (json_norm (PDict (effect_to_dict e))) k = Inr (json_norm (dget (effect_to_dict e) k))" for k
    using v [of "effect_to_dict e" k] by (simp add: py_get_def vget_def)
  show ?thesis using assms unfolding effect_from_dict_def g
    by (simp add: dget_def effect_to_dict_def make_effect_eq_Inr ce_clean_def)
qed

lemma map_res_effects:
  "\<forall>e \<in> set es. ce_clean e \<Longrightarrow>
     map_res effect_from_dict (map json_norm (map (\<lambda>e. PDict (effect_to_dict e)) es)) = Inr es"
  using map_res_Inr_map [of es "\<lambda>e. effect_from_dict (json_norm (PDict (effect_to_dict e)))" "\<lambda>e. e"]
    effect_from_dict_norm by (simp add: map_res_map comp_def del: json_norm.simps)

lemma vget_payload:
  "vget (json_norm (PDict (cp_payload H cp))) k = json_norm (dget (cp_payload H cp) k)"
  by (rule vget_json_norm)

lemma dget_payload:
  "dget (cp_payload H cp) ''schema'' = PStr (cp_schema cp)"
  "dget (cp_payload H cp) ''task_id'' = PStr (cp_task_id cp)"
  "dget (cp_payload H cp) ''operation_id'' = PStr (cp_operation_id cp)"
  "dget (cp_payload H cp) ''attempt_id'' = PStr (cp_attempt_id cp)"
  "dget (cp_payload H cp) ''status'' = PStr (cp_status cp)"
  "dget (cp_payload H cp) ''phase'' = PStr (cp_phase cp)"
  "dget (cp_payload H cp) ''next_gate'' = PStr (cp_next_gate cp)"
  "dget (cp_payload H cp) ''identity'' = PDict (identity_to_dict (cp_identity cp))"
  "dget (cp_payload H cp) ''external_operation_ids'' =
     PDict (map (\<lambda>p. (fst p, PStr (snd p))) (sort_key fst (cp_external_operation_ids cp)))"
  "dget (cp_payload H cp) ''leases'' = PList (map PStr (cp_leases cp))"
  "dget (cp_payload H cp) ''evidence_refs'' = PList (map PStr (cp_evidence_refs cp))"
  "dget (cp_payload H cp) ''completed_effects'' =
     PList (map (\<lambda>e. PDict (effect_to_dict e)) (cp_completed_effects cp))"
  "dget (cp_payload H cp) ''pending_steps'' = PList (map PStr (cp_pending_steps cp))"
  "dget (cp_payload H cp) ''retry_history'' = PList (map PStr (cp_retry_history cp))"
  "dget (cp_payload H cp) ''blocked_reason'' = PStr (cp_blocked_reason cp)"
  "dget (cp_payload H cp) ''claim_ceiling'' = PStr (cp_claim_ceiling cp)"
  "dget (cp_payload H cp) ''checkpoint_hash'' = PStr (H (cp_text cp))"
  by (simp_all add: dget_def cp_payload_def cp_body_def)

lemma dget_default_payload:
  "dget_default (dict_of (json_norm (PDict (cp_payload H cp)))) ''revision'' (PInt 1) = PInt (cp_revision cp)"
  using dget_default_json_norm [of "cp_payload H cp" "''revision''" "PInt 1"]
  by (simp add: dget_default_def cp_payload_def cp_body_def)

lemma json_norm_texts: "json_norm (PList (map PStr xs)) = PList (map PStr xs)"
  by simp

lemma json_norm_external:
  "json_norm (PDict (map (\<lambda>p. (fst p, PStr (snd p))) (sort_key fst d)))
     = PDict (map (\<lambda>p. (fst p, PStr (snd p))) (sort_key fst d))"
  by (simp add: sort_key_fst_map_snd)

lemma py_or_same: "py_or (PDict d) (PDict []) = PDict d"
  "py_iter (py_or (PList xs) (PTuple [])) = Inr xs"
  "is_array (py_or (PList xs) (PTuple []))"
  "items_of (py_or (PList xs) (PTuple [])) = xs"
  by (simp_all add: py_or_def)

lemma str_or_id: "str_or (PStr s) [] = s"
  by simp

lemma args_of_canon_eq:
  "\<lparr> ca_base = b, ca_revision = PInt (cp_revision cp),
     ca_external_operation_ids = PDict (map (\<lambda>p. (fst p, PStr (snd p))) (sort_key fst (cp_external_operation_ids cp))),
     ca_leases = map PStr (cp_leases cp), ca_evidence_refs = map PStr (cp_evidence_refs cp),
     ca_pending_steps = map PStr (cp_pending_steps cp), ca_retry_history = map PStr (cp_retry_history cp) \<rparr>
   = (args_of (cp_canon cp))\<lparr>ca_base := b\<rparr>"
  by (simp add: args_of_def cp_canon_def)

lemma make_checkpoint_base:
  "make_checkpoint (a\<lparr>ca_base := b\<lparr>cp_revision := r, cp_external_operation_ids := e, cp_leases := l,
       cp_evidence_refs := ev, cp_pending_steps := ps, cp_retry_history := rh\<rparr>\<rparr>)
   = make_checkpoint (a\<lparr>ca_base := b\<rparr>)"
  by (simp add: make_checkpoint_def Let_def)

lemma cp_from_dict_payload:
  assumes "cp_clean cp" and "strip (H (cp_text cp)) \<noteq> []"
  shows "cp_from_dict H (json_norm (PDict (cp_payload H cp))) = Inr (cp_canon cp)"
proof -
  have id: "make_identity (ib_repository (cp_identity cp)) (ib_source_revision (cp_identity cp))
      (ib_runtime_identity (cp_identity cp)) (ib_target_revision (cp_identity cp)) = Inr (cp_identity cp)"
    using assms(1) by (simp add: make_identity_eq_Inr cp_clean_def ib_clean_def)
  have mk: "make_checkpoint (args_of (cp_canon cp)) = Inr (cp_canon cp)"
    using assms(1) by (intro make_checkpoint_of_wf cp_wf_canon) (simp add: cp_clean_def)
  have base: "make_checkpoint ((args_of (cp_canon cp))\<lparr>ca_base :=
      \<lparr> cp_task_id = cp_task_id cp, cp_operation_id = cp_operation_id cp, cp_attempt_id = cp_attempt_id cp,
        cp_identity = cp_identity cp, cp_revision = 0, cp_status = cp_status cp, cp_phase = cp_phase cp,
        cp_next_gate = cp_next_gate cp, cp_external_operation_ids = [], cp_leases = [], cp_evidence_refs = [],
        cp_completed_effects = cp_completed_effects cp, cp_pending_steps = [], cp_retry_history = [],
        cp_blocked_reason = cp_blocked_reason cp, cp_schema = cp_schema cp,
        cp_claim_ceiling = cp_claim_ceiling cp \<rparr>\<rparr>) = Inr (cp_canon cp)"
    using mk make_checkpoint_base [where a = "args_of (cp_canon cp)" and b = "cp_canon cp" and r = 0
        and e = "[]" and l = "[]" and ev = "[]" and ps = "[]" and rh = "[]"]
    by (cases cp) (simp add: args_of_def cp_canon_def)
  from assms(1) have solid: "solid (cp_task_id cp)" "solid (cp_operation_id cp)" "solid (cp_attempt_id cp)"
    "solid (ib_repository (cp_identity cp))" "solid (ib_source_revision (cp_identity cp))"
    "solid (ib_runtime_identity (cp_identity cp))" "\<forall>e \<in> set (cp_completed_effects cp). ce_clean e"
    "cp_claim_ceiling cp = WORKFLOW_CHECKPOINT_CLAIM_CEILING"
    by (simp_all add: cp_clean_def ib_clean_def)
  have list: "json_norm (PList xs) = PList (map json_norm xs)" for xs by simp
  have str: "json_norm (PStr s) = PStr s" for s by simp
  show ?thesis
    unfolding cp_from_dict_def vget_payload dget_payload dget_default_payload json_norm_external vget_identity
      str list map_json_norm_PStr py_or_same str_or_id Let_def solid(8)
    using solid(1-7) assms(2) base
    by (simp add: id map_res_effects args_of_canon_eq py_or_same solid(8) del: json_norm.simps map_map)
qed

subsection \<open>What decoding accepts\<close>

lemma make_checkpoint_keeps:
  assumes "make_checkpoint a = Inr cp"
  shows "cp_task_id cp = cp_task_id (ca_base a)" "cp_operation_id cp = cp_operation_id (ca_base a)"
    "cp_attempt_id cp = cp_attempt_id (ca_base a)" "cp_identity cp = cp_identity (ca_base a)"
    "set (cp_completed_effects cp) = set (cp_completed_effects (ca_base a))"
    "cp_claim_ceiling cp = cp_claim_ceiling (ca_base a)"
  using assms by (auto simp: make_checkpoint_def Let_def bindr_eq_Inr)

lemma effect_from_dict_clean: "effect_from_dict v = Inr e \<Longrightarrow> ce_clean e"
  by (auto simp: effect_from_dict_def res_simps make_effect_eq_Inr ce_clean_def)

lemma map_res_Inr_set: "map_res f xs = Inr ys \<Longrightarrow> y \<in> set ys \<Longrightarrow> \<exists>x \<in> set xs. f x = Inr y"
  by (auto simp: map_res_eq_Inr list_all2_conv_all_nth in_set_conv_nth) (metis nth_mem)

lemma cp_from_dict_clean:
  assumes "cp_from_dict H v = Inr cp"
  shows "cp_clean cp \<and> vget v ''checkpoint_hash'' = PStr (H (cp_text cp)) \<and> is_mapping v"
proof -
  from assms obtain a effects identity where
    m: "make_checkpoint a = Inr cp" and e: "cp_completed_effects (ca_base a) = effects"
    "map_res effect_from_dict (items_of (py_or (vget v ''completed_effects'') (PTuple []))) = Inr effects"
    and i: "cp_identity (ca_base a) = identity" "ib_clean identity"
    and s: "solid (cp_task_id (ca_base a))" "solid (cp_operation_id (ca_base a))" "solid (cp_attempt_id (ca_base a))"
    and c: "cp_claim_ceiling (ca_base a) = WORKFLOW_CHECKPOINT_CLAIM_CEILING"
    and h: "vget v ''checkpoint_hash'' = PStr (H (cp_text cp))" "is_mapping v"
    unfolding cp_from_dict_def Let_def
    by (auto simp: bindr_eq_Inr raise_if_eq_Inr ck_text_eq_Inr make_identity_eq_Inr ib_clean_def
        solid_def WORKFLOW_CHECKPOINT_CLAIM_CEILING_def split: pyval.splits if_splits)
  have clean: "\<forall>e \<in> set effects. ce_clean e"
    using map_res_Inr_set [OF e(2)] effect_from_dict_clean by blast
  have "cp_wf cp"
    by (rule make_checkpoint_wf [OF m]) (use i clean e in \<open>auto simp: ib_clean_def ce_clean_def\<close>)
  then show ?thesis
    using make_checkpoint_keeps [OF m] clean e i s c h by (simp add: cp_clean_def)
qed

subsection \<open>The hash binds the content\<close>

lemma identity_norm_inj:
  assumes "json_norm (PDict (identity_to_dict i)) = json_norm (PDict (identity_to_dict j))"
  shows "i = j"
  using arg_cong [OF assms, of "\<lambda>v. vget v ''repository''"] arg_cong [OF assms, of "\<lambda>v. vget v ''source_revision''"]
    arg_cong [OF assms, of "\<lambda>v. vget v ''runtime_identity''"] arg_cong [OF assms, of "\<lambda>v. vget v ''target_revision''"]
  unfolding vget_identity by simp

lemma effect_norm_inj:
  assumes "json_norm (PDict (effect_to_dict e)) = json_norm (PDict (effect_to_dict f))"
  shows "e = f"
proof -
  note f = json_norm_PDict_fields [OF assms]
  show ?thesis
    using f [of "''effect_key''"] f [of "''receipt_ref''"] f [of "''effect_hash''"]
    by (simp add: effect_to_dict_def)
qed

lemma inj_text_pairs: "map (\<lambda>p. (fst p, PStr (snd p))) xs = map (\<lambda>p. (fst p, PStr (snd p))) ys \<longleftrightarrow> xs = ys"
  by (rule inj_map_eq_map) (auto simp: inj_def)

lemma cp_body_inj:
  assumes "json_norm (PDict (cp_body p)) = json_norm (PDict (cp_body q))"
  shows "cp_canon p = cp_canon q"
proof -
  have g: "map_of (cp_body p) ''identity'' = Some (PDict (identity_to_dict (cp_identity p)))"
    "map_of (cp_body p) ''external_operation_ids'' =
       Some (PDict (map (\<lambda>p. (fst p, PStr (snd p))) (sort_key fst (cp_external_operation_ids p))))"
    "map_of (cp_body p) ''completed_effects'' =
       Some (PList (map (\<lambda>e. PDict (effect_to_dict e)) (cp_completed_effects p)))" for p
    by (simp_all add: cp_body_def)
  note f = json_norm_PDict_fields [OF assms]
  have id: "cp_identity p = cp_identity q"
    using f [of "''identity''"] unfolding g option.map option.inject by (rule identity_norm_inj)
  have ext: "sort_key fst (cp_external_operation_ids p) = sort_key fst (cp_external_operation_ids q)"
    using f [of "''external_operation_ids''"] unfolding g option.map option.inject json_norm_external
    by (simp add: inj_text_pairs)
  have "map (\<lambda>e. json_norm (PDict (effect_to_dict e))) (cp_completed_effects p)
      = map (\<lambda>e. json_norm (PDict (effect_to_dict e))) (cp_completed_effects q)"
    using f [of "''completed_effects''"] unfolding g by (simp add: comp_def del: json_norm.simps(3))
  moreover have "inj (\<lambda>e. json_norm (PDict (effect_to_dict e)))"
    by (rule injI) (rule effect_norm_inj)
  ultimately have eff: "cp_completed_effects p = cp_completed_effects q"
    by (simp add: inj_map_eq_map del: json_norm.simps)
  show ?thesis
    using id ext eff f [of "''schema''"] f [of "''task_id''"] f [of "''operation_id''"] f [of "''attempt_id''"]
      f [of "''revision''"] f [of "''status''"] f [of "''phase''"] f [of "''next_gate''"] f [of "''leases''"]
      f [of "''evidence_refs''"] f [of "''pending_steps''"] f [of "''retry_history''"]
      f [of "''blocked_reason''"] f [of "''claim_ceiling''"]
    by (simp add: cp_body_def cp_canon_def comp_def)
qed

lemma cp_text_inj: "cp_text p = cp_text q \<Longrightarrow> cp_canon p = cp_canon q"
proof -
  assume "cp_text p = cp_text q"
  moreover have "json_ok (PDict (cp_body p)) \<and> no_float (PDict (cp_body p))" for p
    by (auto simp: cp_body_def identity_to_dict_def effect_to_dict_def)
  ultimately have "json_norm (PDict (cp_body p)) = json_norm (PDict (cp_body q))"
    using cp_dumps [of p] cp_dumps [of q]
    by (intro json_dumps_determines_value [of True True _ "cp_text p"]) (auto simp del: json_dumps.simps)
  then show ?thesis by (rule cp_body_inj)
qed

subsection \<open>Advancing\<close>

lemma make_checkpoint_args_wf:
  "make_checkpoint (args_of b) = Inr cp \<Longrightarrow> ib_wf (cp_identity b) \<Longrightarrow> \<forall>e \<in> set (cp_completed_effects b). ce_wf e \<Longrightarrow>
     cp_wf cp"
  by (erule make_checkpoint_wf) (simp_all add: args_of_def)

lemma advanced_keeps:
  assumes "advanced cp a = Inr cp'" and "cp_wf cp"
  shows "cp_wf cp' \<and> cp_revision cp' = cp_revision cp + 1 \<and> cp_task_id cp' = cp_task_id cp \<and>
    cp_attempt_id cp' = cp_attempt_id cp \<and> cp_operation_id cp' = cp_operation_id cp \<and>
    cp_identity cp' = cp_identity cp \<and> cp_completed_effects cp' = cp_completed_effects cp \<and>
    cp_claim_ceiling cp' = WORKFLOW_CHECKPOINT_CLAIM_CEILING"
proof -
  from assms(1) obtain b where m: "make_checkpoint (args_of b) = Inr cp'"
    and b: "cp_revision b = cp_revision cp + 1" "cp_task_id b = cp_task_id cp" "cp_attempt_id b = cp_attempt_id cp"
      "cp_operation_id b = cp_operation_id cp" "cp_identity b = cp_identity cp"
      "cp_completed_effects b = cp_completed_effects cp" "cp_claim_ceiling b = WORKFLOW_CHECKPOINT_CLAIM_CEILING"
    by (auto simp: advanced_def Let_def bindr_eq_Inr)
  have "cp_wf cp'" by (rule make_checkpoint_args_wf [OF m]) (use b assms(2) in \<open>simp_all add: cp_wf_def\<close>)
  moreover have "sort_key ce_effect_key (cp_completed_effects cp) = cp_completed_effects cp"
    using assms(2) by (simp add: cp_wf_def sort_key_id_if_sorted)
  ultimately show ?thesis
    using b arg_cong [OF make_checkpoint_args_of [OF m], of cp_revision]
      arg_cong [OF make_checkpoint_args_of [OF m], of cp_task_id]
      arg_cong [OF make_checkpoint_args_of [OF m], of cp_attempt_id]
      arg_cong [OF make_checkpoint_args_of [OF m], of cp_operation_id]
      arg_cong [OF make_checkpoint_args_of [OF m], of cp_identity]
      arg_cong [OF make_checkpoint_args_of [OF m], of cp_completed_effects]
      arg_cong [OF make_checkpoint_args_of [OF m], of cp_claim_ceiling]
    by simp
qed

lemma advanced_clean:
  "advanced cp a = Inr cp' \<Longrightarrow> cp_clean cp \<Longrightarrow> cp_clean cp'"
  using advanced_keeps [of cp a cp'] by (auto simp: cp_clean_def)

lemma with_effect_keeps:
  assumes "with_effect cp e = Inr cp'" and "cp_wf cp" and "ce_wf e" and "\<not> has_effect cp (ce_effect_key e)"
  shows "cp_wf cp' \<and> cp_revision cp' = cp_revision cp + 1 \<and> cp_task_id cp' = cp_task_id cp \<and>
    cp_attempt_id cp' = cp_attempt_id cp \<and> cp_operation_id cp' = cp_operation_id cp \<and>
    cp_identity cp' = cp_identity cp \<and> set (cp_completed_effects cp') = insert e (set (cp_completed_effects cp)) \<and>
    cp_claim_ceiling cp' = WORKFLOW_CHECKPOINT_CLAIM_CEILING"
proof -
  let ?b = "cp\<lparr> cp_revision := cp_revision cp + 1, cp_completed_effects := cp_completed_effects cp @ [e],
        cp_schema := WORKFLOW_CHECKPOINT_SCHEMA, cp_claim_ceiling := WORKFLOW_CHECKPOINT_CLAIM_CEILING\<rparr>"
  from assms have m: "make_checkpoint (args_of ?b) = Inr cp'" by (simp add: with_effect_def)
  have "cp_wf cp'" by (rule make_checkpoint_args_wf [OF m]) (use assms in \<open>auto simp: cp_wf_def\<close>)
  moreover have "cp_revision cp' = cp_revision ?b"
    by (subst make_checkpoint_args_of [OF m]) simp
  moreover have "cp_task_id cp' = cp_task_id ?b \<and> cp_operation_id cp' = cp_operation_id ?b \<and>
    cp_attempt_id cp' = cp_attempt_id ?b \<and> cp_identity cp' = cp_identity ?b \<and>
    set (cp_completed_effects cp') = set (cp_completed_effects ?b) \<and> cp_claim_ceiling cp' = cp_claim_ceiling ?b"
    using make_checkpoint_keeps [OF m] by (simp add: args_of_def)
  ultimately show ?thesis by simp
qed

lemma with_effect_clean:
  "with_effect cp e = Inr cp' \<Longrightarrow> cp_clean cp \<Longrightarrow> ce_clean e \<Longrightarrow> cp_clean cp'"
  using with_effect_keeps [of cp e cp']
  by (cases "has_effect cp (ce_effect_key e)") (auto simp: cp_clean_def ce_clean_def with_effect_def)

lemma with_effect_total:
  assumes "cp_wf cp" and "ce_wf e"
  shows "\<exists>cp'. with_effect cp e = Inr cp'"
proof (cases "has_effect cp (ce_effect_key e)")
  case False
  let ?b = "cp\<lparr> cp_revision := cp_revision cp + 1,
        cp_completed_effects := sort_key ce_effect_key (cp_completed_effects cp @ [e]),
        cp_schema := WORKFLOW_CHECKPOINT_SCHEMA, cp_claim_ceiling := WORKFLOW_CHECKPOINT_CLAIM_CEILING\<rparr>"
  have d: "distinct (map ce_effect_key (cp_completed_effects cp @ [e]))"
    using assms False by (auto simp: cp_wf_def has_effect_def)
  then have "cp_wf ?b"
    using assms distinct_sort_key [OF d] by (auto simp: cp_wf_def is_terminal_def)
  then have m: "make_checkpoint (args_of ?b) = Inr ?b" by (rule make_checkpoint_of_wf)
  moreover have "make_checkpoint (args_of (cp\<lparr> cp_revision := cp_revision cp + 1,
      cp_completed_effects := cp_completed_effects cp @ [e],
      cp_schema := WORKFLOW_CHECKPOINT_SCHEMA, cp_claim_ceiling := WORKFLOW_CHECKPOINT_CLAIM_CEILING\<rparr>))
    = make_checkpoint (args_of ?b)"
    using d distinct_sort_key [OF d] by (simp add: make_checkpoint_def args_of_def Let_def sort_key_id_if_sorted)
  ultimately show ?thesis using False by (simp add: with_effect_def)
qed (simp add: with_effect_def)

subsection \<open>Resume reports\<close>

lemma stale_fields_Nil:
  "stale_fields i j = [] \<longleftrightarrow> ib_repository i = ib_repository j \<and>
     ib_source_revision i = ib_source_revision j \<and> ib_runtime_identity i = ib_runtime_identity j"
  by (auto simp: stale_fields_def)

lemma dget_resume_report [simp]:
  "dget (resume_report d r s g h) ''disposition'' = PStr d"
  "dget (resume_report d r s g h) ''reason'' = PStr r"
  "dget (resume_report d r s g h) ''stale_fields'' = PList (map PStr s)"
  "dget (resume_report d r s g h) ''replay_completed_effects'' = PBool False"
  "dget (resume_report d r s g h) ''checkpoint_hash'' = PStr h"
  by (simp_all add: resume_report_def dget_def)

text \<open>A concrete checkpoint.\<close>

definition sample_identity :: identity_binding where
  "sample_identity = \<lparr> ib_repository = ''r'', ib_source_revision = ''s'', ib_runtime_identity = ''i'',
     ib_target_revision = '''' \<rparr>"

definition sample_effect :: completed_effect where
  "sample_effect = \<lparr> ce_effect_key = ''k'', ce_receipt_ref = ''ref'', ce_effect_hash = '''' \<rparr>"

definition sample_checkpoint :: "string \<Rightarrow> checkpoint" where
  "sample_checkpoint task = \<lparr> cp_task_id = task, cp_operation_id = ''op'', cp_attempt_id = ''a1'',
     cp_identity = sample_identity, cp_revision = 1, cp_status = ''RUNNING'', cp_phase = '''',
     cp_next_gate = ''g'', cp_external_operation_ids = [(''b'', ''2''), (''a'', ''1'')], cp_leases = [''l''],
     cp_evidence_refs = [], cp_completed_effects = [], cp_pending_steps = [''p''], cp_retry_history = [],
     cp_blocked_reason = '''', cp_schema = WORKFLOW_CHECKPOINT_SCHEMA,
     cp_claim_ceiling = WORKFLOW_CHECKPOINT_CLAIM_CEILING \<rparr>"

lemma solid_single: "\<not> py_space c \<Longrightarrow> solid [c]"
  by (simp add: solid_iff)

lemma not_space_letter: "97 \<le> (of_char c :: nat) \<Longrightarrow> (of_char c :: nat) \<le> 122 \<Longrightarrow> \<not> py_space c"
  by (auto simp: py_space_def Let_def)

lemma sample_identity_clean: "ib_clean sample_identity"
  by (simp add: ib_clean_def ib_wf_def sample_identity_def solid_iff strip_eq_Nil_iff py_space_def)

lemma sample_effect_clean: "ce_clean sample_effect"
  by (simp add: ce_clean_def ce_wf_def sample_effect_def solid_iff strip_eq_Nil_iff py_space_def)

lemma sample_checkpoint_wf: "strip t \<noteq> [] \<Longrightarrow> cp_wf (sample_checkpoint t)"
  using sample_identity_clean
  by (simp add: cp_wf_def sample_checkpoint_def ib_clean_def CHECKPOINT_STATUSES_def texts_wf_def strip_eq_Nil_iff
      py_space_def is_terminal_def cp_TERMINAL_STATUSES_def)

lemma sample_checkpoint_clean:
  assumes "solid t"
  shows "cp_clean (sample_checkpoint t)"
proof -
  have "cp_wf (sample_checkpoint t)" using assms by (intro sample_checkpoint_wf) (simp add: solid_def)
  moreover have "solid ''op''" "solid ''a1''" by (simp_all add: solid_iff py_space_def)
  ultimately show ?thesis
    using assms sample_identity_clean unfolding cp_clean_def by (simp_all add: sample_checkpoint_def)
qed

section \<open>Properties\<close>

text \<open>
  A well-formed checkpoint whose identifiers carry no surrounding white
  space survives serialization: decoding its JSON document gives the same checkpoint (the external
  operation ids, a dictionary, in key order).
\<close>

theorem checkpoint_roundtrip:
  assumes "cp_clean cp" and "\<And>s. hex64 (H s)" and "cp_to_dict H cp = Inr d"
  shows "cp_from_dict H (json_norm (PDict d)) = Inr (cp_canon cp)"
proof -
  have "strip (H (cp_text cp)) \<noteq> []" using hex64_solid [OF assms(2)] by (simp add: solid_def)
  moreover have "d = cp_payload H cp" using assms(3) by simp
  ultimately show ?thesis using cp_from_dict_payload [OF assms(1)] by blast
qed

theorem checkpoint_roundtrip_witness:
  "\<exists>d. cp_to_dict sample_hash (sample_checkpoint ''t'') = Inr d \<and>
       cp_from_dict sample_hash (json_norm (PDict d)) = Inr (cp_canon (sample_checkpoint ''t''))"
proof -
  have "cp_clean (sample_checkpoint ''t'')" by (rule sample_checkpoint_clean) (simp add: solid_iff py_space_def)
  from checkpoint_roundtrip [OF this hex64_sample_hash cp_to_dict_eq] show ?thesis by simp
qed

text \<open>
  The checkpoint hash binds every field: two documents that both decode
  and carry the same hash are the same checkpoint (up to the order of the external ids), unless
  they exhibit two different canonical texts with one digest. Every accepted document carries the
  digest of its own content, so a tampered document is refused.
\<close>

theorem checkpoint_hash_binds:
  assumes "cp_from_dict H v = Inr p" and "cp_from_dict H w = Inr q"
    and "vget v ''checkpoint_hash'' = vget w ''checkpoint_hash''"
  shows "cp_canon p = cp_canon q \<or>
    (\<exists>x y. ck_canonical (PDict (cp_body p)) = Inr x \<and> ck_canonical (PDict (cp_body q)) = Inr y \<and> x \<noteq> y \<and> H x = H y)"
proof (cases "cp_text p = cp_text q")
  case True
  then show ?thesis by (intro disjI1) (rule cp_text_inj)
next
  case False
  have "H (cp_text p) = H (cp_text q)"
    using cp_from_dict_clean [OF assms(1)] cp_from_dict_clean [OF assms(2)] assms(3) by simp
  moreover have "ck_canonical (PDict (cp_body p)) = Inr (cp_text p)" for p
    unfolding ck_canonical_def cp_dumps by simp
  ultimately show ?thesis using False by blast
qed

theorem checkpoint_hash_binds_witness:
  "\<exists>v. cp_from_dict sample_hash v = Inr (cp_canon (sample_checkpoint ''t'')) \<and>
    (cp_canon (cp_canon (sample_checkpoint ''t'')) = cp_canon (cp_canon (sample_checkpoint ''t'')) \<or>
     (\<exists>x y. ck_canonical (PDict (cp_body (cp_canon (sample_checkpoint ''t'')))) = Inr x \<and>
            ck_canonical (PDict (cp_body (cp_canon (sample_checkpoint ''t'')))) = Inr y \<and>
            x \<noteq> y \<and> sample_hash x = sample_hash y))"
proof -
  have "cp_clean (sample_checkpoint ''t'')" by (rule sample_checkpoint_clean) (simp add: solid_iff py_space_def)
  moreover have "strip (sample_hash s) \<noteq> []" for s
    using hex64_solid [OF hex64_sample_hash] by (simp add: solid_def)
  ultimately have r: "cp_from_dict sample_hash (json_norm (PDict (cp_payload sample_hash (sample_checkpoint ''t''))))
      = Inr (cp_canon (sample_checkpoint ''t''))" by (rule cp_from_dict_payload)
  from r checkpoint_hash_binds [OF r r refl] show ?thesis by blast
qed

text \<open>
  Construction accepts an identifier with surrounding white
  space and keeps it, while decoding strips it: the document of a checkpoint whose task id is
  padded is refused by decoding whenever the hash function is injective, so such a checkpoint can
  be constructed and written but never read back.
\<close>

theorem padded_checkpoint_unreadable:
  assumes "make_checkpoint (args_of cp) = Inr cp" and "\<not> solid (cp_task_id cp)" and "inj H"
    and "cp_to_dict H cp = Inr d"
  shows "\<exists>e. cp_from_dict H (json_norm (PDict d)) = Inl e"
proof (cases "cp_from_dict H (json_norm (PDict d))")
  case (Inr cp')
  then have c: "cp_clean cp'" "H (cp_text cp) = H (cp_text cp')"
    using cp_from_dict_clean [OF Inr] assms(4) by (auto simp: vget_payload dget_payload simp del: json_norm.simps(3))
  then have "cp_canon cp = cp_canon cp'" by (intro cp_text_inj) (rule injD [OF assms(3)])
  then have "cp_task_id cp = cp_task_id cp'" by (metis cp_canon_fields(1))
  with c(1) assms(2) show ?thesis by (simp add: cp_clean_def)
qed simp

theorem padded_checkpoint_unreadable_witness:
  "\<exists>d e. cp_to_dict (\<lambda>s. s) (sample_checkpoint '' t'') = Inr d \<and>
         cp_from_dict (\<lambda>s. s) (json_norm (PDict d)) = Inl e"
proof -
  have "make_checkpoint (args_of (sample_checkpoint '' t'')) = Inr (sample_checkpoint '' t'')"
    by (intro make_checkpoint_of_wf sample_checkpoint_wf) (simp add: strip_eq_Nil_iff py_space_def)
  moreover have "\<not> solid (cp_task_id (sample_checkpoint '' t''))"
    by (simp add: sample_checkpoint_def solid_iff py_space_def)
  ultimately show ?thesis using padded_checkpoint_unreadable [OF _ _ _ cp_to_dict_eq, of _ "\<lambda>s. s"] by auto
qed

text \<open>
  A new session may continue (SAFE) exactly when repository, source revision
  and runtime identity are the ones the checkpoint was produced against and the status is RUNNING;
  any drift of these fields yields RECONCILE and names the drifted fields; no report ever asks to
  replay completed effects.
\<close>

theorem resume_safe_iff:
  assumes "cp_wf cp"
  shows "\<exists>r. resume_disposition H cp i = Inr r \<and>
    (dget r ''disposition'' = PStr ''SAFE'' \<longleftrightarrow>
       ib_repository (cp_identity cp) = ib_repository i \<and>
       ib_source_revision (cp_identity cp) = ib_source_revision i \<and>
       ib_runtime_identity (cp_identity cp) = ib_runtime_identity i \<and> cp_status cp = ''RUNNING'') \<and>
    (stale_fields (cp_identity cp) i \<noteq> [] \<longrightarrow> dget r ''disposition'' = PStr ''RECONCILE'' \<and>
       dget r ''reason'' = PStr ''IDENTITY_DRIFT'' \<and>
       dget r ''stale_fields'' = PList (map PStr (stale_fields (cp_identity cp) i))) \<and>
    dget r ''replay_completed_effects'' = PBool False \<and>
    (\<exists>d \<in> RESUME_DISPOSITIONS. dget r ''disposition'' = PStr d)"
proof -
  have "cp_status cp \<in> CHECKPOINT_STATUSES" using assms by (simp add: cp_wf_def)
  then show ?thesis
    using stale_fields_Nil [of "cp_identity cp" i]
    by (auto simp: resume_disposition_def Let_def CHECKPOINT_STATUSES_def RESUME_DISPOSITIONS_def)
qed

theorem resume_safe_iff_witness:
  "\<exists>r. resume_disposition sample_hash (sample_checkpoint ''t'') sample_identity = Inr r \<and>
       dget r ''disposition'' = PStr ''SAFE''"
proof -
  have "cp_wf (sample_checkpoint ''t'')" by (rule sample_checkpoint_wf) (simp add: strip_eq_Nil_iff py_space_def)
  from resume_safe_iff [OF this, of sample_hash sample_identity] show ?thesis
    by (auto simp: sample_checkpoint_def)
qed

text \<open>
  Advancing a well-formed checkpoint and recording a new effect in it
  both keep it well formed, increase the revision by exactly one, keep the task, the attempt, the
  operation and the identity, and never drop a completed effect; recording adds exactly the given
  effect and always succeeds.
\<close>

theorem checkpoint_step_invariant:
  assumes "cp_wf cp" and "ce_wf eff" and "\<not> has_effect cp (ce_effect_key eff)"
  shows "(\<forall>cp'. advanced cp a = Inr cp' \<longrightarrow> cp_wf cp' \<and> cp_revision cp' = cp_revision cp + 1 \<and>
            cp_task_id cp' = cp_task_id cp \<and> cp_attempt_id cp' = cp_attempt_id cp \<and>
            cp_operation_id cp' = cp_operation_id cp \<and> cp_identity cp' = cp_identity cp \<and>
            cp_completed_effects cp' = cp_completed_effects cp) \<and>
         (\<exists>cp'. with_effect cp eff = Inr cp' \<and> cp_wf cp' \<and> cp_revision cp' = cp_revision cp + 1 \<and>
            cp_task_id cp' = cp_task_id cp \<and> cp_attempt_id cp' = cp_attempt_id cp \<and>
            cp_operation_id cp' = cp_operation_id cp \<and> cp_identity cp' = cp_identity cp \<and>
            set (cp_completed_effects cp') = insert eff (set (cp_completed_effects cp)))"
proof (intro conjI)
  show "\<forall>cp'. advanced cp a = Inr cp' \<longrightarrow> cp_wf cp' \<and> cp_revision cp' = cp_revision cp + 1 \<and>
            cp_task_id cp' = cp_task_id cp \<and> cp_attempt_id cp' = cp_attempt_id cp \<and>
            cp_operation_id cp' = cp_operation_id cp \<and> cp_identity cp' = cp_identity cp \<and>
            cp_completed_effects cp' = cp_completed_effects cp"
    using advanced_keeps [OF _ assms(1)] by blast
  obtain cp' where "with_effect cp eff = Inr cp'" using with_effect_total [OF assms(1,2)] by blast
  with with_effect_keeps [OF this assms] show "\<exists>cp'. with_effect cp eff = Inr cp' \<and> cp_wf cp' \<and>
            cp_revision cp' = cp_revision cp + 1 \<and>
            cp_task_id cp' = cp_task_id cp \<and> cp_attempt_id cp' = cp_attempt_id cp \<and>
            cp_operation_id cp' = cp_operation_id cp \<and> cp_identity cp' = cp_identity cp \<and>
            set (cp_completed_effects cp') = insert eff (set (cp_completed_effects cp))"
    by blast
qed

theorem checkpoint_step_invariant_witness:
  "\<exists>cp'. with_effect (sample_checkpoint ''t'') sample_effect = Inr cp' \<and> cp_wf cp' \<and> cp_revision cp' = 2 \<and>
         set (cp_completed_effects cp') = {sample_effect}"
proof -
  have w: "cp_wf (sample_checkpoint ''t'')" by (rule sample_checkpoint_wf) (simp add: strip_eq_Nil_iff py_space_def)
  have e: "ce_wf sample_effect" using sample_effect_clean by (simp add: ce_clean_def)
  have n: "\<not> has_effect (sample_checkpoint ''t'') (ce_effect_key sample_effect)"
    by (simp add: has_effect_def sample_checkpoint_def)
  have "cp_revision (sample_checkpoint ''t'') = 1" "cp_completed_effects (sample_checkpoint ''t'') = []"
    by (simp_all add: sample_checkpoint_def)
  with conjunct2 [OF checkpoint_step_invariant [OF w e n]] show ?thesis by simp blast
qed

end
