(* ===== verification/Cas_Store.thy ===== *)
theory Cas_Store
  imports Py_Prelude
begin

text \<open>
  The contract of a store whose documents carry a revision and are replaced by compare-and-set:
  what a client may rely on when several sessions write. The clients' lemmas are proved once from
  the contract; the stores of the runtime are interpretations of it.
\<close>

section \<open>Runs\<close>

text \<open>The revision of the current document, 0 when there is none.\<close>

definition current_rev :: "('s \<Rightarrow> 'k \<Rightarrow> 'v option) \<Rightarrow> ('v \<Rightarrow> int) \<Rightarrow> 's \<Rightarrow> 'k \<Rightarrow> int" where
  "current_rev lookup rev_of s k = (case lookup s k of None \<Rightarrow> 0 | Some v \<Rightarrow> rev_of v)"

text \<open>A sequence of compare-and-set attempts, and those that succeeded; a failed attempt changes nothing.\<close>

fun run_cas :: "('s \<Rightarrow> 'v \<Rightarrow> int \<Rightarrow> 's option) \<Rightarrow> ('v \<times> int) list \<Rightarrow> 's \<Rightarrow> 's \<times> 'v list" where
  "run_cas cas [] s = (s, [])"
| "run_cas cas ((v, r) # ops) s =
     (case cas s v r of
        None \<Rightarrow> run_cas cas ops s
      | Some s' \<Rightarrow> (let (t, won) = run_cas cas ops s' in (t, v # won)))"

section \<open>The contract\<close>

locale cas_document =
  fixes lookup :: "'s \<Rightarrow> 'k \<Rightarrow> 'v option" and cas :: "'s \<Rightarrow> 'v \<Rightarrow> int \<Rightarrow> 's option"
    and key :: "'v \<Rightarrow> 'k" and rev_of :: "'v \<Rightarrow> int" and good :: "'v \<Rightarrow> bool"
  assumes cas_expected: "cas s v r = Some s' \<Longrightarrow> current_rev lookup rev_of s (key v) = r"
    and cas_own: "cas s v r = Some s' \<Longrightarrow> good v \<Longrightarrow> current_rev lookup rev_of s' (key v) = rev_of v"
    and cas_other: "cas s v r = Some s' \<Longrightarrow> k \<noteq> key v \<Longrightarrow> lookup s' k = lookup s k"
begin

lemma current_rev_cas:
  "cas s v r = Some s' \<Longrightarrow> good v \<Longrightarrow>
     current_rev lookup rev_of s' k = (if k = key v then rev_of v else current_rev lookup rev_of s k)"
  using cas_own [of s v r s'] cas_other [of s v r s' k] by (auto simp: current_rev_def)

lemma single_winner:
  assumes "cas s v r = Some s'" and "good v" and "rev_of v \<noteq> r" and "key w = key v"
  shows "cas s' w r = None"
proof (cases "cas s' w r")
  case (Some s'')
  then have "current_rev lookup rev_of s' (key w) = r" by (rule cas_expected)
  with assms cas_own [OF assms(1,2)] show ?thesis by simp
qed

lemma run_revisions:
  assumes "\<forall>(v, r) \<in> set ops. good v \<and> rev_of v = r + 1" and "run_cas cas ops s = (s', won)"
  shows "map rev_of (filter (\<lambda>v. key v = k) won)
           = [current_rev lookup rev_of s k + 1 .. current_rev lookup rev_of s' k]
         \<and> current_rev lookup rev_of s k \<le> current_rev lookup rev_of s' k"
  using assms
proof (induction ops arbitrary: s won)
  case (Cons op ops)
  obtain v r where op: "op = (v, r)" by force
  show ?case
  proof (cases "cas s v r")
    case None
    with Cons op show ?thesis by simp
  next
    case (Some t)
    then obtain won' where won: "won = v # won'" "run_cas cas ops t = (s', won')"
      using Cons.prems op by (auto split: prod.splits)
    have v: "good v" "rev_of v = r + 1" using Cons.prems op by auto
    have "map rev_of (filter (\<lambda>v. key v = k) won')
        = [current_rev lookup rev_of t k + 1 .. current_rev lookup rev_of s' k]
      \<and> current_rev lookup rev_of t k \<le> current_rev lookup rev_of s' k"
      using Cons.prems by (intro Cons.IH [OF _ won(2)]) simp
    then show ?thesis
      using current_rev_cas [OF Some v(1), of k] cas_expected [OF Some] v(2) won(1)
      by (auto simp: upto.simps [of "current_rev lookup rev_of s k + 1"])
  qed
qed simp

end

end
