(* ===== verification/Checkpoint_Store.thy ===== *)
theory Checkpoint_Store
  imports Workflow_Checkpoint Cas_Store
begin

text \<open>
  The checkpoint store (\<open>WorkflowCheckpointStore\<close> of \<open>workflow_checkpoint.py\<close>): checkpoints as JSON
  documents below a root directory, written under a lock with compare-and-set on the revision. The
  root holds ordinary directories (the code refuses symbolic links); an operation that raises
  leaves the store as it was.
\<close>

section \<open>The store\<close>

definition safe_segment :: "string \<Rightarrow> string \<Rightarrow> string res" where
  "safe_segment value name =
     bindr (ck_text (PStr value) name) (\<lambda>text.
     bindr (raise_if (CHR ''/'' \<in> set text \<or> CHR 0x5C \<in> set text \<or> text \<in> {''.'', ''..''} \<or> CHR 0x00 \<in> set text)
              CheckpointError (name @ '' must not contain path separators'')) (\<lambda>_.
     Inr text))"

definition attempt_dir :: "string \<Rightarrow> string \<Rightarrow> path res" where
  "attempt_dir task_id attempt_id =
     bindr (safe_segment task_id ''task_id'') (\<lambda>t.
     bindr (safe_segment attempt_id ''attempt_id'') (\<lambda>a. Inr [t, a]))"

definition current_path :: "string \<Rightarrow> string \<Rightarrow> path res" where
  "current_path task_id attempt_id =
     bindr (attempt_dir task_id attempt_id) (\<lambda>d. Inr (d @ [''current.json'']))"

definition history_path :: "string \<Rightarrow> string \<Rightarrow> int \<Rightarrow> path res" where
  "history_path task_id attempt_id revision =
     bindr (attempt_dir task_id attempt_id) (\<lambda>d. Inr (d @ [''history'', pad8 revision @ ''.json'']))"

text \<open>The document at a path, when it exists.\<close>

definition load_checkpoint :: "(string \<Rightarrow> string) \<Rightarrow> store \<Rightarrow> path \<Rightarrow> checkpoint option res" where
  "load_checkpoint H st p =
     (if fs_exists st p then bindr (load_json st p) (\<lambda>v. bindr (cp_from_dict H v) (\<lambda>cp. Inr (Some cp)))
      else Inr None)"

definition save_checkpoint :: "(string \<Rightarrow> string) \<Rightarrow> store \<Rightarrow> string \<Rightarrow> string \<Rightarrow> checkpoint \<Rightarrow> store res" where
  "save_checkpoint H st task_id attempt_id cp =
     bindr (current_path task_id attempt_id) (\<lambda>p.
     bindr (cp_to_dict H cp) (\<lambda>payload.
     bindr (history_path task_id attempt_id (cp_revision cp)) (\<lambda>hp.
     Inr (atomic_write (atomic_write st p payload) hp payload))))"

definition conflict_message :: "int \<Rightarrow> int \<Rightarrow> string" where
  "conflict_message expected actual =
     ''checkpoint revision conflict: expected '' @ show_int expected @ '', found '' @ show_int actual"

definition cp_write ::
  "(string \<Rightarrow> string) \<Rightarrow> store \<Rightarrow> checkpoint \<Rightarrow> int option \<Rightarrow> store \<times> checkpoint res" where
  "cp_write H st cp expected_revision =
    (case
       bindr (current_path (cp_task_id cp) (cp_attempt_id cp)) (\<lambda>p.
       bindr (load_checkpoint H st p) (\<lambda>existing.
       bindr (case expected_revision of
           Some r \<Rightarrow>
             (let actual = (case existing of Some e \<Rightarrow> cp_revision e | None \<Rightarrow> 0) in
              raise_if (actual \<noteq> r) CheckpointConflict (conflict_message r actual))
         | None \<Rightarrow>
             raise_if (case existing of Some e \<Rightarrow> cp_revision cp \<le> cp_revision e | None \<Rightarrow> False)
               CheckpointConflict ''checkpoint revision must advance beyond the persisted revision'') (\<lambda>_.
       save_checkpoint H st (cp_task_id cp) (cp_attempt_id cp) cp))) of
       Inl e \<Rightarrow> (st, Inl e)
     | Inr st' \<Rightarrow> (st', Inr cp))"

definition cp_read :: "(string \<Rightarrow> string) \<Rightarrow> store \<Rightarrow> string \<Rightarrow> string \<Rightarrow> checkpoint option res" where
  "cp_read H st task_id attempt_id =
     bindr (current_path task_id attempt_id) (\<lambda>p. load_checkpoint H st p)"

definition cp_history :: "(string \<Rightarrow> string) \<Rightarrow> store \<Rightarrow> string \<Rightarrow> string \<Rightarrow> checkpoint list res" where
  "cp_history H st task_id attempt_id =
     bindr (attempt_dir task_id attempt_id) (\<lambda>d.
     map_res (\<lambda>n. bindr (load_json st (d @ [''history'', n])) (cp_from_dict H))
       (glob_names st (d @ [''history'']) (ends_with ''.json'')))"

definition record_effect ::
  "(string \<Rightarrow> string) \<Rightarrow> store \<Rightarrow> string \<Rightarrow> string \<Rightarrow> completed_effect \<Rightarrow> int \<Rightarrow> store \<times> checkpoint res"
where
  "record_effect H st task_id attempt_id eff expected_revision =
    (case
       bindr (current_path task_id attempt_id) (\<lambda>p.
       bindr (load_checkpoint H st p) (\<lambda>existing.
       (case existing of None \<Rightarrow> ck_error ''unknown checkpoint''
        | Some current \<Rightarrow>
          bindr (raise_if (cp_revision current \<noteq> expected_revision) CheckpointConflict
                   (conflict_message expected_revision (cp_revision current))) (\<lambda>_.
          if has_effect current (ce_effect_key eff) then Inr (st, current)
          else bindr (with_effect current eff) (\<lambda>updated.
               bindr (save_checkpoint H st task_id attempt_id updated) (\<lambda>st'.
               Inr (st', updated))))))) of
       Inl e \<Rightarrow> (st, Inl e)
     | Inr (st', cp) \<Rightarrow> (st', Inr cp))"

definition readback :: "(string \<Rightarrow> string) \<Rightarrow> store \<Rightarrow> string \<Rightarrow> string \<Rightarrow> dict res" where
  "readback H st task_id attempt_id =
     bindr (cp_read H st task_id attempt_id) (\<lambda>r.
     (case r of
        None \<Rightarrow> Inr
          [(''schema'', PStr WORKFLOW_CHECKPOINT_SCHEMA), (''task_id'', PStr task_id),
           (''attempt_id'', PStr attempt_id), (''found'', PBool False), (''status'', PStr ''''),
           (''next_gate'', PStr ''''), (''completed_effect_keys'', PList []),
           (''claim_ceiling'', PStr WORKFLOW_CHECKPOINT_CLAIM_CEILING)]
      | Some cp \<Rightarrow>
          bindr (checkpoint_hash H cp) (\<lambda>h. Inr
          [(''schema'', PStr WORKFLOW_CHECKPOINT_SCHEMA), (''task_id'', PStr (cp_task_id cp)),
           (''attempt_id'', PStr (cp_attempt_id cp)), (''operation_id'', PStr (cp_operation_id cp)),
           (''found'', PBool True), (''revision'', PInt (cp_revision cp)),
           (''status'', PStr (cp_status cp)), (''phase'', PStr (cp_phase cp)),
           (''next_gate'', PStr (cp_next_gate cp)),
           (''identity'', PDict (identity_to_dict (cp_identity cp))),
           (''external_operation_ids'',
             PDict (map (\<lambda>p. (fst p, PStr (snd p))) (sort_key fst (cp_external_operation_ids cp)))),
           (''leases'', PList (map PStr (cp_leases cp))),
           (''completed_effect_keys'', PList (map (\<lambda>e. PStr (ce_effect_key e)) (cp_completed_effects cp))),
           (''pending_steps'', PList (map PStr (cp_pending_steps cp))),
           (''retry_history'', PList (map PStr (cp_retry_history cp))),
           (''checkpoint_hash'', PStr h),
           (''claim_ceiling'', PStr WORKFLOW_CHECKPOINT_CLAIM_CEILING)])))"

section \<open>Lemmas\<close>

definition safe_name :: "string \<Rightarrow> bool" where
  "safe_name s \<longleftrightarrow> strip s \<noteq> [] \<and> CHR ''/'' \<notin> set (strip s) \<and> CHR 0x5C \<notin> set (strip s) \<and>
     strip s \<notin> {''.'', ''..''} \<and> CHR 0x00 \<notin> set (strip s)"

lemma safe_segment_eq_Inr [res_simps]: "safe_segment s name = Inr t \<longleftrightarrow> safe_name s \<and> t = strip s"
  by (auto simp: safe_segment_def safe_name_def res_simps)

lemma attempt_dir_eq_Inr [res_simps]:
  "attempt_dir t a = Inr d \<longleftrightarrow> safe_name t \<and> safe_name a \<and> d = [strip t, strip a]"
  by (auto simp: attempt_dir_def res_simps)

lemma current_path_eq_Inr [res_simps]:
  "current_path t a = Inr p \<longleftrightarrow> safe_name t \<and> safe_name a \<and> p = [strip t, strip a, ''current.json'']"
  by (auto simp: current_path_def res_simps)

lemma history_path_eq_Inr [res_simps]:
  "history_path t a r = Inr p \<longleftrightarrow>
     safe_name t \<and> safe_name a \<and> p = [strip t, strip a, ''history'', pad8 r @ ''.json'']"
  by (auto simp: history_path_def res_simps)

lemma save_checkpoint_eq_Inr:
  "save_checkpoint H st t a cp = Inr st' \<longleftrightarrow>
     (\<exists>p hp. current_path t a = Inr p \<and> history_path t a (cp_revision cp) = Inr hp \<and>
        st' = atomic_write (atomic_write st p (cp_payload H cp)) hp (cp_payload H cp))"
  by (auto simp: save_checkpoint_def res_simps)

lemma save_checkpoint_total:
  "current_path t a = Inr p \<Longrightarrow> \<exists>st'. save_checkpoint H st t a cp = Inr st'"
  by (auto simp: save_checkpoint_eq_Inr current_path_eq_Inr history_path_eq_Inr)

lemma load_saved:
  assumes "save_checkpoint H st t a cp = Inr st'" and "length q = 3"
    and "cp_clean cp" and "strip (H (cp_text cp)) \<noteq> []"
  shows "load_checkpoint H st' q = (if current_path t a = Inr q then Inr (Some (cp_canon cp)) else load_checkpoint H st q)"
proof -
  from assms(1) obtain p hp where p: "current_path t a = Inr p" "history_path t a (cp_revision cp) = Inr hp"
    "st' = atomic_write (atomic_write st p (cp_payload H cp)) hp (cp_payload H cp)"
    by (auto simp: save_checkpoint_eq_Inr)
  have "q \<noteq> hp" using assms(2) p(2) by (auto simp: history_path_eq_Inr)
  then have "fs_exists st' q \<longleftrightarrow> q = p \<or> fs_exists st q"
    "load_json st' q = (if q = p then Inr (json_norm (PDict (cp_payload H cp))) else load_json st q)"
    unfolding p(3) fs_exists_atomic_write load_json_atomic_write by simp_all
  then show ?thesis
    using p(1) cp_from_dict_payload [of cp H, OF assms(3,4)] by (simp add: load_checkpoint_def del: json_norm.simps)
qed

lemma commit_eq_Inr: "(case r of Inl e \<Rightarrow> (st, Inl e) | Inr s \<Rightarrow> (s, Inr x)) = (st', Inr y) \<longleftrightarrow> r = Inr st' \<and> y = x"
  by (cases r) auto

lemma case_option_eq_Inr:
  "(case x of None \<Rightarrow> Inl e | Some v \<Rightarrow> f v) = Inr y \<longleftrightarrow> (\<exists>v. x = Some v \<and> f v = Inr y)"
  by (cases x) auto

lemma commit_pair_eq_Inr:
  "(case r of Inl e \<Rightarrow> (st, Inl e) | Inr (s, x) \<Rightarrow> (s, Inr x)) = (st', Inr y) \<longleftrightarrow> r = Inr (st', y)"
  by (cases r) auto

text \<open>The revision condition of a write.\<close>

definition write_allowed :: "checkpoint option \<Rightarrow> checkpoint \<Rightarrow> int option \<Rightarrow> bool" where
  "write_allowed existing cp exp_rev = (case exp_rev of
     Some r \<Rightarrow> (case existing of Some e \<Rightarrow> cp_revision e | None \<Rightarrow> 0) = r
   | None \<Rightarrow> (case existing of Some e \<Rightarrow> cp_revision e < cp_revision cp | None \<Rightarrow> True))"

lemma cp_write_eq_Inr:
  "cp_write H st cp exp_rev = (st', Inr cp') \<longleftrightarrow> cp' = cp \<and>
     (\<exists>p existing. current_path (cp_task_id cp) (cp_attempt_id cp) = Inr p \<and>
        load_checkpoint H st p = Inr existing \<and> write_allowed existing cp exp_rev \<and>
        save_checkpoint H st (cp_task_id cp) (cp_attempt_id cp) cp = Inr st')"
proof (cases exp_rev)
  case None
  show ?thesis unfolding cp_write_def write_allowed_def None option.case commit_eq_Inr bindr_eq_Inr raise_if_eq_Inr
    by (auto simp: not_le split: option.splits)
next
  case (Some r)
  show ?thesis
    unfolding cp_write_def write_allowed_def Some option.case commit_eq_Inr bindr_eq_Inr Let_def raise_if_eq_Inr
    by auto
qed

lemma cp_write_Inl: "cp_write H st cp exp_rev = (st', Inl e) \<Longrightarrow> st' = st"
  by (auto simp: cp_write_def split: sum.splits)

lemma record_effect_eq_Inr:
  "record_effect H st t a eff r = (st', Inr cp') \<longleftrightarrow>
     (\<exists>p cp. current_path t a = Inr p \<and> load_checkpoint H st p = Inr (Some cp) \<and> cp_revision cp = r \<and>
        (if has_effect cp (ce_effect_key eff) then st' = st \<and> cp' = cp
         else with_effect cp eff = Inr cp' \<and> save_checkpoint H st t a cp' = Inr st'))"
  unfolding record_effect_def commit_pair_eq_Inr bindr_eq_Inr case_option_eq_Inr raise_if_eq_Inr
  by (auto simp: bindr_eq_Inr split: if_splits)

lemma record_effect_Inl: "record_effect H st t a eff r = (st', Inl e) \<Longrightarrow> st' = st"
  by (auto simp: record_effect_def split: sum.splits)

lemma cp_read_eq_Inr:
  "cp_read H st t a = Inr x \<longleftrightarrow> (\<exists>p. current_path t a = Inr p \<and> load_checkpoint H st p = Inr x)"
  by (auto simp: cp_read_def bindr_eq_Inr)

lemma load_checkpoint_clean: "load_checkpoint H st p = Inr (Some cp) \<Longrightarrow> cp_clean cp"
  using cp_from_dict_clean by (auto simp: load_checkpoint_def bindr_eq_Inr split: if_splits)

section \<open>Compare-and-set\<close>

definition ck_key :: "checkpoint \<Rightarrow> path" where
  "ck_key cp = [strip (cp_task_id cp), strip (cp_attempt_id cp), ''current.json'']"

definition ck_lookup :: "(string \<Rightarrow> string) \<Rightarrow> store \<Rightarrow> path \<Rightarrow> checkpoint option" where
  "ck_lookup H st p =
     (if length p = 3 then case load_checkpoint H st p of Inr (Some cp) \<Rightarrow> Some cp | _ \<Rightarrow> None else None)"

definition ck_cas :: "(string \<Rightarrow> string) \<Rightarrow> store \<Rightarrow> checkpoint \<Rightarrow> int \<Rightarrow> store option" where
  "ck_cas H st cp r = (case cp_write H st cp (Some r) of (st', Inr _) \<Rightarrow> Some st' | (_, Inl _) \<Rightarrow> None)"

lemma ck_cas_eq_Some:
  "ck_cas H st cp r = Some st' \<longleftrightarrow> cp_write H st cp (Some r) = (st', Inr cp)"
proof -
  have "y = cp" if "cp_write H st cp (Some r) = (s, Inr y)" for s y
    using that by (simp add: cp_write_eq_Inr)
  then show ?thesis by (auto simp: ck_cas_def split: prod.splits sum.splits)
qed

lemma ck_lookup_eq_Some:
  "ck_lookup H st p = Some cp \<longleftrightarrow> length p = 3 \<and> load_checkpoint H st p = Inr (Some cp)"
  by (auto simp: ck_lookup_def split: sum.splits option.splits)

lemma ck_lookup_save:
  assumes "save_checkpoint H st t a cp = Inr st'" and "cp_clean cp" and "strip (H (cp_text cp)) \<noteq> []"
  shows "ck_lookup H st' q = (if current_path t a = Inr q then Some (cp_canon cp) else ck_lookup H st q)"
  using load_saved [OF assms(1) _ assms(2,3), of q] by (auto simp: ck_lookup_def current_path_eq_Inr)

lemma current_path_key: "current_path (cp_task_id cp) (cp_attempt_id cp) = Inr p \<Longrightarrow> p = ck_key cp"
  by (simp add: current_path_eq_Inr ck_key_def)

lemma length_ck_key [simp]: "length (ck_key cp) = 3"
  by (simp add: ck_key_def)

lemma cp_write_key:
  assumes "cp_write H st cp exp_rev = (st', Inr cp')"
  obtains existing where "current_path (cp_task_id cp) (cp_attempt_id cp) = Inr (ck_key cp)"
    and "load_checkpoint H st (ck_key cp) = Inr existing" and "write_allowed existing cp exp_rev"
    and "save_checkpoint H st (cp_task_id cp) (cp_attempt_id cp) cp = Inr st'"
proof -
  from assms obtain p existing where p: "current_path (cp_task_id cp) (cp_attempt_id cp) = Inr p"
    "load_checkpoint H st p = Inr existing" "write_allowed existing cp exp_rev"
    "save_checkpoint H st (cp_task_id cp) (cp_attempt_id cp) cp = Inr st'"
    unfolding cp_write_eq_Inr by blast
  with current_path_key [OF p(1)] show ?thesis by (intro that) simp_all
qed

lemma load_checkpoint_lookup:
  "load_checkpoint H st p = Inr x \<Longrightarrow> length p = 3 \<Longrightarrow> ck_lookup H st p = x"
  by (cases x) (simp_all add: ck_lookup_def)

sublocale digest \<subseteq> ck: cas_document "ck_lookup H" "ck_cas H" ck_key cp_revision cp_clean
proof
  fix s v r s'
  assume "ck_cas H s v r = Some s'"
  then obtain p existing where p: "current_path (cp_task_id v) (cp_attempt_id v) = Inr p"
    "load_checkpoint H s p = Inr existing" "write_allowed existing v (Some r)"
    and save: "save_checkpoint H s (cp_task_id v) (cp_attempt_id v) v = Inr s'"
    by (auto simp: ck_cas_eq_Some cp_write_eq_Inr)
  have key: "p = ck_key v" by (rule current_path_key [OF p(1)])
  then have "ck_lookup H s (ck_key v) = existing" using load_checkpoint_lookup [OF p(2)] by simp
  with p(3) show "current_rev (ck_lookup H) cp_revision s (ck_key v) = r"
    by (auto simp: write_allowed_def current_rev_def)
  show "cp_clean v \<Longrightarrow> current_rev (ck_lookup H) cp_revision s' (ck_key v) = cp_revision v"
    using ck_lookup_save [OF save _ nonblank_digest] p(1) key by (simp add: current_rev_def)
  fix k
  assume "k \<noteq> ck_key v"
  with p(1) key show "ck_lookup H s' k = ck_lookup H s k"
    using save by (auto simp: ck_lookup_def load_checkpoint_def fs_exists_def load_json_def
        save_checkpoint_eq_Inr history_path_eq_Inr)
qed

section \<open>Sessions\<close>

text \<open>
  Several sessions work on one store. A session may read a checkpoint and hold it for any time,
  create an attempt, write the advanced form of a checkpoint it holds, or any clean checkpoint that descends
  from it, with the revision it read as expected revision, or record an effect. An operation that raises
  leaves the store as it is. The state is the store and the set of checkpoints the sessions hold. \<open>write\<close>
  itself compares the expected revision only with the stored one: that what is written descends from what was
  read is the discipline of the sessions, and without it content is lost (\<open>same_revision_overwrite\<close>).
\<close>

definition descends :: "checkpoint \<Rightarrow> checkpoint \<Rightarrow> bool" where
  "descends cp cp' \<longleftrightarrow> cp_clean cp' \<and> ck_key cp' = ck_key cp \<and> cp_revision cp < cp_revision cp' \<and>
     set (cp_completed_effects cp) \<subseteq> set (cp_completed_effects cp')"

inductive ck_step :: "(string \<Rightarrow> string) \<Rightarrow> store \<times> checkpoint set \<Rightarrow> store \<times> checkpoint set \<Rightarrow> bool" for H where
  read_step: "cp_read H st t a = Inr (Some cp) \<Longrightarrow> ck_step H (st, held) (st, insert cp held)"
| create_step: "cp_clean cp \<Longrightarrow> cp_write H st cp (Some 0) = (st', r) \<Longrightarrow> ck_step H (st, held) (st', held)"
| advance_step: "cp \<in> held \<Longrightarrow> advanced cp x = Inr cp' \<Longrightarrow>
    cp_write H st cp' (Some (cp_revision cp)) = (st', r) \<Longrightarrow> ck_step H (st, held) (st', held)"
| write_step: "cp \<in> held \<Longrightarrow> descends cp cp' \<Longrightarrow>
    cp_write H st cp' (Some (cp_revision cp)) = (st', r) \<Longrightarrow> ck_step H (st, held) (st', held)"
| effect_step: "ce_clean eff \<Longrightarrow> record_effect H st t a eff n = (st', r) \<Longrightarrow> ck_step H (st, held) (st', held)"

inductive_cases ck_stepE: "ck_step H s s'"

text \<open>Every readable checkpoint lies at the path of its own task and attempt.\<close>

definition placed :: "(string \<Rightarrow> string) \<Rightarrow> store \<Rightarrow> bool" where
  "placed H st \<longleftrightarrow> (\<forall>p cp. ck_lookup H st p = Some cp \<longrightarrow> ck_key cp = p)"

text \<open>A later version of an attempt: no lower revision, no effect lost, and unchanged at an unchanged revision.\<close>

definition extends :: "checkpoint \<Rightarrow> checkpoint \<Rightarrow> bool" where
  "extends cp cp' \<longleftrightarrow> cp_revision cp \<le> cp_revision cp' \<and>
     set (cp_completed_effects cp) \<subseteq> set (cp_completed_effects cp') \<and> (cp_revision cp = cp_revision cp' \<longrightarrow> cp = cp')"

definition grows :: "(string \<Rightarrow> string) \<Rightarrow> store \<Rightarrow> store \<Rightarrow> bool" where
  "grows H st st' \<longleftrightarrow> (\<forall>p cp. ck_lookup H st p = Some cp \<longrightarrow> (\<exists>cp'. ck_lookup H st' p = Some cp' \<and> extends cp cp'))"

definition held_ok :: "(string \<Rightarrow> string) \<Rightarrow> store \<Rightarrow> checkpoint set \<Rightarrow> bool" where
  "held_ok H st held \<longleftrightarrow> (\<forall>cp \<in> held. cp_clean cp \<and> (\<exists>cur. ck_lookup H st (ck_key cp) = Some cur \<and> extends cp cur))"

definition ck_inv :: "(string \<Rightarrow> string) \<Rightarrow> store \<times> checkpoint set \<Rightarrow> bool" where
  "ck_inv H s \<longleftrightarrow> placed H (fst s) \<and> held_ok H (fst s) (snd s)"

lemma extends_refl [simp]: "extends cp cp"
  by (simp add: extends_def)

lemma extends_trans: "extends a b \<Longrightarrow> extends b c \<Longrightarrow> extends a c"
  by (auto simp: extends_def)

lemma grows_refl [simp]: "grows H st st"
  by (auto simp: grows_def)

lemma grows_trans: "grows H a b \<Longrightarrow> grows H b c \<Longrightarrow> grows H a c"
  unfolding grows_def using extends_trans by meson

lemma held_ok_grows: "held_ok H st held \<Longrightarrow> grows H st st' \<Longrightarrow> held_ok H st' held"
  unfolding held_ok_def grows_def using extends_trans by meson

lemma ck_key_canon [simp]: "ck_key (cp_canon cp) = ck_key cp"
  by (simp add: ck_key_def)

lemma ck_lookup_clean: "ck_lookup H st p = Some cp \<Longrightarrow> cp_clean cp"
  using load_checkpoint_clean by (auto simp: ck_lookup_eq_Some)

lemma cp_clean_revision: "cp_clean cp \<Longrightarrow> 1 \<le> cp_revision cp"
  by (simp add: cp_clean_def cp_wf_def)

lemma advanced_descends:
  assumes "advanced cp x = Inr cp'" and "cp_clean cp"
  shows "descends cp cp'"
  using advanced_keeps [OF assms(1)] advanced_clean [OF assms] assms(2) by (simp add: descends_def cp_clean_def ck_key_def)

context digest
begin

lemma save_grows:
  assumes "save_checkpoint H st t a cp = Inr st'" and "cp_clean cp" and "current_path t a = Inr (ck_key cp)"
    and "\<And>cur. ck_lookup H st (ck_key cp) = Some cur \<Longrightarrow>
           cp_revision cur < cp_revision cp \<and> set (cp_completed_effects cur) \<subseteq> set (cp_completed_effects cp)"
    and "placed H st"
  shows "grows H st st' \<and> placed H st'"
proof -
  note look = ck_lookup_save [OF assms(1,2) nonblank_digest]
  have "grows H st st'"
    unfolding grows_def look using assms(3,4) by (auto simp: extends_def)
  moreover have "placed H st'"
    using assms(5) unfolding placed_def look using assms(3) by auto
  ultimately show ?thesis ..
qed

lemma create_grows:
  assumes "cp_write H st cp (Some 0) = (st', Inr cp')" and "cp_clean cp" and "placed H st"
  shows "grows H st st' \<and> placed H st'"
proof -
  from assms(1) obtain existing where w: "current_path (cp_task_id cp) (cp_attempt_id cp) = Inr (ck_key cp)"
    "load_checkpoint H st (ck_key cp) = Inr existing" "write_allowed existing cp (Some 0)"
    "save_checkpoint H st (cp_task_id cp) (cp_attempt_id cp) cp = Inr st'"
    by (rule cp_write_key)
  have "existing = None"
    using w(2,3) load_checkpoint_clean cp_clean_revision
    by (cases existing) (fastforce simp: write_allowed_def)+
  then have "ck_lookup H st (ck_key cp) = None" using load_checkpoint_lookup [OF w(2)] by simp
  then show ?thesis by (intro save_grows [OF w(4) assms(2) w(1) _ assms(3)]) simp
qed

lemma write_grows:
  assumes "cp \<in> held" and "descends cp cp'" and "cp_write H st cp' (Some (cp_revision cp)) = (st', Inr cp'')"
    and "placed H st" and "held_ok H st held"
  shows "grows H st st' \<and> placed H st'"
proof -
  from assms(3) obtain existing where w: "current_path (cp_task_id cp') (cp_attempt_id cp') = Inr (ck_key cp')"
    "load_checkpoint H st (ck_key cp') = Inr existing" "write_allowed existing cp' (Some (cp_revision cp))"
    "save_checkpoint H st (cp_task_id cp') (cp_attempt_id cp') cp' = Inr st'"
    by (rule cp_write_key)
  from assms(2) have keep: "cp_revision cp < cp_revision cp'" "ck_key cp' = ck_key cp" "cp_clean cp'"
    "set (cp_completed_effects cp) \<subseteq> set (cp_completed_effects cp')" by (simp_all add: descends_def)
  from assms(1,5) obtain cur where cur: "ck_lookup H st (ck_key cp) = Some cur" "extends cp cur"
    by (auto simp: held_ok_def)
  then have "existing = Some cur" using load_checkpoint_lookup [OF w(2)] keep(2) by simp
  with w(3) cur(2) have "cur = cp" by (simp add: write_allowed_def extends_def)
  with cur(1) keep show ?thesis by (intro save_grows [OF w(4) keep(3) w(1) _ assms(4)]) auto
qed

lemma effect_grows:
  assumes "record_effect H st t a eff n = (st', Inr cp')" and "ce_clean eff" and "placed H st"
  shows "grows H st st' \<and> placed H st'"
proof -
  from assms(1) obtain p cp where p: "current_path t a = Inr p" "load_checkpoint H st p = Inr (Some cp)"
    and c: "if has_effect cp (ce_effect_key eff) then st' = st \<and> cp' = cp
            else with_effect cp eff = Inr cp' \<and> save_checkpoint H st t a cp' = Inr st'"
    by (auto simp: record_effect_eq_Inr)
  show ?thesis
  proof (cases "has_effect cp (ce_effect_key eff)")
    case True
    with c assms(3) show ?thesis by simp
  next
    case False
    have clean: "cp_clean cp" by (rule load_checkpoint_clean [OF p(2)])
    have look: "ck_lookup H st p = Some cp" using p by (simp add: ck_lookup_eq_Some current_path_eq_Inr)
    from False c have w: "with_effect cp eff = Inr cp'" "save_checkpoint H st t a cp' = Inr st'" by simp_all
    have keep: "cp_revision cp' = cp_revision cp + 1" "ck_key cp' = ck_key cp"
      "set (cp_completed_effects cp') = insert eff (set (cp_completed_effects cp))"
      using with_effect_keeps [OF w(1) _ _ False] clean assms(2) by (simp_all add: cp_clean_def ce_clean_def ck_key_def)
    have "ck_key cp = p" using look assms(3) by (simp add: placed_def)
    with look keep p(1) show ?thesis
      by (intro save_grows [OF w(2) with_effect_clean [OF w(1) clean assms(2)] _ _ assms(3)]) auto
  qed
qed

lemma ck_step_inv: "ck_step H s s' \<Longrightarrow> ck_inv H s \<Longrightarrow> ck_inv H s' \<and> grows H (fst s) (fst s')"
proof (induction rule: ck_step.induct)
  case (read_step st t a cp held)
  then obtain p where p: "current_path t a = Inr p" "load_checkpoint H st p = Inr (Some cp)"
    by (auto simp: cp_read_eq_Inr)
  then have "ck_lookup H st p = Some cp" by (simp add: ck_lookup_eq_Some current_path_eq_Inr)
  moreover from this have "ck_key cp = p" using read_step.prems by (simp add: ck_inv_def placed_def)
  ultimately show ?case using read_step.prems ck_lookup_clean by (auto simp: ck_inv_def held_ok_def)
next
  case (create_step cp st st' r held)
  then show ?case
    using create_grows [of st cp st'] cp_write_Inl [of H st cp "Some 0" st'] held_ok_grows
    by (cases r) (fastforce simp: ck_inv_def)+
next
  case (advance_step cp held x cp' st st' r)
  then have "cp_clean cp" by (simp add: ck_inv_def held_ok_def)
  from advanced_descends [OF advance_step(2) this] advance_step show ?case
    using write_grows [of cp held cp' st st'] cp_write_Inl [of H st cp' _ st'] held_ok_grows
    by (cases r) (fastforce simp: ck_inv_def)+
next
  case (write_step cp held cp' st st' r)
  then show ?case
    using write_grows [of cp held cp' st st'] cp_write_Inl [of H st cp' _ st'] held_ok_grows
    by (cases r) (fastforce simp: ck_inv_def)+
next
  case (effect_step eff st t a n st' r held)
  then show ?case
    using effect_grows [of st t a eff n st'] record_effect_Inl [of H st t a eff n st'] held_ok_grows
    by (cases r) (fastforce simp: ck_inv_def)+
qed

lemma ck_steps_inv:
  "(ck_step H)\<^sup>*\<^sup>* s s' \<Longrightarrow> ck_inv H s \<Longrightarrow> ck_inv H s' \<and> grows H (fst s) (fst s')"
  by (induction rule: rtranclp_induct) (auto dest: ck_step_inv intro: grows_trans)

lemma ck_inv_init: "ck_inv H ([], {})"
  by (simp add: ck_inv_def placed_def held_ok_def ck_lookup_def load_checkpoint_def fs_exists_def fs_get_def)

lemma read_extends:
  assumes "(ck_step H)\<^sup>*\<^sup>* ([], {}) s" and "(ck_step H)\<^sup>*\<^sup>* s s'" and "cp_read H (fst s) t a = Inr (Some cp)"
  shows "\<exists>cp'. cp_read H (fst s') t a = Inr (Some cp') \<and> extends cp cp'"
proof -
  have "grows H (fst s) (fst s')" using ck_steps_inv [OF assms(1) ck_inv_init] ck_steps_inv [OF assms(2)] by blast
  moreover from assms(3) obtain p where p: "current_path t a = Inr p" "load_checkpoint H (fst s) p = Inr (Some cp)"
    by (auto simp: cp_read_eq_Inr)
  moreover have "ck_lookup H (fst s) p = Some cp" using p by (simp add: ck_lookup_eq_Some current_path_eq_Inr)
  ultimately obtain cp' where "ck_lookup H (fst s') p = Some cp'" "extends cp cp'"
    unfolding grows_def by blast
  with p show ?thesis by (auto simp: cp_read_eq_Inr ck_lookup_eq_Some)
qed

end

lemma load_checkpoint_save_same:
  assumes "digest H" and "save_checkpoint H st t a cp = Inr st'" and "cp_clean cp"
  shows "cp_read H st' t a = Inr (Some (cp_canon cp))"
proof -
  from assms(2) obtain p where p: "current_path t a = Inr p" by (auto simp: save_checkpoint_eq_Inr)
  then have "length p = 3" by (simp add: current_path_eq_Inr)
  then show ?thesis
    using load_saved [OF assms(2) _ assms(3) digest.nonblank_digest [OF assms(1)], of p] p by (simp add: cp_read_eq_Inr)
qed

lemma cp_write_success:
  assumes "current_path (cp_task_id cp) (cp_attempt_id cp) = Inr p" and "load_checkpoint H st p = Inr existing"
    and "write_allowed existing cp exp_rev"
  shows "\<exists>st'. cp_write H st cp exp_rev = (st', Inr cp) \<and>
               save_checkpoint H st (cp_task_id cp) (cp_attempt_id cp) cp = Inr st'"
proof -
  obtain st' where "save_checkpoint H st (cp_task_id cp) (cp_attempt_id cp) cp = Inr st'"
    using save_checkpoint_total [OF assms(1)] by blast
  with assms have "cp_write H st cp exp_rev = (st', Inr cp)" unfolding cp_write_eq_Inr by blast
  with \<open>save_checkpoint H st (cp_task_id cp) (cp_attempt_id cp) cp = Inr st'\<close> show ?thesis by blast
qed

lemma cp_write_conflict:
  assumes "current_path (cp_task_id cp) (cp_attempt_id cp) = Inr p" and "load_checkpoint H st p = Inr existing"
    and "\<not> write_allowed existing cp exp_rev"
  shows "\<exists>msg. cp_write H st cp exp_rev = (st, Inl (CheckpointConflict, msg))"
  using assms by (auto simp: cp_write_def write_allowed_def Let_def split: option.splits)


text \<open>The concrete checkpoint in the empty store.\<close>

definition sample_store :: store where
  "sample_store = fst (cp_write sample_hash [] (sample_checkpoint ''t'') (Some 0))"

lemma sample_t_clean: "cp_clean (sample_checkpoint ''t'')"
  by (rule sample_checkpoint_clean) (simp add: solid_iff py_space_def)

lemma sample_path: "current_path (cp_task_id (sample_checkpoint ''t'')) (cp_attempt_id (sample_checkpoint ''t''))
    = Inr [''t'', ''a1'', ''current.json'']"
  by code_simp

lemma sample_digest: "digest sample_hash"
  by unfold_locales (rule hex64_sample_hash)

lemma sample_store_write:
  "cp_write sample_hash [] (sample_checkpoint ''t'') (Some 0) = (sample_store, Inr (sample_checkpoint ''t''))"
proof -
  have "load_checkpoint sample_hash [] [''t'', ''a1'', ''current.json''] = Inr None"
    by (simp add: load_checkpoint_def fs_exists_def fs_get_def)
  from cp_write_success [OF sample_path this, of "Some 0"] show ?thesis
    by (auto simp: sample_store_def write_allowed_def)
qed

lemma sample_store_load:
  "load_checkpoint sample_hash sample_store [''t'', ''a1'', ''current.json''] = Inr (Some (cp_canon (sample_checkpoint ''t'')))"
  "cp_read sample_hash sample_store ''t'' ''a1'' = Inr (Some (cp_canon (sample_checkpoint ''t'')))"
proof -
  from sample_store_write obtain existing where
    "save_checkpoint sample_hash [] (cp_task_id (sample_checkpoint ''t'')) (cp_attempt_id (sample_checkpoint ''t''))
      (sample_checkpoint ''t'') = Inr sample_store" by (rule cp_write_key)
  from load_checkpoint_save_same [OF sample_digest this sample_t_clean]
  have r: "cp_read sample_hash sample_store (cp_task_id (sample_checkpoint ''t'')) (cp_attempt_id (sample_checkpoint ''t''))
    = Inr (Some (cp_canon (sample_checkpoint ''t'')))" .
  then show "load_checkpoint sample_hash sample_store [''t'', ''a1'', ''current.json'']
      = Inr (Some (cp_canon (sample_checkpoint ''t'')))"
    unfolding cp_read_def sample_path by simp
  from r show "cp_read sample_hash sample_store ''t'' ''a1'' = Inr (Some (cp_canon (sample_checkpoint ''t'')))"
    by (simp add: sample_checkpoint_def)
qed

lemma sample_steps: "(ck_step sample_hash)\<^sup>*\<^sup>* ([], {}) (sample_store, {})"
  by (rule r_into_rtranclp) (rule create_step [OF sample_t_clean sample_store_write])

context digest
begin

lemma checkpoint_run_revisions:
  assumes "\<forall>(cp, r) \<in> set ops. cp_clean cp \<and> cp_revision cp = r + 1" and "run_cas (ck_cas H) ops st = (st', won)"
  shows "map cp_revision (filter (\<lambda>cp. ck_key cp = k) won)
    = [current_rev (ck_lookup H) cp_revision st k + 1 .. current_rev (ck_lookup H) cp_revision st' k]"
  using ck.run_revisions [OF assms] by blast

end

section \<open>Properties\<close>

text \<open>
  A write whose paths are safe and whose existing document is readable
  has exactly two outcomes: when the revision condition holds (the expected revision is the current
  one, 0 standing for none; without an expected revision the written one must be greater) the
  checkpoint is stored and read back unchanged; otherwise the write raises a conflict and the store
  is not touched.
\<close>

theorem checkpoint_write_outcome:
  assumes "\<And>s. hex64 (H s)" and "cp_clean cp"
    and "current_path (cp_task_id cp) (cp_attempt_id cp) = Inr p" and "load_checkpoint H st p = Inr existing"
  shows "if write_allowed existing cp exp_rev
         then \<exists>st'. cp_write H st cp exp_rev = (st', Inr cp) \<and>
                    cp_read H st' (cp_task_id cp) (cp_attempt_id cp) = Inr (Some (cp_canon cp))
         else \<exists>msg. cp_write H st cp exp_rev = (st, Inl (CheckpointConflict, msg))"
proof (cases "write_allowed existing cp exp_rev")
  case True
  have "digest H" by unfold_locales (rule assms(1))
  from cp_write_success [OF assms(3,4) True] load_checkpoint_save_same [OF this _ assms(2)] True show ?thesis by fastforce
next
  case False
  with cp_write_conflict [OF assms(3,4)] show ?thesis by simp
qed

theorem checkpoint_write_outcome_witness:
  "\<exists>msg. cp_write sample_hash sample_store (sample_checkpoint ''t'') (Some 0)
           = (sample_store, Inl (CheckpointConflict, msg))"
  using checkpoint_write_outcome [OF hex64_sample_hash sample_t_clean sample_path sample_store_load(1), of "Some 0"]
  by (simp add: write_allowed_def sample_checkpoint_def)

text \<open>
  C9 (checkpoint_effects_never_lost). However sessions interleave reads, creations with expected revision 0,
  effect records, and compare-and-set writes of clean checkpoints that advance the revision and keep the effects
  of the checkpoint they were read from, starting from the empty store, a checkpoint once read is only ever
  replaced by a later version: the revision never decreases, no completed effect is ever lost, and at the same
  revision the content is the same, even when sessions write from checkpoints they read long ago. Writes that
  do not advance the revision are not among the steps: \<open>write\<close> accepts them and then equal revisions can
  differ (\<open>same_revision_overwrite\<close>).
\<close>

theorem checkpoint_effects_never_lost:
  assumes "\<And>s. hex64 (H s)" and "(ck_step H)\<^sup>*\<^sup>* ([], {}) s" and "(ck_step H)\<^sup>*\<^sup>* s s'"
    and "cp_read H (fst s) t a = Inr (Some cp)"
  shows "\<exists>cp'. cp_read H (fst s') t a = Inr (Some cp') \<and> cp_revision cp \<le> cp_revision cp' \<and>
    set (cp_completed_effects cp) \<subseteq> set (cp_completed_effects cp') \<and> (cp_revision cp = cp_revision cp' \<longrightarrow> cp = cp')"
proof -
  have "digest H" by unfold_locales (rule assms(1))
  from digest.read_extends [OF this assms(2,3,4)] show ?thesis by (simp add: extends_def)
qed

theorem checkpoint_effects_never_lost_witness:
  "\<exists>cp'. cp_read sample_hash sample_store ''t'' ''a1'' = Inr (Some cp') \<and> 1 \<le> cp_revision cp'"
  using checkpoint_effects_never_lost [OF hex64_sample_hash sample_steps rtranclp.rtrancl_refl, of "''t''" "''a1''"]
    sample_store_load(2) by (auto simp: sample_checkpoint_def)

text \<open>
  For any sequence of compare-and-set attempts that each try to
  advance by one revision, the attempts that succeed on one attempt's path carry exactly the
  consecutive revisions from the initial to the final one: every revision is won exactly once and none
  is skipped.
\<close>

theorem checkpoint_cas_revisions:
  assumes "\<And>s. hex64 (H s)" and "\<forall>(cp, r) \<in> set ops. cp_clean cp \<and> cp_revision cp = r + 1"
    and "run_cas (ck_cas H) ops st = (st', won)"
  shows "map cp_revision (filter (\<lambda>cp. ck_key cp = k) won)
    = [current_rev (ck_lookup H) cp_revision st k + 1 .. current_rev (ck_lookup H) cp_revision st' k]"
proof -
  have "digest H" by unfold_locales (rule assms(1))
  from digest.checkpoint_run_revisions [OF this assms(2,3)] show ?thesis .
qed

theorem checkpoint_cas_revisions_witness:
  "\<exists>st' won. run_cas (ck_cas sample_hash) [(sample_checkpoint ''t'', 0), (sample_checkpoint ''t'', 0)] [] = (st', won) \<and>
     map cp_revision (filter (\<lambda>cp. ck_key cp = [''t'', ''a1'', ''current.json'']) won)
       = [current_rev (ck_lookup sample_hash) cp_revision [] [''t'', ''a1'', ''current.json''] + 1 ..
          current_rev (ck_lookup sample_hash) cp_revision st' [''t'', ''a1'', ''current.json'']]"
proof -
  let ?ops = "[(sample_checkpoint ''t'', 0), (sample_checkpoint ''t'', 0)] :: (checkpoint \<times> int) list"
  obtain st' won where r: "run_cas (ck_cas sample_hash) ?ops [] = (st', won)" by (metis surj_pair)
  have "\<forall>(cp, r) \<in> set ?ops. cp_clean cp \<and> cp_revision cp = r + 1"
    using sample_t_clean by (auto simp: sample_checkpoint_def)
  from checkpoint_cas_revisions [OF hex64_sample_hash this r] r show ?thesis by blast
qed



text \<open>
  Compare-and-set compares the expected revision only with the stored one
  and not with the revision that is written: two sessions that both write a checkpoint carrying the
  expected revision itself both succeed, and the second silently replaces the first.
\<close>

theorem same_revision_overwrite:
  assumes "\<And>s. hex64 (H s)" and "cp_clean cp1" and "cp_clean cp2" and "ck_key cp2 = ck_key cp1"
    and "cp_revision cp1 = r" and "cp_write H st cp1 (Some r) = (st1, Inr cp1)"
  shows "\<exists>st2. cp_write H st1 cp2 (Some r) = (st2, Inr cp2) \<and>
               cp_read H st2 (cp_task_id cp1) (cp_attempt_id cp1) = Inr (Some (cp_canon cp2))"
proof -
  have dig: "digest H" by unfold_locales (rule assms(1))
  from assms(6) obtain existing where w: "current_path (cp_task_id cp1) (cp_attempt_id cp1) = Inr (ck_key cp1)"
    "save_checkpoint H st (cp_task_id cp1) (cp_attempt_id cp1) cp1 = Inr st1" by (rule cp_write_key)
  have solid: "cp_task_id cp2 = cp_task_id cp1" "cp_attempt_id cp2 = cp_attempt_id cp1"
    using assms(2,3,4) by (simp_all add: cp_clean_def solid_def ck_key_def)
  have "load_checkpoint H st1 (ck_key cp1) = Inr (Some (cp_canon cp1))"
    using load_checkpoint_save_same [OF dig w(2) assms(2)] w(1) by (simp add: cp_read_def)
  then obtain st2 where "cp_write H st1 cp2 (Some r) = (st2, Inr cp2)"
    "save_checkpoint H st1 (cp_task_id cp2) (cp_attempt_id cp2) cp2 = Inr st2"
    using cp_write_success [of cp2 "ck_key cp1" H st1 _ "Some r"] w(1) solid assms(5) by (auto simp: write_allowed_def)
  then show ?thesis using load_checkpoint_save_same [OF dig _ assms(3)] solid by auto
qed

theorem same_revision_overwrite_witness:
  "\<exists>st1 st2. cp_write sample_hash sample_store (sample_checkpoint ''t'') (Some 1) = (st1, Inr (sample_checkpoint ''t'')) \<and>
     cp_write sample_hash st1 ((sample_checkpoint ''t'')\<lparr>cp_phase := ''x''\<rparr>) (Some 1)
       = (st2, Inr ((sample_checkpoint ''t'')\<lparr>cp_phase := ''x''\<rparr>))"
proof -
  let ?b = "(sample_checkpoint ''t'')\<lparr>cp_phase := ''x''\<rparr>"
  have b: "cp_clean ?b" using sample_t_clean by (simp add: cp_clean_def cp_wf_def is_terminal_def)
  have k: "ck_key ?b = ck_key (sample_checkpoint ''t'')" by (simp add: ck_key_def)
  have r: "cp_revision (sample_checkpoint ''t'') = 1" by (simp add: sample_checkpoint_def)
  obtain st1 where s: "cp_write sample_hash sample_store (sample_checkpoint ''t'') (Some 1) = (st1, Inr (sample_checkpoint ''t''))"
    using cp_write_success [OF sample_path sample_store_load(1), of "Some 1"] r by (auto simp: write_allowed_def)
  from same_revision_overwrite [OF hex64_sample_hash sample_t_clean b k r s] s show ?thesis by blast
qed

end
