(* ===== verification/Handoff_Lineage.thy ===== *)
theory Handoff_Lineage
  imports Checkpoint_Store
begin

text \<open>
  Handoffs between attempts (\<open>handoff_lineage.py\<close> and the handoff part of
  \<open>workflow_checkpoint.py\<close>): the content-hashed record that a predecessor attempt was handed to a
  successor, the evaluation that decides whether the successor may resume, the reconstruction of
  the chain of handoffs that lead to an attempt, and the binding of a successor checkpoint.
\<close>

section \<open>Constants and field checks\<close>

definition HANDOFF_LINEAGE_SCHEMA :: string where
  "HANDOFF_LINEAGE_SCHEMA = ''nexus.runtime.handoff_lineage.v1''"

definition HANDOFF_LINEAGE_CLAIM_CEILING :: string where
  "HANDOFF_LINEAGE_CLAIM_CEILING = ''RUNTIME_HANDOFF_LINEAGE_STATE_ONLY''"

definition RECOGNIZED_TRANSITIONS :: "string set" where
  "RECOGNIZED_TRANSITIONS =
     {''LOCAL_TO_ONLINE'', ''ONLINE_A_TO_ONLINE_B'', ''RDC_TO_MAIN_GPT'', ''MAIN_GPT_TO_DELEGATED''}"

abbreviation hl_error :: "string \<Rightarrow> 'a res" where
  "hl_error msg \<equiv> Inl (HandoffLineageError, msg)"

definition handoff_text :: "string \<Rightarrow> string \<Rightarrow> string res" where
  "handoff_text s name = require_text HandoffLineageError (PStr s) name"

definition canonical_prefixes :: "string list" where
  "canonical_prefixes =
     [''urn:nexus:fence:'', ''urn:nexus:claim:'', ''fence:'', ''fence-receipt:'', ''fence-receipt-'',
      ''fence_receipt:'', ''fence-'', ''claim_fence:'', ''claim-fence:'', ''claim:'']"

record fence_ref =
  fr_prefix :: string
  fr_raw :: string
  fr_identifier :: string

definition parse_canonical_fence_ref :: "string \<Rightarrow> fence_ref option" where
  "parse_canonical_fence_ref ref0 =
     (let ref = strip ref0 in
      if ref = [] then None
      else (case find (\<lambda>prefix. starts_with prefix ref) canonical_prefixes of
         None \<Rightarrow> None
       | Some prefix \<Rightarrow>
           (let rest = drop (length prefix) ref in
            if strip rest = [] then None
            else Some \<lparr> fr_prefix = prefix, fr_raw = ref, fr_identifier = strip rest \<rparr>)))"

section \<open>The handoff record\<close>

record handoff =
  hl_task_id :: string
  hl_predecessor_attempt_id :: string
  hl_successor_attempt_id :: string
  hl_predecessor_operation_id :: string
  hl_predecessor_checkpoint_hash :: string
  hl_predecessor_checkpoint_revision :: int
  hl_handoff_reason :: string
  hl_source_identity :: identity_binding
  hl_terminal_state :: string
  hl_fence_evidence_ref :: string
  hl_completed_effect_refs :: "string list"
  hl_completed_effect_keys :: "string list"
  hl_unknown_effect_refs :: "string list"
  hl_reconcile_disposition :: string
  hl_successor_binding :: dict
  hl_inherited_evidence_refs :: "string list"
  hl_next_gate :: string
  hl_freshness_identity :: string
  hl_transition_type :: string
  hl_schema :: string
  hl_claim_ceiling :: string

text \<open>The arguments of the constructor that decoding hands over as they are.\<close>

record handoff_args =
  ha_base :: handoff
  ha_revision :: pyval
  ha_completed_effect_refs :: "pyval list"
  ha_completed_effect_keys :: "pyval list"
  ha_unknown_effect_refs :: "pyval list"
  ha_inherited_evidence_refs :: "pyval list"
  ha_successor_binding :: pyval

definition handoff_args_of :: "handoff \<Rightarrow> handoff_args" where
  "handoff_args_of h =
     \<lparr> ha_base = h, ha_revision = PInt (hl_predecessor_checkpoint_revision h),
       ha_completed_effect_refs = map PStr (hl_completed_effect_refs h),
       ha_completed_effect_keys = map PStr (hl_completed_effect_keys h),
       ha_unknown_effect_refs = map PStr (hl_unknown_effect_refs h),
       ha_inherited_evidence_refs = map PStr (hl_inherited_evidence_refs h),
       ha_successor_binding = PDict (hl_successor_binding h) \<rparr>"

definition handoff_texts :: "pyval list \<Rightarrow> string \<Rightarrow> string list res" where
  "handoff_texts vs key =
     (if \<exists>v \<in> set vs. \<not> (case v of PStr s \<Rightarrow> strip s \<noteq> [] | _ \<Rightarrow> False)
      then hl_error (key @ '' must contain non-empty strings'')
      else Inr (dedup (map py_str vs)))"

definition make_handoff :: "handoff_args \<Rightarrow> handoff res" where
  "make_handoff a =
    (let b = ha_base a in
     bindr (raise_if (hl_schema b \<noteq> HANDOFF_LINEAGE_SCHEMA) HandoffLineageError
              (''unsupported handoff lineage schema: '' @ repr_str (hl_schema b))) (\<lambda>_.
     bindr (raise_if (hl_claim_ceiling b \<noteq> HANDOFF_LINEAGE_CLAIM_CEILING) HandoffLineageError
              (''unsupported claim ceiling: '' @ repr_str (hl_claim_ceiling b))) (\<lambda>_.
     bindr (handoff_text (hl_task_id b) ''task_id'') (\<lambda>_.
     bindr (handoff_text (hl_predecessor_attempt_id b) ''predecessor_attempt_id'') (\<lambda>_.
     bindr (handoff_text (hl_successor_attempt_id b) ''successor_attempt_id'') (\<lambda>_.
     bindr (raise_if (hl_predecessor_attempt_id b = hl_successor_attempt_id b) HandoffLineageError
              ''predecessor and successor attempt IDs must differ'') (\<lambda>_.
     bindr (handoff_text (hl_predecessor_operation_id b) ''predecessor_operation_id'') (\<lambda>_.
     bindr (handoff_text (hl_predecessor_checkpoint_hash b) ''predecessor_checkpoint_hash'') (\<lambda>_.
     bindr (case ha_revision a of PInt r \<Rightarrow> Inr r
            | _ \<Rightarrow> hl_error ''predecessor_checkpoint_revision must be an int'') (\<lambda>revision.
     bindr (raise_if (revision < 1) HandoffLineageError ''predecessor_checkpoint_revision must be >= 1'') (\<lambda>_.
     bindr (handoff_text (hl_handoff_reason b) ''handoff_reason'') (\<lambda>_.
     bindr (handoff_text (hl_terminal_state b) ''terminal_state'') (\<lambda>_.
     bindr (handoff_text (hl_fence_evidence_ref b) ''fence_evidence_ref'') (\<lambda>_.
     bindr (handoff_texts (ha_completed_effect_refs a) ''completed_effect_refs'') (\<lambda>refs.
     bindr (handoff_texts (ha_completed_effect_keys a) ''completed_effect_keys'') (\<lambda>keys.
     bindr (handoff_texts (ha_unknown_effect_refs a) ''unknown_effect_refs'') (\<lambda>unknown.
     bindr (handoff_texts (ha_inherited_evidence_refs a) ''inherited_evidence_refs'') (\<lambda>inherited.
     bindr (raise_if (\<not> is_mapping (ha_successor_binding a)) HandoffLineageError
              ''successor_binding must be a Mapping'') (\<lambda>_.
     bindr (raise_if (case dget_opt (dict_of (ha_successor_binding a)) ''attempt_id'' of
              None \<Rightarrow> False
            | Some v \<Rightarrow> strip (py_str v) \<noteq> [] \<and> strip (py_str v) \<noteq> hl_successor_attempt_id b) HandoffLineageError
              ''successor_binding attempt_id does not match successor_attempt_id'') (\<lambda>_.
     bindr (raise_if (hl_transition_type b \<noteq> [] \<and> hl_transition_type b \<notin> RECOGNIZED_TRANSITIONS)
              HandoffLineageError (''unrecognized transition_type: '' @ repr_str (hl_transition_type b))) (\<lambda>_.
     Inr (b\<lparr> hl_predecessor_checkpoint_revision := revision, hl_completed_effect_refs := refs,
            hl_completed_effect_keys := keys, hl_unknown_effect_refs := unknown,
            hl_inherited_evidence_refs := inherited,
            hl_successor_binding := dict_of (ha_successor_binding a) \<rparr>))))))))))))))))))))))"

definition hl_body :: "handoff \<Rightarrow> dict" where
  "hl_body h =
     [(''schema'', PStr (hl_schema h)), (''claim_ceiling'', PStr (hl_claim_ceiling h)),
      (''task_id'', PStr (hl_task_id h)),
      (''predecessor_attempt_id'', PStr (hl_predecessor_attempt_id h)),
      (''successor_attempt_id'', PStr (hl_successor_attempt_id h)),
      (''predecessor_operation_id'', PStr (hl_predecessor_operation_id h)),
      (''predecessor_checkpoint_hash'', PStr (hl_predecessor_checkpoint_hash h)),
      (''predecessor_checkpoint_revision'', PInt (hl_predecessor_checkpoint_revision h)),
      (''handoff_reason'', PStr (hl_handoff_reason h)),
      (''source_identity'', PDict (identity_to_dict (hl_source_identity h))),
      (''terminal_state'', PStr (hl_terminal_state h)),
      (''fence_evidence_ref'', PStr (hl_fence_evidence_ref h)),
      (''completed_effect_refs'', PList (map PStr (hl_completed_effect_refs h))),
      (''completed_effect_keys'', PList (map PStr (hl_completed_effect_keys h))),
      (''unknown_effect_refs'', PList (map PStr (hl_unknown_effect_refs h))),
      (''reconcile_disposition'', PStr (hl_reconcile_disposition h)),
      (''successor_binding'', PDict (sort_key fst (hl_successor_binding h))),
      (''inherited_evidence_refs'', PList (map PStr (hl_inherited_evidence_refs h))),
      (''next_gate'', PStr (hl_next_gate h)),
      (''freshness_identity'', PStr (hl_freshness_identity h)),
      (''transition_type'', PStr (hl_transition_type h))]"

definition hl_to_dict :: "(string \<Rightarrow> string) \<Rightarrow> handoff \<Rightarrow> dict res" where
  "hl_to_dict H h = bindr (ck_sha256 H (PDict (hl_body h))) (\<lambda>s. Inr (hl_body h @ [(''lineage_hash'', PStr s)]))"

definition lineage_hash :: "(string \<Rightarrow> string) \<Rightarrow> handoff \<Rightarrow> string res" where
  "lineage_hash H h = bindr (hl_to_dict H h) (\<lambda>d. Inr (py_str (dget d ''lineage_hash'')))"

definition hl_from_dict :: "(string \<Rightarrow> string) \<Rightarrow> pyval \<Rightarrow> handoff res" where
  "hl_from_dict H data =
     bindr (raise_if (\<not> is_mapping data) HandoffLineageError ''handoff lineage payload must be an object'') (\<lambda>_.
     bindr (raise_if (vget data ''schema'' \<noteq> PStr HANDOFF_LINEAGE_SCHEMA) HandoffLineageError
              ''unsupported handoff lineage schema'') (\<lambda>_.
     bindr (raise_if (vget data ''claim_ceiling'' \<noteq> PStr HANDOFF_LINEAGE_CLAIM_CEILING) HandoffLineageError
              ''unsupported claim ceiling'') (\<lambda>_.
     let identity_raw = vget data ''source_identity'' in
     bindr (raise_if (\<not> is_mapping identity_raw) HandoffLineageError ''source_identity must be an object'') (\<lambda>_.
     bindr (case vget data ''lineage_hash'' of
              PStr s \<Rightarrow> if strip s = [] then hl_error ''lineage_hash is required for durable handoff records'' else Inr s
            | _ \<Rightarrow> hl_error ''lineage_hash is required for durable handoff records'') (\<lambda>stored_hash.
     bindr (ck_text (vget data ''task_id'') ''task_id'') (\<lambda>task_id.
     bindr (ck_text (vget data ''predecessor_attempt_id'') ''predecessor_attempt_id'') (\<lambda>pred.
     bindr (ck_text (vget data ''successor_attempt_id'') ''successor_attempt_id'') (\<lambda>succ.
     bindr (ck_text (vget data ''predecessor_operation_id'') ''predecessor_operation_id'') (\<lambda>pred_op.
     bindr (ck_text (vget data ''predecessor_checkpoint_hash'') ''predecessor_checkpoint_hash'') (\<lambda>pred_hash.
     bindr (ck_text (vget data ''handoff_reason'') ''handoff_reason'') (\<lambda>reason.
     bindr (ck_text (vget identity_raw ''repository'') ''repository'') (\<lambda>repository.
     bindr (ck_text (vget identity_raw ''source_revision'') ''source_revision'') (\<lambda>source_revision.
     bindr (ck_text (vget identity_raw ''runtime_identity'') ''runtime_identity'') (\<lambda>runtime_identity.
     bindr (make_identity repository source_revision runtime_identity
              (str_or (vget identity_raw ''target_revision'') '''')) (\<lambda>identity.
     bindr (ck_text (vget data ''terminal_state'') ''terminal_state'') (\<lambda>terminal_state.
     bindr (ck_text (vget data ''fence_evidence_ref'') ''fence_evidence_ref'') (\<lambda>fence.
     bindr (py_iter (py_or (vget data ''completed_effect_refs'') (PTuple []))) (\<lambda>refs.
     bindr (py_iter (py_or (vget data ''completed_effect_keys'') (PTuple []))) (\<lambda>keys.
     bindr (py_iter (py_or (vget data ''unknown_effect_refs'') (PTuple []))) (\<lambda>unknown.
     bindr (py_iter (py_or (vget data ''inherited_evidence_refs'') (PTuple []))) (\<lambda>inherited.
     bindr (make_handoff
       \<lparr> ha_base = \<lparr> hl_task_id = task_id, hl_predecessor_attempt_id = pred, hl_successor_attempt_id = succ,
            hl_predecessor_operation_id = pred_op, hl_predecessor_checkpoint_hash = pred_hash,
            hl_predecessor_checkpoint_revision = 0, hl_handoff_reason = reason, hl_source_identity = identity,
            hl_terminal_state = terminal_state, hl_fence_evidence_ref = fence, hl_completed_effect_refs = [],
            hl_completed_effect_keys = [], hl_unknown_effect_refs = [],
            hl_reconcile_disposition = str_or (vget data ''reconcile_disposition'') ''SAFE'',
            hl_successor_binding = [], hl_inherited_evidence_refs = [],
            hl_next_gate = str_or (vget data ''next_gate'') '''',
            hl_freshness_identity = str_or (vget data ''freshness_identity'') '''',
            hl_transition_type = str_or (vget data ''transition_type'') '''',
            hl_schema = str_or (vget data ''schema'') '''',
            hl_claim_ceiling = str_or (vget data ''claim_ceiling'') '''' \<rparr>,
         ha_revision = dget_default (dict_of data) ''predecessor_checkpoint_revision'' (PInt 1),
         ha_completed_effect_refs = refs, ha_completed_effect_keys = keys, ha_unknown_effect_refs = unknown,
         ha_inherited_evidence_refs = inherited,
         ha_successor_binding = py_or (vget data ''successor_binding'') (PDict []) \<rparr>) (\<lambda>candidate.
     bindr (lineage_hash H candidate) (\<lambda>h.
     bindr (raise_if (h \<noteq> stored_hash) HandoffLineageError
              ''lineage_hash mismatch: payload has been tampered'') (\<lambda>_.
     Inr candidate))))))))))))))))))))))))"

section \<open>Evaluation\<close>

definition stale_fields4 :: "identity_binding \<Rightarrow> identity_binding \<Rightarrow> string list" where
  "stale_fields4 i j =
     map fst (filter (\<lambda>p. fst (snd p) \<noteq> snd (snd p))
       [(''repository'', ib_repository i, ib_repository j),
        (''source_revision'', ib_source_revision i, ib_source_revision j),
        (''runtime_identity'', ib_runtime_identity i, ib_runtime_identity j),
        (''target_revision'', ib_target_revision i, ib_target_revision j)])"

fun is_substring :: "string \<Rightarrow> string \<Rightarrow> bool" where
  "is_substring p [] = (p = [])"
| "is_substring p (c # s) = (starts_with p (c # s) \<or> is_substring p s)"

text \<open>
  Whether the fence is among the verified facts: a mapping from references to facts, or a
  collection of references (\<open>ref in collection\<close>).
\<close>

definition fence_verified :: "string \<Rightarrow> pyval \<Rightarrow> bool res" where
  "fence_verified ref verified =
     (case verified of
        PNone \<Rightarrow> Inr False
      | PDict d \<Rightarrow>
          (let fact = dget d ref in
           Inr (is_True fact \<or> (is_mapping fact \<and> is_True (vget fact ''verified''))))
      | PList xs \<Rightarrow> Inr (\<exists>x \<in> set xs. py_eq (PStr ref) x)
      | PTuple xs \<Rightarrow> Inr (\<exists>x \<in> set xs. py_eq (PStr ref) x)
      | PStr s \<Rightarrow> Inr (is_substring ref s)
      | v \<Rightarrow> Inl (TypeError, ''argument of type '' @ quoted (type_name v) @ '' is not iterable''))"

definition hl_report :: "string \<Rightarrow> string \<Rightarrow> string list \<Rightarrow> dict \<Rightarrow> string \<Rightarrow> dict \<Rightarrow> string \<Rightarrow> dict" where
  "hl_report disposition reason stale extra next_gate extra2 h =
     [(''disposition'', PStr disposition), (''reason'', PStr reason),
      (''stale_fields'', PList (map PStr stale))] @ extra @
     [(''next_gate'', PStr next_gate), (''replay_completed_effects'', PBool False)] @ extra2 @
     [(''lineage_hash'', PStr h)]"

text \<open>The checks on the predecessor checkpoint, from the fence reference on.\<close>

definition evaluate_predecessor ::
  "(string \<Rightarrow> string) \<Rightarrow> handoff \<Rightarrow> checkpoint \<Rightarrow> pyval \<Rightarrow> string \<Rightarrow> dict res" where
  "evaluate_predecessor H handoff cp verified_fence_refs h =
    (let reconcile = (\<lambda>reason stale. hl_report ''RECONCILE'' reason stale [] (hl_next_gate handoff) [] h) in
     if strip (hl_fence_evidence_ref handoff) = [] then Inr (reconcile ''MISSING_OLD_WRITER_FENCE_REFERENCE'' [])
     else if parse_canonical_fence_ref (hl_fence_evidence_ref handoff) = None
     then Inr (reconcile ''INVALID_FENCE_EVIDENCE_FORMAT'' [])
     else bindr (fence_verified (hl_fence_evidence_ref handoff) verified_fence_refs) (\<lambda>verified.
       bindr (checkpoint_hash H cp) (\<lambda>cp_hash. Inr (
       if \<not> verified then reconcile ''UNVERIFIED_OLD_WRITER_FENCE_REFERENCE'' []
       else if cp_task_id cp \<noteq> hl_task_id handoff then reconcile ''PREDECESSOR_TASK_ID_MISMATCH'' []
       else if cp_attempt_id cp \<noteq> hl_predecessor_attempt_id handoff
       then reconcile ''PREDECESSOR_ATTEMPT_ID_MISMATCH'' []
       else if cp_operation_id cp \<noteq> hl_predecessor_operation_id handoff
       then reconcile ''PREDECESSOR_OPERATION_ID_MISMATCH'' []
       else if cp_identity cp \<noteq> hl_source_identity handoff
       then reconcile ''PREDECESSOR_IDENTITY_MISMATCH'' (stale_fields4 (cp_identity cp) (hl_source_identity handoff))
       else if cp_hash \<noteq> hl_predecessor_checkpoint_hash handoff
       then reconcile ''STALE_PREDECESSOR_CHECKPOINT_HASH'' []
       else if cp_revision cp \<noteq> hl_predecessor_checkpoint_revision handoff
       then reconcile ''STALE_PREDECESSOR_CHECKPOINT_REVISION'' []
       else if hl_terminal_state handoff \<noteq> cp_status cp
       then reconcile ''TERMINAL_STATE_MISMATCH'' [''terminal_state'']
       else if hl_reconcile_disposition handoff \<noteq> ''SAFE''
       then hl_report (hl_reconcile_disposition handoff)
              (''EXPLICIT_HANDOFF_DISPOSITION_'' @ hl_reconcile_disposition handoff) [] [] (hl_next_gate handoff) [] h
       else hl_report ''SAFE'' ''LINEAGE_BOUND_AND_FENCED'' [] [] (hl_next_gate handoff)
              [(''completed_effect_refs'', PList (map PStr (hl_completed_effect_refs handoff))),
               (''inherited_evidence_refs'', PList (map PStr (hl_inherited_evidence_refs handoff)))] h))))"

definition evaluate_handoff_lineage ::
  "(string \<Rightarrow> string) \<Rightarrow> handoff \<Rightarrow> identity_binding \<Rightarrow> checkpoint option \<Rightarrow> pyval \<Rightarrow> dict res" where
  "evaluate_handoff_lineage H handoff current_identity predecessor_checkpoint verified_fence_refs =
     bindr (lineage_hash H handoff) (\<lambda>h.
     let stale = stale_fields4 (hl_source_identity handoff) current_identity; gate = hl_next_gate handoff in
     if stale \<noteq> [] then Inr (hl_report ''RECONCILE'' ''IDENTITY_DRIFT'' stale [] gate [] h)
     else if (case predecessor_checkpoint of None \<Rightarrow> False
              | Some cp \<Rightarrow> cp_status cp = ''RECONCILE'' \<or> cp_blocked_reason cp \<noteq> [])
     then Inr (hl_report ''RECONCILE'' ''PREDECESSOR_RECONCILIATION_REQUIRED'' []
                [(''blocked_reason'', PStr (cp_blocked_reason (the predecessor_checkpoint)))] gate [] h)
     else if hl_unknown_effect_refs handoff \<noteq> []
     then Inr (hl_report ''RECONCILE'' ''UNRESOLVED_UNKNOWN_EFFECTS'' []
                [(''unknown_effect_refs'', PList (map PStr (hl_unknown_effect_refs handoff)))] gate [] h)
     else (case predecessor_checkpoint of
         None \<Rightarrow> Inr (hl_report ''RECONCILE'' ''MISSING_CANONICAL_PREDECESSOR_CHECKPOINT'' [] [] gate [] h)
       | Some cp \<Rightarrow> evaluate_predecessor H handoff cp verified_fence_refs h))"

section \<open>Handoffs in the store\<close>

definition handoffs_dir :: "string \<Rightarrow> path res" where
  "handoffs_dir task_id = bindr (safe_segment task_id ''task_id'') (\<lambda>t. Inr [t, ''handoffs''])"

definition handoff_path :: "string \<Rightarrow> string \<Rightarrow> path res" where
  "handoff_path task_id successor_attempt_id =
     bindr (handoffs_dir task_id) (\<lambda>d.
     bindr (safe_segment successor_attempt_id ''successor_attempt_id'') (\<lambda>s. Inr (d @ [s @ ''.json''])))"

definition load_handoff :: "(string \<Rightarrow> string) \<Rightarrow> store \<Rightarrow> path \<Rightarrow> handoff option res" where
  "load_handoff H st p =
     (if fs_exists st p then bindr (load_json st p) (\<lambda>v. bindr (hl_from_dict H v) (\<lambda>h. Inr (Some h)))
      else Inr None)"

definition write_handoff :: "(string \<Rightarrow> string) \<Rightarrow> store \<Rightarrow> handoff \<Rightarrow> store \<times> handoff res" where
  "write_handoff H st h =
    (case
       bindr (attempt_dir (hl_task_id h) (''handoff_'' @ hl_successor_attempt_id h)) (\<lambda>_.
       bindr (handoff_path (hl_task_id h) (hl_successor_attempt_id h)) (\<lambda>p.
       bindr (load_handoff H st p) (\<lambda>existing.
       (case existing of
          Some e \<Rightarrow>
            bindr (lineage_hash H e) (\<lambda>he. bindr (lineage_hash H h) (\<lambda>hh.
            bindr (raise_if (he \<noteq> hh) CheckpointConflict
                     (''handoff for successor '' @ hl_successor_attempt_id h @ '' already exists with different payload'')) (\<lambda>_.
            Inr (st, e))))
        | None \<Rightarrow> bindr (hl_to_dict H h) (\<lambda>d. Inr (atomic_write st p d, h)))))) of
       Inl e \<Rightarrow> (st, Inl e)
     | Inr (st', h') \<Rightarrow> (st', Inr h'))"

definition read_handoff :: "(string \<Rightarrow> string) \<Rightarrow> store \<Rightarrow> string \<Rightarrow> string \<Rightarrow> handoff option res" where
  "read_handoff H st task_id successor_attempt_id =
     bindr (handoff_path task_id successor_attempt_id) (\<lambda>p. load_handoff H st p)"

definition list_handoffs :: "(string \<Rightarrow> string) \<Rightarrow> store \<Rightarrow> string \<Rightarrow> handoff list res" where
  "list_handoffs H st task_id =
     bindr (handoffs_dir task_id) (\<lambda>d.
     map_res (\<lambda>n. bindr (load_json st (d @ [n])) (hl_from_dict H)) (glob_names st d (ends_with ''.json'')))"

subsection \<open>Facts that bound the reconstruction\<close>

lemma handoffs_dir_eq_Inr [res_simps]: "handoffs_dir t = Inr d \<longleftrightarrow> safe_name t \<and> d = [strip t, ''handoffs'']"
  by (auto simp: handoffs_dir_def res_simps)

lemma handoff_path_eq_Inr [res_simps]:
  "handoff_path t s = Inr p \<longleftrightarrow> safe_name t \<and> safe_name s \<and> p = [strip t, ''handoffs'', strip s @ ''.json'']"
  by (auto simp: handoff_path_def res_simps)

lemma make_handoff_keeps:
  assumes "make_handoff a = Inr h"
  shows "hl_task_id h = hl_task_id (ha_base a)" "hl_successor_attempt_id h = hl_successor_attempt_id (ha_base a)"
    "hl_predecessor_attempt_id h = hl_predecessor_attempt_id (ha_base a)"
    "hl_predecessor_attempt_id h \<noteq> hl_successor_attempt_id h"
    "hl_source_identity h = hl_source_identity (ha_base a)"
  using assms by (auto simp: make_handoff_def Let_def bindr_eq_Inr raise_if_eq_Inr)

lemma hl_from_dict_solid:
  assumes "hl_from_dict H v = Inr h"
  shows "solid (hl_task_id h) \<and> solid (hl_successor_attempt_id h) \<and> solid (hl_predecessor_attempt_id h) \<and>
    hl_predecessor_attempt_id h \<noteq> hl_successor_attempt_id h"
proof -
  from assms obtain a where m: "make_handoff a = Inr h"
    and s: "solid (hl_task_id (ha_base a))" "solid (hl_successor_attempt_id (ha_base a))"
      "solid (hl_predecessor_attempt_id (ha_base a))"
    unfolding hl_from_dict_def Let_def by (auto simp: bindr_eq_Inr ck_text_eq_Inr solid_def)
  with make_handoff_keeps [OF m] show ?thesis by simp
qed

lemma load_handoff_Some:
  "load_handoff H st p = Inr (Some h) \<Longrightarrow>
     fs_exists st p \<and> solid (hl_successor_attempt_id h) \<and> solid (hl_predecessor_attempt_id h) \<and>
     hl_predecessor_attempt_id h \<noteq> hl_successor_attempt_id h"
  using hl_from_dict_solid by (auto simp: load_handoff_def bindr_eq_Inr split: if_splits)

text \<open>The attempts of a task that have a handoff file.\<close>

definition handed_off :: "store \<Rightarrow> string \<Rightarrow> string set" where
  "handed_off st task_id = {a. fs_exists st [strip task_id, ''handoffs'', a @ ''.json'']}"

lemma finite_handed_off: "finite (handed_off st t)"
proof -
  have "(\<lambda>a. [strip t, ''handoffs'', a @ ''.json'']) ` handed_off st t \<subseteq> set (map fst st)"
    using fs_get_None_iff by (auto simp: handed_off_def fs_exists_def)
  then have "finite ((\<lambda>a. [strip t, ''handoffs'', a @ ''.json'']) ` handed_off st t)"
    using finite_subset finite_set by blast
  then show ?thesis by (rule finite_imageD) (auto simp: inj_on_def)
qed

lemma read_handoff_handed_off:
  assumes "read_handoff H st t c = Inr (Some h)" and "hl_successor_attempt_id h = c"
  shows "c \<in> handed_off st t"
proof -
  from assms(1) obtain p where "handoff_path t c = Inr p" "load_handoff H st p = Inr (Some h)"
    by (auto simp: read_handoff_def bindr_eq_Inr)
  with load_handoff_Some [of H st p h] assms(2) show ?thesis
    by (auto simp: handoff_path_eq_Inr handed_off_def solid_def)
qed

subsection \<open>Reconstruction of the chain\<close>

text \<open>
  The loop of \<open>reconstruct_lineage_chain\<close> from an attempt, with the attempts visited so far; the
  records come in the order the loop appends them. Every turn visits a new attempt that has a
  handoff file, of which there are finitely many.
\<close>

function lineage_from :: "(string \<Rightarrow> string) \<Rightarrow> store \<Rightarrow> string \<Rightarrow> string \<Rightarrow> string list \<Rightarrow> handoff list res" where
  "lineage_from H st task_id current visited =
     (if current \<in> set visited
      then hl_error (''detected cyclic handoff lineage: attempt '' @ repr_str current @ '' creates cycle'')
      else case read_handoff H st task_id current of
        Inl e \<Rightarrow> Inl e
      | Inr None \<Rightarrow> Inr []
      | Inr (Some h) \<Rightarrow>
          if hl_task_id h \<noteq> task_id
          then hl_error (''malformed handoff lineage: expected task '' @ repr_str task_id @ '', found '' @
                         repr_str (hl_task_id h))
          else if hl_successor_attempt_id h \<noteq> current
          then hl_error (''malformed handoff lineage: expected successor '' @ repr_str current @ '', found '' @
                         repr_str (hl_successor_attempt_id h))
          else if hl_predecessor_attempt_id h = hl_successor_attempt_id h
          then hl_error (''detected self-cycle handoff lineage for attempt '' @ repr_str current)
          else bindr (lineage_from H st task_id (hl_predecessor_attempt_id h) (current # visited)) (\<lambda>rest.
               Inr (h # rest)))"
  by pat_completeness auto

termination
proof (relation "measure (\<lambda>(H, st, t, c, visited). card (handed_off st t - set visited))")
  fix H st task_id current visited x2 x2a
  assume "current \<notin> set visited" "read_handoff H st task_id current = Inr x2" "x2 = Some x2a"
    "\<not> hl_successor_attempt_id x2a \<noteq> current"
  then have "current \<in> handed_off st task_id - set visited" using read_handoff_handed_off by auto
  moreover have "finite (handed_off st task_id - set visited)" by (simp add: finite_handed_off)
  moreover have "handed_off st task_id - set (current # visited)
      = (handed_off st task_id - set visited) - {current}" by auto
  ultimately show "((H, st, task_id, hl_predecessor_attempt_id x2a, current # visited), H, st, task_id, current, visited)
      \<in> measure (\<lambda>(H, st, t, c, visited). card (handed_off st t - set visited))"
    by (simp add: card_Diff1_less del: card_Diff_insert)
qed simp

definition reconstruct_lineage_chain ::
  "(string \<Rightarrow> string) \<Rightarrow> store \<Rightarrow> string \<Rightarrow> string \<Rightarrow> handoff list res" where
  "reconstruct_lineage_chain H st task_id attempt_id =
     bindr (lineage_from H st task_id attempt_id []) (\<lambda>chain. Inr (rev chain))"

subsection \<open>Binding a successor\<close>

definition ancestry_attempts :: "handoff \<Rightarrow> handoff list \<Rightarrow> string set" where
  "ancestry_attempts h ancestry =
     {hl_predecessor_attempt_id h} \<union> set (map hl_predecessor_attempt_id ancestry) \<union>
     set (map hl_successor_attempt_id ancestry)"

definition expected_operation_id :: "handoff \<Rightarrow> string" where
  "expected_operation_id h =
     str_or (dget (hl_successor_binding h) ''operation_id'') (''op_'' @ hl_successor_attempt_id h)"

text \<open>The successor's first checkpoint, with the predecessor's effects.\<close>

definition successor_base ::
  "handoff \<Rightarrow> identity_binding \<Rightarrow> string \<Rightarrow> string \<Rightarrow> completed_effect list \<Rightarrow> checkpoint" where
  "successor_base handoff current_identity initial_status phase inherited =
     \<lparr> cp_task_id = hl_task_id handoff, cp_operation_id = expected_operation_id handoff,
       cp_attempt_id = hl_successor_attempt_id handoff, cp_identity = current_identity, cp_revision = 1,
       cp_status = initial_status, cp_phase = phase, cp_next_gate = hl_next_gate handoff,
       cp_external_operation_ids = [], cp_leases = [],
       cp_evidence_refs = hl_inherited_evidence_refs handoff, cp_completed_effects = inherited,
       cp_pending_steps = [],
       cp_retry_history = [''handoff:'' @ hl_predecessor_attempt_id handoff @ ''->'' @
          hl_successor_attempt_id handoff @ '':'' @ hl_handoff_reason handoff],
       cp_blocked_reason = '''', cp_schema = WORKFLOW_CHECKPOINT_SCHEMA,
       cp_claim_ceiling = WORKFLOW_CHECKPOINT_CLAIM_CEILING \<rparr>"

text \<open>The checks of \<open>bind_successor_checkpoint\<close> up to its writes.\<close>

definition successor_checkpoint ::
  "(string \<Rightarrow> string) \<Rightarrow> store \<Rightarrow> handoff \<Rightarrow> identity_binding \<Rightarrow> pyval \<Rightarrow> string \<Rightarrow> string \<Rightarrow> checkpoint res" where
  "successor_checkpoint H st handoff current_identity verified_fence_refs initial_status phase =
     bindr (cp_read H st (hl_task_id handoff) (hl_predecessor_attempt_id handoff)) (\<lambda>pred.
     (case pred of
        None \<Rightarrow> hl_error (''cannot bind successor checkpoint: canonical predecessor checkpoint for attempt '' @
                   repr_str (hl_predecessor_attempt_id handoff) @ '' is missing'')
      | Some predecessor_cp \<Rightarrow>
     bindr (reconstruct_lineage_chain H st (hl_task_id handoff) (hl_predecessor_attempt_id handoff)) (\<lambda>ancestry.
     bindr (raise_if (hl_successor_attempt_id handoff \<in> ancestry_attempts handoff ancestry) HandoffLineageError
              (''cannot bind successor checkpoint: successor '' @ repr_str (hl_successor_attempt_id handoff) @
               '' creates a lineage cycle'')) (\<lambda>_.
     bindr (evaluate_handoff_lineage H handoff current_identity (Some predecessor_cp) verified_fence_refs) (\<lambda>r.
     bindr (raise_if (dget r ''disposition'' \<noteq> PStr ''SAFE'') HandoffLineageError
              (''cannot bind successor checkpoint: disposition is '' @ py_str (dget r ''disposition'') @ '' ('' @
               py_str (dget r ''reason'') @ '')'')) (\<lambda>_.
     let effects = cp_completed_effects predecessor_cp in
     bindr (raise_if (hl_completed_effect_keys handoff \<noteq> [] \<and>
              set (hl_completed_effect_keys handoff) \<noteq> set (map ce_effect_key effects)) HandoffLineageError
              ''completed_effect_keys must exactly match canonical predecessor completed effects'') (\<lambda>_.
     bindr (raise_if (hl_completed_effect_refs handoff \<noteq> [] \<and>
              set (hl_completed_effect_refs handoff) \<noteq> set (map ce_receipt_ref effects)) HandoffLineageError
              ''completed_effect_refs must exactly match canonical predecessor effect receipts'') (\<lambda>_.
     bindr (map_res (\<lambda>e. make_effect (ce_effect_key e) (ce_receipt_ref e) (ce_effect_hash e)) effects) (\<lambda>inherited.
     make_checkpoint (args_of (successor_base handoff current_identity initial_status phase inherited)))))))))))"

text \<open>
  The predecessor is read and evaluated, then the handoff and the successor are written. The code takes its lock
  for each of these anew; here they are one step, so writes of others in between are left out.
\<close>

definition bind_successor_checkpoint ::
  "(string \<Rightarrow> string) \<Rightarrow> store \<Rightarrow> handoff \<Rightarrow> identity_binding \<Rightarrow> pyval \<Rightarrow> string \<Rightarrow> string \<Rightarrow> store \<times> checkpoint res"
where
  "bind_successor_checkpoint H st handoff current_identity verified_fence_refs initial_status phase =
    (case successor_checkpoint H st handoff current_identity verified_fence_refs initial_status phase of
       Inl e \<Rightarrow> (st, Inl e)
     | Inr successor \<Rightarrow>
         (case write_handoff H st handoff of
            (st1, Inl e) \<Rightarrow> (st1, Inl e)
          | (st1, Inr _) \<Rightarrow> cp_write H st1 successor None))"

subsection \<open>Readback\<close>

definition re_disposed :: "dict \<Rightarrow> string \<Rightarrow> string \<Rightarrow> dict" where
  "re_disposed r disposition reason = dmerge r [(''disposition'', PStr disposition), (''reason'', PStr reason)]"

text \<open>The keys of predecessor effects that the successor lacks or records differently.\<close>

definition missing_or_changed :: "checkpoint \<Rightarrow> checkpoint \<Rightarrow> string list" where
  "missing_or_changed pred_cp cp =
     map ce_effect_key (filter (\<lambda>e. map_of (map (\<lambda>f. (ce_effect_key f, f)) (cp_completed_effects cp)) (ce_effect_key e)
                                    \<noteq> Some e) (cp_completed_effects pred_cp))"

definition check_successor ::
  "(string \<Rightarrow> string) \<Rightarrow> handoff \<Rightarrow> checkpoint option \<Rightarrow> checkpoint option \<Rightarrow> identity_binding \<Rightarrow> dict \<Rightarrow> dict res" where
  "check_successor H immediate pred_cp checkpoint current_identity r =
    (if dget r ''disposition'' \<noteq> PStr ''SAFE'' then Inr r
     else case checkpoint of
       None \<Rightarrow> Inr (re_disposed r ''RECONCILE'' ''MISSING_SUCCESSOR_CHECKPOINT'')
     | Some cp \<Rightarrow>
       if cp_task_id cp \<noteq> hl_task_id immediate \<or> cp_attempt_id cp \<noteq> hl_successor_attempt_id immediate
       then Inr (re_disposed r ''RECONCILE'' ''SUCCESSOR_IDENTITY_MISMATCH'')
       else if cp_operation_id cp \<noteq> expected_operation_id immediate
       then Inr (re_disposed r ''RECONCILE'' ''SUCCESSOR_OPERATION_ID_MISMATCH'')
       else if cp_identity cp \<noteq> current_identity
       then Inr (re_disposed r ''RECONCILE'' ''SUCCESSOR_SOURCE_IDENTITY_MISMATCH'')
       else case pred_cp of
         None \<Rightarrow> Inr r
       | Some pcp \<Rightarrow>
         let missing = missing_or_changed pcp cp; effects = cp_completed_effects pcp in
         if missing \<noteq> []
         then Inr (dset ''effect_keys'' (PList (map PStr missing))
                     (re_disposed r ''RECONCILE'' ''SUCCESSOR_EFFECT_LINEAGE_MISMATCH''))
         else if hl_completed_effect_keys immediate \<noteq> [] \<and>
                 set (hl_completed_effect_keys immediate) \<noteq> set (map ce_effect_key effects)
         then Inr (re_disposed r ''RECONCILE'' ''HANDOFF_EFFECT_KEYS_MISMATCH'')
         else if hl_completed_effect_refs immediate \<noteq> [] \<and>
                 set (hl_completed_effect_refs immediate) \<noteq> set (map ce_receipt_ref effects)
         then Inr (re_disposed r ''RECONCILE'' ''HANDOFF_EFFECT_REFS_MISMATCH'')
         else bindr (resume_disposition H cp current_identity) (\<lambda>resume.
           let resume' = (if cp_blocked_reason cp \<noteq> [] \<and> dget resume ''disposition'' = PStr ''SAFE''
                          then re_disposed resume ''RECONCILE'' (cp_blocked_reason cp) else resume) in
           Inr (if dget resume' ''disposition'' \<noteq> PStr ''SAFE''
                then dset ''successor_resume'' (PDict resume')
                       (re_disposed r (py_str (dget resume' ''disposition''))
                          (''SUCCESSOR_'' @ py_str (dget resume' ''reason'')))
                else r)))"

definition readback_handoff_lineage ::
  "(string \<Rightarrow> string) \<Rightarrow> store \<Rightarrow> string \<Rightarrow> string \<Rightarrow> identity_binding option \<Rightarrow> pyval \<Rightarrow> dict res" where
  "readback_handoff_lineage H st task_id attempt_id current_identity verified_fence_refs =
     bindr (reconstruct_lineage_chain H st task_id attempt_id) (\<lambda>chain.
     bindr (read_handoff H st task_id attempt_id) (\<lambda>immediate.
     bindr (cp_read H st task_id attempt_id) (\<lambda>checkpoint.
     bindr (case (immediate, current_identity) of
         (Some imm, Some identity) \<Rightarrow>
           bindr (cp_read H st task_id (hl_predecessor_attempt_id imm)) (\<lambda>pred_cp.
           bindr (evaluate_handoff_lineage H imm identity pred_cp verified_fence_refs) (\<lambda>r.
           bindr (check_successor H imm pred_cp checkpoint identity r) (\<lambda>r'. Inr (PDict r'))))
       | _ \<Rightarrow> Inr PNone) (\<lambda>evaluation.
     bindr (map_res (\<lambda>h. bindr (hl_to_dict H h) (\<lambda>d. Inr (PDict d))) chain) (\<lambda>chain_dicts.
     bindr (case immediate of None \<Rightarrow> Inr PNone | Some h \<Rightarrow> bindr (hl_to_dict H h) (\<lambda>d. Inr (PDict d))) (\<lambda>immediate_dict.
     Inr [(''schema'', PStr HANDOFF_LINEAGE_SCHEMA), (''claim_ceiling'', PStr HANDOFF_LINEAGE_CLAIM_CEILING),
          (''task_id'', PStr task_id), (''attempt_id'', PStr attempt_id),
          (''found'', PBool (immediate \<noteq> None)), (''chain_length'', PInt (int (length chain))),
          (''chain'', PList chain_dicts), (''immediate_handoff'', immediate_dict), (''evaluation'', evaluation),
          (''completed_effect_keys'', PList (case checkpoint of None \<Rightarrow> []
             | Some cp \<Rightarrow> map (\<lambda>e. PStr (ce_effect_key e)) (cp_completed_effects cp))),
          (''next_gate'', PStr (case checkpoint of Some cp \<Rightarrow> cp_next_gate cp
             | None \<Rightarrow> (case immediate of Some h \<Rightarrow> hl_next_gate h | None \<Rightarrow> '''')))]))))))"

section \<open>Lemmas\<close>

lemma stale_fields4_Nil: "stale_fields4 i j = [] \<longleftrightarrow> i = j"
  by (cases i; cases j) (auto simp: stale_fields4_def)

lemma dget_hl_report [simp]:
  "dget (hl_report d r s e g e2 h) ''disposition'' = PStr d" "dget (hl_report d r s e g e2 h) ''reason'' = PStr r"
  by (simp_all add: hl_report_def dget_def)

text \<open>The bindings under which a handoff is safe.\<close>

definition handoff_bound :: "(string \<Rightarrow> string) \<Rightarrow> handoff \<Rightarrow> checkpoint \<Rightarrow> bool" where
  "handoff_bound H h cp \<longleftrightarrow>
     cp_task_id cp = hl_task_id h \<and> cp_attempt_id cp = hl_predecessor_attempt_id h \<and>
     cp_operation_id cp = hl_predecessor_operation_id h \<and> cp_identity cp = hl_source_identity h \<and>
     checkpoint_hash H cp = Inr (hl_predecessor_checkpoint_hash h) \<and>
     cp_revision cp = hl_predecessor_checkpoint_revision h \<and> hl_terminal_state h = cp_status cp"

lemma parse_fence_nonblank: "parse_canonical_fence_ref r \<noteq> None \<Longrightarrow> strip r \<noteq> []"
  by (auto simp: parse_canonical_fence_ref_def Let_def)

lemma evaluate_predecessor_safe:
  "(\<exists>r. evaluate_predecessor H h cp verified x = Inr r \<and> dget r ''disposition'' = PStr ''SAFE'') \<longleftrightarrow>
     parse_canonical_fence_ref (hl_fence_evidence_ref h) \<noteq> None \<and>
     fence_verified (hl_fence_evidence_ref h) verified = Inr True \<and> handoff_bound H h cp \<and>
     hl_reconcile_disposition h = ''SAFE''"
proof (cases "parse_canonical_fence_ref (hl_fence_evidence_ref h) = None \<or>
    fence_verified (hl_fence_evidence_ref h) verified \<noteq> Inr True")
  case True
  then show ?thesis
    by (cases "fence_verified (hl_fence_evidence_ref h) verified")
      (auto simp: evaluate_predecessor_def Let_def)
next
  case False
  then have "strip (hl_fence_evidence_ref h) \<noteq> []" using parse_fence_nonblank by blast
  with False show ?thesis
    by (simp add: evaluate_predecessor_def Let_def handoff_bound_def)
qed

lemma evaluate_handoff_safe:
  "(\<exists>r. evaluate_handoff_lineage H h i pcp verified = Inr r \<and> dget r ''disposition'' = PStr ''SAFE'') \<longleftrightarrow>
     (\<exists>cp x. pcp = Some cp \<and> lineage_hash H h = Inr x \<and> hl_source_identity h = i \<and>
        cp_status cp \<noteq> ''RECONCILE'' \<and> cp_blocked_reason cp = [] \<and> hl_unknown_effect_refs h = [] \<and>
        (\<exists>r. evaluate_predecessor H h cp verified x = Inr r \<and> dget r ''disposition'' = PStr ''SAFE''))"
proof (cases pcp)
  case (Some cp)
  show ?thesis
  proof (cases "lineage_hash H h")
    case (Inr x)
    then show ?thesis unfolding evaluate_handoff_lineage_def Some Inr bindr.simps Let_def stale_fields4_Nil
      by (cases "hl_source_identity h = i"; cases "cp_status cp = ''RECONCILE''"; cases "cp_blocked_reason cp = []";
          cases "hl_unknown_effect_refs h = []") simp_all
  qed (simp add: evaluate_handoff_lineage_def)
qed (auto simp: evaluate_handoff_lineage_def Let_def bindr_eq_Inr)

text \<open>A chain that leads back from an attempt, and the attempt it ends in.\<close>

fun links :: "string \<Rightarrow> handoff list \<Rightarrow> bool" where
  "links a [] = True"
| "links a (h # hs) = (hl_successor_attempt_id h = a \<and> links (hl_predecessor_attempt_id h) hs)"

fun origin :: "string \<Rightarrow> handoff list \<Rightarrow> string" where
  "origin a [] = a"
| "origin a (h # hs) = origin (hl_predecessor_attempt_id h) hs"

declare lineage_from.simps [simp del]

lemma lineage_from_Inr:
  assumes "lineage_from H st t c vis = Inr chain"
  shows "c \<notin> set vis \<and>
    (chain = [] \<and> read_handoff H st t c = Inr None \<or>
     (\<exists>h rest. chain = h # rest \<and> read_handoff H st t c = Inr (Some h) \<and> hl_task_id h = t \<and>
        hl_successor_attempt_id h = c \<and> lineage_from H st t (hl_predecessor_attempt_id h) (c # vis) = Inr rest))"
  using assms by (subst (asm) lineage_from.simps) (auto simp: bindr_eq_Inr split: if_splits sum.splits option.splits)

lemma lineage_from_wf:
  "lineage_from H st t c vis = Inr chain \<Longrightarrow>
     links c chain \<and> distinct (map hl_successor_attempt_id chain) \<and>
     (set (map hl_successor_attempt_id chain) \<union> {origin c chain}) \<inter> set vis = {} \<and>
     origin c chain \<notin> set (map hl_successor_attempt_id chain) \<and>
     read_handoff H st t (origin c chain) = Inr None \<and>
     (\<forall>h \<in> set chain. hl_task_id h = t \<and> read_handoff H st t (hl_successor_attempt_id h) = Inr (Some h))"
proof (induction chain arbitrary: c vis)
  case Nil
  from lineage_from_Inr [OF Nil] show ?case by simp
next
  case (Cons h chain)
  from lineage_from_Inr [OF Cons.prems] have c: "c \<notin> set vis" "read_handoff H st t c = Inr (Some h)"
    "hl_task_id h = t" "hl_successor_attempt_id h = c"
    "lineage_from H st t (hl_predecessor_attempt_id h) (c # vis) = Inr chain" by auto
  note ih = Cons.IH [OF c(5)]
  have "\<forall>x \<in> set (h # chain). hl_task_id x = t \<and> read_handoff H st t (hl_successor_attempt_id x) = Inr (Some x)"
    unfolding list.set using ih c(2) unfolding c(4) [symmetric] by (simp only: ball_simps c(3)) blast
  moreover have "c \<notin> set (map hl_successor_attempt_id chain)" "origin (hl_predecessor_attempt_id h) chain \<noteq> c"
    using ih by auto
  ultimately show ?case using ih c(1,4) unfolding links.simps origin.simps list.map set_simps distinct.simps by blast
qed

text \<open>A walk back from an attempt over stored records of one task, through attempts not visited before.\<close>

definition walked :: "(string \<Rightarrow> string) \<Rightarrow> store \<Rightarrow> string \<Rightarrow> string list \<Rightarrow> string \<Rightarrow> handoff list \<Rightarrow> bool" where
  "walked H st t vis a hs \<longleftrightarrow> links a hs \<and> distinct (map hl_successor_attempt_id hs) \<and>
     set (map hl_successor_attempt_id hs) \<inter> set vis = {} \<and>
     (\<forall>h \<in> set hs. hl_task_id h = t \<and> read_handoff H st t (hl_successor_attempt_id h) = Inr (Some h))"

lemma walked_Nil [simp]: "walked H st t vis a []"
  by (simp add: walked_def)

lemma walked_Cons:
  assumes "walked H st t (a # vis) (hl_predecessor_attempt_id h) hs" and "a \<notin> set vis"
    and "read_handoff H st t a = Inr (Some h)" and "hl_task_id h = t" and "hl_successor_attempt_id h = a"
  shows "walked H st t vis a (h # hs)"
  using assms by (auto simp: walked_def)

text \<open>Every attempt on a walk has a handoff file, so a walk is no longer than there are files.\<close>

lemma walked_length: "walked H st t vis a hs \<Longrightarrow> length hs \<le> card (handed_off st t)"
proof -
  assume w: "walked H st t vis a hs"
  then have "set (map hl_successor_attempt_id hs) \<subseteq> handed_off st t"
    using read_handoff_handed_off by (fastforce simp: walked_def)
  then have "card (set (map hl_successor_attempt_id hs)) \<le> card (handed_off st t)" by (rule card_mono [OF finite_handed_off])
  moreover have "card (set (map hl_successor_attempt_id hs)) = length hs"
    using w distinct_card [of "map hl_successor_attempt_id hs"] by (simp add: walked_def)
  ultimately show ?thesis by simp
qed

text \<open>Why a walk cannot go on at an attempt, with the exception raised there.\<close>

definition walk_blocked ::
  "(string \<Rightarrow> string) \<Rightarrow> store \<Rightarrow> string \<Rightarrow> string list \<Rightarrow> string \<Rightarrow> exn \<Rightarrow> bool" where
  "walk_blocked H st t vis c e \<longleftrightarrow>
     (c \<in> set vis \<and> e = (HandoffLineageError, ''detected cyclic handoff lineage: attempt '' @ repr_str c @ '' creates cycle'')) \<or>
     (c \<notin> set vis \<and> read_handoff H st t c = Inl e) \<or>
     (c \<notin> set vis \<and> (\<exists>h. read_handoff H st t c = Inr (Some h) \<and> fst e = HandoffLineageError \<and>
        (hl_task_id h \<noteq> t \<or> hl_successor_attempt_id h \<noteq> c)))"

lemma read_handoff_distinct:
  "read_handoff H st t c = Inr (Some h) \<Longrightarrow> hl_predecessor_attempt_id h \<noteq> hl_successor_attempt_id h"
  by (auto simp: read_handoff_def bindr_eq_Inr dest: load_handoff_Some)

lemma lineage_from_Inl:
  "lineage_from H st t c vis = Inl e \<Longrightarrow>
     \<exists>hs. walked H st t vis c hs \<and> walk_blocked H st t (map hl_successor_attempt_id hs @ vis) (origin c hs) e"
proof (induction H st t c vis rule: lineage_from.induct)
  case (1 H st t c vis)
  show ?case
  proof (cases "c \<in> set vis")
    case True
    with 1(2) show ?thesis by (intro exI [of _ "[]"]) (simp add: lineage_from.simps walk_blocked_def)
  next
    case new: False
    show ?thesis
    proof (cases "read_handoff H st t c")
      case (Inl e')
      with 1(2) new show ?thesis by (intro exI [of _ "[]"]) (simp add: lineage_from.simps walk_blocked_def)
    next
      case (Inr found)
      with 1(2) new obtain h where h: "found = Some h"
        by (cases found) (simp_all add: lineage_from.simps)
      note read = Inr [unfolded h]
      show ?thesis
      proof (cases "hl_task_id h = t \<and> hl_successor_attempt_id h = c")
        case False
        with 1(2) new read show ?thesis
          by (intro exI [of _ "[]"]) (auto simp: lineage_from.simps walk_blocked_def split: if_splits)
      next
        case ok: True
        with 1(2) new read read_handoff_distinct [OF read]
        have "lineage_from H st t (hl_predecessor_attempt_id h) (c # vis) = Inl e"
          by (auto simp: lineage_from.simps [of H st t c vis] bindr_eq_Inl split: if_splits)
        with 1(1) [OF new Inr h] ok read_handoff_distinct [OF read] obtain hs where
          hs: "walked H st t (c # vis) (hl_predecessor_attempt_id h) hs"
            "walk_blocked H st t (map hl_successor_attempt_id hs @ c # vis) (origin (hl_predecessor_attempt_id h) hs) e"
          by auto
        have "walked H st t vis c (h # hs)" using walked_Cons [OF hs(1) new read] ok by simp
        moreover have "walk_blocked H st t (map hl_successor_attempt_id (h # hs) @ vis) (origin c (h # hs)) e"
          using hs(2) ok by (simp add: walk_blocked_def)
        ultimately show ?thesis by blast
      qed
    qed
  qed
qed

lemma commit_handoff_eq_Inr:
  "(case r of Inl e \<Rightarrow> (st, Inl e) | Inr (s, h) \<Rightarrow> (s, Inr h)) = (st', Inr (y :: handoff)) \<longleftrightarrow> r = Inr (st', y)"
  by (cases r) auto

lemma write_handoff_eq_Inr:
  "write_handoff H st h = (st', Inr h') \<longleftrightarrow>
     (\<exists>d p existing. attempt_dir (hl_task_id h) (''handoff_'' @ hl_successor_attempt_id h) = Inr d \<and>
        handoff_path (hl_task_id h) (hl_successor_attempt_id h) = Inr p \<and> load_handoff H st p = Inr existing \<and>
        (case existing of
           Some e \<Rightarrow> (\<exists>x. lineage_hash H e = Inr x \<and> lineage_hash H h = Inr x) \<and> st' = st \<and> h' = e
         | None \<Rightarrow> \<exists>payload. hl_to_dict H h = Inr payload \<and> st' = atomic_write st p payload \<and> h' = h))"
proof (cases "bindr (attempt_dir (hl_task_id h) (''handoff_'' @ hl_successor_attempt_id h)) (\<lambda>d.
    bindr (handoff_path (hl_task_id h) (hl_successor_attempt_id h)) (\<lambda>p.
    bindr (load_handoff H st p) (\<lambda>existing. Inr (d, p, existing))))")
  case (Inl e)
  then show ?thesis by (auto simp: write_handoff_def bindr_eq_Inl)
next
  case (Inr x)
  then obtain d p existing where
    "attempt_dir (hl_task_id h) (''handoff_'' @ hl_successor_attempt_id h) = Inr d"
    "handoff_path (hl_task_id h) (hl_successor_attempt_id h) = Inr p" "load_handoff H st p = Inr existing"
    by (auto simp: bindr_eq_Inr)
  note r = this
  show ?thesis
    by (cases existing; cases "lineage_hash H h"; cases "lineage_hash H (the existing)"; cases "hl_to_dict H h")
      (auto simp: write_handoff_def r raise_if_def simp del: append.simps)
qed

lemma make_effect_again: "ce_wf e \<Longrightarrow> make_effect (ce_effect_key e) (ce_receipt_ref e) (ce_effect_hash e) = Inr e"
  by (simp add: make_effect_eq_Inr)

lemma remake_effects:
  "\<forall>e \<in> set es. ce_wf e \<Longrightarrow>
     map_res (\<lambda>e. make_effect (ce_effect_key e) (ce_receipt_ref e) (ce_effect_hash e)) es = Inr es"
  using map_res_Inr_map [of es "\<lambda>e. make_effect (ce_effect_key e) (ce_receipt_ref e) (ce_effect_hash e)" "\<lambda>e. e"]
  by (simp add: make_effect_again)

lemma successor_checkpoint_Inr:
  assumes "successor_checkpoint H st h i verified status phase = Inr cp"
  shows "\<exists>pcp ancestry r inherited.
    cp_read H st (hl_task_id h) (hl_predecessor_attempt_id h) = Inr (Some pcp) \<and>
    reconstruct_lineage_chain H st (hl_task_id h) (hl_predecessor_attempt_id h) = Inr ancestry \<and>
    hl_successor_attempt_id h \<notin> ancestry_attempts h ancestry \<and>
    evaluate_handoff_lineage H h i (Some pcp) verified = Inr r \<and> dget r ''disposition'' = PStr ''SAFE'' \<and>
    map_res (\<lambda>e. make_effect (ce_effect_key e) (ce_receipt_ref e) (ce_effect_hash e)) (cp_completed_effects pcp) = Inr inherited \<and>
    make_checkpoint (args_of (successor_base h i status phase inherited)) = Inr cp"
  using assms unfolding successor_checkpoint_def bindr_eq_Inr case_option_eq_Inr raise_if_eq_Inr Let_def not_not
  by blast

lemma bind_successor_Inr:
  assumes "bind_successor_checkpoint H st h i verified status phase = (st', Inr cp)"
  shows "successor_checkpoint H st h i verified status phase = Inr cp \<and>
    (\<exists>st1 h'. write_handoff H st h = (st1, Inr h') \<and> cp_write H st1 cp None = (st', Inr cp))"
  using assms unfolding bind_successor_checkpoint_def
  by (cases "successor_checkpoint H st h i verified status phase"; cases "write_handoff H st h";
      cases "snd (write_handoff H st h)") (auto simp: cp_write_eq_Inr)

lemma load_checkpoint_write_handoff:
  assumes "write_handoff H st h = (st', Inr h')" and "p \<noteq> [strip (hl_task_id h), ''handoffs'', strip (hl_successor_attempt_id h) @ ''.json'']"
  shows "load_checkpoint H st' p = load_checkpoint H st p"
  using assms
  by (auto simp: write_handoff_eq_Inr handoff_path_eq_Inr load_checkpoint_def split: option.splits)

text \<open>A handoff of the concrete checkpoint.\<close>

definition sample_handoff :: handoff where
  "sample_handoff =
     \<lparr> hl_task_id = ''t'', hl_predecessor_attempt_id = ''a1'', hl_successor_attempt_id = ''a2'',
       hl_predecessor_operation_id = ''op'', hl_predecessor_checkpoint_hash = replicate 64 CHR ''a'',
       hl_predecessor_checkpoint_revision = 1, hl_handoff_reason = ''r'', hl_source_identity = sample_identity,
       hl_terminal_state = ''RUNNING'', hl_fence_evidence_ref = ''fence:x'', hl_completed_effect_refs = [],
       hl_completed_effect_keys = [], hl_unknown_effect_refs = [], hl_reconcile_disposition = ''SAFE'',
       hl_successor_binding = [], hl_inherited_evidence_refs = [], hl_next_gate = '''',
       hl_freshness_identity = '''', hl_transition_type = '''', hl_schema = HANDOFF_LINEAGE_SCHEMA,
       hl_claim_ceiling = HANDOFF_LINEAGE_CLAIM_CEILING \<rparr>"

lemma sample_bind:
  "isl (snd (bind_successor_checkpoint sample_hash sample_store sample_handoff sample_identity
      (PList [PStr ''fence:x'']) ''RUNNING'' '''')) = False"
  by code_simp

section \<open>Properties\<close>

text \<open>
  A handoff is evaluated SAFE exactly when its source identity is the
  current one, the predecessor checkpoint exists, needs no reconciliation and is the one the handoff
  was made for (task, attempt, operation, identity, content hash, revision and status all agree), no
  effect is unknown, the fence reference is canonical and externally verified, and the handoff does
  not itself ask for another disposition.
\<close>

theorem handoff_safe_iff:
  "(\<exists>r. evaluate_handoff_lineage H h i pcp verified = Inr r \<and> dget r ''disposition'' = PStr ''SAFE'') \<longleftrightarrow>
     (\<exists>cp x. pcp = Some cp \<and> lineage_hash H h = Inr x \<and> hl_source_identity h = i \<and>
        cp_status cp \<noteq> ''RECONCILE'' \<and> cp_blocked_reason cp = '''' \<and> hl_unknown_effect_refs h = [] \<and>
        parse_canonical_fence_ref (hl_fence_evidence_ref h) \<noteq> None \<and>
        fence_verified (hl_fence_evidence_ref h) verified = Inr True \<and>
        cp_task_id cp = hl_task_id h \<and> cp_attempt_id cp = hl_predecessor_attempt_id h \<and>
        cp_operation_id cp = hl_predecessor_operation_id h \<and> cp_identity cp = hl_source_identity h \<and>
        checkpoint_hash H cp = Inr (hl_predecessor_checkpoint_hash h) \<and>
        cp_revision cp = hl_predecessor_checkpoint_revision h \<and> hl_terminal_state h = cp_status cp \<and>
        hl_reconcile_disposition h = ''SAFE'')"
  unfolding evaluate_handoff_safe evaluate_predecessor_safe handoff_bound_def by (simp only: conj_assoc)

text \<open>
  C38 (lineage_chain_sound). The reconstruction of an attempt's lineage always ends, after at most as many records
  as the task has handoff files, in one of two ways. Either it returns a chain: the records are the stored ones of
  this task, each record's predecessor is the successor of the record before it, the last one leads to the attempt
  itself, no attempt occurs twice, and the chain starts at an attempt that has no handoff record. Or it raises, and
  then such a walk back from the attempt ends where it cannot go on: at an attempt already visited, at an
  unreadable record, or at one of another task or attempt.
\<close>

theorem lineage_chain_sound:
  "case reconstruct_lineage_chain H st t a of
     Inr chain \<Rightarrow> links a (rev chain) \<and> distinct (origin a (rev chain) # map hl_successor_attempt_id chain) \<and>
       read_handoff H st t (origin a (rev chain)) = Inr None \<and>
       (\<forall>h \<in> set chain. hl_task_id h = t \<and> read_handoff H st t (hl_successor_attempt_id h) = Inr (Some h)) \<and>
       length chain \<le> card (handed_off st t)
   | Inl e \<Rightarrow> \<exists>hs. walked H st t [] a hs \<and> walk_blocked H st t (map hl_successor_attempt_id hs) (origin a hs) e \<and>
       length hs \<le> card (handed_off st t)"
proof (cases "lineage_from H st t a []")
  case (Inl e)
  from lineage_from_Inl [OF Inl] walked_length Inl show ?thesis by (force simp: reconstruct_lineage_chain_def)
next
  case (Inr c)
  note wf = lineage_from_wf [OF Inr]
  then have "walked H st t [] a c" by (simp add: walked_def)
  from walked_length [OF this] wf Inr show ?thesis by (auto simp: reconstruct_lineage_chain_def rev_map [symmetric])
qed

theorem lineage_chain_sound_witness:
  "\<exists>h st. reconstruct_lineage_chain sample_hash st ''t'' ''a2'' = Inr [h] \<and> links ''a2'' [h] \<and>
     hl_predecessor_attempt_id h = ''a1'' \<and> read_handoff sample_hash st ''t'' ''a1'' = Inr None"
proof -
  let ?st = "fst (write_handoff sample_hash sample_store sample_handoff)"
  have "map_sum (\<lambda>e. e) (map hl_predecessor_attempt_id) (reconstruct_lineage_chain sample_hash ?st ''t'' ''a2'') = Inr [''a1'']"
    by code_simp
  then obtain h where h: "reconstruct_lineage_chain sample_hash ?st ''t'' ''a2'' = Inr [h]" "hl_predecessor_attempt_id h = ''a1''"
    by (cases "reconstruct_lineage_chain sample_hash ?st ''t'' ''a2''") auto
  from lineage_chain_sound [of sample_hash ?st "''t''" "''a2''"] h show ?thesis by auto
qed

text \<open>
  A stored handoff is never changed by writing another one: whatever handoff
  is written, every existing document keeps its content, and a write for a successor that already has
  a handoff succeeds only with the stored record, whose lineage hash is the one of the new record.
\<close>

theorem handoff_write_once:
  assumes "write_handoff H st h = (st', r)" and "fs_get st p = Some f"
  shows "fs_get st' p = Some f \<and>
    (handoff_path (hl_task_id h) (hl_successor_attempt_id h) = Inr p \<longrightarrow>
       st' = st \<and> (\<forall>h'. r = Inr h' \<longrightarrow> load_handoff H st p = Inr (Some h') \<and> lineage_hash H h' = lineage_hash H h))"
proof (cases r)
  case (Inl e)
  then have "st' = st" using assms(1) by (auto simp: write_handoff_def split: sum.splits)
  with assms(2) Inl show ?thesis by simp
next
  case (Inr h')
  with assms(1) have "write_handoff H st h = (st', Inr h')" by simp
  then obtain q existing where q: "handoff_path (hl_task_id h) (hl_successor_attempt_id h) = Inr q"
    "load_handoff H st q = Inr existing"
    and w: "case existing of
           Some e \<Rightarrow> (\<exists>x. lineage_hash H e = Inr x \<and> lineage_hash H h = Inr x) \<and> st' = st \<and> h' = e
         | None \<Rightarrow> \<exists>payload. hl_to_dict H h = Inr payload \<and> st' = atomic_write st q payload \<and> h' = h"
    unfolding write_handoff_eq_Inr by blast
  show ?thesis
  proof (cases existing)
    case None
    then have "fs_get st q = None"
      using q(2) by (auto simp: load_handoff_def fs_exists_def bindr_eq_Inr split: if_splits)
    then have "q \<noteq> p" using assms(2) by auto
    with w None assms(2) q(1) show ?thesis by auto
  next
    case (Some e)
    with w q Inr assms(2) show ?thesis by auto
  qed
qed

theorem handoff_write_once_witness:
  "\<exists>st' r f. write_handoff sample_hash sample_store sample_handoff = (st', r) \<and>
     fs_get sample_store [''t'', ''a1'', ''current.json''] = Some f \<and>
     fs_get st' [''t'', ''a1'', ''current.json''] = Some f"
proof -
  obtain st' r where w: "write_handoff sample_hash sample_store sample_handoff = (st', r)" by (metis surj_pair)
  have "fs_get sample_store [''t'', ''a1'', ''current.json''] \<noteq> None"
    using sample_store_load(1) by (auto simp: load_checkpoint_def fs_exists_def split: if_splits)
  then obtain f where f: "fs_get sample_store [''t'', ''a1'', ''current.json''] = Some f" by blast
  from handoff_write_once [OF w f] w f show ?thesis by blast
qed

text \<open>
  C10 (bind_successor_inherits). When a successor checkpoint is bound (as one step: the code reads the
  predecessor, writes the handoff and writes the successor in separate sections of its lock), the predecessor's stored
  checkpoint exists and the handoff is SAFE for it, the successor is none of the attempts of the
  predecessor's lineage, and the successor starts at revision 1 with the current identity and with
  exactly the predecessor's completed effects, so that no completed effect can be replayed; the
  successor is then read back from the store.
\<close>

theorem bind_successor_inherits:
  assumes "\<And>s. hex64 (H s)" and "bind_successor_checkpoint H st h i verified status phase = (st', Inr cp)"
    and "solid (hl_successor_attempt_id h)" and "solid (expected_operation_id h)"
  shows "\<exists>pcp ancestry r. cp_read H st (hl_task_id h) (hl_predecessor_attempt_id h) = Inr (Some pcp) \<and>
    reconstruct_lineage_chain H st (hl_task_id h) (hl_predecessor_attempt_id h) = Inr ancestry \<and>
    hl_successor_attempt_id h \<notin> ancestry_attempts h ancestry \<and>
    evaluate_handoff_lineage H h i (Some pcp) verified = Inr r \<and> dget r ''disposition'' = PStr ''SAFE'' \<and>
    cp_completed_effects cp = cp_completed_effects pcp \<and> cp_revision cp = 1 \<and> cp_identity cp = i \<and>
    cp_read H st' (hl_task_id h) (hl_successor_attempt_id h) = Inr (Some (cp_canon cp))"
proof -
  from bind_successor_Inr [OF assms(2)] obtain st1 h' where
    s: "successor_checkpoint H st h i verified status phase = Inr cp"
    and w: "write_handoff H st h = (st1, Inr h')" "cp_write H st1 cp None = (st', Inr cp)" by blast
  from successor_checkpoint_Inr [OF s] obtain pcp ancestry r inherited where
    p: "cp_read H st (hl_task_id h) (hl_predecessor_attempt_id h) = Inr (Some pcp)"
    "reconstruct_lineage_chain H st (hl_task_id h) (hl_predecessor_attempt_id h) = Inr ancestry"
    "hl_successor_attempt_id h \<notin> ancestry_attempts h ancestry"
    "evaluate_handoff_lineage H h i (Some pcp) verified = Inr r" "dget r ''disposition'' = PStr ''SAFE''"
    and e: "map_res (\<lambda>e. make_effect (ce_effect_key e) (ce_receipt_ref e) (ce_effect_hash e)) (cp_completed_effects pcp)
        = Inr inherited"
    and m: "make_checkpoint (args_of (successor_base h i status phase inherited)) = Inr cp" by blast
  have pc: "cp_clean pcp" using p(1) load_checkpoint_clean by (auto simp: cp_read_eq_Inr)
  have inh: "inherited = cp_completed_effects pcp"
    using e remake_effects [of "cp_completed_effects pcp"] pc by (simp add: cp_clean_def cp_wf_def)
  from p(4,5) have b: "hl_source_identity h = i" "cp_task_id pcp = hl_task_id h" "cp_identity pcp = hl_source_identity h"
    using evaluate_handoff_safe [of H h i "Some pcp" verified] evaluate_predecessor_safe [of H h pcp verified]
    by (auto simp: handoff_bound_def)
  have sort: "sort_key ce_effect_key (cp_completed_effects pcp) = cp_completed_effects pcp"
    using pc by (simp add: cp_clean_def cp_wf_def sort_key_id_if_sorted)
  have cp: "cp_completed_effects cp = cp_completed_effects pcp" "cp_revision cp = 1" "cp_identity cp = i"
    "cp_task_id cp = hl_task_id h" "cp_attempt_id cp = hl_successor_attempt_id h"
    "cp_operation_id cp = expected_operation_id h" "cp_claim_ceiling cp = WORKFLOW_CHECKPOINT_CLAIM_CEILING"
    by (subst make_checkpoint_args_of [OF m], simp add: successor_base_def inh sort)+
  have "cp_wf cp"
    by (rule make_checkpoint_args_wf [OF m])
      (use pc b in \<open>simp_all add: successor_base_def inh cp_clean_def cp_wf_def\<close>)
  then have clean: "cp_clean cp" using pc b assms(3,4) by (simp add: cp_clean_def cp)
  from w(2) obtain existing where "save_checkpoint H st1 (cp_task_id cp) (cp_attempt_id cp) cp = Inr st'"
    by (rule cp_write_key)
  moreover have "digest H" by unfold_locales (rule assms(1))
  ultimately have "cp_read H st' (hl_task_id h) (hl_successor_attempt_id h) = Inr (Some (cp_canon cp))"
    using load_checkpoint_save_same [OF _ _ clean] by (simp add: cp)
  with p cp show ?thesis by blast
qed

theorem bind_successor_inherits_witness:
  "\<exists>st' cp pcp. bind_successor_checkpoint sample_hash sample_store sample_handoff sample_identity
      (PList [PStr ''fence:x'']) ''RUNNING'' '''' = (st', Inr cp) \<and>
    cp_read sample_hash sample_store (hl_task_id sample_handoff) (hl_predecessor_attempt_id sample_handoff) = Inr (Some pcp) \<and>
    cp_completed_effects cp = cp_completed_effects pcp"
proof -
  obtain st' r where b: "bind_successor_checkpoint sample_hash sample_store sample_handoff sample_identity
      (PList [PStr ''fence:x'']) ''RUNNING'' '''' = (st', r)" by (metis surj_pair)
  with sample_bind obtain cp where r: "r = Inr cp" by (cases r) auto
  have "solid (hl_successor_attempt_id sample_handoff)" "solid (expected_operation_id sample_handoff)"
    by (simp_all add: sample_handoff_def expected_operation_id_def dget_def solid_iff py_space_def)
  from bind_successor_inherits [OF hex64_sample_hash b [unfolded r] this] b r show ?thesis by blast
qed

end
