(* ===== verification/Writer_Generation.thy ===== *)
theory Writer_Generation
  imports Json_Store Cas_Store
begin

text \<open>
  The writer generation of the event store (\<open>kernel/events/writer_generation.py\<close>): a manifest that
  names the one writer allowed to write, with a digest over its content, replaced under
  compare-and-set on the generation number. The lock file and its reentrant registry are not part
  of the model: an installation is one step on the store. Symbolic links and special files, which
  the code refuses, do not occur in the model's stores.
\<close>

section \<open>The manifest\<close>

definition generation_SCHEMA :: string where
  "generation_SCHEMA = ''nexus.event_writer_generation.v1''"

definition generation_STORE :: string where
  "generation_STORE = ''event_log''"

record writer_generation =
  wg_generation :: int
  wg_writer_id :: string

definition make_generation :: "int \<Rightarrow> string \<Rightarrow> writer_generation res" where
  "make_generation generation writer_id =
     bindr (raise_if (generation < 1) ValueError ''generation must be a positive integer'') (\<lambda>_.
     bindr (raise_if (strip writer_id = []) ValueError ''writer_id is required'') (\<lambda>_.
     Inr \<lparr> wg_generation = generation, wg_writer_id = writer_id \<rparr>))"

definition manifest_path :: path where
  "manifest_path = [''.nexus'', ''events'', ''event_log.generation.v1.json'']"

definition generation_payload :: "int \<Rightarrow> string \<Rightarrow> dict" where
  "generation_payload generation writer_id =
     [(''schema'', PStr generation_SCHEMA), (''store'', PStr generation_STORE),
      (''event_log'', PStr ''event_log.jsonl''), (''lock'', PStr ''event_log.lock''),
      (''generation'', PInt generation), (''writer_id'', PStr writer_id)]"

definition generation_digest :: "(string \<Rightarrow> string) \<Rightarrow> dict \<Rightarrow> string res" where
  "generation_digest H payload = bindr (json_dumps True True (PDict payload)) (\<lambda>s. Inr (H s))"

abbreviation gen_error :: "string \<Rightarrow> 'a res" where
  "gen_error msg \<equiv> Inl (GenerationError, msg)"

definition generation_validated :: "(string \<Rightarrow> string) \<Rightarrow> pyval \<Rightarrow> writer_generation res" where
  "generation_validated H data =
    (if \<not> is_mapping data then gen_error ''GENERATION_MANIFEST_MALFORMED''
     else let d = dict_of data in
     if set (dkeys d) \<noteq> set (dkeys (generation_payload 1 ''x'')) \<union> {''manifest_digest''} \<or>
        dget d ''schema'' \<noteq> PStr generation_SCHEMA \<or> dget d ''store'' \<noteq> PStr generation_STORE
     then gen_error ''GENERATION_MANIFEST_MALFORMED''
     else if dget d ''event_log'' \<noteq> PStr ''event_log.jsonl'' \<or> dget d ''lock'' \<noteq> PStr ''event_log.lock''
     then gen_error ''GENERATION_MANIFEST_MALFORMED''
     else (case (dget d ''generation'', dget d ''writer_id'') of
         (PInt generation, PStr writer_id) \<Rightarrow>
           if generation < 1 \<or> strip writer_id = [] then gen_error ''GENERATION_MANIFEST_MALFORMED''
           else bindr (generation_digest H (ddel ''manifest_digest'' d)) (\<lambda>h.
                if dget d ''manifest_digest'' \<noteq> PStr h then gen_error ''GENERATION_MANIFEST_TAMPERED''
                else make_generation generation writer_id)
       | _ \<Rightarrow> gen_error ''GENERATION_MANIFEST_MALFORMED''))"

definition read_generation :: "(string \<Rightarrow> string) \<Rightarrow> store \<Rightarrow> writer_generation option res" where
  "read_generation H st =
     (case fs_get st manifest_path of
        None \<Rightarrow> Inr None
      | Some _ \<Rightarrow>
          (case bindr (load_json st manifest_path) (generation_validated H) of
             Inr g \<Rightarrow> Inr (Some g)
           | Inl e \<Rightarrow> if fst e \<in> {GenerationError, GenerationConflict} then Inl e
                      else if is_value_error e then gen_error ''GENERATION_MANIFEST_MALFORMED'' else Inl e))"

definition install_generation ::
  "(string \<Rightarrow> string) \<Rightarrow> store \<Rightarrow> writer_generation \<Rightarrow> int option \<Rightarrow> store \<times> writer_generation res" where
  "install_generation H st g expected_generation =
    (case
       bindr (raise_if (case expected_generation of None \<Rightarrow> False | Some n \<Rightarrow> n < 1) GenerationError
                ''GENERATION_CAS_MALFORMED'') (\<lambda>_.
       bindr (read_generation H st) (\<lambda>current.
       bindr (raise_if (expected_generation \<noteq> map_option wg_generation current) GenerationConflict
                ''GENERATION_CAS_CONFLICT'') (\<lambda>_.
       bindr (raise_if (case current of None \<Rightarrow> False | Some c \<Rightarrow> wg_generation g \<le> wg_generation c)
                GenerationConflict ''GENERATION_MUST_ADVANCE'') (\<lambda>_.
       let payload = generation_payload (wg_generation g) (wg_writer_id g) in
       bindr (generation_digest H payload) (\<lambda>h.
       Inr (atomic_write st manifest_path (dset ''manifest_digest'' (PStr h) payload))))))) of
       Inl e \<Rightarrow> (st, Inl e)
     | Inr st' \<Rightarrow> (st', Inr g))"

section \<open>Lemmas\<close>

definition wg_wf :: "writer_generation \<Rightarrow> bool" where
  "wg_wf g \<longleftrightarrow> 1 \<le> wg_generation g \<and> strip (wg_writer_id g) \<noteq> []"

lemma make_generation_eq_Inr:
  "make_generation n w = Inr g \<longleftrightarrow> g = \<lparr> wg_generation = n, wg_writer_id = w \<rparr> \<and> wg_wf g"
  by (auto simp: make_generation_def wg_wf_def res_simps)

definition manifest_document :: "(string \<Rightarrow> string) \<Rightarrow> writer_generation \<Rightarrow> dict" where
  "manifest_document H g = generation_payload (wg_generation g) (wg_writer_id g) @
     [(''manifest_digest'', PStr (H (projr (json_dumps True True
        (PDict (generation_payload (wg_generation g) (wg_writer_id g)))))))]"

lemma generation_digest_payload:
  "generation_digest H (generation_payload n w) = Inr (H (projr (json_dumps True True (PDict (generation_payload n w)))))"
proof -
  have "json_ok (PDict (generation_payload n w)) \<and> no_float (PDict (generation_payload n w))"
    by (auto simp: generation_payload_def)
  then obtain s where "json_dumps True True (PDict (generation_payload n w)) = Inr s" using json_dumps_total by blast
  then show ?thesis unfolding generation_digest_def by simp
qed

lemma install_writes:
  "bindr (generation_digest H (generation_payload (wg_generation g) (wg_writer_id g))) (\<lambda>h.
     Inr (atomic_write st manifest_path (dset ''manifest_digest'' (PStr h) (generation_payload (wg_generation g) (wg_writer_id g)))))
   = Inr (atomic_write st manifest_path (manifest_document H g))"
  unfolding generation_digest_payload manifest_document_def by (simp add: generation_payload_def)

lemma generation_digest_norm:
  "generation_digest H (ddel k (dict_of (json_norm (PDict d)))) = generation_digest H (ddel k d)"
  unfolding generation_digest_def ddel_json_norm json_dumps_norm ..

lemma validated_document:
  assumes "wg_wf g"
  shows "generation_validated H (json_norm (PDict (manifest_document H g))) = Inr g"
proof -
  let ?d = "manifest_document H g"
  have get: "dget (dict_of (json_norm (PDict ?d))) k = json_norm (dget ?d k)" for k
    by (rule dget_json_norm)
  have keys: "set (dkeys (dict_of (json_norm (PDict ?d)))) = set (dkeys (generation_payload 1 ''x'')) \<union> {''manifest_digest''}"
    unfolding dkeys_json_norm by (auto simp: dkeys_def manifest_document_def generation_payload_def)
  have fields: "dget ?d ''schema'' = PStr generation_SCHEMA" "dget ?d ''store'' = PStr generation_STORE"
    "dget ?d ''event_log'' = PStr ''event_log.jsonl''" "dget ?d ''lock'' = PStr ''event_log.lock''"
    "dget ?d ''generation'' = PInt (wg_generation g)" "dget ?d ''writer_id'' = PStr (wg_writer_id g)"
    "dget ?d ''manifest_digest'' = PStr (H (projr (json_dumps True True
        (PDict (generation_payload (wg_generation g) (wg_writer_id g))))))"
    "ddel ''manifest_digest'' ?d = generation_payload (wg_generation g) (wg_writer_id g)"
    by (simp_all add: manifest_document_def generation_payload_def dget_def ddel_def)
  have dig: "generation_digest H (ddel ''manifest_digest'' (dict_of (json_norm (PDict ?d))))
      = Inr (H (projr (json_dumps True True (PDict (generation_payload (wg_generation g) (wg_writer_id g))))))"
    unfolding generation_digest_norm fields generation_digest_payload ..
  have str: "json_norm (PStr s) = PStr s" "json_norm (PInt n) = PInt n" for s n by simp_all
  show ?thesis
    unfolding generation_validated_def Let_def keys get dig fields str
    using assms by (simp add: make_generation_eq_Inr wg_wf_def del: json_norm.simps)
qed

lemma read_installed:
  assumes "wg_wf g"
  shows "read_generation H (atomic_write st manifest_path (manifest_document H g)) = Inr (Some g)"
  using validated_document [OF assms] by (simp add: read_generation_def del: json_norm.simps)

lemma read_generation_wf: "read_generation H st = Inr (Some g) \<Longrightarrow> wg_wf g"
  by (auto simp: read_generation_def generation_validated_def Let_def bindr_eq_Inr make_generation_eq_Inr
      split: option.splits sum.splits if_splits pyval.splits)

text \<open>The condition of an installation.\<close>

definition install_allowed :: "writer_generation option \<Rightarrow> writer_generation \<Rightarrow> int option \<Rightarrow> bool" where
  "install_allowed current g expected \<longleftrightarrow> expected = map_option wg_generation current \<and>
     (case current of None \<Rightarrow> True | Some c \<Rightarrow> wg_generation c < wg_generation g)"

lemma install_eq_Inr:
  "install_generation H st g expected = (st', Inr g') \<longleftrightarrow>
     g' = g \<and> (\<exists>current. read_generation H st = Inr current \<and> install_allowed current g expected \<and>
        (case expected of None \<Rightarrow> True | Some n \<Rightarrow> 1 \<le> n)) \<and> st' = atomic_write st manifest_path (manifest_document H g)"
proof (cases "read_generation H st")
  case (Inl e)
  then show ?thesis by (simp add: install_generation_def raise_if_def)
next
  case (Inr current)
  then show ?thesis unfolding install_generation_def Let_def install_writes
    by (auto simp: install_allowed_def raise_if_def split: option.splits)
qed

lemma install_conflict:
  assumes "read_generation H st = Inr current" and "\<not> install_allowed current g expected"
    and "case expected of None \<Rightarrow> True | Some n \<Rightarrow> 1 \<le> n"
  shows "\<exists>msg. install_generation H st g expected = (st, Inl (GenerationConflict, msg))"
  using assms unfolding install_generation_def
  by (auto simp: install_allowed_def raise_if_def split: option.splits)

section \<open>Compare-and-set\<close>

definition gen_lookup :: "(string \<Rightarrow> string) \<Rightarrow> store \<Rightarrow> unit \<Rightarrow> writer_generation option" where
  "gen_lookup H st u = (case read_generation H st of Inr c \<Rightarrow> c | Inl _ \<Rightarrow> None)"

definition gen_cas :: "(string \<Rightarrow> string) \<Rightarrow> store \<Rightarrow> writer_generation \<Rightarrow> int \<Rightarrow> store option" where
  "gen_cas H st g r =
     (case install_generation H st g (if r = 0 then None else Some r) of
        (st', Inr _) \<Rightarrow> Some st' | (_, Inl _) \<Rightarrow> None)"

lemma gen_cas_eq_Some:
  "gen_cas H st g r = Some st' \<longleftrightarrow> install_generation H st g (if r = 0 then None else Some r) = (st', Inr g)"
proof -
  have "y = g" if "install_generation H st g e = (s, Inr y)" for s y e using that by (simp add: install_eq_Inr)
  then show ?thesis by (auto simp: gen_cas_def split: prod.splits sum.splits)
qed

interpretation wg: cas_document "gen_lookup H" "gen_cas H" "\<lambda>_. ()" wg_generation wg_wf for H
proof
  fix s v r s'
  assume "gen_cas H s v r = Some s'"
  then obtain current where c: "read_generation H s = Inr current"
    "install_allowed current v (if r = 0 then None else Some r)"
    and s': "s' = atomic_write s manifest_path (manifest_document H v)"
    by (auto simp: gen_cas_eq_Some install_eq_Inr)
  show "current_rev (gen_lookup H) wg_generation s () = r"
    using c by (auto simp: current_rev_def gen_lookup_def install_allowed_def split: if_splits option.splits)
  show "wg_wf v \<Longrightarrow> current_rev (gen_lookup H) wg_generation s' () = wg_generation v"
    by (simp add: s' current_rev_def gen_lookup_def read_installed)
qed simp

lemma install_advances:
  assumes "install_generation H st g expected = (st', Inr g')" and "wg_wf g"
  shows "read_generation H st' = Inr (Some g) \<and>
    current_rev (gen_lookup H) wg_generation st () < wg_generation g"
proof -
  from assms(1) obtain current where c: "read_generation H st = Inr current" "install_allowed current g expected"
    "st' = atomic_write st manifest_path (manifest_document H g)" by (auto simp: install_eq_Inr)
  then show ?thesis using read_installed [OF assms(2)] assms(2)
    by (auto simp: current_rev_def gen_lookup_def install_allowed_def wg_wf_def split: option.splits)
qed

definition sample_generation :: "int \<Rightarrow> writer_generation" where
  "sample_generation n = \<lparr> wg_generation = n, wg_writer_id = ''w'' \<rparr>"

lemma sample_generation_wf: "1 \<le> n \<Longrightarrow> wg_wf (sample_generation n)"
  by (simp add: wg_wf_def sample_generation_def strip_eq_Nil_iff py_space_def)

lemma sample_install:
  "install_generation H [] (sample_generation 1) None
     = (atomic_write [] manifest_path (manifest_document H (sample_generation 1)), Inr (sample_generation 1))"
  by (simp add: install_eq_Inr read_generation_def fs_get_def install_allowed_def)

section \<open>Properties\<close>

text \<open>
  On a readable manifest an installation has exactly two outcomes: when
  the expected generation is the installed one (none for none) and the new generation is greater,
  the new generation is installed and read back; otherwise the installation raises a conflict and
  nothing is written.
\<close>

theorem generation_install_outcome:
  assumes "wg_wf g" and "read_generation H st = Inr current"
    and "case expected of None \<Rightarrow> True | Some n \<Rightarrow> 1 \<le> n"
  shows "if expected = map_option wg_generation current \<and>
            (case current of None \<Rightarrow> True | Some c \<Rightarrow> wg_generation c < wg_generation g)
         then \<exists>st'. install_generation H st g expected = (st', Inr g) \<and> read_generation H st' = Inr (Some g)
         else \<exists>msg. install_generation H st g expected = (st, Inl (GenerationConflict, msg))"
proof (cases "install_allowed current g expected")
  case True
  then have "install_generation H st g expected
      = (atomic_write st manifest_path (manifest_document H g), Inr g)"
    using assms(2,3) by (auto simp: install_eq_Inr)
  with True read_installed [OF assms(1)] show ?thesis by (auto simp: install_allowed_def)
next
  case False
  from install_conflict [OF assms(2) this assms(3)] False show ?thesis by (auto simp: install_allowed_def)
qed

theorem generation_install_outcome_witness:
  "\<exists>st'. install_generation sample_hash [] (sample_generation 1) None = (st', Inr (sample_generation 1)) \<and>
         read_generation sample_hash st' = Inr (Some (sample_generation 1))"
proof -
  have "read_generation sample_hash [] = Inr None" by (simp add: read_generation_def fs_get_def)
  from generation_install_outcome [OF sample_generation_wf this, of 1 None] show ?thesis by simp
qed

text \<open>
  Two writers that take over from the same installed generation cannot
  both succeed: after one installation has succeeded, every installation that expects the same
  predecessor is refused, and the installed generation number has strictly increased.
\<close>

theorem generation_single_winner:
  assumes "wg_wf g" and "install_generation H st g expected = (st', Inr g)"
  shows "wg_generation g > current_rev (gen_lookup H) wg_generation st () \<and>
    (\<exists>e. install_generation H st' g' expected = (st', Inl e))"
proof -
  define r where "r = (case expected of None \<Rightarrow> 0 | Some n \<Rightarrow> n)"
  have ex: "expected = (if r = 0 then None else Some r)"
    using assms(2) by (auto simp: r_def install_eq_Inr split: option.splits)
  have adv: "current_rev (gen_lookup H) wg_generation st () < wg_generation g"
    using install_advances [OF assms(2,1)] by simp
  have cas: "gen_cas H st g r = Some st'" using assms(2) ex by (simp add: gen_cas_eq_Some)
  have "wg_generation g \<noteq> r" using wg.cas_expected [OF cas] adv by simp
  from wg.single_winner [OF cas assms(1) this, of g'] have none: "gen_cas H st' g' r = None" by simp
  have "\<exists>e. install_generation H st' g' expected = (st', Inl e)"
  proof (cases "install_generation H st' g' expected")
    case (Pair s x)
    show ?thesis
    proof (cases x)
      case (Inl e)
      with Pair show ?thesis by (auto simp: install_generation_def split: sum.splits)
    next
      case (Inr y)
      with Pair none ex show ?thesis by (simp add: gen_cas_def)
    qed
  qed
  with adv show ?thesis by simp
qed

theorem generation_single_winner_witness:
  "\<exists>st' e. install_generation sample_hash [] (sample_generation 1) None = (st', Inr (sample_generation 1)) \<and>
           install_generation sample_hash st' (sample_generation 2) None = (st', Inl e)"
  using generation_single_winner [OF sample_generation_wf sample_install, of sample_hash "sample_generation 2"]
    sample_install [of sample_hash] by auto

end
