(* ===== verification/Effect_Journal.thy ===== *)
theory Effect_Journal
  imports Writer_Generation
begin

text \<open>
  The effect journal (\<open>kernel/events/effect_journal.py\<close>): one document with a record per effect,
  written only by the installed writer generation, in which an effect is recorded before it is
  started. The dispatched operation and the reconcile port are parameters: they run inside \<open>execute\<close>, under a
  lock its thread may enter again, on the store as it is then, and may change it. \<open>execute\<close> gives every
  state of the store it goes through, so that a crash between two writes can be spoken about.
\<close>

section \<open>Identity and digests\<close>

definition journal_SCHEMA :: string where
  "journal_SCHEMA = ''nexus.runtime_effect_journal.v1''"

definition journal_STATES :: "string set" where
  "journal_STATES = {''PENDING'', ''DISPATCHED'', ''COMPLETED'', ''UNKNOWN''}"

abbreviation ej_error :: "string \<Rightarrow> 'a res" where
  "ej_error msg \<equiv> Inl (EffectJournalError, msg)"

definition ej_canonical :: "pyval \<Rightarrow> string res" where
  "ej_canonical v =
     (case json_dumps False False v of
        Inl e \<Rightarrow> if fst e = TypeError \<or> is_value_error e then ej_error ''EFFECT_IDENTITY_UNSERIALIZABLE'' else Inl e
      | Inr s \<Rightarrow> Inr s)"

definition ej_sha256 :: "(string \<Rightarrow> string) \<Rightarrow> pyval \<Rightarrow> string res" where
  "ej_sha256 H v = bindr (ej_canonical v) (\<lambda>s. Inr (H s))"

definition identity_required :: "string list" where
  "identity_required =
     [''task_id'', ''workspace_revision'', ''planner_decision_id'', ''action'', ''subject_revision'', ''request_digest'']"

definition operation_digest :: "(string \<Rightarrow> string) \<Rightarrow> pyval \<Rightarrow> string res" where
  "operation_digest H identity =
    (if \<not> is_mapping identity \<or> dict_of identity = [] then ej_error ''EFFECT_IDENTITY_REQUIRED''
     else let d = dict_of identity; keys = set (dkeys d) in
     if \<not> set identity_required \<subseteq> keys \<or> (''attempt_number'' \<notin> keys \<and> ''attempt'' \<notin> keys) \<or>
        \<not> keys \<subseteq> set identity_required \<union> {''attempt_number'', ''attempt''}
     then ej_error ''EFFECT_IDENTITY_MALFORMED''
     else if (case dget_default d ''attempt_number'' (dget d ''attempt'') of PInt n \<Rightarrow> n < 1 | _ \<Rightarrow> True)
     then ej_error ''EFFECT_IDENTITY_MALFORMED''
     else if \<exists>k \<in> set identity_required. \<not> (case dget d k of PStr s \<Rightarrow> s \<noteq> [] | _ \<Rightarrow> False)
     then ej_error ''EFFECT_IDENTITY_MALFORMED''
     else ej_sha256 H identity)"

definition deterministic_effect_id :: "(string \<Rightarrow> string) \<Rightarrow> pyval \<Rightarrow> string res" where
  "deterministic_effect_id H identity = bindr (operation_digest H identity) (\<lambda>op. Inr (''effect-'' @ op))"

definition digest_record :: "(string \<Rightarrow> string) \<Rightarrow> dict \<Rightarrow> string res" where
  "digest_record H record = ej_sha256 H (PDict (ddel ''record_digest'' record))"

definition safe_result :: "pyval \<Rightarrow> pyval res" where
  "safe_result result =
    (if \<not> is_mapping result \<or> dict_of result = [] then ej_error ''EFFECT_RESULT_MALFORMED''
     else case ej_canonical result of
       Inl e \<Rightarrow> if fst e \<in> {EffectJournalError, EffectIdentityMismatch}
                then ej_error ''EFFECT_RESULT_UNSERIALIZABLE'' else Inl e
     | Inr _ \<Rightarrow> Inr result)"

definition observation_fields :: "string set" where
  "observation_fields = {''operation_id'', ''effect_id'', ''subject'', ''request_digest'', ''generation'', ''result''}"

definition observed_result :: "dict \<Rightarrow> pyval \<Rightarrow> pyval res" where
  "observed_result record observed =
    (if \<not> is_mapping observed then ej_error ''EFFECT_OBSERVATION_MALFORMED''
     else let obs = dict_of observed in
     if set (dkeys obs) \<noteq> observation_fields \<or>
        (\<exists>k \<in> set [''operation_id'', ''effect_id'', ''subject'', ''request_digest'', ''generation'']. \<not> py_eq (dget obs k) (dget record k))
     then Inl (EffectIdentityMismatch, ''EFFECT_OBSERVATION_MISMATCH'')
     else safe_result (dget obs ''result''))"

section \<open>The journal\<close>

text \<open>The writer token of a journal object and the resolved project root, a text.\<close>

record journal =
  ej_generation :: writer_generation
  ej_root :: string

definition journal_path :: path where
  "journal_path = [''.nexus'', ''events'', ''effect_journal.v1.json'']"

definition check_generation :: "(string \<Rightarrow> string) \<Rightarrow> journal \<Rightarrow> store \<Rightarrow> unit res" where
  "check_generation H j st =
     bindr (read_generation H st) (\<lambda>installed.
     raise_if (installed \<noteq> Some (ej_generation j)) GenerationError ''GENERATION_REQUIRED'')"

definition record_fields :: "string set" where
  "record_fields = {''schema'', ''operation_id'', ''subject'', ''request_digest'', ''generation'', ''project_root'',
     ''effect_id'', ''state'', ''result'', ''result_digest'', ''reason'', ''record_digest''}"

definition nonempty_str :: "pyval \<Rightarrow> bool" where
  "nonempty_str v = (case v of PStr s \<Rightarrow> s \<noteq> [] | _ \<Rightarrow> False)"

definition check_record :: "(string \<Rightarrow> string) \<Rightarrow> journal \<Rightarrow> string \<times> pyval \<Rightarrow> unit res" where
  "check_record H j p =
    (let key = fst p; record = dict_of (snd p) in
     bindr (raise_if (\<not> is_mapping (snd p)) EffectJournalError ''EFFECT_JOURNAL_MALFORMED'') (\<lambda>_.
     bindr (raise_if (\<not> hashable (dget record ''state'')) TypeError
              (''unhashable type: '' @ quoted (type_name (dget record ''state'')))) (\<lambda>_.
     bindr (raise_if (\<not> (\<exists>s \<in> journal_STATES. dget record ''state'' = PStr s)) EffectJournalError
              ''EFFECT_JOURNAL_MALFORMED'') (\<lambda>_.
     bindr (raise_if (set (dkeys record) \<noteq> record_fields \<or> dget record ''schema'' \<noteq> PStr journal_SCHEMA \<or>
                \<not> nonempty_str (dget record ''subject'') \<or> \<not> nonempty_str (dget record ''request_digest'') \<or>
                \<not> (case dget record ''generation'' of
                     PInt n \<Rightarrow> 1 \<le> n \<and> n \<le> wg_generation (ej_generation j) | _ \<Rightarrow> False))
              EffectJournalError ''EFFECT_JOURNAL_MALFORMED'') (\<lambda>_.
     bindr (raise_if (dget record ''effect_id'' \<noteq> PStr key \<or>
                key \<noteq> ''effect-'' @ str_or (dget record ''operation_id'') '''' \<or>
                dget record ''project_root'' \<noteq> PStr (ej_root j))
              EffectJournalError ''EFFECT_JOURNAL_ID_MISMATCH'') (\<lambda>_.
     bindr (if dget record ''state'' = PStr ''COMPLETED''
            then bindr (safe_result (dget record ''result'')) (\<lambda>_.
                 bindr (ej_sha256 H (dget record ''result'')) (\<lambda>h.
                 raise_if (dget record ''result_digest'' \<noteq> PStr h) EffectJournalError ''EFFECT_RESULT_TAMPERED''))
            else raise_if (\<not> is_none (dget record ''result'') \<or> dget record ''result_digest'' \<noteq> PStr '''')
                   EffectJournalError ''EFFECT_JOURNAL_MALFORMED'') (\<lambda>_.
     bindr (digest_record H record) (\<lambda>h.
     raise_if (dget record ''record_digest'' \<noteq> PStr h) EffectJournalError ''EFFECT_JOURNAL_TAMPERED''))))))))"

definition read_locked :: "(string \<Rightarrow> string) \<Rightarrow> journal \<Rightarrow> store \<Rightarrow> dict res" where
  "read_locked H j st =
     (case fs_get st journal_path of
        None \<Rightarrow> Inr [(''schema'', PStr journal_SCHEMA), (''records'', PDict [])]
      | Some BadFile \<Rightarrow> ej_error ''EFFECT_JOURNAL_MALFORMED''
      | Some (JsonFile v) \<Rightarrow>
          bindr (raise_if (\<not> is_mapping v \<or> vget v ''schema'' \<noteq> PStr journal_SCHEMA \<or>
                    \<not> is_mapping (vget v ''records'')) EffectJournalError ''EFFECT_JOURNAL_MALFORMED'') (\<lambda>_.
          bindr (map_res (check_record H j) (dict_of (vget v ''records''))) (\<lambda>_.
          Inr (dict_of v))))"

definition records_of :: "dict \<Rightarrow> dict" where
  "records_of data = dict_of (dget data ''records'')"

text \<open>\<open>data["records"][effect] = record\<close>, and the record under a key as a dictionary.\<close>

definition put_record :: "dict \<Rightarrow> string \<Rightarrow> dict \<Rightarrow> dict" where
  "put_record data eff record = dset ''records'' (PDict (dset eff (PDict record) (records_of data))) data"

definition get_record :: "dict \<Rightarrow> string \<Rightarrow> dict option" where
  "get_record data eff = map_option dict_of (map_of (records_of data) eff)"

definition write_locked :: "store \<Rightarrow> dict \<Rightarrow> store" where
  "write_locked st data = atomic_write st journal_path data"

text \<open>
  \<open>_locked\<close>: the generation check, the read and an action, which may give new data to write.
\<close>

definition ej_locked ::
  "(string \<Rightarrow> string) \<Rightarrow> journal \<Rightarrow> store \<Rightarrow> (dict \<Rightarrow> (dict option \<times> 'a) res) \<Rightarrow> store \<times> 'a res" where
  "ej_locked H j st action =
     (case bindr (check_generation H j st) (\<lambda>_. bindr (read_locked H j st) action) of
        Inl e \<Rightarrow> (st, Inl e)
      | Inr (None, x) \<Rightarrow> (st, Inr x)
      | Inr (Some data, x) \<Rightarrow> (write_locked st data, Inr x))"

text \<open>A record sealed with its digest, and the first record of an effect.\<close>

definition seal :: "(string \<Rightarrow> string) \<Rightarrow> dict \<Rightarrow> dict res" where
  "seal H record = bindr (digest_record H record) (\<lambda>h. Inr (dset ''record_digest'' (PStr h) record))"

definition new_record :: "journal \<Rightarrow> string \<Rightarrow> string \<Rightarrow> string \<Rightarrow> string \<Rightarrow> dict" where
  "new_record j op eff subject request_digest =
     [(''schema'', PStr journal_SCHEMA), (''operation_id'', PStr op), (''subject'', PStr subject),
      (''request_digest'', PStr request_digest), (''generation'', PInt (wg_generation (ej_generation j))),
      (''project_root'', PStr (ej_root j)), (''effect_id'', PStr eff), (''state'', PStr ''PENDING''),
      (''result'', PNone), (''result_digest'', PStr ''''), (''reason'', PStr '''')]"

definition same_binding :: "journal \<Rightarrow> dict \<Rightarrow> string \<Rightarrow> string \<Rightarrow> string \<Rightarrow> bool" where
  "same_binding j old op subject request_digest \<longleftrightarrow>
     dget old ''operation_id'' = PStr op \<and> dget old ''subject'' = PStr subject \<and>
     dget old ''request_digest'' = PStr request_digest \<and>
     py_eq (dget old ''generation'') (PInt (wg_generation (ej_generation j)))"

definition reserve ::
  "(string \<Rightarrow> string) \<Rightarrow> journal \<Rightarrow> store \<Rightarrow> pyval \<Rightarrow> string \<Rightarrow> string \<Rightarrow> store \<times> dict res" where
  "reserve H j st identity subject request_digest =
    (case
       bindr (operation_digest H identity) (\<lambda>op.
       bindr (deterministic_effect_id H identity) (\<lambda>eff.
       bindr (raise_if (subject = [] \<or> request_digest = []) EffectJournalError ''EFFECT_BINDING_REQUIRED'') (\<lambda>_.
       bindr (raise_if (vget identity ''request_digest'' \<noteq> PStr request_digest) EffectIdentityMismatch
                ''EFFECT_REQUEST_DIGEST_MISMATCH'') (\<lambda>_.
       Inr (op, eff))))) of
       Inl e \<Rightarrow> (st, Inl e)
     | Inr (op, eff) \<Rightarrow> ej_locked H j st (\<lambda>data.
         (case get_record data eff of
            Some old \<Rightarrow>
              if \<not> same_binding j old op subject request_digest
              then Inl (EffectIdentityMismatch, ''EFFECT_IDENTITY_MISMATCH'')
              else Inr (None, old)
          | None \<Rightarrow>
              bindr (seal H (new_record j op eff subject request_digest)) (\<lambda>record.
              Inr (Some (put_record data eff record), record)))))"

definition ej_get :: "(string \<Rightarrow> string) \<Rightarrow> journal \<Rightarrow> store \<Rightarrow> string \<Rightarrow> dict option res" where
  "ej_get H j st effect_id =
    (if effect_id = [] then ej_error ''EFFECT_ID_REQUIRED''
     else snd (ej_locked H j st (\<lambda>data. Inr (None, get_record data effect_id))))"

definition unresolved_for_subject :: "(string \<Rightarrow> string) \<Rightarrow> journal \<Rightarrow> store \<Rightarrow> string \<Rightarrow> dict list res" where
  "unresolved_for_subject H j st subject =
    (if subject = [] then ej_error ''EFFECT_BINDING_REQUIRED''
     else snd (ej_locked H j st (\<lambda>data. Inr (None,
       filter (\<lambda>r. dget r ''subject'' = PStr subject \<and> dget r ''state'' \<noteq> PStr ''COMPLETED'')
         (map (\<lambda>p. dict_of (snd p)) (records_of data))))))"

definition transition ::
  "(string \<Rightarrow> string) \<Rightarrow> journal \<Rightarrow> store \<Rightarrow> string \<Rightarrow> string \<Rightarrow> pyval \<Rightarrow> string \<Rightarrow> store \<times> dict res" where
  "transition H j st effect_id state result reason =
    (if state \<notin> journal_STATES then (st, ej_error ''EFFECT_STATE_INVALID'')
     else ej_locked H j st (\<lambda>data.
       (case get_record data effect_id of
          None \<Rightarrow> ej_error ''EFFECT_NOT_RESERVED''
        | Some old \<Rightarrow>
            if dget old ''state'' = PStr ''COMPLETED''
            then bindr (raise_if (state \<noteq> ''COMPLETED'') EffectIdentityMismatch ''EFFECT_COMPLETED_IMMUTABLE'') (\<lambda>_.
                 bindr (if is_none result then Inr ()
                        else bindr (safe_result result) (\<lambda>r.
                          raise_if (\<not> py_eq r (dget old ''result'')) EffectIdentityMismatch
                            ''EFFECT_COMPLETED_CONFLICT'')) (\<lambda>_.
                 Inr (None, old)))
            else bindr (if state = ''COMPLETED''
                        then bindr (safe_result result) (\<lambda>_. bindr (ej_sha256 H result) (\<lambda>h.
                             Inr (dset ''result_digest'' (PStr h) (dset ''result'' result old))))
                        else Inr old) (\<lambda>old'.
                 bindr (seal H (dset ''reason'' (PStr reason) (dset ''state'' (PStr state) old'))) (\<lambda>record.
                 Inr (Some (put_record data effect_id record), record))))))"

text \<open>A record resolved by an observation: completed with its result, or unknown.\<close>

definition completed_record :: "(string \<Rightarrow> string) \<Rightarrow> dict \<Rightarrow> pyval \<Rightarrow> dict res" where
  "completed_record H record result =
     bindr (ej_sha256 H result) (\<lambda>h.
     seal H (dset ''reason'' (PStr '''') (dset ''result_digest'' (PStr h)
       (dset ''result'' result (dset ''state'' (PStr ''COMPLETED'') record)))))"

definition unknown_record :: "(string \<Rightarrow> string) \<Rightarrow> dict \<Rightarrow> string \<Rightarrow> dict res" where
  "unknown_record H record reason =
     seal H (dset ''reason'' (PStr reason) (dset ''state'' (PStr ''UNKNOWN'') record))"

definition reconcile ::
  "(string \<Rightarrow> string) \<Rightarrow> journal \<Rightarrow> store \<Rightarrow> string \<Rightarrow> pyval \<Rightarrow> store \<times> pyval res" where
  "reconcile H j st effect_id observed =
     ej_locked H j st (\<lambda>data.
       (case get_record data effect_id of
          None \<Rightarrow> ej_error ''EFFECT_NOT_RESERVED''
        | Some record \<Rightarrow>
            if dget record ''state'' = PStr ''COMPLETED''
            then bindr (observed_result record observed) (\<lambda>result.
                 bindr (ej_sha256 H result) (\<lambda>h.
                 bindr (raise_if (dget record ''result_digest'' \<noteq> PStr h) EffectIdentityMismatch
                          ''EFFECT_COMPLETED_CONFLICT'') (\<lambda>_.
                 Inr (None, result))))
            else (case observed_result record observed of
                Inl e \<Rightarrow>
                  bindr (unknown_record H record (''reconcile_failed:'' @ exc_name (fst e))) (\<lambda>r.
                  Inr (Some (put_record data effect_id r), PNone))
              | Inr result \<Rightarrow>
                  bindr (completed_record H record result) (\<lambda>r.
                  Inr (Some (put_record data effect_id r), result)))))"

text \<open>
  A callback of \<open>execute\<close> is called with the store and leaves a store, returning or raising. The outcome of
  \<open>execute\<close>: the store after each write and after each callback, in order, whether the operation was
  dispatched, and the result. \<open>except BaseException\<close> records any exception of the operation and raises it
  again.
\<close>

type_synonym callback = "store \<Rightarrow> store \<times> pyval res"

record exec_outcome =
  eo_stores :: "store list"
  eo_dispatched :: bool
  eo_result :: "pyval res"

definition final_store :: "store \<Rightarrow> exec_outcome \<Rightarrow> store" where
  "final_store st r = (if eo_stores r = [] then st else last (eo_stores r))"

definition no_write :: "pyval res \<Rightarrow> exec_outcome" where
  "no_write r = \<lparr> eo_stores = [], eo_dispatched = False, eo_result = r \<rparr>"

text \<open>
  An effect that already has a record is never dispatched, only resolved. The document that is written is the
  one read before the callback was called.
\<close>

definition resolve_existing ::
  "(string \<Rightarrow> string) \<Rightarrow> store \<Rightarrow> dict \<Rightarrow> string \<Rightarrow> dict \<Rightarrow> (dict \<Rightarrow> callback) option \<Rightarrow> exec_outcome" where
  "resolve_existing H st data eff existing reconcile_port =
    (if dget existing ''state'' = PStr ''COMPLETED'' then no_write (Inr (dget existing ''result''))
     else
     (case (case reconcile_port of None \<Rightarrow> (st, Inr PNone) | Some port \<Rightarrow> port existing st) of (st1, answer) \<Rightarrow>
      case
       bindr answer (\<lambda>observed.
       bindr (raise_if (is_none observed) EffectJournalError ''EFFECT_RECONCILE_UNAVAILABLE'') (\<lambda>_.
       observed_result existing observed)) of
         Inl e \<Rightarrow>
           (case unknown_record H existing (''reconcile_failed:'' @ exc_name (fst e)) of
              Inl e' \<Rightarrow> \<lparr> eo_stores = [st1], eo_dispatched = False, eo_result = Inl e' \<rparr>
            | Inr r \<Rightarrow> \<lparr> eo_stores = [st1, write_locked st1 (put_record data eff r)], eo_dispatched = False,
                        eo_result = Inr PNone \<rparr>)
       | Inr result \<Rightarrow>
           (case completed_record H existing result of
              Inl e' \<Rightarrow> \<lparr> eo_stores = [st1], eo_dispatched = False, eo_result = Inl e' \<rparr>
            | Inr r \<Rightarrow> \<lparr> eo_stores = [st1, write_locked st1 (put_record data eff r)], eo_dispatched = False,
                        eo_result = Inr result \<rparr>)))"

text \<open>
  A new effect is durably PENDING, then DISPATCHED, before the operation is called; what is written after it
  is again the document read before.
\<close>

definition start_effect ::
  "(string \<Rightarrow> string) \<Rightarrow> store \<Rightarrow> dict \<Rightarrow> string \<Rightarrow> dict \<Rightarrow> callback \<Rightarrow> exec_outcome" where
  "start_effect H st data eff fresh dispatch =
    (case bindr (seal H fresh) (\<lambda>pending.
          bindr (seal H (dset ''state'' (PStr ''DISPATCHED'') pending)) (\<lambda>dispatched.
          Inr (pending, dispatched))) of
       Inl e \<Rightarrow> no_write (Inl e)
     | Inr (pending, dispatched) \<Rightarrow>
        (let st1 = write_locked st (put_record data eff pending);
             data2 = put_record (put_record data eff pending) eff dispatched;
             st2 = write_locked st1 data2 in
         case dispatch st2 of (st3, answer) \<Rightarrow>
         case bindr answer (\<lambda>result. bindr (safe_result result) (\<lambda>_. Inr result)) of
           Inl e \<Rightarrow>
             (case unknown_record H dispatched (''dispatch_uncertain:'' @ exc_name (fst e)) of
                Inl e' \<Rightarrow> \<lparr> eo_stores = [st1, st2, st3], eo_dispatched = True, eo_result = Inl e' \<rparr>
              | Inr r \<Rightarrow> \<lparr> eo_stores = [st1, st2, st3, write_locked st3 (put_record data2 eff r)],
                          eo_dispatched = True, eo_result = Inl e \<rparr>)
         | Inr result \<Rightarrow>
             (case completed_record H dispatched result of
                Inl e' \<Rightarrow> \<lparr> eo_stores = [st1, st2, st3], eo_dispatched = True, eo_result = Inl e' \<rparr>
              | Inr r \<Rightarrow> \<lparr> eo_stores = [st1, st2, st3, write_locked st3 (put_record data2 eff r)],
                          eo_dispatched = True, eo_result = Inr result \<rparr>)))"

definition execute ::
  "(string \<Rightarrow> string) \<Rightarrow> journal \<Rightarrow> store \<Rightarrow> pyval \<Rightarrow> string \<Rightarrow> string \<Rightarrow> callback \<Rightarrow>
   (dict \<Rightarrow> callback) option \<Rightarrow> exec_outcome" where
  "execute H j st identity subject request_digest dispatch reconcile_port =
    (case
       bindr (deterministic_effect_id H identity) (\<lambda>eff.
       bindr (operation_digest H identity) (\<lambda>op.
       bindr (raise_if (vget identity ''request_digest'' \<noteq> PStr request_digest) EffectIdentityMismatch
                ''EFFECT_REQUEST_DIGEST_MISMATCH'') (\<lambda>_.
       bindr (check_generation H j st) (\<lambda>_.
       bindr (read_locked H j st) (\<lambda>data. Inr (eff, op, data)))))) of
       Inl e \<Rightarrow> no_write (Inl e)
     | Inr (eff, op, data) \<Rightarrow>
        (case get_record data eff of
           Some existing \<Rightarrow>
             if \<not> same_binding j existing op subject request_digest
             then no_write (Inl (EffectIdentityMismatch, ''EFFECT_IDENTITY_MISMATCH''))
             else resolve_existing H st data eff existing reconcile_port
         | None \<Rightarrow>
             if subject = [] \<or> request_digest = [] then no_write (ej_error ''EFFECT_BINDING_REQUIRED'')
             else start_effect H st data eff (new_record j op eff subject request_digest) dispatch))"

section \<open>Lemmas\<close>

subsection \<open>Records in the store\<close>

definition raw_record :: "store \<Rightarrow> string \<Rightarrow> pyval option" where
  "raw_record st eff =
     (case fs_get st journal_path of Some (JsonFile v) \<Rightarrow> map_of (dict_of (vget v ''records'')) eff | _ \<Rightarrow> None)"

definition completed :: "pyval \<Rightarrow> bool" where
  "completed v \<longleftrightarrow> vget v ''state'' = PStr ''COMPLETED''"

text \<open>A write of one effect's record: every other record stays the same document.\<close>

definition written :: "store \<Rightarrow> store \<Rightarrow> string \<Rightarrow> dict \<Rightarrow> bool" where
  "written st st' eff record \<longleftrightarrow>
     (\<forall>k. raw_record st' k = (if k = eff then Some (json_norm (PDict record)) else map_option json_norm (raw_record st k)))"

lemma records_of_put [simp]: "records_of (put_record data eff r) = dset eff (PDict r) (records_of data)"
  by (simp add: records_of_def put_record_def)

lemma raw_write:
  "raw_record (write_locked st (put_record data eff r)) k =
     (if k = eff then Some (json_norm (PDict r)) else map_option json_norm (map_of (records_of data) k))"
proof -
  have "dget (put_record data eff r) ''records'' = PDict (dset eff (PDict r) (records_of data))"
    by (simp add: put_record_def)
  then show ?thesis
    by (simp add: raw_record_def write_locked_def vget_json_norm map_of_json_norm del: json_norm.simps)
qed

lemma read_locked_records: "read_locked H j st = Inr data \<Longrightarrow> map_of (records_of data) k = raw_record st k"
  by (auto simp: read_locked_def raw_record_def records_of_def vget_def dget_def bindr_eq_Inr
      split: option.splits doc_file.splits)

lemma written_put: "read_locked H j st = Inr data \<Longrightarrow> written st (write_locked st' (put_record data eff r)) eff r"
  by (simp add: written_def raw_write read_locked_records)

lemma written_put_again:
  "read_locked H j st = Inr data \<Longrightarrow> written st (write_locked st' (put_record (put_record data eff r) eff r')) eff r'"
  by (simp add: written_def raw_write read_locked_records)

lemma written_put_third:
  "read_locked H j st = Inr data \<Longrightarrow>
     written st (write_locked st' (put_record (put_record (put_record data eff r) eff r') eff r'')) eff r''"
  by (simp add: written_def raw_write read_locked_records)

lemma get_record_None: "read_locked H j st = Inr data \<Longrightarrow> get_record data eff = None \<longleftrightarrow> raw_record st eff = None"
  by (simp add: get_record_def read_locked_records)

lemma get_record_Some:
  "read_locked H j st = Inr data \<Longrightarrow> get_record data eff = Some r \<Longrightarrow>
     \<exists>v. raw_record st eff = Some v \<and> r = dict_of v"
  by (auto simp: get_record_def read_locked_records)

text \<open>Records are never removed and a completed record never changes.\<close>

definition journal_extends :: "store \<Rightarrow> store \<Rightarrow> bool" where
  "journal_extends st st' \<longleftrightarrow>
     (\<forall>k v. raw_record st k = Some v \<longrightarrow>
        (\<exists>v'. raw_record st' k = Some v' \<and> (completed v \<longrightarrow> json_norm v' = json_norm v)))"

lemma completed_norm: "completed v \<Longrightarrow> json_norm v' = json_norm v \<Longrightarrow> completed v'"
proof -
  assume c: "completed v" and n: "json_norm v' = json_norm v"
  from c obtain d where d: "v = PDict d" by (cases v) (auto simp: completed_def vget_def dget_def)
  with n obtain d' where d': "v' = PDict d'" by (cases v') auto
  have "json_norm (dget d' ''state'') = json_norm (dget d ''state'')"
    using n unfolding d d' by (metis dget_json_norm)
  with c show "completed v'" by (simp add: completed_def d d' vget_def)
qed

lemma journal_extends_refl [simp]: "journal_extends st st"
  by (auto simp: journal_extends_def)

lemma journal_extends_trans: "journal_extends a b \<Longrightarrow> journal_extends b c \<Longrightarrow> journal_extends a c"
  unfolding journal_extends_def by (metis completed_norm)

lemma written_extends:
  assumes "written st st' eff r" and "\<And>v. raw_record st eff = Some v \<Longrightarrow> \<not> completed v"
  shows "journal_extends st st'"
  using assms by (auto simp: journal_extends_def written_def)

lemma written_present: "written st st' eff r \<Longrightarrow> raw_record st' eff \<noteq> None"
  by (simp add: written_def)

subsection \<open>Operations\<close>

lemma ej_locked_store:
  assumes "ej_locked H j st action = (st', x)"
  shows "st' = st \<or> (\<exists>data d y. check_generation H j st = Inr () \<and> read_locked H j st = Inr data \<and>
           action data = Inr (Some d, y) \<and> st' = write_locked st d)"
  using assms by (auto simp: ej_locked_def bindr_eq_Inr split: sum.splits option.splits prod.splits)

lemma open_record:
  assumes "read_locked H j st = Inr data"
    and "case get_record data eff of None \<Rightarrow> True | Some r \<Rightarrow> dget r ''state'' \<noteq> PStr ''COMPLETED''"
  shows "raw_record st eff = Some v \<Longrightarrow> \<not> completed v"
  using assms by (simp add: get_record_def read_locked_records completed_def vget_def)

text \<open>A write to an effect that has no completed record; an operation makes at most one at a time.\<close>

definition open_write :: "store \<Rightarrow> store \<Rightarrow> string \<Rightarrow> bool" where
  "open_write st st' eff \<longleftrightarrow> (\<exists>r. written st st' eff r) \<and> (\<forall>v. raw_record st eff = Some v \<longrightarrow> \<not> completed v)"

definition same_records :: "store \<Rightarrow> store \<Rightarrow> bool" where
  "same_records st st' \<longleftrightarrow> (\<forall>k. raw_record st' k = raw_record st k)"

definition journal_change :: "store \<Rightarrow> store \<Rightarrow> bool" where
  "journal_change st st' \<longleftrightarrow> same_records st st' \<or> (\<exists>eff. open_write st st' eff)"

lemma same_records_refl [simp]: "same_records st st"
  by (simp add: same_records_def)

lemma same_records_extends: "same_records st st' \<Longrightarrow> journal_extends st st'"
  by (simp add: same_records_def journal_extends_def)

lemma open_write_extends: "open_write st st' eff \<Longrightarrow> journal_extends st st'"
  by (auto simp: open_write_def intro: written_extends)

lemma journal_change_extends: "journal_change st st' \<Longrightarrow> journal_extends st st'"
  by (auto simp: journal_change_def open_write_extends same_records_extends)

lemma put_change:
  assumes "read_locked H j st = Inr data"
    and "case get_record data eff of None \<Rightarrow> True | Some r \<Rightarrow> dget r ''state'' \<noteq> PStr ''COMPLETED''"
  shows "journal_change st (write_locked st (put_record data eff r))"
  using written_put [OF assms(1), of st eff r] open_record [OF assms] unfolding journal_change_def open_write_def by metis

lemma journal_change_refl [simp]: "journal_change st st"
  by (simp add: journal_change_def)

lemma reserve_change: "reserve H j st i s d = (st', x) \<Longrightarrow> journal_change st st'"
  unfolding reserve_def
  by (auto simp: bindr_eq_Inr split: sum.splits option.splits if_splits
      dest!: ej_locked_store intro!: put_change)

lemma transition_change: "transition H j st eff state result reason = (st', x) \<Longrightarrow> journal_change st st'"
  unfolding transition_def
  by (auto simp: bindr_eq_Inr split: sum.splits option.splits if_splits
      dest!: ej_locked_store intro!: put_change)

lemma reconcile_change: "reconcile H j st eff observed = (st', x) \<Longrightarrow> journal_change st st'"
  unfolding reconcile_def
  by (auto simp: bindr_eq_Inr split: sum.splits option.splits if_splits
      dest!: ej_locked_store intro!: put_change)

subsection \<open>Execution\<close>

text \<open>The cases of \<open>execute\<close>.\<close>

lemma execute_cases:
  obtains (raised) e where "execute H j st i s d opn port = no_write (Inl e)"
  | (existing) eff op data old where "deterministic_effect_id H i = Inr eff" and "operation_digest H i = Inr op"
      and "check_generation H j st = Inr ()" and "read_locked H j st = Inr data" and "get_record data eff = Some old"
      and "same_binding j old op s d"
      and "execute H j st i s d opn port = resolve_existing H st data eff old port"
  | (fresh) eff op data where "deterministic_effect_id H i = Inr eff" and "operation_digest H i = Inr op"
      and "check_generation H j st = Inr ()" and "read_locked H j st = Inr data" and "get_record data eff = None"
      and "s \<noteq> []" and "d \<noteq> []" and "vget i ''request_digest'' = PStr d"
      and "execute H j st i s d opn port = start_effect H st data eff (new_record j op eff s d) opn"
proof (cases "bindr (deterministic_effect_id H i) (\<lambda>eff. bindr (operation_digest H i) (\<lambda>op.
    bindr (raise_if (vget i ''request_digest'' \<noteq> PStr d) EffectIdentityMismatch ''EFFECT_REQUEST_DIGEST_MISMATCH'') (\<lambda>_.
    bindr (check_generation H j st) (\<lambda>_. bindr (read_locked H j st) (\<lambda>data. Inr (eff, op, data))))))")
  case (Inl e)
  then show ?thesis by (intro raised [of e]) (simp add: execute_def)
next
  case (Inr x)
  then obtain eff op data where x: "x = (eff, op, data)" and pre: "deterministic_effect_id H i = Inr eff"
    "operation_digest H i = Inr op" "vget i ''request_digest'' = PStr d"
    "check_generation H j st = Inr ()" "read_locked H j st = Inr data"
    by (auto simp: bindr_eq_Inr raise_if_eq_Inr)
  note ex = execute_def [of H j st i s d opn port, unfolded Inr x, simplified]
  show ?thesis
  proof (cases "get_record data eff")
    case None
    show ?thesis
    proof (cases "s = [] \<or> d = []")
      case True
      with None ex show ?thesis by (intro raised) auto
    next
      case False
      with None ex pre show ?thesis by (intro fresh) auto
    qed
  next
    case (Some old)
    show ?thesis
    proof (cases "same_binding j old op s d")
      case True
      with Some ex pre show ?thesis by (intro existing) auto
    next
      case False
      with Some ex show ?thesis by (intro raised) auto
    qed
  qed
qed

text \<open>
  A callback that does not write the journal. It may read it, change anything else and raise; one that writes
  the journal has its writes overwritten (\<open>nested_record_erased\<close>).
\<close>

definition leaves_journal :: "callback \<Rightarrow> bool" where
  "leaves_journal f \<longleftrightarrow> (\<forall>t. fs_get (fst (f t)) journal_path = fs_get t journal_path)"

definition port_leaves_journal :: "(dict \<Rightarrow> callback) option \<Rightarrow> bool" where
  "port_leaves_journal port \<longleftrightarrow> (\<forall>f record. port = Some f \<longrightarrow> leaves_journal (f record))"

lemma leaves_journalD: "leaves_journal f \<Longrightarrow> f t = (t', x) \<Longrightarrow> fs_get t' journal_path = fs_get t journal_path"
  by (metis fst_conv leaves_journal_def)

lemma port_leaves_journalD:
  assumes "port_leaves_journal port" and "(case port of None \<Rightarrow> (st, y) | Some f \<Rightarrow> f old st) = (t, x)"
  shows "fs_get t journal_path = fs_get st journal_path"
proof (cases port)
  case (Some f)
  with assms show ?thesis by (intro leaves_journalD [of "f old"]) (auto simp: port_leaves_journal_def)
qed (use assms in simp)

lemma raw_record_cong: "fs_get t' journal_path = fs_get t journal_path \<Longrightarrow> raw_record t' k = raw_record t k"
  by (simp add: raw_record_def)

lemma resolve_existing_stores:
  assumes "t \<in> set (eo_stores (resolve_existing H st data eff old port))" and "port_leaves_journal port"
  shows "dget old ''state'' \<noteq> PStr ''COMPLETED'' \<and>
    (same_records st t \<or> (\<exists>st' r. t = write_locked st' (put_record data eff r)))"
proof -
  obtain st1 x where p: "(case port of None \<Rightarrow> (st, Inr PNone) | Some f \<Rightarrow> f old st) = (st1, x)" by fastforce
  have "same_records st st1" unfolding same_records_def using raw_record_cong [OF port_leaves_journalD [OF assms(2) p]] by blast
  with assms(1) p show ?thesis by (auto simp: resolve_existing_def no_write_def split: if_splits sum.splits)
qed

lemma resolve_existing_not_dispatched [simp]: "\<not> eo_dispatched (resolve_existing H st data eff old port)"
  by (auto simp: resolve_existing_def no_write_def split: sum.splits prod.splits)

lemma start_effect_stores:
  assumes "read_locked H j st = Inr data" and "t \<in> set (eo_stores (start_effect H st data eff fresh opn))"
    and "leaves_journal opn"
  shows "\<exists>r. written st t eff r"
proof -
  note put = written_put [OF assms(1)] written_put_again [OF assms(1)] written_put_third [OF assms(1)]
  have called: "\<exists>r. written st t3 eff r" if "opn (write_locked u (put_record (put_record data eff a) eff b)) = (t3, x)" for u a b t3 x
    using put(2) [of u eff a b] raw_record_cong [OF leaves_journalD [OF assms(3) that]] unfolding written_def by metis
  show ?thesis
    using assms(2) by (auto simp: start_effect_def no_write_def Let_def split: sum.splits prod.splits intro: put called)
qed

lemma start_effect_dispatched:
  "eo_dispatched (start_effect H st data eff fresh opn) \<Longrightarrow> 3 \<le> length (eo_stores (start_effect H st data eff fresh opn))"
  by (auto simp: start_effect_def no_write_def Let_def split: sum.splits prod.splits)

lemma execute_stores:
  assumes "t \<in> set (eo_stores (execute H j st i s d opn port))" and "leaves_journal opn" and "port_leaves_journal port"
  shows "\<exists>eff. deterministic_effect_id H i = Inr eff \<and> (same_records st t \<or> open_write st t eff)"
proof (cases rule: execute_cases [of H j st i s d opn port])
  case (raised e)
  with assms show ?thesis by (simp add: no_write_def)
next
  case (existing eff op data old)
  with assms resolve_existing_stores [of t H st data eff old port] consider "same_records st t"
    | st' r where "dget old ''state'' \<noteq> PStr ''COMPLETED''" "t = write_locked st' (put_record data eff r)" by auto
  then show ?thesis
  proof cases
    case (2 st' r)
    then show ?thesis
      using existing written_put [OF existing(4), of st' eff r] open_record [OF existing(4), of eff]
      by (auto simp: open_write_def)
  qed (use existing(1) in auto)
next
  case (fresh eff op data)
  with assms start_effect_stores [OF fresh(4) _ assms(2)] obtain r where w: "written st t eff r" by metis
  moreover have "raw_record st eff = None" using fresh(4,5) get_record_None by blast
  ultimately show ?thesis using fresh(1) by (auto simp: open_write_def)
qed

lemma execute_dispatched:
  assumes "eo_dispatched (execute H j st i s d opn port)" and "deterministic_effect_id H i = Inr eff"
    and "leaves_journal opn"
  shows "raw_record st eff = None \<and> 3 \<le> length (eo_stores (execute H j st i s d opn port)) \<and>
    read_generation H st = Inr (Some (ej_generation j)) \<and>
    (\<forall>t \<in> set (eo_stores (execute H j st i s d opn port)). \<exists>r. written st t eff r)"
proof (cases rule: execute_cases [of H j st i s d opn port])
  case (raised e)
  with assms show ?thesis by (simp add: no_write_def)
next
  case (existing eff op data old)
  with assms show ?thesis by simp
next
  case (fresh eff' op data)
  then have e: "eff' = eff" using assms(2) by simp
  have "\<forall>t \<in> set (eo_stores (execute H j st i s d opn port)). \<exists>r. written st t eff r"
    using start_effect_stores [OF fresh(4) _ assms(3)] fresh(9) e by metis
  moreover have "raw_record st eff = None" using fresh(4,5) get_record_None e by blast
  moreover have "read_generation H st = Inr (Some (ej_generation j))"
    using fresh(3) by (auto simp: check_generation_def bindr_eq_Inr raise_if_eq_Inr)
  ultimately show ?thesis using start_effect_dispatched assms(1) fresh(9) by metis
qed

section \<open>Sessions\<close>

text \<open>
  A session of any number of writers on one project: journal operations and takeovers in any order,
  a crash after any write of \<open>execute\<close>, and a restart after it. The callbacks of an execution may do anything
  but write the journal: they run under the lock of the project, but their thread may enter it again. The
  second component is the list of the effects whose operation may have been called; an execution that crashes
  right after its DISPATCHED write counts as a call.
\<close>

inductive ej_step :: "(string \<Rightarrow> string) \<Rightarrow> store \<times> string list \<Rightarrow> store \<times> string list \<Rightarrow> bool" for H where
  ej_reserve: "reserve H j st i s d = (st', x) \<Longrightarrow> ej_step H (st, calls) (st', calls)"
| ej_transition: "transition H j st eff state result reason = (st', x) \<Longrightarrow> ej_step H (st, calls) (st', calls)"
| ej_reconcile: "reconcile H j st eff observed = (st', y) \<Longrightarrow> ej_step H (st, calls) (st', calls)"
| ej_install: "install_generation H st g expected = (st', z) \<Longrightarrow> ej_step H (st, calls) (st', calls)"
| ej_execute: "r = execute H j st i s d opn port \<Longrightarrow> n \<le> length (eo_stores r) \<Longrightarrow>
    deterministic_effect_id H i = Inr eff \<Longrightarrow> leaves_journal opn \<Longrightarrow> port_leaves_journal port \<Longrightarrow>
    ej_step H (st, calls) ((st # eo_stores r) ! n, (if eo_dispatched r \<and> 2 \<le> n then eff # calls else calls))"

inductive_cases ej_stepE: "ej_step H c c'"

text \<open>The state of a session against its start: nothing recorded is lost, and what was called is recorded.\<close>

definition session_inv :: "store \<Rightarrow> store \<times> string list \<Rightarrow> bool" where
  "session_inv st0 c \<longleftrightarrow> journal_extends st0 (fst c) \<and> distinct (snd c) \<and>
     (\<forall>e \<in> set (snd c). raw_record (fst c) e \<noteq> None \<and> raw_record st0 e = None)"

lemma journal_extends_present: "journal_extends st st' \<Longrightarrow> raw_record st k \<noteq> None \<Longrightarrow> raw_record st' k \<noteq> None"
  by (auto simp: journal_extends_def)

lemma session_inv_extends:
  assumes "session_inv st0 (st, calls)" and "journal_extends st st'"
  shows "session_inv st0 (st', calls)"
  using assms journal_extends_trans [of st0 st st'] journal_extends_present [of st st']
  by (auto simp: session_inv_def)

lemma install_journal_file: "install_generation H st g expected = (st', z) \<Longrightarrow> fs_get st' journal_path = fs_get st journal_path"
proof (cases z)
  case (Inr g')
  moreover assume "install_generation H st g expected = (st', z)"
  ultimately show ?thesis by (auto simp: install_eq_Inr manifest_path_def journal_path_def)
qed (auto simp: install_generation_def split: sum.splits)

lemma install_raw_record: "install_generation H st g expected = (st', z) \<Longrightarrow> raw_record st' k = raw_record st k"
  by (rule raw_record_cong [OF install_journal_file])

lemma install_extends: "install_generation H st g expected = (st', z) \<Longrightarrow> journal_extends st st'"
  by (simp add: journal_extends_def install_raw_record)

lemma execute_extends:
  assumes "n \<le> length (eo_stores (execute H j st i s d opn port))" and "leaves_journal opn" and "port_leaves_journal port"
  shows "journal_extends st ((st # eo_stores (execute H j st i s d opn port)) ! n)"
proof (cases n)
  case (Suc m)
  with assms have "(st # eo_stores (execute H j st i s d opn port)) ! n \<in> set (eo_stores (execute H j st i s d opn port))"
    by simp
  then show ?thesis using execute_stores [OF _ assms(2,3)] open_write_extends same_records_extends by blast
qed simp

lemma session_inv_step:
  assumes "ej_step H c c'" and "session_inv st0 c"
  shows "session_inv st0 c'"
  using assms
proof (cases rule: ej_step.cases)
  case (ej_execute r j st i s d opn port n eff calls)
  let ?t = "(st # eo_stores r) ! n"
  have ext: "journal_extends st ?t" using ej_execute execute_extends by simp
  with ej_execute assms(2) have base: "session_inv st0 (?t, calls)" by (simp add: session_inv_extends)
  show ?thesis
  proof (cases "eo_dispatched r \<and> 2 \<le> n")
    case True
    with ej_execute execute_dispatched [of H j st i s d opn port eff]
    have new: "raw_record st eff = None" "\<forall>t \<in> set (eo_stores r). raw_record t eff \<noteq> None"
      using written_present by auto
    moreover have "?t \<in> set (eo_stores r)" using True ej_execute(4) by (cases n) auto
    moreover have "eff \<notin> set calls" "raw_record st0 eff = None"
      using new(1) assms(2) ej_execute(1) unfolding session_inv_def by (auto dest: journal_extends_present)
    ultimately show ?thesis using base True ej_execute(2) by (auto simp: session_inv_def)
  next
    case False
    then have "c' = (?t, calls)" using ej_execute(2) by simp
    with base show ?thesis by simp
  qed
qed (use assms(2) session_inv_extends journal_change_extends reserve_change transition_change reconcile_change
    install_extends in metis)+

lemma session_inv_reachable:
  assumes "(ej_step H)\<^sup>*\<^sup>* (st0, []) c"
  shows "session_inv st0 c"
  using assms
proof (induction rule: rtranclp_induct)
  case base
  show ?case by (simp add: session_inv_def)
next
  case (step c c')
  then show ?case by (simp add: session_inv_step)
qed

section \<open>The ledger: an abstract specification\<close>

text \<open>
  What the journal promises its clients: an effect is unknown, open, or done with a result; an
  unknown effect is opened, or called exactly when it is opened, and an open one is resolved.
\<close>

datatype effect_status = Open | Done pyval

type_synonym ledger = "string \<Rightarrow> effect_status option"

inductive ledger_step :: "ledger \<times> string list \<Rightarrow> ledger \<times> string list \<Rightarrow> bool" where
  ledger_skip: "ledger_step (m, calls) (m, calls)"
| ledger_open: "m e = None \<Longrightarrow> ledger_step (m, calls) (m(e \<mapsto> s), calls)"
| ledger_call: "m e = None \<Longrightarrow> ledger_step (m, calls) (m(e \<mapsto> s), e # calls)"
| ledger_resolve: "m e = Some Open \<Longrightarrow> ledger_step (m, calls) (m(e \<mapsto> s), calls)"

definition status_of :: "pyval \<Rightarrow> effect_status" where
  "status_of v = (if completed v then Done (json_norm (vget v ''result'')) else Open)"

definition ledger_of :: "store \<Rightarrow> ledger" where
  "ledger_of st e = map_option status_of (raw_record st e)"

lemma completed_json_norm [simp]: "completed (json_norm v) \<longleftrightarrow> completed v"
  by (metis completed_norm json_norm_idem)

lemma status_of_norm [simp]: "status_of (json_norm v) = status_of v"
proof (cases v)
  case (PDict d)
  show ?thesis unfolding status_of_def completed_json_norm unfolding PDict vget_json_norm by (simp add: vget_def)
qed (simp_all add: status_of_def completed_def vget_def dget_def)

lemma ledger_written: "written st st' eff r \<Longrightarrow> ledger_of st' = (ledger_of st)(eff \<mapsto> status_of (PDict r))"
proof
  fix k
  assume "written st st' eff r"
  then have "raw_record st' k = (if k = eff then Some (json_norm (PDict r)) else map_option json_norm (raw_record st k))"
    by (simp add: written_def)
  then show "ledger_of st' k = ((ledger_of st)(eff \<mapsto> status_of (PDict r))) k"
    by (simp add: ledger_of_def option.map_comp comp_def del: json_norm.simps)
qed

lemma ledger_open_write:
  assumes "open_write st st' eff"
  shows "ledger_step (ledger_of st, calls) (ledger_of st', calls)"
proof -
  from assms obtain r where r: "ledger_of st' = (ledger_of st)(eff \<mapsto> status_of (PDict r))"
    by (auto simp: open_write_def dest: ledger_written)
  show ?thesis
  proof (cases "raw_record st eff")
    case None
    then show ?thesis unfolding r by (intro ledger_open) (simp add: ledger_of_def)
  next
    case (Some v)
    with assms have "ledger_of st eff = Some Open" by (auto simp: ledger_of_def open_write_def status_of_def)
    then show ?thesis unfolding r by (rule ledger_resolve)
  qed
qed

lemma ledger_same: "same_records st st' \<Longrightarrow> ledger_of st' = ledger_of st"
  by (auto simp: same_records_def ledger_of_def)

lemma ledger_change: "journal_change st st' \<Longrightarrow> ledger_step (ledger_of st, calls) (ledger_of st', calls)"
  by (auto simp: journal_change_def ledger_same intro: ledger_open_write ledger_skip)

lemma ledger_execute:
  assumes "r = execute H j st i s d opn port" and "n \<le> length (eo_stores r)" and "deterministic_effect_id H i = Inr eff"
    and "leaves_journal opn" and "port_leaves_journal port"
  shows "ledger_step (ledger_of st, calls)
    (ledger_of ((st # eo_stores r) ! n), (if eo_dispatched r \<and> 2 \<le> n then eff # calls else calls))"
proof (cases n)
  case 0
  then show ?thesis by (simp add: ledger_skip)
next
  case (Suc m)
  then have t: "(st # eo_stores r) ! n \<in> set (eo_stores r)" using assms(2) by simp
  show ?thesis
  proof (cases "eo_dispatched r \<and> 2 \<le> n")
    case True
    then have d: "raw_record st eff = None" "\<forall>t \<in> set (eo_stores r). \<exists>x. written st t eff x"
      using execute_dispatched [of H j st i s d opn port eff] assms(1,3,4) by simp_all
    then obtain x where x: "ledger_of ((st # eo_stores r) ! n) = (ledger_of st)(eff \<mapsto> status_of (PDict x))"
      using t ledger_written by blast
    have "ledger_of st eff = None" using d(1) by (simp add: ledger_of_def)
    with x True show ?thesis by (simp add: ledger_call)
  next
    case False
    then have "(if eo_dispatched r \<and> 2 \<le> n then eff # calls else calls) = calls" by simp
    moreover have "journal_change st ((st # eo_stores r) ! n)"
      using execute_stores [OF _ assms(4,5)] t assms(1) unfolding journal_change_def by blast
    ultimately show ?thesis using ledger_change by simp
  qed
qed

lemma ledger_of_install: "install_generation H st g expected = (st', z) \<Longrightarrow> ledger_of st' = ledger_of st"
  by (auto simp: ledger_of_def install_raw_record)

section \<open>Replay\<close>

lemma dict_of_norm_Nil: "dict_of (json_norm v) = [] \<longleftrightarrow> dict_of v = []"
  using truthy_json_norm [of v] by (cases v) simp_all

lemma safe_result_norm: "safe_result (json_norm v) = map_sum id json_norm (safe_result v)"
  by (simp add: safe_result_def ej_canonical_def json_dumps_norm dict_of_norm_Nil split: sum.splits)

lemma ej_sha256_norm [simp]: "ej_sha256 H (json_norm v) = ej_sha256 H v"
  by (simp add: ej_sha256_def ej_canonical_def json_dumps_norm)

lemma digest_record_norm: "digest_record H (dict_of (json_norm (PDict d))) = digest_record H d"
  unfolding digest_record_def ddel_json_norm ej_sha256_norm ..

lemma read_generation_write_locked [simp]: "read_generation H (write_locked st d) = read_generation H st"
proof -
  have "manifest_path \<noteq> journal_path" by (simp add: manifest_path_def journal_path_def)
  then have eq: "load_json (write_locked st d) manifest_path = load_json st manifest_path"
    "fs_get (write_locked st d) manifest_path = fs_get st manifest_path" by (simp_all add: write_locked_def)
  show ?thesis unfolding read_generation_def eq ..
qed

lemma put_record_again [simp]: "put_record (put_record data eff r) eff r' = put_record data eff r'"
  by (simp add: put_record_def records_of_def)

lemma seal_digest:
  "seal H x = Inr r \<Longrightarrow> \<exists>h. r = dset ''record_digest'' (PStr h) x \<and> digest_record H r = Inr h"
  by (auto simp: seal_def bindr_eq_Inr digest_record_def)

text \<open>A journal document as \<open>_write_locked\<close> leaves it: keys sorted, lists for tuples.\<close>

definition journal_written :: "store \<Rightarrow> bool" where
  "journal_written st \<longleftrightarrow>
     (case fs_get st journal_path of Some (JsonFile v) \<Rightarrow> json_norm v = v | _ \<Rightarrow> True)"

lemma journal_written_write [simp]: "journal_written (write_locked st data)"
  by (simp add: journal_written_def write_locked_def del: json_norm.simps)






lemma json_norm_fixed_member:
  assumes "json_norm (PDict d) = PDict d" and "p \<in> set d"
  shows "json_norm (snd p) = snd p"
proof -
  from assms(1) have "map (\<lambda>p. (fst p, json_norm (snd p))) (sort_key fst d) = d" by simp
  then have "p \<in> (\<lambda>p. (fst p, json_norm (snd p))) ` set (sort_key fst d)" using assms(2) by (metis list.set_map)
  then show ?thesis by auto
qed

lemma read_locked_checked:
  assumes "read_locked H j st = Inr data" and "p \<in> set (records_of data)"
  shows "check_record H j p = Inr ()"
proof (cases "fs_get st journal_path")
  case None
  with assms show ?thesis by (auto simp: read_locked_def records_of_def dget_def)
next
  case (Some f)
  then obtain v ys where "data = dict_of v" "map_res (check_record H j) (dict_of (vget v ''records'')) = Inr ys"
    using assms(1) by (auto simp: read_locked_def bindr_eq_Inr split: doc_file.splits)
  with assms(2) show ?thesis using map_res_unit by (simp add: records_of_def vget_def)
qed

lemma read_locked_schema:
  "read_locked H j st = Inr data \<Longrightarrow> dget data ''schema'' = PStr journal_SCHEMA"
  by (auto simp: read_locked_def vget_def bindr_eq_Inr raise_if_eq_Inr dget_def split: option.splits doc_file.splits)

lemma read_locked_fixed:
  assumes "read_locked H j st = Inr data" and "journal_written st" and "p \<in> set (records_of data)"
  shows "json_norm (snd p) = snd p"
proof (cases "fs_get st journal_path")
  case None
  with assms(1,3) show ?thesis by (auto simp: read_locked_def records_of_def dget_def)
next
  case (Some f)
  then obtain v where v: "f = JsonFile v" "data = dict_of v" "is_mapping v" "is_mapping (vget v ''records'')"
    using assms(1) by (auto simp: read_locked_def bindr_eq_Inr raise_if_eq_Inr split: doc_file.splits)
  then obtain d e where d: "v = PDict d" "dget d ''records'' = PDict e"
    by (auto simp: is_mapping_iff vget_def)
  have "json_norm (PDict d) = PDict d" using assms(2) Some v d by (simp add: journal_written_def)
  then have "json_norm (PDict e) = PDict e" using d(2) by (metis dget_json_norm dict_of.simps(1))
  moreover have "p \<in> set e" using assms(3) v d by (simp add: records_of_def)
  ultimately show ?thesis by (rule json_norm_fixed_member)
qed


lemma read_locked_JsonFile:
  assumes "fs_get st journal_path = Some (JsonFile v)" and "is_mapping v"
    and "vget v ''schema'' = PStr journal_SCHEMA" and "is_mapping (vget v ''records'')"
    and "map_res (check_record H j) (dict_of (vget v ''records'')) = Inr ys"
  shows "read_locked H j st = Inr (dict_of v)"
  using assms by (simp add: read_locked_def raise_if_def)

text \<open>After a record that passes the check is written, the journal reads again.\<close>

lemma read_locked_put:
  assumes "read_locked H j st = Inr data" and "journal_written st"
    and "check_record H j (eff, json_norm (PDict r)) = Inr ()"
  shows "read_locked H j (write_locked st' (put_record data eff r))
    = Inr (dict_of (json_norm (PDict (put_record data eff r))))"
proof -
  let ?D = "put_record data eff r" and ?R = "dset eff (PDict r) (records_of data)"
  have D: "dget ?D ''schema'' = PStr journal_SCHEMA" "dget ?D ''records'' = PDict ?R"
    using read_locked_schema [OF assms(1)] by (simp_all add: put_record_def)
  have "check_record H j p = Inr ()" if "p \<in> set (dict_of (json_norm (PDict ?R)))" for p
  proof -
    from that have "p \<in> (\<lambda>q. (fst q, json_norm (snd q))) ` set ?R" by simp
    then obtain q where q: "q \<in> set ?R" "p = (fst q, json_norm (snd q))" by blast
    with set_dset [of eff "PDict r" "records_of data"] consider "q = (eff, PDict r)" | "q \<in> set (records_of data)" by blast
    then show ?thesis
    proof cases
      case 1
      with q assms(3) show ?thesis by simp
    next
      case 2
      with q read_locked_fixed [OF assms(1,2)] read_locked_checked [OF assms(1)] show ?thesis by simp
    qed
  qed
  then have all: "map_res (check_record H j) (dict_of (json_norm (PDict ?R))) = Inr (map (\<lambda>_. ()) (dict_of (json_norm (PDict ?R))))"
    by (rule map_res_Inr_map)
  have doc: "fs_get (write_locked st' ?D) journal_path = Some (JsonFile (json_norm (PDict ?D)))"
    unfolding write_locked_def fs_get_atomic_write by simp
  have map: "is_mapping (json_norm (PDict d))" for d by simp
  have "vget (json_norm (PDict ?D)) ''schema'' = PStr journal_SCHEMA"
    unfolding vget_json_norm D by simp
  moreover have "vget (json_norm (PDict ?D)) ''records'' = json_norm (PDict ?R)"
    unfolding vget_json_norm D ..
  ultimately show ?thesis using read_locked_JsonFile [OF doc map] map all by (metis (no_types))
qed

text \<open>The record of a finished execution passes the check of every later read.\<close>

lemma completed_record_fields:
  assumes "completed_record H r0 result = Inr r"
  shows "\<exists>h. ej_sha256 H result = Inr h \<and> dget r ''result_digest'' = PStr h \<and> dget r ''result'' = result \<and>
    dget r ''state'' = PStr ''COMPLETED'' \<and> (\<exists>g. dget r ''record_digest'' = PStr g \<and> digest_record H r = Inr g) \<and>
    set (dkeys r) = set (dkeys r0) \<union> {''reason'', ''result_digest'', ''result'', ''state'', ''record_digest''} \<and>
    (\<forall>k. k \<notin> {''reason'', ''result_digest'', ''result'', ''state'', ''record_digest''} \<longrightarrow> dget r k = dget r0 k)"
  using assms by (auto simp: completed_record_def bindr_eq_Inr dest!: seal_digest)

lemma completed_record_other:
  "completed_record H r0 result = Inr r \<Longrightarrow>
     k \<notin> {''reason'', ''result_digest'', ''result'', ''state'', ''record_digest''} \<Longrightarrow> dget r k = dget r0 k"
  by (auto simp: completed_record_def bindr_eq_Inr dest!: seal_digest)

lemma new_record_fields:
  "set (dkeys (new_record j op eff s d)) = record_fields - {''record_digest''}"
  "dget (new_record j op eff s d) ''schema'' = PStr journal_SCHEMA"
  "dget (new_record j op eff s d) ''operation_id'' = PStr op"
  "dget (new_record j op eff s d) ''subject'' = PStr s"
  "dget (new_record j op eff s d) ''request_digest'' = PStr d"
  "dget (new_record j op eff s d) ''generation'' = PInt (wg_generation (ej_generation j))"
  "dget (new_record j op eff s d) ''project_root'' = PStr (ej_root j)"
  "dget (new_record j op eff s d) ''effect_id'' = PStr eff"
  by (simp_all add: new_record_def dget_def dkeys_def) (simp add: record_fields_def insert_Diff_if insert_commute)

lemma dispatched_fields:
  assumes "seal H (new_record j op eff s d) = Inr pending"
    and "seal H (dset ''state'' (PStr ''DISPATCHED'') pending) = Inr dispatched"
  shows "set (dkeys dispatched) = record_fields" and "dget dispatched ''schema'' = PStr journal_SCHEMA"
    and "dget dispatched ''operation_id'' = PStr op" and "dget dispatched ''subject'' = PStr s"
    and "dget dispatched ''request_digest'' = PStr d"
    and "dget dispatched ''generation'' = PInt (wg_generation (ej_generation j))"
    and "dget dispatched ''project_root'' = PStr (ej_root j)" and "dget dispatched ''effect_id'' = PStr eff"
proof -
  from seal_digest [OF assms(1)] seal_digest [OF assms(2)] obtain h h' where
    "dispatched = dset ''record_digest'' (PStr h') (dset ''state'' (PStr ''DISPATCHED'')
       (dset ''record_digest'' (PStr h) (new_record j op eff s d)))" by auto
  note D = this and new = new_record_fields [of j op eff s d]
  have same: "k \<noteq> ''state'' \<Longrightarrow> k \<noteq> ''record_digest'' \<Longrightarrow> dget dispatched k = dget (new_record j op eff s d) k" for k
    by (simp add: D)
  show "set (dkeys dispatched) = record_fields" unfolding D dkeys_dset new(1) by (auto simp: record_fields_def)
  show "dget dispatched ''schema'' = PStr journal_SCHEMA" "dget dispatched ''operation_id'' = PStr op"
    "dget dispatched ''subject'' = PStr s" "dget dispatched ''request_digest'' = PStr d"
    "dget dispatched ''generation'' = PInt (wg_generation (ej_generation j))"
    "dget dispatched ''project_root'' = PStr (ej_root j)" "dget dispatched ''effect_id'' = PStr eff"
    by (simp_all add: same new)
qed

lemma completed_keys:
  "record_fields \<union> {''reason'', ''result_digest'', ''result'', ''state'', ''record_digest''} = record_fields"
  by (rule Un_absorb2) (simp add: record_fields_def)

lemma completed_record_checked:
  assumes "seal H (new_record j op (''effect-'' @ op) s d) = Inr pending"
    and "seal H (dset ''state'' (PStr ''DISPATCHED'') pending) = Inr dispatched"
    and "completed_record H dispatched result = Inr r" and "safe_result result = Inr x"
    and "s \<noteq> []" and "d \<noteq> []" and "1 \<le> wg_generation (ej_generation j)"
  shows "check_record H j (''effect-'' @ op, json_norm (PDict r)) = Inr ()"
proof -
  note fields = dispatched_fields [OF assms(1,2)]
  obtain h g where r: "ej_sha256 H result = Inr h" "dget r ''result_digest'' = PStr h" "dget r ''result'' = result"
    "dget r ''state'' = PStr ''COMPLETED''" "dget r ''record_digest'' = PStr g" "digest_record H r = Inr g"
    "set (dkeys r) = record_fields"
    and same: "\<And>k. k \<notin> {''reason'', ''result_digest'', ''result'', ''state'', ''record_digest''} \<Longrightarrow> dget r k = dget dispatched k"
    using completed_record_fields [OF assms(3)] unfolding fields(1) completed_keys by blast
  have get: "dget r ''schema'' = PStr journal_SCHEMA" "dget r ''operation_id'' = PStr op" "dget r ''subject'' = PStr s"
    "dget r ''request_digest'' = PStr d" "dget r ''generation'' = PInt (wg_generation (ej_generation j))"
    "dget r ''project_root'' = PStr (ej_root j)" "dget r ''effect_id'' = PStr (''effect-'' @ op)"
    using same fields by simp_all
  have safe: "safe_result (json_norm result) = Inr (json_norm x)" unfolding safe_result_norm assms(4) by simp
  have scalar: "json_norm (PStr a) = PStr a" "json_norm (PInt b) = PInt b" for a b by simp_all
  show ?thesis
    unfolding check_record_def Let_def fst_conv snd_conv dget_json_norm dkeys_json_norm digest_record_norm
      r get scalar safe ej_sha256_norm is_mapping_json_norm
    using assms(5-7) by (simp add: raise_if_def nonempty_str_def journal_STATES_def)
qed

text \<open>What a successful execution leaves behind, whatever its callbacks did.\<close>

lemma start_effect_completed:
  assumes "eo_result (start_effect H st data eff (new_record j op eff s d) opn) = Inr result"
  obtains pending dispatched r x st' where "seal H (new_record j op eff s d) = Inr pending"
    and "seal H (dset ''state'' (PStr ''DISPATCHED'') pending) = Inr dispatched"
    and "completed_record H dispatched result = Inr r" and "safe_result result = Inr x"
    and "final_store st (start_effect H st data eff (new_record j op eff s d) opn) = write_locked st' (put_record data eff r)"
proof -
  from assms obtain pending dispatched where c: "seal H (new_record j op eff s d) = Inr pending"
    "seal H (dset ''state'' (PStr ''DISPATCHED'') pending) = Inr dispatched"
    by (auto simp: start_effect_def no_write_def split: sum.splits simp: bindr_eq_Inr)
  obtain st3 answer where call: "opn (write_locked (write_locked st (put_record data eff pending))
      (put_record data eff dispatched)) = (st3, answer)" by fastforce
  from assms c call obtain r x where r: "answer = Inr result" "safe_result result = Inr x" "completed_record H dispatched result = Inr r"
    by (auto simp: start_effect_def Let_def bindr_eq_Inr split: sum.splits)
  show ?thesis
    by (rule that [OF c r(3,2), where st' = st3]) (simp add: start_effect_def final_store_def Let_def c call r)
qed

text \<open>A completed record of an effect under the binding of an execution, with its result.\<close>

definition settled :: "(string \<Rightarrow> string) \<Rightarrow> journal \<Rightarrow> pyval \<Rightarrow> string \<Rightarrow> string \<Rightarrow> pyval \<Rightarrow> store \<Rightarrow> bool" where
  "settled H j i s d result st \<longleftrightarrow>
     (\<exists>eff op r. deterministic_effect_id H i = Inr eff \<and> operation_digest H i = Inr op \<and>
        vget i ''request_digest'' = PStr d \<and> raw_record st eff = Some (json_norm (PDict r)) \<and> same_binding j r op s d \<and>
        dget r ''state'' = PStr ''COMPLETED'' \<and> json_norm (dget r ''result'') = json_norm result)"


lemma execute_settles:
  assumes "journal_written st" and "eo_dispatched (execute H j st i s d opn port)"
    and "eo_result (execute H j st i s d opn port) = Inr result"
  shows "settled H j i s d result (final_store st (execute H j st i s d opn port)) \<and>
    journal_written (final_store st (execute H j st i s d opn port)) \<and>
    (\<exists>data. read_locked H j (final_store st (execute H j st i s d opn port)) = Inr data)"
proof (cases rule: execute_cases [of H j st i s d opn port])
  case (raised e)
  with assms(2) show ?thesis by (simp add: no_write_def)
next
  case (existing eff op data old)
  with assms(2) show ?thesis by simp
next
  case (fresh eff op data)
  have eff: "eff = ''effect-'' @ op" using fresh(1,2) by (simp add: deterministic_effect_id_def)
  have gen: "read_generation H st = Inr (Some (ej_generation j))"
    using fresh(3) by (auto simp: check_generation_def bindr_eq_Inr raise_if_eq_Inr)
  then have pos: "1 \<le> wg_generation (ej_generation j)" using read_generation_wf by (auto simp: wg_wf_def)
  from assms(3) [unfolded fresh(9)] obtain pending dispatched r x st' where
    c: "seal H (new_record j op eff s d) = Inr pending"
      "seal H (dset ''state'' (PStr ''DISPATCHED'') pending) = Inr dispatched"
      "completed_record H dispatched result = Inr r" "safe_result result = Inr x"
    and st': "final_store st (execute H j st i s d opn port) = write_locked st' (put_record data eff r)"
    unfolding fresh(9) by (rule start_effect_completed)
  have "check_record H j (eff, json_norm (PDict r)) = Inr ()"
    using completed_record_checked c fresh(6,7) pos unfolding eff by blast
  note rd = read_locked_put [OF fresh(4) assms(1) this, of st']
  have "same_binding j r op s d"
    using dispatched_fields [OF c(1,2)] completed_record_other [OF c(3)] by (simp add: same_binding_def)
  moreover have "dget r ''state'' = PStr ''COMPLETED''" "dget r ''result'' = result"
    using completed_record_fields [OF c(3)] by auto
  ultimately have "settled H j i s d result (write_locked st' (put_record data eff r))"
    unfolding settled_def raw_write using fresh(1,2,8) by auto
  with rd show ?thesis unfolding st' by auto
qed





text \<open>A writer whose generation is not the installed one gets nothing done.\<close>

lemma ej_locked_stale:
  "read_generation H st \<noteq> Inr (Some (ej_generation j)) \<Longrightarrow> \<exists>e. ej_locked H j st action = (st, Inl e)"
  by (cases "read_generation H st") (auto simp: ej_locked_def check_generation_def raise_if_def)

lemma ej_locked_stale_result:
  assumes "read_generation H st \<noteq> Inr (Some (ej_generation j))"
  shows "\<exists>e. snd (ej_locked H j st action) = Inl e"
  using ej_locked_stale [OF assms, of action] by auto

lemma execute_stale:
  assumes "read_generation H st \<noteq> Inr (Some (ej_generation j))"
  shows "\<exists>e. execute H j st i s d opn port = no_write (Inl e)"
proof (cases rule: execute_cases [of H j st i s d opn port])
  case raised
  then show ?thesis by blast
qed (use assms in \<open>auto simp: check_generation_def bindr_eq_Inr raise_if_eq_Inr\<close>)

section \<open>Sample session\<close>

definition sample_journal :: journal where
  "sample_journal = \<lparr> ej_generation = sample_generation 1, ej_root = ''/p'' \<rparr>"

definition sample_project :: store where
  "sample_project = fst (install_generation sample_hash [] (sample_generation 1) None)"

definition sample_identity :: pyval where
  "sample_identity = PDict [(''task_id'', PStr ''t''), (''workspace_revision'', PStr ''w''),
     (''planner_decision_id'', PStr ''p''), (''action'', PStr ''a''), (''subject_revision'', PStr ''s''),
     (''request_digest'', PStr ''d''), (''attempt'', PInt 1)]"

definition answers :: "pyval res \<Rightarrow> callback" where
  "answers x = (\<lambda>t. (t, x))"

lemma leaves_answers [simp]: "leaves_journal (answers x)"
  by (simp add: leaves_journal_def answers_def)

definition sample_execution :: exec_outcome where
  "sample_execution = execute sample_hash sample_journal sample_project sample_identity ''s'' ''d''
     (answers (Inr (PDict [(''ok'', PBool True)]))) None"


lemma sample_execution_facts:
  "eo_dispatched sample_execution" "eo_result sample_execution = Inr (PDict [(''ok'', PBool True)])"
  "length (eo_stores sample_execution) = 4"
  by code_simp+

lemma sample_effect_id: "\<exists>eff. deterministic_effect_id sample_hash sample_identity = Inr eff"
proof -
  have "\<not> isl (deterministic_effect_id sample_hash sample_identity)" by code_simp
  then show ?thesis by (cases "deterministic_effect_id sample_hash sample_identity") auto
qed

lemma sample_step:
  "\<exists>eff. ej_step sample_hash (sample_project, []) (final_store sample_project sample_execution, [eff])"
proof -
  note f = sample_execution_facts
  obtain eff where eff: "deterministic_effect_id sample_hash sample_identity = Inr eff"
    using sample_effect_id by blast
  have "ej_step sample_hash (sample_project, [])
      ((sample_project # eo_stores sample_execution) ! 4,
       (if eo_dispatched sample_execution \<and> 2 \<le> (4 :: nat) then [eff] else []))"
    by (rule ej_execute [OF sample_execution_def _ eff]) (simp_all add: f(3) port_leaves_journal_def)
  moreover have "(sample_project # eo_stores sample_execution) ! 4 = final_store sample_project sample_execution"
    using f(3) by (auto simp: final_store_def last_conv_nth)
  ultimately show ?thesis using f(1) by auto
qed

section \<open>Callbacks that write the journal\<close>

text \<open>
  The document written after a callback is the one read before it. A record that the dispatched operation
  itself writes for another effect is therefore erased when the execution ends, completed or not.
\<close>

lemma nested_record_erased:
  assumes "eo_dispatched (execute H j st i s d opn port)" and "eo_result (execute H j st i s d opn port) = Inr result"
    and "deterministic_effect_id H i = Inr eff" and "eff' \<noteq> eff" and "raw_record st eff' = None"
  shows "raw_record (final_store st (execute H j st i s d opn port)) eff' = None"
proof (cases rule: execute_cases [of H j st i s d opn port])
  case (fresh eff'' op data)
  from assms(2) [unfolded fresh(9)] obtain r st' where
    "final_store st (execute H j st i s d opn port) = write_locked st' (put_record data eff'' r)"
    unfolding fresh(9) by (rule start_effect_completed)
  with assms(3-5) fresh(1) show ?thesis by (simp add: raw_write read_locked_records [OF fresh(4)])
qed (use assms(1) in \<open>auto simp: no_write_def\<close>)

lemma start_effect_dispatches:
  assumes "eo_dispatched (start_effect H t data' eff fresh opn')"
  shows "eo_dispatched (start_effect H st data eff fresh opn)"
proof -
  from assms obtain pending dispatched where "seal H fresh = Inr pending"
    "seal H (dset ''state'' (PStr ''DISPATCHED'') pending) = Inr dispatched"
    by (auto simp: start_effect_def no_write_def bindr_eq_Inr split: sum.splits)
  then show ?thesis by (auto simp: start_effect_def Let_def split: sum.splits prod.splits)
qed

text \<open>
  So an effect executed inside the operation of another one is not protected. Its operation was called at some
  store \<open>t\<close> on the way, and completed or not; once the outer execution has succeeded, the next execution of the
  same effect calls the operation again.
\<close>

theorem nested_effect_called_twice:
  assumes "journal_written st" and "r = execute H j st i s d opn port" and "eo_dispatched r" and "eo_result r = Inr result"
    and "deterministic_effect_id H i = Inr eff" and "deterministic_effect_id H i' = Inr eff'" and "eff' \<noteq> eff"
    and "raw_record st eff' = None" and "eo_dispatched (execute H j t i' s' d' opn' port')"
    and "read_generation H (final_store st r) = Inr (Some (ej_generation j))"
  shows "eo_dispatched (execute H j (final_store st r) i' s' d' opn'' port'')"
proof (cases rule: execute_cases [of H j t i' s' d' opn' port'])
  case (fresh eff2 op data)
  from execute_settles [OF assms(1) assms(3,4) [unfolded assms(2)], folded assms(2)]
  obtain data' where data: "read_locked H j (final_store st r) = Inr data'" by blast
  have "raw_record (final_store st r) eff' = None"
    using nested_record_erased [OF assms(3,4) [unfolded assms(2)] assms(5,7,8)] assms(2) by simp
  then have new: "get_record data' eff' = None" using get_record_None [OF data] by simp
  have cg: "check_generation H j (final_store st r) = Inr ()" using assms(10) by (simp add: check_generation_def raise_if_def)
  have "execute H j (final_store st r) i' s' d' opn'' port'' =
      start_effect H (final_store st r) data' eff' (new_record j op eff' s' d') opn''"
    unfolding execute_def assms(6) fresh(2) cg data using fresh(6-8) new by (simp add: raise_if_def)
  moreover have "eo_dispatched (start_effect H t data eff' (new_record j op eff' s' d') opn')"
    using assms(6,9) fresh(1,9) by simp
  ultimately show ?thesis using start_effect_dispatches by simp
qed (use assms(9) in \<open>auto simp: no_write_def\<close>)

section \<open>Properties\<close>

text \<open>
  C5 (effect_called_at_most_once). However any number of writers interleave journal operations,
  takeovers, executions and crashes on a project, the operation of an effect is called at most
  once, every called effect had no record before, and has one ever after. The callbacks of the executions
  are assumed not to write the journal themselves; without that the claim is false
  (\<open>nested_effect_called_twice\<close>).
\<close>

theorem effect_called_at_most_once:
  assumes "(ej_step H)\<^sup>*\<^sup>* (st0, []) (st, calls)"
  shows "distinct calls \<and> (\<forall>e \<in> set calls. raw_record st0 e = None \<and> raw_record st e \<noteq> None)"
  using session_inv_reachable [OF assms] by (auto simp: session_inv_def)

theorem effect_called_at_most_once_witness:
  "\<exists>eff. (ej_step sample_hash)\<^sup>*\<^sup>* (sample_project, []) (final_store sample_project sample_execution, [eff]) \<and>
     raw_record sample_project eff = None \<and> raw_record (final_store sample_project sample_execution) eff \<noteq> None"
proof -
  obtain eff where "ej_step sample_hash (sample_project, []) (final_store sample_project sample_execution, [eff])"
    using sample_step by blast
  then have run: "(ej_step sample_hash)\<^sup>*\<^sup>* (sample_project, []) (final_store sample_project sample_execution, [eff])" by simp
  from effect_called_at_most_once [OF run] run show ?thesis by auto
qed

text \<open>
  C6 (journal_refines_ledger). The journal implements the ledger: every operation, takeover,
  execution and crash is a step of the abstract specification in which an unknown effect is opened
  or called, an open one resolved, and a done one never touched. The callbacks of an execution are assumed not
  to write the journal themselves, as for C5.
\<close>

theorem journal_refines_ledger:
  assumes "ej_step H (st, calls) (st', calls')"
  shows "ledger_step (ledger_of st, calls) (ledger_of st', calls')"
  using assms
proof (cases rule: ej_step.cases)
  case ej_execute
  then show ?thesis using ledger_execute by blast
next
  case ej_install
  then show ?thesis by (simp add: ledger_of_install ledger_skip)
next
  case ej_reserve
  then show ?thesis by (simp add: ledger_change reserve_change)
next
  case ej_transition
  then show ?thesis by (simp add: ledger_change transition_change)
next
  case ej_reconcile
  then show ?thesis by (simp add: ledger_change reconcile_change)
qed

theorem journal_refines_ledger_witness:
  "\<exists>eff. ledger_step (ledger_of sample_project, [])
     (ledger_of (final_store sample_project sample_execution), [eff])"
  using sample_step journal_refines_ledger by blast



text \<open>
  C8 (stale_writer_fenced). A writer that does not hold the installed generation cannot change or read
  the journal: every operation raises and leaves the store untouched, and no effect is called.
\<close>

theorem stale_writer_fenced:
  assumes "read_generation H st \<noteq> Inr (Some (ej_generation j))"
  shows "(\<exists>e. reserve H j st i s d = (st, Inl e)) \<and> (\<exists>e. transition H j st eff state result reason = (st, Inl e)) \<and>
    (\<exists>e. reconcile H j st eff observed = (st, Inl e)) \<and> (\<exists>e. ej_get H j st eff = Inl e) \<and>
    (\<exists>e. unresolved_for_subject H j st s = Inl e) \<and>
    (\<exists>e. execute H j st i s d opn port = \<lparr> eo_stores = [], eo_dispatched = False, eo_result = Inl e \<rparr>)"
proof (intro conjI)
  note stale = ej_locked_stale [OF assms]
  show "\<exists>e. reserve H j st i s d = (st, Inl e)"
    unfolding reserve_def by (auto split: sum.split intro: stale simp del: split_paired_Ex)
  show "\<exists>e. transition H j st eff state result reason = (st, Inl e)"
    unfolding transition_def by (auto intro: stale simp del: split_paired_Ex)
  show "\<exists>e. reconcile H j st eff observed = (st, Inl e)" unfolding reconcile_def by (rule stale)
  show "\<exists>e. ej_get H j st eff = Inl e"
    unfolding ej_get_def by (auto intro: ej_locked_stale_result [OF assms] simp del: split_paired_Ex)
  show "\<exists>e. unresolved_for_subject H j st s = Inl e"
    unfolding unresolved_for_subject_def by (auto intro: ej_locked_stale_result [OF assms] simp del: split_paired_Ex)
  show "\<exists>e. execute H j st i s d opn port = \<lparr> eo_stores = [], eo_dispatched = False, eo_result = Inl e \<rparr>"
    using execute_stale [OF assms] by (simp add: no_write_def)
qed

theorem stale_writer_fenced_witness:
  "\<exists>st. read_generation sample_hash st = Inr (Some (sample_generation 2)) \<and>
     \<not> eo_dispatched (execute sample_hash sample_journal st sample_identity ''s'' ''d'' (answers (Inr PNone)) None) \<and>
     fst (reserve sample_hash sample_journal st sample_identity ''s'' ''d'') = st"
proof -
  define st where "st = atomic_write sample_project manifest_path (manifest_document sample_hash (sample_generation 2))"
  have gen: "read_generation sample_hash st = Inr (Some (sample_generation 2))"
    unfolding st_def by (rule read_installed) (simp add: sample_generation_wf)
  then have "read_generation sample_hash st \<noteq> Inr (Some (ej_generation sample_journal))"
    by (simp add: sample_journal_def sample_generation_def)
  note fenced = stale_writer_fenced [OF this, of sample_identity "''s''" "''d''" "[]" "[]" PNone "[]" PNone "answers (Inr PNone)" None]
  show ?thesis
  proof (intro exI conjI)
    show "read_generation sample_hash st = Inr (Some (sample_generation 2))" by (rule gen)
    show "\<not> eo_dispatched (execute sample_hash sample_journal st sample_identity ''s'' ''d'' (answers (Inr PNone)) None)"
      using fenced by auto
    show "fst (reserve sample_hash sample_journal st sample_identity ''s'' ''d'') = st" using fenced by auto
  qed
qed

end
