(* ===== verification/Json_Normal.thy ===== *)
theory Json_Normal
  imports Py_Json
begin

text \<open>
  The normalization of untrusted JSON data that the execution coordination modules share, each with
  its own exception class \<open>c\<close> and message: mapping keys are unpadded texts, sequences become lists,
  scalars must have a canonical text, and anything else is refused
  (\<open>_canonical_json\<close>, \<open>_normalize_json_value\<close> and \<open>_json_value\<close> in \<open>execution_coordination\<close>).
\<close>

section \<open>Canonical text and normalization\<close>

definition canon_json :: "exc_class \<Rightarrow> string \<Rightarrow> pyval \<Rightarrow> string res" where
  "canon_json c msg v =
     (case json_dumps False False v of
        Inl e \<Rightarrow> if fst e = TypeError \<or> is_value_error e then Inl (c, msg) else Inl e
      | Inr s \<Rightarrow> Inr s)"

fun norm_value :: "exc_class \<Rightarrow> string \<Rightarrow> pyval \<Rightarrow> string \<Rightarrow> pyval res" where
  "norm_value c msg (PDict d) field =
     bindr (map_res (\<lambda>p. bindr (require_text c (PStr (fst p)) (field @ ''.key'')) (\<lambda>k.
              bindr (norm_value c msg (snd p) (field @ ''.'' @ fst p)) (\<lambda>v. Inr (k, v)))) d)
       (\<lambda>items. Inr (PDict (dmerge [] items)))"
| "norm_value c msg (PList xs) field =
     bindr (map_res (\<lambda>x. norm_value c msg x field) xs) (\<lambda>ys. Inr (PList ys))"
| "norm_value c msg (PTuple xs) field =
     bindr (map_res (\<lambda>x. norm_value c msg x field) xs) (\<lambda>ys. Inr (PList ys))"
| "norm_value c msg (PObj r) field = Inl (c, field @ '' contains unsupported JSON value'')"
| "norm_value c msg PNone field = bindr (canon_json c msg PNone) (\<lambda>_. Inr PNone)"
| "norm_value c msg (PBool b) field = bindr (canon_json c msg (PBool b)) (\<lambda>_. Inr (PBool b))"
| "norm_value c msg (PInt i) field = bindr (canon_json c msg (PInt i)) (\<lambda>_. Inr (PInt i))"
| "norm_value c msg (PFloat f) field = bindr (canon_json c msg (PFloat f)) (\<lambda>_. Inr (PFloat f))"
| "norm_value c msg (PStr s) field = bindr (canon_json c msg (PStr s)) (\<lambda>_. Inr (PStr s))"

section \<open>Lemmas\<close>

text \<open>What normalization produces: JSON data with distinct, unpadded keys and finite numbers.\<close>

fun normal :: "pyval \<Rightarrow> bool" where
  "normal (PDict d) = (distinct (map fst d) \<and> (\<forall>p \<in> set d. solid (fst p) \<and> normal (snd p)))"
| "normal (PList xs) = (\<forall>x \<in> set xs. normal x)"
| "normal (PTuple _) = False"
| "normal (PObj _) = False"
| "normal (PFloat f) = (case f of FFin _ _ \<Rightarrow> True | _ \<Rightarrow> False)"
| "normal _ = True"

lemma json_float_total:
  "(case f of FFin x y \<Rightarrow> True | _ \<Rightarrow> False) \<Longrightarrow> \<exists>s. json_float n f = Inr s"
  by (cases f) auto

lemma json_float_error: "json_float n f = Inl e \<Longrightarrow> fst e = TypeError \<or> fst e = ValueError"
  by (cases f) (auto split: if_splits)

lemma normal_dumps: "normal v \<Longrightarrow> \<exists>s. json_dumps a n v = Inr s"
proof (induction v rule: json_norm.induct)
  case (1 xs)
  then have "\<exists>ys. map_res (json_dumps a n) xs = Inr ys" by (intro map_res_total) simp
  then show ?case by auto
next
  case (3 d)
  let ?e = "\<lambda>p. bindr (json_dumps a n (snd p)) (\<lambda>s. Inr (json_str a (fst p) @ '':'' @ s))"
  have "\<exists>y. ?e p = Inr y" if "p \<in> set (sort_key fst d)" for p
  proof -
    from that 3 have "\<exists>s. json_dumps a n (snd p) = Inr s" by simp
    then show ?thesis by auto
  qed
  then have "\<exists>ys. map_res ?e (sort_key fst d) = Inr ys" by (rule map_res_total)
  then show ?case by auto
qed (auto dest: json_float_total)

lemma canon_json_normal: "normal v \<Longrightarrow> \<exists>s. canon_json c msg v = Inr s"
  using normal_dumps [of v False False] by (auto simp: canon_json_def)

text \<open>A dictionary built item by item.\<close>

lemma dmerge_Cons: "dmerge d ((k, v) # e) = dmerge (dset k v d) e"
  by (simp add: dmerge_def)

lemma set_dmerge: "set (dmerge d e) \<subseteq> set d \<union> set e"
proof (induction e arbitrary: d)
  case (Cons p e)
  obtain k v where p: "p = (k, v)" by force
  show ?case using Cons [of "dset k v d"] set_dset [of k v d] unfolding p dmerge_Cons by auto
qed (simp add: dmerge_def)

lemma keys_dmerge: "set (map fst (dmerge d e)) = set (map fst d) \<union> set (map fst e)"
proof (induction e arbitrary: d)
  case (Cons p e)
  obtain k v where p: "p = (k, v)" by force
  show ?case unfolding p dmerge_Cons Cons.IH keys_dset by auto
qed (simp add: dmerge_def)

lemma distinct_dmerge: "distinct (map fst d) \<Longrightarrow> distinct (map fst (dmerge d e))"
proof (induction e arbitrary: d)
  case (Cons p e)
  obtain k v where p: "p = (k, v)" by force
  show ?case unfolding p dmerge_Cons using Cons.prems by (intro Cons.IH distinct_dset)
qed (simp add: dmerge_def)

lemma dset_new: "k \<notin> fst ` set d \<Longrightarrow> dset k v d = d @ [(k, v)]"
  by (induction k v d rule: dset.induct) auto

lemma dmerge_distinct: "distinct (map fst (d @ e)) \<Longrightarrow> dmerge d e = d @ e"
proof (induction e arbitrary: d)
  case (Cons p e)
  obtain k v where p: "p = (k, v)" by force
  have "k \<notin> fst ` set d" using Cons.prems by (auto simp: p)
  then show ?case using Cons.IH [of "d @ [(k, v)]"] Cons.prems unfolding p dmerge_Cons by (simp add: dset_new)
qed (simp add: dmerge_def)

lemma map_res_member: "map_res f xs = Inr ys \<Longrightarrow> y \<in> set ys \<Longrightarrow> \<exists>x \<in> set xs. f x = Inr y"
  by (induction xs arbitrary: ys) (auto simp: bindr_eq_Inr)

lemma norm_value_normal: "norm_value c msg v field = Inr w \<Longrightarrow> normal w"
proof (induction c msg v field arbitrary: w rule: norm_value.induct)
  case (1 c msg d field)
  let ?f = "\<lambda>p. bindr (require_text c (PStr (fst p)) (field @ ''.key'')) (\<lambda>k.
    bindr (norm_value c msg (snd p) (field @ ''.'' @ fst p)) (\<lambda>v. Inr (k, v)))"
  from "1.prems" obtain items where items: "map_res ?f d = Inr items" and w: "w = PDict (dmerge [] items)"
    by (auto simp: bindr_eq_Inr)
  have "solid (fst q) \<and> normal (snd q)" if "q \<in> set (dmerge [] items)" for q
  proof -
    have "q \<in> set items" using that set_dmerge [of "[]" items] by auto
    from map_res_member [OF items this] obtain p where "p \<in> set d" "?f p = Inr q" by blast
    then obtain k x where k: "require_text c (PStr (fst p)) (field @ ''.key'') = Inr k" and "q = (k, x)"
      and x: "norm_value c msg (snd p) (field @ ''.'' @ fst p) = Inr x"
      by (auto simp: bindr_eq_Inr)
    with "1.IH" [OF \<open>p \<in> set d\<close> k x] show ?thesis by (auto simp: dest: require_text_solid)
  qed
  then show ?case using distinct_dmerge [of "[]" items] by (simp add: w)
next
  case (2 c msg xs field)
  then show ?case using map_res_member [of "\<lambda>x. norm_value c msg x field" xs] by (fastforce simp: bindr_eq_Inr)
next
  case (3 c msg xs field)
  then show ?case using map_res_member [of "\<lambda>x. norm_value c msg x field" xs] by (fastforce simp: bindr_eq_Inr)
next
  case (8 c msg f field)
  then show ?case by (cases f) (auto simp: canon_json_def is_value_error_def)
qed (auto simp: canon_json_def)

lemma norm_value_id: "normal v \<Longrightarrow> norm_value c msg v field = Inr v"
proof (induction c msg v field rule: norm_value.induct)
  case (1 c msg d field)
  let ?f = "\<lambda>p. bindr (require_text c (PStr (fst p)) (field @ ''.key'')) (\<lambda>k.
    bindr (norm_value c msg (snd p) (field @ ''.'' @ fst p)) (\<lambda>v. Inr (k, v)))"
  have "?f p = Inr p" if "p \<in> set d" for p
    using that 1 by (auto simp:)
  then have "map_res ?f d = Inr d" using map_res_Inr_map [of d ?f "\<lambda>p. p"] by simp
  then show ?case using dmerge_distinct [of "[]" d] "1.prems" by simp
next
  case (2 c msg xs field)
  then show ?case using map_res_Inr_map [of xs "\<lambda>x. norm_value c msg x field" "\<lambda>x. x"] by simp
next
  case (8 c msg f field)
  then show ?case by (cases f) (simp_all add: canon_json_def)
qed (simp_all add: canon_json_def)

text \<open>Every failure is of the module's own class.\<close>

lemma map_res_Inl_member: "map_res f xs = Inl e \<Longrightarrow> \<exists>x \<in> set xs. f x = Inl e"
  by (induction xs) (auto simp: bindr_eq_Inl)

lemma json_dumps_error: "json_dumps a n v = Inl e \<Longrightarrow> fst e = TypeError \<or> fst e = ValueError"
proof (induction v rule: json_norm.induct)
  case (3 d)
  then obtain p where "p \<in> set d" "json_dumps a n (snd p) = Inl e"
    by (auto simp: bindr_eq_Inl dest!: map_res_Inl_member)
  with "3.IH" [of p] show ?case by auto
qed (auto simp: bindr_eq_Inl dest!: map_res_Inl_member dest: json_float_error)

lemma canon_json_error: "canon_json c msg v = Inl e \<Longrightarrow> e = (c, msg)"
  using json_dumps_error [of False False v] by (auto simp: canon_json_def is_value_error_def split: sum.splits if_splits)

lemma require_text_error: "require_text c v f = Inl e \<Longrightarrow> fst e = c"
  by (cases v) (auto simp: require_text.simps split: if_splits)

lemma norm_value_error: "norm_value c msg v field = Inl e \<Longrightarrow> fst e = c"
proof (induction c msg v field rule: norm_value.induct)
  case (1 c msg d field)
  then obtain p where p: "p \<in> set d" and "bindr (require_text c (PStr (fst p)) (field @ ''.key'')) (\<lambda>k.
      bindr (norm_value c msg (snd p) (field @ ''.'' @ fst p)) (\<lambda>v. Inr (k, v))) = Inl e"
    by (auto simp: bindr_eq_Inl dest!: map_res_Inl_member)
  then consider "require_text c (PStr (fst p)) (field @ ''.key'') = Inl e"
    | k where "require_text c (PStr (fst p)) (field @ ''.key'') = Inr k" "norm_value c msg (snd p) (field @ ''.'' @ fst p) = Inl e"
    by (auto simp: bindr_eq_Inl)
  then show ?case by cases (use "1.IH" [OF p] require_text_error in auto)
qed (auto simp: bindr_eq_Inl dest!: map_res_Inl_member canon_json_error)

lemma norm_value_mapping: "norm_value c msg (PDict d) field = Inr w \<Longrightarrow> is_mapping w"
  by (auto simp: bindr_eq_Inr)

text \<open>Normalization does not depend on the class or the message when it succeeds.\<close>

lemma require_text_class: "require_text c v f = Inr t \<Longrightarrow> require_text c' v f' = Inr t"
  by (auto simp: res_simps)

lemma canon_json_class: "canon_json c msg v = Inr s \<Longrightarrow> canon_json c' msg' v = Inr s"
  by (auto simp: canon_json_def split: sum.splits if_splits)

lemma map_res_weaken:
  "map_res f xs = Inr ys \<Longrightarrow> (\<And>x y. x \<in> set xs \<Longrightarrow> f x = Inr y \<Longrightarrow> g x = Inr y) \<Longrightarrow> map_res g xs = Inr ys"
  by (induction xs arbitrary: ys) (auto simp: bindr_eq_Inr)

lemma norm_value_class: "norm_value c msg v field = Inr w \<Longrightarrow> norm_value c' msg' v field' = Inr w"
proof (induction c msg v field arbitrary: w field' rule: norm_value.induct)
  case (1 c msg d field)
  from "1.prems" obtain items where items: "map_res (\<lambda>p. bindr (require_text c (PStr (fst p)) (field @ ''.key'')) (\<lambda>k.
      bindr (norm_value c msg (snd p) (field @ ''.'' @ fst p)) (\<lambda>v. Inr (k, v)))) d = Inr items"
    and w: "w = PDict (dmerge [] items)" by (auto simp: bindr_eq_Inr)
  have "map_res (\<lambda>p. bindr (require_text c' (PStr (fst p)) (field' @ ''.key'')) (\<lambda>k.
      bindr (norm_value c' msg' (snd p) (field' @ ''.'' @ fst p)) (\<lambda>v. Inr (k, v)))) d = Inr items"
  proof (rule map_res_weaken [OF items])
    fix p q
    assume p: "p \<in> set d" and "bindr (require_text c (PStr (fst p)) (field @ ''.key'')) (\<lambda>k.
      bindr (norm_value c msg (snd p) (field @ ''.'' @ fst p)) (\<lambda>v. Inr (k, v))) = Inr q"
    then obtain k v where k: "require_text c (PStr (fst p)) (field @ ''.key'') = Inr k"
      and v: "norm_value c msg (snd p) (field @ ''.'' @ fst p) = Inr v" and q: "q = (k, v)" by (auto simp: bindr_eq_Inr)
    show "bindr (require_text c' (PStr (fst p)) (field' @ ''.key'')) (\<lambda>k.
      bindr (norm_value c' msg' (snd p) (field' @ ''.'' @ fst p)) (\<lambda>v. Inr (k, v))) = Inr q"
      unfolding require_text_class [OF k] using "1.IH" [OF p k v] by (simp add: q)
  qed
  then show ?case by (simp add: w)
next
  case (2 c msg xs field)
  then obtain ys where ys: "map_res (\<lambda>x. norm_value c msg x field) xs = Inr ys" "w = PList ys" by (auto simp: bindr_eq_Inr)
  have "map_res (\<lambda>x. norm_value c' msg' x field') xs = Inr ys"
    by (rule map_res_weaken [OF ys(1)]) (rule "2.IH")
  then show ?case by (simp add: ys)
next
  case (3 c msg xs field)
  then obtain ys where ys: "map_res (\<lambda>x. norm_value c msg x field) xs = Inr ys" "w = PList ys" by (auto simp: bindr_eq_Inr)
  have "map_res (\<lambda>x. norm_value c' msg' x field') xs = Inr ys"
    by (rule map_res_weaken [OF ys(1)]) (rule "3.IH")
  then show ?case by (simp add: ys)
qed (auto simp: bindr_eq_Inr dest: canon_json_class)

end
