(* ===== verification/Effect_Authorization.thy ===== *)
theory Effect_Authorization
  imports Json_Normal
begin

text \<open>
  Effect authorizations and tool projections (\<open>execution_coordination/effect_authorization.py\<close>):
  a ceiling of effects granted by an external authority, bound by a content hash, and the
  projection onto one provider that may only narrow it. The digest, the calendar
  (\<open>datetime.fromisoformat\<close>: the instant a text denotes and whether it has a time zone) and the
  clock are parameters; an instant is a number on the UTC time line.
\<close>

section \<open>Normalization\<close>

definition EFFECT_AUTHORIZATION_SCHEMA :: string where
  "EFFECT_AUTHORIZATION_SCHEMA = ''nexus.runtime.effect_authorization.v1''"

definition TOOL_PROJECTION_SCHEMA :: string where
  "TOOL_PROJECTION_SCHEMA = ''nexus.runtime.tool_projection_manifest.v1''"

definition EFFECT_AUTHORIZATION_FIELDS :: "string set" where
  "EFFECT_AUTHORIZATION_FIELDS = {''schema'', ''authority_id'', ''authority_ref'', ''operation_id'', ''attempt_id'',
     ''repository'', ''source_revision'', ''base_revision'', ''workspace_id'', ''target_id'', ''expires_at'',
     ''effects'', ''authorization_hash''}"

definition TOOL_PROJECTION_FIELDS :: "string set" where
  "TOOL_PROJECTION_FIELDS = {''schema'', ''authorization_hash'', ''operation_id'', ''attempt_id'', ''provider'',
     ''backend_id'', ''selected_tools'', ''selected_effects'', ''authority_kind'', ''projection_hash''}"

abbreviation ea_error :: "string \<Rightarrow> 'a res" where
  "ea_error msg \<equiv> Inl (EffectAuthorizationError, msg)"

definition ea_canonical_json :: "pyval \<Rightarrow> string res" where
  "ea_canonical_json v = canon_json EffectAuthorizationError ''effect contract must be canonical JSON data'' v"

definition content_hash :: "(string \<Rightarrow> string) \<Rightarrow> dict \<Rightarrow> string res" where
  "content_hash H payload = bindr (ea_canonical_json (PDict payload)) (\<lambda>s. Inr (H s))"

definition ea_required_text :: "pyval \<Rightarrow> string \<Rightarrow> string res" where
  "ea_required_text v field = require_text EffectAuthorizationError v field"

definition ea_optional_text :: "pyval \<Rightarrow> string \<Rightarrow> string option res" where
  "ea_optional_text v field =
     (if is_none v then Inr None else bindr (ea_required_text v field) (\<lambda>s. Inr (Some s)))"

definition normalize_json_value :: "pyval \<Rightarrow> string \<Rightarrow> pyval res" where
  "normalize_json_value v field =
     norm_value EffectAuthorizationError ''effect contract must be canonical JSON data'' v field"

text \<open>\<open>_normalize_effects\<close>: the first level, then the canonical text must exist.\<close>

definition normalize_effects :: "pyval \<Rightarrow> string \<Rightarrow> dict res" where
  "normalize_effects value field =
    (if \<not> is_mapping value \<or> dict_of value = [] then ea_error (field @ '' must be a non-empty mapping'')
     else bindr (map_res (\<lambda>p. bindr (ea_required_text (PStr (fst p)) (field @ ''.domain'')) (\<lambda>name.
                   bindr (normalize_json_value (snd p) (field @ ''.'' @ name)) (\<lambda>v. Inr (name, v)))) (dict_of value)) (\<lambda>items.
          let normalized = dmerge [] items in
          bindr (ea_canonical_json (PDict normalized)) (\<lambda>_. Inr normalized)))"

definition normalize_tools :: "pyval \<Rightarrow> string list res" where
  "normalize_tools value =
    (if \<not> is_array value then ea_error ''selected_tools must be a sequence''
     else bindr (map_res (\<lambda>x. ea_required_text x ''selected_tools.item'') (items_of value)) (\<lambda>texts.
          if texts = [] then ea_error ''selected_tools must be non-empty'' else Inr (sort_strings texts)))"

fun is_subset :: "pyval \<Rightarrow> pyval \<Rightarrow> bool res" where
  "is_subset (PDict d) bound =
    (if \<not> is_mapping bound then Inr False
     else all_res (\<lambda>p. case map_of (dict_of bound) (fst p) of
            None \<Rightarrow> Inr False | Some c \<Rightarrow> is_subset (snd p) c) d)"
| "is_subset (PList xs) bound =
    (case bound of
       PList ys \<Rightarrow>
         bindr (map_res ea_canonical_json ys) (\<lambda>items.
         all_res (\<lambda>x. bindr (ea_canonical_json x) (\<lambda>s. Inr (s \<in> set items))) xs)
     | _ \<Rightarrow> Inr False)"
| "is_subset v bound = Inr (py_eq v bound)"

definition parse_expiry :: "(string \<Rightarrow> (int \<times> bool) option) \<Rightarrow> string \<Rightarrow> int res" where
  "parse_expiry cal value =
     (case cal value of
        None \<Rightarrow> ea_error ''expires_at must be ISO-8601''
      | Some (t, aware) \<Rightarrow> if \<not> aware then ea_error ''expires_at must include timezone'' else Inr t)"

section \<open>Effect authorizations\<close>

record authorization =
  ea_authority_id :: string
  ea_authority_ref :: string
  ea_operation_id :: string
  ea_attempt_id :: string
  ea_repository :: string
  ea_effects :: dict
  ea_source_revision :: "string option"
  ea_base_revision :: "string option"
  ea_workspace_id :: "string option"
  ea_target_id :: "string option"
  ea_expires_at :: "string option"
  ea_authorization_hash :: string

text \<open>The hashed content: \<open>to_dict\<close> without the hash.\<close>

definition ea_content :: "authorization \<Rightarrow> dict" where
  "ea_content a =
     [(''schema'', PStr EFFECT_AUTHORIZATION_SCHEMA), (''authority_id'', PStr (ea_authority_id a)),
      (''authority_ref'', PStr (ea_authority_ref a)), (''operation_id'', PStr (ea_operation_id a)),
      (''attempt_id'', PStr (ea_attempt_id a)), (''repository'', PStr (ea_repository a)),
      (''source_revision'', opt_str (ea_source_revision a)), (''base_revision'', opt_str (ea_base_revision a)),
      (''workspace_id'', opt_str (ea_workspace_id a)), (''target_id'', opt_str (ea_target_id a)),
      (''expires_at'', opt_str (ea_expires_at a)), (''effects'', PDict (ea_effects a))]"

definition ea_to_dict :: "authorization \<Rightarrow> dict" where
  "ea_to_dict a = ea_content a @ [(''authorization_hash'', PStr (ea_authorization_hash a))]"

text \<open>\<open>build\<close>, its keyword arguments as a function of their names.\<close>

definition ea_build ::
  "(string \<Rightarrow> string) \<Rightarrow> (string \<Rightarrow> (int \<times> bool) option) \<Rightarrow> (string \<Rightarrow> pyval) \<Rightarrow> authorization res" where
  "ea_build H cal kw =
     bindr (ea_required_text (kw ''authority_id'') ''authority_id'') (\<lambda>authority_id.
     bindr (ea_required_text (kw ''authority_ref'') ''authority_ref'') (\<lambda>authority_ref.
     bindr (ea_required_text (kw ''operation_id'') ''operation_id'') (\<lambda>operation_id.
     bindr (ea_required_text (kw ''attempt_id'') ''attempt_id'') (\<lambda>attempt_id.
     bindr (ea_required_text (kw ''repository'') ''repository'') (\<lambda>repository.
     bindr (ea_optional_text (kw ''source_revision'') ''source_revision'') (\<lambda>source_revision.
     bindr (ea_optional_text (kw ''base_revision'') ''base_revision'') (\<lambda>base_revision.
     bindr (ea_optional_text (kw ''workspace_id'') ''workspace_id'') (\<lambda>workspace_id.
     bindr (ea_optional_text (kw ''target_id'') ''target_id'') (\<lambda>target_id.
     bindr (ea_optional_text (kw ''expires_at'') ''expires_at'') (\<lambda>expires_at.
     bindr (normalize_effects (kw ''effects'') ''effects'') (\<lambda>effects.
     bindr (case expires_at of None \<Rightarrow> Inr () | Some t \<Rightarrow> bindr (parse_expiry cal t) (\<lambda>_. Inr ())) (\<lambda>_.
     let a = \<lparr> ea_authority_id = authority_id, ea_authority_ref = authority_ref, ea_operation_id = operation_id,
               ea_attempt_id = attempt_id, ea_repository = repository, ea_effects = effects,
               ea_source_revision = source_revision, ea_base_revision = base_revision,
               ea_workspace_id = workspace_id, ea_target_id = target_id, ea_expires_at = expires_at,
               ea_authorization_hash = [] \<rparr> in
     bindr (content_hash H (ea_content a)) (\<lambda>h.
     Inr (a\<lparr> ea_authorization_hash := h \<rparr>))))))))))))))"

definition ea_from_mapping ::
  "(string \<Rightarrow> string) \<Rightarrow> (string \<Rightarrow> (int \<times> bool) option) \<Rightarrow> pyval \<Rightarrow> authorization res" where
  "ea_from_mapping H cal payload =
     bindr (raise_if (\<not> is_mapping payload) EffectAuthorizationError ''effect_authorization must be a mapping'') (\<lambda>_.
     bindr (raise_if (set (dkeys (dict_of payload)) \<noteq> EFFECT_AUTHORIZATION_FIELDS) EffectAuthorizationError
              ''effect authorization fields mismatch'') (\<lambda>_.
     bindr (raise_if (vget payload ''schema'' \<noteq> PStr EFFECT_AUTHORIZATION_SCHEMA) EffectAuthorizationError
              ''effect authorization schema mismatch'') (\<lambda>_.
     bindr (ea_build H cal (vget payload)) (\<lambda>built.
     bindr (ea_required_text (vget payload ''authorization_hash'') ''authorization_hash'') (\<lambda>observed.
     bindr (raise_if (observed \<noteq> ea_authorization_hash built) EffectAuthorizationError
              ''effect authorization hash mismatch'') (\<lambda>_.
     Inr built))))))"

definition assert_integrity :: "(string \<Rightarrow> string) \<Rightarrow> authorization \<Rightarrow> unit res" where
  "assert_integrity H a =
     bindr (content_hash H (ea_content a)) (\<lambda>h.
     raise_if (h \<noteq> ea_authorization_hash a) EffectAuthorizationError
       ''effect authorization content mutated after hashing'')"

definition assert_fresh :: "(string \<Rightarrow> (int \<times> bool) option) \<Rightarrow> int \<Rightarrow> authorization \<Rightarrow> unit res" where
  "assert_fresh cal now a =
     (case ea_expires_at a of
        None \<Rightarrow> Inr ()
      | Some t \<Rightarrow> bindr (parse_expiry cal t) (\<lambda>expiry.
          raise_if (now \<ge> expiry) EffectAuthorizationError ''effect authorization expired''))"

definition ea_identity :: "authorization \<Rightarrow> (string \<times> pyval) list" where
  "ea_identity a =
     [(''attempt_id'', PStr (ea_attempt_id a)), (''operation_id'', PStr (ea_operation_id a)),
      (''repository'', PStr (ea_repository a)), (''source_revision'', opt_str (ea_source_revision a)),
      (''base_revision'', opt_str (ea_base_revision a)), (''workspace_id'', opt_str (ea_workspace_id a)),
      (''target_id'', opt_str (ea_target_id a))]"

definition assert_identity :: "authorization \<Rightarrow> (string \<Rightarrow> pyval) \<Rightarrow> unit res" where
  "assert_identity a expected =
     bindr (map_res (\<lambda>(field, v). raise_if (\<not> is_none (expected field) \<and> \<not> py_eq v (expected field))
              EffectAuthorizationError (''effect authorization identity mismatch: '' @ field)) (ea_identity a))
       (\<lambda>_. Inr ())"

text \<open>The authority port: only the value \<open>True\<close> of the verifier accepts.\<close>

definition authority_verify :: "(authorization \<Rightarrow> pyval res) \<Rightarrow> authorization \<Rightarrow> bool res" where
  "authority_verify verifier a =
     bindr (verifier a) (\<lambda>v.
     bindr (raise_if (\<not> is_True v) EffectAuthorizationError
              ''effect authorization authority rejected the authorization'') (\<lambda>_. Inr True))"

section \<open>Tool projections\<close>

record projection =
  tp_authorization_hash :: string
  tp_operation_id :: string
  tp_attempt_id :: string
  tp_provider :: string
  tp_backend_id :: string
  tp_selected_tools :: "string list"
  tp_selected_effects :: dict
  tp_projection_hash :: string

definition tp_content :: "projection \<Rightarrow> dict" where
  "tp_content p =
     [(''schema'', PStr TOOL_PROJECTION_SCHEMA), (''authorization_hash'', PStr (tp_authorization_hash p)),
      (''operation_id'', PStr (tp_operation_id p)), (''attempt_id'', PStr (tp_attempt_id p)),
      (''provider'', PStr (tp_provider p)), (''backend_id'', PStr (tp_backend_id p)),
      (''selected_tools'', PList (map PStr (tp_selected_tools p))),
      (''selected_effects'', PDict (tp_selected_effects p)),
      (''authority_kind'', PStr ''DERIVED_PROJECTION_ONLY'')]"

definition tp_to_dict :: "projection \<Rightarrow> dict" where
  "tp_to_dict p = tp_content p @ [(''projection_hash'', PStr (tp_projection_hash p))]"

definition tp_build ::
  "(string \<Rightarrow> string) \<Rightarrow> (string \<Rightarrow> (int \<times> bool) option) \<Rightarrow> int \<Rightarrow> authorization \<Rightarrow>
   pyval \<Rightarrow> pyval \<Rightarrow> pyval \<Rightarrow> pyval \<Rightarrow> projection res" where
  "tp_build H cal now a provider backend_id selected_tools selected_effects =
     bindr (assert_integrity H a) (\<lambda>_.
     bindr (assert_fresh cal now a) (\<lambda>_.
     bindr (ea_required_text provider ''provider'') (\<lambda>provider_value.
     bindr (ea_required_text backend_id ''backend_id'') (\<lambda>backend_value.
     bindr (normalize_tools selected_tools) (\<lambda>tools.
     bindr (normalize_effects selected_effects ''selected_effects'') (\<lambda>effects.
     bindr (is_subset (PDict effects) (PDict (ea_effects a))) (\<lambda>within_ceiling.
     bindr (raise_if (\<not> within_ceiling) EffectAuthorizationError ''tool projection widens authorized effects'') (\<lambda>_.
     let p = \<lparr> tp_authorization_hash = ea_authorization_hash a, tp_operation_id = ea_operation_id a,
               tp_attempt_id = ea_attempt_id a, tp_provider = provider_value, tp_backend_id = backend_value,
               tp_selected_tools = tools, tp_selected_effects = effects, tp_projection_hash = [] \<rparr> in
     bindr (content_hash H (tp_content p)) (\<lambda>h.
     Inr (p\<lparr> tp_projection_hash := h \<rparr>))))))))))"

definition tp_from_mapping ::
  "(string \<Rightarrow> string) \<Rightarrow> (string \<Rightarrow> (int \<times> bool) option) \<Rightarrow> int \<Rightarrow> pyval \<Rightarrow> authorization \<Rightarrow> projection res" where
  "tp_from_mapping H cal now payload a =
     bindr (raise_if (\<not> is_mapping payload) EffectAuthorizationError ''tool projection manifest must be a mapping'') (\<lambda>_.
     bindr (raise_if (set (dkeys (dict_of payload)) \<noteq> TOOL_PROJECTION_FIELDS) EffectAuthorizationError
              ''tool projection fields mismatch'') (\<lambda>_.
     bindr (raise_if (vget payload ''schema'' \<noteq> PStr TOOL_PROJECTION_SCHEMA) EffectAuthorizationError
              ''tool projection schema mismatch'') (\<lambda>_.
     bindr (raise_if (vget payload ''authority_kind'' \<noteq> PStr ''DERIVED_PROJECTION_ONLY'') EffectAuthorizationError
              ''tool projection cannot become authority'') (\<lambda>_.
     bindr (raise_if (vget payload ''authorization_hash'' \<noteq> PStr (ea_authorization_hash a)) EffectAuthorizationError
              ''tool projection authorization hash mismatch'') (\<lambda>_.
     bindr (tp_build H cal now a (vget payload ''provider'') (vget payload ''backend_id'')
              (vget payload ''selected_tools'') (vget payload ''selected_effects'')) (\<lambda>built.
     bindr (raise_if (vget payload ''operation_id'' \<noteq> PStr (ea_operation_id a)) EffectAuthorizationError
              ''tool projection operation identity mismatch'') (\<lambda>_.
     bindr (raise_if (vget payload ''attempt_id'' \<noteq> PStr (ea_attempt_id a)) EffectAuthorizationError
              ''tool projection attempt identity mismatch'') (\<lambda>_.
     bindr (ea_required_text (vget payload ''projection_hash'') ''projection_hash'') (\<lambda>observed.
     bindr (raise_if (observed \<noteq> tp_projection_hash built) EffectAuthorizationError
              ''tool projection hash mismatch'') (\<lambda>_.
     Inr built))))))))))"

section \<open>Lemmas\<close>

subsection \<open>Normalized effects\<close>

lemma normalize_normal: "normalize_json_value v field = Inr w \<Longrightarrow> normal w"
  unfolding normalize_json_value_def by (rule norm_value_normal)

lemma normalize_id: "normal v \<Longrightarrow> normalize_json_value v field = Inr v"
  unfolding normalize_json_value_def by (rule norm_value_id)

lemma normal_canonical: "normal v \<Longrightarrow> \<exists>s. ea_canonical_json v = Inr s"
  unfolding ea_canonical_json_def by (rule canon_json_normal)

lemma normalize_effects_normal: "normalize_effects v field = Inr d \<Longrightarrow> normal (PDict d) \<and> d \<noteq> []"
proof -
  assume a: "normalize_effects v field = Inr d"
  let ?f = "\<lambda>p. bindr (ea_required_text (PStr (fst p)) (field @ ''.domain'')) (\<lambda>name.
    bindr (normalize_json_value (snd p) (field @ ''.'' @ name)) (\<lambda>v. Inr (name, v)))"
  from a obtain items where items: "map_res ?f (dict_of v) = Inr items" and d: "d = dmerge [] items" and "dict_of v \<noteq> []"
    by (auto simp: normalize_effects_def bindr_eq_Inr Let_def split: if_splits)
  then have "items \<noteq> []" by (cases "dict_of v") (auto simp: bindr_eq_Inr)
  then have "dmerge [] items \<noteq> []" using keys_dmerge [of "[]" items] by auto
  have "solid (fst q) \<and> normal (snd q)" if "q \<in> set d" for q
  proof -
    have "q \<in> set items" using that set_dmerge [of "[]" items] by (auto simp: d)
    from map_res_member [OF items this] obtain p where "p \<in> set (dict_of v)" "?f p = Inr q" by blast
    then show ?thesis by (auto simp: bindr_eq_Inr ea_required_text_def dest: require_text_solid normalize_normal)
  qed
  then show ?thesis using distinct_dmerge [of "[]" items] \<open>dmerge [] items \<noteq> []\<close> by (simp add: d)
qed

lemma normalize_effects_id:
  assumes "normal (PDict d)" and "d \<noteq> []"
  shows "normalize_effects (PDict d) field = Inr d"
proof -
  let ?f = "\<lambda>p. bindr (ea_required_text (PStr (fst p)) (field @ ''.domain'')) (\<lambda>name.
    bindr (normalize_json_value (snd p) (field @ ''.'' @ name)) (\<lambda>v. Inr (name, v)))"
  have "?f p = Inr p" if "p \<in> set d" for p
    using that assms by (auto simp: ea_required_text_def normalize_id)
  then have "map_res ?f d = Inr d" using map_res_Inr_map [of d ?f "\<lambda>p. p"] by simp
  then show ?thesis using dmerge_distinct [of "[]" d] assms normal_canonical [OF assms(1)]
    by (auto simp: normalize_effects_def)
qed

subsection \<open>Narrowing\<close>

lemma list_all2_trans_on:
  assumes "list_all2 P xs ys" and "list_all2 P ys zs"
    and "\<And>x y z. x \<in> set xs \<Longrightarrow> y \<in> set ys \<Longrightarrow> P x y \<Longrightarrow> P y z \<Longrightarrow> P x z"
  shows "list_all2 P xs zs"
  using assms by (simp add: list_all2_conv_all_nth) (metis nth_mem)

lemma py_eq_number: "py_eq v w \<Longrightarrow> num_val v = Some r \<Longrightarrow> num_val w = Some r"
  by (cases v rule: num_val.cases) auto

lemma py_eq_trans: "py_eq u v \<Longrightarrow> py_eq v w \<Longrightarrow> py_eq u w"
proof (induction u v arbitrary: w rule: py_eq.induct)
  case (4 xs v)
  then obtain ys zs where "v = PList ys" "list_all2 py_eq xs ys" "w = PList zs" "list_all2 py_eq ys zs"
    by (auto split: pyval.splits)
  with "4.IH" show ?case by (auto intro: list_all2_trans_on)
next
  case (5 xs v)
  then obtain ys zs where "v = PTuple ys" "list_all2 py_eq xs ys" "w = PTuple zs" "list_all2 py_eq ys zs"
    by (auto split: pyval.splits)
  with "5.IH" show ?case by (auto intro: list_all2_trans_on)
next
  case (6 d v)
  then obtain e g where v: "v = PDict e" "length d = length e" "w = PDict g" "length e = length g"
    and de: "\<And>k x. (k, x) \<in> set d \<Longrightarrow> \<exists>y. map_of e k = Some y \<and> py_eq x y"
    and eg: "\<And>k y. (k, y) \<in> set e \<Longrightarrow> \<exists>z. map_of g k = Some z \<and> py_eq y z"
    by (fastforce simp: list_all_iff split: pyval.splits option.splits)
  have "\<exists>z. map_of g k = Some z \<and> py_eq x z" if "(k, x) \<in> set d" for k x
  proof -
    from de [OF that] obtain y where y: "map_of e k = Some y" "py_eq x y" by blast
    with eg [OF map_of_SomeD] obtain z where "map_of g k = Some z" "py_eq y z" by blast
    with y "6.IH" [OF v(1) that refl] show ?thesis by auto
  qed
  then show ?case by (fastforce simp: v list_all_iff)
qed (auto simp: eq_commute [of "Some _"] split: pyval.splits dest: py_eq_number)

text \<open>Values that are compared as a whole.\<close>

fun leaf :: "pyval \<Rightarrow> bool" where
  "leaf (PDict _) = False"
| "leaf (PList _) = False"
| "leaf _ = True"

lemma is_subset_leaf: "leaf v \<Longrightarrow> is_subset v w = Inr (py_eq v w)"
  by (cases v) auto

lemma py_eq_leaf: "leaf v \<Longrightarrow> py_eq v w \<Longrightarrow> leaf w"
proof (cases v)
  case (PFloat f)
  then show "py_eq v w \<Longrightarrow> leaf w" by (cases f; cases w) auto
qed (cases w; simp split: pyval.splits)+

lemma is_subset_leaf_trans: "leaf u \<Longrightarrow> is_subset u v = Inr True \<Longrightarrow> is_subset v w = Inr True \<Longrightarrow> is_subset u w = Inr True"
  using py_eq_leaf [of u v] py_eq_trans [of u v w] by (simp add: is_subset_leaf)

text \<open>The canonical texts of the items of a list.\<close>

definition item_texts :: "pyval list \<Rightarrow> string set" where
  "item_texts xs = {s. \<exists>x \<in> set xs. ea_canonical_json x = Inr s}"

lemma is_subset_dict:
  "is_subset (PDict d) w = Inr True \<longleftrightarrow>
     (\<exists>e. w = PDict e \<and> (\<forall>p \<in> set d. \<exists>c. map_of e (fst p) = Some c \<and> is_subset (snd p) c = Inr True))"
proof (cases w)
  case (PDict e)
  then show ?thesis by (auto simp: all_res_True split: option.splits)
qed simp_all

lemma is_subset_list:
  "is_subset (PList xs) w = Inr True \<longleftrightarrow>
     (\<exists>ys items. w = PList ys \<and> map_res ea_canonical_json ys = Inr items \<and>
        (\<forall>x \<in> set xs. \<exists>s \<in> set items. ea_canonical_json x = Inr s))"
  by (cases w) (simp_all add: bindr_eq_Inr all_res_True Bex_def conj_commute)

declare is_subset.simps(1,2) [simp del]

lemma is_subset_trans:
  "is_subset u v = Inr True \<Longrightarrow> is_subset v w = Inr True \<Longrightarrow> is_subset u w = Inr True"
proof (induction u v arbitrary: w rule: is_subset.induct)
  case (1 d v)
  then obtain e g where v: "v = PDict e" "w = PDict g" by (auto simp: is_subset_dict)
  have "\<exists>c. map_of g (fst p) = Some c \<and> is_subset (snd p) c = Inr True" if "p \<in> set d" for p
  proof -
    from "1.prems" that obtain b where b: "map_of e (fst p) = Some b" "is_subset (snd p) b = Inr True"
      by (auto simp: is_subset_dict v)
    from map_of_SomeD [OF b(1)] "1.prems" obtain c where "map_of g (fst p) = Some c" "is_subset b c = Inr True"
      by (force simp: is_subset_dict v)
    with "1.IH" [of p b c] b that v show ?thesis by auto
  qed
  then show ?case by (simp add: is_subset_dict v)
next
  case (2 xs v)
  then obtain ys zs its items where v: "v = PList ys" "map_res ea_canonical_json ys = Inr its"
    "w = PList zs" "map_res ea_canonical_json zs = Inr items"
    and xy: "\<forall>x \<in> set xs. \<exists>s \<in> set its. ea_canonical_json x = Inr s"
    and yz: "\<forall>y \<in> set ys. \<exists>s \<in> set items. ea_canonical_json y = Inr s"
    by (auto simp: is_subset_list)
  have "\<exists>s \<in> set items. ea_canonical_json x = Inr s" if "x \<in> set xs" for x
    using xy that map_res_member [OF v(2)] yz by fastforce
  then show ?case by (simp add: is_subset_list v)
qed (erule (1) is_subset_leaf_trans [rotated], simp)+

subsection \<open>Paths\<close>

text \<open>
  The meaning of a ceiling: the value at the end of every path of keys, and what a ceiling's value
  permits at the same path.
\<close>

fun at_path :: "pyval \<Rightarrow> string list \<Rightarrow> pyval option" where
  "at_path v [] = Some v"
| "at_path (PDict d) (k # ks) = (case map_of d k of None \<Rightarrow> None | Some w \<Rightarrow> at_path w ks)"
| "at_path v (k # ks) = None"

definition permits :: "pyval \<Rightarrow> pyval \<Rightarrow> bool" where
  "permits w v = (case v of
       PDict _ \<Rightarrow> is_mapping w
     | PList xs \<Rightarrow> (case w of PList ys \<Rightarrow> item_texts xs \<subseteq> item_texts ys | _ \<Rightarrow> False)
     | _ \<Rightarrow> py_eq v w)"

lemma map_res_set: "map_res f xs = Inr ys \<Longrightarrow> set ys = {y. \<exists>x \<in> set xs. f x = Inr y}"
  by (induction xs arbitrary: ys) (auto simp: bindr_eq_Inr)

lemma is_subset_list_normal:
  assumes "normal (PList xs)" and "normal w"
  shows "is_subset (PList xs) w = Inr True \<longleftrightarrow> permits w (PList xs)"
proof (cases w)
  case (PList ys)
  with assms have "\<exists>its. map_res ea_canonical_json ys = Inr its" by (intro map_res_total normal_canonical) simp
  then obtain its where its: "map_res ea_canonical_json ys = Inr its" by blast
  have "(\<exists>s \<in> set its. ea_canonical_json x = Inr s) \<longleftrightarrow> item_texts [x] \<subseteq> item_texts ys" if "x \<in> set xs" for x
    using normal_canonical [of x] assms(1) that by (auto simp: item_texts_def map_res_set [OF its])
  then show ?thesis by (auto simp: is_subset_list PList its permits_def item_texts_def)
qed (simp_all add: is_subset_list permits_def)

lemma at_path_leaf: "leaf v \<Longrightarrow> at_path v ks = (if ks = [] then Some v else None)"
  by (cases v; cases ks) auto

lemma permits_leaf: "leaf v \<Longrightarrow> permits w v \<longleftrightarrow> py_eq v w"
  by (cases v) (auto simp: permits_def)

definition path_within :: "pyval \<Rightarrow> pyval \<Rightarrow> bool" where
  "path_within v w \<longleftrightarrow> (\<forall>ks x. at_path v ks = Some x \<longrightarrow> (\<exists>y. at_path w ks = Some y \<and> permits y x))"

lemma path_within_dict:
  assumes "distinct (map fst d)"
  shows "path_within (PDict d) w \<longleftrightarrow>
    (\<exists>e. w = PDict e \<and> (\<forall>p \<in> set d. \<exists>c. map_of e (fst p) = Some c \<and> path_within (snd p) c))"
proof
  assume within: "path_within (PDict d) w"
  from within have "\<exists>y. at_path w [] = Some y \<and> permits y (PDict d)"
    unfolding path_within_def by (metis at_path.simps(1))
  then have "permits w (PDict d)" by simp
  then obtain e where e: "w = PDict e" by (auto simp: permits_def is_mapping_iff)
  have "\<exists>c. map_of e (fst p) = Some c \<and> path_within (snd p) c" if "p \<in> set d" for p
  proof -
    have m: "map_of d (fst p) = Some (snd p)" using assms that by simp
    have step: "\<exists>y. at_path w (fst p # ks) = Some y \<and> permits y x" if "at_path (snd p) ks = Some x" for ks x
      using within that m unfolding path_within_def by (metis at_path.simps(2) option.simps(5))
    from step [of "[]" "snd p"] obtain c where c: "map_of e (fst p) = Some c" by (auto simp: e split: option.splits)
    with step show ?thesis by (auto simp: path_within_def e)
  qed
  then show "\<exists>e. w = PDict e \<and> (\<forall>p \<in> set d. \<exists>c. map_of e (fst p) = Some c \<and> path_within (snd p) c)"
    using e by blast
next
  assume "\<exists>e. w = PDict e \<and> (\<forall>p \<in> set d. \<exists>c. map_of e (fst p) = Some c \<and> path_within (snd p) c)"
  then obtain e where e: "w = PDict e" and all: "\<And>p. p \<in> set d \<Longrightarrow> \<exists>c. map_of e (fst p) = Some c \<and> path_within (snd p) c"
    by blast
  show "path_within (PDict d) w"
    unfolding path_within_def
  proof (intro allI impI)
    fix ks x
    assume at: "at_path (PDict d) ks = Some x"
    show "\<exists>y. at_path w ks = Some y \<and> permits y x"
    proof (cases ks)
      case Nil
      with at show ?thesis by (auto simp: e permits_def)
    next
      case (Cons k ks')
      with at obtain v where v: "map_of d k = Some v" "at_path v ks' = Some x" by (auto split: option.splits)
      with all [OF map_of_SomeD [OF v(1)]] show ?thesis by (auto simp: e Cons path_within_def)
    qed
  qed
qed

lemma is_subset_iff_path_within: "normal v \<Longrightarrow> normal w \<Longrightarrow> is_subset v w = Inr True \<longleftrightarrow> path_within v w"
proof (induction v w rule: is_subset.induct)
  case (1 d w)
  show ?case
  proof (cases w)
    case (PDict e)
    have "is_subset (snd p) c = Inr True \<longleftrightarrow> path_within (snd p) c"
      if "p \<in> set d" "map_of e (fst p) = Some c" for p c
      using "1.IH" [of p c] "1.prems" that map_of_SomeD [OF that(2)] by (auto simp: PDict)
    then have "(\<exists>c. map_of e (fst p) = Some c \<and> is_subset (snd p) c = Inr True) \<longleftrightarrow>
        (\<exists>c. map_of e (fst p) = Some c \<and> path_within (snd p) c)" if "p \<in> set d" for p
      using that by blast
    moreover have "distinct (map fst d)" using "1.prems" by simp
    ultimately show ?thesis by (simp add: is_subset_dict path_within_dict PDict del: map_of_eq_Some_iff)
  qed (use "1.prems" in \<open>auto simp: is_subset_dict path_within_dict\<close>)
next
  case (2 xs w)
  have "path_within (PList xs) w \<longleftrightarrow> permits w (PList xs)"
  proof -
    have "at_path (PList xs) ks = Some x \<longleftrightarrow> ks = [] \<and> x = PList xs" for ks x by (cases ks) auto
    then show ?thesis by (simp add: path_within_def)
  qed
  with is_subset_list_normal [OF 2] show ?case by simp
qed (simp_all add: path_within_def at_path_leaf permits_leaf)

subsection \<open>Authorizations\<close>

definition opt_solid :: "string option \<Rightarrow> bool" where
  "opt_solid x = (case x of None \<Rightarrow> True | Some s \<Rightarrow> solid s)"

definition ea_wf :: "(string \<Rightarrow> string) \<Rightarrow> (string \<Rightarrow> (int \<times> bool) option) \<Rightarrow> authorization \<Rightarrow> bool" where
  "ea_wf H cal a \<longleftrightarrow>
     solid (ea_authority_id a) \<and> solid (ea_authority_ref a) \<and> solid (ea_operation_id a) \<and> solid (ea_attempt_id a) \<and>
     solid (ea_repository a) \<and> opt_solid (ea_source_revision a) \<and> opt_solid (ea_base_revision a) \<and>
     opt_solid (ea_workspace_id a) \<and> opt_solid (ea_target_id a) \<and> opt_solid (ea_expires_at a) \<and>
     normal (PDict (ea_effects a)) \<and> ea_effects a \<noteq> [] \<and>
     (case ea_expires_at a of None \<Rightarrow> True | Some t \<Rightarrow> \<exists>e. parse_expiry cal t = Inr e) \<and>
     content_hash H (ea_content a) = Inr (ea_authorization_hash a)"

lemma ea_optional_text_solid: "ea_optional_text v f = Inr x \<Longrightarrow> opt_solid x"
  by (auto simp: ea_optional_text_def ea_required_text_def bindr_eq_Inr opt_solid_def dest: require_text_solid split: if_splits)

lemma ea_required_text_solid: "ea_required_text v f = Inr t \<Longrightarrow> solid t"
  by (auto simp: ea_required_text_def dest: require_text_solid)

lemma ea_optional_text_id [simp]: "opt_solid x \<Longrightarrow> ea_optional_text (opt_str x) f = Inr x"
  by (cases x) (simp_all add: ea_optional_text_def ea_required_text_def opt_solid_def opt_str_def)

lemma ea_required_text_id [simp]: "solid s \<Longrightarrow> ea_required_text (PStr s) f = Inr s"
  by (simp add: ea_required_text_def)

lemma ea_content_hash [simp]: "ea_content (a\<lparr> ea_authorization_hash := h \<rparr>) = ea_content a"
  by (simp add: ea_content_def)

lemma ea_build_wf: "ea_build H cal kw = Inr a \<Longrightarrow> ea_wf H cal a"
  unfolding ea_build_def Let_def
  by (clarsimp simp: bindr_eq_Inr simp del: normal.simps)
    (auto simp: ea_wf_def ea_content_def bindr_eq_Inr simp del: normal.simps intro: ea_required_text_solid ea_optional_text_solid
      dest!: normalize_effects_normal split: option.split_asm)

lemma vget_ea_to_dict [simp]:
  "vget (PDict (ea_to_dict a)) ''schema'' = PStr EFFECT_AUTHORIZATION_SCHEMA"
  "vget (PDict (ea_to_dict a)) ''authority_id'' = PStr (ea_authority_id a)"
  "vget (PDict (ea_to_dict a)) ''authority_ref'' = PStr (ea_authority_ref a)"
  "vget (PDict (ea_to_dict a)) ''operation_id'' = PStr (ea_operation_id a)"
  "vget (PDict (ea_to_dict a)) ''attempt_id'' = PStr (ea_attempt_id a)"
  "vget (PDict (ea_to_dict a)) ''repository'' = PStr (ea_repository a)"
  "vget (PDict (ea_to_dict a)) ''source_revision'' = opt_str (ea_source_revision a)"
  "vget (PDict (ea_to_dict a)) ''base_revision'' = opt_str (ea_base_revision a)"
  "vget (PDict (ea_to_dict a)) ''workspace_id'' = opt_str (ea_workspace_id a)"
  "vget (PDict (ea_to_dict a)) ''target_id'' = opt_str (ea_target_id a)"
  "vget (PDict (ea_to_dict a)) ''expires_at'' = opt_str (ea_expires_at a)"
  "vget (PDict (ea_to_dict a)) ''effects'' = PDict (ea_effects a)"
  "vget (PDict (ea_to_dict a)) ''authorization_hash'' = PStr (ea_authorization_hash a)"
  by (simp_all add: ea_to_dict_def ea_content_def vget_def dget_def)

lemma keys_ea_to_dict: "set (dkeys (ea_to_dict a)) = EFFECT_AUTHORIZATION_FIELDS"
  by (simp add: ea_to_dict_def ea_content_def dkeys_def EFFECT_AUTHORIZATION_FIELDS_def insert_commute)

lemma ea_rebuild:
  assumes "ea_wf H cal a"
  shows "ea_build H cal (vget (PDict (ea_to_dict a))) = Inr a"
proof -
  let ?a = "a\<lparr> ea_authorization_hash := [] \<rparr>"
  have exp: "(case ea_expires_at a of None \<Rightarrow> Inr () | Some t \<Rightarrow> bindr (parse_expiry cal t) (\<lambda>_. Inr ())) = Inr ()"
    using assms by (auto simp: ea_wf_def split: option.splits)
  have rec: "\<lparr> ea_authority_id = ea_authority_id a, ea_authority_ref = ea_authority_ref a,
      ea_operation_id = ea_operation_id a, ea_attempt_id = ea_attempt_id a, ea_repository = ea_repository a,
      ea_effects = ea_effects a, ea_source_revision = ea_source_revision a, ea_base_revision = ea_base_revision a,
      ea_workspace_id = ea_workspace_id a, ea_target_id = ea_target_id a, ea_expires_at = ea_expires_at a,
      ea_authorization_hash = [] \<rparr> = ?a" by simp
  have "content_hash H (ea_content ?a) = Inr (ea_authorization_hash a)" using assms by (simp add: ea_wf_def)
  then show ?thesis
    unfolding ea_build_def Let_def vget_ea_to_dict
    using assms by (simp add: ea_wf_def normalize_effects_id exp rec)
qed

subsection \<open>Projections\<close>

lemma tp_build_facts:
  assumes "tp_build H cal now a pr be tools effs = Inr p"
  shows "is_subset (PDict (tp_selected_effects p)) (PDict (ea_effects a)) = Inr True"
    and "normal (PDict (tp_selected_effects p))"
    and "content_hash H (ea_content a) = Inr (ea_authorization_hash a)"
    and "case ea_expires_at a of None \<Rightarrow> True | Some t \<Rightarrow> \<exists>e. parse_expiry cal t = Inr e \<and> now < e"
    and "tp_authorization_hash p = ea_authorization_hash a \<and> tp_operation_id p = ea_operation_id a \<and>
      tp_attempt_id p = ea_attempt_id a"
  using assms unfolding tp_build_def Let_def
  by (auto simp: bindr_eq_Inr raise_if_eq_Inr assert_integrity_def assert_fresh_def simp del: normal.simps
      dest!: normalize_effects_normal split: option.splits)

section \<open>Sample authorization\<close>

definition sample_calendar :: "string \<Rightarrow> (int \<times> bool) option" where
  "sample_calendar s = Some (10, True)"

definition sample_effects :: pyval where
  "sample_effects = PDict [(''network'', PDict [(''hosts'', PList [PStr ''a'', PStr ''b'']), (''write'', PBool False)])]"

definition sample_arguments :: "string \<Rightarrow> pyval" where
  "sample_arguments k = (if k = ''effects'' then sample_effects else if k = ''target_id'' then PNone else PStr ''x'')"

definition sample_authorization :: authorization where
  "sample_authorization = projr (ea_build sample_hash sample_calendar sample_arguments)"

definition sample_selection :: pyval where
  "sample_selection = PDict [(''network'', PDict [(''hosts'', PTuple [PStr ''b''])])]"

definition sample_projection :: projection where
  "sample_projection = projr (tp_build sample_hash sample_calendar 9 sample_authorization (PStr ''p'') (PStr ''q'')
     (PList [PStr ''t'']) sample_selection)"

lemma sample_authorization_ok: "ea_build sample_hash sample_calendar sample_arguments = Inr sample_authorization"
proof -
  have "\<not> isl (ea_build sample_hash sample_calendar sample_arguments)" by code_simp
  then show ?thesis by (simp add: sample_authorization_def)
qed

lemma sample_projection_ok:
  "tp_build sample_hash sample_calendar 9 sample_authorization (PStr ''p'') (PStr ''q'') (PList [PStr ''t''])
     sample_selection = Inr sample_projection"
proof -
  have "\<not> isl (tp_build sample_hash sample_calendar 9 sample_authorization (PStr ''p'') (PStr ''q'')
    (PList [PStr ''t'']) sample_selection)" by code_simp
  then show ?thesis by (simp add: sample_projection_def)
qed

section \<open>Properties\<close>

text \<open>
  C32 (projection_narrows). A projection is only ever built from an authorization whose content still
  has its hash and that has not expired; it is bound to that authorization, and its effects are
  within every ceiling the authorized effects are within, however the ceilings were nested.
\<close>

theorem projection_narrows:
  assumes "tp_build H cal now a pr be tools effs = Inr p"
  shows "content_hash H (ea_content a) = Inr (ea_authorization_hash a) \<and>
    (case ea_expires_at a of None \<Rightarrow> True | Some t \<Rightarrow> \<exists>e. parse_expiry cal t = Inr e \<and> now < e) \<and>
    tp_authorization_hash p = ea_authorization_hash a \<and>
    is_subset (PDict (tp_selected_effects p)) (PDict (ea_effects a)) = Inr True \<and>
    (is_subset (PDict (ea_effects a)) c = Inr True \<longrightarrow> is_subset (PDict (tp_selected_effects p)) c = Inr True)"
  using tp_build_facts [OF assms] is_subset_trans by blast

theorem projection_narrows_witness:
  "content_hash sample_hash (ea_content sample_authorization) = Inr (ea_authorization_hash sample_authorization) \<and>
   is_subset (PDict (tp_selected_effects sample_projection)) (PDict (ea_effects sample_authorization)) = Inr True"
  using projection_narrows [OF sample_projection_ok] by blast

text \<open>
  C39 (subset_iff_paths). The recursive narrowing test means what a ceiling should mean: normalized
  effects are within a normalized ceiling exactly when at the end of every path of keys of the
  selection the ceiling has a value that permits it: a mapping for a mapping, for a list a list
  that has all its items, and for anything else an equal value.
\<close>

theorem subset_iff_paths:
  assumes "normalize_effects v field = Inr d" and "normalize_effects w field' = Inr e"
  shows "is_subset (PDict d) (PDict e) = Inr True \<longleftrightarrow>
    (\<forall>ks x. at_path (PDict d) ks = Some x \<longrightarrow> (\<exists>y. at_path (PDict e) ks = Some y \<and> permits y x))"
  using is_subset_iff_path_within [of "PDict d" "PDict e"] normalize_effects_normal [OF assms(1)]
    normalize_effects_normal [OF assms(2)] unfolding path_within_def by blast

theorem subset_iff_paths_witness:
  "\<exists>d e. normalize_effects sample_selection ''s'' = Inr d \<and> normalize_effects sample_effects ''e'' = Inr e \<and>
     (\<exists>y. at_path (PDict e) [''network'', ''hosts''] = Some y \<and> permits y (PList [PStr ''b'']))"
proof -
  have "\<not> isl (normalize_effects sample_selection ''s'')" "\<not> isl (normalize_effects sample_effects ''e'')"
    by code_simp+
  then obtain d e where d: "normalize_effects sample_selection ''s'' = Inr d" and e: "normalize_effects sample_effects ''e'' = Inr e"
    by (metis sum.collapse(2))
  have "is_subset (PDict (projr (normalize_effects sample_selection ''s''))) (PDict (projr (normalize_effects sample_effects ''e''))) = Inr True"
    by code_simp
  moreover have "at_path (PDict (projr (normalize_effects sample_selection ''s''))) [''network'', ''hosts''] = Some (PList [PStr ''b''])"
    by code_simp
  ultimately have "is_subset (PDict d) (PDict e) = Inr True"
    "at_path (PDict d) [''network'', ''hosts''] = Some (PList [PStr ''b''])" by (simp_all add: d e)
  with subset_iff_paths [OF d e] d e show ?thesis by blast
qed

text \<open>
  An authorization that was built survives its own mapping: parsing the
  mapping that \<open>to_dict\<close> gives rebuilds it, hash included.
\<close>

theorem authorization_roundtrip:
  assumes "ea_build H cal kw = Inr a" and "hex64 (ea_authorization_hash a)"
  shows "ea_from_mapping H cal (PDict (ea_to_dict a)) = Inr a"
  using ea_rebuild [OF ea_build_wf [OF assms(1)]] hex64_solid [OF assms(2)]
  by (simp add: ea_from_mapping_def keys_ea_to_dict)

theorem authorization_roundtrip_witness:
  "ea_from_mapping sample_hash sample_calendar (PDict (ea_to_dict sample_authorization)) = Inr sample_authorization"
proof (rule authorization_roundtrip [OF sample_authorization_ok])
  show "hex64 (ea_authorization_hash sample_authorization)" by code_simp
qed

end
