(* ===== verification/Execution_State.thy ===== *)
theory Execution_State
  imports Json_Store "HOL-Library.Product_Lexorder"
begin

text \<open>
  The durable execution state of tasks (\<open>execution_state/store.py\<close>): one JSON document per task in
  a state directory, with archived attempts in a sibling directory. Task identifiers are untrusted:
  they are validated before they become file names, and every path is checked to stay inside the
  configured roots. Paths are lists of components below the file system root; \<open>..\<close> and \<open>.\<close> are
  resolved, symbolic links do not occur. The validator, the error receipt, the write hook and the
  modification times are parameters of a store; a section under the lock is one step.
\<close>

section \<open>Paths\<close>

fun split_slash :: "string \<Rightarrow> string list" where
  "split_slash [] = [[]]"
| "split_slash (c # s) =
     (if c = CHR ''/'' then [] # split_slash s
      else case split_slash s of [] \<Rightarrow> [[c]] | w # ws \<Rightarrow> (c # w) # ws)"

text \<open>The components of a relative path text, and \<open>base / text\<close>.\<close>

definition path_parts :: "string \<Rightarrow> path" where
  "path_parts s = filter (\<lambda>c. c \<noteq> [] \<and> c \<noteq> ''.'') (split_slash s)"

definition join_path :: "path \<Rightarrow> string \<Rightarrow> path" where
  "join_path base s = (if starts_with ''/'' s then path_parts s else base @ path_parts s)"

text \<open>\<open>Path.resolve()\<close> without symbolic links; the parent of the root is the root.\<close>

fun resolve_from :: "path \<Rightarrow> path \<Rightarrow> path" where
  "resolve_from acc [] = acc"
| "resolve_from acc (c # cs) = (if c = ''..'' then resolve_from (butlast acc) cs else resolve_from (acc @ [c]) cs)"

definition resolve_path :: "path \<Rightarrow> path" where
  "resolve_path p = resolve_from [] p"

definition is_relative_to :: "path \<Rightarrow> path \<Rightarrow> bool" where
  "is_relative_to p base \<longleftrightarrow> take (length base) p = base"

section \<open>The store\<close>

record state_config =
  es_state_dir :: path
  es_validator :: "string \<Rightarrow> dict \<Rightarrow> path \<Rightarrow> pyval res"
  es_error_receipt :: "string \<Rightarrow> path \<Rightarrow> exn \<Rightarrow> pyval res"
  es_before_write :: "(string \<Rightarrow> dict \<Rightarrow> dict option res) option"
  es_validate_writes :: bool

definition archive_dir :: "state_config \<Rightarrow> path" where
  "archive_dir cfg = butlast (es_state_dir cfg) @ [''nexus-state-archive'']"

definition validate_task_id :: "pyval \<Rightarrow> unit res" where
  "validate_task_id v =
    (case v of
       PStr task_id \<Rightarrow>
         bindr (raise_if (task_id = [] \<or> strip task_id = []) ValueError ''task_id must not be empty or whitespace'') (\<lambda>_.
         bindr (raise_if (CHR ''/'' \<in> set task_id \<or> CHR 0x5C \<in> set task_id) ValueError
                  (''task_id must not contain path separators: '' @ repr_str task_id)) (\<lambda>_.
         bindr (raise_if (\<exists>ch \<in> set [CHR ''*'', CHR ''?'', CHR ''['', CHR '']'']. ch \<in> set task_id) ValueError
                  (''task_id must not contain glob metacharacters: '' @ repr_str task_id)) (\<lambda>_.
         bindr (raise_if (CHR 0x00 \<in> set task_id) ValueError
                  (''task_id must not contain NUL bytes: '' @ repr_str task_id)) (\<lambda>_.
         bindr (raise_if (task_id = ''.'' \<or> task_id = ''..'' \<or> starts_with ''..'' task_id) ValueError
                  (''task_id must not contain directory traversal: '' @ repr_str task_id)) (\<lambda>_.
         raise_if (starts_with ''/'' task_id \<or> (2 \<le> length task_id \<and> task_id ! 1 = CHR '':'')) ValueError
                  (''task_id must not be an absolute or rooted path: '' @ repr_str task_id))))))
     | _ \<Rightarrow> Inl (ValueError, ''task_id must be a string, got '' @ type_name v))"

definition path_text :: "path \<Rightarrow> string" where
  "path_text p = ''/'' @ join ''/'' p"

definition assert_contained :: "state_config \<Rightarrow> path \<Rightarrow> bool \<Rightarrow> unit res" where
  "assert_contained cfg p allow_archive =
    (let resolved = resolve_path p in
     if is_relative_to resolved (resolve_path (es_state_dir cfg)) then Inr ()
     else if allow_archive \<and> is_relative_to resolved (resolve_path (archive_dir cfg)) then Inr ()
     else Inl (ValueError, ''path escapes configured state roots: '' @ path_text p))"

definition state_path :: "state_config \<Rightarrow> string \<Rightarrow> path res" where
  "state_path cfg task_id =
     bindr (validate_task_id (PStr task_id)) (\<lambda>_.
     let p = join_path (es_state_dir cfg) (task_id @ ''.json'') in
     bindr (assert_contained cfg p False) (\<lambda>_. Inr p))"

text \<open>\<open>glob(f"{task_id}--attempt-*.json")\<close>.\<close>

definition attempt_name :: "string \<Rightarrow> string \<Rightarrow> bool" where
  "attempt_name task_id n \<longleftrightarrow>
     starts_with (task_id @ ''--attempt-'') n \<and> ends_with ''.json'' (drop (length (task_id @ ''--attempt-'')) n)"

definition archive_candidates :: "state_config \<Rightarrow> store \<Rightarrow> string \<Rightarrow> path list res" where
  "archive_candidates cfg st task_id =
     bindr (validate_task_id (PStr task_id)) (\<lambda>_.
     let base = archive_dir cfg;
         candidates = join_path base (task_id @ ''.json'') # map (\<lambda>n. base @ [n]) (glob_names st base (attempt_name task_id)) in
     map_res (\<lambda>p. bindr (assert_contained cfg p True) (\<lambda>_. Inr p)) (filter (fs_exists st) candidates))"

definition load_path :: "state_config \<Rightarrow> store \<Rightarrow> path \<Rightarrow> string \<Rightarrow> pyval res" where
  "load_path cfg st p task_id =
     bindr (validate_task_id (PStr task_id)) (\<lambda>_.
     bindr (assert_contained cfg p True) (\<lambda>_.
     (case fs_get st p of
        None \<Rightarrow> Inr PNone
      | Some BadFile \<Rightarrow> es_error_receipt cfg task_id p (JSONDecodeError, ''Expecting value'')
      | Some (JsonFile payload) \<Rightarrow>
          if \<not> is_mapping payload
          then es_error_receipt cfg task_id p (ValueError, ''state JSON must decode to an object'')
          else bindr (es_validator cfg task_id (dict_of payload) p) (\<lambda>value.
               Inr (if is_none value then payload else value)))))"

text \<open>\<open>max(values, key=...)\<close>: the first of the greatest.\<close>

fun first_max :: "('a \<Rightarrow> 'b::linorder) \<Rightarrow> 'a \<Rightarrow> 'a list \<Rightarrow> 'a" where
  "first_max f best [] = best"
| "first_max f best (x # xs) = first_max f (if f best < f x then x else best) xs"

text \<open>The loaded archives of a task with their sort keys; a path that vanished is skipped.\<close>

definition archive_values ::
  "state_config \<Rightarrow> (path \<Rightarrow> int) \<Rightarrow> store \<Rightarrow> string \<Rightarrow> ((string \<times> int) \<times> path \<times> pyval) list res" where
  "archive_values cfg mtime st task_id =
     bindr (archive_candidates cfg st task_id) (\<lambda>ps.
     bindr (map_res (\<lambda>p. bindr (load_path cfg st p task_id) (\<lambda>loaded.
              if is_none loaded then Inr None
              else bindr (py_get loaded ''updated_at'') (\<lambda>u.
                   Inr (Some ((str_or u '''', mtime p), p, loaded))))) ps) (\<lambda>vs.
     Inr (List.map_filter (\<lambda>x. x) vs)))"

definition latest_archive :: "state_config \<Rightarrow> (path \<Rightarrow> int) \<Rightarrow> store \<Rightarrow> string \<Rightarrow> (path option \<times> pyval) res" where
  "latest_archive cfg mtime st task_id =
     bindr (validate_task_id (PStr task_id)) (\<lambda>_.
     bindr (archive_values cfg mtime st task_id) (\<lambda>values.
     (case values of
        [] \<Rightarrow> Inr (None, PNone)
      | v # vs \<Rightarrow> (let chosen = first_max fst v vs in Inr (Some (fst (snd chosen)), snd (snd chosen))))))"

definition read_snapshot :: "state_config \<Rightarrow> (path \<Rightarrow> int) \<Rightarrow> store \<Rightarrow> string \<Rightarrow> pyval res" where
  "read_snapshot cfg mtime st task_id =
     bindr (validate_task_id (PStr task_id)) (\<lambda>_.
     bindr (state_path cfg task_id) (\<lambda>p.
     bindr (load_path cfg st p task_id) (\<lambda>value.
     if \<not> is_none value then Inr value
     else bindr (latest_archive cfg mtime st task_id) (\<lambda>r. Inr (snd r)))))"

text \<open>What is written: the state after the validator and the write hook.\<close>

definition checked_state :: "state_config \<Rightarrow> string \<Rightarrow> dict \<Rightarrow> path \<Rightarrow> dict res" where
  "checked_state cfg task_id state p =
     bindr (if es_validate_writes cfg
            then bindr (es_validator cfg task_id state p) (\<lambda>checked.
                 bindr (if is_none checked then Inr True
                        else bindr (py_get checked ''state_valid'') (\<lambda>v. Inr (is_False v))) (\<lambda>bad.
                 bindr (raise_if bad ValueError ''execution state validation failed'') (\<lambda>_.
                 Inr (dict_of checked))))
            else Inr state) (\<lambda>normalized.
     (case es_before_write cfg of
        None \<Rightarrow> Inr normalized
      | Some hook \<Rightarrow> bindr (hook task_id normalized) (\<lambda>transformed.
          Inr (case transformed of None \<Rightarrow> normalized | Some d \<Rightarrow> d))))"

definition write_state :: "state_config \<Rightarrow> store \<Rightarrow> string \<Rightarrow> dict \<Rightarrow> store \<times> dict res" where
  "write_state cfg st task_id state =
    (case
       bindr (validate_task_id (PStr task_id)) (\<lambda>_.
       bindr (state_path cfg task_id) (\<lambda>p.
       bindr (assert_contained cfg p False) (\<lambda>_.
       bindr (checked_state cfg task_id state p) (\<lambda>normalized.
       bindr (json_dumps True True (PDict normalized)) (\<lambda>_. Inr (p, normalized)))))) of
       Inl e \<Rightarrow> (st, Inl e)
     | Inr (p, normalized) \<Rightarrow> (atomic_write st p normalized, Inr normalized))"

definition read_raw :: "state_config \<Rightarrow> store \<Rightarrow> string \<Rightarrow> pyval res" where
  "read_raw cfg st task_id =
     bindr (validate_task_id (PStr task_id)) (\<lambda>_.
     bindr (state_path cfg task_id) (\<lambda>p.
     bindr (assert_contained cfg p False) (\<lambda>_. load_json st p)))"

text \<open>An update is a mapping, or a function that mutates the state in place and returns a value.\<close>

datatype state_update = UpdateFields dict | UpdateWith "dict \<Rightarrow> (dict \<times> pyval) res"

definition updated_state :: "dict \<Rightarrow> state_update \<Rightarrow> dict res" where
  "updated_state current update =
     (case update of
        UpdateFields u \<Rightarrow> Inr (dmerge current u)
      | UpdateWith f \<Rightarrow> bindr (f current) (\<lambda>(value, result).
          if \<not> is_none result then Inl (TypeError, ''state mutator must mutate in place and return None'')
          else Inr value))"

definition mutate_state :: "state_config \<Rightarrow> store \<Rightarrow> string \<Rightarrow> state_update \<Rightarrow> store \<times> dict option res" where
  "mutate_state cfg st task_id update =
    (case
       bindr (validate_task_id (PStr task_id)) (\<lambda>_.
       bindr (state_path cfg task_id) (\<lambda>p.
       bindr (assert_contained cfg p False) (\<lambda>_.
       if \<not> fs_exists st p then Inr None
       else bindr (read_raw cfg st task_id) (\<lambda>current.
            bindr (raise_if (\<not> is_mapping current) ValueError ''execution state must be an object'') (\<lambda>_.
            bindr (updated_state (dict_of current) update) (\<lambda>value. Inr (Some value))))))) of
       Inl e \<Rightarrow> (st, Inl e)
     | Inr None \<Rightarrow> (st, Inr None)
     | Inr (Some value) \<Rightarrow>
         (case write_state cfg st task_id value of (st', r) \<Rightarrow> (st', bindr r (\<lambda>d. Inr (Some d)))))"

text \<open>The default receipt and validator.\<close>

definition default_error_receipt :: "string \<Rightarrow> path \<Rightarrow> exn \<Rightarrow> pyval res" where
  "default_error_receipt task_id p e = Inr (PDict
     [(''task_id'', PStr task_id), (''status'', PStr ''BLOCKED_INVALID_STATE''), (''state_valid'', PBool False),
      (''source_path'', PStr (path_text p)), (''error'', PStr (exc_name (fst e)))])"

definition default_validate :: "string \<Rightarrow> dict \<Rightarrow> path \<Rightarrow> pyval res" where
  "default_validate task_id payload p = Inr
    (if dget payload ''task_id'' \<noteq> PStr task_id \<or>
        \<not> (case dget payload ''status'' of PStr s \<Rightarrow> strip s \<noteq> [] | _ \<Rightarrow> False)
     then PDict [(''task_id'', PStr task_id), (''status'', PStr ''BLOCKED_INVALID_STATE''),
       (''state_valid'', PBool False), (''source_path'', PStr (path_text p))]
     else PDict payload)"

definition default_config :: "path \<Rightarrow> state_config" where
  "default_config dir = \<lparr> es_state_dir = dir, es_validator = default_validate,
     es_error_receipt = default_error_receipt, es_before_write = None, es_validate_writes = True \<rparr>"

section \<open>Lemmas\<close>

abbreviation valid_task_id :: "string \<Rightarrow> bool" where
  "valid_task_id task_id \<equiv> validate_task_id (PStr task_id) = Inr ()"

abbreviation state_file :: "state_config \<Rightarrow> string \<Rightarrow> path" where
  "state_file cfg task_id \<equiv> es_state_dir cfg @ [task_id @ ''.json'']"

lemma validate_cases: "valid_task_id task_id \<or> (\<exists>e. validate_task_id (PStr task_id) = Inl e)"
  by (cases "validate_task_id (PStr task_id)") auto

lemma valid_task_id_plain:
  assumes "valid_task_id task_id"
  shows "CHR ''/'' \<notin> set task_id" "task_id \<noteq> []"
  using assms by (auto simp: validate_task_id_def bindr_eq_Inr raise_if_eq_Inr)

lemma split_slash_plain: "CHR ''/'' \<notin> set s \<Longrightarrow> split_slash s = [s]"
  by (induction s) auto

lemma resolve_from_snoc: "c \<noteq> ''..'' \<Longrightarrow> resolve_from acc (p @ [c]) = resolve_from acc p @ [c]"
  by (induction acc p rule: resolve_from.induct) auto

lemma resolve_path_snoc: "c \<noteq> ''..'' \<Longrightarrow> resolve_path (p @ [c]) = resolve_path p @ [c]"
  by (simp add: resolve_path_def resolve_from_snoc)

lemma json_name: "s @ ''.json'' \<noteq> ''.'' \<and> s @ ''.json'' \<noteq> ''..'' \<and> s @ ''.json'' \<noteq> []"
proof -
  have "length (s @ ''.json'') \<ge> 5" by simp
  moreover have "length ''.'' < 5" "length ''..'' < 5" by simp_all
  ultimately show ?thesis by (metis leD length_greater_0_conv list.size(3) zero_less_numeral)
qed

lemma join_task:
  assumes "valid_task_id task_id"
  shows "join_path dir (task_id @ ''.json'') = dir @ [task_id @ ''.json'']"
proof -
  have n: "CHR ''/'' \<notin> set (task_id @ ''.json'')" using valid_task_id_plain [OF assms] by simp
  have "\<not> starts_with ''/'' (task_id @ ''.json'')"
    using valid_task_id_plain [OF assms] by (cases task_id) (auto simp: starts_with_def)
  then show ?thesis using json_name [of task_id] by (simp add: join_path_def path_parts_def split_slash_plain [OF n])
qed

lemma contained_child: "c \<noteq> ''..'' \<Longrightarrow> is_relative_to (resolve_path (dir @ [c])) (resolve_path dir)"
  by (simp add: is_relative_to_def resolve_path_snoc)

lemma assert_contained_state [simp]: "assert_contained cfg (state_file cfg task_id) b = Inr ()"
  using contained_child json_name by (simp add: assert_contained_def)

lemma state_path_eq:
  "state_path cfg task_id = bindr (validate_task_id (PStr task_id)) (\<lambda>_. Inr (state_file cfg task_id))"
  using validate_cases [of task_id] by (auto simp: state_path_def join_task)

lemma state_file_inj: "state_file cfg a = state_file cfg b \<longleftrightarrow> a = b"
  by simp

text \<open>Writes.\<close>

lemma write_state_eq_Inr:
  "write_state cfg st task_id state = (st', Inr d) \<longleftrightarrow>
     valid_task_id task_id \<and> checked_state cfg task_id state (state_file cfg task_id) = Inr d \<and>
     (\<exists>s. json_dumps True True (PDict d) = Inr s) \<and> st' = atomic_write st (state_file cfg task_id) d"
  using validate_cases [of task_id]
  by (auto simp: write_state_def state_path_eq bindr_eq_Inr bindr_eq_Inl simp del: json_dumps.simps split: sum.splits)

lemma write_state_Inl: "write_state cfg st task_id state = (st', Inl e) \<Longrightarrow> st' = st"
  by (auto simp: write_state_def split: sum.splits)

lemma default_config_simps [simp]:
  "es_state_dir (default_config dir) = dir" "es_validator (default_config dir) = default_validate"
  "es_error_receipt (default_config dir) = default_error_receipt" "es_before_write (default_config dir) = None"
  "es_validate_writes (default_config dir)"
  by (simp_all add: default_config_def)

text \<open>A state the default validator accepts for a task.\<close>

definition valid_state :: "string \<Rightarrow> dict \<Rightarrow> bool" where
  "valid_state task_id d \<longleftrightarrow> dget d ''task_id'' = PStr task_id \<and>
     (case dget d ''status'' of PStr s \<Rightarrow> strip s \<noteq> [] | _ \<Rightarrow> False)"

lemma default_validate_eq:
  "default_validate task_id d p = Inr (if valid_state task_id d then PDict d else PDict
     [(''task_id'', PStr task_id), (''status'', PStr ''BLOCKED_INVALID_STATE''),
       (''state_valid'', PBool False), (''source_path'', PStr (path_text p))])"
  by (simp add: default_validate_def valid_state_def)

lemma checked_state_default:
  "checked_state (default_config dir) task_id state p = Inr d \<longleftrightarrow>
     valid_state task_id state \<and> dget state ''state_valid'' \<noteq> PBool False \<and> d = state"
  by (auto simp: checked_state_def default_validate_eq py_get_def is_False_def raise_if_def dget_def)

lemma valid_state_norm: "valid_state task_id (dict_of (json_norm (PDict d))) \<longleftrightarrow> valid_state task_id d"
proof -
  have "(case json_norm v of PStr s \<Rightarrow> strip s \<noteq> [] | _ \<Rightarrow> False) \<longleftrightarrow> (case v of PStr s \<Rightarrow> strip s \<noteq> [] | _ \<Rightarrow> False)" for v
    by (cases v) simp_all
  then show ?thesis unfolding valid_state_def dget_json_norm by simp
qed

lemma load_written:
  assumes "valid_task_id task_id" and "valid_state task_id d"
  shows "load_path (default_config dir) (atomic_write st (state_file (default_config dir) task_id) d)
    (state_file (default_config dir) task_id) task_id = Inr (json_norm (PDict d))"
proof -
  have "default_validate task_id (dict_of (json_norm (PDict d))) p = Inr (json_norm (PDict d))" for p
    unfolding default_validate_eq valid_state_norm using assms(2) by simp
  moreover have "is_mapping (json_norm (PDict d))" "\<not> is_none (json_norm (PDict d))" by simp_all
  ultimately show ?thesis
    using assms(1) assert_contained_state [of "default_config dir" task_id True]
    by (simp add: load_path_def del: json_norm.simps)
qed

lemma read_raw_eq: "read_raw cfg st task_id = bindr (validate_task_id (PStr task_id)) (\<lambda>_. load_json st (state_file cfg task_id))"
  using validate_cases [of task_id] by (auto simp: read_raw_def state_path_eq)

lemma read_raw_write:
  "valid_task_id t \<Longrightarrow> read_raw cfg (atomic_write st (state_file cfg task_id) d) t
     = (if t = task_id then Inr (json_norm (PDict d)) else read_raw cfg st t)"
  by (simp add: read_raw_eq del: json_norm.simps)

lemma mutate_state_eq_Some:
  "mutate_state cfg st task_id update = (st', Inr (Some d)) \<longleftrightarrow>
     (\<exists>current v. read_raw cfg st task_id = Inr (PDict current) \<and> updated_state current update = Inr v \<and>
        write_state cfg st task_id v = (st', Inr d))"
proof (cases "valid_task_id task_id")
  case False
  then show ?thesis using validate_cases [of task_id] by (auto simp: mutate_state_def read_raw_eq)
next
  case True
  let ?p = "state_file cfg task_id"
  show ?thesis
  proof (cases "fs_exists st ?p")
    case False
    with True show ?thesis
      by (auto simp: mutate_state_def read_raw_eq state_path_eq load_json_def fs_exists_def)
  next
    case ex: True
    show ?thesis
    proof (cases "bindr (read_raw cfg st task_id) (\<lambda>current.
        bindr (raise_if (\<not> is_mapping current) ValueError ''execution state must be an object'') (\<lambda>_.
        updated_state (dict_of current) update))")
      case (Inl e)
      with True ex show ?thesis
        by (auto simp: mutate_state_def state_path_eq bindr_eq_Inl raise_if_eq_Inl split: sum.splits)
    next
      case (Inr v)
      then obtain current where "read_raw cfg st task_id = Inr (PDict current)" "updated_state current update = Inr v"
        by (auto simp: bindr_eq_Inr raise_if_eq_Inr is_mapping_iff)
      with True ex show ?thesis
        by (auto simp: mutate_state_def state_path_eq bindr_eq_Inr split: prod.splits)
    qed
  qed
qed

lemma mutate_state_unchanged:
  assumes "mutate_state cfg st task_id update = (st', x)" and "\<And>d. x \<noteq> Inr (Some d)"
  shows "st' = st"
proof (rule ccontr)
  assume "st' \<noteq> st"
  with assms(1) obtain v r where w: "write_state cfg st task_id v = (st', r)" "x = bindr r (\<lambda>d. Inr (Some d))"
    by (auto simp: mutate_state_def split: sum.splits option.splits prod.splits)
  with \<open>st' \<noteq> st\<close> write_state_Inl obtain d where "r = Inr d" by (cases r) blast+
  with w assms(2) show False by simp
qed

section \<open>Sessions\<close>

text \<open>
  A configuration under which only valid documents are written: writes are validated, the validator passes only
  documents that are bound to their task and have a status, or marks them invalid, and the write hook keeps what the
  validator passed acceptable. The default configuration is one. With \<open>validate_writes=False\<close>, or a hook that
  replaces the document, anything is written.
\<close>

definition acceptable :: "string \<Rightarrow> dict \<Rightarrow> bool" where
  "acceptable task_id d \<longleftrightarrow> valid_state task_id d \<and> dget d ''state_valid'' \<noteq> PBool False"

definition guarding :: "path \<Rightarrow> state_config \<Rightarrow> bool" where
  "guarding dir cfg \<longleftrightarrow> es_state_dir cfg = dir \<and> es_validate_writes cfg \<and>
     (\<forall>t d p d'. es_validator cfg t d p = Inr (PDict d') \<longrightarrow> dget d' ''state_valid'' \<noteq> PBool False \<longrightarrow> valid_state t d') \<and>
     (\<forall>hook t d d'. es_before_write cfg = Some hook \<longrightarrow> hook t d = Inr (Some d') \<longrightarrow> acceptable t d \<longrightarrow> acceptable t d')"

lemma guarding_default: "guarding dir (default_config dir)"
  by (simp add: guarding_def default_validate_eq dget_def split: if_splits)

lemma guarding_checked:
  assumes "guarding dir cfg" and "checked_state cfg task_id state p = Inr d"
  shows "acceptable task_id d"
proof -
  from assms obtain checked b where v: "es_validator cfg task_id state p = Inr checked" "\<not> is_none checked"
      "py_get checked ''state_valid'' = Inr b" "\<not> is_False b"
    and d: "(case es_before_write cfg of None \<Rightarrow> Inr (dict_of checked)
      | Some hook \<Rightarrow> bindr (hook task_id (dict_of checked)) (\<lambda>transformed.
          Inr (case transformed of None \<Rightarrow> dict_of checked | Some d \<Rightarrow> d))) = Inr d"
    by (auto simp: checked_state_def guarding_def bindr_eq_Inr raise_if_eq_Inr split: if_splits)
  from v(3) obtain d0 where d0: "checked = PDict d0" "b = dget d0 ''state_valid''" by (cases checked) (auto simp: py_get_def)
  have "dget d0 ''state_valid'' \<noteq> PBool False" using v(4) d0(2) by (auto simp: is_False_def)
  with assms(1) v(1) d0(1) have ok: "acceptable task_id d0" by (auto simp: guarding_def acceptable_def)
  show ?thesis
  proof (cases "es_before_write cfg")
    case None
    with d d0(1) ok show ?thesis by simp
  next
    case (Some hook)
    with d obtain x where x: "hook task_id (dict_of checked) = Inr x" "d = (case x of None \<Rightarrow> dict_of checked | Some d \<Rightarrow> d)"
      by (auto simp: bindr_eq_Inr)
    with Some ok d0(1) assms(1) show ?thesis by (cases x) (auto simp: guarding_def)
  qed
qed

text \<open>Writes and mutations of any tasks in any order, by writers with guarding configurations of one state directory.\<close>

inductive es_step :: "path \<Rightarrow> store \<Rightarrow> store \<Rightarrow> bool" for dir where
  es_write: "guarding dir cfg \<Longrightarrow> write_state cfg st task_id state = (st', x) \<Longrightarrow> es_step dir st st'"
| es_mutate: "guarding dir cfg \<Longrightarrow> mutate_state cfg st task_id update = (st', y) \<Longrightarrow> es_step dir st st'"

lemma read_raw_dir: "es_state_dir cfg = es_state_dir cfg' \<Longrightarrow> read_raw cfg st task_id = read_raw cfg' st task_id"
  by (simp add: read_raw_eq)

definition states_valid :: "path \<Rightarrow> store \<Rightarrow> bool" where
  "states_valid dir st \<longleftrightarrow> (\<forall>task_id v. read_raw (default_config dir) st task_id = Inr v \<longrightarrow>
     (\<exists>d. v = PDict d \<and> acceptable task_id d))"

lemma acceptable_norm:
  assumes "acceptable task_id d"
  shows "acceptable task_id (dict_of (json_norm (PDict d)))"
proof -
  have "json_norm (dget d ''state_valid'') \<noteq> PBool False"
    using assms by (cases "dget d ''state_valid''") (auto simp: acceptable_def)
  with assms show ?thesis unfolding acceptable_def valid_state_norm dget_json_norm by simp
qed

lemma write_states_valid:
  assumes "guarding dir cfg" and "write_state cfg st task_id state = (st', x)" and "states_valid dir st"
  shows "states_valid dir st'"
proof (cases x)
  case (Inl e)
  with assms(2,3) write_state_Inl show ?thesis by blast
next
  case (Inr d)
  have dir: "es_state_dir cfg = dir" using assms(1) by (simp add: guarding_def)
  from assms(2) Inr have d: "acceptable task_id d" and st': "st' = atomic_write st (state_file (default_config dir) task_id) d"
    using guarding_checked [OF assms(1)] by (auto simp: write_state_eq_Inr dir)
  show ?thesis
    unfolding states_valid_def
  proof (intro allI impI)
    fix t v
    assume r: "read_raw (default_config dir) st' t = Inr v"
    then have valid: "valid_task_id t" by (auto simp: read_raw_eq bindr_eq_Inr)
    show "\<exists>d. v = PDict d \<and> acceptable t d"
    proof (cases "t = task_id")
      case True
      with r [unfolded st' read_raw_write [OF valid]] have "v = json_norm (PDict d)" by simp
      then have "v = PDict (dict_of (json_norm (PDict d)))" by simp
      then show ?thesis using acceptable_norm [OF d] True by blast
    next
      case False
      with r [unfolded st' read_raw_write [OF valid]] assms(3) show ?thesis by (simp add: states_valid_def)
    qed
  qed
qed

lemma es_step_states_valid: "es_step dir st st' \<Longrightarrow> states_valid dir st \<Longrightarrow> states_valid dir st'"
proof (induction rule: es_step.induct)
  case (es_mutate cfg st task_id update st' y)
  show ?case
  proof (cases "\<exists>d. y = Inr (Some d)")
    case True
    with es_mutate show ?thesis by (auto simp: mutate_state_eq_Some intro: write_states_valid)
  next
    case False
    with es_mutate mutate_state_unchanged show ?thesis by blast
  qed
qed (rule write_states_valid)

section \<open>Properties\<close>

text \<open>
  The state file of a task is computed exactly for the identifiers that
  validation accepts, and is then a direct child of the state directory with the identifier as its
  name: no identifier leaves the directory, and different identifiers have different files.
\<close>

theorem state_path_contained:
  "state_path cfg task_id = Inr p \<longleftrightarrow>
     validate_task_id (PStr task_id) = Inr () \<and> p = es_state_dir cfg @ [task_id @ ''.json''] \<and>
     resolve_path p = resolve_path (es_state_dir cfg) @ [task_id @ ''.json'']"
  using json_name [of task_id] by (auto simp: state_path_eq bindr_eq_Inr resolve_path_snoc)

text \<open>
  With the default validator a write either is refused and changes nothing, or
  the snapshot of the task is from then on the written state as JSON gives it back, and no other
  task's state has changed.
\<close>

theorem state_write_read:
  assumes "write_state (default_config dir) st task_id state = (st', x)"
  shows "case x of
      Inl e \<Rightarrow> st' = st
    | Inr d \<Rightarrow> d = state \<and> read_snapshot (default_config dir) mtime st' task_id = Inr (json_norm (PDict state)) \<and>
        (\<forall>t. t \<noteq> task_id \<longrightarrow> read_raw (default_config dir) st' t = read_raw (default_config dir) st t)"
proof (cases x)
  case (Inl e)
  with assms write_state_Inl show ?thesis by auto
next
  case (Inr d)
  with assms have w: "valid_task_id task_id" "valid_state task_id state" "d = state"
    and st': "st' = atomic_write st (state_file (default_config dir) task_id) state"
    by (auto simp: write_state_eq_Inr checked_state_default)
  have "\<not> is_none (json_norm (PDict state))" by simp
  then have snap: "read_snapshot (default_config dir) mtime st' task_id = Inr (json_norm (PDict state))"
    using load_written [OF w(1,2), of dir st] w(1) unfolding read_snapshot_def state_path_eq st'
    by (simp del: json_norm.simps)
  have other: "read_raw (default_config dir) st' t = read_raw (default_config dir) st t" if "t \<noteq> task_id" for t
  proof (cases "valid_task_id t")
    case True
    show ?thesis unfolding st' read_raw_write [OF True] using that by simp
  next
    case False
    then show ?thesis using validate_cases [of t] by (auto simp: read_raw_eq)
  qed
  show ?thesis unfolding Inr sum.case using w(3) snap other by blast
qed

definition sample_state :: dict where
  "sample_state = [(''task_id'', PStr ''t''), (''status'', PStr ''RUNNING'')]"

definition sample_write :: "store \<times> dict res" where
  "sample_write = write_state (default_config [''s'']) [] ''t'' sample_state"

lemma sample_write_ok: "sample_write = ([([''s'', ''t.json''], JsonFile (PDict
    [(''status'', PStr ''RUNNING''), (''task_id'', PStr ''t'')]))], Inr sample_state)"
  by code_simp

theorem state_write_read_witness:
  "write_state (default_config [''s'']) [] ''t'' sample_state = (fst sample_write, Inr sample_state) \<and>
   read_snapshot (default_config [''s'']) (\<lambda>_. 0) (fst sample_write) ''t'' = Inr (json_norm (PDict sample_state))"
proof -
  have w: "write_state (default_config [''s'']) [] ''t'' sample_state = (fst sample_write, Inr sample_state)"
    using sample_write_ok by (simp add: sample_write_def)
  from state_write_read [OF this, of "\<lambda>_. 0"] w show ?thesis by simp
qed

text \<open>
  A mutation by a mapping that returns a state has merged the mapping into
  the stored state: afterwards every key of the mapping has its new value and every other key the
  value it had, as JSON gives them back. A mutation that returns anything else changes nothing.
\<close>

theorem state_mutate_merges:
  assumes "mutate_state cfg st task_id (UpdateFields u) = (st', x)" and "distinct (map fst u)"
    and "es_validator cfg = default_validate" and "es_before_write cfg = None"
  shows "case x of
      Inr (Some d) \<Rightarrow> \<exists>current v. read_raw cfg st task_id = Inr (PDict current) \<and> read_raw cfg st' task_id = Inr v \<and>
        (\<forall>k. vget v k = json_norm (case map_of u k of Some y \<Rightarrow> y | None \<Rightarrow> dget current k))
    | _ \<Rightarrow> st' = st"
proof (cases "\<exists>d. x = Inr (Some d)")
  case True
  then obtain d where x: "x = Inr (Some d)" by blast
  with assms(1) obtain current where c: "read_raw cfg st task_id = Inr (PDict current)"
    and w: "write_state cfg st task_id (dmerge current u) = (st', Inr d)"
    by (auto simp: mutate_state_eq_Some updated_state_def)
  from w have valid: "valid_task_id task_id" and "d = dmerge current u"
    and st': "st' = atomic_write st (state_file cfg task_id) d"
    using assms(3,4)
    by (auto simp: write_state_eq_Inr checked_state_def default_validate_eq py_get_def bindr_eq_Inr raise_if_eq_Inr
        is_False_def dget_def split: if_splits)
  moreover have "vget (json_norm (PDict d)) k = json_norm (case map_of u k of Some y \<Rightarrow> y | None \<Rightarrow> dget current k)" for k
    unfolding vget_json_norm \<open>d = dmerge current u\<close> dget_def map_of_dmerge [OF assms(2)]
    by (simp add: map_add_def split: option.split)
  moreover have "read_raw cfg st' task_id = Inr (json_norm (PDict d))"
    unfolding st' read_raw_write [OF valid] by simp
  ultimately show ?thesis using c unfolding x by (simp del: json_norm.simps)
next
  case False
  with mutate_state_unchanged [OF assms(1)] show ?thesis by (auto split: sum.splits option.splits)
qed

theorem state_mutate_merges_witness:
  "\<exists>st' d v. mutate_state (default_config [''s'']) (fst sample_write) ''t'' (UpdateFields [(''status'', PStr ''DONE'')])
       = (st', Inr (Some d)) \<and>
     read_raw (default_config [''s'']) st' ''t'' = Inr v \<and> vget v ''status'' = PStr ''DONE'' \<and> vget v ''task_id'' = PStr ''t''"
proof -
  let ?m = "mutate_state (default_config [''s'']) (fst sample_write) ''t'' (UpdateFields [(''status'', PStr ''DONE'')])"
  have "case snd ?m of Inr (Some d) \<Rightarrow> True | _ \<Rightarrow> False" by code_simp
  then obtain st' d where m: "?m = (st', Inr (Some d))" by (cases ?m) (auto split: sum.splits option.splits)
  have "read_raw (default_config [''s'']) (fst sample_write) ''t'' = Inr (PDict [(''status'', PStr ''RUNNING''), (''task_id'', PStr ''t'')])"
    by code_simp
  with state_mutate_merges [OF m] m show ?thesis by (fastforce simp: dget_def)
qed

text \<open>
  C35 (state_store_invariant). However writes and mutations follow one another, by writers with any configurations
  that validate their writes, with validators that pass only documents bound to their task and with a status, and
  write hooks that keep them so, every state document that can be read from the state directory is a mapping bound to
  its own task, with a non-blank status, and not marked as invalid. The default configuration is of this kind; a
  store that does not validate its writes is not.
\<close>

theorem state_store_invariant:
  assumes "(es_step dir)\<^sup>*\<^sup>* [] st" and "es_state_dir cfg = dir" and "read_raw cfg st task_id = Inr v"
  shows "\<exists>d s. v = PDict d \<and> dget d ''task_id'' = PStr task_id \<and> dget d ''status'' = PStr s \<and> strip s \<noteq> [] \<and>
    dget d ''state_valid'' \<noteq> PBool False"
proof -
  have "states_valid dir []" by (auto simp: states_valid_def read_raw_eq load_json_def fs_get_def bindr_eq_Inr)
  with assms(1) have "states_valid dir st"
    by (induction rule: rtranclp_induct) (auto intro: es_step_states_valid)
  moreover have "read_raw (default_config dir) st task_id = Inr v"
    using assms(2,3) read_raw_dir [of cfg "default_config dir"] by simp
  ultimately obtain d where d: "v = PDict d" "valid_state task_id d" "dget d ''state_valid'' \<noteq> PBool False"
    unfolding states_valid_def acceptable_def by blast
  then show ?thesis by (cases "dget d ''status''") (auto simp: valid_state_def)
qed

theorem state_store_invariant_witness:
  "\<exists>d s. read_raw (default_config [''s'']) (fst sample_write) ''t'' = Inr (PDict d) \<and>
     dget d ''task_id'' = PStr ''t'' \<and> dget d ''status'' = PStr s \<and> strip s \<noteq> []"
proof -
  have run: "(es_step [''s''])\<^sup>*\<^sup>* [] (fst sample_write)"
    by (rule r_into_rtranclp, rule es_write [of _ _ _ "''t''" sample_state _ "snd sample_write"])
      (simp_all add: sample_write_def guarding_default)
  have "read_raw (default_config [''s'']) (fst sample_write) ''t'' = Inr (PDict [(''status'', PStr ''RUNNING''), (''task_id'', PStr ''t'')])"
    by code_simp
  from state_store_invariant [OF run _ this] this show ?thesis by auto
qed

text \<open>
  The archives of a task are found by the pattern
  \<open>{task_id}--attempt-*.json\<close>, which also matches the archive of a task whose own identifier has that
  prefix: a perfectly valid archive of \<open>a--attempt-b\<close> makes the snapshot of the unknown task \<open>a\<close>
  report an invalid state.
\<close>

theorem archive_name_collision:
  "read_snapshot (default_config [''s'']) (\<lambda>_. 0)
     [([''nexus-state-archive'', ''a--attempt-b.json''], JsonFile (PDict
        [(''status'', PStr ''DONE''), (''task_id'', PStr ''a--attempt-b'')]))] ''a--attempt-b''
   = Inr (PDict [(''status'', PStr ''DONE''), (''task_id'', PStr ''a--attempt-b'')]) \<and>
   read_snapshot (default_config [''s'']) (\<lambda>_. 0)
     [([''nexus-state-archive'', ''a--attempt-b.json''], JsonFile (PDict
        [(''status'', PStr ''DONE''), (''task_id'', PStr ''a--attempt-b'')]))] ''a''
   = Inr (PDict [(''task_id'', PStr ''a''), (''status'', PStr ''BLOCKED_INVALID_STATE''), (''state_valid'', PBool False),
       (''source_path'', PStr ''/nexus-state-archive/a--attempt-b.json'')])"
  by code_simp

end
