(* ===== verification/Model_Call_Resolution.thy ===== *)
theory Model_Call_Resolution
  imports Json_Normal
begin

text \<open>
  The resolution of whether a model call is needed
  (\<open>execution_coordination/model_call_resolution.py\<close>): a host-supplied resolver, a parameter, is
  asked about a structured state, and its answer becomes a normalized verdict or fails safe to the
  model path. The verdict is bound to the digest of the state it was asked about.
\<close>

section \<open>Vocabulary\<close>

definition WORKER_INVOCATION_SEAM :: string where
  "WORKER_INVOCATION_SEAM = ''execution_coordinator.worker_invocation''"

definition RESOLVED_DETERMINISTICALLY :: string where
  "RESOLVED_DETERMINISTICALLY = ''RESOLVED_DETERMINISTICALLY''"

definition MODEL_NEEDED :: string where
  "MODEL_NEEDED = ''MODEL_NEEDED''"

definition INSUFFICIENT_STRUCTURED_STATE :: string where
  "INSUFFICIENT_STRUCTURED_STATE = ''INSUFFICIENT_STRUCTURED_STATE''"

definition RESOLUTION_STATUSES :: "string set" where
  "RESOLUTION_STATUSES = {RESOLVED_DETERMINISTICALLY, MODEL_NEEDED, INSUFFICIENT_STRUCTURED_STATE}"

definition OUTCOME_KINDS :: "string set" where
  "OUTCOME_KINDS = {''DETERMINISTIC_RESOLVED'', ''MODEL_REQUIRED'', ''MODEL_INVOKED'', ''MODEL_AVOIDED''}"

definition ENVELOPE_AUTHORIZATION_TOKENS :: "string list" where
  "ENVELOPE_AUTHORIZATION_TOKENS =
     [''authoriz'', ''approv'', ''permission'', ''permit'', ''admission'', ''allow'', ''grant'', ''certif'']"

abbreviation mc_error :: "string \<Rightarrow> 'a res" where
  "mc_error msg \<equiv> Inl (ModelCallResolutionError, msg)"

definition mc_canonical_json :: "pyval \<Rightarrow> string res" where
  "mc_canonical_json v =
     canon_json ModelCallResolutionError ''model call resolution payload must be canonical JSON data'' v"

definition mc_content_digest :: "(string \<Rightarrow> string) \<Rightarrow> pyval \<Rightarrow> string res" where
  "mc_content_digest H v = bindr (mc_canonical_json v) (\<lambda>s. Inr (H s))"

definition mc_required_text :: "pyval \<Rightarrow> string \<Rightarrow> string res" where
  "mc_required_text v field = require_text ModelCallResolutionError v field"

definition mc_normalize :: "pyval \<Rightarrow> string \<Rightarrow> pyval res" where
  "mc_normalize v field =
     norm_value ModelCallResolutionError ''model call resolution payload must be canonical JSON data'' v field"

text \<open>The first key with an authorization token in it.\<close>

definition token_key :: "string list \<Rightarrow> dict \<Rightarrow> string option" where
  "token_key tokens payload =
     find (\<lambda>k. \<exists>token \<in> set tokens. contains_text token (lower k)) (dkeys payload)"

definition envelope_carries_authorization :: "dict \<Rightarrow> string option" where
  "envelope_carries_authorization payload = token_key ENVELOPE_AUTHORIZATION_TOKENS payload"

section \<open>Verdicts\<close>

record verdict =
  mv_resolution :: string
  mv_reason :: string
  mv_resolver_id :: string
  mv_seam :: string
  mv_structured_state_digest :: string
  mv_deterministic_receipt :: dict
  mv_resolver_failure :: "string option"

definition verdict_build :: "pyval \<Rightarrow> pyval \<Rightarrow> pyval \<Rightarrow> pyval \<Rightarrow> pyval \<Rightarrow> pyval \<Rightarrow> verdict res" where
  "verdict_build resolution reason resolver_id seam structured_state_digest deterministic_receipt =
    (let status = strip (str_or resolution '''') in
     bindr (raise_if (status \<notin> RESOLUTION_STATUSES) ModelCallResolutionError
              (''unknown model call resolution status: '' @ py_repr resolution)) (\<lambda>_.
     bindr (if is_mapping deterministic_receipt \<and> truthy deterministic_receipt
            then bindr (mc_normalize deterministic_receipt ''deterministic_receipt'') (\<lambda>r. Inr (dict_of r))
            else Inr []) (\<lambda>receipt.
     let dig = strip (str_or structured_state_digest '''') in
     bindr (raise_if (receipt \<noteq> [] \<and> dig = []) ModelCallResolutionError
              ''resolved verdict requires a structured state digest'') (\<lambda>_.
     bindr (mc_required_text reason ''reason'') (\<lambda>reason'.
     bindr (mc_required_text resolver_id ''resolver_id'') (\<lambda>resolver_id'.
     bindr (mc_required_text seam ''seam'') (\<lambda>seam'.
     Inr \<lparr> mv_resolution = status, mv_reason = reason', mv_resolver_id = resolver_id', mv_seam = seam',
           mv_structured_state_digest = dig, mv_deterministic_receipt = receipt,
           mv_resolver_failure = None \<rparr>)))))))"

definition verdict_to_dict :: "verdict \<Rightarrow> dict" where
  "verdict_to_dict v =
     [(''schema'', PStr ''nexus.runtime.model_call_resolution.v1''), (''resolution'', PStr (mv_resolution v)),
      (''reason'', PStr (mv_reason v)), (''resolver_id'', PStr (mv_resolver_id v)), (''seam'', PStr (mv_seam v)),
      (''structured_state_digest'', PStr (mv_structured_state_digest v)),
      (''deterministic_receipt'', PDict (mv_deterministic_receipt v)),
      (''resolver_failure'', opt_str (mv_resolver_failure v))]"

text \<open>
  A resolver: its \<open>resolver_id\<close> attribute (\<open>PNone\<close> when it has none), the name of its class, and its
  answer, which is a verdict object or any other value.
\<close>

datatype resolver_answer = VerdictAnswer verdict | ValueAnswer pyval

record resolver =
  rv_id :: pyval
  rv_class :: string
  rv_resolve :: "dict \<Rightarrow> string \<Rightarrow> resolver_answer res"

definition structured_state_digest :: "(string \<Rightarrow> string) \<Rightarrow> dict \<Rightarrow> string res" where
  "structured_state_digest H structured_state =
     bindr (mc_normalize (PDict structured_state) ''structured_state'') (\<lambda>normalized.
     bindr (raise_if (\<not> is_mapping normalized) ModelCallResolutionError ''structured state must be a mapping'') (\<lambda>_.
     mc_content_digest H normalized))"

definition resolver_identity :: "resolver option \<Rightarrow> string" where
  "resolver_identity r =
     (case r of
        None \<Rightarrow> ''unbound''
      | Some x \<Rightarrow> (case rv_id x of PStr s \<Rightarrow> if strip s \<noteq> [] then strip s else rv_class x | _ \<Rightarrow> rv_class x))"

definition normalize_verdict_payload :: "dict \<Rightarrow> resolver \<Rightarrow> string \<Rightarrow> string \<Rightarrow> verdict res" where
  "normalize_verdict_payload payload res seam dig =
    (case envelope_carries_authorization payload of
       Some smuggled \<Rightarrow> mc_error (''verdict must not carry authorization content: '' @ smuggled)
     | None \<Rightarrow>
        (let status = strip (py_str (py_or (dget payload ''resolution'') (py_or (dget payload ''status'') (PStr ''''))));
             receipt = dget payload ''deterministic_receipt'' in
         bindr (raise_if (status = RESOLVED_DETERMINISTICALLY \<and> \<not> is_mapping receipt) ModelCallResolutionError
                  ''resolved verdict requires a deterministic receipt mapping'') (\<lambda>_.
         bindr (raise_if (status \<notin> RESOLUTION_STATUSES) ModelCallResolutionError
                  (''unknown model call resolution status: '' @ repr_str status)) (\<lambda>_.
         let reason = (case dget payload ''reason'' of
               PStr s \<Rightarrow> if strip s \<noteq> [] then PStr s
                         else if status = RESOLVED_DETERMINISTICALLY then PStr ''deterministic_result_available''
                         else PStr ''model_path_preserved''
             | _ \<Rightarrow> if status = RESOLVED_DETERMINISTICALLY then PStr ''deterministic_result_available''
                    else PStr ''model_path_preserved'') in
         verdict_build (PStr status) reason
           (PStr (str_or (dget payload ''resolver_id'') (resolver_identity (Some res))))
           (PStr (str_or (dget payload ''seam'') seam)) (PStr dig)
           (if is_mapping receipt then receipt else PNone)))))"

text \<open>A verdict that the function constructs directly.\<close>

definition safe_verdict ::
  "string \<Rightarrow> string \<Rightarrow> string \<Rightarrow> string \<Rightarrow> string \<Rightarrow> string option \<Rightarrow> verdict" where
  "safe_verdict resolution reason resolver_id seam dig failure =
     \<lparr> mv_resolution = resolution, mv_reason = reason, mv_resolver_id = resolver_id, mv_seam = seam,
       mv_structured_state_digest = dig, mv_deterministic_receipt = [], mv_resolver_failure = failure \<rparr>"

definition resolve_model_call_need ::
  "(string \<Rightarrow> string) \<Rightarrow> resolver option \<Rightarrow> dict \<Rightarrow> string \<Rightarrow> string \<Rightarrow> verdict res" where
  "resolve_model_call_need H resolver structured_state seam on_invalid =
    (let fallback = (if on_invalid \<in> {MODEL_NEEDED, INSUFFICIENT_STRUCTURED_STATE} then on_invalid else MODEL_NEEDED);
         seam_name = (if strip seam \<noteq> [] then strip seam else WORKER_INVOCATION_SEAM);
         who = resolver_identity resolver in
     case structured_state_digest H structured_state of
       Inl e \<Rightarrow>
         if fst e = ModelCallResolutionError
         then Inr (safe_verdict fallback (''structured_state_unusable:'' @ snd e) who seam_name ''''
                (Some ''structured_state_unusable''))
         else Inl e
     | Inr dig \<Rightarrow>
        (case resolver of
           None \<Rightarrow> Inr (safe_verdict INSUFFICIENT_STRUCTURED_STATE ''model_call_resolver_not_bound'' ''unbound''
                    seam_name dig None)
         | Some res \<Rightarrow>
            (case rv_resolve res structured_state seam_name of
               Inl e \<Rightarrow> Inr (safe_verdict INSUFFICIENT_STRUCTURED_STATE
                         (''model_call_resolver_failed:'' @ exc_name (fst e)) who seam_name dig
                         (Some (exc_name (fst e) @ '':'' @ snd e)))
             | Inr answer \<Rightarrow>
                (case (case answer of VerdictAnswer v \<Rightarrow> PDict (verdict_to_dict v) | ValueAnswer v \<Rightarrow> v) of
                   PNone \<Rightarrow> Inr (safe_verdict INSUFFICIENT_STRUCTURED_STATE ''model_call_resolver_abstained'' who
                             seam_name dig None)
                 | PDict payload \<Rightarrow>
                    (case normalize_verdict_payload payload res seam_name dig of
                       Inr v \<Rightarrow> Inr v
                     | Inl e \<Rightarrow>
                         if fst e = ModelCallResolutionError
                         then Inr (safe_verdict INSUFFICIENT_STRUCTURED_STATE
                                (''model_call_resolver_verdict_rejected:'' @ snd e) who seam_name dig (Some (snd e)))
                         else Inl e)
                 | _ \<Rightarrow> Inr (safe_verdict INSUFFICIENT_STRUCTURED_STATE ''model_call_resolver_verdict_malformed'' who
                         seam_name dig (Some ''verdict_not_a_mapping''))))))"

section \<open>Telemetry\<close>

record telemetry =
  mt_outcome :: string
  mt_resolution :: string
  mt_reason :: string
  mt_resolver_id :: string
  mt_seam :: string
  mt_structured_state_digest :: string
  mt_model_avoided :: bool
  mt_resolver_failure :: "string option"
  mt_calls_required :: int
  mt_calls_invoked :: int
  mt_calls_avoided :: int
  mt_calls_not_eliminated :: "bool option"

definition make_telemetry :: "telemetry \<Rightarrow> telemetry res" where
  "make_telemetry t =
     bindr (raise_if (mt_outcome t \<notin> OUTCOME_KINDS) ModelCallResolutionError
              (''unknown model call telemetry outcome: '' @ repr_str (mt_outcome t))) (\<lambda>_.
     bindr (raise_if (mt_resolution t \<notin> RESOLUTION_STATUSES) ModelCallResolutionError
              (''unknown model call resolution status: '' @ repr_str (mt_resolution t))) (\<lambda>_.
     bindr (raise_if (mt_calls_required t < 0) ModelCallResolutionError ''model_calls_required must be non-negative'') (\<lambda>_.
     bindr (raise_if (mt_calls_invoked t < 0) ModelCallResolutionError ''model_calls_invoked must be non-negative'') (\<lambda>_.
     bindr (raise_if (mt_calls_avoided t < 0) ModelCallResolutionError ''model_calls_avoided must be non-negative'') (\<lambda>_.
     bindr (raise_if (mt_model_avoided t \<and> mt_calls_avoided t < 1) ModelCallResolutionError
              ''model_avoided requires model_calls_avoided >= 1'') (\<lambda>_.
     bindr (raise_if (mt_outcome t = ''MODEL_AVOIDED'' \<and> \<not> mt_model_avoided t) ModelCallResolutionError
              ''MODEL_AVOIDED requires model_avoided=true'') (\<lambda>_.
     bindr (raise_if (mt_outcome t = ''MODEL_INVOKED'' \<and> mt_calls_invoked t < 1) ModelCallResolutionError
              ''MODEL_INVOKED requires model_calls_invoked >= 1'') (\<lambda>_.
     let expected = (mt_calls_invoked t > 0 \<or> mt_calls_required t > mt_calls_avoided t) in
     (case mt_calls_not_eliminated t of
        None \<Rightarrow> Inr (t\<lparr> mt_calls_not_eliminated := Some expected \<rparr>)
      | Some b \<Rightarrow>
          bindr (raise_if (b \<noteq> expected) ModelCallResolutionError
                   ''model_calls_not_eliminated must match required/invoked/avoided counts'') (\<lambda>_. Inr t))))))))))"

definition telemetry_to_dict :: "telemetry \<Rightarrow> dict" where
  "telemetry_to_dict t =
     [(''schema'', PStr ''nexus.runtime.model_call_resolution_telemetry.v1''), (''outcome'', PStr (mt_outcome t)),
      (''resolution'', PStr (mt_resolution t)), (''reason'', PStr (mt_reason t)),
      (''resolver_id'', PStr (mt_resolver_id t)), (''seam'', PStr (mt_seam t)),
      (''structured_state_digest'', PStr (mt_structured_state_digest t)),
      (''model_avoided'', PBool (mt_model_avoided t)), (''resolver_failure'', opt_str (mt_resolver_failure t)),
      (''model_calls_required'', PInt (mt_calls_required t)), (''model_calls_invoked'', PInt (mt_calls_invoked t)),
      (''model_calls_avoided'', PInt (mt_calls_avoided t)),
      (''model_calls_not_eliminated'', PBool (mt_calls_not_eliminated t = Some True))]"

section \<open>Lemmas\<close>

lemma verdict_build_error: "verdict_build a b c d e f = Inl x \<Longrightarrow> fst x = ModelCallResolutionError"
  unfolding verdict_build_def Let_def mc_normalize_def mc_required_text_def
  by (auto simp: bindr_eq_Inl raise_if_eq_Inl dest: norm_value_error require_text_error split: if_splits)

lemma verdict_build_fields:
  "verdict_build a b c d e f = Inr v \<Longrightarrow>
     mv_resolution v = strip (str_or a '''') \<and> mv_resolution v \<in> RESOLUTION_STATUSES \<and>
     mv_structured_state_digest v = strip (str_or e '''') \<and> mv_resolver_failure v = None"
  unfolding verdict_build_def Let_def by (auto simp: bindr_eq_Inr raise_if_eq_Inr)

lemma normalize_verdict_error:
  "normalize_verdict_payload payload res seam dig = Inl x \<Longrightarrow> fst x = ModelCallResolutionError"
  unfolding normalize_verdict_payload_def Let_def
  by (auto simp: bindr_eq_Inl raise_if_eq_Inl dest: verdict_build_error split: option.splits)

lemma normalize_verdict_fields:
  assumes "normalize_verdict_payload payload res seam dig = Inr v"
  shows "mv_resolution v \<in> RESOLUTION_STATUSES" "mv_structured_state_digest v = strip dig" "mv_resolver_failure v = None"
    "envelope_carries_authorization payload = None"
    "mv_resolution v = RESOLVED_DETERMINISTICALLY \<Longrightarrow> is_mapping (dget payload ''deterministic_receipt'')"
  using assms unfolding normalize_verdict_payload_def Let_def
  by (auto simp: bindr_eq_Inr raise_if_eq_Inr dest!: verdict_build_fields split: option.splits if_splits)

lemma structured_state_digest_error: "structured_state_digest H d = Inl e \<Longrightarrow> fst e = ModelCallResolutionError"
  unfolding structured_state_digest_def mc_normalize_def mc_content_digest_def mc_canonical_json_def
  by (auto simp: bindr_eq_Inl raise_if_eq_Inl simp del: norm_value.simps dest: norm_value_error canon_json_error)

text \<open>What the resolver's answer is read as.\<close>

definition answer_payload :: "resolver_answer \<Rightarrow> pyval" where
  "answer_payload answer = (case answer of VerdictAnswer v \<Rightarrow> PDict (verdict_to_dict v) | ValueAnswer v \<Rightarrow> v)"

definition seam_name :: "string \<Rightarrow> string" where
  "seam_name seam = (if strip seam \<noteq> [] then strip seam else WORKER_INVOCATION_SEAM)"

lemma resolve_cases:
  obtains (unusable) e where "structured_state_digest H state = Inl e"
      "\<exists>reason. resolve_model_call_need H r state seam on_invalid = Inr (safe_verdict
         (if on_invalid \<in> {MODEL_NEEDED, INSUFFICIENT_STRUCTURED_STATE} then on_invalid else MODEL_NEEDED)
         reason (resolver_identity r) (seam_name seam) '''' (Some ''structured_state_unusable''))"
  | (fallback) dig where "structured_state_digest H state = Inr dig"
      "\<exists>reason who failure. resolve_model_call_need H r state seam on_invalid
         = Inr (safe_verdict INSUFFICIENT_STRUCTURED_STATE reason who (seam_name seam) dig failure)"
  | (answered) dig res answer payload v where "structured_state_digest H state = Inr dig" "r = Some res"
      "rv_resolve res state (seam_name seam) = Inr answer" "answer_payload answer = PDict payload"
      "normalize_verdict_payload payload res (seam_name seam) dig = Inr v"
      "resolve_model_call_need H r state seam on_invalid = Inr v"
proof (cases "structured_state_digest H state")
  case (Inl e)
  then show ?thesis
    by (intro unusable) (auto simp: resolve_model_call_need_def Let_def seam_name_def dest: structured_state_digest_error)
next
  case dig: (Inr dig)
  show ?thesis
  proof (cases r)
    case None
    with dig show ?thesis by (intro fallback) (auto simp: resolve_model_call_need_def Let_def seam_name_def)
  next
    case (Some res)
    note base = dig Some resolve_model_call_need_def Let_def seam_name_def [symmetric]
    show ?thesis
    proof (cases "rv_resolve res state (seam_name seam)")
      case (Inl e)
      then show ?thesis by (intro fallback [OF dig]) (auto simp: base)
    next
      case answer: (Inr answer)
      show ?thesis
      proof (cases "answer_payload answer")
        case (PDict payload)
        show ?thesis
        proof (cases "normalize_verdict_payload payload res (seam_name seam) dig")
          case (Inl e)
          then have "fst e = ModelCallResolutionError" by (rule normalize_verdict_error)
          with Inl answer PDict show ?thesis by (intro fallback [OF dig]) (auto simp: base answer_payload_def)
        next
          case (Inr v)
          with answer PDict show ?thesis
            by (intro answered [OF dig Some answer PDict Inr]) (simp add: base answer_payload_def)
        qed
      qed (rule fallback [OF dig], force simp: base answer answer_payload_def)+
    qed
  qed
qed

lemma model_call_total: "\<exists>v. resolve_model_call_need H r state seam on_invalid = Inr v"
  by (cases rule: resolve_cases [of H state r seam on_invalid]) auto

lemma fallback_status: "(if on_invalid \<in> {MODEL_NEEDED, INSUFFICIENT_STRUCTURED_STATE} then on_invalid else MODEL_NEEDED)
  \<in> RESOLUTION_STATUSES - {RESOLVED_DETERMINISTICALLY}"
  by (auto simp: RESOLUTION_STATUSES_def RESOLVED_DETERMINISTICALLY_def MODEL_NEEDED_def INSUFFICIENT_STRUCTURED_STATE_def)

lemma insufficient_status: "INSUFFICIENT_STRUCTURED_STATE \<in> RESOLUTION_STATUSES - {RESOLVED_DETERMINISTICALLY}"
  by (auto simp: RESOLUTION_STATUSES_def RESOLVED_DETERMINISTICALLY_def INSUFFICIENT_STRUCTURED_STATE_def)

section \<open>Sample resolver\<close>

definition sample_resolver :: resolver where
  "sample_resolver = \<lparr> rv_id = PStr ''host'', rv_class = ''Host'', rv_resolve = (\<lambda>_ _. Inr (ValueAnswer (PDict
     [(''resolution'', PStr ''RESOLVED_DETERMINISTICALLY''), (''deterministic_receipt'', PDict [(''ok'', PBool True)])]))) \<rparr>"

definition sample_need :: "verdict res" where
  "sample_need = resolve_model_call_need sample_hash (Some sample_resolver) [(''task_id'', PStr ''t'')] '''' MODEL_NEEDED"

section \<open>Properties\<close>

text \<open>
  C34 (model_call_fail_safe). Asking whether a model call is needed always returns a verdict with a known
  status, whatever the resolver does: raise, abstain, or answer anything. It returns that the call
  can be avoided only when a bound resolver answered with a mapping or a verdict that carries a
  receipt mapping and no authorization-sounding key, and then the verdict is bound to the digest of
  the very state the resolver was asked about.
\<close>

theorem model_call_fail_safe:
  "\<exists>v. resolve_model_call_need H r state seam on_invalid = Inr v \<and> mv_resolution v \<in> RESOLUTION_STATUSES \<and>
     (mv_resolution v = RESOLVED_DETERMINISTICALLY \<longrightarrow>
        (\<exists>res dig answer payload. r = Some res \<and> structured_state_digest H state = Inr dig \<and>
           mv_structured_state_digest v = strip dig \<and> rv_resolve res state (seam_name seam) = Inr answer \<and>
           answer_payload answer = PDict payload \<and> is_mapping (dget payload ''deterministic_receipt'') \<and>
           envelope_carries_authorization payload = None))"
proof (cases rule: resolve_cases [of H state r seam on_invalid])
  case (unusable e)
  then show ?thesis using fallback_status [of on_invalid] by (auto simp: safe_verdict_def)
next
  case (fallback dig)
  then show ?thesis using insufficient_status by (auto simp: safe_verdict_def)
next
  case (answered dig res answer payload v)
  then show ?thesis using normalize_verdict_fields [OF answered(5)] by blast
qed

theorem model_call_fail_safe_witness:
  "\<exists>v. sample_need = Inr v \<and> mv_resolution v = RESOLVED_DETERMINISTICALLY \<and>
     (\<exists>dig. structured_state_digest sample_hash [(''task_id'', PStr ''t'')] = Inr dig \<and> mv_structured_state_digest v = strip dig)"
proof -
  have s: "mv_resolution (projr sample_need) = RESOLVED_DETERMINISTICALLY" by code_simp
  from model_call_fail_safe [of sample_hash "Some sample_resolver" "[(''task_id'', PStr ''t'')]" "''''" MODEL_NEEDED]
  show ?thesis using s unfolding sample_need_def by auto
qed

text \<open>
  The fallback argument has no effect when no resolver is bound: a
  usable state then always gives the insufficient-state verdict.
\<close>

theorem model_call_fallback_ignored:
  assumes "structured_state_digest H state = Inr dig"
  shows "\<exists>v. resolve_model_call_need H None state seam on_invalid = Inr v \<and> mv_resolution v = INSUFFICIENT_STRUCTURED_STATE"
  using assms by (simp add: resolve_model_call_need_def Let_def safe_verdict_def)

text \<open>
  A verdict that the model is needed keeps the deterministic receipt the
  resolver sent along.
\<close>

theorem model_needed_keeps_receipt:
  "verdict_build (PStr MODEL_NEEDED) (PStr ''why'') (PStr ''host'') (PStr ''seam'') (PStr ''d'') (PDict [(''ok'', PBool True)])
     = Inr \<lparr> mv_resolution = MODEL_NEEDED, mv_reason = ''why'', mv_resolver_id = ''host'', mv_seam = ''seam'',
         mv_structured_state_digest = ''d'', mv_deterministic_receipt = [(''ok'', PBool True)],
         mv_resolver_failure = None \<rparr>"
  by code_simp

end
