(* ===== verification/Bounded_Decision.thy ===== *)
theory Bounded_Decision
  imports Model_Call_Resolution "HOL-Library.Multiset"
begin

text \<open>
  Bounded decisions (\<open>execution_coordination/bounded_decision.py\<close>): once a model call is needed, the
  residual may be put to a model only as a finite choice between provenance-bound candidates or
  escalation. This theory has the eligibility classification, the content-addressed packet and the
  validation of a response. The digest is a parameter, and so is the floating-point test that the
  scores sum to one; an integer score beyond \<open>2^53\<close> is kept exact, its double being outside of
  \<open>[0,1]\<close> as well.
\<close>

section \<open>Vocabulary\<close>

definition BOUNDED_DECISION_PACKET_SCHEMA :: string where
  "BOUNDED_DECISION_PACKET_SCHEMA = ''nexus.runtime.bounded_decision_packet.v1''"

definition BOUNDED_DECISION_RESPONSE_SCHEMA :: string where
  "BOUNDED_DECISION_RESPONSE_SCHEMA = ''nexus.runtime.bounded_decision_response.v1''"

definition BOUNDED_DECISION_ELIGIBLE :: string where
  "BOUNDED_DECISION_ELIGIBLE = ''BOUNDED_DECISION_ELIGIBLE''"

definition FRONTIER_REASONING_REQUIRED :: string where
  "FRONTIER_REASONING_REQUIRED = ''FRONTIER_REASONING_REQUIRED''"

definition BOUNDED_DECISION_INSUFFICIENT_STATE :: string where
  "BOUNDED_DECISION_INSUFFICIENT_STATE = ''INSUFFICIENT_STRUCTURED_STATE''"

definition DETERMINISTIC_ALREADY_RESOLVED :: string where
  "DETERMINISTIC_ALREADY_RESOLVED = ''DETERMINISTIC_ALREADY_RESOLVED''"

definition ESCALATE :: string where
  "ESCALATE = ''ESCALATE''"

definition SAFE_BOUNDED_DECISION_FAMILIES :: "string set" where
  "SAFE_BOUNDED_DECISION_FAMILIES = {''repair_candidate_choice''}"

definition AUTHORITY_TOKENS :: "string list" where
  "AUTHORITY_TOKENS = [''authoriz'', ''approv'', ''permission'', ''permit'', ''admission'', ''allow'', ''grant'',
     ''certif'', ''merge'', ''release'', ''production'']"

abbreviation bd_error :: "string \<Rightarrow> 'a res" where
  "bd_error msg \<equiv> Inl (BoundedDecisionError, msg)"

definition bd_canonical_json :: "pyval \<Rightarrow> string res" where
  "bd_canonical_json v = canon_json BoundedDecisionError ''bounded decision payload must be canonical JSON data'' v"

definition sha256_payload :: "(string \<Rightarrow> string) \<Rightarrow> pyval \<Rightarrow> string res" where
  "sha256_payload H v = bindr (bd_canonical_json v) (\<lambda>s. Inr (''sha256:'' @ H s))"

definition bd_content_digest :: "(string \<Rightarrow> string) \<Rightarrow> pyval \<Rightarrow> string res" where
  "bd_content_digest H v = bindr (bd_canonical_json v) (\<lambda>s. Inr (H s))"

definition bd_text :: "pyval \<Rightarrow> string \<Rightarrow> string res" where
  "bd_text v name = require_text BoundedDecisionError v name"

definition string_list :: "pyval \<Rightarrow> string \<Rightarrow> int \<Rightarrow> string list res" where
  "string_list value name minimum =
     bindr (raise_if (\<not> is_array value) BoundedDecisionError (name @ '' must be an array of strings'')) (\<lambda>_.
     bindr (map_res (\<lambda>x. bd_text x name) (items_of value)) (\<lambda>result.
     bindr (raise_if (int (length result) < minimum) BoundedDecisionError
              (name @ '' requires at least '' @ show_int minimum @ '' item(s)'')) (\<lambda>_.
     bindr (raise_if (\<not> distinct result) BoundedDecisionError (name @ '' must not contain duplicates'')) (\<lambda>_.
     Inr result))))"

definition bd_json_value :: "pyval \<Rightarrow> string \<Rightarrow> pyval res" where
  "bd_json_value v name =
     norm_value BoundedDecisionError ''bounded decision payload must be canonical JSON data'' v name"

definition contains_authority_key :: "dict \<Rightarrow> string option" where
  "contains_authority_key value = token_key AUTHORITY_TOKENS value"

section \<open>Candidates\<close>

record candidate =
  bc_candidate_id :: string
  bc_payload :: pyval
  bc_evidence_refs :: "string list"

definition candidate_from_mapping :: "dict \<Rightarrow> candidate res" where
  "candidate_from_mapping value =
     bindr (bd_text (dget value ''candidate_id'') ''candidate_id'') (\<lambda>candidate_id.
     bindr (string_list (dget value ''evidence_refs'') ''candidate.evidence_refs'' 1) (\<lambda>evidence_refs.
     bindr (raise_if (''payload'' \<notin> set (dkeys value)) BoundedDecisionError ''candidate.payload is required'') (\<lambda>_.
     bindr (bd_json_value (dget value ''payload'') ''candidate.payload'') (\<lambda>payload.
     Inr \<lparr> bc_candidate_id = candidate_id, bc_payload = payload, bc_evidence_refs = evidence_refs \<rparr>))))"

definition candidate_to_dict :: "candidate \<Rightarrow> pyval" where
  "candidate_to_dict c = PDict [(''candidate_id'', PStr (bc_candidate_id c)), (''payload'', bc_payload c),
     (''evidence_refs'', PList (map PStr (bc_evidence_refs c)))]"

definition candidate_item :: "pyval \<Rightarrow> candidate res" where
  "candidate_item item =
     (case item of PDict d \<Rightarrow> candidate_from_mapping d | _ \<Rightarrow> bd_error ''candidate must be a mapping'')"

definition normalized_candidates :: "pyval \<Rightarrow> candidate list res" where
  "normalized_candidates value =
     bindr (raise_if (\<not> is_array value) BoundedDecisionError ''candidates must be an array'') (\<lambda>_.
     bindr (map_res candidate_item (items_of value)) (\<lambda>candidates.
     bindr (raise_if (length candidates < 2) BoundedDecisionError
              ''bounded decision requires at least two candidates'') (\<lambda>_.
     bindr (raise_if (\<not> distinct (map bc_candidate_id candidates)) BoundedDecisionError
              ''candidate ids must be unique'') (\<lambda>_.
     Inr (sort_key bc_candidate_id candidates)))))"

section \<open>Eligibility\<close>

record eligibility =
  be_disposition :: string
  be_reason :: string
  be_model_call_resolution :: string
  be_decision_family :: string
  be_candidate_ids :: "string list"

definition eligibility_of :: "string \<Rightarrow> string \<Rightarrow> string \<Rightarrow> string \<Rightarrow> eligibility" where
  "eligibility_of disposition reason resolution family =
     \<lparr> be_disposition = disposition, be_reason = reason, be_model_call_resolution = resolution,
       be_decision_family = family, be_candidate_ids = [] \<rparr>"

text \<open>\<open>except BoundedDecisionError\<close>.\<close>

definition catch_bd :: "'a res \<Rightarrow> (string \<Rightarrow> 'b res) \<Rightarrow> ('a \<Rightarrow> 'b res) \<Rightarrow> 'b res" where
  "catch_bd m handler k =
     (case m of Inr x \<Rightarrow> k x | Inl e \<Rightarrow> if fst e = BoundedDecisionError then handler (snd e) else Inl e)"

text \<open>The checks of the contract fields in one \<open>try\<close> block.\<close>

definition contract_candidates :: "dict \<Rightarrow> candidate list res" where
  "contract_candidates d =
     bindr (normalized_candidates (dget d ''candidates'')) (\<lambda>candidates.
     bindr (string_list (dget d ''evidence_refs'') ''evidence_refs'' 1) (\<lambda>_.
     bindr (bd_text (dget d ''task_id'') ''task_id'') (\<lambda>_.
     bindr (bd_text (dget d ''repository'') ''repository'') (\<lambda>_.
     bindr (bd_text (dget d ''source_revision'') ''source_revision'') (\<lambda>_.
     bindr (bd_text (dget d ''required_verifier'') ''required_verifier'') (\<lambda>_.
     bindr (bd_text (dget d ''claim_ceiling'') ''claim_ceiling'') (\<lambda>_.
     Inr candidates)))))))"

definition protected_values :: "pyval \<Rightarrow> string list" where
  "protected_values v = map (\<lambda>s. upper (strip s)) (filter (\<lambda>s. strip s \<noteq> []) (map py_str (items_of v)))"

text \<open>The classification after the digest check.\<close>

definition classify_family :: "string \<Rightarrow> dict \<Rightarrow> eligibility res" where
  "classify_family res d =
    (let insufficient = (\<lambda>reason family. Inr (eligibility_of BOUNDED_DECISION_INSUFFICIENT_STATE reason res family));
         family = strip (str_or (dget d ''decision_family'') '''');
         protected = dget d ''protected_authority_requirements'' in
     if family = [] then insufficient ''decision_family_missing'' ''''
     else if family \<notin> SAFE_BOUNDED_DECISION_FAMILIES
     then Inr (eligibility_of FRONTIER_REASONING_REQUIRED (''decision_family_not_bounded_safe:'' @ family) res family)
     else if \<not> is_array protected then insufficient ''protected_authority_requirements_missing'' family
     else if protected_values protected \<noteq> []
     then Inr (eligibility_of FRONTIER_REASONING_REQUIRED
            (''protected_authority_requirement:'' @ join '','' (sort_strings (protected_values protected))) res family)
     else catch_bd (contract_candidates d)
       (\<lambda>msg. insufficient (''bounded_contract_incomplete:'' @ msg) family) (\<lambda>candidates.
       Inr ((eligibility_of BOUNDED_DECISION_ELIGIBLE ''finite_provenance_bound_residual'' res family)
              \<lparr> be_candidate_ids := map bc_candidate_id candidates \<rparr>)))"

definition classify_bounded_decision :: "(string \<Rightarrow> string) \<Rightarrow> verdict \<Rightarrow> pyval \<Rightarrow> eligibility res" where
  "classify_bounded_decision H v structured_state =
    (let res = mv_resolution v;
         insufficient = (\<lambda>reason family. Inr (eligibility_of BOUNDED_DECISION_INSUFFICIENT_STATE reason res family)) in
     if res = RESOLVED_DETERMINISTICALLY
     then Inr (eligibility_of DETERMINISTIC_ALREADY_RESOLVED ''deterministic_result_already_available'' res '''')
     else if res = INSUFFICIENT_STRUCTURED_STATE then insufficient ''model_call_resolution_insufficient'' ''''
     else if res \<noteq> MODEL_NEEDED then insufficient ''unsupported_model_call_resolution'' ''''
     else if \<not> is_mapping structured_state then insufficient ''bounded_state_not_mapping'' ''''
     else let d = dict_of structured_state in
       catch_bd (bindr (bd_json_value structured_state ''structured_state'') (bd_content_digest H))
         (\<lambda>msg. insufficient (''bounded_state_unusable:'' @ msg) '''') (\<lambda>state_digest.
       if mv_structured_state_digest v = [] then insufficient ''model_call_state_digest_missing'' ''''
       else if mv_structured_state_digest v \<noteq> state_digest then insufficient ''model_call_state_digest_mismatch'' ''''
       else classify_family res d))"

section \<open>Packets\<close>

record packet =
  bp_task_id :: string
  bp_repository :: string
  bp_source_revision :: string
  bp_decision_family :: string
  bp_structured_state :: pyval
  bp_evidence_refs :: "string list"
  bp_candidates :: "candidate list"
  bp_allow_escalate :: bool
  bp_required_verifier :: string
  bp_claim_ceiling :: string
  bp_content_sha256 :: string

definition packet_body :: "packet \<Rightarrow> dict" where
  "packet_body p =
     [(''schema'', PStr BOUNDED_DECISION_PACKET_SCHEMA), (''task_id'', PStr (bp_task_id p)),
      (''repository'', PStr (bp_repository p)), (''source_revision'', PStr (bp_source_revision p)),
      (''decision_family'', PStr (bp_decision_family p)), (''structured_state'', bp_structured_state p),
      (''evidence_refs'', PList (map PStr (bp_evidence_refs p))),
      (''candidates'', PList (map candidate_to_dict (bp_candidates p))),
      (''allow_escalate'', PBool (bp_allow_escalate p)), (''required_verifier'', PStr (bp_required_verifier p)),
      (''claim_ceiling'', PStr (bp_claim_ceiling p))]"

definition bp_verify :: "(string \<Rightarrow> string) \<Rightarrow> packet \<Rightarrow> unit res" where
  "bp_verify H p =
     bindr (sha256_payload H (PDict (packet_body p))) (\<lambda>expected.
     raise_if (bp_content_sha256 p \<noteq> expected) BoundedDecisionError ''bounded decision packet hash mismatch'')"

text \<open>The packet of the fields of a state and its candidates, sealed with its hash.\<close>

definition sealed_packet :: "(string \<Rightarrow> string) \<Rightarrow> dict \<Rightarrow> candidate list \<Rightarrow> packet res" where
  "sealed_packet H d candidates =
     bindr (raise_if (\<not> is_mapping (dget_default d ''structured_state'' (PDict []))) BoundedDecisionError
              ''structured_state must be a mapping'') (\<lambda>_.
     bindr (bd_json_value (dget_default d ''structured_state'' (PDict [])) ''structured_state'') (\<lambda>normalized_state.
     bindr (bd_text (dget d ''task_id'') ''task_id'') (\<lambda>task_id.
     bindr (bd_text (dget d ''repository'') ''repository'') (\<lambda>repository.
     bindr (bd_text (dget d ''source_revision'') ''source_revision'') (\<lambda>source_revision.
     bindr (bd_text (dget d ''decision_family'') ''decision_family'') (\<lambda>decision_family.
     bindr (string_list (dget d ''evidence_refs'') ''evidence_refs'' 1) (\<lambda>evidence_refs.
     bindr (bd_text (dget d ''required_verifier'') ''required_verifier'') (\<lambda>required_verifier.
     bindr (bd_text (dget d ''claim_ceiling'') ''claim_ceiling'') (\<lambda>claim_ceiling.
     let p = \<lparr> bp_task_id = task_id, bp_repository = repository, bp_source_revision = source_revision,
               bp_decision_family = decision_family, bp_structured_state = normalized_state,
               bp_evidence_refs = evidence_refs, bp_candidates = candidates, bp_allow_escalate = True,
               bp_required_verifier = required_verifier, bp_claim_ceiling = claim_ceiling, bp_content_sha256 = [] \<rparr> in
     bindr (sha256_payload H (PDict (packet_body p))) (\<lambda>h.
     Inr (p\<lparr> bp_content_sha256 := h \<rparr>)))))))))))"

definition build_bounded_decision_packet :: "(string \<Rightarrow> string) \<Rightarrow> verdict \<Rightarrow> pyval \<Rightarrow> packet res" where
  "build_bounded_decision_packet H v structured_state =
     bindr (classify_bounded_decision H v structured_state) (\<lambda>e.
     bindr (raise_if (be_disposition e \<noteq> BOUNDED_DECISION_ELIGIBLE) BoundedDecisionError
              (''bounded decision not eligible: '' @ be_disposition e @ '':'' @ be_reason e)) (\<lambda>_.
     let d = dict_of structured_state in
     bindr (normalized_candidates (dget d ''candidates'')) (\<lambda>candidates.
     sealed_packet H d candidates)))"

section \<open>Responses\<close>

record response =
  br_packet_sha256 :: string
  br_choice_id :: string
  br_scores :: "(string \<times> pyfloat) list"
  br_observation_provenance :: pyval

text \<open>\<open>float(raw)\<close> for a number.\<close>

fun to_float :: "pyval \<Rightarrow> pyfloat res" where
  "to_float (PFloat f) = Inr f"
| "to_float (PInt i) =
     (if \<bar>i\<bar> \<ge> 2 ^ 1024 - 2 ^ 970 then Inl (OverflowError, ''int too large to convert to float'')
      else Inr (FFin (of_int i) (show_int i @ ''.0'')))"
| "to_float _ = Inl (TypeError, ''float() argument must be a string or a real number'')"

definition in_unit :: "pyfloat \<Rightarrow> bool" where
  "in_unit f = (case f of FFin r _ \<Rightarrow> 0 \<le> r \<and> r \<le> 1 | _ \<Rightarrow> False)"

definition score_item :: "string \<times> pyval \<Rightarrow> (string \<times> pyfloat) res" where
  "score_item p =
     bindr (raise_if (\<not> (case snd p of PInt _ \<Rightarrow> True | PFloat _ \<Rightarrow> True | _ \<Rightarrow> False)) BoundedDecisionError
              (''score for '' @ fst p @ '' must be numeric'')) (\<lambda>_.
     bindr (to_float (snd p)) (\<lambda>score.
     bindr (raise_if (\<not> in_unit score) BoundedDecisionError (''score for '' @ fst p @ '' must be within [0,1]'')) (\<lambda>_.
     Inr (fst p, score))))"

fun float_val :: "pyfloat \<Rightarrow> rat" where
  "float_val (FFin r _) = r"
| "float_val _ = 0"

definition validate_bounded_decision_response ::
  "(string \<Rightarrow> string) \<Rightarrow> (rat list \<Rightarrow> bool) \<Rightarrow> packet \<Rightarrow> pyval \<Rightarrow> response res" where
  "validate_bounded_decision_response H sums_to_one p rsp =
     bindr (bp_verify H p) (\<lambda>_.
     bindr (raise_if (\<not> is_mapping rsp) BoundedDecisionError ''bounded decision response must be a mapping'') (\<lambda>_.
     let d = dict_of rsp in
     bindr (case contains_authority_key d of
              None \<Rightarrow> Inr ()
            | Some k \<Rightarrow> bd_error (''bounded decision response must not carry authority content: '' @ k)) (\<lambda>_.
     bindr (raise_if (dget d ''schema'' \<noteq> PStr BOUNDED_DECISION_RESPONSE_SCHEMA) BoundedDecisionError
              ''bounded decision response schema mismatch'') (\<lambda>_.
     bindr (bd_text (dget d ''packet_sha256'') ''packet_sha256'') (\<lambda>packet_sha.
     bindr (raise_if (packet_sha \<noteq> bp_content_sha256 p) BoundedDecisionError
              ''bounded decision response packet mismatch'') (\<lambda>_.
     let allowed = insert ESCALATE (bc_candidate_id ` set (bp_candidates p)) in
     bindr (bd_text (dget d ''choice_id'') ''choice_id'') (\<lambda>choice_id.
     bindr (raise_if (choice_id \<notin> allowed) BoundedDecisionError ''response introduced an out-of-set candidate'') (\<lambda>_.
     bindr (raise_if (\<not> is_mapping (dget d ''scores'')) BoundedDecisionError ''scores must be a mapping'') (\<lambda>_.
     let scores_value = dict_of (dget d ''scores'') in
     bindr (raise_if (set (dkeys scores_value) \<noteq> allowed) BoundedDecisionError
              ''scores must cover exactly the supplied candidates plus ESCALATE'') (\<lambda>_.
     bindr (map_res score_item scores_value) (\<lambda>scores.
     bindr (raise_if (\<not> sums_to_one (map (\<lambda>s. float_val (snd s)) scores)) BoundedDecisionError
              ''scores must sum to 1'') (\<lambda>_.
     let provenance = dget_default d ''observation_provenance'' (PDict []) in
     bindr (raise_if (\<not> is_mapping provenance) BoundedDecisionError ''observation_provenance must be a mapping'') (\<lambda>_.
     bindr (bd_json_value provenance ''observation_provenance'') (\<lambda>prov.
     Inr \<lparr> br_packet_sha256 = packet_sha, br_choice_id = choice_id, br_scores = scores,
           br_observation_provenance = prov \<rparr>))))))))))))))"

section \<open>Lemmas\<close>

lemma bd_text_error: "bd_text v name = Inl e \<Longrightarrow> fst e = BoundedDecisionError"
  by (auto simp: bd_text_def dest: require_text_error)

lemma string_list_error: "string_list v name n = Inl e \<Longrightarrow> fst e = BoundedDecisionError"
  by (auto simp: string_list_def bindr_eq_Inl raise_if_eq_Inl dest!: map_res_Inl_member bd_text_error)

lemma bd_json_value_error: "bd_json_value v name = Inl e \<Longrightarrow> fst e = BoundedDecisionError"
  by (auto simp: bd_json_value_def dest: norm_value_error)

lemma candidate_item_error: "candidate_item v = Inl e \<Longrightarrow> fst e = BoundedDecisionError"
  by (cases v) (auto simp: candidate_item_def candidate_from_mapping_def bindr_eq_Inl raise_if_eq_Inl
      dest: bd_text_error string_list_error bd_json_value_error)

lemma normalized_candidates_error: "normalized_candidates v = Inl e \<Longrightarrow> fst e = BoundedDecisionError"
  by (auto simp: normalized_candidates_def bindr_eq_Inl raise_if_eq_Inl dest!: map_res_Inl_member candidate_item_error)

lemma contract_candidates_error: "contract_candidates d = Inl e \<Longrightarrow> fst e = BoundedDecisionError"
  by (auto simp: contract_candidates_def bindr_eq_Inl
      dest: bd_text_error string_list_error normalized_candidates_error)

lemma catch_bd_simps [simp]:
  "catch_bd (Inr x) h k = k x" "fst e = BoundedDecisionError \<Longrightarrow> catch_bd (Inl e) h k = h (snd e)"
  by (simp_all add: catch_bd_def)

text \<open>Dispositions as values; no two of them are equal.\<close>

lemmas disposition_defs = BOUNDED_DECISION_ELIGIBLE_def FRONTIER_REASONING_REQUIRED_def
  BOUNDED_DECISION_INSUFFICIENT_STATE_def DETERMINISTIC_ALREADY_RESOLVED_def

lemma not_eligible [simp]:
  "BOUNDED_DECISION_INSUFFICIENT_STATE \<noteq> BOUNDED_DECISION_ELIGIBLE" "FRONTIER_REASONING_REQUIRED \<noteq> BOUNDED_DECISION_ELIGIBLE"
  "DETERMINISTIC_ALREADY_RESOLVED \<noteq> BOUNDED_DECISION_ELIGIBLE"
  by (simp_all add: disposition_defs)

lemma eligibility_of_disposition [simp]:
  "be_disposition (eligibility_of d r s f) = d" "be_reason (eligibility_of d r s f) = r"
  by (simp_all add: eligibility_of_def)

lemma status_distinct [simp]:
  "MODEL_NEEDED \<noteq> RESOLVED_DETERMINISTICALLY" "MODEL_NEEDED \<noteq> INSUFFICIENT_STRUCTURED_STATE"
  "INSUFFICIENT_STRUCTURED_STATE \<noteq> MODEL_NEEDED"
  by (simp_all add: MODEL_NEEDED_def RESOLVED_DETERMINISTICALLY_def INSUFFICIENT_STRUCTURED_STATE_def)

text \<open>The conditions under which the residual is bounded.\<close>

definition bounded_residual :: "(string \<Rightarrow> string) \<Rightarrow> verdict \<Rightarrow> dict \<Rightarrow> candidate list \<Rightarrow> bool" where
  "bounded_residual H v d candidates \<longleftrightarrow>
     mv_resolution v = MODEL_NEEDED \<and> mv_structured_state_digest v \<noteq> [] \<and>
     (\<exists>w. bd_json_value (PDict d) ''structured_state'' = Inr w \<and> bd_content_digest H w = Inr (mv_structured_state_digest v)) \<and>
     strip (str_or (dget d ''decision_family'') '''') \<in> SAFE_BOUNDED_DECISION_FAMILIES \<and>
     is_array (dget d ''protected_authority_requirements'') \<and>
     protected_values (dget d ''protected_authority_requirements'') = [] \<and> contract_candidates d = Inr candidates"

lemma safe_family_neq_Nil: "[] \<notin> SAFE_BOUNDED_DECISION_FAMILIES"
  by (simp add: SAFE_BOUNDED_DECISION_FAMILIES_def)

lemma catch_bd_eq_Inr:
  "catch_bd m h k = Inr y \<longleftrightarrow> (\<exists>x. m = Inr x \<and> k x = Inr y) \<or> (\<exists>e. m = Inl e \<and> fst e = BoundedDecisionError \<and> h (snd e) = Inr y)"
  by (cases m) (auto simp: catch_bd_def)

lemma classify_digest:
  assumes "mv_resolution v = MODEL_NEEDED" and "bd_json_value (PDict d) ''structured_state'' = Inr w"
    and "bd_content_digest H w = Inr dig"
  shows "classify_bounded_decision H v (PDict d) =
    (if mv_structured_state_digest v = []
     then Inr (eligibility_of BOUNDED_DECISION_INSUFFICIENT_STATE ''model_call_state_digest_missing'' MODEL_NEEDED '''')
     else if mv_structured_state_digest v \<noteq> dig
     then Inr (eligibility_of BOUNDED_DECISION_INSUFFICIENT_STATE ''model_call_state_digest_mismatch'' MODEL_NEEDED '''')
     else classify_family MODEL_NEEDED d)"
  using assms by (simp add: classify_bounded_decision_def Let_def)

lemma classify_not_needed:
  "mv_resolution v \<noteq> MODEL_NEEDED \<Longrightarrow> \<exists>e. classify_bounded_decision H v s = Inr e \<and> be_disposition e \<noteq> BOUNDED_DECISION_ELIGIBLE"
  by (simp add: classify_bounded_decision_def Let_def)

lemma classify_unusable:
  assumes "mv_resolution v = MODEL_NEEDED"
    and "bindr (bd_json_value (PDict d) ''structured_state'') (bd_content_digest H) = Inl x" and "fst x = BoundedDecisionError"
  shows "\<exists>e. classify_bounded_decision H v (PDict d) = Inr e \<and> be_disposition e \<noteq> BOUNDED_DECISION_ELIGIBLE"
  using assms by (simp add: classify_bounded_decision_def Let_def)

lemma digest_error:
  "bindr (bd_json_value v name) (bd_content_digest H) = Inl e \<Longrightarrow> fst e = BoundedDecisionError"
  by (auto simp: bindr_eq_Inl bd_content_digest_def bd_canonical_json_def dest: bd_json_value_error canon_json_error)

lemma classify_family_eligible:
  "(\<exists>e. classify_family res d = Inr e \<and> be_disposition e = BOUNDED_DECISION_ELIGIBLE) \<longleftrightarrow>
     strip (str_or (dget d ''decision_family'') '''') \<in> SAFE_BOUNDED_DECISION_FAMILIES \<and>
     is_array (dget d ''protected_authority_requirements'') \<and>
     protected_values (dget d ''protected_authority_requirements'') = [] \<and> (\<exists>cs. contract_candidates d = Inr cs)"
  using safe_family_neq_Nil contract_candidates_error [of d]
  by (cases "contract_candidates d") (auto simp: classify_family_def Let_def)

lemma classify_eligible_iff:
  "(\<exists>e. classify_bounded_decision H v s = Inr e \<and> be_disposition e = BOUNDED_DECISION_ELIGIBLE) \<longleftrightarrow>
     (\<exists>d candidates. s = PDict d \<and> bounded_residual H v d candidates)"
proof (cases "mv_resolution v = MODEL_NEEDED")
  case False
  with classify_not_needed [of v H s] show ?thesis by (auto simp: bounded_residual_def)
next
  case needed: True
  show ?thesis
  proof (cases s)
    case (PDict d)
    show ?thesis
    proof (cases "bindr (bd_json_value (PDict d) ''structured_state'') (bd_content_digest H)")
      case (Inl e)
      with classify_unusable [OF needed Inl digest_error [OF Inl]] show ?thesis
        by (auto simp: PDict bounded_residual_def bindr_eq_Inl)
    next
      case (Inr dig)
      then obtain w where w: "bd_json_value (PDict d) ''structured_state'' = Inr w" "bd_content_digest H w = Inr dig"
        by (auto simp: bindr_eq_Inr)
      show ?thesis unfolding PDict classify_digest [OF needed w] bounded_residual_def
        using classify_family_eligible [of MODEL_NEEDED d] needed w by auto
    qed
  qed (use needed in \<open>simp_all add: classify_bounded_decision_def Let_def\<close>)
qed

text \<open>Packets.\<close>

lemma map_res_projr: "map_res f xs = Inr ys \<Longrightarrow> ys = map (\<lambda>x. projr (f x)) xs"
  by (induction xs arbitrary: ys) (auto simp: bindr_eq_Inr)

lemma normalized_candidates_permute:
  assumes "normalized_candidates (PList xs) = Inr cs" and "normalized_candidates (PList ys) = Inr cs'"
    and "mset xs = mset ys"
  shows "cs = cs'"
proof -
  from assms(1) obtain as where as: "map_res candidate_item xs = Inr as" "distinct (map bc_candidate_id as)"
    "cs = sort_key bc_candidate_id as" by (auto simp: normalized_candidates_def bindr_eq_Inr raise_if_eq_Inr)
  from assms(2) obtain bs where bs: "map_res candidate_item ys = Inr bs" "cs' = sort_key bc_candidate_id bs"
    by (auto simp: normalized_candidates_def bindr_eq_Inr raise_if_eq_Inr)
  have "mset as = mset bs"
    unfolding map_res_projr [OF as(1)] map_res_projr [OF bs(1)] mset_map assms(3) ..
  then have "mset as = mset (sort_key bc_candidate_id bs)" by simp
  moreover have "inj_on bc_candidate_id (set as)" using as(2) by (simp add: distinct_map)
  ultimately have "sort_key bc_candidate_id as = sort_key bc_candidate_id bs"
    by (intro sort_key_inj_key_eq) simp_all
  then show ?thesis by (simp add: as(3) bs(2))
qed

lemma sealed_packet_candidates: "sealed_packet H (dset ''candidates'' v d) cs = sealed_packet H d cs"
  by (simp add: sealed_packet_def dget_default_def)

text \<open>The digest of a state that the resolution computed is the one that the classification computes.\<close>

lemma bd_digest_of_structured_state:
  assumes "structured_state_digest H d = Inr dig"
  shows "\<exists>w. bd_json_value (PDict d) ''structured_state'' = Inr w \<and> bd_content_digest H w = Inr dig"
proof -
  from assms obtain w s where w: "mc_normalize (PDict d) ''structured_state'' = Inr w"
    and s: "mc_canonical_json w = Inr s" "dig = H s"
    by (auto simp: structured_state_digest_def mc_content_digest_def bindr_eq_Inr)
  have "bd_json_value (PDict d) ''structured_state'' = Inr w"
    unfolding bd_json_value_def by (rule norm_value_class [OF w [unfolded mc_normalize_def]])
  moreover have "bd_canonical_json w = Inr s"
    unfolding bd_canonical_json_def by (rule canon_json_class [OF s(1) [unfolded mc_canonical_json_def]])
  ultimately show ?thesis using s(2) by (simp add: bd_content_digest_def)
qed

context digest
begin

lemma resolution_digest:
  assumes "resolve_model_call_need H r d seam on_invalid = Inr v" and "mv_resolution v = MODEL_NEEDED"
    and "structured_state_digest H d = Inr dig"
  shows "mv_structured_state_digest v = dig \<and> dig \<noteq> []"
proof -
  from assms(3) obtain s where "dig = H s"
    by (auto simp: structured_state_digest_def mc_content_digest_def bindr_eq_Inr)
  then have "strip dig = dig" "dig \<noteq> []" using solid_digest [of s] by (auto simp: solid_def)
  moreover have "mv_structured_state_digest v = strip dig"
  proof (cases rule: resolve_cases [of H d r seam on_invalid])
    case (unusable e)
    with assms(3) show ?thesis by simp
  next
    case (fallback dig')
    with assms(1,2) show ?thesis by (auto simp: safe_verdict_def)
  next
    case (answered dig' res answer payload v')
    with assms(1,3) normalize_verdict_fields [OF answered(5)] show ?thesis by simp
  qed
  ultimately show ?thesis by simp
qed

end

section \<open>Sample decision\<close>

definition sample_candidate :: "string \<Rightarrow> pyval" where
  "sample_candidate i = PDict [(''candidate_id'', PStr i), (''evidence_refs'', PList [PStr ''e'']), (''payload'', PInt 1)]"

definition sample_residual_state :: dict where
  "sample_residual_state = [(''decision_family'', PStr ''repair_candidate_choice''),
     (''protected_authority_requirements'', PList []), (''candidates'', PList [sample_candidate ''b'', sample_candidate ''a'']),
     (''evidence_refs'', PList [PStr ''e'']), (''task_id'', PStr ''t''), (''repository'', PStr ''r''),
     (''source_revision'', PStr ''s''), (''required_verifier'', PStr ''v''), (''claim_ceiling'', PStr ''c'')]"

definition sample_asking :: resolver where
  "sample_asking = \<lparr> rv_id = PStr ''host'', rv_class = ''Host'', rv_resolve = (\<lambda>_ _. Inr (ValueAnswer (PDict
     [(''resolution'', PStr ''MODEL_NEEDED'')]))) \<rparr>"

definition sample_verdict :: verdict where
  "sample_verdict = projr (resolve_model_call_need sample_hash (Some sample_asking) sample_residual_state '''' MODEL_NEEDED)"

definition sample_bounded_packet :: packet where
  "sample_bounded_packet = projr (build_bounded_decision_packet sample_hash sample_verdict (PDict sample_residual_state))"

lemma sample_verdict_ok:
  "resolve_model_call_need sample_hash (Some sample_asking) sample_residual_state '''' MODEL_NEEDED = Inr sample_verdict"
  using model_call_total [of sample_hash "Some sample_asking" sample_residual_state "''''" MODEL_NEEDED]
  by (auto simp: sample_verdict_def)

lemma sample_bounded_packet_ok:
  "build_bounded_decision_packet sample_hash sample_verdict (PDict sample_residual_state) = Inr sample_bounded_packet"
proof -
  have "\<not> isl (build_bounded_decision_packet sample_hash sample_verdict (PDict sample_residual_state))" by code_simp
  then show ?thesis by (simp add: sample_bounded_packet_def)
qed

definition sample_response :: pyval where
  "sample_response = PDict [(''schema'', PStr BOUNDED_DECISION_RESPONSE_SCHEMA),
     (''packet_sha256'', PStr (bp_content_sha256 sample_bounded_packet)), (''choice_id'', PStr ''a''),
     (''scores'', PDict [(''a'', PInt 1), (''b'', PInt 0), (''ESCALATE'', PInt 0)])]"

definition exact_sum :: "rat list \<Rightarrow> bool" where
  "exact_sum xs \<longleftrightarrow> sum_list xs = 1"

section \<open>Properties\<close>

text \<open>
  The residual is put to a bounded choice exactly when a model call is needed,
  the verdict is bound to the digest of this very state, the decision family is a reviewed one, no
  protected authority requirement is listed, and the contract fields with at least two
  provenance-bound candidates are complete.
\<close>

theorem bounded_eligible_iff:
  "(\<exists>e. classify_bounded_decision H v s = Inr e \<and> be_disposition e = BOUNDED_DECISION_ELIGIBLE) \<longleftrightarrow>
   (\<exists>d w cs. s = PDict d \<and> mv_resolution v = MODEL_NEEDED \<and> mv_structured_state_digest v \<noteq> [] \<and>
      bd_json_value (PDict d) ''structured_state'' = Inr w \<and> bd_content_digest H w = Inr (mv_structured_state_digest v) \<and>
      strip (str_or (dget d ''decision_family'') '''') = ''repair_candidate_choice'' \<and>
      is_array (dget d ''protected_authority_requirements'') \<and>
      protected_values (dget d ''protected_authority_requirements'') = [] \<and> contract_candidates d = Inr cs)"
  unfolding classify_eligible_iff bounded_residual_def SAFE_BOUNDED_DECISION_FAMILIES_def by auto

text \<open>
  The two modules agree on the state: when the resolution of a usable
  state says that a model is needed, the classification of the same state never fails on a missing
  or different digest, and is decided by the family, the protected requirements and the contract
  fields alone.
\<close>

theorem resolution_digest_accepted:
  assumes "digest H" and "resolve_model_call_need H r d seam on_invalid = Inr v" and "mv_resolution v = MODEL_NEEDED"
    and "structured_state_digest H d = Inr dig"
  shows "classify_bounded_decision H v (PDict d) = classify_family MODEL_NEEDED d"
proof -
  have v: "mv_structured_state_digest v = dig \<and> dig \<noteq> []"
    by (rule digest.resolution_digest [OF assms])
  obtain w where "bd_json_value (PDict d) ''structured_state'' = Inr w" "bd_content_digest H w = Inr dig"
    using bd_digest_of_structured_state [OF assms(4)] by blast
  from classify_digest [OF assms(3) this] v show ?thesis by simp
qed

theorem resolution_digest_accepted_witness:
  "classify_bounded_decision sample_hash sample_verdict (PDict sample_residual_state)
     = classify_family MODEL_NEEDED sample_residual_state"
proof -
  have s: "mv_resolution sample_verdict = MODEL_NEEDED" by code_simp
  have "\<not> isl (structured_state_digest sample_hash sample_residual_state)" by code_simp
  then obtain dig where "structured_state_digest sample_hash sample_residual_state = Inr dig" by (metis sum.collapse(2))
  from resolution_digest_accepted [OF digest.intro sample_verdict_ok s this] hex64_sample_hash show ?thesis by blast
qed

text \<open>
  The order in which candidates are listed is not part of a decision: two
  packets built from states that differ only in the order of their candidates are the same packet,
  hash included.
\<close>

theorem packet_order_independent:
  assumes "build_bounded_decision_packet H v (PDict d) = Inr p" and "dget d ''candidates'' = PList xs"
    and "mset xs = mset ys" and "build_bounded_decision_packet H v' (PDict (dset ''candidates'' (PList ys) d)) = Inr p'"
  shows "p = p'"
proof -
  from assms(1,2) obtain cs where cs: "normalized_candidates (PList xs) = Inr cs" "sealed_packet H d cs = Inr p"
    by (auto simp: build_bounded_decision_packet_def bindr_eq_Inr Let_def)
  from assms(4) obtain cs' where cs': "normalized_candidates (PList ys) = Inr cs'" "sealed_packet H d cs' = Inr p'"
    by (auto simp: build_bounded_decision_packet_def bindr_eq_Inr Let_def sealed_packet_candidates)
  with cs normalized_candidates_permute [OF cs(1) cs'(1) assms(3)] show ?thesis by simp
qed

theorem packet_order_independent_witness:
  "\<exists>p. build_bounded_decision_packet sample_hash sample_verdict
     (PDict (dset ''candidates'' (PList [sample_candidate ''a'', sample_candidate ''b'']) sample_residual_state)) = Inr p \<and>
   p = sample_bounded_packet"
proof -
  let ?b = "build_bounded_decision_packet sample_hash sample_verdict
     (PDict (dset ''candidates'' (PList [sample_candidate ''a'', sample_candidate ''b'']) sample_residual_state))"
  have "\<not> isl ?b" by code_simp
  then obtain p where p: "?b = Inr p" by (metis sum.collapse(2))
  have "dget sample_residual_state ''candidates'' = PList [sample_candidate ''b'', sample_candidate ''a'']"
    by (simp add: sample_residual_state_def dget_def)
  from packet_order_independent [OF sample_bounded_packet_ok this _ p] p show ?thesis by simp
qed

text \<open>
  C33 (bounded_response_in_set). A validated response is bound to an intact packet by its hash, carries no
  authority-sounding key, chooses one of the packet's candidates or escalation, and scores exactly
  these, each within the unit interval.
\<close>

theorem bounded_response_in_set:
  assumes "validate_bounded_decision_response H near p rsp = Inr r"
  shows "bp_verify H p = Inr () \<and> br_packet_sha256 r = bp_content_sha256 p \<and>
    contains_authority_key (dict_of rsp) = None \<and>
    br_choice_id r \<in> insert ESCALATE (bc_candidate_id ` set (bp_candidates p)) \<and>
    fst ` set (br_scores r) = insert ESCALATE (bc_candidate_id ` set (bp_candidates p)) \<and>
    (\<forall>s \<in> set (br_scores r). in_unit (snd s)) \<and> near (map (\<lambda>s. float_val (snd s)) (br_scores r))"
proof -
  let ?allowed = "insert ESCALATE (bc_candidate_id ` set (bp_candidates p))"
  from assms obtain sv where r: "bp_verify H p = Inr ()" "contains_authority_key (dict_of rsp) = None"
    "br_packet_sha256 r = bp_content_sha256 p" "br_choice_id r \<in> ?allowed" "set (dkeys sv) = ?allowed"
    "map_res score_item sv = Inr (br_scores r)" "near (map (\<lambda>s. float_val (snd s)) (br_scores r))"
    unfolding validate_bounded_decision_response_def Let_def
    by (clarsimp simp: bindr_eq_Inr raise_if_eq_Inr simp del: norm_value.simps split: option.split_asm)
  have item: "fst y = fst x \<and> in_unit (snd y)" if "score_item x = Inr y" for x y
    using that by (auto simp: score_item_def bindr_eq_Inr raise_if_eq_Inr)
  have "list_all2 (\<lambda>x y. fst y = fst x) sv (br_scores r)"
    using r(6) item unfolding map_res_eq_Inr by (auto elim: list_all2_mono)
  then have "map fst (br_scores r) = map fst sv" by (induction rule: list_all2_induct) auto
  then have "fst ` set (br_scores r) = ?allowed" using r(5) by (metis dkeys_def list.set_map)
  moreover have "\<forall>s \<in> set (br_scores r). in_unit (snd s)" using map_res_member [OF r(6)] item by blast
  ultimately show ?thesis using r by simp
qed

theorem bounded_response_in_set_witness:
  "\<exists>r. validate_bounded_decision_response sample_hash exact_sum sample_bounded_packet sample_response = Inr r \<and>
     br_choice_id r \<in> insert ESCALATE (bc_candidate_id ` set (bp_candidates sample_bounded_packet))"
proof -
  have "\<not> isl (validate_bounded_decision_response sample_hash exact_sum sample_bounded_packet sample_response)" by code_simp
  then obtain r where r: "validate_bounded_decision_response sample_hash exact_sum sample_bounded_packet sample_response = Inr r"
    by (metis sum.collapse(2))
  from bounded_response_in_set [OF r] r show ?thesis by blast
qed

text \<open>
  Escalation is a choice of its own only as long as no candidate is called \<open>ESCALATE\<close>, and nothing
  prevents that: such a candidate is accepted.
\<close>

lemma escalate_candidate_accepted:
  "map bc_candidate_id (projr (normalized_candidates (PList [sample_candidate ''ESCALATE'', sample_candidate ''a''])))
     = [''ESCALATE'', ''a'']"
  by code_simp

end
