(* ===== verification/Context_Budget.thy ===== *)
theory Context_Budget
  imports Py_Prelude "HOL-Library.Product_Lexorder" "HOL-Library.Multiset"
begin

text \<open>
  The token budget of a task's context (\<open>task_context/budget.py\<close>): required sources are always kept,
  optional ones are taken greedily by priority while they fit, and the receipt records what was
  kept, what was dropped and why.
\<close>

section \<open>Sources\<close>

definition REQUIRED_CONTEXT_KINDS :: "string list" where
  "REQUIRED_CONTEXT_KINDS = [''L0'', ''L1'']"

definition CONTEXT_BUDGET_RECEIPT_SCHEMA :: string where
  "CONTEXT_BUDGET_RECEIPT_SCHEMA = ''nexus_context_budget_receipt.v1''"

record source =
  cs_source_id :: string
  cs_kind :: string
  cs_estimated_tokens :: int
  cs_priority :: int
  cs_required :: bool
  cs_metadata :: dict

definition make_source :: "source \<Rightarrow> source res" where
  "make_source s =
     bindr (raise_if (strip (cs_source_id s) = []) ValueError ''missing_source_id'') (\<lambda>_.
     bindr (raise_if (strip (cs_kind s) = []) ValueError ''missing_kind'') (\<lambda>_.
     bindr (raise_if (cs_estimated_tokens s < 0) ValueError ''negative_estimated_tokens'') (\<lambda>_.
     Inr s)))"

definition source_to_dict :: "source \<Rightarrow> pyval" where
  "source_to_dict s = PDict [(''source_id'', PStr (cs_source_id s)), (''kind'', PStr (cs_kind s)),
     (''estimated_tokens'', PInt (cs_estimated_tokens s)), (''priority'', PInt (cs_priority s)),
     (''required'', PBool (cs_required s)), (''metadata'', PDict (cs_metadata s))]"

text \<open>\<open>dict(v)\<close> of a mapping or of a sequence of pairs with text keys.\<close>

fun dict_pair :: "pyval \<Rightarrow> (string \<times> pyval) res" where
  "dict_pair (PList [PStr k, v]) = Inr (k, v)"
| "dict_pair (PTuple [PStr k, v]) = Inr (k, v)"
| "dict_pair (PStr [a, b]) = Inr ([a], PStr [b])"
| "dict_pair _ = Inl (TypeError, ''cannot convert dictionary update sequence element to a sequence'')"

definition py_dict :: "pyval \<Rightarrow> dict res" where
  "py_dict v = (case v of
       PDict d \<Rightarrow> Inr d
     | _ \<Rightarrow> bindr (py_iter v) (\<lambda>xs. bindr (map_res dict_pair xs) (\<lambda>ps. Inr (dmerge [] ps))))"

text \<open>An item is a source object or a mapping.\<close>

datatype source_item = SourceObject source | SourceMapping dict

definition source_of :: "source_item \<Rightarrow> source res" where
  "source_of item =
     (case item of
        SourceObject s \<Rightarrow> Inr s
      | SourceMapping d \<Rightarrow>
          bindr (py_int (py_or (dget d ''estimated_tokens'') (PInt 0))) (\<lambda>tokens.
          bindr (py_int (dget_default d ''priority'' (PInt 100))) (\<lambda>priority.
          bindr (py_dict (py_or (dget_default d ''metadata'' (PDict [])) (PDict []))) (\<lambda>metadata.
          make_source \<lparr> cs_source_id = str_or (dget d ''source_id'') '''', cs_kind = str_or (dget d ''kind'') '''',
            cs_estimated_tokens = tokens, cs_priority = priority,
            cs_required = truthy (dget_default d ''required'' (PBool False)), cs_metadata = metadata \<rparr>))))"

definition is_required :: "source \<Rightarrow> bool" where
  "is_required s \<longleftrightarrow> cs_required s \<or> cs_kind s \<in> set REQUIRED_CONTEXT_KINDS"

definition preserved_l0_l1 :: "source list \<Rightarrow> bool" where
  "preserved_l0_l1 ss \<longleftrightarrow> (\<forall>k \<in> set REQUIRED_CONTEXT_KINDS. k \<in> set (map cs_kind ss))"

section \<open>The receipt\<close>

record budget_receipt =
  cb_token_budget :: int
  cb_estimated_tokens :: int
  cb_kept_sources :: "source list"
  cb_dropped_sources :: "(source \<times> string) list"
  cb_preserved_l0_l1 :: bool
  cb_status :: string
  cb_blockers :: "string list"

text \<open>A dropped source is recorded by its identity, its size and the reason.\<close>

definition drop_to_dict :: "source \<times> string \<Rightarrow> pyval" where
  "drop_to_dict p = PDict [(''source_id'', PStr (cs_source_id (fst p))), (''kind'', PStr (cs_kind (fst p))),
     (''estimated_tokens'', PInt (cs_estimated_tokens (fst p))), (''drop_reason_code'', PStr (snd p))]"

definition receipt_to_dict :: "budget_receipt \<Rightarrow> dict" where
  "receipt_to_dict r =
     [(''schema'', PStr CONTEXT_BUDGET_RECEIPT_SCHEMA), (''status'', PStr (cb_status r)),
      (''token_budget'', PInt (cb_token_budget r)), (''estimated_tokens'', PInt (cb_estimated_tokens r)),
      (''kept_sources'', PList (map source_to_dict (cb_kept_sources r))),
      (''dropped_sources'', PList (map drop_to_dict (cb_dropped_sources r))),
      (''preserved_L0_L1'', PBool (cb_preserved_l0_l1 r)), (''blockers'', PList (map PStr (cb_blockers r)))]"

definition total_tokens :: "source list \<Rightarrow> int" where
  "total_tokens ss = sum_list (map cs_estimated_tokens ss)"

text \<open>The greedy pass: the tokens used at the end, and the kept and the dropped sources.\<close>

fun take_optional :: "int \<Rightarrow> int \<Rightarrow> source list \<Rightarrow> int \<times> source list \<times> (source \<times> string) list" where
  "take_optional budget used [] = (used, [], [])"
| "take_optional budget used (s # ss) =
     (if used + cs_estimated_tokens s \<le> budget
      then (case take_optional budget (used + cs_estimated_tokens s) ss of (u, kept, dropped) \<Rightarrow> (u, s # kept, dropped))
      else (case take_optional budget used ss of (u, kept, dropped) \<Rightarrow> (u, kept, (s, ''budget_exhausted'') # dropped)))"

definition budget_blockers :: "source list \<Rightarrow> int \<Rightarrow> string list" where
  "budget_blockers required token_budget =
     (if token_budget \<le> 0 then [''invalid_token_budget''] else []) @
     (if \<not> preserved_l0_l1 required then [''missing_required_l0_l1''] else []) @
     (if token_budget > 0 \<and> total_tokens required > token_budget then [''required_context_over_budget''] else [])"

definition build_context_budget_receipt :: "source_item list \<Rightarrow> int \<Rightarrow> budget_receipt res" where
  "build_context_budget_receipt items token_budget =
     bindr (map_res source_of items) (\<lambda>normalized.
     let required = filter is_required normalized; optional = filter (\<lambda>s. \<not> is_required s) normalized;
         blockers = budget_blockers required token_budget;
         (used, kept, dropped) =
           (if blockers \<noteq> []
            then (total_tokens required, [], map (\<lambda>s. (s, ''budget_not_evaluated_due_to_blocker'')) optional)
            else take_optional token_budget (total_tokens required)
                   (sort_key (\<lambda>s. (cs_priority s, cs_source_id s)) optional)) in
     Inr \<lparr> cb_token_budget = token_budget, cb_estimated_tokens = used, cb_kept_sources = required @ kept,
           cb_dropped_sources = dropped, cb_preserved_l0_l1 = preserved_l0_l1 required,
           cb_status = (if blockers = [] then ''PASS'' else ''RETURN''), cb_blockers = sort_strings blockers \<rparr>)"

definition validate_context_budget_receipt :: "dict \<Rightarrow> string list res" where
  "validate_context_budget_receipt payload =
     bindr (py_int (py_or (dget payload ''token_budget'') (PInt 0))) (\<lambda>budget.
     bindr (py_int (py_or (dget payload ''estimated_tokens'') (PInt 0))) (\<lambda>tokens.
     Inr (sort_strings
       ((if dget payload ''schema'' \<noteq> PStr CONTEXT_BUDGET_RECEIPT_SCHEMA then [''invalid_context_budget_schema''] else []) @
        (if budget \<le> 0 then [''invalid_token_budget''] else []) @
        (if \<not> truthy (dget payload ''preserved_L0_L1'') then [''missing_required_l0_l1''] else []) @
        (if tokens > budget then [''estimated_tokens_exceed_budget''] else [])))))"

section \<open>Lemmas\<close>

lemma take_optional_used: "take_optional budget used ss = (u, kept, dropped) \<Longrightarrow> u = used + total_tokens kept"
  by (induction budget used ss arbitrary: u kept dropped rule: take_optional.induct)
    (force simp: total_tokens_def split: if_splits prod.splits)+

lemma take_optional_mset:
  "take_optional budget used ss = (u, kept, dropped) \<Longrightarrow> mset kept + mset (map fst dropped) = mset ss"
  by (induction budget used ss arbitrary: u kept dropped rule: take_optional.induct)
    (force split: if_splits prod.splits)+

lemma take_optional_bound: "take_optional budget used ss = (u, kept, dropped) \<Longrightarrow> used \<le> budget \<Longrightarrow> u \<le> budget"
  by (induction budget used ss arbitrary: u kept dropped rule: take_optional.induct)
    (force split: if_splits prod.splits)+

lemma take_optional_tight:
  assumes "take_optional budget used ss = (u, kept, dropped)" and "\<forall>s \<in> set ss. 0 \<le> cs_estimated_tokens s"
    and "(s, reason) \<in> set dropped"
  shows "budget < u + cs_estimated_tokens s"
  using assms
proof (induction budget used ss arbitrary: u kept dropped rule: take_optional.induct)
  case (2 budget used x ss)
  have mono: "used \<le> u'" if "take_optional budget used ss = (u', k, dr)" for u' k dr
  proof -
    have "0 \<le> total_tokens k"
    proof -
      have "set k \<subseteq> set ss" using take_optional_mset [OF that] by (metis mset_subset_eq_add_left set_mset_mono set_mset_mset)
      then show ?thesis using "2.prems"(2) by (force simp: total_tokens_def intro!: sum_list_nonneg)
    qed
    then show ?thesis using take_optional_used [OF that] by simp
  qed
  show ?case
  proof (cases "used + cs_estimated_tokens x \<le> budget")
    case True
    with 2 show ?thesis by (auto split: prod.splits)
  next
    case False
    obtain u' k dr where t: "take_optional budget used ss = (u', k, dr)" by (cases "take_optional budget used ss") auto
    with False "2.prems"(1) have u: "u = u'" "dropped = (x, ''budget_exhausted'') # dr" by auto
    show ?thesis
    proof (cases "(s, reason) \<in> set dr")
      case True
      with "2.IH"(2) [OF False t] "2.prems"(2) u show ?thesis by simp
    next
      case F: False
      with "2.prems"(3) u(2) have "s = x" by auto
      with mono [OF t] False u(1) show ?thesis by simp
    qed
  qed
qed simp

text \<open>The parts a receipt is built from.\<close>

lemma build_receipt_cases:
  assumes "build_context_budget_receipt items budget = Inr r"
  obtains normalized kept where "map_res source_of items = Inr normalized"
    and "cb_kept_sources r = filter is_required normalized @ kept"
    and "mset kept + mset (map fst (cb_dropped_sources r)) = mset (filter (\<lambda>s. \<not> is_required s) normalized)"
    and "cb_estimated_tokens r = total_tokens (cb_kept_sources r)" and "cb_token_budget r = budget"
    and "cb_status r = ''PASS'' \<longleftrightarrow> budget_blockers (filter is_required normalized) budget = []"
    and "cb_preserved_l0_l1 r = preserved_l0_l1 (filter is_required normalized)"
    and "cb_status r = ''PASS'' \<Longrightarrow> take_optional budget (total_tokens (filter is_required normalized))
       (sort_key (\<lambda>s. (cs_priority s, cs_source_id s)) (filter (\<lambda>s. \<not> is_required s) normalized))
       = (cb_estimated_tokens r, kept, cb_dropped_sources r)"
proof -
  from assms obtain normalized where n: "map_res source_of items = Inr normalized"
    by (auto simp: build_context_budget_receipt_def bindr_eq_Inr)
  let ?req = "filter is_required normalized" and ?opt = "filter (\<lambda>s. \<not> is_required s) normalized"
  have split: "total_tokens (xs @ ys) = total_tokens xs + total_tokens ys" for xs ys by (simp add: total_tokens_def)
  show ?thesis
  proof (cases "budget_blockers ?req budget = []")
    case False
    with assms n show ?thesis
      by (intro that [of normalized "[]"])
        (auto simp: build_context_budget_receipt_def Let_def total_tokens_def multiset.map_comp comp_def)
  next
    case True
    obtain u kept dropped where t: "take_optional budget (total_tokens ?req)
        (sort_key (\<lambda>s. (cs_priority s, cs_source_id s)) ?opt) = (u, kept, dropped)"
      by (cases "take_optional budget (total_tokens ?req) (sort_key (\<lambda>s. (cs_priority s, cs_source_id s)) ?opt)") auto
    with True assms n show ?thesis
      using take_optional_used [OF t] take_optional_mset [OF t]
      by (intro that [of normalized kept]) (auto simp: build_context_budget_receipt_def Let_def split)
  qed
qed

lemma budget_blockers_Nil:
  "budget_blockers required budget = [] \<longleftrightarrow> 0 < budget \<and> preserved_l0_l1 required \<and> total_tokens required \<le> budget"
  by (auto simp: budget_blockers_def)

definition sample_items :: "source_item list" where
  "sample_items =
     [SourceMapping [(''source_id'', PStr ''z''), (''kind'', PStr ''note''), (''estimated_tokens'', PInt 9)],
      SourceMapping [(''source_id'', PStr ''a''), (''kind'', PStr ''L0''), (''estimated_tokens'', PInt 2)],
      SourceMapping [(''source_id'', PStr ''b''), (''kind'', PStr ''L1''), (''estimated_tokens'', PInt 3)],
      SourceMapping [(''source_id'', PStr ''c''), (''kind'', PStr ''note''), (''estimated_tokens'', PInt 4)]]"

definition sample_receipt :: budget_receipt where
  "sample_receipt = projr (build_context_budget_receipt sample_items 10)"

lemma sample_receipt_ok: "build_context_budget_receipt sample_items 10 = Inr sample_receipt"
proof -
  have "\<not> isl (build_context_budget_receipt sample_items 10)" by code_simp
  then show ?thesis by (simp add: sample_receipt_def)
qed

section \<open>Properties\<close>

text \<open>
  C40 (budget_receipt_sound). A receipt accounts for every source exactly once, keeps every required one,
  and reports the tokens of what it kept. It passes exactly when the budget is positive, both
  required kinds are present and the required sources fit; and then what it kept stays within the
  budget.
\<close>

theorem budget_receipt_sound:
  assumes "build_context_budget_receipt items budget = Inr r"
  shows "\<exists>sources. map_res source_of items = Inr sources \<and>
    mset (cb_kept_sources r) + mset (map fst (cb_dropped_sources r)) = mset sources \<and>
    set (filter is_required sources) \<subseteq> set (cb_kept_sources r) \<and>
    cb_estimated_tokens r = total_tokens (cb_kept_sources r) \<and>
    (cb_status r = ''PASS'' \<longleftrightarrow>
       0 < budget \<and> preserved_l0_l1 (filter is_required sources) \<and> total_tokens (filter is_required sources) \<le> budget) \<and>
    (cb_status r = ''PASS'' \<longrightarrow> cb_estimated_tokens r \<le> budget)"
proof (cases rule: build_receipt_cases [OF assms])
  case (1 normalized kept)
  note n = 1 and pass = 1(8)
  have "mset (cb_kept_sources r) + mset (map fst (cb_dropped_sources r)) = mset normalized"
    using n(3) by (simp add: n(2) add.assoc)
  moreover have "cb_estimated_tokens r \<le> budget" if "cb_status r = ''PASS''"
    using take_optional_bound [OF pass [OF that]] n(6) that by (simp add: budget_blockers_Nil)
  ultimately show ?thesis using n by (auto simp: budget_blockers_Nil)
qed

theorem budget_receipt_sound_witness:
  "cb_status sample_receipt = ''PASS'' \<and> cb_estimated_tokens sample_receipt = total_tokens (cb_kept_sources sample_receipt) \<and>
   cb_estimated_tokens sample_receipt \<le> 10"
proof -
  have "cb_status sample_receipt = ''PASS''" by code_simp
  with budget_receipt_sound [OF sample_receipt_ok] show ?thesis by auto
qed

text \<open>
  The greedy choice wastes nothing: in a receipt that passes, no dropped
  source would still fit into the budget.
\<close>

theorem budget_receipt_tight:
  assumes "build_context_budget_receipt items budget = Inr r" and "cb_status r = ''PASS''"
    and "map_res source_of items = Inr sources" and "\<forall>s \<in> set sources. 0 \<le> cs_estimated_tokens s"
    and "(s, reason) \<in> set (cb_dropped_sources r)"
  shows "budget < cb_estimated_tokens r + cs_estimated_tokens s"
proof (cases rule: build_receipt_cases [OF assms(1)])
  case (1 normalized kept)
  note n = 1 and pass = 1(8)
  show ?thesis
    by (rule take_optional_tight [OF pass [OF assms(2)] _ assms(5)]) (use n(1) assms(3,4) in auto)
qed

theorem budget_receipt_tight_witness:
  "10 < cb_estimated_tokens sample_receipt + cs_estimated_tokens (fst (hd (cb_dropped_sources sample_receipt)))"
proof (rule budget_receipt_tight [OF sample_receipt_ok])
  show "cb_status sample_receipt = ''PASS''" by code_simp
  have "\<not> isl (map_res source_of sample_items)" by code_simp
  then show "map_res source_of sample_items = Inr (projr (map_res source_of sample_items))" by simp
  show "\<forall>s \<in> set (projr (map_res source_of sample_items)). 0 \<le> cs_estimated_tokens s" by code_simp
  have "cb_dropped_sources sample_receipt \<noteq> []" by code_simp
  then show "(fst (hd (cb_dropped_sources sample_receipt)), snd (hd (cb_dropped_sources sample_receipt)))
    \<in> set (cb_dropped_sources sample_receipt)" by simp
qed

text \<open>A receipt that passes is accepted by the validator of receipts.\<close>

lemma passing_receipt_validates:
  assumes "build_context_budget_receipt items budget = Inr r" and "cb_status r = ''PASS''"
  shows "validate_context_budget_receipt (receipt_to_dict r) = Inr []"
proof (cases rule: build_receipt_cases [OF assms(1)])
  case (1 normalized kept)
  note n = 1 and pass = 1(8)
  have "0 < budget" "cb_preserved_l0_l1 r" using n(6,7) assms(2) by (auto simp: budget_blockers_Nil)
  moreover have "cb_estimated_tokens r \<le> budget"
    using take_optional_bound [OF pass [OF assms(2)]] n(6) assms(2) by (simp add: budget_blockers_Nil)
  ultimately show ?thesis
    by (auto simp: validate_context_budget_receipt_def receipt_to_dict_def dget_def n(5) py_or_def sort_strings_def)
qed

end
