(* ===== verification/Port_Calls.thy ===== *)
theory Port_Calls
  imports Py_Prelude "HOL-Library.While_Combinator"
begin

text \<open>
  Code that talks to the outside only through ports. A run is described by the list of the calls it
  made so far, each with its answer; a port answers as a function of that list and of its arguments,
  so that a theorem for all ports covers every environment: storage, workers, clocks, and what other
  processes do between two calls. A fallible action maps the calls so far to a result and the calls
  after it; calls are only ever appended, so the calls of a run that raises are recorded too.

  The second half is the calculus for these actions: which kinds of calls an action makes
  (\<open>emits\<close>), triples with one postcondition for results and one for exceptions (\<open>triple\<close>), and the rule
  for a loop over actions.
\<close>

section \<open>Actions\<close>

type_synonym ('e, 'a) act = "'e list \<Rightarrow> 'a res \<times> 'e list"

named_theorems act_simps \<open>unfolding rules of actions\<close>

definition ret :: "'a \<Rightarrow> ('e, 'a) act" where
  "ret x = (\<lambda>tr. (Inr x, tr))"

text \<open>A pure computation that may raise.\<close>

definition lift :: "'a res \<Rightarrow> ('e, 'a) act" where
  "lift r = (\<lambda>tr. (r, tr))"

definition raise :: "exc_class \<Rightarrow> string \<Rightarrow> ('e, 'a) act" where
  "raise c msg = lift (Inl (c, msg))"

definition bnd :: "('e, 'a) act \<Rightarrow> ('a \<Rightarrow> ('e, 'b) act) \<Rightarrow> ('e, 'b) act" where
  "bnd m f = (\<lambda>tr. case m tr of (Inl e, tr') \<Rightarrow> (Inl e, tr') | (Inr x, tr') \<Rightarrow> f x tr')"

text \<open>A call of a port: the answer is recorded with the call.\<close>

definition ask :: "('e list \<Rightarrow> 'a res) \<Rightarrow> ('a res \<Rightarrow> 'e) \<Rightarrow> ('e, 'a) act" where
  "ask port ev = (\<lambda>tr. (port tr, tr @ [ev (port tr)]))"

text \<open>\<open>try: m except Exception as exc: h(exc)\<close>.\<close>

definition catching :: "('e, 'a) act \<Rightarrow> (exn \<Rightarrow> ('e, 'a) act) \<Rightarrow> ('e, 'a) act" where
  "catching m h = (\<lambda>tr. case m tr of (Inl e, tr') \<Rightarrow> h e tr' | (Inr x, tr') \<Rightarrow> (Inr x, tr'))"

primrec map_act :: "('a \<Rightarrow> ('e, 'b) act) \<Rightarrow> 'a list \<Rightarrow> ('e, 'b list) act" where
  "map_act f [] = ret []"
| "map_act f (x # xs) = bnd (f x) (\<lambda>y. bnd (map_act f xs) (\<lambda>ys. ret (y # ys)))"

lemma ret_apply [simp]: "ret x tr = (Inr x, tr)"
  by (simp add: ret_def)

lemma lift_apply [simp]: "lift r tr = (r, tr)"
  by (simp add: lift_def)

lemma raise_apply [simp]: "raise c msg tr = (Inl (c, msg), tr)"
  by (simp add: raise_def)

lemma ask_apply [simp]: "ask port ev tr = (port tr, tr @ [ev (port tr)])"
  by (simp add: ask_def)

lemma bnd_eq_Inr [act_simps]:
  "bnd m f tr = (Inr y, tr') \<longleftrightarrow> (\<exists>x tr1. m tr = (Inr x, tr1) \<and> f x tr1 = (Inr y, tr'))"
  by (auto simp: bnd_def split: prod.splits sum.splits)

lemma bnd_eq_Inl [act_simps]:
  "bnd m f tr = (Inl e, tr') \<longleftrightarrow> m tr = (Inl e, tr') \<or> (\<exists>x tr1. m tr = (Inr x, tr1) \<and> f x tr1 = (Inl e, tr'))"
  by (auto simp: bnd_def split: prod.splits sum.splits)

lemma catching_eq_Inr [act_simps]:
  "catching m h tr = (Inr x, tr') \<longleftrightarrow> m tr = (Inr x, tr') \<or> (\<exists>e tr1. m tr = (Inl e, tr1) \<and> h e tr1 = (Inr x, tr'))"
  by (auto simp: catching_def split: prod.splits sum.splits)

lemma catching_eq_Inl [act_simps]:
  "catching m h tr = (Inl e, tr') \<longleftrightarrow> (\<exists>e' tr1. m tr = (Inl e', tr1) \<and> h e' tr1 = (Inl e, tr'))"
  by (auto simp: catching_def split: prod.splits sum.splits)

section \<open>The calls an action makes\<close>

text \<open>\<open>emits K m\<close>: every call that \<open>m\<close> makes satisfies \<open>K\<close>, and no earlier call is forgotten.\<close>

named_theorems emits_intros \<open>rules for the calls of an action\<close>

definition emits :: "('e \<Rightarrow> bool) \<Rightarrow> ('e, 'a) act \<Rightarrow> bool" where
  "emits K m \<longleftrightarrow> (\<forall>tr. \<exists>es. snd (m tr) = tr @ es \<and> (\<forall>e \<in> set es. K e))"

lemma emitsD:
  assumes "emits K m" and "m tr = (r, tr')"
  obtains es where "tr' = tr @ es" and "\<forall>e \<in> set es. K e"
proof -
  from assms(1) obtain es where "snd (m tr) = tr @ es" "\<forall>e \<in> set es. K e" unfolding emits_def by blast
  with assms(2) that show ?thesis by auto
qed

lemma emits_mono: "emits K m \<Longrightarrow> (\<And>e. K e \<Longrightarrow> L e) \<Longrightarrow> emits L m"
  unfolding emits_def by blast

lemma emits_ret [emits_intros]: "emits K (ret x)"
  by (simp add: emits_def)

lemma emits_lift [emits_intros]: "emits K (lift r)"
  by (simp add: emits_def)

lemma emits_raise [emits_intros]: "emits K (raise c msg)"
  by (simp add: emits_def)

lemma emits_ask [emits_intros]: "(\<And>r. K (ev r)) \<Longrightarrow> emits K (ask port ev)"
  by (simp add: emits_def)

lemma emits_bnd [emits_intros]:
  assumes "emits K m" and "\<And>x. emits K (f x)"
  shows "emits K (bnd m f)"
  unfolding emits_def
proof
  fix tr
  obtain r tr1 where m: "m tr = (r, tr1)" by (cases "m tr")
  with assms(1) obtain es where es: "tr1 = tr @ es" "\<forall>e \<in> set es. K e" by (rule emitsD)
  show "\<exists>es. snd (bnd m f tr) = tr @ es \<and> (\<forall>e \<in> set es. K e)"
  proof (cases r)
    case (Inl e)
    then show ?thesis using es by (simp add: bnd_def m)
  next
    case (Inr x)
    obtain fs where "snd (f x tr1) = tr1 @ fs" "\<forall>e \<in> set fs. K e" using assms(2) [of x] unfolding emits_def by blast
    then show ?thesis using es Inr by (auto simp: bnd_def m intro!: exI [of _ "es @ fs"])
  qed
qed

lemma emits_catching [emits_intros]:
  assumes "emits K m" and "\<And>e. emits K (h e)"
  shows "emits K (catching m h)"
  unfolding emits_def
proof
  fix tr
  obtain r tr1 where m: "m tr = (r, tr1)" by (cases "m tr")
  with assms(1) obtain es where es: "tr1 = tr @ es" "\<forall>e \<in> set es. K e" by (rule emitsD)
  show "\<exists>es. snd (catching m h tr) = tr @ es \<and> (\<forall>e \<in> set es. K e)"
  proof (cases r)
    case (Inr x)
    then show ?thesis using es by (simp add: catching_def m)
  next
    case (Inl e)
    obtain fs where "snd (h e tr1) = tr1 @ fs" "\<forall>e \<in> set fs. K e" using assms(2) [of e] unfolding emits_def by blast
    then show ?thesis using es Inl by (auto simp: catching_def m intro!: exI [of _ "es @ fs"])
  qed
qed

lemma emits_if [emits_intros]: "(b \<Longrightarrow> emits K m) \<Longrightarrow> (\<not> b \<Longrightarrow> emits K m') \<Longrightarrow> emits K (if b then m else m')"
  by simp

lemma emits_option [emits_intros]:
  "(x = None \<Longrightarrow> emits K m) \<Longrightarrow> (\<And>y. x = Some y \<Longrightarrow> emits K (f y)) \<Longrightarrow>
   emits K (case x of None \<Rightarrow> m | Some y \<Rightarrow> f y)"
  by (cases x) auto

lemma emits_prod [emits_intros]: "(\<And>a b. emits K (f a b)) \<Longrightarrow> emits K (case p of (a, b) \<Rightarrow> f a b)"
  by (cases p) auto

lemma emits_Let [emits_intros]: "(\<And>x. emits K (f x)) \<Longrightarrow> emits K (let x = t in f x)"
  by simp

lemma emits_map_act [emits_intros]: "(\<And>x. emits K (f x)) \<Longrightarrow> emits K (map_act f xs)"
  by (induction xs) (auto intro!: emits_intros)

section \<open>Triples\<close>

text \<open>One postcondition for a result, one for an exception.\<close>

named_theorems triple_intros \<open>rules of the calculus\<close>

definition triple :: "('e list \<Rightarrow> bool) \<Rightarrow> ('e, 'a) act \<Rightarrow> ('a \<Rightarrow> 'e list \<Rightarrow> bool) \<Rightarrow> (exn \<Rightarrow> 'e list \<Rightarrow> bool) \<Rightarrow> bool" where
  "triple P m Q E \<longleftrightarrow> (\<forall>tr. P tr \<longrightarrow> (case m tr of (Inr x, tr') \<Rightarrow> Q x tr' | (Inl e, tr') \<Rightarrow> E e tr'))"

lemma tripleI:
  "(\<And>tr x tr'. P tr \<Longrightarrow> m tr = (Inr x, tr') \<Longrightarrow> Q x tr') \<Longrightarrow>
   (\<And>tr e tr'. P tr \<Longrightarrow> m tr = (Inl e, tr') \<Longrightarrow> E e tr') \<Longrightarrow> triple P m Q E"
  by (auto simp: triple_def split: prod.splits sum.splits)

lemma tripleD: "triple P m Q E \<Longrightarrow> P tr \<Longrightarrow> m tr = (Inr x, tr') \<Longrightarrow> Q x tr'"
  and tripleD_Inl: "triple P m Q E \<Longrightarrow> P tr \<Longrightarrow> m tr = (Inl e, tr') \<Longrightarrow> E e tr'"
  by (auto simp: triple_def)

lemma triple_ret [triple_intros]: "(\<And>tr. P tr \<Longrightarrow> Q x tr) \<Longrightarrow> triple P (ret x) Q E"
  by (simp add: triple_def)

lemma triple_lift [triple_intros]:
  "(\<And>tr x. P tr \<Longrightarrow> r = Inr x \<Longrightarrow> Q x tr) \<Longrightarrow> (\<And>tr e. P tr \<Longrightarrow> r = Inl e \<Longrightarrow> E e tr) \<Longrightarrow> triple P (lift r) Q E"
  by (cases r) (auto simp: triple_def)

lemma triple_raise [triple_intros]: "(\<And>tr. P tr \<Longrightarrow> E (c, msg) tr) \<Longrightarrow> triple P (raise c msg) Q E"
  by (simp add: triple_def)

lemma triple_bnd: "triple P m R E \<Longrightarrow> (\<And>x. triple (R x) (f x) Q E) \<Longrightarrow> triple P (bnd m f) Q E"
  unfolding triple_def bnd_def by (fastforce split: prod.splits sum.splits)

lemma triple_conseq:
  "triple P' m Q' E' \<Longrightarrow> (\<And>tr. P tr \<Longrightarrow> P' tr) \<Longrightarrow> (\<And>x tr. Q' x tr \<Longrightarrow> Q x tr) \<Longrightarrow> (\<And>e tr. E' e tr \<Longrightarrow> E e tr) \<Longrightarrow>
   triple P m Q E"
  unfolding triple_def by (fastforce split: prod.splits sum.splits)

lemma triple_if [triple_intros]:
  "(b \<Longrightarrow> triple P m Q E) \<Longrightarrow> (\<not> b \<Longrightarrow> triple P m' Q E) \<Longrightarrow> triple P (if b then m else m') Q E"
  by simp

lemma triple_option [triple_intros]:
  "(x = None \<Longrightarrow> triple P m Q E) \<Longrightarrow> (\<And>y. x = Some y \<Longrightarrow> triple P (f y) Q E) \<Longrightarrow>
   triple P (case x of None \<Rightarrow> m | Some y \<Rightarrow> f y) Q E"
  by (cases x) auto

lemma triple_prod [triple_intros]: "(\<And>a b. p = (a, b) \<Longrightarrow> triple P (f a b) Q E) \<Longrightarrow> triple P (case p of (a, b) \<Rightarrow> f a b) Q E"
  by (cases p) auto

lemma triple_bnd_lift [triple_intros]:
  "(\<And>x. r = Inr x \<Longrightarrow> triple P (f x) Q E) \<Longrightarrow> (\<And>e tr. P tr \<Longrightarrow> E e tr) \<Longrightarrow> triple P (bnd (lift r) f) Q E"
  by (cases r) (auto simp: triple_def bnd_def)

text \<open>An invariant of the recorded calls that no call of the kinds an action makes can break.\<close>

lemma triple_emits:
  assumes "emits K m" and "\<And>tr e. I tr \<Longrightarrow> K e \<Longrightarrow> I (tr @ [e])"
  shows "triple I m (\<lambda>_. I) (\<lambda>_. I)"
proof (rule tripleI)
  have grows: "I (tr @ es)" if "I tr" "\<forall>e \<in> set es. K e" for tr es
    using that by (induction es rule: rev_induct) (auto simp flip: append_assoc intro: assms(2))
  show "I tr'" if "I tr" "m tr = (Inr x, tr')" for tr x tr'
    using assms(1) that(2) by (rule emitsD) (use grows that(1) in blast)
  show "I tr'" if "I tr" "m tr = (Inl x, tr')" for tr x tr'
    using assms(1) that(2) by (rule emitsD) (use grows that(1) in blast)
qed

section \<open>Loops\<close>

text \<open>
  \<open>while cond(s): s = body(s)\<close> over actions: the loop ends when the condition fails or the body raises;
  \<open>None\<close> when it does neither.
\<close>

definition loop_act :: "('s \<Rightarrow> bool) \<Rightarrow> ('s \<Rightarrow> ('e, 's) act) \<Rightarrow> 's \<Rightarrow> 'e list \<Rightarrow> ('s res \<times> 'e list) option" where
  "loop_act cond body s tr =
     while_option (\<lambda>(r, tr). case r of Inl _ \<Rightarrow> False | Inr s \<Rightarrow> cond s)
       (\<lambda>(r, tr). case r of Inl e \<Rightarrow> (Inl e, tr) | Inr s \<Rightarrow> body s tr) (Inr s, tr)"

lemma loop_act_invariant:
  assumes "loop_act cond body s tr = Some (r, tr')" and "I s tr"
    and "\<And>s. cond s \<Longrightarrow> triple (I s) (body s) I E"
  shows "case r of Inr s' \<Rightarrow> I s' tr' \<and> \<not> cond s' | Inl e \<Rightarrow> E e tr'"
proof -
  let ?I = "\<lambda>(r, tr). case r of Inr s \<Rightarrow> I s tr | Inl e \<Rightarrow> E e tr"
  let ?c = "\<lambda>(r, tr). case r of Inl _ \<Rightarrow> False | Inr s \<Rightarrow> cond s"
  have run: "while_option ?c (\<lambda>(r, tr). case r of Inl e \<Rightarrow> (Inl e, tr) | Inr s \<Rightarrow> body s tr) (Inr s, tr) = Some (r, tr')"
    using assms(1) by (simp add: loop_act_def)
  have step: "?I (case p of (r, tr) \<Rightarrow> case r of Inl e \<Rightarrow> (Inl e, tr) | Inr s \<Rightarrow> body s tr)" if "?I p" "?c p" for p
  proof -
    from that obtain s tr where p: "p = (Inr s, tr)" "cond s" "I s tr" by (cases p) (auto split: sum.splits)
    with assms(3) [of s] show ?thesis by (auto simp: triple_def split: prod.splits sum.splits)
  qed
  have "?I (r, tr')" by (rule while_option_rule [OF _ run]) (use step assms(2) in auto)
  moreover have "\<not> ?c (r, tr')" using run by (rule while_option_stop)
  ultimately show ?thesis by (auto split: sum.splits)
qed

lemma loop_act_terminates:
  assumes "I s tr" and "\<And>s tr s' tr'. cond s \<Longrightarrow> I s tr \<Longrightarrow> body s tr = (Inr s', tr') \<Longrightarrow> I s' tr' \<and> f s' < (f s :: nat)"
  shows "\<exists>r tr'. loop_act cond body s tr = Some (r, tr')"
proof -
  let ?I = "\<lambda>(r, tr). case r of Inr s \<Rightarrow> I s tr | Inl e \<Rightarrow> True"
  let ?c = "\<lambda>(r, tr). case r of Inl _ \<Rightarrow> False | Inr s \<Rightarrow> cond s"
  let ?b = "\<lambda>(r, tr). case r of Inl e \<Rightarrow> (Inl e, tr) | Inr s \<Rightarrow> body s tr"
  let ?f = "\<lambda>(r, tr). case r of Inr s \<Rightarrow> Suc (f s) | Inl e \<Rightarrow> 0"
  have "?I (?b p) \<and> ?f (?b p) < ?f p" if "?I p" "?c p" for p
  proof -
    from that obtain s tr where p: "p = (Inr s, tr)" "cond s" "I s tr" by (cases p) (auto split: sum.splits)
    then show ?thesis using assms(2) [of s tr] by (auto split: prod.splits sum.splits)
  qed
  then have "\<exists>p. while_option ?c ?b (Inr s, tr) = Some p"
    by (intro measure_while_option_Some [of ?I ?c ?b ?f]) (use assms(1) in auto)
  then show ?thesis by (auto simp: loop_act_def)
qed

section \<open>The calls behind a result\<close>

text \<open>\<open>adds m Q\<close>: whenever \<open>m\<close> returns a result, \<open>Q\<close> holds of it and of the calls \<open>m\<close> made.\<close>

named_theorems adds_intros \<open>rules for the calls behind a result\<close>

definition adds :: "('e, 'a) act \<Rightarrow> ('a \<Rightarrow> 'e list \<Rightarrow> bool) \<Rightarrow> bool" where
  "adds m Q \<longleftrightarrow> (\<forall>tr x tr'. m tr = (Inr x, tr') \<longrightarrow> (\<exists>es. tr' = tr @ es \<and> Q x es))"

lemma addsD:
  assumes "adds m Q" and "m tr = (Inr x, tr')"
  obtains es where "tr' = tr @ es" and "Q x es"
  using assms unfolding adds_def by blast

lemma adds_mono: "adds m P \<Longrightarrow> (\<And>x es. P x es \<Longrightarrow> Q x es) \<Longrightarrow> adds m Q"
  unfolding adds_def by blast

lemma adds_ret [adds_intros]: "Q x [] \<Longrightarrow> adds (ret x) Q"
  by (simp add: adds_def)

lemma adds_lift: "(\<And>x. r = Inr x \<Longrightarrow> Q x []) \<Longrightarrow> adds (lift r) Q"
  by (simp add: adds_def)

lemma adds_raise [adds_intros]: "adds (raise c msg) Q"
  by (simp add: adds_def)

lemma adds_ask: "(\<And>x. Q x [ev (Inr x)]) \<Longrightarrow> adds (ask port ev) Q"
  by (simp add: adds_def)

lemma adds_emits: "emits K m \<Longrightarrow> adds m (\<lambda>x es. \<forall>e \<in> set es. K e)"
  unfolding adds_def by (meson emitsD)

lemma adds_bnd: "adds m P \<Longrightarrow> (\<And>x es. P x es \<Longrightarrow> adds (f x) (\<lambda>y fs. Q y (es @ fs))) \<Longrightarrow> adds (bnd m f) Q"
  unfolding adds_def by (fastforce simp: bnd_eq_Inr)

lemma adds_bnd_lift [adds_intros]: "(\<And>x. r = Inr x \<Longrightarrow> adds (f x) Q) \<Longrightarrow> adds (bnd (lift r) f) Q"
  by (auto simp: adds_def bnd_eq_Inr)

lemma adds_bnd_ask [adds_intros]: "(\<And>x. adds (f x) (\<lambda>y es. Q y (ev (Inr x) # es))) \<Longrightarrow> adds (bnd (ask port ev) f) Q"
  by (rule adds_bnd [OF adds_ask [where Q = "\<lambda>x es. es = [ev (Inr x)]"]]) auto

lemma adds_bnd_emits: "emits K m \<Longrightarrow> (\<And>x es. \<forall>e \<in> set es. K e \<Longrightarrow> adds (f x) (\<lambda>y fs. Q y (es @ fs))) \<Longrightarrow> adds (bnd m f) Q"
  by (rule adds_bnd [OF adds_emits])

lemma adds_if [adds_intros]: "(b \<Longrightarrow> adds m Q) \<Longrightarrow> (\<not> b \<Longrightarrow> adds m' Q) \<Longrightarrow> adds (if b then m else m') Q"
  by simp

lemma adds_option [adds_intros]:
  "(x = None \<Longrightarrow> adds m Q) \<Longrightarrow> (\<And>y. x = Some y \<Longrightarrow> adds (f y) Q) \<Longrightarrow> adds (case x of None \<Rightarrow> m | Some y \<Rightarrow> f y) Q"
  by (cases x) auto

lemma adds_prod [adds_intros]: "(\<And>a b. p = (a, b) \<Longrightarrow> adds (f a b) Q) \<Longrightarrow> adds (case p of (a, b) \<Rightarrow> f a b) Q"
  by (cases p) auto

lemma adds_Let [adds_intros]: "(\<And>x. x = t \<Longrightarrow> adds (f x) Q) \<Longrightarrow> adds (let x = t in f x) Q"
  by simp

section \<open>How often an action calls\<close>

definition limited :: "('e \<Rightarrow> bool) \<Rightarrow> nat \<Rightarrow> ('e, 'a) act \<Rightarrow> bool" where
  "limited K n m \<longleftrightarrow> (\<forall>tr. \<exists>es. snd (m tr) = tr @ es \<and> length (filter K es) \<le> n)"

lemma limitedD:
  assumes "limited K n m" and "m tr = (r, tr')"
  obtains es where "tr' = tr @ es" and "length (filter K es) \<le> n"
proof -
  from assms(1) obtain es where "snd (m tr) = tr @ es" "length (filter K es) \<le> n" unfolding limited_def by blast
  with assms(2) that show ?thesis by auto
qed

lemma limited_emits:
  assumes "emits (\<lambda>e. \<not> K e) m"
  shows "limited K 0 m"
  unfolding limited_def
proof
  fix tr
  from assms obtain es where "snd (m tr) = tr @ es" "\<forall>e \<in> set es. \<not> K e" unfolding emits_def by blast
  then show "\<exists>es. snd (m tr) = tr @ es \<and> length (filter K es) \<le> 0" by (auto simp: filter_empty_conv)
qed

lemma limited_ask: "limited K (Suc 0) (ask port ev)"
  by (auto simp: limited_def)

lemma limited_bnd:
  assumes "limited K a m" and "\<And>x. limited K b (f x)"
  shows "limited K (a + b) (bnd m f)"
  unfolding limited_def
proof
  fix tr
  obtain r tr1 where m: "m tr = (r, tr1)" by (cases "m tr")
  with assms(1) obtain es where es: "tr1 = tr @ es" "length (filter K es) \<le> a" by (rule limitedD)
  show "\<exists>es. snd (bnd m f tr) = tr @ es \<and> length (filter K es) \<le> a + b"
  proof (cases r)
    case (Inl e)
    then show ?thesis using es by (simp add: bnd_def m)
  next
    case (Inr x)
    obtain fs where "snd (f x tr1) = tr1 @ fs" "length (filter K fs) \<le> b" using assms(2) [of x] unfolding limited_def by blast
    then show ?thesis using es Inr by (auto simp: bnd_def m intro!: exI [of _ "es @ fs"])
  qed
qed

lemma limited_bnd_emits: "emits (\<lambda>e. \<not> K e) m \<Longrightarrow> (\<And>x. limited K n (f x)) \<Longrightarrow> limited K n (bnd m f)"
  using limited_bnd [of K 0 m n f] by (simp add: limited_emits)

lemma limited_emits_bnd: "limited K n m \<Longrightarrow> (\<And>x. emits (\<lambda>e. \<not> K e) (f x)) \<Longrightarrow> limited K n (bnd m f)"
  using limited_bnd [of K n m 0 f] by (simp add: limited_emits)

lemma limited_mono: "limited K a m \<Longrightarrow> a \<le> b \<Longrightarrow> limited K b m"
  unfolding limited_def by (meson le_trans)

section \<open>Calls that depend on earlier ones\<close>

text \<open>
  \<open>obeys G m\<close>: every call that \<open>m\<close> makes satisfies \<open>G\<close> together with the calls that \<open>m\<close> made before it.
\<close>

definition lawful :: "('e list \<Rightarrow> 'e \<Rightarrow> bool) \<Rightarrow> 'e list \<Rightarrow> bool" where
  "lawful G es \<longleftrightarrow> (\<forall>i < length es. G (take i es) (es ! i))"

definition obeys :: "('e list \<Rightarrow> 'e \<Rightarrow> bool) \<Rightarrow> ('e, 'a) act \<Rightarrow> bool" where
  "obeys G m \<longleftrightarrow> (\<forall>tr. \<exists>es. snd (m tr) = tr @ es \<and> lawful G es)"

lemma lawful_Nil [simp]: "lawful G []"
  by (simp add: lawful_def)

lemma lawful_split: "lawful G es \<Longrightarrow> es = pre @ e # post \<Longrightarrow> G pre e"
  by (simp add: lawful_def) (drule spec [of _ "length pre"], simp)

lemma lawful_append: "lawful G (es @ fs) \<longleftrightarrow> lawful G es \<and> lawful (\<lambda>pre. G (es @ pre)) fs"
proof
  assume *: "lawful G (es @ fs)"
  have "G (take i es) (es ! i)" if "i < length es" for i
    using * [unfolded lawful_def, rule_format, of i] that by (simp add: nth_append)
  moreover have "G (es @ take i fs) (fs ! i)" if "i < length fs" for i
    using * [unfolded lawful_def, rule_format, of "length es + i"] that by simp
  ultimately show "lawful G es \<and> lawful (\<lambda>pre. G (es @ pre)) fs" by (simp add: lawful_def)
next
  assume *: "lawful G es \<and> lawful (\<lambda>pre. G (es @ pre)) fs"
  show "lawful G (es @ fs)"
    unfolding lawful_def
  proof (intro allI impI)
    fix i
    assume "i < length (es @ fs)"
    then show "G (take i (es @ fs)) ((es @ fs) ! i)"
      using * unfolding lawful_def by (cases "i < length es") (auto simp: nth_append)
  qed
qed

lemma lawful_all: "\<forall>e \<in> set es. K e \<Longrightarrow> (\<And>pre e. K e \<Longrightarrow> G pre e) \<Longrightarrow> lawful G es"
  by (simp add: lawful_def)

lemma obeysD:
  assumes "obeys G m" and "m tr = (r, tr')"
  obtains es where "tr' = tr @ es" and "lawful G es"
proof -
  from assms(1) obtain es where "snd (m tr) = tr @ es" "lawful G es" unfolding obeys_def by blast
  with assms(2) that show ?thesis by auto
qed

lemma obeys_emits:
  assumes "emits K m" and "\<And>pre e. K e \<Longrightarrow> G pre e"
  shows "obeys G m"
  unfolding obeys_def
proof
  fix tr
  from assms(1) obtain es where "snd (m tr) = tr @ es" "\<forall>e \<in> set es. K e" unfolding emits_def by blast
  then show "\<exists>es. snd (m tr) = tr @ es \<and> lawful G es" using lawful_all [of es K G] assms(2) by auto
qed

lemma obeys_ask: "(\<And>r. G [] (ev r)) \<Longrightarrow> obeys G (ask port ev)"
  by (auto simp: obeys_def lawful_def)

lemma obeys_bnd:
  assumes "obeys G m" and "adds m P" and "\<And>x es. P x es \<Longrightarrow> obeys (\<lambda>pre. G (es @ pre)) (f x)"
  shows "obeys G (bnd m f)"
  unfolding obeys_def
proof
  fix tr
  obtain r tr1 where m: "m tr = (r, tr1)" by (cases "m tr")
  with assms(1) obtain es where es: "tr1 = tr @ es" "lawful G es" by (rule obeysD)
  show "\<exists>es. snd (bnd m f tr) = tr @ es \<and> lawful G es"
  proof (cases r)
    case (Inl e)
    then show ?thesis using es by (simp add: bnd_def m)
  next
    case (Inr x)
    with addsD [OF assms(2) m [unfolded Inr]] es(1) have "P x es" by force
    from assms(3) [OF this] obtain fs where "snd (f x tr1) = tr1 @ fs" "lawful (\<lambda>pre. G (es @ pre)) fs"
      unfolding obeys_def by blast
    then show ?thesis using es Inr by (auto simp: bnd_def m lawful_append intro!: exI [of _ "es @ fs"])
  qed
qed

lemma obeys_bnd_emits:
  assumes "emits K m" and "\<And>pre e. K e \<Longrightarrow> G pre e" and "\<And>x es. obeys (\<lambda>pre. G (es @ pre)) (f x)"
  shows "obeys G (bnd m f)"
  by (rule obeys_bnd [OF obeys_emits [OF assms(1,2)] adds_emits [OF assms(1)]]) (auto intro: assms(3))

lemma obeys_bnd_lift: "(\<And>x. r = Inr x \<Longrightarrow> obeys G (f x)) \<Longrightarrow> obeys G (bnd (lift r) f)"
  by (cases r) (auto simp: obeys_def bnd_def)

lemma obeys_option:
  "(x = None \<Longrightarrow> obeys G m) \<Longrightarrow> (\<And>y. x = Some y \<Longrightarrow> obeys G (f y)) \<Longrightarrow> obeys G (case x of None \<Rightarrow> m | Some y \<Rightarrow> f y)"
  by (cases x) auto

text \<open>A loop whose iterations obey a condition that earlier calls cannot break.\<close>

lemma loop_act_obeys:
  assumes "loop_act cond body s tr = Some (r, tr')" and "\<And>s. cond s \<Longrightarrow> obeys G (body s)"
    and mono: "\<And>es pre e. G pre e \<Longrightarrow> G (es @ pre) e"
  shows "\<exists>es. tr' = tr @ es \<and> lawful G es"
proof -
  let ?I = "\<lambda>t. \<exists>es. t = tr @ es \<and> lawful G es"
  have shift: "lawful G fs \<Longrightarrow> lawful (\<lambda>pre. G (es @ pre)) fs" for es fs
    using mono by (simp add: lawful_def)
  have step: "?I tr''" if "cond s" "?I t" "body s t = (r, tr'')" for s t r tr''
  proof -
    from that(2) obtain es where es: "t = tr @ es" "lawful G es" by blast
    from obeysD [OF assms(2) [OF that(1)] that(3)] obtain fs where "tr'' = t @ fs" "lawful G fs" .
    then show ?thesis using es shift by (auto simp: lawful_append)
  qed
  have "triple ?I (body s) (\<lambda>_. ?I) (\<lambda>_. ?I)" if "cond s" for s
    by (rule tripleI) (use step that in blast)+
  with loop_act_invariant [OF assms(1), of "\<lambda>_. ?I" "\<lambda>_. ?I"] show ?thesis by (force split: sum.splits)
qed

lemma obeys_raise [simp]: "obeys G (raise c msg)"
  by (auto simp: obeys_def)

lemma adds_ask_answer: "adds (ask port ev) (\<lambda>x es. es = [ev (Inr x)])"
  by (rule adds_ask) simp

lemma obeys_bnd_ask:
  "(\<And>r. G [] (ev r)) \<Longrightarrow> (\<And>x. obeys (\<lambda>pre. G (ev (Inr x) # pre)) (f x)) \<Longrightarrow> obeys G (bnd (ask port ev) f)"
  by (rule obeys_bnd [OF obeys_ask adds_ask_answer]) auto

lemma obeys_if: "(b \<Longrightarrow> obeys G m) \<Longrightarrow> (\<not> b \<Longrightarrow> obeys G m') \<Longrightarrow> obeys G (if b then m else m')"
  by simp

lemma obeys_ret [simp]: "obeys G (ret x)"
  by (auto simp: obeys_def)

end
