(* ===== verification/Worker_Escalation.thy ===== *)
theory Worker_Escalation
  imports Py_Prelude
begin

text \<open>
  The objects that the coordination ports hand over (contracts, leases, preflight reports, execution
  receipts), seen through their attributes, and the escalation policy of
  \<open>execution_coordination/coordinator.py\<close>: from the receipts so far it decides whether to run the
  first worker, to verify, to escalate to another provider or to stop.
\<close>

section \<open>Objects\<close>

text \<open>An object is the dictionary of its attributes; \<open>getattr\<close> with and without a default.\<close>

type_synonym obj = dict

definition attr :: "obj \<Rightarrow> string \<Rightarrow> pyval res" where
  "attr ob name = (case map_of ob name of
     Some v \<Rightarrow> Inr v | None \<Rightarrow> Inl (AttributeError, ''object has no attribute '' @ quoted name))"

definition attr_or :: "obj \<Rightarrow> string \<Rightarrow> pyval \<Rightarrow> pyval" where
  "attr_or ob name d = dget_default ob name d"

lemma attr_eq_Inr [res_simps]: "attr ob name = Inr v \<longleftrightarrow> map_of ob name = Some v"
  by (auto simp: attr_def split: option.splits)

lemma attr_or_attr: "attr ob name = Inr v \<Longrightarrow> attr_or ob name d = v"
  by (auto simp: attr_def attr_or_def dget_default_def split: option.splits)

section \<open>Decisions\<close>

datatype escalation_action = RUN_CHEAP | BLOCK | VERIFY | ESCALATE_TO

record escalation =
  ed_action :: escalation_action
  ed_next_provider :: "string option"
  ed_reason :: string

definition failure_markers :: "string list" where
  "failure_markers =
     [''malformed'', ''invalid contract'', ''contract invalid'', ''syntaxerror'', ''syntax error'', ''verifier'',
      ''scope'', ''forbidden'', ''policy'', ''unsupported'', ''parse error'', ''argument error'']"

definition failure_is_deterministic :: "obj \<Rightarrow> bool" where
  "failure_is_deterministic receipt =
    (if truthy (attr_or receipt ''timed_out'' (PBool False)) \<or>
        attr_or receipt ''outcome'' PNone = PStr ''INCOMPLETE'' then False
     else let text = lower (str_or (attr_or receipt ''failure_reason'' PNone) '''') in
       \<exists>marker \<in> set failure_markers. contains_text marker text)"

definition mutated_repository :: "obj \<Rightarrow> bool" where
  "mutated_repository receipt =
     (\<exists>field \<in> set [''commit_created'', ''merge_performed'', ''push_performed'']. truthy (attr_or receipt field (PBool False)))"

definition proved_completion :: "obj \<Rightarrow> bool" where
  "proved_completion receipt =
     (attr_or receipt ''outcome'' PNone = PStr ''EXECUTION_COMPLETED'' \<and>
      truthy (attr_or receipt ''evidence_complete'' (PBool False)))"

definition attempted_providers :: "obj list \<Rightarrow> string set" where
  "attempted_providers attempts = set (map (\<lambda>a. py_str (attr_or a ''provider'' (PStr ''''))) attempts)"

text \<open>\<open>WorkerEscalationPolicy.decide\<close>.\<close>

definition decide :: "string list \<Rightarrow> obj list \<Rightarrow> escalation res" where
  "decide provider_order attempts =
    (if attempts = [] then
       (case provider_order of
          [] \<Rightarrow> Inl (OtherError ''IndexError'', ''tuple index out of range'')
        | p # _ \<Rightarrow> Inr \<lparr> ed_action = RUN_CHEAP, ed_next_provider = Some p, ed_reason = ''no worker attempt exists'' \<rparr>)
     else let latest = last attempts in
       if mutated_repository latest
       then Inr \<lparr> ed_action = BLOCK, ed_next_provider = None,
                 ed_reason = ''worker attempted a forbidden repository mutation'' \<rparr>
       else if proved_completion latest
       then Inr \<lparr> ed_action = VERIFY, ed_next_provider = None,
                 ed_reason = ''worker execution completed; verification required'' \<rparr>
       else if failure_is_deterministic latest
       then Inr \<lparr> ed_action = BLOCK, ed_next_provider = None,
                 ed_reason = ''deterministic worker failure must not escalate'' \<rparr>
       else (case find (\<lambda>p. p \<notin> attempted_providers attempts) provider_order of
          Some p \<Rightarrow> Inr \<lparr> ed_action = ESCALATE_TO, ed_next_provider = Some p,
                   ed_reason = ''cheap worker did not prove success: '' @ py_str (attr_or latest ''outcome'' (PStr '''')) \<rparr>
        | None \<Rightarrow> Inr \<lparr> ed_action = BLOCK, ed_next_provider = None,
                   ed_reason = ''strong worker did not produce complete proof'' \<rparr>))"

section \<open>Lemmas\<close>

lemma decide_total: "attempts \<noteq> [] \<Longrightarrow> \<exists>e. decide order attempts = Inr e"
  by (auto simp: decide_def Let_def split: option.splits)

lemma decide_error: "decide order attempts = Inl e \<longleftrightarrow> attempts = [] \<and> order = [] \<and> e = (OtherError ''IndexError'', ''tuple index out of range'')"
  by (auto simp: decide_def Let_def split: option.splits list.splits)

lemma decide_escalates:
  "(\<exists>e. decide order attempts = Inr e \<and> ed_action e = ESCALATE_TO \<and> ed_next_provider e = Some p) \<longleftrightarrow>
     attempts \<noteq> [] \<and> \<not> mutated_repository (last attempts) \<and> \<not> proved_completion (last attempts) \<and>
     \<not> failure_is_deterministic (last attempts) \<and> find (\<lambda>p. p \<notin> attempted_providers attempts) order = Some p"
  by (auto simp: decide_def Let_def split: option.splits list.splits)

text \<open>An escalation target is a provider of the order that no attempt used, and the first such one.\<close>

lemma decide_escalates_fresh:
  assumes "decide order attempts = Inr e" and "ed_action e = ESCALATE_TO"
  shows "\<exists>pre p post. ed_next_provider e = Some p \<and> order = pre @ p # post \<and> p \<notin> attempted_providers attempts \<and>
    set pre \<subseteq> attempted_providers attempts"
proof -
  from assms obtain p where p: "ed_next_provider e = Some p" "find (\<lambda>p. p \<notin> attempted_providers attempts) order = Some p"
    by (auto simp: decide_def Let_def split: option.splits list.splits if_splits)
  then obtain i where i: "i < length order" "order ! i = p" "p \<notin> attempted_providers attempts"
    "\<forall>j < i. order ! j \<in> attempted_providers attempts" by (auto simp: find_Some_iff)
  from id_take_nth_drop [OF i(1)] i(2) have "order = take i order @ p # drop (Suc i) order" by simp
  moreover from i have "set (take i order) \<subseteq> attempted_providers attempts"
    by (auto simp: in_set_conv_nth)
  ultimately show ?thesis using p i by blast
qed

end
