(* ===== verification/Coordinator_Ports.thy ===== *)
theory Coordinator_Ports
  imports Port_Calls Worker_Escalation Effect_Authorization Model_Call_Resolution
begin

text \<open>
  The ports of \<open>execution_coordination/ports.py\<close> that the coordinator is constructed with, and the gates
  of \<open>coordinator.py\<close> that only need ports and the effect-authorization contract: the effect
  authorization, the tool projection and the host preparation.

  A port is a function of the calls made so far and its arguments. Attributes that a contract port
  may lack (\<open>base_prompt\<close>, \<open>materialize_worker_context\<close>, \<open>host_preparation_required\<close>) and optional ports are
  \<open>option\<close> values. Times are seconds; the clock is asked like any other port.
\<close>

section \<open>Events\<close>

text \<open>What is written to a checkpoint: a plain value, an object of a port, or a list of such objects.\<close>

datatype cval = CV pyval | CObj obj | CObjs "obj list"

type_synonym cvalues = "(string \<times> cval) list"

text \<open>A number of seconds: a float of the host.\<close>

datatype fnum = Fin rat | Inf bool | Nan

record invocation =
  iv_provider :: string
  iv_contract :: obj
  iv_lease :: obj
  iv_prompt :: string
  iv_model :: "string option"
  iv_timeout :: fnum
  iv_authorization :: "dict option"
  iv_projection :: "dict option"

text \<open>The calls of each port, with their arguments and, last, the answer.\<close>

datatype state_call =
    ReadSnapshot string "dict option res"
  | Checkpoint string string cvalues string "dict res"
  | MutateMetadata string dict "dict res"

datatype contract_call =
    BuildContract pyval "obj res"
  | Deadline obj pyval "rat option res"
  | ProviderBinding dict dict "dict option res"
  | AssertDispatch dict dict "dict option" "string option" "unit res"
  | RevalidateTaskCard obj dict dict "dict option" "unit res"
  | RevalidateBoundary obj dict string "dict option" string "unit res"
  | EscalationOrder obj "string list res"
  | ProviderOrder obj "string list res"
  | ReceiptFromState pyval "obj option res"
  | FastLane obj dict "bool res"
  | ValidateStatic obj pyval "unit res"
  | Prompt obj "string res"
  | BasePrompt obj "string res"
  | Materialize dict dict string string bool obj obj string string "string option" "(string \<times> pyval) option res"
  | HostPreparationRequired obj dict "bool res"
  | ModelCopy obj int "obj res"

datatype preparation_call =
    Prepare obj dict obj dict string string "pyval res"
  | RevalidatePreparation dict obj dict obj dict string string string "unit res"

datatype target_call =
    InitialLease obj dict "obj res"
  | LeaseFromState dict "obj res"
  | ReplaceLease obj obj dict "obj res"

datatype worker_call =
    Preflight string "obj res"
  | Invoke invocation "obj option res"

datatype finalization_call =
    FinalizeCompleted obj dict obj dict "obj list" cval string "dict res"
  | FinalizeFailure string string exn "unit res"
  | BoundValues dict "dict res"

datatype process_call =
    TerminateOwned string int "unit res"
  | PidAlive int "bool res"
  | CreateThread string string "obj res"
  | RegisterThread string obj "unit res"
  | StartThread obj "unit res"
  | NowText "string res"
  | WorkerCommand string string string "string list res"
  | StartProcess "string list" string "obj res"

datatype clock_call = Now "rat res" | PerfCounter "rat res" | UtcNow "int res"

datatype event =
    State state_call
  | Contract contract_call
  | Preparation preparation_call
  | Target target_call
  | Worker worker_call
  | Finalization finalization_call
  | Process process_call
  | Clock clock_call
  | Authority authorization "pyval res"
  | Gate dict "verdict res"
  | Custom obj dict

type_synonym trace = "event list"
type_synonym 'a prog = "(event, 'a) act"

section \<open>Ports\<close>

record state_port =
  sp_read_snapshot :: "trace \<Rightarrow> string \<Rightarrow> dict option res"
  sp_checkpoint :: "trace \<Rightarrow> string \<Rightarrow> string \<Rightarrow> cvalues \<Rightarrow> string \<Rightarrow> dict res"
  sp_mutate_metadata :: "trace \<Rightarrow> string \<Rightarrow> dict \<Rightarrow> dict res"

record contract_port =
  kp_build_contract :: "trace \<Rightarrow> pyval \<Rightarrow> obj res"
  kp_deadline :: "trace \<Rightarrow> obj \<Rightarrow> pyval \<Rightarrow> rat option res"
  kp_provider_binding :: "trace \<Rightarrow> dict \<Rightarrow> dict \<Rightarrow> dict option res"
  kp_assert_dispatch :: "trace \<Rightarrow> dict \<Rightarrow> dict \<Rightarrow> dict option \<Rightarrow> string option \<Rightarrow> unit res"
  kp_revalidate_task_card :: "trace \<Rightarrow> obj \<Rightarrow> dict \<Rightarrow> dict \<Rightarrow> dict option \<Rightarrow> unit res"
  kp_revalidate_boundary :: "trace \<Rightarrow> obj \<Rightarrow> dict \<Rightarrow> string \<Rightarrow> dict option \<Rightarrow> string \<Rightarrow> unit res"
  kp_escalation_order :: "trace \<Rightarrow> obj \<Rightarrow> string list res"
  kp_provider_order :: "trace \<Rightarrow> obj \<Rightarrow> string list res"
  kp_receipt_from_state :: "trace \<Rightarrow> pyval \<Rightarrow> obj option res"
  kp_fast_lane_eligible :: "trace \<Rightarrow> obj \<Rightarrow> dict \<Rightarrow> bool res"
  kp_validate_static :: "trace \<Rightarrow> obj \<Rightarrow> pyval \<Rightarrow> unit res"
  kp_prompt :: "trace \<Rightarrow> obj \<Rightarrow> string res"
  kp_base_prompt :: "(trace \<Rightarrow> obj \<Rightarrow> string res) option"
  kp_materialize :: "(trace \<Rightarrow> dict \<Rightarrow> dict \<Rightarrow> string \<Rightarrow> string \<Rightarrow> bool \<Rightarrow> obj \<Rightarrow> obj \<Rightarrow> string \<Rightarrow> string \<Rightarrow>
     string option \<Rightarrow> (string \<times> pyval) option res) option"
  kp_host_preparation_required :: "(trace \<Rightarrow> obj \<Rightarrow> dict \<Rightarrow> bool res) option"
  kp_model_copy :: "obj \<Rightarrow> (trace \<Rightarrow> int \<Rightarrow> obj res) option"

record preparation_port =
  pp_prepare :: "trace \<Rightarrow> obj \<Rightarrow> dict \<Rightarrow> obj \<Rightarrow> dict \<Rightarrow> string \<Rightarrow> string \<Rightarrow> pyval res"
  pp_revalidate :: "trace \<Rightarrow> dict \<Rightarrow> obj \<Rightarrow> dict \<Rightarrow> obj \<Rightarrow> dict \<Rightarrow> string \<Rightarrow> string \<Rightarrow> string \<Rightarrow> unit res"

record target_port =
  tg_initial_lease :: "trace \<Rightarrow> obj \<Rightarrow> dict \<Rightarrow> obj res"
  tg_lease_from_state :: "trace \<Rightarrow> dict \<Rightarrow> obj res"
  tg_replace_failed_lease :: "trace \<Rightarrow> obj \<Rightarrow> obj \<Rightarrow> dict \<Rightarrow> obj res"

record worker_port =
  wp_preflight :: "trace \<Rightarrow> string \<Rightarrow> obj res"
  wp_invoke :: "trace \<Rightarrow> invocation \<Rightarrow> obj option res"

record finalization_port =
  fp_terminal_statuses :: "string list"
  fp_finalize_completed :: "trace \<Rightarrow> obj \<Rightarrow> dict \<Rightarrow> obj \<Rightarrow> dict \<Rightarrow> obj list \<Rightarrow> cval \<Rightarrow> string \<Rightarrow> dict res"
  fp_finalize_failure :: "trace \<Rightarrow> string \<Rightarrow> string \<Rightarrow> exn \<Rightarrow> unit res"
  fp_bound_values :: "trace \<Rightarrow> dict \<Rightarrow> dict res"

record process_port =
  op_terminate_owned :: "trace \<Rightarrow> string \<Rightarrow> int \<Rightarrow> unit res"
  op_pid_alive :: "trace \<Rightarrow> int \<Rightarrow> bool res"
  op_create_thread :: "trace \<Rightarrow> string \<Rightarrow> string \<Rightarrow> obj res"
  op_register_thread :: "trace \<Rightarrow> string \<Rightarrow> obj \<Rightarrow> unit res"
  op_start_thread :: "trace \<Rightarrow> obj \<Rightarrow> unit res"
  op_utc_now :: "trace \<Rightarrow> string res"
  op_worker_command :: "trace \<Rightarrow> string \<Rightarrow> string \<Rightarrow> string \<Rightarrow> string list res"
  op_start_process :: "trace \<Rightarrow> string list \<Rightarrow> string \<Rightarrow> obj res"

text \<open>
  What the coordinator uses of the host's standard library: the clocks, SHA-256 as hexadecimal text,
  \<open>datetime.fromisoformat\<close>, \<open>float\<close> of a text, and the identifiers of the own process.
\<close>

record host =
  ht_time :: "trace \<Rightarrow> rat"
  ht_perf_counter :: "trace \<Rightarrow> rat"
  ht_utcnow :: "trace \<Rightarrow> int"
  ht_sha256 :: "string \<Rightarrow> string"
  ht_calendar :: "string \<Rightarrow> (int \<times> bool) option"
  ht_parse_float :: "string \<Rightarrow> pyfloat option"
  ht_pid :: int
  ht_pgid :: int

record coordinator =
  co_state :: state_port
  co_contract :: contract_port
  co_worker :: worker_port
  co_target :: target_port
  co_processes :: process_port
  co_finalization :: finalization_port
  co_preparation :: "preparation_port option"
  co_model_call_gate :: "(trace \<Rightarrow> resolver) option"
  co_effect_authority :: "(trace \<Rightarrow> authorization \<Rightarrow> pyval res) option"
  co_require_effect_authority :: bool
  co_host :: host

section \<open>Calls\<close>

definition snapshot :: "coordinator \<Rightarrow> string \<Rightarrow> dict option prog" where
  "snapshot C task_id = ask (\<lambda>tr. sp_read_snapshot (co_state C) tr task_id) (\<lambda>r. State (ReadSnapshot task_id r))"

text \<open>\<open>self.state.read_snapshot(task_id) or d\<close>.\<close>

definition snapshot_or :: "coordinator \<Rightarrow> string \<Rightarrow> dict \<Rightarrow> dict prog" where
  "snapshot_or C task_id d =
     bnd (snapshot C task_id) (\<lambda>s. ret (case s of None \<Rightarrow> d | Some x \<Rightarrow> if x = [] then d else x))"

definition update :: "coordinator \<Rightarrow> string \<Rightarrow> string \<Rightarrow> string \<Rightarrow> cvalues \<Rightarrow> dict prog" where
  "update C task_id attempt_id status values =
     ask (\<lambda>tr. sp_checkpoint (co_state C) tr task_id status values attempt_id)
       (\<lambda>r. State (Checkpoint task_id status values attempt_id r))"

definition mutate_metadata :: "coordinator \<Rightarrow> string \<Rightarrow> dict \<Rightarrow> dict prog" where
  "mutate_metadata C task_id values =
     ask (\<lambda>tr. sp_mutate_metadata (co_state C) tr task_id values) (\<lambda>r. State (MutateMetadata task_id values r))"

definition now :: "coordinator \<Rightarrow> rat prog" where
  "now C = ask (\<lambda>tr. Inr (ht_time (co_host C) tr)) (\<lambda>r. Clock (Now r))"

definition perf_counter :: "coordinator \<Rightarrow> rat prog" where
  "perf_counter C = ask (\<lambda>tr. Inr (ht_perf_counter (co_host C) tr)) (\<lambda>r. Clock (PerfCounter r))"

definition utc_now :: "coordinator \<Rightarrow> int prog" where
  "utc_now C = ask (\<lambda>tr. Inr (ht_utcnow (co_host C) tr)) (\<lambda>r. Clock (UtcNow r))"

definition assert_dispatch :: "coordinator \<Rightarrow> dict \<Rightarrow> dict \<Rightarrow> dict option \<Rightarrow> string option \<Rightarrow> unit prog" where
  "assert_dispatch C state request binding active =
     ask (\<lambda>tr. kp_assert_dispatch (co_contract C) tr state request binding active)
       (\<lambda>r. Contract (AssertDispatch state request binding active r))"

definition revalidate_task_card :: "coordinator \<Rightarrow> obj \<Rightarrow> dict \<Rightarrow> dict \<Rightarrow> dict option \<Rightarrow> unit prog" where
  "revalidate_task_card C contract request state binding =
     ask (\<lambda>tr. kp_revalidate_task_card (co_contract C) tr contract request state binding)
       (\<lambda>r. Contract (RevalidateTaskCard contract request state binding r))"

definition revalidate_boundary :: "coordinator \<Rightarrow> obj \<Rightarrow> dict \<Rightarrow> string \<Rightarrow> dict option \<Rightarrow> string \<Rightarrow> unit prog" where
  "revalidate_boundary C contract request task_id binding provider =
     ask (\<lambda>tr. kp_revalidate_boundary (co_contract C) tr contract request task_id binding provider)
       (\<lambda>r. Contract (RevalidateBoundary contract request task_id binding provider r))"

definition receipt_from_state :: "coordinator \<Rightarrow> pyval \<Rightarrow> obj option prog" where
  "receipt_from_state C v =
     ask (\<lambda>tr. kp_receipt_from_state (co_contract C) tr v) (\<lambda>r. Contract (ReceiptFromState v r))"

definition preflight :: "coordinator \<Rightarrow> string \<Rightarrow> obj prog" where
  "preflight C provider = ask (\<lambda>tr. wp_preflight (co_worker C) tr provider) (\<lambda>r. Worker (Preflight provider r))"

definition raise_when :: "bool \<Rightarrow> exc_class \<Rightarrow> string \<Rightarrow> unit prog" where
  "raise_when b c msg = lift (raise_if b c msg)"

lemmas call_defs = snapshot_def snapshot_or_def update_def mutate_metadata_def now_def perf_counter_def utc_now_def
  assert_dispatch_def revalidate_task_card_def revalidate_boundary_def receipt_from_state_def preflight_def raise_when_def

section \<open>The effect authorization gate\<close>

definition effect_authorization_requested :: "dict \<Rightarrow> dict \<Rightarrow> bool" where
  "effect_authorization_requested request state =
     (truthy (dget request ''effect_authorization_required'') \<or> ''effect_authorization'' \<in> set (dkeys request) \<or>
      ''tool_projection_requests'' \<in> set (dkeys request) \<or> ''effect_authorization'' \<in> set (dkeys state))"

definition request_identity_value :: "dict \<Rightarrow> string \<Rightarrow> string option" where
  "request_identity_value request key =
     (case dget request key of PStr s \<Rightarrow> if strip s \<noteq> [] then Some (strip s) else None | _ \<Rightarrow> None)"

definition verify_effect_authority :: "coordinator \<Rightarrow> authorization \<Rightarrow> unit prog" where
  "verify_effect_authority C a =
    (case co_effect_authority C of
       None \<Rightarrow>
         if co_require_effect_authority C
         then raise MissingExecutionBindingError
                ''effect authorization authority not verified: no effect authority port configured''
         else ret ()
     | Some port \<Rightarrow>
         bnd (catching (ask (\<lambda>tr. port tr a) (\<lambda>r. Authority a r))
                (\<lambda>e. raise MissingExecutionBindingError (''effect authorization authority not verified: '' @ snd e)))
           (\<lambda>accepted. raise_when (\<not> is_True accepted) MissingExecutionBindingError
              ''effect authorization authority not verified: port did not return True''))"

text \<open>\<open>except EffectAuthorizationError as exc: raise MissingExecutionBindingError(str(exc))\<close>.\<close>

fun as_binding_error :: "'a res \<Rightarrow> 'a res" where
  "as_binding_error (Inl e) = Inl (if fst e = EffectAuthorizationError then (MissingExecutionBindingError, snd e) else e)"
| "as_binding_error (Inr x) = Inr x"

text \<open>\<open>authorization.assert_fresh()\<close>: the clock is read when there is an expiry.\<close>

definition fresh :: "coordinator \<Rightarrow> authorization \<Rightarrow> unit prog" where
  "fresh C a =
    (case ea_expires_at a of
       None \<Rightarrow> lift (as_binding_error (assert_fresh (ht_calendar (co_host C)) 0 a))
     | Some _ \<Rightarrow> bnd (utc_now C) (\<lambda>t. lift (as_binding_error (assert_fresh (ht_calendar (co_host C)) t a))))"

text \<open>The identity that the request demands of an authorization.\<close>

definition requested_identity :: "string \<Rightarrow> dict \<Rightarrow> string \<Rightarrow> pyval" where
  "requested_identity attempt_id request field =
     (if field = ''attempt_id'' then PStr attempt_id else opt_str (request_identity_value request field))"

definition requested_authorization :: "coordinator \<Rightarrow> string \<Rightarrow> dict \<Rightarrow> authorization prog" where
  "requested_authorization C attempt_id request =
     bnd (raise_when (\<not> is_mapping (dget request ''effect_authorization'')) MissingExecutionBindingError
            ''effect authorization is required before runtime side effects'') (\<lambda>_.
     bnd (raise_when (request_identity_value request ''operation_id'' = None \<or> request_identity_value request ''repository'' = None)
            MissingExecutionBindingError ''effect authorization requires request operation_id and repository identity'') (\<lambda>_.
     bnd (lift (as_binding_error (ea_from_mapping (ht_sha256 (co_host C)) (ht_calendar (co_host C))
            (dget request ''effect_authorization'')))) (\<lambda>requested.
     bnd (fresh C requested) (\<lambda>_.
     bnd (lift (as_binding_error (assert_identity requested (requested_identity attempt_id request)))) (\<lambda>_.
     bnd (verify_effect_authority C requested) (\<lambda>_.
     ret requested))))))"

definition durable_authorization :: "coordinator \<Rightarrow> authorization \<Rightarrow> dict \<Rightarrow> authorization prog" where
  "durable_authorization C requested state =
     bnd (raise_when (\<not> is_mapping (dget state ''effect_authorization'')) MissingExecutionBindingError
            ''durable effect authorization is malformed'') (\<lambda>_.
     bnd (lift (as_binding_error (ea_from_mapping (ht_sha256 (co_host C)) (ht_calendar (co_host C))
            (dget state ''effect_authorization'')))) (\<lambda>durable.
     bnd (fresh C durable) (\<lambda>_.
     bnd (raise_when (ea_authorization_hash durable \<noteq> ea_authorization_hash requested) MissingExecutionBindingError
            ''effect authorization substitution or widening detected'') (\<lambda>_.
     bnd (raise_when (dget state ''effect_authorization_hash'' \<noteq> PStr (ea_authorization_hash durable))
            MissingExecutionBindingError ''durable effect authorization hash binding mismatch'') (\<lambda>_.
     ret durable)))))"

text \<open>The requested authorization is made durable on first use only.\<close>

definition persist_authorization :: "coordinator \<Rightarrow> string \<Rightarrow> authorization \<Rightarrow> dict \<Rightarrow> bool \<Rightarrow> dict prog" where
  "persist_authorization C task_id requested state allow_create =
    (if is_none (dget state ''effect_authorization'')
     then bnd (raise_when (\<not> allow_create) MissingExecutionBindingError
                 ''durable effect authorization is missing after execution may have started'') (\<lambda>_.
          bnd (mutate_metadata C task_id
                 [(''effect_authorization'', PDict (ea_to_dict requested)),
                  (''effect_authorization_hash'', PStr (ea_authorization_hash requested))]) (\<lambda>_.
          snapshot_or C task_id []))
     else ret state)"

definition ensure_effect_authorization ::
  "coordinator \<Rightarrow> string \<Rightarrow> string \<Rightarrow> dict \<Rightarrow> dict \<Rightarrow> bool \<Rightarrow> (dict \<times> authorization option) prog" where
  "ensure_effect_authorization C task_id attempt_id request state allow_create =
    (if \<not> (co_require_effect_authority C \<or> effect_authorization_requested request state) then ret (state, None)
     else
     bnd (requested_authorization C attempt_id request) (\<lambda>requested.
     bnd (persist_authorization C task_id requested state allow_create) (\<lambda>state'.
     bnd (durable_authorization C requested state') (\<lambda>durable.
     ret (state', Some durable)))))"

section \<open>The tool projection gate\<close>

definition projection_request :: "dict \<Rightarrow> string \<Rightarrow> dict res" where
  "projection_request request provider =
    (case dget request ''tool_projection_requests'' of
       PDict requests \<Rightarrow>
         (case dget requests provider of
            PDict d \<Rightarrow> Inr d
          | _ \<Rightarrow> Inl (MissingExecutionBindingError, ''tool projection request missing for provider: '' @ provider))
     | _ \<Rightarrow> Inl (MissingExecutionBindingError,
              ''tool_projection_requests are required for effect-authorized worker execution''))"

text \<open>Building a projection asserts the freshness of the authorization again.\<close>

definition build_projection :: "coordinator \<Rightarrow> authorization \<Rightarrow> (int \<Rightarrow> projection res) \<Rightarrow> projection prog" where
  "build_projection C a build =
    (case ea_expires_at a of
       None \<Rightarrow> lift (as_binding_error (build 0))
     | Some _ \<Rightarrow> bnd (utc_now C) (\<lambda>t. lift (as_binding_error (build t))))"

definition ensure_tool_projection ::
  "coordinator \<Rightarrow> string \<Rightarrow> dict \<Rightarrow> dict \<Rightarrow> authorization option \<Rightarrow> string \<Rightarrow> bool \<Rightarrow> (dict \<times> projection option) prog" where
  "ensure_tool_projection C task_id request state authorization provider allow_create =
    (case authorization of
       None \<Rightarrow> ret (state, None)
     | Some a \<Rightarrow>
       let H = ht_sha256 (co_host C); cal = ht_calendar (co_host C) in
       bnd (fresh C a) (\<lambda>_.
       bnd (lift (projection_request request provider)) (\<lambda>raw.
       bnd (build_projection C a (\<lambda>t. tp_build H cal t a (PStr provider) (dget raw ''backend_id'')
              (dget raw ''selected_tools'') (dget raw ''selected_effects''))) (\<lambda>projection.
       let manifests = dict_of (dget state ''tool_projection_manifests'');
           existing = dget manifests provider in
       if \<not> is_none existing then
         bnd (raise_when (\<not> is_mapping existing) MissingExecutionBindingError ''durable tool projection is malformed'') (\<lambda>_.
         bnd (build_projection C a (\<lambda>t. tp_from_mapping H cal t existing a)) (\<lambda>durable.
         bnd (raise_when (tp_projection_hash durable \<noteq> tp_projection_hash projection) MissingExecutionBindingError
                ''tool projection substitution or widening detected'') (\<lambda>_.
         ret (state, Some durable))))
       else
         bnd (raise_when (\<not> allow_create) MissingExecutionBindingError
                ''durable tool projection is missing after execution may have started'') (\<lambda>_.
         bnd (mutate_metadata C task_id
                [(''tool_projection_manifests'', PDict (dset provider (PDict (tp_to_dict projection)) manifests))]) (\<lambda>_.
         bnd (snapshot_or C task_id []) (\<lambda>state'.
         ret (state', Some projection))))))))"

section \<open>The host preparation gate\<close>

definition host_preparation_required :: "coordinator \<Rightarrow> obj \<Rightarrow> dict \<Rightarrow> bool prog" where
  "host_preparation_required C contract request =
    (case kp_host_preparation_required (co_contract C) of
       None \<Rightarrow> ret False
     | Some required \<Rightarrow>
         ask (\<lambda>tr. required tr contract request) (\<lambda>r. Contract (HostPreparationRequired contract request r)))"

definition ensure_host_prepared ::
  "coordinator \<Rightarrow> string \<Rightarrow> string \<Rightarrow> obj \<Rightarrow> dict \<Rightarrow> obj \<Rightarrow> dict \<Rightarrow> string \<Rightarrow> bool \<Rightarrow> dict prog" where
  "ensure_host_prepared C task_id attempt_id contract request lease state active_provider allow_create =
     bnd (host_preparation_required C contract request) (\<lambda>required.
     if \<not> required then ret state
     else (case co_preparation C of
       None \<Rightarrow> raise MissingExecutionBindingError ''explicit preparation port is required for host-prepared execution''
     | Some port \<Rightarrow>
       bnd (if is_none (dget state ''host_preparation'')
            then bnd (raise_when (\<not> allow_create) MissingExecutionBindingError
                        ''durable host preparation is missing after execution may have started'') (\<lambda>_.
                 bnd (ask (\<lambda>tr. pp_prepare port tr contract request lease state task_id attempt_id)
                        (\<lambda>r. Preparation (Prepare contract request lease state task_id attempt_id r))) (\<lambda>prepared.
                 bnd (raise_when (\<not> is_mapping prepared \<or> \<not> truthy prepared) MissingExecutionBindingError
                        ''host preparation must return durable non-empty identity evidence'') (\<lambda>_.
                 bnd (mutate_metadata C task_id [(''host_preparation'', prepared)]) (\<lambda>_.
                 snapshot_or C task_id []))))
            else ret state) (\<lambda>state'.
       let preparation = dget state' ''host_preparation'' in
       bnd (raise_when (\<not> is_mapping preparation \<or> \<not> truthy preparation) MissingExecutionBindingError
              ''durable host preparation evidence is malformed'') (\<lambda>_.
       bnd (ask (\<lambda>tr. pp_revalidate port tr (dict_of preparation) contract request lease state' task_id attempt_id active_provider)
              (\<lambda>r. Preparation (RevalidatePreparation (dict_of preparation) contract request lease state' task_id attempt_id
                      active_provider r))) (\<lambda>_.
       ret state')))))"

section \<open>Lemmas\<close>

lemma as_binding_error_eq_Inr [simp]: "as_binding_error r = Inr x \<longleftrightarrow> r = Inr x"
  by (cases r) auto

lemma raise_when_eq [act_simps]: "raise_when b c msg tr = (Inr u, tr') \<longleftrightarrow> \<not> b \<and> tr' = tr"
  by (auto simp: raise_when_def raise_if_def)

lemma opt_str_eq_PStr [simp]: "opt_str x = PStr s \<longleftrightarrow> x = Some s"
  by (cases x) (auto simp: opt_str_def)

lemma is_none_opt_str [simp]: "is_none (opt_str x) \<longleftrightarrow> x = None"
  by (cases x) (auto simp: opt_str_def)

text \<open>An authorization that has not expired at some reading of the clock.\<close>

definition unexpired :: "coordinator \<Rightarrow> authorization \<Rightarrow> int \<Rightarrow> bool" where
  "unexpired C a t = (case ea_expires_at a of None \<Rightarrow> True
     | Some s \<Rightarrow> \<exists>e. parse_expiry (ht_calendar (co_host C)) s = Inr e \<and> t < e)"

definition clock_reading :: "event \<Rightarrow> int \<Rightarrow> bool" where
  "clock_reading e t = (e = Clock (UtcNow (Inr t)))"

lemma fresh_eq_Inr:
  "fresh C a tr = (Inr u, tr') \<Longrightarrow>
   (ea_expires_at a = None \<and> tr' = tr) \<or> (\<exists>t. tr' = tr @ [Clock (UtcNow (Inr t))] \<and> unexpired C a t)"
  by (auto simp: fresh_def act_simps call_defs unexpired_def assert_fresh_def bindr_eq_Inr raise_if_eq_Inr
      split: option.splits)

text \<open>The calls a gate can make: it never invokes a worker and never writes a checkpoint.\<close>

fun quiet :: "event \<Rightarrow> bool" where
  "quiet (Worker (Invoke _ _)) = False"
| "quiet (State (Checkpoint _ _ _ _ _)) = False"
| "quiet (Finalization _) = False"
| "quiet (Custom _ _) = False"
| "quiet _ = True"

lemma emits_raise_when [emits_intros]: "emits K (raise_when b c msg)"
  by (simp add: raise_when_def emits_intros)

lemma emits_calls [emits_intros]:
  "emits quiet (snapshot C task_id)"
  "emits quiet (snapshot_or C task_id d)"
  "emits quiet (mutate_metadata C task_id values)"
  "emits quiet (now C)" "emits quiet (perf_counter C)" "emits quiet (utc_now C)"
  "emits quiet (assert_dispatch C state request binding active)"
  "emits quiet (revalidate_task_card C contract request state binding)"
  "emits quiet (revalidate_boundary C contract request task_id binding provider)"
  "emits quiet (receipt_from_state C v)"
  "emits quiet (preflight C provider)"
  by (auto simp: call_defs intro!: emits_intros)

lemma emits_fresh [emits_intros]: "emits quiet (fresh C a)"
  by (auto simp: fresh_def intro!: emits_intros)

lemma emits_verify_effect_authority [emits_intros]: "emits quiet (verify_effect_authority C a)"
  by (auto simp: verify_effect_authority_def intro!: emits_intros)

lemma emits_authorization_parts [emits_intros]:
  "emits quiet (requested_authorization C attempt_id request)"
  "emits quiet (persist_authorization C task_id requested state allow_create)"
  "emits quiet (durable_authorization C requested state)"
  unfolding requested_authorization_def persist_authorization_def durable_authorization_def
  by (intro emits_intros)+

lemma emits_ensure_effect_authorization [emits_intros]:
  "emits quiet (ensure_effect_authorization C task_id attempt_id request state allow_create)"
  unfolding ensure_effect_authorization_def by (intro emits_intros)

lemma emits_build_projection [emits_intros]: "emits quiet (build_projection C a build)"
  by (auto simp: build_projection_def intro!: emits_intros)

lemma emits_ensure_tool_projection [emits_intros]:
  "emits quiet (ensure_tool_projection C task_id request state authorization provider allow_create)"
  unfolding ensure_tool_projection_def by (intro emits_intros)

lemma emits_host_preparation_required [emits_intros]: "emits quiet (host_preparation_required C contract request)"
  by (auto simp: host_preparation_required_def intro!: emits_intros)

lemma emits_ensure_host_prepared [emits_intros]:
  "emits quiet (ensure_host_prepared C task_id attempt_id contract request lease state active_provider allow_create)"
  unfolding ensure_host_prepared_def by (intro emits_intros) auto

subsection \<open>What the gates guarantee\<close>

definition authorized :: "coordinator \<Rightarrow> string \<Rightarrow> dict \<Rightarrow> authorization \<Rightarrow> trace \<Rightarrow> bool" where
  "authorized C attempt_id request a tr \<longleftrightarrow>
     (\<exists>requested. ea_from_mapping (ht_sha256 (co_host C)) (ht_calendar (co_host C)) (dget request ''effect_authorization'') = Inr requested \<and>
        assert_identity requested (requested_identity attempt_id request) = Inr () \<and>
        ea_authorization_hash a = ea_authorization_hash requested \<and>
        (\<forall>port. co_effect_authority C = Some port \<longrightarrow> Authority requested (Inr (PBool True)) \<in> set tr)) \<and>
     (co_require_effect_authority C \<longrightarrow> co_effect_authority C \<noteq> None) \<and>
     ea_wf (ht_sha256 (co_host C)) (ht_calendar (co_host C)) a \<and>
     (ea_expires_at a = None \<or> (\<exists>t. Clock (UtcNow (Inr t)) \<in> set tr \<and> unexpired C a t))"

lemma authorized_mono: "authorized C attempt_id request a es \<Longrightarrow> set es \<subseteq> set es' \<Longrightarrow> authorized C attempt_id request a es'"
  unfolding authorized_def by blast

lemma ea_from_mapping_wf: "ea_from_mapping H cal v = Inr a \<Longrightarrow> ea_wf H cal a"
  by (auto simp: ea_from_mapping_def bindr_eq_Inr dest: ea_build_wf)

lemma adds_bnd_raise_when [adds_intros]: "(\<not> b \<Longrightarrow> adds (f ()) Q) \<Longrightarrow> adds (bnd (raise_when b c msg) f) Q"
  unfolding raise_when_def by (rule adds_bnd_lift) (auto simp: raise_if_eq_Inr)

lemma adds_bnd_binding_error [adds_intros]:
  "(\<And>x. r = Inr x \<Longrightarrow> adds (f x) Q) \<Longrightarrow> adds (bnd (lift (as_binding_error r)) f) Q"
  by (rule adds_bnd_lift) simp

lemma adds_fresh:
  "adds (fresh C a) (\<lambda>_ es. ea_expires_at a = None \<or> (\<exists>t. Clock (UtcNow (Inr t)) \<in> set es \<and> unexpired C a t))"
  unfolding adds_def by (auto dest!: fresh_eq_Inr)

lemma adds_verify_effect_authority:
  "adds (verify_effect_authority C a) (\<lambda>_ es.
     (\<forall>port. co_effect_authority C = Some port \<longrightarrow> Authority a (Inr (PBool True)) \<in> set es) \<and>
     (co_require_effect_authority C \<longrightarrow> co_effect_authority C \<noteq> None))"
  by (auto simp: adds_def verify_effect_authority_def act_simps is_True_def split: option.splits if_splits)

definition request_admitted :: "coordinator \<Rightarrow> string \<Rightarrow> dict \<Rightarrow> authorization \<Rightarrow> event list \<Rightarrow> bool" where
  "request_admitted C attempt_id request a es \<longleftrightarrow>
     ea_from_mapping (ht_sha256 (co_host C)) (ht_calendar (co_host C)) (dget request ''effect_authorization'') = Inr a \<and>
     assert_identity a (requested_identity attempt_id request) = Inr () \<and>
     (\<forall>port. co_effect_authority C = Some port \<longrightarrow> Authority a (Inr (PBool True)) \<in> set es) \<and>
     (co_require_effect_authority C \<longrightarrow> co_effect_authority C \<noteq> None)"

lemma adds_requested_authorization: "adds (requested_authorization C attempt_id request) (request_admitted C attempt_id request)"
  unfolding requested_authorization_def
  by (rule adds_bnd_raise_when, rule adds_bnd_raise_when, rule adds_bnd_binding_error, rule adds_bnd [OF adds_fresh],
      rule adds_bnd_binding_error, rule adds_bnd [OF adds_verify_effect_authority], rule adds_ret)
    (auto simp: request_admitted_def)

lemma adds_durable_authorization:
  "adds (durable_authorization C requested state) (\<lambda>a es.
     ea_wf (ht_sha256 (co_host C)) (ht_calendar (co_host C)) a \<and> ea_authorization_hash a = ea_authorization_hash requested \<and>
     (ea_expires_at a = None \<or> (\<exists>t. Clock (UtcNow (Inr t)) \<in> set es \<and> unexpired C a t)))"
  unfolding durable_authorization_def
  by (rule adds_bnd_raise_when, rule adds_bnd_binding_error, rule adds_bnd [OF adds_fresh],
      rule adds_bnd_raise_when, rule adds_bnd_raise_when, rule adds_ret)
    (auto dest: ea_from_mapping_wf)

lemma adds_ensure_effect_authorization:
  "adds (ensure_effect_authorization C task_id attempt_id request state allow_create) (\<lambda>r es.
     case snd r of
       None \<Rightarrow> \<not> co_require_effect_authority C \<and> \<not> effect_authorization_requested request state
     | Some a \<Rightarrow> authorized C attempt_id request a es)"
  unfolding ensure_effect_authorization_def
  by (rule adds_if, rule adds_ret, simp, rule adds_bnd [OF adds_requested_authorization],
      rule adds_bnd_emits [OF emits_authorization_parts(2)], rule adds_bnd [OF adds_durable_authorization], rule adds_ret)
    (auto simp: authorized_def request_admitted_def)

text \<open>A tool projection derived from an authorization.\<close>

definition projected :: "coordinator \<Rightarrow> authorization \<Rightarrow> projection \<Rightarrow> bool" where
  "projected C a p \<longleftrightarrow>
     tp_authorization_hash p = ea_authorization_hash a \<and> tp_attempt_id p = ea_attempt_id a \<and>
     tp_operation_id p = ea_operation_id a \<and>
     is_subset (PDict (tp_selected_effects p)) (PDict (ea_effects a)) = Inr True"

lemma tp_build_projected: "tp_build H cal t a pr be tools effs = Inr p \<Longrightarrow> projected C a p"
  using tp_build_facts [of H cal t a pr be tools effs p] by (simp add: projected_def)

lemma tp_from_mapping_projected: "tp_from_mapping H cal t v a = Inr p \<Longrightarrow> projected C a p"
  by (auto simp: tp_from_mapping_def bindr_eq_Inr dest: tp_build_projected)

lemma adds_build_projection: "adds (build_projection C a build) (\<lambda>p es. \<exists>t. build t = Inr p)"
  by (auto simp: adds_def build_projection_def act_simps utc_now_def split: option.splits)

lemma adds_ensure_tool_projection:
  "adds (ensure_tool_projection C task_id request state au provider allow_create)
     (\<lambda>r es. case au of None \<Rightarrow> snd r = None | Some a \<Rightarrow> \<exists>p. snd r = Some p \<and> projected C a p)"
proof (cases au)
  case None
  then show ?thesis by (auto simp: ensure_tool_projection_def intro!: adds_ret)
next
  case (Some a)
  have "adds (ensure_tool_projection C task_id request state (Some a) provider allow_create)
      (\<lambda>r es. \<exists>p. snd r = Some p \<and> projected C a p)"
    unfolding ensure_tool_projection_def option.case Let_def
    apply (rule adds_bnd [OF adds_fresh], rule adds_bnd_lift, rule adds_bnd [OF adds_build_projection], rule adds_if)
     apply (rule adds_bnd_raise_when, rule adds_bnd [OF adds_build_projection], rule adds_bnd_raise_when, rule adds_ret)
     apply (auto intro: tp_from_mapping_projected) [1]
    by (rule adds_bnd_raise_when, rule adds_bnd_emits [OF emits_calls(3)], rule adds_bnd_emits [OF emits_calls(2)], rule adds_ret)
      (auto intro: tp_build_projected)
  with Some show ?thesis by simp
qed

end
