(* ===== verification/Coordinator_Observation.thy ===== *)
theory Coordinator_Observation
  imports Coordinator_Ports Bounded_Decision
begin

text \<open>
  What \<open>coordinator.py\<close> does around the question whether a model call is needed: the structured state
  handed to the resolver, the observation of bounded decisions, the durable telemetry of model calls,
  and the consumption of a verdict. The observation has no influence on the execution; a verdict
  replaces the worker's invocation only with a receipt that the contract port accepts, that reports a
  completed execution with complete evidence, and that claims no provider call.
\<close>

section \<open>The structured state\<close>

definition model_call_prompt_facts :: "(string \<Rightarrow> string) \<Rightarrow> dict \<Rightarrow> dict option \<times> string \<times> int" where
  "model_call_prompt_facts H state =
    (let binding = (case dget state ''dispatch_binding'' of PDict d \<Rightarrow> Some d | _ \<Rightarrow> None) in
     case dget state ''prompt'' of
       PStr p \<Rightarrow> (binding, H p, int (length p))
     | _ \<Rightarrow> (binding, '''', 0))"

definition durable_complete :: "pyval \<Rightarrow> bool" where
  "durable_complete v =
    (case v of
       PDict d \<Rightarrow> str_or (dget d ''outcome'') '''' = ''EXECUTION_COMPLETED'' \<and> truthy (dget d ''evidence_complete'')
     | _ \<Rightarrow> False)"

definition model_call_structured_state ::
  "(string \<Rightarrow> string) \<Rightarrow> dict \<Rightarrow> dict \<Rightarrow> string \<Rightarrow> string \<Rightarrow> string \<Rightarrow> string option \<Rightarrow> int \<Rightarrow> int \<Rightarrow> string \<Rightarrow> dict" where
  "model_call_structured_state H request state task_id attempt_id provider model remaining_calls remaining_attempts lane =
    (case model_call_prompt_facts H state of (binding, prompt_digest, prompt_length) \<Rightarrow>
     let bound = (\<lambda>k. case binding of Some d \<Rightarrow> str_or (dget d k) '''' | None \<Rightarrow> '''') in
     [(''task_id'', PStr task_id), (''attempt_id'', PStr attempt_id), (''provider'', PStr provider),
      (''model'', PStr (case model of None \<Rightarrow> '''' | Some m \<Rightarrow> m)),
      (''remaining_provider_calls'', PInt remaining_calls), (''remaining_attempts'', PInt remaining_attempts),
      (''execution_lane'', PStr lane),
      (''prior_attempt_count'', PInt (case dget state ''executions'' of PList xs \<Rightarrow> int (length xs) | _ \<Rightarrow> 0)),
      (''prior_execution_present'', PBool (\<not> is_none (dget state ''execution''))),
      (''prior_execution_complete'', PBool (durable_complete (dget state ''execution''))),
      (''prompt_digest'', PStr prompt_digest), (''prompt_length'', PInt prompt_length),
      (''dispatch_provider'', PStr (bound ''provider'')), (''dispatch_model'', PStr (bound ''model'')),
      (''request_model'', PStr (str_or (dget request ''model'') '''')),
      (''deterministic_candidates'',
         case dget request ''deterministic_candidates'' of PList xs \<Rightarrow> PList xs | _ \<Rightarrow> PList [])])"

section \<open>The observed state\<close>

definition OBSERVATION_CONTEXT_FIELDS :: "string list" where
  "OBSERVATION_CONTEXT_FIELDS =
     [''decision_family'', ''protected_authority_requirements'', ''candidates'', ''evidence_refs'', ''required_verifier'',
      ''claim_ceiling'', ''structured_state'']"

definition bounded_observation_context :: "dict \<Rightarrow> dict \<times> string option" where
  "bounded_observation_context request =
    (if ''bounded_decision_context'' \<notin> set (dkeys request) then ([], Some ''bounded_decision_context_missing'')
     else case dget request ''bounded_decision_context'' of
       PDict raw \<Rightarrow>
         (let projected = map (\<lambda>k. (k, dget raw k)) (filter (\<lambda>k. k \<in> set (dkeys raw)) OBSERVATION_CONTEXT_FIELDS) in
          case json_dumps False False (PDict projected) of
            Inl _ \<Rightarrow> ([], Some ''bounded_decision_context_not_canonical_json'')
          | Inr _ \<Rightarrow> (projected, None))
     | _ \<Rightarrow> ([], Some ''bounded_decision_context_not_mapping''))"

definition bounded_observation_state_digest :: "(string \<Rightarrow> string) \<Rightarrow> dict \<Rightarrow> string res" where
  "bounded_observation_state_digest H state = bindr (json_dumps False False (PDict state)) (\<lambda>payload. Inr (H payload))"

text \<open>The identities that belong to the request envelope override the caller's context.\<close>

definition observation_identities :: "dict \<Rightarrow> verdict \<Rightarrow> string \<Rightarrow> dict" where
  "observation_identities request upstream task_id =
     [(''task_id'', PStr task_id), (''repository'', PStr (str_or (dget request ''repository'') '''')),
      (''source_revision'', PStr (str_or (dget request ''source_revision'') '''')),
      (''upstream_model_call_state_digest'', PStr (mv_structured_state_digest upstream))]"

definition bounded_observation_state ::
  "(string \<Rightarrow> string) \<Rightarrow> dict \<Rightarrow> dict \<Rightarrow> verdict \<Rightarrow> string \<Rightarrow> (dict \<times> verdict \<times> string option) res" where
  "bounded_observation_state H request resolver_state upstream task_id =
    (case bounded_observation_context request of (context, context_error) \<Rightarrow>
     let own = observation_identities request upstream task_id;
         observed = dmerge (dmerge resolver_state context) own;
         plain = dmerge resolver_state own in
     bindr (case bounded_observation_state_digest H observed of
              Inr dig \<Rightarrow> Inr (observed, dig, context_error)
            | Inl _ \<Rightarrow> bindr (bounded_observation_state_digest H plain) (\<lambda>dig. Inr (plain, dig,
                Some (case context_error of Some e \<Rightarrow> e | None \<Rightarrow> ''bounded_observation_state_not_canonical_json''))))
       (\<lambda>(state, dig, err).
     bindr (verdict_build (PStr MODEL_NEEDED) (PStr (mv_reason upstream)) (PStr (mv_resolver_id upstream))
              (PStr (mv_seam upstream)) (PStr dig) PNone) (\<lambda>v.
     Inr (state, v, err))))"

text \<open>The candidate identifiers, none when an entry is malformed.\<close>

definition candidate_id_of :: "pyval \<Rightarrow> string option" where
  "candidate_id_of item =
    (case item of
       PDict d \<Rightarrow> (case dget d ''candidate_id'' of PStr s \<Rightarrow> if strip s = [] then None else Some (strip s) | _ \<Rightarrow> None)
     | _ \<Rightarrow> None)"

definition bounded_candidate_ids :: "dict \<Rightarrow> string list" where
  "bounded_candidate_ids structured_state =
    (let items = items_of (dget structured_state ''candidates'') in
     if \<exists>x \<in> set items. candidate_id_of x = None then []
     else sort (map (\<lambda>x. the (candidate_id_of x)) items))"

section \<open>Recording an observation\<close>

text \<open>The eligibility and the packet hash; whatever goes wrong is an observation too.\<close>

definition observed_disposition :: "(string \<Rightarrow> string) \<Rightarrow> verdict \<Rightarrow> dict \<Rightarrow> string \<times> string \<times> string \<times> string option" where
  "observed_disposition H bounded structured_state =
    (case
       bindr (classify_bounded_decision H bounded (PDict structured_state)) (\<lambda>e.
       bindr (if be_disposition e = BOUNDED_DECISION_ELIGIBLE
              then bindr (build_bounded_decision_packet H bounded (PDict structured_state)) (\<lambda>p. Inr (Some (bp_content_sha256 p)))
              else Inr None) (\<lambda>sha.
       Inr (be_disposition e, be_reason e, be_decision_family e, sha))) of
       Inr r \<Rightarrow> r
     | Inl exc \<Rightarrow> (BOUNDED_DECISION_INSUFFICIENT_STATE, ''bounded_observer_failed:'' @ exc_name (fst exc),
                  strip (str_or (dget structured_state ''decision_family'') ''''), None))"

definition candidate_set_sha256 :: "(string \<Rightarrow> string) \<Rightarrow> string list \<Rightarrow> string option res" where
  "candidate_set_sha256 H ids =
    (if ids = [] then Inr None
     else bindr (json_dumps False True (PTuple (map PStr ids))) (\<lambda>s. Inr (Some (''sha256:'' @ H s))))"

definition observation_id :: "(string \<Rightarrow> string) \<Rightarrow> string \<Rightarrow> string \<Rightarrow> string \<Rightarrow> verdict \<Rightarrow> verdict \<Rightarrow> string res" where
  "observation_id H task_id attempt_id provider upstream bounded =
     bindr (json_dumps False True (PDict
       [(''task_id'', PStr task_id), (''attempt_id'', PStr attempt_id), (''provider'', PStr provider),
        (''seam'', PStr (mv_seam upstream)),
        (''upstream_model_call_state_digest'', PStr (mv_structured_state_digest upstream)),
        (''bounded_state_digest'', PStr (mv_structured_state_digest bounded))])) (\<lambda>s.
     Inr (''sha256:'' @ H s))"

definition observation ::
  "(string \<Rightarrow> string) \<Rightarrow> verdict \<Rightarrow> verdict \<Rightarrow> dict \<Rightarrow> string option \<Rightarrow> string \<Rightarrow> string \<Rightarrow> string \<Rightarrow> string \<Rightarrow> dict res" where
  "observation H upstream bounded structured_state context_error task_id attempt_id provider oid =
     (let ids = bounded_candidate_ids structured_state in
     bindr (candidate_set_sha256 H ids) (\<lambda>set_sha.
     Inr (case observed_disposition H bounded structured_state of (disposition, reason, family, packet_sha) \<Rightarrow>
       [(''schema'', PStr ''nexus.runtime.bounded_decision_telemetry.v1''), (''mode'', PStr ''OBSERVE_ONLY''),
        (''control_effect'', PStr ''NONE''), (''claim_ceiling'', PStr ''BOUNDED_DECISION_OPPORTUNITY_OBSERVATION_ONLY''),
        (''observation_id'', PStr oid), (''task_id'', PStr task_id), (''attempt_id'', PStr attempt_id),
        (''provider'', PStr provider), (''seam'', PStr (mv_seam upstream)),
        (''model_call_resolution'', PStr (mv_resolution upstream)),
        (''upstream_model_call_state_digest'', PStr (mv_structured_state_digest upstream)),
        (''bounded_state_digest'', PStr (mv_structured_state_digest bounded)),
        (''repository'', PStr (str_or (dget structured_state ''repository'') '''')),
        (''source_revision'', PStr (str_or (dget structured_state ''source_revision'') '''')),
        (''disposition'', PStr disposition), (''reason'', PStr reason), (''decision_family'', PStr family),
        (''candidate_count'', PInt (int (length ids))), (''candidate_set_sha256'', opt_str set_sha),
        (''packet_sha256'', opt_str packet_sha), (''context_error'', opt_str context_error),
        (''frontier_path_preserved'', PBool True)])))"

text \<open>\<open>totals[key] = int(totals.get(key) or 0) + n\<close>.\<close>

definition count_in :: "string \<Rightarrow> int \<Rightarrow> dict \<Rightarrow> dict res" where
  "count_in key n totals = bindr (py_int (py_or (dget totals key) (PInt 0))) (\<lambda>i. Inr (dset key (PInt (i + n)) totals))"

definition disposition_key :: "string \<Rightarrow> string" where
  "disposition_key disposition =
    (if disposition = BOUNDED_DECISION_ELIGIBLE then ''eligible''
     else if disposition = FRONTIER_REASONING_REQUIRED then ''frontier_required'' else ''insufficient'')"

definition observation_totals :: "string \<Rightarrow> dict \<Rightarrow> dict res" where
  "observation_totals disposition totals =
     bindr (count_in ''evaluated'' 1 totals) (\<lambda>t.
     bindr (count_in (disposition_key disposition) 1 t) (\<lambda>t.
     bindr (count_in ''eligible'' 0 t) (\<lambda>t.
     bindr (count_in ''frontier_required'' 0 t) (\<lambda>t.
     count_in ''insufficient'' 0 t))))"

definition record_bounded_decision_observation ::
  "coordinator \<Rightarrow> verdict \<Rightarrow> verdict \<Rightarrow> dict \<Rightarrow> string option \<Rightarrow> string \<Rightarrow> string \<Rightarrow> string \<Rightarrow> dict prog" where
  "record_bounded_decision_observation C upstream bounded structured_state context_error task_id attempt_id provider =
    (let H = ht_sha256 (co_host C) in
     bnd (snapshot_or C task_id []) (\<lambda>state.
     bnd (lift (observation_id H task_id attempt_id provider upstream bounded)) (\<lambda>oid.
     bnd (lift (observation H upstream bounded structured_state context_error task_id attempt_id provider oid)) (\<lambda>entry.
     let entries = (case dget state ''bounded_decision_observations'' of PList xs \<Rightarrow> xs | _ \<Rightarrow> []) in
     if \<exists>item \<in> set entries. is_mapping item \<and> vget item ''observation_id'' = PStr oid then ret state
     else
     bnd (lift (observation_totals (fst (observed_disposition H bounded structured_state))
            (dict_of (dget state ''bounded_decision_observation_totals'')))) (\<lambda>totals.
     bnd (catching
            (bnd (mutate_metadata C task_id
               [(''bounded_decision_observations'', PList (entries @ [PDict entry])),
                (''bounded_decision_observation_totals'', PDict totals)]) (\<lambda>_. ret True))
            (\<lambda>_. ret False)) (\<lambda>written.
     if written then snapshot_or C task_id state else ret state))))))"

section \<open>Model call telemetry\<close>

text \<open>The keyword arguments of \<open>_record_model_call_outcome\<close> beyond the identities.\<close>

record outcome_args =
  oa_outcome :: string
  oa_required :: int
  oa_invoked :: int
  oa_avoided :: int
  oa_model_avoided :: bool
  oa_resolution :: "string option"
  oa_reason :: "string option"

definition outcome_record :: "verdict \<Rightarrow> outcome_args \<Rightarrow> telemetry res" where
  "outcome_record v oa =
     make_telemetry
       \<lparr> mt_outcome = oa_outcome oa,
         mt_resolution = (case oa_resolution oa of Some r \<Rightarrow> r | None \<Rightarrow> mv_resolution v),
         mt_reason = (case oa_reason oa of Some r \<Rightarrow> r | None \<Rightarrow> mv_reason v),
         mt_resolver_id = mv_resolver_id v, mt_seam = mv_seam v,
         mt_structured_state_digest = mv_structured_state_digest v, mt_model_avoided = oa_model_avoided oa,
         mt_resolver_failure = mv_resolver_failure v, mt_calls_required = oa_required oa,
         mt_calls_invoked = oa_invoked oa, mt_calls_avoided = oa_avoided oa, mt_calls_not_eliminated = None \<rparr>"

definition avoidance_totals :: "outcome_args \<Rightarrow> dict \<Rightarrow> dict res" where
  "avoidance_totals oa totals =
     bindr (count_in ''model_calls_required'' (oa_required oa) totals) (\<lambda>t.
     bindr (count_in ''model_calls_invoked'' (oa_invoked oa) t) (\<lambda>t.
     bindr (count_in ''model_calls_avoided'' (oa_avoided oa) t) (\<lambda>t.
     bindr (py_int (py_or (dget t ''model_calls_invoked'') (PInt 0))) (\<lambda>invoked.
     bindr (py_int (py_or (dget t ''model_calls_required'') (PInt 0))) (\<lambda>required.
     bindr (py_int (py_or (dget t ''model_calls_avoided'') (PInt 0))) (\<lambda>avoided.
     Inr (dset ''model_calls_not_eliminated'' (PBool (invoked > 0 \<or> required > avoided)) t)))))))"

definition durable_proof ::
  "verdict \<Rightarrow> outcome_args \<Rightarrow> string \<Rightarrow> string \<Rightarrow> string \<Rightarrow> telemetry \<Rightarrow> dict \<Rightarrow> dict res" where
  "durable_proof v oa task_id attempt_id provider tel state =
     (let entries = (case dget state ''model_call_resolutions'' of PList xs \<Rightarrow> xs | _ \<Rightarrow> []);
          entry = dmerge (telemetry_to_dict tel)
            [(''task_id'', PStr task_id), (''attempt_id'', PStr attempt_id), (''provider'', PStr provider),
             (''seam'', PStr WORKER_INVOCATION_SEAM)] in
      bindr (avoidance_totals oa (dict_of (dget state ''model_call_avoidance''))) (\<lambda>totals.
      Inr [(''model_call_resolutions'', PList (entries @ [PDict entry])), (''model_call_avoidance'', PDict totals)]))"

definition record_model_call_outcome ::
  "coordinator \<Rightarrow> string \<Rightarrow> string \<Rightarrow> verdict \<Rightarrow> string \<Rightarrow> outcome_args \<Rightarrow> dict prog" where
  "record_model_call_outcome C task_id attempt_id v provider oa =
     bnd (lift (outcome_record v oa)) (\<lambda>tel.
     bnd (snapshot_or C task_id []) (\<lambda>state.
     bnd (lift (durable_proof v oa task_id attempt_id provider tel state)) (\<lambda>proof_values.
     if co_model_call_gate C = None then ret (dmerge state proof_values)
     else bnd (mutate_metadata C task_id proof_values) (\<lambda>_. snapshot_or C task_id []))))"

section \<open>Consuming a verdict\<close>

definition outcome_required :: outcome_args where
  "outcome_required = \<lparr> oa_outcome = ''MODEL_REQUIRED'', oa_required = 1, oa_invoked = 0, oa_avoided = 0,
     oa_model_avoided = False, oa_resolution = None, oa_reason = None \<rparr>"

text \<open>A resolved verdict whose receipt cannot be used: the model path is kept and the reason recorded.\<close>

definition keep_model_path :: "coordinator \<Rightarrow> string \<Rightarrow> string \<Rightarrow> verdict \<Rightarrow> string \<Rightarrow> string \<Rightarrow> (dict \<times> obj option) prog" where
  "keep_model_path C task_id attempt_id v provider reason =
     bnd (record_model_call_outcome C task_id attempt_id v provider
            (outcome_required\<lparr> oa_resolution := Some INSUFFICIENT_STRUCTURED_STATE,
               oa_reason := Some (reason @ '':existing model path preserved'') \<rparr>)) (\<lambda>_.
     bnd (snapshot_or C task_id []) (\<lambda>state. ret (state, None)))"

text \<open>\<open>int(v or 0)\<close>, one when it is no number; the second form keeps an absent count absent.\<close>

definition claimed_calls :: "pyval \<Rightarrow> int res" where
  "claimed_calls v =
    (case py_int (py_or v (PInt 0)) of
       Inr i \<Rightarrow> Inr i
     | Inl e \<Rightarrow> if fst e = TypeError \<or> is_value_error e then Inr 1 else Inl e)"

definition claimed_attempts :: "pyval \<Rightarrow> int option res" where
  "claimed_attempts v = (if is_none v then Inr None else bindr (claimed_calls v) (\<lambda>i. Inr (Some i)))"

definition usable_receipt :: "obj option \<Rightarrow> obj option" where
  "usable_receipt r = (case r of Some ob \<Rightarrow> if proved_completion ob then Some ob else None | None \<Rightarrow> None)"

definition consume_model_call_verdict ::
  "coordinator \<Rightarrow> verdict \<Rightarrow> string \<Rightarrow> string \<Rightarrow> string \<Rightarrow> (dict \<times> obj option) prog" where
  "consume_model_call_verdict C v task_id attempt_id provider =
    (let resolved = (mv_resolution v = RESOLVED_DETERMINISTICALLY) in
     bnd (record_model_call_outcome C task_id attempt_id v provider
            (if resolved then outcome_required\<lparr> oa_outcome := ''DETERMINISTIC_RESOLVED'', oa_required := 0 \<rparr>
             else outcome_required)) (\<lambda>state.
     if \<not> resolved then ret (state, None)
     else if mv_deterministic_receipt v = []
     then keep_model_path C task_id attempt_id v provider ''deterministic_receipt_missing''
     else
     bnd (catching (receipt_from_state C (PDict (mv_deterministic_receipt v))) (\<lambda>_. ret None)) (\<lambda>receipt.
     case usable_receipt receipt of
       None \<Rightarrow> keep_model_path C task_id attempt_id v provider ''deterministic_receipt_unusable''
     | Some ob \<Rightarrow>
         bnd (lift (claimed_calls (attr_or ob ''provider_calls'' (PInt 0)))) (\<lambda>calls.
         bnd (lift (claimed_attempts (attr_or ob ''provider_attempt_count'' (PInt 0)))) (\<lambda>attempts.
         if calls \<noteq> 0 \<or> (attempts \<noteq> None \<and> attempts \<noteq> Some 0)
         then keep_model_path C task_id attempt_id v provider ''deterministic_receipt_claims_provider_calls''
         else
         bnd (record_model_call_outcome C task_id attempt_id v provider
                (outcome_required\<lparr> oa_outcome := ''MODEL_AVOIDED'', oa_required := 0, oa_avoided := 1,
                   oa_model_avoided := True \<rparr>)) (\<lambda>_.
         bnd (snapshot_or C task_id []) (\<lambda>state'.
         ret (state', Some ob))))))))"

section \<open>Lemmas\<close>

lemma emits_record_bounded_decision_observation [emits_intros]:
  "emits quiet (record_bounded_decision_observation C upstream bounded ss err task_id attempt_id provider)"
  unfolding record_bounded_decision_observation_def Let_def by (intro emits_intros)

lemma emits_record_model_call_outcome [emits_intros]:
  "emits quiet (record_model_call_outcome C task_id attempt_id v provider oa)"
  unfolding record_model_call_outcome_def by (intro emits_intros)

lemma emits_consume_model_call_verdict [emits_intros]:
  "emits quiet (consume_model_call_verdict C v task_id attempt_id provider)"
  unfolding consume_model_call_verdict_def Let_def keep_model_path_def by (intro emits_intros)

text \<open>A receipt that stands for a model call: accepted by the contract port, complete, and free of provider calls.\<close>

definition avoids_model :: "verdict \<Rightarrow> obj \<Rightarrow> trace \<Rightarrow> bool" where
  "avoids_model v ob tr \<longleftrightarrow>
     mv_resolution v = RESOLVED_DETERMINISTICALLY \<and> proved_completion ob \<and>
     Contract (ReceiptFromState (PDict (mv_deterministic_receipt v)) (Inr (Some ob))) \<in> set tr \<and>
     claimed_calls (attr_or ob ''provider_calls'' (PInt 0)) = Inr 0 \<and>
     claimed_attempts (attr_or ob ''provider_attempt_count'' (PInt 0)) \<in> {Inr None, Inr (Some 0)}"

lemma adds_keep_model_path: "adds (keep_model_path C t a v p reason) (\<lambda>r es. snd r = None)"
  unfolding keep_model_path_def
  by (rule adds_bnd_emits [OF emits_record_model_call_outcome], rule adds_bnd_emits [OF emits_calls(2)], rule adds_ret) simp

lemma adds_read_receipt:
  "adds (catching (receipt_from_state C v) (\<lambda>_. ret None))
     (\<lambda>r es. \<forall>ob. r = Some ob \<longrightarrow> Contract (ReceiptFromState v (Inr (Some ob))) \<in> set es)"
  by (auto simp: adds_def act_simps receipt_from_state_def)

lemma adds_consume_model_call_verdict:
  "adds (consume_model_call_verdict C v task_id attempt_id provider)
     (\<lambda>r es. \<forall>ob. snd r = Some ob \<longrightarrow> avoids_model v ob es)"
  unfolding consume_model_call_verdict_def Let_def
  apply (rule adds_bnd_emits [OF emits_record_model_call_outcome], rule adds_if, rule adds_ret, simp)
  apply (rule adds_if, rule adds_mono [OF adds_keep_model_path], simp)
  apply (rule adds_bnd [OF adds_read_receipt], rule adds_option, rule adds_mono [OF adds_keep_model_path], simp)
  apply (rule adds_bnd_lift, rule adds_bnd_lift, rule adds_if, rule adds_mono [OF adds_keep_model_path], simp)
  apply (rule adds_bnd_emits [OF emits_record_model_call_outcome], rule adds_bnd_emits [OF emits_calls(2)], rule adds_ret)
  by (auto simp: avoids_model_def usable_receipt_def split: if_splits option.splits)

end
