(* ===== verification/Coordinator.thy ===== *)
theory Coordinator
  imports Coordinator_Observation
begin

text \<open>
  \<open>BaseExecutionCoordinator\<close> of \<open>execution_coordination/coordinator.py\<close>: the sequencing of one durable
  attempt. \<open>execute_attempt\<close> enters the attempt from its durable status, then alternates between running
  a worker and judging its receipt until the receipt proves completion or no provider is left;
  \<open>run_owned_attempt\<close> turns every exception into a recorded failure; \<open>launch\<close> starts the owner.

  The heartbeat thread only calls the state port on its own; it and the callback that reports the
  worker's process group belong to the environment, as does what a custom runner does through the
  \<open>update\<close> function it is given.
\<close>

section \<open>Numbers of seconds\<close>

fun fnum_of :: "pyfloat \<Rightarrow> fnum" where
  "fnum_of (FFin r _) = Fin r"
| "fnum_of (FInf neg) = Inf neg"
| "fnum_of FNan = Nan"

text \<open>\<open>float(v)\<close>.\<close>

fun seconds :: "(string \<Rightarrow> pyfloat option) \<Rightarrow> pyval \<Rightarrow> fnum res" where
  "seconds parse (PBool b) = Inr (Fin (if b then 1 else 0))"
| "seconds parse (PStr s) = (case parse s of
     Some f \<Rightarrow> Inr (fnum_of f) | None \<Rightarrow> Inl (ValueError, ''could not convert string to float: '' @ repr_str s))"
| "seconds parse v = bindr (to_float v) (\<lambda>f. Inr (fnum_of f))"

fun fnum_less :: "fnum \<Rightarrow> fnum \<Rightarrow> bool" where
  "fnum_less (Fin a) (Fin b) = (a < b)"
| "fnum_less (Fin a) (Inf neg) = (\<not> neg)"
| "fnum_less (Inf neg) (Fin b) = neg"
| "fnum_less (Inf a) (Inf b) = (a \<and> \<not> b)"
| "fnum_less _ _ = False"

text \<open>\<open>min(a, b)\<close> and \<open>a <= 0\<close>.\<close>

definition fnum_min :: "fnum \<Rightarrow> fnum \<Rightarrow> fnum" where
  "fnum_min a b = (if fnum_less b a then b else a)"

definition fnum_nonpos :: "fnum \<Rightarrow> bool" where
  "fnum_nonpos a = (a = Fin 0 \<or> fnum_less a (Fin 0))"

section \<open>State of a run\<close>

record run =
  rn_task_id :: string
  rn_attempt_id :: string
  rn_contract :: obj
  rn_request :: dict
  rn_binding :: "dict option"
  rn_deadline :: "rat option"
  rn_policy :: "string list option"
  rn_fast_lane :: bool
  rn_max_calls :: pyval
  rn_fresh :: bool
  rn_create :: bool
  rn_authorization :: "authorization option"
  rn_recovered :: bool

record loop =
  lp_state :: dict
  lp_status :: string
  lp_lease :: obj
  lp_attempts :: "obj list"
  lp_execution :: cval
  lp_break :: bool

definition lane :: "run \<Rightarrow> string" where
  "lane rn = (if rn_fast_lane rn then ''FAST_LANE'' else ''STANDARD'')"

definition fast_lane_values :: "run \<Rightarrow> cvalues" where
  "fast_lane_values rn =
     [(''execution_lane'', CV (PStr (lane rn))), (''fast_lane_eligible'', CV (PBool (rn_fast_lane rn))),
      (''maximum_provider_calls'', CV (rn_max_calls rn)), (''maximum_replans'', CV (PInt (if rn_fast_lane rn then 0 else 3))),
      (''fallback_disabled'', CV (PBool (rn_fast_lane rn)))]"

definition check_deadline :: "coordinator \<Rightarrow> rat option \<Rightarrow> unit prog" where
  "check_deadline C deadline =
    (case deadline of
       None \<Rightarrow> ret ()
     | Some d \<Rightarrow> bnd (now C) (\<lambda>t. raise_when (t \<ge> d) RuntimeError ''WALL_TIME_BUDGET_EXHAUSTED''))"

section \<open>Choosing providers\<close>

definition boundary :: "coordinator \<Rightarrow> run \<Rightarrow> string \<Rightarrow> unit prog" where
  "boundary C rn provider =
     revalidate_boundary C (rn_contract rn) (rn_request rn) (rn_task_id rn) (rn_binding rn) provider"

primrec select_from :: "coordinator \<Rightarrow> run \<Rightarrow> string list \<Rightarrow> string list \<Rightarrow> (string \<times> obj) prog" where
  "select_from C rn failures [] = raise RuntimeError (''worker preflight failed: '' @ join ''; '' failures)"
| "select_from C rn failures (provider # providers) =
     bnd (boundary C rn provider) (\<lambda>_.
     bnd (preflight C provider) (\<lambda>report.
     bnd (lift (attr report ''ready'')) (\<lambda>ready.
     if truthy ready then ret (provider, report)
     else bnd (lift (attr report ''reason'')) (\<lambda>reason.
          select_from C rn (failures @ [provider @ '': '' @ py_str reason]) providers))))"

definition select_initial_provider :: "coordinator \<Rightarrow> run \<Rightarrow> (string \<times> obj) prog" where
  "select_initial_provider C rn =
     bnd (ask (\<lambda>tr. kp_provider_order (co_contract C) tr (rn_contract rn))
            (\<lambda>r. Contract (ProviderOrder (rn_contract rn) r))) (\<lambda>order.
     bnd (if order \<noteq> [] then ret order
          else bnd (lift (attr (rn_contract rn) ''preferred_provider'')) (\<lambda>p. ret [str_or p ''codex''])) (\<lambda>providers.
     select_from C rn [] providers))"

text \<open>The receipts' providers are compared as they are.\<close>

primrec ready_from :: "coordinator \<Rightarrow> run \<Rightarrow> pyval list \<Rightarrow> string list \<Rightarrow> string option prog" where
  "ready_from C rn attempted [] = ret None"
| "ready_from C rn attempted (provider # providers) =
    (if PStr provider \<in> set attempted then ready_from C rn attempted providers
     else
     bnd (boundary C rn provider) (\<lambda>_.
     bnd (preflight C provider) (\<lambda>report.
     bnd (lift (attr report ''ready'')) (\<lambda>ready.
     if truthy ready then ret (Some provider) else ready_from C rn attempted providers))))"

definition next_ready_provider :: "coordinator \<Rightarrow> run \<Rightarrow> string list \<Rightarrow> obj list \<Rightarrow> string option prog" where
  "next_ready_provider C rn order attempts =
     bnd (lift (map_res (\<lambda>a. attr a ''provider'') attempts)) (\<lambda>attempted.
     bnd (raise_when (\<exists>v \<in> set attempted. \<not> hashable v) TypeError ''unhashable type'') (\<lambda>_.
     ready_from C rn attempted order))"

definition require_ready :: "coordinator \<Rightarrow> string \<Rightarrow> obj prog" where
  "require_ready C provider =
     bnd (preflight C provider) (\<lambda>report.
     bnd (lift (attr report ''ready'')) (\<lambda>ready.
     if truthy ready then ret report
     else bnd (lift (attr report ''reason'')) (\<lambda>reason.
          raise RuntimeError (''worker preflight failed: '' @ py_str reason))))"

section \<open>Running a worker\<close>

text \<open>\<open>str(state.get("active_provider") or ... or contract.preferred_provider or "codex")\<close>.\<close>

definition active_provider :: "run \<Rightarrow> dict \<Rightarrow> pyval \<Rightarrow> string res" where
  "active_provider rn state other =
    (let v = py_or (dget state ''active_provider'') other in
     if truthy v then Inr (py_str v)
     else bindr (attr (rn_contract rn) ''preferred_provider'') (\<lambda>p. Inr (str_or p ''codex'')))"

definition consumed :: "string \<Rightarrow> obj list \<Rightarrow> int res" where
  "consumed field attempts =
     bindr (map_res (\<lambda>a. bindr (attr a field) (\<lambda>v. py_int (py_or v (PInt 0)))) attempts) (\<lambda>ns.
     Inr (sum_list (map (max 0) ns)))"

definition attempt_ceiling :: "obj \<Rightarrow> int res" where
  "attempt_ceiling contract = py_int (py_or (attr_or contract ''maximum_attempts_per_task'' (PInt 1)) (PInt 1))"

text \<open>The configured call budget, and what is left of it and of the attempts; at least one of each.\<close>

definition worker_budget :: "run \<Rightarrow> obj list \<Rightarrow> (int \<times> int \<times> int) res" where
  "worker_budget rn attempts =
     bindr (consumed ''provider_calls'' attempts) (\<lambda>consumed_calls.
     bindr (consumed ''provider_attempt_count'' attempts) (\<lambda>consumed_attempts.
     bindr (py_int (rn_max_calls rn)) (\<lambda>configured.
     bindr (attempt_ceiling (rn_contract rn)) (\<lambda>maximum.
     let remaining_calls = configured - consumed_calls; remaining_attempts = maximum - consumed_attempts in
     bindr (raise_if (remaining_calls \<le> 0) RuntimeError ''maximum_provider_calls aggregate budget exhausted'') (\<lambda>_.
     bindr (raise_if (remaining_attempts \<le> 0) RuntimeError ''maximum_provider_attempts aggregate budget exhausted'') (\<lambda>_.
     Inr (configured, remaining_calls, remaining_attempts)))))))"

definition invoke_contract :: "coordinator \<Rightarrow> run \<Rightarrow> int \<Rightarrow> int \<Rightarrow> obj prog" where
  "invoke_contract C rn configured remaining_calls =
    (case kp_model_copy (co_contract C) (rn_contract rn) of
       Some copy \<Rightarrow>
         if remaining_calls \<noteq> configured
         then ask (\<lambda>tr. copy tr remaining_calls) (\<lambda>r. Contract (ModelCopy (rn_contract rn) remaining_calls r))
         else ret (rn_contract rn)
     | None \<Rightarrow> ret (rn_contract rn))"

definition worker_model :: "run \<Rightarrow> string option res" where
  "worker_model rn =
    (case rn_binding rn of
       Some binding \<Rightarrow>
         bindr (case py_or (dget binding ''canonical_dispatch_envelope'') (PDict []) of
                  PDict envelope \<Rightarrow> Inr envelope
                | v \<Rightarrow> Inl (AttributeError, quoted (type_name v) @ '' object has no attribute '' @ quoted ''get'')) (\<lambda>envelope.
         bindr (dindex binding ''model'') (\<lambda>bound.
         Inr (Some (py_str (dget_default envelope ''model'' bound)))))
     | None \<Rightarrow>
         (let m = strip (str_or (dget (rn_request rn) ''model'') '''') in Inr (if m = [] then None else Some m)))"

definition contract_prompt :: "coordinator \<Rightarrow> run \<Rightarrow> string prog" where
  "contract_prompt C rn =
     ask (\<lambda>tr. kp_prompt (co_contract C) tr (rn_contract rn)) (\<lambda>r. Contract (Prompt (rn_contract rn) r))"

definition worker_prompt :: "coordinator \<Rightarrow> run \<Rightarrow> loop \<Rightarrow> string \<Rightarrow> (string \<times> string option) prog" where
  "worker_prompt C rn lp provider =
     bnd (case kp_base_prompt (co_contract C) of
            Some base \<Rightarrow> ask (\<lambda>tr. base tr (rn_contract rn)) (\<lambda>r. Contract (BasePrompt (rn_contract rn) r))
          | None \<Rightarrow> contract_prompt C rn) (\<lambda>prompt.
     bnd (lift (worker_model rn)) (\<lambda>model.
     bnd (case kp_materialize (co_contract C) of
            Some hook \<Rightarrow>
              ask (\<lambda>tr. hook tr (rn_request rn) (lp_state lp) (rn_task_id rn) (rn_attempt_id rn) (rn_fresh rn)
                         (rn_contract rn) (lp_lease lp) prompt provider model)
                (\<lambda>r. Contract (Materialize (rn_request rn) (lp_state lp) (rn_task_id rn) (rn_attempt_id rn) (rn_fresh rn)
                         (rn_contract rn) (lp_lease lp) prompt provider model r))
          | None \<Rightarrow> ret None) (\<lambda>result.
     bnd (boundary C rn provider) (\<lambda>_.
     bnd (case result of Some (p, _) \<Rightarrow> ret p | None \<Rightarrow> contract_prompt C rn) (\<lambda>final.
     ret (final, model))))))"

definition remaining_timeout :: "coordinator \<Rightarrow> run \<Rightarrow> fnum \<Rightarrow> fnum prog" where
  "remaining_timeout C rn configured =
    (case rn_deadline rn of
       Some d \<Rightarrow> bnd (now C) (\<lambda>t. ret (Fin (max 0 (d - t))))
     | None \<Rightarrow> ret configured)"

text \<open>What the invocation is made of, and the state after the gates.\<close>

record prep =
  pr_provider :: string
  pr_contract :: obj
  pr_prompt :: string
  pr_model :: "string option"
  pr_timeout :: fnum
  pr_projection :: "projection option"
  pr_state :: dict
  pr_remaining_calls :: int
  pr_remaining_attempts :: int

definition prepare_worker :: "coordinator \<Rightarrow> run \<Rightarrow> loop \<Rightarrow> prep prog" where
  "prepare_worker C rn lp =
     bnd (lift (active_provider rn (lp_state lp) PNone)) (\<lambda>provider.
     bnd (assert_dispatch C (lp_state lp) (rn_request rn) (rn_binding rn) (Some provider)) (\<lambda>_.
     bnd (revalidate_task_card C (rn_contract rn) (rn_request rn) (lp_state lp) (rn_binding rn)) (\<lambda>_.
     bnd (lift (worker_budget rn (lp_attempts lp))) (\<lambda>(configured, remaining_calls, remaining_attempts).
     bnd (check_deadline C (rn_deadline rn)) (\<lambda>_.
     bnd (invoke_contract C rn configured remaining_calls) (\<lambda>contract.
     bnd (boundary C rn provider) (\<lambda>_.
     bnd (worker_prompt C rn lp provider) (\<lambda>(prompt, model).
     bnd (lift (seconds (ht_parse_float (co_host C))
            (dget_default (rn_request rn) ''timeout_seconds'' (PFloat (FFin 900 ''900.0''))))) (\<lambda>configured_timeout.
     bnd (remaining_timeout C rn configured_timeout) (\<lambda>left1.
     bnd (raise_when (fnum_nonpos left1) RuntimeError ''WALL_TIME_BUDGET_EXHAUSTED'') (\<lambda>_.
     bnd (host_preparation_required C (rn_contract rn) (rn_request rn)) (\<lambda>host_required.
     bnd (ensure_host_prepared C (rn_task_id rn) (rn_attempt_id rn) (rn_contract rn) (rn_request rn) (lp_lease lp)
            (lp_state lp) provider (rn_fresh rn \<and> lp_attempts lp = [] \<and> is_none (dget (lp_state lp) ''execution''))) (\<lambda>state1.
     bnd (if host_required \<and> rn_deadline rn \<noteq> None
          then bnd (remaining_timeout C rn configured_timeout) (\<lambda>left2.
               bnd (raise_when (fnum_nonpos left2) RuntimeError ''WALL_TIME_BUDGET_EXHAUSTED'') (\<lambda>_. ret left2))
          else ret left1) (\<lambda>left.
     bnd (ensure_tool_projection C (rn_task_id rn) (rn_request rn) state1 (rn_authorization rn) provider (rn_create rn))
       (\<lambda>(state2, projection).
     ret \<lparr> pr_provider = provider, pr_contract = contract, pr_prompt = prompt, pr_model = model,
           pr_timeout = fnum_min configured_timeout left, pr_projection = projection, pr_state = state2,
           pr_remaining_calls = remaining_calls, pr_remaining_attempts = remaining_attempts \<rparr>)))))))))))))))"

text \<open>The gate before the invocation: the verdict, and a receipt when the model call is avoided.\<close>

definition model_gate ::
  "coordinator \<Rightarrow> run \<Rightarrow> prep \<Rightarrow> (trace \<Rightarrow> resolver) \<Rightarrow> (dict \<times> verdict \<times> obj option) prog" where
  "model_gate C rn pr gate =
    (let H = ht_sha256 (co_host C);
         structured = model_call_structured_state H (rn_request rn) (pr_state pr) (rn_task_id rn) (rn_attempt_id rn)
           (pr_provider pr) (pr_model pr) (pr_remaining_calls pr) (pr_remaining_attempts pr) (lane rn) in
     bnd (ask (\<lambda>tr. resolve_model_call_need H (Some (gate tr)) structured WORKER_INVOCATION_SEAM MODEL_NEEDED)
            (\<lambda>r. Gate structured r)) (\<lambda>v.
     bnd (if mv_resolution v = MODEL_NEEDED
          then catching
            (bnd (lift (bounded_observation_state H (rn_request rn) structured v (rn_task_id rn))) (\<lambda>(observed, bounded, err).
             record_bounded_decision_observation C v bounded observed err (rn_task_id rn) (rn_attempt_id rn) (pr_provider pr)))
            (\<lambda>_. snapshot_or C (rn_task_id rn) (pr_state pr))
          else ret (pr_state pr)) (\<lambda>_.
     bnd (consume_model_call_verdict C v (rn_task_id rn) (rn_attempt_id rn) (pr_provider pr)) (\<lambda>(state, receipt).
     ret (state, v, receipt)))))"

definition invocation_of :: "run \<Rightarrow> loop \<Rightarrow> prep \<Rightarrow> invocation" where
  "invocation_of rn lp pr =
     \<lparr> iv_provider = pr_provider pr, iv_contract = pr_contract pr, iv_lease = lp_lease lp, iv_prompt = pr_prompt pr,
       iv_model = pr_model pr, iv_timeout = pr_timeout pr,
       iv_authorization = map_option ea_to_dict (rn_authorization rn),
       iv_projection = map_option tp_to_dict (pr_projection pr) \<rparr>"

definition invoke :: "coordinator \<Rightarrow> invocation \<Rightarrow> obj option prog" where
  "invoke C iv = ask (\<lambda>tr. wp_invoke (co_worker C) tr iv) (\<lambda>r. Worker (Invoke iv r))"

definition invoke_worker :: "coordinator \<Rightarrow> run \<Rightarrow> loop \<Rightarrow> prep \<Rightarrow> verdict option \<Rightarrow> obj option prog" where
  "invoke_worker C rn lp pr v =
     bnd (invoke C (invocation_of rn lp pr)) (\<lambda>receipt.
     bnd (case v of
            Some v \<Rightarrow>
              bnd (record_model_call_outcome C (rn_task_id rn) (rn_attempt_id rn) v (pr_provider pr)
                     (outcome_required\<lparr> oa_outcome := ''MODEL_INVOKED'', oa_required := 0, oa_invoked := 1 \<rparr>)) (\<lambda>_.
              snapshot_or C (rn_task_id rn) [])
          | None \<Rightarrow> ret []) (\<lambda>_.
     ret receipt))"

definition obtain_receipt :: "coordinator \<Rightarrow> run \<Rightarrow> loop \<Rightarrow> prep \<Rightarrow> obj option prog" where
  "obtain_receipt C rn lp pr =
    (case co_model_call_gate C of
       None \<Rightarrow> invoke_worker C rn lp pr None
     | Some gate \<Rightarrow>
         bnd (model_gate C rn pr gate) (\<lambda>(state, v, deterministic).
         case deterministic of
           Some ob \<Rightarrow> ret (Some ob)
         | None \<Rightarrow> invoke_worker C rn lp pr (Some v)))"

text \<open>The receipt is counted against what is left of the budgets before it is recorded.\<close>

definition check_receipt :: "prep \<Rightarrow> obj \<Rightarrow> unit res" where
  "check_receipt pr receipt =
     bindr (bindr (attr receipt ''provider_calls'') py_int) (\<lambda>calls.
     bindr (attr receipt ''provider_attempt_count'') (\<lambda>reported.
     bindr (raise_if (calls < 0 \<or> calls > pr_remaining_calls pr) RuntimeError
              ''provider execution receipt exceeded aggregate call budget'') (\<lambda>_.
     if is_none reported then Inr ()
     else bindr (py_int reported) (\<lambda>n.
          raise_if (n < 0 \<or> n > pr_remaining_attempts pr) RuntimeError
            ''provider execution receipt exceeded aggregate attempt budget''))))"

definition completion_values :: "run \<Rightarrow> loop \<Rightarrow> prep \<Rightarrow> obj \<Rightarrow> cvalues" where
  "completion_values rn lp pr receipt =
     [(''execution'', CObj receipt), (''executions'', CObjs (lp_attempts lp @ [receipt])),
      (''active_provider'', CV (PStr (pr_provider pr)))] @ fast_lane_values rn"

definition record_receipt :: "coordinator \<Rightarrow> run \<Rightarrow> loop \<Rightarrow> prep \<Rightarrow> obj \<Rightarrow> loop prog" where
  "record_receipt C rn lp pr receipt =
     bnd (lift (check_receipt pr receipt)) (\<lambda>_.
     bnd (update C (rn_task_id rn) (rn_attempt_id rn) ''WORKER_COMPLETED'' (completion_values rn lp pr receipt)) (\<lambda>_.
     bnd (snapshot_or C (rn_task_id rn) []) (\<lambda>state.
     ret (lp\<lparr> lp_state := state, lp_status := ''WORKER_COMPLETED'', lp_attempts := lp_attempts lp @ [receipt],
              lp_execution := CObj receipt \<rparr>))))"

definition run_worker :: "coordinator \<Rightarrow> run \<Rightarrow> loop \<Rightarrow> loop prog" where
  "run_worker C rn lp =
     bnd (prepare_worker C rn lp) (\<lambda>pr.
     bnd (obtain_receipt C rn lp pr) (\<lambda>result.
     bnd (check_deadline C (rn_deadline rn)) (\<lambda>_.
     case result of
       None \<Rightarrow> raise RuntimeError ''worker invocation produced no execution receipt''
     | Some receipt \<Rightarrow>
         record_receipt C rn lp pr receipt)))"

section \<open>Judging a receipt\<close>

text \<open>A recorded execution that is not a receipt yet is read by the contract port.\<close>

fun execution_value :: "cval \<Rightarrow> pyval" where
  "execution_value (CV v) = v"
| "execution_value (CObj ob) = PDict ob"
| "execution_value (CObjs obs) = PList (map PDict obs)"

definition latest_receipt :: "coordinator \<Rightarrow> loop \<Rightarrow> obj prog" where
  "latest_receipt C lp =
     bnd (if lp_attempts lp \<noteq> [] then ret (Some (last (lp_attempts lp)))
          else receipt_from_state C (execution_value (lp_execution lp))) (\<lambda>latest.
     case latest of
       None \<Rightarrow> raise RuntimeError ''worker execution receipt is missing common outcome evidence''
     | Some receipt \<Rightarrow> ret receipt)"

definition receipt_completed :: "obj \<Rightarrow> bool res" where
  "receipt_completed receipt =
     bindr (attr receipt ''outcome'') (\<lambda>outcome.
     if outcome = PStr ''EXECUTION_COMPLETED'' then bindr (attr receipt ''evidence_complete'') (\<lambda>v. Inr (truthy v))
     else Inr False)"

text \<open>\<open>RuntimeError(latest.failure_reason or text)\<close>.\<close>

definition failed_with :: "obj \<Rightarrow> string res \<Rightarrow> 'a prog" where
  "failed_with receipt text =
     bnd (lift (attr receipt ''failure_reason'')) (\<lambda>reason.
     if truthy reason then raise RuntimeError (py_str reason)
     else bnd (lift text) (\<lambda>t. raise RuntimeError t))"

definition replace_lease :: "coordinator \<Rightarrow> run \<Rightarrow> obj \<Rightarrow> dict \<Rightarrow> obj prog" where
  "replace_lease C rn lease state =
     ask (\<lambda>tr. tg_replace_failed_lease (co_target C) tr (rn_contract rn) lease state)
       (\<lambda>r. Target (ReplaceLease (rn_contract rn) lease state r))"

text \<open>The provider takes the replaced lease: leased, then running.\<close>

definition start_running :: "coordinator \<Rightarrow> run \<Rightarrow> string \<Rightarrow> obj \<Rightarrow> obj \<Rightarrow> dict prog" where
  "start_running C rn provider lease report =
     bnd (update C (rn_task_id rn) (rn_attempt_id rn) ''TARGET_LEASED''
            [(''lease'', CObj lease), (''worker_preflight'', CObj report), (''active_provider'', CV (PStr provider)),
             (''next_provider'', CV PNone)]) (\<lambda>_.
     bnd (update C (rn_task_id rn) (rn_attempt_id rn) ''WORKER_RUNNING'' [(''active_provider'', CV (PStr provider))]) (\<lambda>_.
     snapshot_or C (rn_task_id rn) []))"

definition lineage_entry :: "run \<Rightarrow> string \<Rightarrow> string \<Rightarrow> string \<Rightarrow> pyval" where
  "lineage_entry rn from_provider to_provider reason =
     PDict [(''from_provider'', PStr from_provider), (''to_provider'', PStr to_provider), (''reason'', PStr reason),
       (''admission_binding_hash'',
          case rn_binding rn of Some b \<Rightarrow> if b = [] then PNone else dget b ''binding_hash'' | None \<Rightarrow> PNone)]"

definition escalate :: "coordinator \<Rightarrow> run \<Rightarrow> loop \<Rightarrow> obj \<Rightarrow> string list \<Rightarrow> string \<Rightarrow> loop prog" where
  "escalate C rn lp latest order reason =
     bnd (next_ready_provider C rn order (lp_attempts lp)) (\<lambda>ready.
     case ready of
       None \<Rightarrow> raise RuntimeError ''no unattempted ready provider remains for escalation''
     | Some provider \<Rightarrow>
       bnd (raise_when (provider = []) RuntimeError ''no unattempted ready provider remains for escalation'') (\<lambda>_.
       bnd (lift (py_iter (py_or (dget (lp_state lp) ''fallback_lineage'') (PList [])))) (\<lambda>lineage.
       bnd (lift (attr latest ''provider'')) (\<lambda>from_provider.
       bnd (update C (rn_task_id rn) (rn_attempt_id rn) ''WORKER_ESCALATING''
              [(''executions'', CObjs (lp_attempts lp)), (''next_provider'', CV (PStr provider)),
               (''escalation_reason'', CV (PStr reason)),
               (''fallback_lineage'', CV (PList (lineage @ [lineage_entry rn (py_str from_provider) provider reason])))]) (\<lambda>_.
       bnd (boundary C rn provider) (\<lambda>_.
       bnd (replace_lease C rn (lp_lease lp) (lp_state lp)) (\<lambda>lease.
       bnd (boundary C rn provider) (\<lambda>_.
       bnd (require_ready C provider) (\<lambda>report.
       bnd (start_running C rn provider lease report) (\<lambda>state.
       ret (lp\<lparr> lp_state := state, lp_status := ''WORKER_RUNNING'', lp_lease := lease \<rparr>)))))))))))"

definition judge_worker :: "coordinator \<Rightarrow> run \<Rightarrow> loop \<Rightarrow> loop prog" where
  "judge_worker C rn lp =
     bnd (latest_receipt C lp) (\<lambda>latest.
     bnd (lift (receipt_completed latest)) (\<lambda>completed.
     if completed then
       (if rn_recovered rn
        then bnd (lift (active_provider rn (lp_state lp) (attr_or latest ''provider'' PNone))) (\<lambda>provider.
             bnd (ensure_host_prepared C (rn_task_id rn) (rn_attempt_id rn) (rn_contract rn) (rn_request rn) (lp_lease lp)
                    (lp_state lp) provider False) (\<lambda>state.
             ret (lp\<lparr> lp_state := state, lp_break := True \<rparr>)))
        else ret (lp\<lparr> lp_break := True \<rparr>))
     else if rn_fast_lane rn then
       failed_with latest (bindr (attr latest ''outcome'') (\<lambda>v.
         Inr (''Fast Lane provider execution failed with outcome '' @ py_str v @ ''; escalation/fallback disabled'')))
     else
     bnd (case rn_policy rn of
            None \<Rightarrow> ret None
          | Some order \<Rightarrow> bnd (lift (decide order (lp_attempts lp))) (\<lambda>d. ret (Some (order, d)))) (\<lambda>decision.
     case decision of
       None \<Rightarrow> failed_with latest (bindr (attr latest ''outcome'') (\<lambda>v. Inr (''worker execution did not complete: '' @ py_str v)))
     | Some (order, d) \<Rightarrow>
         if ed_action d = VERIFY then ret (lp\<lparr> lp_break := True \<rparr>)
         else if ed_action d \<noteq> ESCALATE_TO \<or> ed_next_provider d = None \<or> ed_next_provider d = Some []
         then failed_with latest (bindr (attr latest ''outcome'') (\<lambda>v. Inr (''worker execution did not complete: '' @ py_str v)))
         else escalate C rn lp latest order (ed_reason d))))"

section \<open>The loop\<close>

definition looping :: "loop \<Rightarrow> bool" where
  "looping lp = (\<not> lp_break lp \<and> (lp_status lp = ''WORKER_RUNNING'' \<or> lp_status lp = ''WORKER_COMPLETED''))"

definition iteration :: "coordinator \<Rightarrow> run \<Rightarrow> loop \<Rightarrow> loop prog" where
  "iteration C rn lp = (if lp_status lp = ''WORKER_RUNNING'' then run_worker C rn lp else judge_worker C rn lp)"

section \<open>Entering an attempt\<close>

text \<open>The lease of an attempt that starts from a submitted task.\<close>

definition enter_submitted :: "coordinator \<Rightarrow> run \<Rightarrow> dict \<Rightarrow> (obj \<times> dict) prog" where
  "enter_submitted C rn state =
     bnd (assert_dispatch C state (rn_request rn) (rn_binding rn) None) (\<lambda>_.
     bnd (revalidate_task_card C (rn_contract rn) (rn_request rn) state (rn_binding rn)) (\<lambda>_.
     bnd (select_initial_provider C rn) (\<lambda>(provider, report).
     bnd (perf_counter C) (\<lambda>started.
     bnd (ask (\<lambda>tr. tg_initial_lease (co_target C) tr (rn_contract rn) state)
            (\<lambda>r. Target (InitialLease (rn_contract rn) state r))) (\<lambda>lease.
     bnd (perf_counter C) (\<lambda>ended.
     bnd (update C (rn_task_id rn) (rn_attempt_id rn) ''TARGET_LEASED''
            ([(''lease'', CObj lease), (''worker_preflight'', CObj report), (''active_provider'', CV (PStr provider)),
              (''telemetry'', CV (PDict [(''worktree_time_ms'', PInt (max 0 \<lfloor>(ended - started) * 1000\<rfloor>))]))]
             @ fast_lane_values rn)) (\<lambda>_.
     bnd (update C (rn_task_id rn) (rn_attempt_id rn) ''WORKER_RUNNING''
            ((''active_provider'', CV (PStr provider)) # fast_lane_values rn)) (\<lambda>_.
     bnd (snapshot_or C (rn_task_id rn) []) (\<lambda>state'.
     ret (lease, state'))))))))))"

definition lease_from_state :: "coordinator \<Rightarrow> dict \<Rightarrow> obj prog" where
  "lease_from_state C state = ask (\<lambda>tr. tg_lease_from_state (co_target C) tr state) (\<lambda>r. Target (LeaseFromState state r))"

text \<open>An escalation that was interrupted is resumed with the provider it recorded.\<close>

definition enter_escalating :: "coordinator \<Rightarrow> run \<Rightarrow> dict \<Rightarrow> (obj \<times> dict) prog" where
  "enter_escalating C rn state =
     bnd (raise_when (rn_fast_lane rn) RuntimeError ''Fast Lane escalation is forbidden'') (\<lambda>_.
     bnd (lease_from_state C state) (\<lambda>old.
     let provider = str_or (dget state ''next_provider'') '''' in
     bnd (raise_when (provider = []) RuntimeError ''escalation state is missing next_provider'') (\<lambda>_.
     bnd (assert_dispatch C state (rn_request rn) (rn_binding rn) (Some provider)) (\<lambda>_.
     bnd (revalidate_task_card C (rn_contract rn) (rn_request rn) state (rn_binding rn)) (\<lambda>_.
     bnd (replace_lease C rn old state) (\<lambda>lease.
     bnd (boundary C rn provider) (\<lambda>_.
     bnd (require_ready C provider) (\<lambda>report.
     bnd (start_running C rn provider lease report) (\<lambda>state'.
     ret (lease, state'))))))))))"

definition enter_status :: "coordinator \<Rightarrow> run \<Rightarrow> dict \<Rightarrow> string \<Rightarrow> (obj \<times> dict \<times> string) prog" where
  "enter_status C rn state status =
    (if status = ''SUBMITTED''
     then bnd (enter_submitted C rn state) (\<lambda>(lease, state'). ret (lease, state', ''WORKER_RUNNING''))
     else if status = ''WORKER_ESCALATING''
     then bnd (enter_escalating C rn state) (\<lambda>(lease, state'). ret (lease, state', ''WORKER_RUNNING''))
     else if status = ''TARGET_LEASED''
     then raise RuntimeError ''worker lost before execution receipt; recovery is fail-closed''
     else bnd (lease_from_state C state) (\<lambda>lease. ret (lease, state, status)))"

datatype entry = Early dict | Entered run loop

definition escalation_policy :: "coordinator \<Rightarrow> obj \<Rightarrow> string list option prog" where
  "escalation_policy C contract =
     bnd (lift (attr contract ''preferred_provider'')) (\<lambda>preferred.
     if \<not> truthy preferred then ret None
     else bnd (lift (attr contract ''fallback_provider'')) (\<lambda>fallback.
     if \<not> truthy fallback then ret None
     else bnd (ask (\<lambda>tr. kp_escalation_order (co_contract C) tr contract) (\<lambda>r. Contract (EscalationOrder contract r)))
            (\<lambda>order. ret (Some order))))"

definition recorded_attempts :: "coordinator \<Rightarrow> dict \<Rightarrow> obj list prog" where
  "recorded_attempts C state =
     bnd (lift (py_iter (py_or (dget state ''executions'') (PList [])))) (\<lambda>raws.
     bnd (map_act (receipt_from_state C) raws) (\<lambda>receipts.
     ret (map the (filter (\<lambda>r. r \<noteq> None) receipts))))"

text \<open>The checks before an attempt is entered; they end with the run's fixed values and the receipts so far.\<close>

definition admit_attempt ::
  "coordinator \<Rightarrow> string \<Rightarrow> string \<Rightarrow> obj \<Rightarrow> dict \<Rightarrow> (run \<times> dict \<times> string \<times> obj list) prog" where
  "admit_attempt C task_id attempt_id contract request =
     bnd (snapshot_or C task_id []) (\<lambda>state0.
     bnd (ask (\<lambda>tr. kp_deadline (co_contract C) tr contract (dget state0 ''submitted_at''))
            (\<lambda>r. Contract (Deadline contract (dget state0 ''submitted_at'') r))) (\<lambda>deadline.
     bnd (check_deadline C deadline) (\<lambda>_.
     let status = py_str (dget state0 ''status'');
         create = (status = ''SUBMITTED'' \<and> \<not> truthy (dget state0 ''executions'') \<and> is_none (dget state0 ''execution'')) in
     bnd (ensure_effect_authorization C task_id attempt_id request state0 create) (\<lambda>(state, authorization).
     bnd (ask (\<lambda>tr. kp_provider_binding (co_contract C) tr request state) (\<lambda>r. Contract (ProviderBinding request state r))) (\<lambda>binding.
     bnd (assert_dispatch C state request binding None) (\<lambda>_.
     bnd (revalidate_task_card C contract request state binding) (\<lambda>_.
     bnd (escalation_policy C contract) (\<lambda>policy.
     bnd (recorded_attempts C state) (\<lambda>attempts.
     bnd (lift (attempt_ceiling contract)) (\<lambda>maximum.
     bnd (lift (py_len (py_or (dget state ''attempts'') (PTuple [])))) (\<lambda>n.
     bnd (raise_when (n > maximum) RuntimeError ''ATTEMPT_BUDGET_EXHAUSTED'') (\<lambda>_.
     bnd (ask (\<lambda>tr. kp_fast_lane_eligible (co_contract C) tr contract request) (\<lambda>r. Contract (FastLane contract request r))) (\<lambda>fast.
     bnd (lift (if fast then Inr (PInt 1) else attr contract ''maximum_provider_calls'')) (\<lambda>max_calls.
     ret (\<lparr> rn_task_id = task_id, rn_attempt_id = attempt_id, rn_contract = contract, rn_request = request,
            rn_binding = binding, rn_deadline = deadline, rn_policy = policy, rn_fast_lane = fast,
            rn_max_calls = max_calls, rn_fresh = (status = ''SUBMITTED''), rn_create = create,
            rn_authorization = authorization, rn_recovered = (status = ''WORKER_COMPLETED'') \<rparr>,
          state, status, attempts)))))))))))))))"

definition enter_attempt :: "coordinator \<Rightarrow> run \<times> dict \<times> string \<times> obj list \<Rightarrow> entry prog" where
  "enter_attempt C admitted =
    (case admitted of (rn, state, status, attempts) \<Rightarrow>
     bnd (enter_status C rn state status) (\<lambda>(lease, state', status').
     bnd (lift (attr lease ''target_worktree'')) (\<lambda>worktree.
     bnd (ask (\<lambda>tr. kp_validate_static (co_contract C) tr (rn_contract rn) worktree)
            (\<lambda>r. Contract (ValidateStatic (rn_contract rn) worktree r))) (\<lambda>_.
     ret (Entered rn \<lparr> lp_state = state', lp_status = status', lp_lease = lease, lp_attempts = attempts,
            lp_execution = CV (dget state' ''execution''), lp_break = False \<rparr>)))))"

definition build_contract :: "coordinator \<Rightarrow> pyval \<Rightarrow> obj prog" where
  "build_contract C request = ask (\<lambda>tr. kp_build_contract (co_contract C) tr request) (\<lambda>r. Contract (BuildContract request r))"

definition begin_attempt :: "coordinator \<Rightarrow> string \<Rightarrow> string \<Rightarrow> obj option \<Rightarrow> pyval \<Rightarrow> entry prog" where
  "begin_attempt C task_id attempt_id contract request =
     bnd (snapshot C task_id) (\<lambda>found.
     case found of
       None \<Rightarrow> ret (Early [])
     | Some state \<Rightarrow>
       if str_or (dget state ''attempt_id'') '''' \<noteq> attempt_id then ret (Early state)
       else
       let chosen = (if is_none request then dget state ''request'' else request) in
       bnd (raise_when (\<not> is_mapping chosen) RuntimeError ''durable request is missing'') (\<lambda>_.
       bnd (case contract of Some c \<Rightarrow> ret c | None \<Rightarrow> build_contract C chosen) (\<lambda>c.
       bnd (admit_attempt C task_id attempt_id c (dict_of chosen)) (\<lambda>admitted.
       enter_attempt C admitted))))"

definition finalize_completed :: "coordinator \<Rightarrow> run \<Rightarrow> loop \<Rightarrow> dict prog" where
  "finalize_completed C rn lp =
     ask (\<lambda>tr. fp_finalize_completed (co_finalization C) tr (rn_contract rn) (rn_request rn) (lp_lease lp) (lp_state lp)
            (lp_attempts lp) (lp_execution lp) (lp_status lp))
       (\<lambda>r. Finalization (FinalizeCompleted (rn_contract rn) (rn_request rn) (lp_lease lp) (lp_state lp)
            (lp_attempts lp) (lp_execution lp) (lp_status lp) r))"

text \<open>\<open>execute_attempt\<close>: \<open>None\<close> when the loop never ends.\<close>

definition execute_attempt ::
  "coordinator \<Rightarrow> string \<Rightarrow> string \<Rightarrow> obj option \<Rightarrow> pyval \<Rightarrow> trace \<Rightarrow> (dict res \<times> trace) option" where
  "execute_attempt C task_id attempt_id contract request tr =
    (case begin_attempt C task_id attempt_id contract request tr of
       (Inl e, tr1) \<Rightarrow> Some (Inl e, tr1)
     | (Inr (Early d), tr1) \<Rightarrow> Some (Inr d, tr1)
     | (Inr (Entered rn lp), tr1) \<Rightarrow>
         (case loop_act looping (iteration C rn) lp tr1 of
            None \<Rightarrow> None
          | Some (Inl e, tr2) \<Rightarrow> Some (Inl e, tr2)
          | Some (Inr lp', tr2) \<Rightarrow> Some (finalize_completed C rn lp' tr2)))"

section \<open>Owning an attempt\<close>

definition terminal :: "coordinator \<Rightarrow> pyval \<Rightarrow> bool res" where
  "terminal C status =
     bindr (raise_if (\<not> hashable status) TypeError (''unhashable type: '' @ quoted (type_name status))) (\<lambda>_.
     Inr (\<exists>s \<in> set (fp_terminal_statuses (co_finalization C)). status = PStr s))"

text \<open>The status of a successful attempt, unless the attempt has recorded a terminal one.\<close>

definition conclude :: "coordinator \<Rightarrow> string \<Rightarrow> string \<Rightarrow> dict \<Rightarrow> unit prog" where
  "conclude C task_id attempt_id result =
     bnd (snapshot_or C task_id []) (\<lambda>current.
     bnd (lift (terminal C (dget current ''status''))) (\<lambda>ended.
     if ended then ret ()
     else bnd (update C task_id attempt_id
                (if dget result ''promotion_status'' = PStr ''PENDING_HUMAN_APPROVAL'' then ''PENDING_HUMAN_APPROVAL''
                 else ''CANDIDATE_COMMITTED'') (map (\<lambda>(k, v). (k, CV v)) result)) (\<lambda>_. ret ())))"

definition record_failure :: "coordinator \<Rightarrow> string \<Rightarrow> string \<Rightarrow> exn \<Rightarrow> unit prog" where
  "record_failure C task_id attempt_id exc =
     bnd (ask (\<lambda>tr. op_terminate_owned (co_processes C) tr task_id (ht_pid (co_host C)))
            (\<lambda>r. Process (TerminateOwned task_id (ht_pid (co_host C)) r))) (\<lambda>_.
     ask (\<lambda>tr. fp_finalize_failure (co_finalization C) tr task_id attempt_id exc)
       (\<lambda>r. Finalization (FinalizeFailure task_id attempt_id exc r)))"

definition bound_values :: "coordinator \<Rightarrow> dict \<Rightarrow> dict prog" where
  "bound_values C values =
     ask (\<lambda>tr. fp_bound_values (co_finalization C) tr values) (\<lambda>r. Finalization (BoundValues values r))"

text \<open>
  A custom runner is a function of the host that is handed the callback \<open>update\<close>. What it does is the tree of
  its calls of that callback: it returns or raises, or it calls \<open>update\<close> with a status and values and goes
  on with what that call returned or raised.
\<close>

datatype plan = Finish "dict res" | Step string dict "unit res \<Rightarrow> plan"

type_synonym runner = "trace \<Rightarrow> obj \<Rightarrow> dict \<Rightarrow> plan"

definition custom_update :: "coordinator \<Rightarrow> string \<Rightarrow> string \<Rightarrow> string \<Rightarrow> dict \<Rightarrow> unit prog" where
  "custom_update C task_id attempt_id status values =
     bnd (bound_values C values) (\<lambda>bounded.
     bnd (update C task_id attempt_id status (map (\<lambda>(k, v). (k, CV v)) bounded)) (\<lambda>_. ret ()))"

primrec run_plan :: "coordinator \<Rightarrow> string \<Rightarrow> string \<Rightarrow> plan \<Rightarrow> dict prog" where
  "run_plan C task_id attempt_id (Finish r) = lift r"
| "run_plan C task_id attempt_id (Step status values continue) =
     (\<lambda>tr. case custom_update C task_id attempt_id status values tr of
        (r, tr') \<Rightarrow> run_plan C task_id attempt_id (continue r) tr')"

definition custom_runner_result :: "coordinator \<Rightarrow> string \<Rightarrow> string \<Rightarrow> obj \<Rightarrow> dict \<Rightarrow> runner \<Rightarrow> dict prog" where
  "custom_runner_result C task_id attempt_id contract request runner =
     (\<lambda>tr. run_plan C task_id attempt_id (runner tr contract request) (tr @ [Custom contract request]))"

text \<open>A custom runner performs effects too: it runs behind the same authorization gate.\<close>

definition run_custom :: "coordinator \<Rightarrow> string \<Rightarrow> string \<Rightarrow> dict \<Rightarrow> pyval \<Rightarrow> obj \<Rightarrow> runner \<Rightarrow> dict prog" where
  "run_custom C task_id attempt_id state request contract runner =
     bnd (lift (case request of PDict d \<Rightarrow> Inr d
                | v \<Rightarrow> Inl (AttributeError, quoted (type_name v) @ '' object has no attribute '' @ quoted ''get''))) (\<lambda>rq.
     bnd (ensure_effect_authorization C task_id attempt_id rq state
            (py_str (dget state ''status'') = ''SUBMITTED'' \<and> \<not> truthy (dget state ''executions'') \<and>
             is_none (dget state ''execution''))) (\<lambda>_.
     bnd (custom_runner_result C task_id attempt_id contract rq runner) (\<lambda>result.
     bound_values C result)))"

definition attempt_result ::
  "coordinator \<Rightarrow> string \<Rightarrow> string \<Rightarrow> dict \<Rightarrow> runner option \<Rightarrow> trace \<Rightarrow> (dict res \<times> trace) option" where
  "attempt_result C task_id attempt_id state custom_runner tr =
    (case bnd (lift (dindex state ''request'')) (\<lambda>request.
          bnd (build_contract C request) (\<lambda>contract. ret (request, contract))) tr of
       (Inl e, tr1) \<Rightarrow> Some (Inl e, tr1)
     | (Inr (request, contract), tr1) \<Rightarrow>
         (case custom_runner of
            None \<Rightarrow> execute_attempt C task_id attempt_id (Some contract) request tr1
          | Some runner \<Rightarrow> Some (run_custom C task_id attempt_id state request contract runner tr1)))"

definition run_owned_attempt ::
  "coordinator \<Rightarrow> string \<Rightarrow> string \<Rightarrow> runner option \<Rightarrow> trace \<Rightarrow> (unit res \<times> trace) option" where
  "run_owned_attempt C task_id attempt_id custom_runner tr =
    (case snapshot C task_id tr of
       (Inl e, tr1) \<Rightarrow> Some (Inl e, tr1)
     | (Inr None, tr1) \<Rightarrow> Some (Inr (), tr1)
     | (Inr (Some state), tr1) \<Rightarrow>
        (if dget state ''attempt_id'' \<noteq> PStr attempt_id \<or>
            \<not> (is_none (dget state ''worker_pid'') \<or> py_eq (dget state ''worker_pid'') (PInt (ht_pid (co_host C))))
         then Some (Inr (), tr1)
         else
         (case attempt_result C task_id attempt_id state custom_runner tr1 of
            None \<Rightarrow> None
          | Some (Inl e, tr2) \<Rightarrow> Some (record_failure C task_id attempt_id e tr2)
          | Some (Inr result, tr2) \<Rightarrow>
              Some (catching (conclude C task_id attempt_id result) (record_failure C task_id attempt_id) tr2))))"

section \<open>Launching\<close>

definition worker_identity :: "pyval \<Rightarrow> pyval \<Rightarrow> string \<Rightarrow> string \<Rightarrow> string \<Rightarrow> dict" where
  "worker_identity pid pgid mode started heartbeat =
     [(''worker_pid'', pid), (''worker_pgid'', pgid), (''worker_mode'', PStr mode),
      (''worker_started_at'', PStr started), (''heartbeat_at'', PStr heartbeat)]"

definition now_text :: "coordinator \<Rightarrow> string prog" where
  "now_text C = ask (\<lambda>tr. op_utc_now (co_processes C) tr) (\<lambda>r. Process (NowText r))"

definition launch_thread :: "coordinator \<Rightarrow> string \<Rightarrow> string \<Rightarrow> dict option prog" where
  "launch_thread C task_id attempt_id =
     bnd (ask (\<lambda>tr. op_create_thread (co_processes C) tr task_id attempt_id)
            (\<lambda>r. Process (CreateThread task_id attempt_id r))) (\<lambda>thread.
     bnd (ask (\<lambda>tr. op_register_thread (co_processes C) tr task_id thread)
            (\<lambda>r. Process (RegisterThread task_id thread r))) (\<lambda>_.
     bnd (now_text C) (\<lambda>started.
     bnd (now_text C) (\<lambda>heartbeat.
     bnd (mutate_metadata C task_id (worker_identity (PInt (ht_pid (co_host C))) (PInt (ht_pgid (co_host C)))
            ''thread'' started heartbeat)) (\<lambda>_.
     bnd (ask (\<lambda>tr. op_start_thread (co_processes C) tr thread) (\<lambda>r. Process (StartThread thread r))) (\<lambda>_.
     snapshot C task_id))))))"

definition launch_process :: "coordinator \<Rightarrow> string \<Rightarrow> string \<Rightarrow> string \<Rightarrow> string \<Rightarrow> dict option prog" where
  "launch_process C task_id attempt_id state_dir source_root =
     bnd (ask (\<lambda>tr. op_worker_command (co_processes C) tr state_dir task_id attempt_id)
            (\<lambda>r. Process (WorkerCommand state_dir task_id attempt_id r))) (\<lambda>command.
     bnd (ask (\<lambda>tr. op_start_process (co_processes C) tr command source_root)
            (\<lambda>r. Process (StartProcess command source_root r))) (\<lambda>process.
     bnd (lift (attr process ''pid'')) (\<lambda>pid.
     bnd (now_text C) (\<lambda>started.
     bnd (now_text C) (\<lambda>heartbeat.
     bnd (mutate_metadata C task_id
            (worker_identity pid (attr_or process ''pgid'' PNone) ''process'' started heartbeat)) (\<lambda>d.
     ret (Some d)))))))"

definition launch :: "coordinator \<Rightarrow> string \<Rightarrow> string \<Rightarrow> string \<Rightarrow> bool \<Rightarrow> string \<Rightarrow> dict option prog" where
  "launch C task_id attempt_id state_dir custom source_root =
     bnd (snapshot C task_id) (\<lambda>found.
     case found of
       None \<Rightarrow> ret None
     | Some state \<Rightarrow>
       if str_or (dget state ''attempt_id'') '''' \<noteq> attempt_id then ret (Some state)
       else
       bnd (if truthy (dget state ''worker_pid'')
            then bnd (lift (py_int (dget state ''worker_pid''))) (\<lambda>pid.
                 ask (\<lambda>tr. op_pid_alive (co_processes C) tr pid) (\<lambda>r. Process (PidAlive pid r)))
            else ret False) (\<lambda>alive.
       if alive then ret (Some state)
       else if custom then launch_thread C task_id attempt_id
       else launch_process C task_id attempt_id state_dir source_root))"

end
