(* ===== verification/Coordinator_Safety.thy ===== *)
theory Coordinator_Safety
  imports Coordinator
begin

text \<open>
  What holds of every attempt, whatever the ports answer: no worker is invoked without the checks that
  the code promises, the budgets are never exceeded, the fast lane runs at most one worker and never
  escalates, the durable statuses follow one order, the loop ends, and a failure is recorded.
\<close>

section \<open>The calls of each part\<close>

fun is_invoke :: "event \<Rightarrow> bool" where
  "is_invoke (Worker (Invoke _ _)) = True"
| "is_invoke _ = False"

fun is_checkpoint :: "event \<Rightarrow> bool" where
  "is_checkpoint (State (Checkpoint _ _ _ _ _)) = True"
| "is_checkpoint _ = False"

lemma quiet_not_invoke [simp]: "quiet e \<Longrightarrow> \<not> is_invoke e"
  and quiet_not_checkpoint [simp]: "quiet e \<Longrightarrow> \<not> is_checkpoint e"
  by (cases e rule: quiet.cases; simp)+

lemma emits_check_deadline [emits_intros]: "emits quiet (check_deadline C d)"
  unfolding check_deadline_def by (intro emits_intros)

lemma emits_boundary [emits_intros]: "emits quiet (boundary C rn provider)"
  unfolding boundary_def by (intro emits_intros)

lemma emits_select_from [emits_intros]: "emits quiet (select_from C rn failures providers)"
  by (induction providers arbitrary: failures; simp only: select_from.simps; intro emits_intros; (rule)?)

lemma emits_select_initial_provider [emits_intros]: "emits quiet (select_initial_provider C rn)"
  unfolding select_initial_provider_def by (intro emits_intros) auto

lemma emits_ready_from [emits_intros]: "emits quiet (ready_from C rn attempted providers)"
  by (induction providers; simp only: ready_from.simps; intro emits_intros; assumption?)

lemma emits_next_ready_provider [emits_intros]: "emits quiet (next_ready_provider C rn order attempts)"
  unfolding next_ready_provider_def by (intro emits_intros)

lemma emits_require_ready [emits_intros]: "emits quiet (require_ready C provider)"
  unfolding require_ready_def by (intro emits_intros)

lemma emits_invoke_contract [emits_intros]: "emits quiet (invoke_contract C rn configured remaining)"
  unfolding invoke_contract_def by (intro emits_intros) auto

lemma emits_contract_prompt [emits_intros]: "emits quiet (contract_prompt C rn)"
  unfolding contract_prompt_def by (intro emits_intros) auto

lemma emits_worker_prompt [emits_intros]: "emits quiet (worker_prompt C rn lp provider)"
  unfolding worker_prompt_def by (intro emits_intros) auto

lemma emits_remaining_timeout [emits_intros]: "emits quiet (remaining_timeout C rn configured)"
  unfolding remaining_timeout_def by (intro emits_intros)

lemma emits_prepare_worker [emits_intros]: "emits quiet (prepare_worker C rn lp)"
  unfolding prepare_worker_def by (intro emits_intros)

lemma emits_model_gate [emits_intros]: "emits quiet (model_gate C rn pr gate)"
  unfolding model_gate_def Let_def by (intro emits_intros) auto

lemma emits_replace_lease [emits_intros]: "emits quiet (replace_lease C rn lease state)"
  unfolding replace_lease_def by (intro emits_intros) auto

lemma emits_lease_from_state [emits_intros]: "emits quiet (lease_from_state C state)"
  unfolding lease_from_state_def by (intro emits_intros) auto

lemma emits_latest_receipt [emits_intros]: "emits quiet (latest_receipt C lp)"
  unfolding latest_receipt_def by (intro emits_intros)

lemma emits_failed_with [emits_intros]: "emits K (failed_with receipt text)"
  unfolding failed_with_def by (intro emits_intros)

lemma emits_build_contract [emits_intros]: "emits quiet (build_contract C request)"
  unfolding build_contract_def by (intro emits_intros) auto

lemma emits_recorded_attempts [emits_intros]: "emits quiet (recorded_attempts C state)"
  unfolding recorded_attempts_def by (intro emits_intros)

lemma emits_escalation_policy [emits_intros]: "emits quiet (escalation_policy C contract)"
  unfolding escalation_policy_def by (intro emits_intros) auto

lemma emits_admit_attempt [emits_intros]: "emits quiet (admit_attempt C task_id attempt_id contract request)"
  unfolding admit_attempt_def by (intro emits_intros) auto

section \<open>What precedes an invocation\<close>

text \<open>The clock has been read, before the deadline.\<close>

definition in_time :: "rat option \<Rightarrow> event list \<Rightarrow> bool" where
  "in_time deadline es = (case deadline of None \<Rightarrow> True | Some d \<Rightarrow> \<exists>t. Clock (Now (Inr t)) \<in> set es \<and> t < d)"

text \<open>The timeout does not reach beyond the deadline, by some reading of the clock.\<close>

definition timeout_fits :: "rat option \<Rightarrow> fnum \<Rightarrow> event list \<Rightarrow> bool" where
  "timeout_fits deadline timeout es =
    (case deadline of None \<Rightarrow> True
     | Some d \<Rightarrow> \<exists>t. Clock (Now (Inr t)) \<in> set es \<and> t < d \<and> \<not> fnum_less (Fin (d - t)) timeout)"

definition boundary_checked :: "run \<Rightarrow> string \<Rightarrow> event list \<Rightarrow> bool" where
  "boundary_checked rn provider es \<longleftrightarrow>
     Contract (RevalidateBoundary (rn_contract rn) (rn_request rn) (rn_task_id rn) (rn_binding rn) provider (Inr ())) \<in> set es"

lemma event_list_mono:
  "in_time d es \<Longrightarrow> set es \<subseteq> set es' \<Longrightarrow> in_time d es'"
  "timeout_fits d timeout es \<Longrightarrow> set es \<subseteq> set es' \<Longrightarrow> timeout_fits d timeout es'"
  "boundary_checked rn provider es \<Longrightarrow> set es \<subseteq> set es' \<Longrightarrow> boundary_checked rn provider es'"
  by (auto simp: in_time_def timeout_fits_def boundary_checked_def split: option.splits)

lemma adds_check_deadline: "adds (check_deadline C d) (\<lambda>_. in_time d)"
  by (auto simp: adds_def check_deadline_def in_time_def act_simps now_def split: option.splits)

lemma adds_boundary: "adds (boundary C rn provider) (\<lambda>_. boundary_checked rn provider)"
  by (auto simp: adds_def boundary_def boundary_checked_def revalidate_boundary_def)

lemma fnum_min_not_above: "\<not> fnum_less b (fnum_min a b)"
proof (cases "fnum_less b a")
  case True
  have "\<not> fnum_less b b" by (cases b) auto
  with True show ?thesis by (simp add: fnum_min_def)
qed (simp add: fnum_min_def)

definition timeout_left :: "run \<Rightarrow> fnum \<Rightarrow> event list \<Rightarrow> bool" where
  "timeout_left rn left es =
    (case rn_deadline rn of None \<Rightarrow> True | Some d \<Rightarrow> \<exists>t. Clock (Now (Inr t)) \<in> set es \<and> left = Fin (max 0 (d - t)))"

lemma adds_remaining_timeout: "adds (remaining_timeout C rn configured) (timeout_left rn)"
  by (auto simp: adds_def remaining_timeout_def timeout_left_def act_simps now_def split: option.splits)

lemma timeout_left_fits:
  assumes "timeout_left rn left es" and "\<not> fnum_nonpos left" and "set es \<subseteq> set es'"
  shows "timeout_fits (rn_deadline rn) (fnum_min configured left) es'"
proof (cases "rn_deadline rn")
  case (Some d)
  with assms(1) obtain t where t: "Clock (Now (Inr t)) \<in> set es" "left = Fin (max 0 (d - t))"
    by (auto simp: timeout_left_def)
  with assms(2) have "t < d" by (auto simp: fnum_nonpos_def max_def split: if_splits)
  with t have "left = Fin (d - t)" by simp
  then show ?thesis using t(1) \<open>t < d\<close> assms(3) fnum_min_not_above [of left configured] Some
    by (auto simp: timeout_fits_def)
qed (simp add: timeout_fits_def)

text \<open>The final timeout: the second reading replaces the first when the host had to be prepared.\<close>

lemma adds_second_timeout:
  assumes "timeout_left rn left1 es1" and "\<not> fnum_nonpos left1"
  shows "adds (if b then bnd (remaining_timeout C rn configured) (\<lambda>left2.
               bnd (raise_when (fnum_nonpos left2) RuntimeError msg) (\<lambda>_. ret left2)) else ret left1)
     (\<lambda>left es. timeout_fits (rn_deadline rn) (fnum_min configured left) (es1 @ es))"
proof (cases b)
  case True
  have "adds (bnd (remaining_timeout C rn configured) (\<lambda>left2.
      bnd (raise_when (fnum_nonpos left2) RuntimeError msg) (\<lambda>_. ret left2)))
      (\<lambda>left es. timeout_fits (rn_deadline rn) (fnum_min configured left) (es1 @ es))"
    unfolding raise_when_def
    by (rule adds_bnd [OF adds_remaining_timeout], rule adds_bnd_lift, rule adds_ret)
      (auto simp: raise_if_eq_Inr intro: timeout_left_fits)
  with True show ?thesis by simp
next
  case False
  then show ?thesis using timeout_left_fits [OF assms] by (auto intro!: adds_ret)
qed

definition prepared :: "coordinator \<Rightarrow> run \<Rightarrow> loop \<Rightarrow> prep \<Rightarrow> event list \<Rightarrow> bool" where
  "prepared C rn lp pr es \<longleftrightarrow>
     (\<exists>configured. worker_budget rn (lp_attempts lp) = Inr (configured, pr_remaining_calls pr, pr_remaining_attempts pr)) \<and>
     boundary_checked rn (pr_provider pr) es \<and> in_time (rn_deadline rn) es \<and>
     timeout_fits (rn_deadline rn) (pr_timeout pr) es \<and>
     (case rn_authorization rn of None \<Rightarrow> pr_projection pr = None
      | Some a \<Rightarrow> \<exists>p. pr_projection pr = Some p \<and> projected C a p)"

lemma adds_prepare_worker: "adds (prepare_worker C rn lp) (prepared C rn lp)"
  unfolding prepare_worker_def
  apply (rule adds_bnd_lift)
  apply (rule adds_bnd_emits [OF emits_calls(7)], rule adds_bnd_emits [OF emits_calls(8)])
  apply (rule adds_bnd_lift, rule adds_prod, rule adds_prod)
  apply (rule adds_bnd [OF adds_check_deadline], rule adds_bnd_emits [OF emits_invoke_contract])
  apply (rule adds_bnd [OF adds_boundary], rule adds_bnd_emits [OF emits_worker_prompt], rule adds_prod)
  apply (rule adds_bnd_lift, rule adds_bnd [OF adds_remaining_timeout], rule adds_bnd_raise_when)
  apply (rule adds_bnd_emits [OF emits_host_preparation_required], rule adds_bnd_emits [OF emits_ensure_host_prepared])
  apply (rule adds_bnd [OF adds_second_timeout], assumption, assumption)
  apply (rule adds_bnd [OF adds_ensure_tool_projection], rule adds_prod, rule adds_ret)
  by (auto simp: prepared_def intro: event_list_mono split: option.splits)

section \<open>The shape of an iteration\<close>

text \<open>After the preparation the only invocation is the prepared one.\<close>

definition only_invocation :: "invocation \<Rightarrow> event \<Rightarrow> bool" where
  "only_invocation iv e = (case e of Worker (Invoke iv' _) \<Rightarrow> iv' = iv | Finalization _ \<Rightarrow> False | Custom _ _ \<Rightarrow> False | _ \<Rightarrow> True)"

lemma quiet_only_invocation: "quiet e \<Longrightarrow> only_invocation iv e"
  by (cases e rule: quiet.cases) (auto simp: only_invocation_def)

lemma emits_update [emits_intros]: "(\<And>r. K (State (Checkpoint task_id status values attempt_id r))) \<Longrightarrow>
    emits K (update C task_id attempt_id status values)"
  by (simp add: update_def emits_intros)

lemma emits_invoke_worker: "emits (only_invocation (invocation_of rn lp pr)) (invoke_worker C rn lp pr v)"
  unfolding invoke_worker_def invoke_def
  by (intro emits_intros emits_mono [OF emits_record_model_call_outcome quiet_only_invocation]
      emits_mono [OF emits_calls(2) quiet_only_invocation]) (simp add: only_invocation_def)

lemma emits_obtain_receipt: "emits (only_invocation (invocation_of rn lp pr)) (obtain_receipt C rn lp pr)"
  unfolding obtain_receipt_def
  by (intro emits_intros emits_invoke_worker emits_mono [OF emits_model_gate quiet_only_invocation])

text \<open>What \<open>run_worker\<close> does after its preparation.\<close>

definition finish_worker :: "coordinator \<Rightarrow> run \<Rightarrow> loop \<Rightarrow> prep \<Rightarrow> loop prog" where
  "finish_worker C rn lp pr =
     bnd (obtain_receipt C rn lp pr) (\<lambda>result.
     bnd (check_deadline C (rn_deadline rn)) (\<lambda>_.
     case result of
       None \<Rightarrow> raise RuntimeError ''worker invocation produced no execution receipt''
     | Some receipt \<Rightarrow>
         record_receipt C rn lp pr receipt))"

lemma run_worker_unfold: "run_worker C rn lp = bnd (prepare_worker C rn lp) (finish_worker C rn lp)"
  unfolding run_worker_def finish_worker_def ..

lemma emits_finish_worker: "emits (only_invocation (invocation_of rn lp pr)) (finish_worker C rn lp pr)"
  unfolding finish_worker_def record_receipt_def
  by (intro emits_intros emits_obtain_receipt emits_mono [OF emits_check_deadline quiet_only_invocation]
      emits_mono [OF emits_calls(2) quiet_only_invocation]) (auto simp: only_invocation_def)

text \<open>Entering and judging write checkpoints but never invoke a worker.\<close>

definition no_worker :: "event \<Rightarrow> bool" where
  "no_worker e = (case e of Worker (Invoke _ _) \<Rightarrow> False | Finalization _ \<Rightarrow> False | Custom _ _ \<Rightarrow> False | _ \<Rightarrow> True)"

lemma quiet_no_worker: "quiet e \<Longrightarrow> no_worker e"
  by (cases e rule: quiet.cases) (auto simp: no_worker_def)

lemma no_worker_checkpoint [simp]: "no_worker (State c)"
  by (simp add: no_worker_def)

lemmas quiet_parts = emits_calls emits_check_deadline emits_boundary emits_select_initial_provider emits_next_ready_provider
  emits_require_ready emits_replace_lease emits_lease_from_state emits_latest_receipt emits_ensure_host_prepared
  emits_prepare_worker emits_model_gate emits_record_model_call_outcome emits_admit_attempt emits_build_contract

lemmas no_worker_parts = quiet_parts [THEN emits_mono, OF quiet_no_worker]

lemma emits_start_running: "emits no_worker (start_running C rn provider lease report)"
  unfolding start_running_def by (intro emits_intros no_worker_parts) auto

lemma emits_judge_worker: "emits no_worker (judge_worker C rn lp)"
  unfolding judge_worker_def escalate_def by (intro emits_intros no_worker_parts emits_start_running) auto

lemma emits_enter_status: "emits no_worker (enter_status C rn state status)"
  unfolding enter_status_def enter_submitted_def enter_escalating_def Let_def
  by (intro emits_intros no_worker_parts emits_start_running) (auto simp: no_worker_def)

section \<open>At most one invocation per iteration\<close>

lemma quiet_no_invoke: "quiet e \<Longrightarrow> \<not> is_invoke e" by simp

lemma no_worker_no_invoke: "no_worker e \<Longrightarrow> \<not> is_invoke e"
  by (cases e rule: is_invoke.cases) (auto simp: no_worker_def)

lemmas no_invoke_parts = quiet_parts [THEN emits_mono, OF quiet_no_invoke]

lemma limited_invoke_worker: "limited is_invoke (Suc 0) (invoke_worker C rn lp pr v)"
  unfolding invoke_worker_def invoke_def
  by (rule limited_emits_bnd [OF limited_ask]) (intro emits_intros no_invoke_parts)

lemma limited_obtain_receipt: "limited is_invoke (Suc 0) (obtain_receipt C rn lp pr)"
proof (cases "co_model_call_gate C")
  case None
  then show ?thesis by (simp add: obtain_receipt_def limited_invoke_worker)
next
  case (Some gate)
  show ?thesis
    unfolding obtain_receipt_def Some option.case
    by (rule limited_bnd_emits [OF emits_mono [OF emits_model_gate quiet_no_invoke]])
      (auto split: prod.split option.split intro: limited_invoke_worker limited_mono [OF limited_emits] emits_ret)
qed

lemma limited_finish_worker: "limited is_invoke (Suc 0) (finish_worker C rn lp pr)"
  unfolding finish_worker_def record_receipt_def
  by (rule limited_emits_bnd [OF limited_obtain_receipt]) (intro emits_intros no_invoke_parts, auto)

lemma run_worker_shape:
  assumes "run_worker C rn lp tr = (r, tr')"
  shows "(\<exists>es. tr' = tr @ es \<and> (\<forall>e \<in> set es. quiet e)) \<or>
    (\<exists>pr es fs. tr' = tr @ es @ fs \<and> prepared C rn lp pr es \<and> (\<forall>e \<in> set es. quiet e) \<and>
       (\<forall>e \<in> set fs. only_invocation (invocation_of rn lp pr) e) \<and> length (filter is_invoke fs) \<le> 1)"
proof -
  obtain p tr1 where p: "prepare_worker C rn lp tr = (p, tr1)" by (cases "prepare_worker C rn lp tr")
  obtain es where es: "tr1 = tr @ es" "\<forall>e \<in> set es. quiet e" using emitsD [OF emits_prepare_worker p] .
  show ?thesis
  proof (cases p)
    case (Inl e)
    with assms p have "tr' = tr1" by (simp add: run_worker_unfold bnd_def)
    with es show ?thesis by blast
  next
    case (Inr pr)
    with assms p have fin: "finish_worker C rn lp pr tr1 = (r, tr')" by (simp add: run_worker_unfold bnd_def)
    from addsD [OF adds_prepare_worker p [unfolded Inr]] es(1) have "prepared C rn lp pr es" by force
    moreover obtain fs where fs: "tr' = tr1 @ fs" "\<forall>e \<in> set fs. only_invocation (invocation_of rn lp pr) e"
      using emitsD [OF emits_finish_worker fin] .
    moreover have "length (filter is_invoke fs) \<le> 1"
      using limitedD [OF limited_finish_worker fin] fs(1) by force
    ultimately show ?thesis using es by (metis append_assoc)
  qed
qed

section \<open>Every invocation is guarded\<close>

text \<open>
  The checks of one invocation, made since the previous one: the provider boundary was revalidated for
  the provider that is invoked, and the timeout stays within the deadline by a reading of the clock.
\<close>

definition checked_since :: "run \<Rightarrow> invocation \<Rightarrow> event list \<Rightarrow> bool" where
  "checked_since rn iv pre \<longleftrightarrow>
     (\<exists>before since. pre = before @ since \<and> (\<forall>e \<in> set since. \<not> is_invoke e) \<and>
        boundary_checked rn (iv_provider iv) since \<and> timeout_fits (rn_deadline rn) (iv_timeout iv) since)"

text \<open>
  The gate of the effect authorization on the snapshot the attempt was admitted with, the one whose submission
  time gave the deadline: without an authorization none is required by the coordinator and none is requested by
  the request or recorded in that snapshot.
\<close>

definition found_state :: "dict option \<Rightarrow> dict" where
  "found_state found = (case found of None \<Rightarrow> [] | Some x \<Rightarrow> x)"

definition gated ::
  "coordinator \<Rightarrow> string \<Rightarrow> string \<Rightarrow> obj \<Rightarrow> dict \<Rightarrow> rat option \<Rightarrow> authorization option \<Rightarrow> event list \<Rightarrow> bool" where
  "gated C task_id attempt_id contract request deadline au es \<longleftrightarrow>
     (\<exists>found. State (ReadSnapshot task_id (Inr found)) \<in> set es \<and>
        Contract (Deadline contract (dget (found_state found) ''submitted_at'') (Inr deadline)) \<in> set es \<and>
        (case au of
           None \<Rightarrow> \<not> co_require_effect_authority C \<and> \<not> effect_authorization_requested request (found_state found)
         | Some a \<Rightarrow> authorized C attempt_id request a es))"

lemma gated_mono:
  assumes "gated C task_id attempt_id contract request deadline au es" and "set es \<subseteq> set es'"
  shows "gated C task_id attempt_id contract request deadline au es'"
  using assms unfolding gated_def by (cases au) (auto intro: authorized_mono)

text \<open>
  The request and the contract of a run are the ones the attempt was started with; without a request it is that
  of the snapshot of the attempt.
\<close>

definition started_with :: "obj option \<Rightarrow> pyval \<Rightarrow> run \<Rightarrow> event list \<Rightarrow> bool" where
  "started_with contract request rn es \<longleftrightarrow>
     (\<forall>c. contract = Some c \<longrightarrow> rn_contract rn = c) \<and>
     (\<exists>state. State (ReadSnapshot (rn_task_id rn) (Inr (Some state))) \<in> set es \<and>
        str_or (dget state ''attempt_id'') '''' = rn_attempt_id rn \<and>
        PDict (rn_request rn) = (if is_none request then dget state ''request'' else request))"

text \<open>What the run was entered with.\<close>

definition entered :: "coordinator \<Rightarrow> obj option \<Rightarrow> pyval \<Rightarrow> run \<Rightarrow> event list \<Rightarrow> bool" where
  "entered C contract request rn es \<longleftrightarrow>
     started_with contract request rn es \<and>
     (\<exists>w. Contract (ValidateStatic (rn_contract rn) w (Inr ())) \<in> set es) \<and>
     gated C (rn_task_id rn) (rn_attempt_id rn) (rn_contract rn) (rn_request rn) (rn_deadline rn) (rn_authorization rn) es"

text \<open>An invocation carries the run's authorization and a projection of it, or neither.\<close>

definition carries :: "coordinator \<Rightarrow> run \<Rightarrow> invocation \<Rightarrow> bool" where
  "carries C rn iv \<longleftrightarrow>
     iv_authorization iv = map_option ea_to_dict (rn_authorization rn) \<and>
     (case rn_authorization rn of
        None \<Rightarrow> iv_projection iv = None
      | Some a \<Rightarrow> \<exists>p. iv_projection iv = Some (tp_to_dict p) \<and> projected C a p)"

definition guarded :: "coordinator \<Rightarrow> obj option \<Rightarrow> pyval \<Rightarrow> run \<Rightarrow> event list \<Rightarrow> bool" where
  "guarded C co rq rn es \<longleftrightarrow>
     (\<forall>pre iv r post. es = pre @ Worker (Invoke iv r) # post \<longrightarrow> entered C co rq rn pre \<and> checked_since rn iv pre \<and> carries C rn iv)"

lemma guarded_append:
  assumes "guarded C co rq rn es"
    and "\<And>pre iv r post. fs = pre @ Worker (Invoke iv r) # post \<Longrightarrow>
      entered C co rq rn (es @ pre) \<and> checked_since rn iv (es @ pre) \<and> carries C rn iv"
  shows "guarded C co rq rn (es @ fs)"
  unfolding guarded_def
proof (intro allI impI)
  fix pre iv r post
  assume split: "es @ fs = pre @ Worker (Invoke iv r) # post"
  show "entered C co rq rn pre \<and> checked_since rn iv pre \<and> carries C rn iv"
  proof (cases "length pre < length es")
    case True
    with split have "es = pre @ Worker (Invoke iv r) # drop (Suc (length pre)) es"
      by (metis append_eq_append_conv_if id_take_nth_drop leD less_or_eq_imp_le nth_append nth_append_length)
    with assms(1) show ?thesis unfolding guarded_def by blast
  next
    case False
    with split have "es = take (length es) pre" and fs: "fs = drop (length es) pre @ Worker (Invoke iv r) # post"
      by (auto simp: append_eq_append_conv_if)
    then have "pre = es @ drop (length es) pre" by (metis append_take_drop_id)
    with assms(2) [OF fs] show ?thesis by simp
  qed
qed

lemma guarded_quiet: "guarded C co rq rn es \<Longrightarrow> \<forall>e \<in> set fs. \<not> is_invoke e \<Longrightarrow> guarded C co rq rn (es @ fs)"
  by (rule guarded_append) auto

lemma entered_mono: "entered C co rq rn es \<Longrightarrow> set es \<subseteq> set es' \<Longrightarrow> entered C co rq rn es'"
  unfolding entered_def started_with_def by (blast intro: gated_mono)

lemma prepared_carries: "prepared C rn lp pr es \<Longrightarrow> carries C rn (invocation_of rn lp pr)"
  by (auto simp: prepared_def carries_def invocation_of_def split: option.splits)

lemma run_worker_guarded:
  assumes "run_worker C rn lp (base @ es) = (r, tr')" and "guarded C co rq rn es" and "entered C co rq rn es"
  shows "\<exists>es'. tr' = base @ es @ es' \<and> guarded C co rq rn (es @ es')"
  using run_worker_shape [OF assms(1)]
proof (elim disjE exE conjE)
  fix fs
  assume "tr' = (base @ es) @ fs" "\<forall>e \<in> set fs. quiet e"
  with guarded_quiet [OF assms(2)] show ?thesis by auto
next
  fix pr fs gs
  assume tr': "tr' = (base @ es) @ fs @ gs" and pr: "prepared C rn lp pr fs" and fs: "\<forall>e \<in> set fs. quiet e"
    and gs: "\<forall>e \<in> set gs. only_invocation (invocation_of rn lp pr) e" "length (filter is_invoke gs) \<le> 1"
  have "guarded C co rq rn ((es @ fs) @ gs)"
  proof (rule guarded_append)
    show "guarded C co rq rn (es @ fs)" using guarded_quiet [OF assms(2)] fs by auto
    fix pre iv rc post
    assume split: "gs = pre @ Worker (Invoke iv rc) # post"
    with gs(1) have iv: "iv = invocation_of rn lp pr" by (auto simp: only_invocation_def)
    from split gs(2) have "filter is_invoke pre = []" by simp
    then have "\<forall>e \<in> set (fs @ pre). \<not> is_invoke e" using fs by (auto simp: filter_empty_conv)
    moreover have "boundary_checked rn (iv_provider iv) (fs @ pre)" "timeout_fits (rn_deadline rn) (iv_timeout iv) (fs @ pre)"
      using pr by (auto simp: prepared_def iv invocation_of_def intro: event_list_mono)
    ultimately have "checked_since rn iv ((es @ fs) @ pre)" unfolding checked_since_def by (metis append_assoc)
    moreover have "entered C co rq rn ((es @ fs) @ pre)" using assms(3) by (rule entered_mono) auto
    ultimately show "entered C co rq rn ((es @ fs) @ pre) \<and> checked_since rn iv ((es @ fs) @ pre) \<and> carries C rn iv"
      using prepared_carries [OF pr] by (simp add: iv)
  qed
  with tr' show ?thesis by auto
qed

definition sound :: "coordinator \<Rightarrow> obj option \<Rightarrow> pyval \<Rightarrow> run \<Rightarrow> trace \<Rightarrow> trace \<Rightarrow> bool" where
  "sound C co rq rn base tr \<longleftrightarrow> (\<exists>es. tr = base @ es \<and> guarded C co rq rn es \<and> entered C co rq rn es)"

lemma iteration_sound: "triple (sound C co rq rn base) (iteration C rn lp) (\<lambda>_. sound C co rq rn base) (\<lambda>_. sound C co rq rn base)"
proof (cases "lp_status lp = ''WORKER_RUNNING''")
  case True
  have "sound C co rq rn base tr'" if s: "sound C co rq rn base tr" and run: "run_worker C rn lp tr = (r, tr')" for tr r tr'
  proof -
    from s obtain es where es: "tr = base @ es" "guarded C co rq rn es" "entered C co rq rn es" by (auto simp: sound_def)
    from run_worker_guarded [OF run [unfolded es(1)] es(2,3)] entered_mono [OF es(3)] show ?thesis
      by (auto simp: sound_def)
  qed
  with True show ?thesis by (auto simp: iteration_def intro!: tripleI)
next
  case False
  have "sound C co rq rn base (tr @ [e])" if "sound C co rq rn base tr" "no_worker e" for tr e
  proof -
    from that(1) obtain es where es: "tr = base @ es" "guarded C co rq rn es" "entered C co rq rn es" by (auto simp: sound_def)
    have "guarded C co rq rn (es @ [e])" using guarded_quiet [OF es(2), of "[e]"] no_worker_no_invoke [OF that(2)] by simp
    moreover have "entered C co rq rn (es @ [e])" using es(3) by (rule entered_mono) auto
    ultimately show ?thesis by (auto simp: sound_def es(1))
  qed
  with False show ?thesis by (auto simp: iteration_def intro!: triple_emits [OF emits_judge_worker])
qed

definition admission_ok :: "coordinator \<Rightarrow> string \<Rightarrow> string \<Rightarrow> obj \<Rightarrow> dict \<Rightarrow> run \<Rightarrow> event list \<Rightarrow> bool" where
  "admission_ok C task_id attempt_id contract request rn es \<longleftrightarrow>
     rn_task_id rn = task_id \<and> rn_attempt_id rn = attempt_id \<and> rn_request rn = request \<and> rn_contract rn = contract \<and>
     Contract (FastLane contract request (Inr (rn_fast_lane rn))) \<in> set es \<and>
     (if rn_fast_lane rn then rn_max_calls rn = PInt 1
      else attr contract ''maximum_provider_calls'' = Inr (rn_max_calls rn)) \<and>
     gated C task_id attempt_id contract request (rn_deadline rn) (rn_authorization rn) es"

lemma adds_snapshot_found:
  "adds (snapshot_or C task_id []) (\<lambda>s es. \<exists>found. es = [State (ReadSnapshot task_id (Inr found))] \<and> s = found_state found)"
  unfolding snapshot_or_def snapshot_def
  by (rule adds_bnd_ask, rule adds_ret) (auto simp: found_state_def split: option.splits)

lemma adds_admit_attempt:
  "adds (admit_attempt C task_id attempt_id contract request) (\<lambda>r. admission_ok C task_id attempt_id contract request (fst r))"
  unfolding admit_attempt_def
  apply (rule adds_bnd [OF adds_snapshot_found], rule adds_bnd_ask, rule adds_bnd_emits [OF emits_check_deadline])
  apply (rule adds_Let, rule adds_Let, rule adds_bnd [OF adds_ensure_effect_authorization], rule adds_prod, rule adds_bnd_ask)
  apply (rule adds_bnd_emits [OF emits_calls(7)], rule adds_bnd_emits [OF emits_calls(8)])
  apply (rule adds_bnd_emits [OF emits_escalation_policy], rule adds_bnd_emits [OF emits_recorded_attempts])
  apply (rule adds_bnd_lift, rule adds_bnd_lift, rule adds_bnd_raise_when, rule adds_bnd_ask, rule adds_bnd_lift, rule adds_ret)
  by (fastforce simp: admission_ok_def gated_def split: option.splits if_splits intro: authorized_mono)

lemma emits_enter_attempt: "emits no_worker (enter_attempt C x)"
  unfolding enter_attempt_def by (intro emits_intros emits_enter_status) (auto simp: no_worker_def)

lemma emits_begin_attempt: "emits no_worker (begin_attempt C task_id attempt_id contract request)"
  unfolding begin_attempt_def Let_def
  by (intro emits_intros emits_enter_attempt no_worker_parts)

text \<open>The run of an attempt belongs to the task and attempt asked for.\<close>

definition entry_ok ::
  "coordinator \<Rightarrow> string \<Rightarrow> string \<Rightarrow> obj option \<Rightarrow> pyval \<Rightarrow> entry \<Rightarrow> event list \<Rightarrow> bool" where
  "entry_ok C task_id attempt_id co rq x es =
    (case x of
       Early _ \<Rightarrow> True
     | Entered rn lp \<Rightarrow>
         rn_task_id rn = task_id \<and> rn_attempt_id rn = attempt_id \<and> entered C co rq rn es \<and> \<not> lp_break lp \<and>
         Contract (FastLane (rn_contract rn) (rn_request rn) (Inr (rn_fast_lane rn))) \<in> set es \<and>
         (if rn_fast_lane rn then rn_max_calls rn = PInt 1
          else attr (rn_contract rn) ''maximum_provider_calls'' = Inr (rn_max_calls rn)))"

lemma adds_enter_attempt:
  "adds (enter_attempt C (rn, state, status, attempts))
     (\<lambda>x es. \<exists>lp w. x = Entered rn lp \<and> \<not> lp_break lp \<and> lp_attempts lp = attempts \<and>
        Contract (ValidateStatic (rn_contract rn) w (Inr ())) \<in> set es)"
  unfolding enter_attempt_def prod.case
  by (rule adds_bnd_emits [OF emits_enter_status], rule adds_prod, rule adds_prod, rule adds_bnd_lift, rule adds_bnd_ask,
      rule adds_ret) auto

lemma entry_ok_mono: "entry_ok C task_id attempt_id co rq x es \<Longrightarrow> set es \<subseteq> set es' \<Longrightarrow> entry_ok C task_id attempt_id co rq x es'"
  by (auto simp: entry_ok_def intro: entered_mono split: entry.splits)

lemma adds_admit_and_enter:
  assumes "State (ReadSnapshot task_id (Inr (Some state))) \<in> set bs" "str_or (dget state ''attempt_id'') '''' = attempt_id"
    and "PDict request = (if is_none rq then dget state ''request'' else rq)" and "\<And>c. co = Some c \<Longrightarrow> contract = c"
  shows "adds (bnd (admit_attempt C task_id attempt_id contract request) (enter_attempt C))
    (\<lambda>x es. entry_ok C task_id attempt_id co rq x (bs @ es))"
proof (rule adds_bnd [OF adds_admit_attempt])
  fix x :: "run \<times> dict \<times> string \<times> obj list" and es
  assume adm: "admission_ok C task_id attempt_id contract request (fst x) es"
  obtain rn state status attempts where x: "x = (rn, state, status, attempts)" by (cases x)
  have adm': "gated C task_id attempt_id contract request (rn_deadline rn) (rn_authorization rn) (bs @ es @ fs)" for fs
    by (rule gated_mono [of _ _ _ _ _ _ _ es]) (use adm x in \<open>auto simp: admission_ok_def\<close>)
  show "adds (enter_attempt C x) (\<lambda>y fs. entry_ok C task_id attempt_id co rq y (bs @ es @ fs))"
    unfolding x
  proof (rule adds_mono [OF adds_enter_attempt])
    fix y fs
    assume "\<exists>lp w. y = Entered rn lp \<and> \<not> lp_break lp \<and> lp_attempts lp = attempts \<and>
      Contract (ValidateStatic (rn_contract rn) w (Inr ())) \<in> set fs"
    then obtain lp w where y: "y = Entered rn lp" "\<not> lp_break lp"
      and w: "Contract (ValidateStatic (rn_contract rn) w (Inr ())) \<in> set fs" by blast
    have "started_with co rq rn (bs @ es @ fs)"
      using assms adm x by (auto simp: started_with_def admission_ok_def)
    then have "entered C co rq rn (bs @ es @ fs)" using adm' [of fs] adm x w by (auto simp: entered_def admission_ok_def)
    with y adm x show "entry_ok C task_id attempt_id co rq y (bs @ es @ fs)" by (auto simp: entry_ok_def admission_ok_def)
  qed
qed

lemma adds_begin_attempt:
  "adds (begin_attempt C task_id attempt_id contract request) (entry_ok C task_id attempt_id contract request)"
  unfolding begin_attempt_def Let_def snapshot_def
  apply (rule adds_bnd_ask, rule adds_option, rule adds_ret, simp add: entry_ok_def)
  apply (rule adds_if, rule adds_ret, simp add: entry_ok_def)
  apply (rule adds_bnd_raise_when)
  subgoal for found state
    apply (rule adds_bnd [where P = "\<lambda>c es. \<forall>c'. contract = Some c' \<longrightarrow> c = c'"])
     apply (cases contract; simp add: build_contract_def adds_ret adds_ask)
    apply (rule adds_mono [OF adds_admit_and_enter [where bs = "[State (ReadSnapshot task_id (Inr (Some state)))]"
             and co = contract and rq = request and state = state]])
    by (auto elim: entry_ok_mono is_mapping.elims split: if_split_asm)
  done

lemma execute_attempt_sound:
  assumes "execute_attempt C task_id attempt_id contract request tr = Some (r, tr')"
  shows "(\<exists>es. tr' = tr @ es \<and> (\<forall>e \<in> set es. no_worker e)) \<or>
    (\<exists>rn es. rn_task_id rn = task_id \<and> rn_attempt_id rn = attempt_id \<and> tr' = tr @ es \<and> guarded C contract request rn es \<and> entered C contract request rn es)"
proof -
  obtain b tr1 where b: "begin_attempt C task_id attempt_id contract request tr = (b, tr1)"
    by (cases "begin_attempt C task_id attempt_id contract request tr")
  obtain es where es: "tr1 = tr @ es" "\<forall>e \<in> set es. no_worker e" using emitsD [OF emits_begin_attempt b] .
  show ?thesis
  proof (cases "\<exists>rn lp. b = Inr (Entered rn lp)")
    case True
    then obtain rn lp where rn: "b = Inr (Entered rn lp)" by blast
    from addsD [OF adds_begin_attempt b [unfolded rn]] es(1) have ok: "entry_ok C task_id attempt_id contract request (Entered rn lp) es"
      by force
    have "guarded C contract request rn []" by (simp add: guarded_def)
    then have "guarded C contract request rn es" using guarded_quiet [of C contract request rn "[]" es] es(2) no_worker_no_invoke by auto
    with ok have start: "sound C contract request rn tr tr1" by (auto simp: sound_def es(1) entry_ok_def)
    from assms b rn obtain q tr2 where q: "loop_act looping (iteration C rn) lp tr1 = Some (q, tr2)"
      and fin: "case q of Inl e \<Rightarrow> tr' = tr2 | Inr lp' \<Rightarrow> (r, tr') = finalize_completed C rn lp' tr2"
      by (auto simp: execute_attempt_def split: option.splits sum.splits)
    from loop_act_invariant [OF q start iteration_sound] have "sound C contract request rn tr tr2" by (auto split: sum.splits)
    then obtain fs where fs: "tr2 = tr @ fs" "guarded C contract request rn fs" "entered C contract request rn fs" by (auto simp: sound_def)
    have "\<exists>gs. tr' = tr @ gs \<and> guarded C contract request rn gs \<and> entered C contract request rn gs"
    proof (cases q)
      case (Inl e)
      with fin fs show ?thesis by auto
    next
      case (Inr lp')
      with fin obtain e where "tr' = tr2 @ [e]" "\<not> is_invoke e" by (auto simp: finalize_completed_def)
      moreover then have "guarded C contract request rn (fs @ [e])" using guarded_quiet [OF fs(2), of "[e]"] by simp
      moreover have "entered C contract request rn (fs @ [e])" using fs(3) by (rule entered_mono) auto
      ultimately show ?thesis by (auto simp: fs(1))
    qed
    with ok show ?thesis by (auto simp: entry_ok_def)
  next
    case False
    with assms b have "tr' = tr1" by (auto simp: execute_attempt_def split: sum.splits entry.splits)
    with es show ?thesis by blast
  qed
qed

section \<open>Sample coordinator\<close>

text \<open>A worker that completes at once, behind ports that accept everything.\<close>

definition sample_run_state :: dict where
  "sample_run_state = [(''attempt_id'', PStr ''a''), (''status'', PStr ''SUBMITTED''), (''request'', PDict [])]"

definition sample_run_receipt :: obj where
  "sample_run_receipt = [(''outcome'', PStr ''EXECUTION_COMPLETED''), (''evidence_complete'', PBool True),
     (''provider'', PStr ''codex''), (''provider_calls'', PInt 1), (''provider_attempt_count'', PInt 1),
     (''failure_reason'', PNone)]"

definition sample_contract :: obj where
  "sample_contract = [(''preferred_provider'', PStr ''codex''), (''fallback_provider'', PStr ''strong''),
     (''maximum_provider_calls'', PInt 3), (''maximum_attempts_per_task'', PInt 3)]"

definition sample_host :: host where
  "sample_host = \<lparr> ht_time = (\<lambda>tr. of_nat (length tr)), ht_perf_counter = (\<lambda>tr. of_nat (length tr)), ht_utcnow = (\<lambda>tr. 5),
     ht_sha256 = sample_hash, ht_calendar = sample_calendar, ht_parse_float = (\<lambda>s. None), ht_pid = 7, ht_pgid = 7 \<rparr>"

definition sample_contract_port :: "bool \<Rightarrow> contract_port" where
  "sample_contract_port fast =
     \<lparr> kp_build_contract = (\<lambda>tr v. Inr sample_contract), kp_deadline = (\<lambda>tr c v. Inr (Some 1000)),
       kp_provider_binding = (\<lambda>tr r s. Inr None), kp_assert_dispatch = (\<lambda>tr s r b p. Inr ()),
       kp_revalidate_task_card = (\<lambda>tr c r s b. Inr ()), kp_revalidate_boundary = (\<lambda>tr c r t b p. Inr ()),
       kp_escalation_order = (\<lambda>tr c. Inr [''codex'', ''strong'']), kp_provider_order = (\<lambda>tr c. Inr [''codex'']),
       kp_receipt_from_state = (\<lambda>tr v. Inr (case v of PDict d \<Rightarrow> Some d | _ \<Rightarrow> None)),
       kp_fast_lane_eligible = (\<lambda>tr c r. Inr fast), kp_validate_static = (\<lambda>tr c w. Inr ()),
       kp_prompt = (\<lambda>tr c. Inr ''go''), kp_base_prompt = None, kp_materialize = None,
       kp_host_preparation_required = None, kp_model_copy = (\<lambda>c. None) \<rparr>"

definition sample_coordinator :: "bool \<Rightarrow> (trace \<Rightarrow> invocation \<Rightarrow> obj option res) \<Rightarrow> coordinator" where
  "sample_coordinator fast work =
     \<lparr> co_state = \<lparr> sp_read_snapshot = (\<lambda>tr t. Inr (Some sample_run_state)),
                    sp_checkpoint = (\<lambda>tr t s v a. Inr []), sp_mutate_metadata = (\<lambda>tr t v. Inr []) \<rparr>,
       co_contract = sample_contract_port fast,
       co_worker = \<lparr> wp_preflight = (\<lambda>tr p. Inr [(''ready'', PBool True)]), wp_invoke = work \<rparr>,
       co_target = \<lparr> tg_initial_lease = (\<lambda>tr c s. Inr [(''target_worktree'', PStr ''w'')]),
                     tg_lease_from_state = (\<lambda>tr s. Inr [(''target_worktree'', PStr ''w'')]),
                     tg_replace_failed_lease = (\<lambda>tr c l s. Inr l) \<rparr>,
       co_processes = \<lparr> op_terminate_owned = (\<lambda>tr t p. Inr ()), op_pid_alive = (\<lambda>tr p. Inr False),
                        op_create_thread = (\<lambda>tr t a. Inr []), op_register_thread = (\<lambda>tr t th. Inr ()),
                        op_start_thread = (\<lambda>tr th. Inr ()), op_utc_now = (\<lambda>tr. Inr ''now''),
                        op_worker_command = (\<lambda>tr d t a. Inr [''run'']), op_start_process = (\<lambda>tr c r. Inr [(''pid'', PInt 8)]) \<rparr>,
       co_finalization = \<lparr> fp_terminal_statuses = [''CANDIDATE_COMMITTED''],
                           fp_finalize_completed = (\<lambda>tr c r l s a e st. Inr []),
                           fp_finalize_failure = (\<lambda>tr t a e. Inr ()), fp_bound_values = (\<lambda>tr v. Inr v) \<rparr>,
       co_preparation = None, co_model_call_gate = None, co_effect_authority = None,
       co_require_effect_authority = False, co_host = sample_host \<rparr>"

definition sample_work :: "trace \<Rightarrow> invocation \<Rightarrow> obj option res" where
  "sample_work tr iv = Inr (Some sample_run_receipt)"

definition invokes :: "(dict res \<times> trace) option \<Rightarrow> bool" where
  "invokes x = (case x of Some (Inr _, tr) \<Rightarrow> list_ex is_invoke tr | _ \<Rightarrow> False)"

lemma invokes_split:
  assumes "invokes x"
  obtains r pre iv answer post where "x = Some (Inr r, pre @ Worker (Invoke iv answer) # post)"
proof -
  from assms obtain r tr e where x: "x = Some (Inr r, tr)" "e \<in> set tr" "is_invoke e"
    by (auto simp: invokes_def list_ex_iff split: option.split_asm prod.split_asm sum.split_asm)
  from split_list [OF x(2)] obtain pre post where "tr = pre @ e # post" by blast
  moreover from x(3) obtain iv answer where "e = Worker (Invoke iv answer)" by (cases e rule: is_invoke.cases) auto
  ultimately show thesis using that x(1) by blast
qed

lemma sample_invokes: "invokes (execute_attempt (sample_coordinator False sample_work) ''t'' ''a'' None PNone [])"
  by code_simp

section \<open>Properties of attempts\<close>

text \<open>
  C1 (invocation_guarded). Whatever the ports answer, a worker is only invoked behind the checks the
  coordinator promises, for a run with the request and the contract the attempt was started with. Before the
  invocation the contract was validated statically and its deadline asked for with the submission time of a
  snapshot of the task; either an effect authorization was admitted (integrity, freshness, identity, the
  external authority's consent, and equality with the durable one), or there is none, and then the coordinator
  requires none and neither the request nor that snapshot asks for one. Since the previous invocation the
  provider's boundary was revalidated for exactly this provider, and the timeout does not reach past the
  deadline; the invocation carries that authorization and a projection within it, or neither.
\<close>

theorem invocation_guarded:
  assumes "execute_attempt C task_id attempt_id contract request tr = Some (r, tr @ pre @ Worker (Invoke iv answer) # post)"
  shows "\<exists>rn. rn_task_id rn = task_id \<and> rn_attempt_id rn = attempt_id \<and>
    entered C contract request rn pre \<and> checked_since rn iv pre \<and> carries C rn iv"
  using execute_attempt_sound [OF assms]
proof (elim disjE exE conjE)
  fix es
  assume "tr @ pre @ Worker (Invoke iv answer) # post = tr @ es" "\<forall>e \<in> set es. no_worker e"
  then show ?thesis by (auto simp: no_worker_def)
next
  fix rn es
  assume rn: "rn_task_id rn = task_id" "rn_attempt_id rn = attempt_id"
    and "tr @ pre @ Worker (Invoke iv answer) # post = tr @ es" "guarded C contract request rn es"
  then have "entered C contract request rn pre \<and> checked_since rn iv pre \<and> carries C rn iv"
    unfolding guarded_def by (metis same_append_eq)
  with rn show ?thesis by blast
qed

theorem invocation_guarded_witness:
  "\<exists>r pre iv answer post rn.
     execute_attempt (sample_coordinator False sample_work) ''t'' ''a'' None PNone [] =
       Some (Inr r, pre @ Worker (Invoke iv answer) # post) \<and>
     rn_task_id rn = ''t'' \<and> entered (sample_coordinator False sample_work) None PNone rn pre \<and> checked_since rn iv pre"
proof -
  from sample_invokes obtain r pre iv answer post where
    run: "execute_attempt (sample_coordinator False sample_work) ''t'' ''a'' None PNone [] =
      Some (Inr r, pre @ Worker (Invoke iv answer) # post)" by (rule invokes_split)
  from invocation_guarded [of "sample_coordinator False sample_work" "''t''" "''a''" None PNone "[]" "Inr r" pre iv answer post] run
  show ?thesis by auto
qed

end
