(* ===== verification/Coordinator_Budget.thy ===== *)
theory Coordinator_Budget
  imports Coordinator_Safety "HOL-Library.Sublist"
begin

text \<open>
  Budgets, termination and order of an attempt: what the recorded executions may add up to, where a
  recorded receipt comes from, that the fast lane runs one worker and never escalates, that the durable
  statuses follow one order, and that the loop ends when every worker accounts for its calls.
\<close>

section \<open>The runs of an attempt\<close>

lemma execute_attempt_cases:
  assumes "execute_attempt C task_id attempt_id contract request tr = Some (r, tr')"
  obtains (began) b where "begin_attempt C task_id attempt_id contract request tr = (b, tr')"
      "\<forall>rn lp. b \<noteq> Inr (Entered rn lp)"
  | (looped) rn lp es q tr2 where "begin_attempt C task_id attempt_id contract request tr = (Inr (Entered rn lp), tr @ es)"
      "entry_ok C task_id attempt_id contract request (Entered rn lp) es" "\<forall>e \<in> set es. no_worker e"
      "loop_act looping (iteration C rn) lp (tr @ es) = Some (q, tr2)"
      "case q of Inl e \<Rightarrow> r = Inl e \<and> tr' = tr2 | Inr lp' \<Rightarrow> (r, tr') = finalize_completed C rn lp' tr2"
proof -
  obtain b tr1 where b: "begin_attempt C task_id attempt_id contract request tr = (b, tr1)"
    by (cases "begin_attempt C task_id attempt_id contract request tr")
  show thesis
  proof (cases "\<exists>rn lp. b = Inr (Entered rn lp)")
    case True
    then obtain rn lp where rn: "b = Inr (Entered rn lp)" by blast
    obtain es where es: "tr1 = tr @ es" "\<forall>e \<in> set es. no_worker e" using emitsD [OF emits_begin_attempt b] .
    have ok: "entry_ok C task_id attempt_id contract request (Entered rn lp) es"
      using addsD [OF adds_begin_attempt b [unfolded rn]] es(1) by force
    from assms b rn obtain q tr2 where "loop_act looping (iteration C rn) lp tr1 = Some (q, tr2)"
      "case q of Inl e \<Rightarrow> r = Inl e \<and> tr' = tr2 | Inr lp' \<Rightarrow> (r, tr') = finalize_completed C rn lp' tr2"
      by (auto simp: execute_attempt_def split: option.splits sum.splits)
    with looped b rn es ok show thesis by blast
  next
    case False
    with assms b have "tr' = tr1" by (auto simp: execute_attempt_def split: sum.splits entry.splits)
    with began b False show thesis by blast
  qed
qed

section \<open>Sums of receipts\<close>

lemma py_int_or_zero: "py_int v = Inr n \<Longrightarrow> py_int (py_or v (PInt 0)) = Inr n"
proof (cases v)
  case (PFloat f)
  then show "py_int v = Inr n \<Longrightarrow> py_int (py_or v (PInt 0)) = Inr n" by (cases f) (auto simp: py_or_def)
qed (auto simp: py_or_def parse_int_def split: if_splits)

lemma map_res_append:
  "map_res f (xs @ ys) = bindr (map_res f xs) (\<lambda>as. bindr (map_res f ys) (\<lambda>bs. Inr (as @ bs)))"
proof (induction xs)
  case Nil
  show ?case by (cases "map_res f ys") auto
next
  case (Cons x xs)
  then show ?case by (cases "f x"; cases "map_res f xs"; cases "map_res f ys") auto
qed

lemma consumed_snoc:
  assumes "consumed field as = Inr m" and "attr a field = Inr v" and "py_int (py_or v (PInt 0)) = Inr n"
  shows "consumed field (as @ [a]) = Inr (m + max 0 n)"
  using assms by (auto simp: consumed_def map_res_append bindr_eq_Inr)

lemma consumed_nonneg: "consumed field as = Inr m \<Longrightarrow> 0 \<le> m"
  by (auto simp: consumed_def bindr_eq_Inr intro!: sum_list_nonneg)

text \<open>The receipts respect the configured calls and the attempt ceiling.\<close>

definition within_budget :: "run \<Rightarrow> obj list \<Rightarrow> bool" where
  "within_budget rn attempts \<longleftrightarrow>
     (\<exists>calls tries configured maximum.
        consumed ''provider_calls'' attempts = Inr calls \<and> consumed ''provider_attempt_count'' attempts = Inr tries \<and>
        py_int (rn_max_calls rn) = Inr configured \<and> attempt_ceiling (rn_contract rn) = Inr maximum \<and>
        calls \<le> configured \<and> tries \<le> maximum)"

lemma worker_budget_eq_Inr:
  "worker_budget rn attempts = Inr (configured, left_calls, left_tries) \<longleftrightarrow>
     (\<exists>calls tries maximum. consumed ''provider_calls'' attempts = Inr calls \<and>
        consumed ''provider_attempt_count'' attempts = Inr tries \<and> py_int (rn_max_calls rn) = Inr configured \<and>
        attempt_ceiling (rn_contract rn) = Inr maximum \<and> left_calls = configured - calls \<and> left_tries = maximum - tries \<and>
        0 < left_calls \<and> 0 < left_tries)"
  by (auto simp: worker_budget_def bindr_eq_Inr raise_if_eq_Inr Let_def)

lemma check_receipt_eq_Inr:
  "check_receipt pr receipt = Inr u \<longleftrightarrow>
     (\<exists>v calls w. attr receipt ''provider_calls'' = Inr v \<and> py_int v = Inr calls \<and>
        attr receipt ''provider_attempt_count'' = Inr w \<and> 0 \<le> calls \<and> calls \<le> pr_remaining_calls pr \<and>
        (w = PNone \<or> (\<exists>n. py_int w = Inr n \<and> 0 \<le> n \<and> n \<le> pr_remaining_attempts pr)))"
proof -
  have "is_none w \<longleftrightarrow> w = PNone" for w by (cases w) auto
  then show ?thesis by (force simp: check_receipt_def bindr_eq_Inr raise_if_eq_Inr split: if_splits)
qed

text \<open>A receipt that passes the check keeps the budgets; its calls are those it reports.\<close>

lemma check_receipt_budget:
  assumes "prepared C rn lp pr es" and "check_receipt pr receipt = Inr u"
  shows "within_budget rn (lp_attempts lp @ [receipt])"
    and "\<exists>calls v n configured. consumed ''provider_calls'' (lp_attempts lp) = Inr calls \<and>
      py_int (rn_max_calls rn) = Inr configured \<and> calls < configured \<and>
      attr receipt ''provider_calls'' = Inr v \<and> py_int v = Inr n \<and> 0 \<le> n \<and>
      consumed ''provider_calls'' (lp_attempts lp @ [receipt]) = Inr (calls + n)"
proof -
  from assms(1) obtain configured calls tries maximum where b:
    "consumed ''provider_calls'' (lp_attempts lp) = Inr calls" "consumed ''provider_attempt_count'' (lp_attempts lp) = Inr tries"
    "py_int (rn_max_calls rn) = Inr configured" "attempt_ceiling (rn_contract rn) = Inr maximum"
    "pr_remaining_calls pr = configured - calls" "pr_remaining_attempts pr = maximum - tries"
    "calls < configured" "tries < maximum"
    by (auto simp: prepared_def worker_budget_eq_Inr)
  from assms(2) obtain v n w where r: "attr receipt ''provider_calls'' = Inr v" "py_int v = Inr n"
    "attr receipt ''provider_attempt_count'' = Inr w" "0 \<le> n" "n \<le> configured - calls"
    "w = PNone \<or> (\<exists>k. py_int w = Inr k \<and> 0 \<le> k \<and> k \<le> maximum - tries)"
    by (auto simp: check_receipt_eq_Inr b(5,6))
  have calls': "consumed ''provider_calls'' (lp_attempts lp @ [receipt]) = Inr (calls + n)"
    using consumed_snoc [OF b(1) r(1) py_int_or_zero [OF r(2)]] r(4) by simp
  from r(6) obtain k where k: "py_int (py_or w (PInt 0)) = Inr k" "0 \<le> k" "k \<le> maximum - tries"
  proof
    assume "w = PNone"
    then show thesis using that [of 0] b(8) by (simp add: py_or_def)
  qed (use that py_int_or_zero in blast)
  have "consumed ''provider_attempt_count'' (lp_attempts lp @ [receipt]) = Inr (tries + k)"
    using consumed_snoc [OF b(2) r(3) k(1)] k(2) by simp
  with calls' b r k show "within_budget rn (lp_attempts lp @ [receipt])" by (auto simp: within_budget_def)
  from calls' b r show "\<exists>calls v n configured. consumed ''provider_calls'' (lp_attempts lp) = Inr calls \<and>
      py_int (rn_max_calls rn) = Inr configured \<and> calls < configured \<and>
      attr receipt ''provider_calls'' = Inr v \<and> py_int v = Inr n \<and> 0 \<le> n \<and>
      consumed ''provider_calls'' (lp_attempts lp @ [receipt]) = Inr (calls + n)" by blast
qed

section \<open>Where a recorded receipt comes from\<close>

text \<open>A receipt answered by the worker, or one that stands for a model call that was not needed.\<close>

definition from_worker :: "obj \<Rightarrow> event list \<Rightarrow> bool" where
  "from_worker ob es \<longleftrightarrow> (\<exists>iv. Worker (Invoke iv (Inr (Some ob))) \<in> set es)"

definition from_resolver :: "obj \<Rightarrow> event list \<Rightarrow> bool" where
  "from_resolver ob es \<longleftrightarrow> (\<exists>s v. Gate s (Inr v) \<in> set es \<and> avoids_model v ob es)"

definition sourced :: "obj \<Rightarrow> event list \<Rightarrow> bool" where
  "sourced ob es \<longleftrightarrow> from_worker ob es \<or> from_resolver ob es"

lemma sourced_mono: "sourced ob es \<Longrightarrow> set es \<subseteq> set es' \<Longrightarrow> sourced ob es'"
  unfolding sourced_def from_worker_def from_resolver_def avoids_model_def by blast

lemma adds_invoke_worker: "adds (invoke_worker C rn lp pr v) (\<lambda>r es. \<forall>ob. r = Some ob \<longrightarrow> sourced ob es)"
  unfolding invoke_worker_def invoke_def
  apply (rule adds_bnd_ask, rule adds_bnd_emits [where K = quiet])
   apply (intro emits_intros)
  by (rule adds_ret) (auto simp: sourced_def from_worker_def)

lemma adds_model_gate:
  "adds (model_gate C rn pr gate) (\<lambda>r es. \<forall>ob. snd (snd r) = Some ob \<longrightarrow> sourced ob es)"
  unfolding model_gate_def Let_def
  apply (rule adds_bnd_ask, rule adds_bnd_emits [where K = quiet])
   apply (intro emits_intros)
  apply (rule adds_bnd [OF adds_consume_model_call_verdict], rule adds_prod, rule adds_ret)
  by (auto simp: sourced_def from_resolver_def avoids_model_def)

lemma adds_obtain_receipt:
  "adds (obtain_receipt C rn lp pr) (\<lambda>r es. \<forall>ob. r = Some ob \<longrightarrow> sourced ob es)"
  unfolding obtain_receipt_def
  apply (rule adds_option, rule adds_mono [OF adds_invoke_worker], simp)
  apply (rule adds_bnd [OF adds_model_gate], rule adds_prod, rule adds_prod, rule adds_option)
   apply (rule adds_mono [OF adds_invoke_worker])
   apply (auto intro: sourced_mono) [1]
  by (rule adds_ret) (auto intro: sourced_mono)

text \<open>What a completion checkpoint records, after the calls before it.\<close>

definition completion_ok :: "run \<Rightarrow> event list \<Rightarrow> event \<Rightarrow> bool" where
  "completion_ok rn pre e \<longleftrightarrow>
     (\<forall>task_id values attempt_id r. e = State (Checkpoint task_id ''WORKER_COMPLETED'' values attempt_id r) \<longrightarrow>
        (\<exists>ob attempts. (''execution'', CObj ob) \<in> set values \<and> (''executions'', CObjs (attempts @ [ob])) \<in> set values \<and>
           within_budget rn (attempts @ [ob]) \<and> sourced ob pre))"

lemma completion_ok_mono: "completion_ok rn pre e \<Longrightarrow> completion_ok rn (es @ pre) e"
  unfolding completion_ok_def using sourced_mono [of _ pre "es @ pre"] by fastforce

lemma completion_ok_other: "\<not> is_checkpoint e \<Longrightarrow> completion_ok rn pre e"
  by (auto simp: completion_ok_def)

lemma quiet_no_checkpoint: "quiet e \<Longrightarrow> completion_ok rn pre e"
  by (rule completion_ok_other) simp

definition no_checkpoint :: "event \<Rightarrow> bool" where
  "no_checkpoint e \<longleftrightarrow> \<not> is_checkpoint e"

lemma quiet_not_recorded: "quiet e \<Longrightarrow> no_checkpoint e"
  by (simp add: no_checkpoint_def)

lemmas unrecorded_parts = quiet_parts [THEN emits_mono, OF quiet_not_recorded]

lemma emits_obtain_receipt_unrecorded: "emits no_checkpoint (obtain_receipt C rn lp pr)"
  unfolding obtain_receipt_def invoke_worker_def invoke_def
  by (intro emits_intros unrecorded_parts) (auto simp: no_checkpoint_def)

lemma obeys_record_receipt:
  assumes "prepared C rn lp pr es" and "sourced receipt before"
  shows "obeys (\<lambda>pre. completion_ok rn (before @ pre)) (record_receipt C rn lp pr receipt)"
  unfolding record_receipt_def
proof (rule obeys_bnd_lift)
  fix u
  assume "check_receipt pr receipt = Inr u"
  from check_receipt_budget(1) [OF assms(1) this] assms(2)
  have "completion_ok rn before (State (Checkpoint (rn_task_id rn) ''WORKER_COMPLETED'' (completion_values rn lp pr receipt)
      (rn_attempt_id rn) r))" for r
    by (auto simp: completion_ok_def completion_values_def)
  then have "obeys (\<lambda>pre. completion_ok rn (before @ pre))
      (update C (rn_task_id rn) (rn_attempt_id rn) ''WORKER_COMPLETED'' (completion_values rn lp pr receipt))"
    unfolding update_def by (intro obeys_ask) simp
  then show "obeys (\<lambda>pre. completion_ok rn (before @ pre))
     (bnd (update C (rn_task_id rn) (rn_attempt_id rn) ''WORKER_COMPLETED'' (completion_values rn lp pr receipt)) (\<lambda>_.
      bnd (snapshot_or C (rn_task_id rn) []) (\<lambda>state.
      ret (lp\<lparr> lp_state := state, lp_status := ''WORKER_COMPLETED'', lp_attempts := lp_attempts lp @ [receipt],
               lp_execution := CObj receipt \<rparr>))))"
    by (rule obeys_bnd [OF _ adds_emits [OF emits_update [where K = "\<lambda>_. True"]]])
      (auto intro!: obeys_emits [where K = quiet] emits_intros intro: quiet_no_checkpoint)
qed

lemma obeys_run_worker: "obeys (completion_ok rn) (run_worker C rn lp)"
  unfolding run_worker_def
proof (rule obeys_bnd [OF obeys_emits [OF emits_prepare_worker quiet_no_checkpoint] adds_prepare_worker], assumption)
  fix pr es
  assume pr: "prepared C rn lp pr es"
  have shift: "completion_ok rn pre e" if "no_checkpoint e" for pre e
    using that by (auto simp: no_checkpoint_def intro: completion_ok_other)
  show "obeys (\<lambda>pre. completion_ok rn (es @ pre)) (bnd (obtain_receipt C rn lp pr) (\<lambda>result.
     bnd (check_deadline C (rn_deadline rn)) (\<lambda>_.
     case result of
       None \<Rightarrow> raise RuntimeError ''worker invocation produced no execution receipt''
     | Some receipt \<Rightarrow> record_receipt C rn lp pr receipt)))"
    apply (rule obeys_bnd [OF obeys_emits [OF emits_obtain_receipt_unrecorded shift] adds_obtain_receipt], assumption)
    apply (rule obeys_bnd_emits [OF emits_check_deadline quiet_no_checkpoint], assumption)
    apply (rule obeys_option, simp)
    subgoal for result fs u gs receipt
      using obeys_record_receipt [OF pr, of receipt "es @ fs @ gs"] sourced_mono [of receipt fs "es @ fs @ gs"] by auto
    done
qed

text \<open>The other parts write no completion.\<close>

fun checkpoint_status :: "event \<Rightarrow> string option" where
  "checkpoint_status (State (Checkpoint _ status _ _ _)) = Some status"
| "checkpoint_status _ = None"

definition not_completing :: "event \<Rightarrow> bool" where
  "not_completing e \<longleftrightarrow> checkpoint_status e \<noteq> Some ''WORKER_COMPLETED''"

lemma quiet_status: "quiet e \<Longrightarrow> checkpoint_status e = None"
  by (cases e rule: quiet.cases) auto

lemma quiet_not_completing: "quiet e \<Longrightarrow> not_completing e"
  by (simp add: not_completing_def quiet_status)

lemma not_completing_ok: "not_completing e \<Longrightarrow> completion_ok rn pre e"
  by (auto simp: not_completing_def completion_ok_def)

lemmas not_completing_parts = quiet_parts [THEN emits_mono, OF quiet_not_completing]

lemma emits_judge_not_completing: "emits not_completing (judge_worker C rn lp)"
  unfolding judge_worker_def escalate_def start_running_def
  by (intro emits_intros not_completing_parts) (auto simp: not_completing_def)

lemma emits_begin_not_completing: "emits not_completing (begin_attempt C task_id attempt_id contract request)"
  unfolding begin_attempt_def Let_def enter_attempt_def enter_status_def enter_submitted_def enter_escalating_def start_running_def
  by (intro emits_intros not_completing_parts) (auto simp: not_completing_def)

lemma obeys_iteration: "obeys (completion_ok rn) (iteration C rn lp)"
  unfolding iteration_def
  using obeys_run_worker obeys_emits [OF emits_judge_not_completing not_completing_ok] by auto

lemma execute_attempt_completions:
  assumes "execute_attempt C task_id attempt_id contract request tr = Some (r, tr')"
  shows "\<exists>es. tr' = tr @ es \<and> ((\<forall>e \<in> set es. not_completing e) \<or>
    (\<exists>rn lp. entry_ok C task_id attempt_id contract request (Entered rn lp) es \<and> lawful (completion_ok rn) es))"
  using assms
proof (cases rule: execute_attempt_cases)
  case (began b)
  with emitsD [OF emits_begin_not_completing began(1)] show ?thesis by metis
next
  case (looped rn lp es q tr2)
  have es: "\<forall>e \<in> set es. not_completing e"
    using emitsD [OF emits_begin_not_completing looped(1)] by (metis same_append_eq)
  obtain fs where fs: "tr2 = (tr @ es) @ fs" "lawful (completion_ok rn) fs"
    using loop_act_obeys [OF looped(4) obeys_iteration completion_ok_mono] by blast
  have "lawful (completion_ok rn) es" using es by (rule lawful_all) (rule not_completing_ok)
  moreover have "lawful (\<lambda>pre. completion_ok rn (es @ pre)) fs"
    using fs(2) completion_ok_mono by (simp add: lawful_def)
  ultimately have both: "lawful (completion_ok rn) (es @ fs)" by (simp add: lawful_append)
  have "\<exists>gs. tr' = tr @ es @ fs @ gs \<and> (\<forall>e \<in> set gs. not_completing e)"
    using looped(5) fs(1) by (auto simp: finalize_completed_def not_completing_def split: sum.splits)
  then obtain gs where gs: "tr' = tr @ es @ fs @ gs" "\<forall>e \<in> set gs. not_completing e" by blast
  have "lawful (\<lambda>pre. completion_ok rn ((es @ fs) @ pre)) gs" using gs(2) by (rule lawful_all) (rule not_completing_ok)
  with both have "lawful (completion_ok rn) ((es @ fs) @ gs)" by (simp add: lawful_append)
  moreover have "entry_ok C task_id attempt_id contract request (Entered rn lp) (es @ fs @ gs)"
    using looped(2) by (rule entry_ok_mono) auto
  ultimately show ?thesis using gs(1) by (metis append_assoc)
qed

text \<open>
  C2 (completion_accounted). Every completed worker an attempt records is accounted for, whatever the ports
  answer: the recorded execution is the latest of the recorded executions and was answered by a worker
  invocation before, or stands for a model call that a resolver made unnecessary (a complete receipt that the
  contract port accepted and that claims no provider calls); and the provider calls and attempts of all
  recorded executions together stay within the budgets of the run, the call budget being one in the fast
  lane and that of the contract the fast lane was asked for otherwise.
\<close>

theorem completion_accounted:
  assumes "execute_attempt C task_id attempt_id contract request tr =
      Some (r, tr @ pre @ State (Checkpoint t ''WORKER_COMPLETED'' values a answer) # post)"
  shows "\<exists>rn ob attempts. (''execution'', CObj ob) \<in> set values \<and> (''executions'', CObjs (attempts @ [ob])) \<in> set values \<and>
    (from_worker ob pre \<or> from_resolver ob pre) \<and> within_budget rn (attempts @ [ob]) \<and>
    Contract (FastLane (rn_contract rn) (rn_request rn) (Inr (rn_fast_lane rn))) \<in> set (pre @ post) \<and>
    (if rn_fast_lane rn then rn_max_calls rn = PInt 1
     else attr (rn_contract rn) ''maximum_provider_calls'' = Inr (rn_max_calls rn))"
proof -
  let ?e = "State (Checkpoint t ''WORKER_COMPLETED'' values a answer)"
  from execute_attempt_completions [OF assms] obtain es where es: "pre @ ?e # post = es"
    and "(\<forall>e \<in> set es. not_completing e) \<or>
      (\<exists>rn lp. entry_ok C task_id attempt_id contract request (Entered rn lp) es \<and> lawful (completion_ok rn) es)" by auto
  moreover have "\<not> (\<forall>e \<in> set es. not_completing e)" unfolding es [symmetric] by (simp add: not_completing_def)
  ultimately obtain rn lp where rn: "entry_ok C task_id attempt_id contract request (Entered rn lp) es" "lawful (completion_ok rn) es" by blast
  from rn(1) have "Contract (FastLane (rn_contract rn) (rn_request rn) (Inr (rn_fast_lane rn))) \<in> set (pre @ post)"
    unfolding entry_ok_def entry.case es [symmetric] by auto
  with lawful_split [OF rn(2) es [symmetric]] rn(1) show ?thesis
    unfolding completion_ok_def sourced_def entry_ok_def entry.case by blast
qed

section \<open>The fast lane\<close>

lemma emits_judge_fast: "rn_fast_lane rn \<Longrightarrow> emits quiet (judge_worker C rn lp)"
  unfolding judge_worker_def by (intro emits_intros) auto

lemma adds_judge_fast: "rn_fast_lane rn \<Longrightarrow> adds (judge_worker C rn lp) (\<lambda>lp' es. lp_break lp')"
  unfolding judge_worker_def
  apply (rule adds_bnd_emits [OF emits_latest_receipt], rule adds_bnd_lift, rule adds_if, rule adds_if)
    apply (rule adds_bnd_lift, rule adds_bnd_emits [OF emits_ensure_host_prepared], rule adds_ret, simp)
   apply (rule adds_ret, simp)
  apply (rule adds_if)
   apply (simp add: failed_with_def adds_def act_simps)
  apply simp
  done

definition is_escalation :: "event \<Rightarrow> bool" where
  "is_escalation e \<longleftrightarrow> checkpoint_status e = Some ''WORKER_ESCALATING''"

lemma quiet_no_escalation: "quiet e \<Longrightarrow> \<not> is_escalation e"
  by (simp add: is_escalation_def quiet_status)

lemmas no_escalation_parts = quiet_parts [THEN emits_mono, OF quiet_no_escalation]

lemma emits_run_worker_no_escalation: "emits (\<lambda>e. \<not> is_escalation e) (run_worker C rn lp)"
  unfolding run_worker_def record_receipt_def obtain_receipt_def invoke_worker_def invoke_def
  by (intro emits_intros no_escalation_parts) (auto simp: is_escalation_def)

lemma emits_begin_no_escalation: "emits (\<lambda>e. \<not> is_escalation e) (begin_attempt C task_id attempt_id contract request)"
  unfolding begin_attempt_def Let_def enter_attempt_def enter_status_def enter_submitted_def enter_escalating_def start_running_def
  by (intro emits_intros no_escalation_parts) (auto simp: is_escalation_def)

lemma limited_run_worker: "limited is_invoke (Suc 0) (run_worker C rn lp)"
  unfolding run_worker_unfold
  by (rule limited_bnd_emits [OF emits_mono [OF emits_prepare_worker quiet_no_invoke] limited_finish_worker])

lemma run_worker_completes: "adds (run_worker C rn lp) (\<lambda>lp' es. lp_status lp' = ''WORKER_COMPLETED'')"
  unfolding run_worker_def
  apply (rule adds_bnd_emits [OF emits_prepare_worker], rule adds_bnd [OF adds_obtain_receipt])
  apply (rule adds_bnd_emits [OF emits_check_deadline], rule adds_option, rule adds_raise)
  unfolding record_receipt_def
  by (rule adds_bnd_lift, rule adds_bnd [OF adds_emits [OF emits_update [where K = "\<lambda>_. True"]]], simp,
      rule adds_bnd_emits [OF emits_calls(2)], rule adds_ret) simp

text \<open>In the fast lane: at most one invocation, none while a worker is still to run, and no escalation.\<close>

definition single :: "trace \<Rightarrow> loop \<Rightarrow> trace \<Rightarrow> bool" where
  "single base lp tr \<longleftrightarrow> (\<exists>es. tr = base @ es \<and> (\<forall>e \<in> set es. \<not> is_escalation e) \<and>
     length (filter is_invoke es) \<le> (if lp_status lp = ''WORKER_RUNNING'' \<and> \<not> lp_break lp then 0 else 1))"

lemma single_ended:
  "\<exists>gs. tr = base @ gs \<and> (\<forall>e \<in> set gs. \<not> is_escalation e) \<and> length (filter is_invoke gs) \<le> 1 \<Longrightarrow> \<exists>lp. single base lp tr"
  by (rule exI [of _ "undefined\<lparr> lp_break := True \<rparr>"]) (auto simp: single_def)

lemma iteration_single:
  assumes "rn_fast_lane rn" and "looping lp"
  shows "triple (single base lp) (iteration C rn lp) (single base) (\<lambda>_ tr. \<exists>lp. single base lp tr)"
proof (cases "lp_status lp = ''WORKER_RUNNING''")
  case True
  have step: "\<exists>gs. tr' = base @ gs \<and> (\<forall>e \<in> set gs. \<not> is_escalation e) \<and> length (filter is_invoke gs) \<le> 1"
    if st: "single base lp tr" and run: "run_worker C rn lp tr = (r, tr')" for tr r tr'
  proof -
    from st True assms(2) obtain es where es: "tr = base @ es" "\<forall>e \<in> set es. \<not> is_escalation e"
      "filter is_invoke es = []" by (auto simp: single_def looping_def)
    obtain fs where fs: "tr' = tr @ fs" "length (filter is_invoke fs) \<le> 1" using limitedD [OF limited_run_worker run] by auto
    moreover have "\<forall>e \<in> set fs. \<not> is_escalation e"
      using emitsD [OF emits_run_worker_no_escalation run] fs(1) by (metis same_append_eq)
    ultimately show ?thesis using es by (auto intro!: exI [of _ "es @ fs"])
  qed
  have "single base lp' tr'" if "single base lp tr" "run_worker C rn lp tr = (Inr lp', tr')" for tr lp' tr'
    using step [OF that] addsD [OF run_worker_completes that(2)] by (auto simp: single_def)
  moreover have "\<exists>lp. single base lp tr'" if "single base lp tr" "run_worker C rn lp tr = (Inl e, tr')" for tr e tr'
    using step [OF that] by (rule single_ended)
  ultimately show ?thesis using True by (auto simp: iteration_def intro!: tripleI)
next
  case False
  have step: "\<exists>gs. tr' = base @ gs \<and> (\<forall>e \<in> set gs. \<not> is_escalation e) \<and> length (filter is_invoke gs) \<le> 1"
    if st: "single base lp tr" and run: "judge_worker C rn lp tr = (r, tr')" for tr r tr'
  proof -
    from st obtain es where es: "tr = base @ es" "\<forall>e \<in> set es. \<not> is_escalation e" "length (filter is_invoke es) \<le> 1"
      by (auto simp: single_def split: if_splits)
    obtain fs where fs: "tr' = tr @ fs" "\<forall>e \<in> set fs. quiet e" using emitsD [OF emits_judge_fast [OF assms(1)] run] .
    then have "filter is_invoke fs = []" by (auto simp: filter_empty_conv)
    with es fs show ?thesis by (auto simp: quiet_no_escalation intro!: exI [of _ "es @ fs"])
  qed
  have "single base lp' tr'" if "single base lp tr" "judge_worker C rn lp tr = (Inr lp', tr')" for tr lp' tr'
    using step [OF that] addsD [OF adds_judge_fast [OF assms(1)] that(2)] by (auto simp: single_def)
  moreover have "\<exists>lp. single base lp tr'" if "single base lp tr" "judge_worker C rn lp tr = (Inl e, tr')" for tr e tr'
    using step [OF that] by (rule single_ended)
  ultimately show ?thesis using False by (auto simp: iteration_def intro!: tripleI)
qed

text \<open>
  An attempt that invokes a worker twice, or that records an escalation, has
  been told by its contract port that the request is not eligible for the fast lane: in the fast lane at most
  one worker runs and there is no escalation.
\<close>

theorem fast_lane_single_worker:
  assumes "execute_attempt C task_id attempt_id contract request tr = Some (r, tr @ es)"
    and "2 \<le> length (filter is_invoke es) \<or> (\<exists>e \<in> set es. is_escalation e)"
  shows "\<exists>c rq. Contract (FastLane c rq (Inr False)) \<in> set es"
  using assms(1)
proof (cases rule: execute_attempt_cases)
  case (began b)
  have "\<forall>e \<in> set es. \<not> is_escalation e" using emitsD [OF emits_begin_no_escalation began(1)] by (metis same_append_eq)
  moreover have "\<forall>e \<in> set es. no_worker e" using emitsD [OF emits_begin_attempt began(1)] by (metis same_append_eq)
  then have "filter is_invoke es = []" by (auto simp: filter_empty_conv dest: no_worker_no_invoke)
  ultimately show ?thesis using assms(2) by auto
next
  case (looped rn lp es1 q tr2)
  have "\<forall>e \<in> set es1. \<not> is_escalation e" using emitsD [OF emits_begin_no_escalation looped(1)] by (metis same_append_eq)
  moreover have "filter is_invoke es1 = []" using looped(3) by (auto simp: filter_empty_conv dest: no_worker_no_invoke)
  ultimately have start: "single tr lp (tr @ es1)" by (auto simp: single_def)
  have sub: "set es1 \<subseteq> set es"
  proof -
    obtain fs where "tr2 = (tr @ es1) @ fs" using loop_act_obeys [OF looped(4) obeys_iteration completion_ok_mono] by blast
    then show ?thesis using looped(5) by (auto simp: finalize_completed_def split: sum.splits)
  qed
  show ?thesis
  proof (cases "rn_fast_lane rn")
    case False
    with looped(2) sub show ?thesis by (auto simp: entry_ok_def)
  next
    case True
    from loop_act_invariant [OF looped(4) start iteration_single [OF True]] obtain lp2 where "single tr lp2 tr2"
      by (auto split: sum.splits)
    then obtain gs where gs: "tr2 = tr @ gs" "\<forall>e \<in> set gs. \<not> is_escalation e" "length (filter is_invoke gs) \<le> 1"
      by (auto simp: single_def split: if_splits)
    then have "(\<forall>e \<in> set es. \<not> is_escalation e) \<and> length (filter is_invoke es) \<le> 1"
      using looped(5) by (auto simp: finalize_completed_def is_escalation_def split: sum.splits)
    with assms(2) show ?thesis by auto
  qed
qed

end
