(* ===== verification/Coordinator_Order.thy ===== *)
theory Coordinator_Order
  imports Coordinator_Budget
begin

text \<open>
  The order of the durable statuses an attempt writes, the termination of its loop, and what an owned
  attempt leaves behind.
\<close>

section \<open>The order of the statuses\<close>

definition follows :: "string \<Rightarrow> string \<Rightarrow> bool" where
  "follows s s' \<longleftrightarrow> (s, s') \<in> {(''SUBMITTED'', ''TARGET_LEASED''), (''WORKER_ESCALATING'', ''TARGET_LEASED''),
     (''TARGET_LEASED'', ''WORKER_RUNNING''), (''WORKER_RUNNING'', ''WORKER_COMPLETED''),
     (''WORKER_COMPLETED'', ''WORKER_ESCALATING'')}"

definition statuses :: "event list \<Rightarrow> string list" where
  "statuses es = List.map_filter checkpoint_status es"

lemma statuses_append [simp]: "statuses (es @ fs) = statuses es @ statuses fs"
  by (simp add: statuses_def List.map_filter_def)

lemma statuses_quiet: "\<forall>e \<in> set es. checkpoint_status e = None \<Longrightarrow> statuses es = []"
  by (auto simp: statuses_def List.map_filter_def filter_empty_conv)

text \<open>The status of a task as a snapshot showed it.\<close>

definition read_status :: "string \<Rightarrow> string \<Rightarrow> event list \<Rightarrow> bool" where
  "read_status task_id s es \<longleftrightarrow>
     (\<exists>d. State (ReadSnapshot task_id (Inr d)) \<in> set es \<and> s = py_str (dget (case d of None \<Rightarrow> [] | Some x \<Rightarrow> x) ''status''))"

lemma read_status_append [simp]: "read_status task_id s es \<Longrightarrow> read_status task_id s (es @ fs)"
  by (auto simp: read_status_def)

text \<open>The run started from status \<open>s0\<close>, has written its statuses in order, and stands at \<open>s\<close>.\<close>

definition stands_at :: "trace \<Rightarrow> string \<Rightarrow> string \<Rightarrow> string \<Rightarrow> trace \<Rightarrow> bool" where
  "stands_at base t s0 s tr \<longleftrightarrow>
     (\<exists>es. tr = base @ es \<and> read_status t s0 es \<and> successively follows (s0 # statuses es) \<and> last (s0 # statuses es) = s)"

definition in_order :: "trace \<Rightarrow> string \<Rightarrow> string \<Rightarrow> trace \<Rightarrow> bool" where
  "in_order base t s0 tr \<longleftrightarrow> (\<exists>s. stands_at base t s0 s tr)"

lemma stands_at_in_order: "stands_at base t s0 s tr \<Longrightarrow> in_order base t s0 tr"
  by (auto simp: in_order_def)

lemma stands_at_unrecorded:
  assumes "emits no_checkpoint m"
  shows "triple (stands_at base t s0 s) m (\<lambda>_. stands_at base t s0 s) (\<lambda>_. in_order base t s0)"
proof -
  have "triple (stands_at base t s0 s) m (\<lambda>_. stands_at base t s0 s) (\<lambda>_. stands_at base t s0 s)"
  proof (rule triple_emits [OF assms])
    fix tr e
    assume "stands_at base t s0 s tr" "no_checkpoint e"
    moreover then have "checkpoint_status e = None" by (cases e rule: checkpoint_status.cases) (auto simp: no_checkpoint_def)
    ultimately obtain es where "tr = base @ es" "read_status t s0 es" "successively follows (s0 # statuses es)" "last (s0 # statuses es) = s"
      "statuses [e] = []" by (auto simp: stands_at_def statuses_quiet)
    then show "stands_at base t s0 s (tr @ [e])"
      unfolding stands_at_def by (intro exI [of _ "es @ [e]"]) (simp del: last.simps successively.simps)
  qed
  then show ?thesis by (rule triple_conseq) (auto intro: stands_at_in_order)
qed

lemma stands_at_quiet:
  "emits quiet m \<Longrightarrow> triple (stands_at base t s0 s) m (\<lambda>_. stands_at base t s0 s) (\<lambda>_. in_order base t s0)"
  by (rule stands_at_unrecorded [OF emits_mono [OF _ quiet_not_recorded]])

lemma stands_at_update:
  assumes "follows s s'"
  shows "triple (stands_at base t s0 s) (update C task_id attempt_id s' values) (\<lambda>_. stands_at base t s0 s') (\<lambda>_. in_order base t s0)"
proof -
  have "stands_at base t s0 s' (tr @ [State (Checkpoint task_id s' values attempt_id r)])" if "stands_at base t s0 s tr" for tr r
  proof -
    let ?e = "State (Checkpoint task_id s' values attempt_id r)"
    from that obtain es where es: "tr = base @ es" "successively follows (s0 # statuses es)" "last (s0 # statuses es) = s"
      and rd: "read_status t s0 es" by (auto simp: stands_at_def)
    have one: "statuses [?e] = [s']" by (simp add: statuses_def List.map_filter_def)
    have "successively follows ((s0 # statuses es) @ [s'])"
      unfolding successively_append_iff using es(2,3) assms by simp
    then show ?thesis unfolding stands_at_def
      by (intro exI [of _ "es @ [?e]"]) (simp add: es(1) one rd)
  qed
  then show ?thesis by (auto simp: update_def intro!: tripleI stands_at_in_order)
qed

lemma in_order_raise: "triple (stands_at base t s0 s) (raise c msg) Q (\<lambda>_. in_order base t s0)"
  by (rule triple_raise) (rule stands_at_in_order)

lemmas quiet_step = triple_bnd [OF stands_at_quiet]
lemmas lift_step = triple_bnd_lift [OF _ stands_at_in_order]

lemma start_running_order:
  assumes "follows s ''TARGET_LEASED''"
  shows "triple (stands_at base t s0 s) (start_running C rn provider lease report)
    (\<lambda>_. stands_at base t s0 ''WORKER_RUNNING'') (\<lambda>_. in_order base t s0)"
  unfolding start_running_def
  by (rule triple_bnd [OF stands_at_update [OF assms]], rule triple_bnd [OF stands_at_update], simp add: follows_def,
      rule stands_at_quiet, rule emits_calls)

lemma run_worker_order:
  "triple (stands_at base t s0 ''WORKER_RUNNING'') (run_worker C rn lp) (\<lambda>lp'. stands_at base t s0 (lp_status lp'))
     (\<lambda>_. in_order base t s0)"
  unfolding run_worker_def record_receipt_def
  apply (rule quiet_step [OF emits_prepare_worker])
  apply (rule triple_bnd [OF stands_at_unrecorded [OF emits_obtain_receipt_unrecorded]])
  apply (rule quiet_step [OF emits_check_deadline], rule triple_option, rule in_order_raise)
  apply (rule lift_step, rule triple_bnd [OF stands_at_update], simp add: follows_def)
   apply (rule quiet_step [OF emits_calls(2)], rule triple_ret, simp)
  apply assumption
  done

lemma escalate_order:
  "triple (stands_at base t s0 ''WORKER_COMPLETED'') (escalate C rn lp latest order reason)
     (\<lambda>lp'. stands_at base t s0 (lp_status lp')) (\<lambda>_. in_order base t s0)"
  unfolding escalate_def
  apply (rule quiet_step [OF emits_next_ready_provider], rule triple_option, rule in_order_raise)
  apply (rule quiet_step [OF emits_raise_when], rule lift_step, rule lift_step)
    apply (rule triple_bnd [OF stands_at_update], simp add: follows_def)
    apply (rule quiet_step [OF emits_boundary], rule quiet_step [OF emits_replace_lease], rule quiet_step [OF emits_boundary])
    apply (rule quiet_step [OF emits_require_ready], rule triple_bnd [OF start_running_order], simp add: follows_def)
    apply (rule triple_ret, simp)
   apply assumption+
  done

lemma failed_with_order: "triple (stands_at base t s0 s) (failed_with receipt text) Q (\<lambda>_. in_order base t s0)"
  unfolding failed_with_def
  by (rule lift_step, rule triple_if, rule in_order_raise, rule lift_step, rule in_order_raise)

lemma judge_worker_order:
  assumes "lp_status lp = ''WORKER_COMPLETED''"
  shows "triple (stands_at base t s0 ''WORKER_COMPLETED'') (judge_worker C rn lp)
     (\<lambda>lp'. stands_at base t s0 (lp_status lp')) (\<lambda>_. in_order base t s0)"
  unfolding judge_worker_def
  apply (rule quiet_step [OF emits_latest_receipt], rule lift_step, rule triple_if, rule triple_if)
      apply (rule lift_step, rule quiet_step [OF emits_ensure_host_prepared], rule triple_ret)
       apply (simp add: assms)
      apply assumption
     apply (rule triple_ret, simp add: assms)
    apply (rule triple_if, rule failed_with_order)
    apply (rule quiet_step, intro emits_intros)
    apply (rule triple_option, rule failed_with_order, rule triple_prod, rule triple_if)
     apply (rule triple_ret, simp add: assms)
    apply (rule triple_if, rule failed_with_order, rule escalate_order)
  apply assumption
  done

lemma iteration_order:
  assumes "looping lp"
  shows "triple (stands_at base t s0 (lp_status lp)) (iteration C rn lp) (\<lambda>lp'. stands_at base t s0 (lp_status lp'))
    (\<lambda>_. in_order base t s0)"
  using assms run_worker_order judge_worker_order by (auto simp: iteration_def looping_def)

lemma enter_status_order:
  "triple (stands_at base t status status) (enter_status C rn state status)
     (\<lambda>x. stands_at base t status (snd (snd x))) (\<lambda>_. in_order base t status)"
proof -
  have sub: "triple (stands_at base t ''SUBMITTED'' ''SUBMITTED'') (enter_submitted C rn state)
      (\<lambda>_. stands_at base t ''SUBMITTED'' ''WORKER_RUNNING'') (\<lambda>_. in_order base t ''SUBMITTED'')"
    unfolding enter_submitted_def
    apply (rule quiet_step [OF emits_calls(7)], rule quiet_step [OF emits_calls(8)])
    apply (rule quiet_step [OF emits_select_initial_provider], rule triple_prod, rule quiet_step [OF emits_calls(5)])
    apply (rule quiet_step, intro emits_intros, simp, rule quiet_step [OF emits_calls(5)])
    apply (rule triple_bnd [OF stands_at_update], simp add: follows_def, rule triple_bnd [OF stands_at_update], simp add: follows_def)
    by (rule quiet_step [OF emits_calls(2)], rule triple_ret)
  have esc: "triple (stands_at base t ''WORKER_ESCALATING'' ''WORKER_ESCALATING'') (enter_escalating C rn state)
      (\<lambda>_. stands_at base t ''WORKER_ESCALATING'' ''WORKER_RUNNING'') (\<lambda>_. in_order base t ''WORKER_ESCALATING'')"
    unfolding enter_escalating_def Let_def
    apply (rule quiet_step [OF emits_raise_when], rule quiet_step [OF emits_lease_from_state], rule quiet_step [OF emits_raise_when])
    apply (rule quiet_step [OF emits_calls(7)], rule quiet_step [OF emits_calls(8)], rule quiet_step [OF emits_replace_lease])
    apply (rule quiet_step [OF emits_boundary], rule quiet_step [OF emits_require_ready])
    by (rule triple_bnd [OF start_running_order], simp add: follows_def, rule triple_ret)
  show ?thesis
    unfolding enter_status_def
    apply (rule triple_if, simp, rule triple_bnd [OF sub], rule triple_prod, rule triple_ret, simp)
    apply (rule triple_if, simp, rule triple_bnd [OF esc], rule triple_prod, rule triple_ret, simp)
    apply (rule triple_if, rule in_order_raise)
    by (rule quiet_step [OF emits_lease_from_state], rule triple_ret) simp
qed

lemma enter_attempt_order:
  "triple (stands_at base t status status) (enter_attempt C (rn, state, status, attempts))
     (\<lambda>x tr. \<exists>lp. x = Entered rn lp \<and> stands_at base t status (lp_status lp) tr) (\<lambda>_. in_order base t status)"
  unfolding enter_attempt_def prod.case
  apply (rule triple_bnd [OF enter_status_order], rule triple_prod, rule triple_prod, rule lift_step)
   apply (rule quiet_step, intro emits_intros, simp, rule triple_ret, simp)
  apply assumption
  done

text \<open>Admission writes no status and has read the one it returns.\<close>

lemma adds_snapshot_or: "adds (snapshot_or C task_id []) (\<lambda>s. read_status task_id (py_str (dget s ''status'')))"
  unfolding snapshot_or_def snapshot_def
proof (rule adds_bnd_ask, rule adds_ret)
  fix d :: "dict option"
  have "(case d of None \<Rightarrow> [] | Some x \<Rightarrow> if x = [] then [] else x) = (case d of None \<Rightarrow> [] | Some x \<Rightarrow> x)"
    by (cases d) auto
  then show "read_status task_id (py_str (dget (case d of None \<Rightarrow> [] | Some x \<Rightarrow> if x = [] then [] else x) ''status''))
      [State (ReadSnapshot task_id (Inr d))]" by (auto simp: read_status_def)
qed

lemma adds_admit_status:
  "adds (admit_attempt C task_id attempt_id contract request) (\<lambda>r. read_status task_id (fst (snd (snd r))))"
  unfolding admit_attempt_def
  apply (rule adds_bnd [OF adds_snapshot_or], rule adds_bnd_ask, rule adds_bnd_emits [OF emits_check_deadline])
  apply (rule adds_Let, rule adds_Let, rule adds_bnd [OF adds_ensure_effect_authorization], rule adds_prod, rule adds_bnd_ask)
  apply (rule adds_bnd_emits [OF emits_calls(7)], rule adds_bnd_emits [OF emits_calls(8)])
  apply (rule adds_bnd_emits [OF emits_escalation_policy], rule adds_bnd_emits [OF emits_recorded_attempts])
  apply (rule adds_bnd_lift, rule adds_bnd_lift, rule adds_bnd_raise_when, rule adds_bnd_ask, rule adds_bnd_lift, rule adds_ret)
  by simp

definition unwritten :: "trace \<Rightarrow> trace \<Rightarrow> bool" where
  "unwritten base tr \<longleftrightarrow> (\<exists>es. tr = base @ es \<and> statuses es = [])"

lemma unwritten_quiet:
  assumes "emits quiet m"
  shows "triple (unwritten base) m (\<lambda>_. unwritten base) (\<lambda>_. unwritten base)"
proof (rule triple_emits [OF assms])
  fix tr e
  assume "unwritten base tr" "quiet e"
  then obtain es where "tr = base @ es" "statuses es = []" "statuses [e] = []"
    by (auto simp: unwritten_def statuses_quiet quiet_status)
  then show "unwritten base (tr @ [e])" unfolding unwritten_def by (intro exI [of _ "es @ [e]"]) simp
qed

lemma admit_order:
  "triple (unwritten base) (admit_attempt C task_id attempt_id contract request)
     (\<lambda>r tr. stands_at base task_id (fst (snd (snd r))) (fst (snd (snd r))) tr) (\<lambda>_. unwritten base)"
proof (rule tripleI)
  fix tr x tr'
  assume un: "unwritten base tr" and run: "admit_attempt C task_id attempt_id contract request tr = (Inr x, tr')"
  obtain fs where fs: "tr' = tr @ fs" "read_status task_id (fst (snd (snd x))) fs" using addsD [OF adds_admit_status run] .
  moreover from tripleD [OF unwritten_quiet [OF emits_admit_attempt] un run] obtain gs where "tr' = base @ gs" "statuses gs = []"
    by (auto simp: unwritten_def)
  ultimately show "stands_at base task_id (fst (snd (snd x))) (fst (snd (snd x))) tr'"
    using un unfolding stands_at_def unwritten_def by (auto simp: read_status_def intro!: exI [of _ gs])
qed (rule tripleD_Inl [OF unwritten_quiet [OF emits_admit_attempt]])

definition orderly :: "trace \<Rightarrow> string \<Rightarrow> trace \<Rightarrow> bool" where
  "orderly base task_id tr \<longleftrightarrow> unwritten base tr \<or> (\<exists>s0. in_order base task_id s0 tr)"

lemma begin_order:
  "triple (unwritten base) (begin_attempt C task_id attempt_id contract request)
     (\<lambda>x tr. (\<forall>rn lp. x = Entered rn lp \<longrightarrow> (\<exists>s0. stands_at base task_id s0 (lp_status lp) tr)) \<and> orderly base task_id tr)
     (\<lambda>_. orderly base task_id)"
proof -
  have quiet_begin: "triple (unwritten base) m (\<lambda>_. unwritten base) (\<lambda>_. orderly base task_id)" if "emits quiet m"
    for m :: "'a prog"
    using unwritten_quiet [OF that] by (rule triple_conseq) (auto simp: orderly_def)
  have enter: "triple (stands_at base task_id (fst (snd (snd x))) (fst (snd (snd x)))) (enter_attempt C x)
     (\<lambda>x tr. (\<forall>rn lp. x = Entered rn lp \<longrightarrow> (\<exists>s0. stands_at base task_id s0 (lp_status lp) tr)) \<and> orderly base task_id tr)
     (\<lambda>_. orderly base task_id)" for x
  proof (cases x)
    case (fields rn state status attempts)
    show ?thesis unfolding fields
      by (rule triple_conseq [OF enter_attempt_order]) (auto simp: orderly_def in_order_def)
  qed
  have admit: "triple (unwritten base) (admit_attempt C task_id attempt_id c rq)
     (\<lambda>r tr. stands_at base task_id (fst (snd (snd r))) (fst (snd (snd r))) tr) (\<lambda>_. orderly base task_id)" for c rq
    by (rule triple_conseq [OF admit_order]) (auto simp: orderly_def)
  show ?thesis
    unfolding begin_attempt_def Let_def
    apply (rule triple_bnd [OF quiet_begin [OF emits_calls(1)]], rule triple_option, rule triple_ret, simp add: orderly_def)
    apply (rule triple_if, rule triple_ret, simp add: orderly_def)
    apply (rule triple_bnd [OF quiet_begin [OF emits_raise_when]], rule triple_bnd [OF quiet_begin], intro emits_intros)
    by (rule triple_bnd [OF admit], rule enter)
qed

text \<open>
  C18 (status_order). The statuses an attempt writes follow one order, whatever the ports answer and wherever
  the attempt is interrupted: starting from the status it read from the task's snapshot, a target is leased
  only after submission or escalation, a worker is recorded as running only on a leased target, as completed
  only after running, and an escalation only follows a completed worker.
\<close>

theorem status_order:
  assumes "execute_attempt C task_id attempt_id contract request tr = Some (r, tr @ es)"
  shows "statuses es = [] \<or> (\<exists>s0. read_status task_id s0 es \<and> successively follows (s0 # statuses es))"
proof -
  have final: ?thesis if "orderly tr task_id (tr @ es)"
    using that by (auto simp: orderly_def unwritten_def in_order_def stands_at_def)
  have start: "unwritten tr tr" by (simp add: unwritten_def statuses_def List.map_filter_def)
  show ?thesis
    using assms
  proof (cases rule: execute_attempt_cases)
    case (began b)
    have "orderly tr task_id (tr @ es)"
    proof (cases b)
      case (Inl e)
      with tripleD_Inl [OF begin_order start began(1) [unfolded Inl]] show ?thesis by simp
    next
      case (Inr x)
      with tripleD [OF begin_order start began(1) [unfolded Inr]] show ?thesis by simp
    qed
    then show ?thesis by (rule final)
  next
    case (looped rn lp es1 q tr2)
    from tripleD [OF begin_order start looped(1)] obtain s0 where "stands_at tr task_id s0 (lp_status lp) (tr @ es1)" by blast
    from loop_act_invariant [OF looped(4) this iteration_order]
    have loop: "case q of Inl e \<Rightarrow> in_order tr task_id s0 tr2 | Inr lp' \<Rightarrow> stands_at tr task_id s0 (lp_status lp') tr2"
      by (auto split: sum.splits)
    have "orderly tr task_id (tr @ es)"
    proof (cases q)
      case (Inl e)
      with loop looped(5) show ?thesis by (auto simp: orderly_def)
    next
      case (Inr lp')
      have "emits no_checkpoint (finalize_completed C rn lp')"
        unfolding finalize_completed_def by (intro emits_intros) (simp add: no_checkpoint_def)
      note fin = stands_at_unrecorded [OF this, of tr task_id s0 "lp_status lp'"]
      from loop looped(5) Inr have st: "stands_at tr task_id s0 (lp_status lp') tr2"
        and run: "finalize_completed C rn lp' tr2 = (r, tr @ es)" by simp_all
      have "in_order tr task_id s0 (tr @ es)"
      proof (cases r)
        case (Inl e)
        with run show ?thesis using tripleD_Inl [OF fin st, of e] by simp
      next
        case (Inr d)
        with run show ?thesis using tripleD [OF fin st, of d] stands_at_in_order by simp
      qed
      then show ?thesis by (auto simp: orderly_def)
    qed
    then show ?thesis by (rule final)
  qed
qed

section \<open>Termination\<close>

text \<open>A receipt is a worker's answer, or it proves completion.\<close>

lemma adds_answer: "adds (ask port ev) (\<lambda>x es. \<exists>tr. port tr = Inr x)"
  by (auto simp: adds_def)

lemma adds_invoke_worker_answer:
  "adds (invoke_worker C rn lp pr v) (\<lambda>r es. \<exists>tr iv. wp_invoke (co_worker C) tr iv = Inr r)"
  unfolding invoke_worker_def invoke_def
  apply (rule adds_bnd [OF adds_answer], rule adds_bnd_emits [where K = quiet])
   apply (intro emits_intros)
  by (rule adds_ret) blast

lemma adds_obtain_receipt_answer:
  "adds (obtain_receipt C rn lp pr) (\<lambda>r es. (\<exists>tr iv. wp_invoke (co_worker C) tr iv = Inr r) \<or>
     (\<exists>ob. r = Some ob \<and> proved_completion ob))"
  unfolding obtain_receipt_def
  apply (rule adds_option, rule adds_mono [OF adds_invoke_worker_answer], blast)
  apply (rule adds_bnd [where P = "\<lambda>r es. \<forall>ob. snd (snd r) = Some ob \<longrightarrow> proved_completion ob"])
   apply (simp only: model_gate_def Let_def)
   apply (rule adds_bnd_ask, rule adds_bnd_emits [where K = quiet])
    apply (intro emits_intros)
   apply (rule adds_bnd [OF adds_consume_model_call_verdict], rule adds_prod, rule adds_ret)
   apply (simp add: avoids_model_def)
  apply (rule adds_prod, rule adds_prod, rule adds_option)
   apply (rule adds_mono [OF adds_invoke_worker_answer], blast)
  by (rule adds_ret) simp

text \<open>Every worker of a coordinator accounts for at least one provider call.\<close>

definition accountable :: "coordinator \<Rightarrow> bool" where
  "accountable C \<longleftrightarrow> (\<forall>tr iv ob v n. wp_invoke (co_worker C) tr iv = Inr (Some ob) \<longrightarrow>
     attr ob ''provider_calls'' = Inr v \<longrightarrow> py_int v = Inr n \<longrightarrow> 1 \<le> n)"

definition calls_left :: "run \<Rightarrow> obj list \<Rightarrow> nat" where
  "calls_left rn attempts =
    (case (py_int (rn_max_calls rn), consumed ''provider_calls'' attempts) of
       (Inr configured, Inr calls) \<Rightarrow> nat (configured - calls) | _ \<Rightarrow> 0)"

definition settled :: "obj list \<Rightarrow> bool" where
  "settled attempts \<longleftrightarrow> attempts \<noteq> [] \<and> proved_completion (last attempts)"

lemma record_receipt_progress:
  assumes "prepared C rn lp pr es" and "accountable C"
    and "(\<exists>tr iv. wp_invoke (co_worker C) tr iv = Inr (Some receipt)) \<or> proved_completion receipt"
  shows "adds (record_receipt C rn lp pr receipt) (\<lambda>lp' es. lp_status lp' = ''WORKER_COMPLETED'' \<and>
    lp_break lp' = lp_break lp \<and> (settled (lp_attempts lp') \<or> calls_left rn (lp_attempts lp') < calls_left rn (lp_attempts lp)))"
  unfolding record_receipt_def
proof (rule adds_bnd_lift)
  fix u
  assume "check_receipt pr receipt = Inr u"
  from check_receipt_budget(2) [OF assms(1) this] obtain calls v n configured where
    c: "consumed ''provider_calls'' (lp_attempts lp) = Inr calls" "py_int (rn_max_calls rn) = Inr configured" "calls < configured"
      "consumed ''provider_calls'' (lp_attempts lp @ [receipt]) = Inr (calls + n)"
    and n: "attr receipt ''provider_calls'' = Inr v" "py_int v = Inr n" by blast
  have "settled (lp_attempts lp @ [receipt]) \<or> calls_left rn (lp_attempts lp @ [receipt]) < calls_left rn (lp_attempts lp)"
  proof (cases "proved_completion receipt")
    case False
    with assms(2,3) n have "1 \<le> n" unfolding accountable_def by blast
    with c show ?thesis by (simp add: calls_left_def)
  qed (simp add: settled_def)
  then show "adds (bnd (update C (rn_task_id rn) (rn_attempt_id rn) ''WORKER_COMPLETED'' (completion_values rn lp pr receipt)) (\<lambda>_.
     bnd (snapshot_or C (rn_task_id rn) []) (\<lambda>state.
     ret (lp\<lparr> lp_state := state, lp_status := ''WORKER_COMPLETED'', lp_attempts := lp_attempts lp @ [receipt],
              lp_execution := CObj receipt \<rparr>))))
     (\<lambda>lp' es. lp_status lp' = ''WORKER_COMPLETED'' \<and> lp_break lp' = lp_break lp \<and>
        (settled (lp_attempts lp') \<or> calls_left rn (lp_attempts lp') < calls_left rn (lp_attempts lp)))"
    by (intro adds_bnd [OF adds_emits [OF emits_update [where K = "\<lambda>_. True"]]] adds_bnd_emits [OF emits_calls(2)] adds_ret)
      simp_all
qed

lemma run_worker_progress:
  assumes "accountable C"
  shows "adds (run_worker C rn lp) (\<lambda>lp' es. lp_status lp' = ''WORKER_COMPLETED'' \<and>
    lp_break lp' = lp_break lp \<and> (settled (lp_attempts lp') \<or> calls_left rn (lp_attempts lp') < calls_left rn (lp_attempts lp)))"
  unfolding run_worker_def
  apply (rule adds_bnd [OF adds_prepare_worker], rule adds_bnd [OF adds_obtain_receipt_answer])
  apply (rule adds_bnd_emits [OF emits_check_deadline], rule adds_option, rule adds_raise)
  by (rule record_receipt_progress [OF _ assms]) auto

lemma receipt_completed_iff: "receipt_completed receipt = Inr b \<Longrightarrow> b = proved_completion receipt"
  by (auto simp: receipt_completed_def proved_completion_def bindr_eq_Inr attr_eq_Inr attr_or_def dget_default_def
      split: if_splits)

lemma adds_latest_receipt: "adds (latest_receipt C lp) (\<lambda>r es. lp_attempts lp \<noteq> [] \<longrightarrow> r = last (lp_attempts lp))"
  unfolding latest_receipt_def
  apply (rule adds_bnd [where P = "\<lambda>r es. lp_attempts lp \<noteq> [] \<longrightarrow> r = Some (last (lp_attempts lp))"])
   apply (rule adds_if, rule adds_ret, simp, rule adds_mono [OF adds_emits [OF emits_calls(10)]], simp)
  by (rule adds_option, rule adds_raise, rule adds_ret) auto

lemma escalate_runs:
  "adds (escalate C rn lp latest order reason) (\<lambda>lp' es. lp_status lp' = ''WORKER_RUNNING'' \<and>
     lp_attempts lp' = lp_attempts lp \<and> lp_break lp' = lp_break lp)"
  unfolding escalate_def
  apply (rule adds_bnd_emits [OF emits_next_ready_provider], rule adds_option, rule adds_raise)
  apply (rule adds_bnd_raise_when, rule adds_bnd_lift, rule adds_bnd_lift)
  apply (rule adds_bnd [OF adds_emits [OF emits_update [where K = "\<lambda>_. True"]]], simp, rule adds_bnd_emits [OF emits_boundary])
  apply (rule adds_bnd_emits [OF emits_replace_lease], rule adds_bnd_emits [OF emits_boundary])
  apply (rule adds_bnd_emits [OF emits_require_ready], rule adds_bnd_emits [OF emits_start_running])
  by (rule adds_ret) simp

lemma adds_failed_with: "adds (failed_with receipt text) Q"
  unfolding failed_with_def by (rule adds_bnd_lift, rule adds_if, rule adds_raise, rule adds_bnd_lift, rule adds_raise)

lemma judge_worker_progress:
  "adds (judge_worker C rn lp) (\<lambda>lp' es. lp_break lp' \<or>
     (\<not> settled (lp_attempts lp) \<and> lp_status lp' = ''WORKER_RUNNING'' \<and> lp_attempts lp' = lp_attempts lp))"
  unfolding judge_worker_def
  apply (rule adds_bnd [OF adds_latest_receipt], rule adds_bnd_lift, rule adds_if, rule adds_if)
    apply (rule adds_bnd_lift, rule adds_bnd_emits [OF emits_ensure_host_prepared], rule adds_ret, simp)
   apply (rule adds_ret, simp)
  apply (rule adds_if, rule adds_failed_with)
  apply (rule adds_bnd_emits [where K = quiet], intro emits_intros)
  apply (rule adds_option, rule adds_failed_with, rule adds_prod, rule adds_if, rule adds_ret, simp)
  apply (rule adds_if, rule adds_failed_with, rule adds_mono [OF escalate_runs])
  by (auto simp: settled_def dest: receipt_completed_iff)

definition attempt_measure :: "run \<Rightarrow> loop \<Rightarrow> nat" where
  "attempt_measure rn lp =
    (if lp_break lp then 0
     else if lp_status lp = ''WORKER_RUNNING'' then 2 * calls_left rn (lp_attempts lp) + 2
     else if settled (lp_attempts lp) then 1 else 2 * calls_left rn (lp_attempts lp) + 3)"

lemma iteration_progress:
  assumes "accountable C" and "looping lp" and "iteration C rn lp tr = (Inr lp', tr')"
  shows "attempt_measure rn lp' < attempt_measure rn lp"
proof (cases "lp_status lp = ''WORKER_RUNNING''")
  case True
  with assms(3) have "run_worker C rn lp tr = (Inr lp', tr')" by (simp add: iteration_def)
  with run_worker_progress [OF assms(1)] have "lp_status lp' = ''WORKER_COMPLETED'' \<and> lp_break lp' = lp_break lp \<and>
      (settled (lp_attempts lp') \<or> calls_left rn (lp_attempts lp') < calls_left rn (lp_attempts lp))"
    by (rule addsD)
  then show ?thesis using True assms(2) by (auto simp: attempt_measure_def looping_def)
next
  case False
  with assms(3) have "judge_worker C rn lp tr = (Inr lp', tr')" by (simp add: iteration_def)
  with judge_worker_progress have "lp_break lp' \<or>
     (\<not> settled (lp_attempts lp) \<and> lp_status lp' = ''WORKER_RUNNING'' \<and> lp_attempts lp' = lp_attempts lp)" by (rule addsD)
  then show ?thesis using False assms(2) by (auto simp: attempt_measure_def looping_def)
qed

text \<open>
  C3 (attempt_terminates). When every receipt a worker returns accounts for at least one provider call, an
  attempt ends, with a result or an exception, whatever else the ports answer: each failed worker uses up
  some of the finite call budget, and a receipt that stands for an avoided model call ends the loop.
\<close>

theorem attempt_terminates:
  assumes "\<And>tr iv ob v n. wp_invoke (co_worker C) tr iv = Inr (Some ob) \<Longrightarrow> attr ob ''provider_calls'' = Inr v \<Longrightarrow>
      py_int v = Inr n \<Longrightarrow> 1 \<le> n"
  shows "\<exists>r tr'. execute_attempt C task_id attempt_id contract request tr = Some (r, tr')"
proof -
  have acc: "accountable C" using assms unfolding accountable_def by blast
  have loop: "\<exists>r tr'. loop_act looping (iteration C rn) lp tr1 = Some (r, tr')" for rn lp tr1
    by (rule loop_act_terminates [where I = "\<lambda>_ _. True" and f = "attempt_measure rn"])
      (auto intro: iteration_progress [OF acc])
  obtain b tr1 where b: "begin_attempt C task_id attempt_id contract request tr = (b, tr1)" by fastforce
  show ?thesis
  proof (cases "\<exists>rn lp. b = Inr (Entered rn lp)")
    case True
    then obtain rn lp where rn: "b = Inr (Entered rn lp)" by blast
    obtain q tr2 where "loop_act looping (iteration C rn) lp tr1 = Some (q, tr2)" using loop by blast
    then show ?thesis by (cases q) (auto simp: execute_attempt_def b rn finalize_completed_def)
  next
    case False
    then show ?thesis by (auto simp: execute_attempt_def b split: sum.splits entry.splits)
  qed
qed

end
