(* ===== verification/Coordinator_Owner.thy ===== *)
theory Coordinator_Owner
  imports Coordinator_Order
begin

text \<open>
  The owner of an attempt: \<open>run_owned_attempt\<close> and \<open>launch\<close> of \<open>BaseExecutionCoordinator\<close>. How an owned
  attempt ends, behind which checks a custom runner is started, and when a launch starts a worker. The
  concrete runs at the end exercise the properties of attempts.
\<close>

section \<open>How an owned attempt ends\<close>

text \<open>The test of \<open>run_owned_attempt\<close>: the snapshot names this attempt and no other process.\<close>

definition owned :: "coordinator \<Rightarrow> string \<Rightarrow> dict \<Rightarrow> bool" where
  "owned C attempt_id state \<longleftrightarrow> dget state ''attempt_id'' = PStr attempt_id \<and>
     (is_none (dget state ''worker_pid'') \<or> py_eq (dget state ''worker_pid'') (PInt (ht_pid (co_host C))))"

definition failure_recorded :: "coordinator \<Rightarrow> string \<Rightarrow> string \<Rightarrow> exn \<Rightarrow> unit res \<Rightarrow> event list \<Rightarrow> bool" where
  "failure_recorded C task_id attempt_id exc r es \<longleftrightarrow>
     (\<exists>e. r = Inl e \<and> es = [Process (TerminateOwned task_id (ht_pid (co_host C)) (Inl e))]) \<or>
     es = [Process (TerminateOwned task_id (ht_pid (co_host C)) (Inr ())),
           Finalization (FinalizeFailure task_id attempt_id exc r)]"

lemma record_failure_recorded:
  "record_failure C task_id attempt_id exc tr = (r, tr') \<Longrightarrow> \<exists>es. tr' = tr @ es \<and> failure_recorded C task_id attempt_id exc r es"
  by (cases "op_terminate_owned (co_processes C) tr task_id (ht_pid (co_host C))")
    (auto simp: record_failure_def bnd_def failure_recorded_def dest: sym)

definition final_status :: "dict \<Rightarrow> string" where
  "final_status result =
     (if dget result ''promotion_status'' = PStr ''PENDING_HUMAN_APPROVAL'' then ''PENDING_HUMAN_APPROVAL''
      else ''CANDIDATE_COMMITTED'')"

definition success_recorded :: "coordinator \<Rightarrow> string \<Rightarrow> string \<Rightarrow> dict \<Rightarrow> event list \<Rightarrow> bool" where
  "success_recorded C task_id attempt_id result es \<longleftrightarrow>
     (\<exists>found ended. let current = (case found of None \<Rightarrow> [] | Some d \<Rightarrow> d) in
        terminal C (dget current ''status'') = Inr ended \<and>
        (if ended then es = [State (ReadSnapshot task_id (Inr found))]
         else \<exists>d. es = [State (ReadSnapshot task_id (Inr found)),
           State (Checkpoint task_id (final_status result) (map (\<lambda>(k, v). (k, CV v)) result) attempt_id (Inr d))]))"

lemma conclude_recorded:
  assumes "conclude C task_id attempt_id result tr = (Inr u, tr')"
  shows "\<exists>es. tr' = tr @ es \<and> success_recorded C task_id attempt_id result es"
proof -
  from assms obtain found ended where
    "sp_read_snapshot (co_state C) tr task_id = Inr found"
    "terminal C (dget (case found of None \<Rightarrow> [] | Some d \<Rightarrow> d) ''status'') = Inr ended"
    "if ended then tr' = tr @ [State (ReadSnapshot task_id (Inr found))]
     else \<exists>d. tr' = tr @ [State (ReadSnapshot task_id (Inr found)),
       State (Checkpoint task_id (final_status result) (map (\<lambda>(k, v). (k, CV v)) result) attempt_id (Inr d))]"
    by (auto simp: conclude_def snapshot_or_def snapshot_def update_def final_status_def act_simps split: if_splits option.splits)
  then show ?thesis unfolding success_recorded_def Let_def by (cases ended) auto
qed

lemma emits_conclude: "emits (\<lambda>_. True) (conclude C task_id attempt_id result)"
  unfolding conclude_def snapshot_or_def snapshot_def update_def by (intro emits_intros) auto

text \<open>
  C4 (owned_attempt_concluded). How an owned attempt that ends is concluded; a process that does not own the
  attempt does nothing but read. When the attempt raises, the owned processes are terminated and what it raised
  is handed to the failure finalization, unless that termination raises: then its exception is the outcome and
  the failure finalization is not called (\<open>termination_failure_unrecorded\<close>). The same happens to an exception
  while the success is recorded. When the attempt returns, a terminal status is already durable or the final
  status is checkpointed with the result. So the owner raises only what the first read, the termination or
  the failure finalization raised.
\<close>

theorem owned_attempt_concluded:
  assumes "run_owned_attempt C task_id attempt_id custom_runner tr = Some (r, tr')"
  shows "(\<exists>e. r = Inl e \<and> tr' = tr @ [State (ReadSnapshot task_id (Inl e))]) \<or>
    (\<exists>found. r = Inr () \<and> tr' = tr @ [State (ReadSnapshot task_id (Inr found))] \<and>
       (\<forall>state. found = Some state \<longrightarrow> \<not> owned C attempt_id state)) \<or>
    (\<exists>state answer tr2. owned C attempt_id state \<and>
       attempt_result C task_id attempt_id state custom_runner (tr @ [State (ReadSnapshot task_id (Inr (Some state)))]) =
         Some (answer, tr2) \<and>
       (case answer of
          Inl exc \<Rightarrow> \<exists>es. tr' = tr2 @ es \<and> failure_recorded C task_id attempt_id exc r es
        | Inr result \<Rightarrow>
            (\<exists>es. r = Inr () \<and> tr' = tr2 @ es \<and> success_recorded C task_id attempt_id result es) \<or>
            (\<exists>exc read es. conclude C task_id attempt_id result tr2 = (Inl exc, tr2 @ read) \<and>
               tr' = tr2 @ read @ es \<and> failure_recorded C task_id attempt_id exc r es)))"
proof (cases "sp_read_snapshot (co_state C) tr task_id")
  case (Inl e)
  with assms show ?thesis by (auto simp: run_owned_attempt_def snapshot_def)
next
  case found: (Inr found)
  show ?thesis
  proof (cases "\<exists>state. found = Some state \<and> owned C attempt_id state")
    case False
    with assms found show ?thesis
      by (auto simp: run_owned_attempt_def snapshot_def owned_def split: option.splits)
  next
    case True
    then obtain state where state: "found = Some state" "owned C attempt_id state" by blast
    let ?tr1 = "tr @ [State (ReadSnapshot task_id (Inr (Some state)))]"
    from assms found state obtain answer tr2 where
      run: "attempt_result C task_id attempt_id state custom_runner ?tr1 = Some (answer, tr2)"
      and fin: "(case answer of Inl e \<Rightarrow> record_failure C task_id attempt_id e tr2
        | Inr result \<Rightarrow> catching (conclude C task_id attempt_id result) (record_failure C task_id attempt_id) tr2) = (r, tr')"
      by (auto simp: run_owned_attempt_def snapshot_def owned_def split: option.splits prod.splits sum.splits)
    have "case answer of
          Inl exc \<Rightarrow> \<exists>es. tr' = tr2 @ es \<and> failure_recorded C task_id attempt_id exc r es
        | Inr result \<Rightarrow>
            (\<exists>es. r = Inr () \<and> tr' = tr2 @ es \<and> success_recorded C task_id attempt_id result es) \<or>
            (\<exists>exc read es. conclude C task_id attempt_id result tr2 = (Inl exc, tr2 @ read) \<and>
               tr' = tr2 @ read @ es \<and> failure_recorded C task_id attempt_id exc r es)"
    proof (cases answer)
      case (Inl exc)
      with fin show ?thesis by (auto dest: record_failure_recorded)
    next
      case (Inr result)
      obtain q tr3 where q: "conclude C task_id attempt_id result tr2 = (q, tr3)" by fastforce
      from emitsD [OF emits_conclude q] obtain read where read: "tr3 = tr2 @ read" by blast
      show ?thesis
      proof (cases q)
        case (Inl exc)
        with fin Inr q read have "record_failure C task_id attempt_id exc (tr2 @ read) = (r, tr')" by (simp add: catching_def)
        from record_failure_recorded [OF this] obtain es where
          "tr' = tr2 @ read @ es" "failure_recorded C task_id attempt_id exc r es" by auto
        with q Inl read Inr show ?thesis by fastforce
      next
        case ok: (Inr u)
        with fin Inr q have "r = Inr ()" "tr' = tr3" by (auto simp: catching_def)
        with conclude_recorded [OF q [unfolded ok]] Inr show ?thesis by auto
      qed
    qed
    with state(2) run show ?thesis by blast
  qed
qed

text \<open>
  The handler terminates the owned processes before it records the failure and outside any handler of its own:
  when the termination raises, the failure of the attempt is recorded nowhere.
\<close>

theorem termination_failure_unrecorded:
  assumes "sp_read_snapshot (co_state C) tr task_id = Inr (Some state)" and "owned C attempt_id state"
    and "attempt_result C task_id attempt_id state custom_runner (tr @ [State (ReadSnapshot task_id (Inr (Some state)))]) =
      Some (Inl exc, tr2)"
    and "op_terminate_owned (co_processes C) tr2 task_id (ht_pid (co_host C)) = Inl e"
  shows "run_owned_attempt C task_id attempt_id custom_runner tr =
    Some (Inl e, tr2 @ [Process (TerminateOwned task_id (ht_pid (co_host C)) (Inl e))])"
  using assms by (auto simp: run_owned_attempt_def snapshot_def owned_def record_failure_def bnd_def)

section \<open>Custom runners\<close>

definition is_custom :: "event \<Rightarrow> bool" where
  "is_custom e = (case e of Custom _ _ \<Rightarrow> True | _ \<Rightarrow> False)"

lemma quiet_not_custom: "quiet e \<Longrightarrow> \<not> is_custom e"
  by (cases e) (auto simp: is_custom_def)

lemma emits_bound_values: "emits (\<lambda>e. \<not> is_custom e) (bound_values C values)"
  unfolding bound_values_def by (intro emits_intros) (simp add: is_custom_def)

lemma emits_custom_update: "emits (\<lambda>e. \<not> is_custom e) (custom_update C task_id attempt_id status values)"
  unfolding custom_update_def update_def by (intro emits_intros emits_bound_values) (simp add: is_custom_def)

lemma emits_run_plan: "emits (\<lambda>e. \<not> is_custom e) (run_plan C task_id attempt_id p)"
proof (induction p)
  case (Finish r)
  show ?case unfolding run_plan.simps by (rule emits_lift)
next
  case (Step status vs continue)
  show ?case
    unfolding emits_def
  proof
    fix tr
    obtain r tr1 where u: "custom_update C task_id attempt_id status vs tr = (r, tr1)" by fastforce
    from emitsD [OF emits_custom_update u] obtain es where es: "tr1 = tr @ es" "\<forall>e \<in> set es. \<not> is_custom e" .
    have "emits (\<lambda>e. \<not> is_custom e) (run_plan C task_id attempt_id (continue r))" by (rule Step) simp
    then obtain fs where "snd (run_plan C task_id attempt_id (continue r) tr1) = tr1 @ fs" "\<forall>e \<in> set fs. \<not> is_custom e"
      unfolding emits_def by blast
    with es show "\<exists>es. snd (run_plan C task_id attempt_id (Step status vs continue) tr) = tr @ es \<and> (\<forall>e \<in> set es. \<not> is_custom e)"
      by (auto simp: u intro!: exI [of _ "es @ fs"])
  qed
qed

text \<open>What has been established when a custom runner starts.\<close>

definition custom_ok :: "coordinator \<Rightarrow> string \<Rightarrow> dict \<Rightarrow> obj \<Rightarrow> dict \<Rightarrow> event list \<Rightarrow> event \<Rightarrow> bool" where
  "custom_ok C attempt_id state contract rq pre e \<longleftrightarrow> (is_custom e \<longrightarrow> e = Custom contract rq \<and>
     ((\<not> co_require_effect_authority C \<and> \<not> effect_authorization_requested rq state) \<or> (\<exists>a. authorized C attempt_id rq a pre)))"

lemma custom_ok_other: "\<not> is_custom e \<Longrightarrow> custom_ok C attempt_id state contract rq pre e"
  by (simp add: custom_ok_def)

lemma obeys_custom_runner_result:
  assumes "\<And>pre e. \<not> is_custom e \<Longrightarrow> G pre e" and "G [] (Custom contract request)"
  shows "obeys G (custom_runner_result C task_id attempt_id contract request runner)"
  unfolding obeys_def
proof
  fix tr
  obtain fs where "snd (custom_runner_result C task_id attempt_id contract request runner tr) = (tr @ [Custom contract request]) @ fs"
    and "\<forall>e \<in> set fs. \<not> is_custom e"
    using emits_run_plan unfolding custom_runner_result_def emits_def by blast
  then show "\<exists>es. snd (custom_runner_result C task_id attempt_id contract request runner tr) = tr @ es \<and> lawful G es"
    using assms by (auto intro!: exI [of _ "Custom contract request # fs"] simp: lawful_def nth_Cons' split: if_splits)
qed

lemma adds_custom_runner_result:
  "adds (custom_runner_result C task_id attempt_id contract request runner) (\<lambda>_ _. True)"
proof -
  have "obeys (\<lambda>_ _. True) (custom_runner_result C task_id attempt_id contract request runner)"
    by (rule obeys_custom_runner_result) simp_all
  then show ?thesis unfolding adds_def obeys_def by (metis snd_conv)
qed

lemma obeys_run_custom:
  "obeys (custom_ok C attempt_id state contract rq) (run_custom C task_id attempt_id state (PDict rq) contract runner)"
  unfolding run_custom_def
  apply (rule obeys_bnd_lift, simp)
  apply (rule obeys_bnd [OF obeys_emits [OF emits_ensure_effect_authorization] adds_ensure_effect_authorization])
   apply (simp add: custom_ok_other quiet_not_custom)
  apply (rule obeys_bnd [where P = "\<lambda>_ _. True"], rule obeys_custom_runner_result)
     apply (simp add: custom_ok_other)
    apply (auto simp: custom_ok_def split: option.splits) [1]
   apply (rule adds_custom_runner_result)
  by (rule obeys_emits [OF emits_bound_values]) (simp add: custom_ok_other)

text \<open>A request that is no mapping has no \<open>get\<close>: the runner is not started.\<close>

lemma run_custom_no_mapping:
  "(\<And>rq. request \<noteq> PDict rq) \<Longrightarrow> snd (run_custom C task_id attempt_id state request contract runner tr) = tr"
  by (cases request) (auto simp: run_custom_def bnd_def)

lemma authorized_Cons: "authorized C attempt_id rq a pre \<Longrightarrow> authorized C attempt_id rq a (e # pre)"
  by (erule authorized_mono) auto

definition custom_started :: "coordinator \<Rightarrow> string \<Rightarrow> string \<Rightarrow> event list \<Rightarrow> event \<Rightarrow> bool" where
  "custom_started C task_id attempt_id pre e \<longleftrightarrow> (\<forall>c rq. e = Custom c rq \<longrightarrow>
     (\<exists>state. State (ReadSnapshot task_id (Inr (Some state))) \<in> set pre \<and> owned C attempt_id state \<and>
        dindex state ''request'' = Inr (PDict rq) \<and> Contract (BuildContract (PDict rq) (Inr c)) \<in> set pre \<and>
        ((\<not> co_require_effect_authority C \<and> \<not> effect_authorization_requested rq state) \<or>
         (\<exists>a. authorized C attempt_id rq a pre))))"

lemma custom_started_other: "\<not> is_custom e \<Longrightarrow> custom_started C task_id attempt_id pre e"
  by (auto simp: custom_started_def is_custom_def)

lemma attempt_result_custom:
  assumes "attempt_result C task_id attempt_id state (Some runner) tr1 = Some (answer, tr2)" and "owned C attempt_id state"
  shows "\<exists>es. tr2 = tr1 @ es \<and>
    lawful (\<lambda>pre. custom_started C task_id attempt_id (State (ReadSnapshot task_id (Inr (Some state))) # pre)) es"
    (is "\<exists>es. _ \<and> lawful ?G es")
proof (cases "dindex state ''request''")
  case (Inl e)
  with assms(1) show ?thesis by (auto simp: attempt_result_def bnd_def)
next
  case request: (Inr request)
  let ?b = "kp_build_contract (co_contract C) tr1 request"
  have build: "?G [] (Contract (BuildContract request ?b))" by (simp add: custom_started_def)
  show ?thesis
  proof (cases ?b)
    case (Inl e)
    with assms(1) request build show ?thesis
      by (auto simp: attempt_result_def bnd_def build_contract_def lawful_def intro!: exI [of _ "[Contract (BuildContract request (Inl e))]"])
  next
    case contract: (Inr contract)
    let ?tr1 = "tr1 @ [Contract (BuildContract request (Inr contract))]"
    from assms(1) request contract have run: "run_custom C task_id attempt_id state request contract runner ?tr1 = (answer, tr2)"
      by (simp add: attempt_result_def bnd_def build_contract_def)
    have "\<exists>fs. tr2 = ?tr1 @ fs \<and> lawful (\<lambda>pre. ?G (Contract (BuildContract request (Inr contract)) # pre)) fs"
    proof (cases "\<exists>rq. request = PDict rq")
      case False
      with run_custom_no_mapping [of request C task_id attempt_id state contract runner ?tr1] run show ?thesis by simp
    next
      case True
      then obtain rq where rq: "request = PDict rq" by blast
      from obeysD [OF obeys_run_custom run [unfolded rq]] obtain fs where fs: "tr2 = ?tr1 @ fs" "lawful (custom_ok C attempt_id state contract rq) fs"
        unfolding rq by blast
      have "?G (Contract (BuildContract request (Inr contract)) # pre) e" if "custom_ok C attempt_id state contract rq pre e" for pre e
        using that assms(2) request rq
        by (auto simp: custom_started_def custom_ok_def is_custom_def intro!: exI [of _ state]
            dest: authorized_Cons [OF authorized_Cons])
      with fs show ?thesis by (auto simp: lawful_def)
    qed
    then obtain fs where fs: "tr2 = ?tr1 @ fs" "lawful (\<lambda>pre. ?G (Contract (BuildContract request (Inr contract)) # pre)) fs" by blast
    then show ?thesis
      using lawful_append [of ?G "[Contract (BuildContract request (Inr contract))]" fs] build contract
      by (intro exI [of _ "Contract (BuildContract request (Inr contract)) # fs"]) (simp add: lawful_def)
  qed
qed

lemma emits_owner_end:
  "emits (\<lambda>e. \<not> is_custom e) (record_failure C task_id attempt_id exc)"
  "emits (\<lambda>e. \<not> is_custom e) (conclude C task_id attempt_id result)"
  unfolding record_failure_def conclude_def snapshot_or_def snapshot_def update_def
  by (intro emits_intros; simp add: is_custom_def)+

text \<open>
  C20 (custom_runner_guarded). A custom runner is started only by the owner of the attempt and behind the
  same gate as a worker: the snapshot the owner read names this attempt and no other process, its durable
  request was turned into the contract the runner gets, and an effect authorization for that request was
  admitted, unless none is required and none was requested.
\<close>

theorem custom_runner_guarded:
  assumes "run_owned_attempt C task_id attempt_id (Some runner) tr = Some (r, tr @ pre @ Custom c rq # post)"
  shows "\<exists>state. State (ReadSnapshot task_id (Inr (Some state))) \<in> set pre \<and> owned C attempt_id state \<and>
    dindex state ''request'' = Inr (PDict rq) \<and> Contract (BuildContract (PDict rq) (Inr c)) \<in> set pre \<and>
    ((\<not> co_require_effect_authority C \<and> \<not> effect_authorization_requested rq state) \<or> (\<exists>a. authorized C attempt_id rq a pre))"
proof -
  let ?read = "\<lambda>found. State (ReadSnapshot task_id found)"
  have found: "\<exists>state. sp_read_snapshot (co_state C) tr task_id = Inr (Some state) \<and> owned C attempt_id state"
    using assms by (auto simp: run_owned_attempt_def snapshot_def owned_def Cons_eq_append_conv split: sum.splits option.splits if_splits)
  then obtain state where state: "sp_read_snapshot (co_state C) tr task_id = Inr (Some state)" "owned C attempt_id state" by blast
  from assms state obtain answer tr2 where
    run: "attempt_result C task_id attempt_id state (Some runner) (tr @ [?read (Inr (Some state))]) = Some (answer, tr2)"
    and fin: "(case answer of Inl e \<Rightarrow> record_failure C task_id attempt_id e tr2
      | Inr result \<Rightarrow> catching (conclude C task_id attempt_id result) (record_failure C task_id attempt_id) tr2) =
      (r, tr @ pre @ Custom c rq # post)"
    by (auto simp: run_owned_attempt_def snapshot_def owned_def split: option.splits prod.splits sum.splits)
  from attempt_result_custom [OF run state(2)] obtain es where es: "tr2 = tr @ ?read (Inr (Some state)) # es"
    and es_ok: "lawful (\<lambda>pre. custom_started C task_id attempt_id (?read (Inr (Some state)) # pre)) es" by auto
  have "emits (\<lambda>e. \<not> is_custom e) (case answer of Inl e \<Rightarrow> record_failure C task_id attempt_id e
      | Inr result \<Rightarrow> catching (conclude C task_id attempt_id result) (record_failure C task_id attempt_id))"
    by (auto intro!: emits_owner_end emits_catching split: sum.split)
  from emitsD [OF this, of tr2] fin obtain fs where
    fs: "tr @ pre @ Custom c rq # post = tr2 @ fs" "\<forall>e \<in> set fs. \<not> is_custom e" by (auto split: sum.splits)
  have "lawful (custom_started C task_id attempt_id) ([?read (Inr (Some state))] @ es @ fs)"
    unfolding lawful_append using es_ok fs(2)
    by (auto simp: lawful_def custom_started_other is_custom_def intro!: lawful_all [unfolded lawful_def, rule_format])
  then have "lawful (custom_started C task_id attempt_id) (pre @ Custom c rq # post)" using es fs(1) by simp
  from lawful_split [OF this refl] show ?thesis unfolding custom_started_def by blast
qed

section \<open>Launching\<close>

fun is_start :: "event \<Rightarrow> bool" where
  "is_start (Process (StartThread _ _)) = True"
| "is_start (Process (StartProcess _ _ _)) = True"
| "is_start _ = False"

text \<open>What has been established when a launch starts a worker.\<close>

definition start_ok :: "coordinator \<Rightarrow> string \<Rightarrow> string \<Rightarrow> event list \<Rightarrow> event \<Rightarrow> bool" where
  "start_ok C task_id attempt_id pre e \<longleftrightarrow> (is_start e \<longrightarrow>
     (\<exists>state. State (ReadSnapshot task_id (Inr (Some state))) \<in> set pre \<and>
        str_or (dget state ''attempt_id'') '''' = attempt_id \<and>
        (\<not> truthy (dget state ''worker_pid'') \<or>
         (\<exists>pid. py_int (dget state ''worker_pid'') = Inr pid \<and> Process (PidAlive pid (Inr False)) \<in> set pre))) \<and>
     (\<forall>e' \<in> set pre. \<not> is_start e') \<and>
     (\<forall>th a. e = Process (StartThread th a) \<longrightarrow> (\<exists>started heartbeat d.
        State (MutateMetadata task_id (worker_identity (PInt (ht_pid (co_host C))) (PInt (ht_pgid (co_host C)))
          ''thread'' started heartbeat) (Inr d)) \<in> set pre)))"

lemma start_ok_other: "\<not> is_start e \<Longrightarrow> start_ok C task_id attempt_id pre e"
  by (simp add: start_ok_def)

lemma launch_parts_ok:
  assumes "State (ReadSnapshot task_id (Inr (Some state))) \<in> set es" "str_or (dget state ''attempt_id'') '''' = attempt_id"
    "\<not> truthy (dget state ''worker_pid'') \<or>
       (\<exists>pid. py_int (dget state ''worker_pid'') = Inr pid \<and> Process (PidAlive pid (Inr False)) \<in> set es)"
    and "\<forall>e \<in> set es. \<not> is_start e"
  shows "obeys (\<lambda>pre. start_ok C task_id attempt_id (es @ pre)) (launch_thread C task_id attempt_id)"
    and "obeys (\<lambda>pre. start_ok C task_id attempt_id (es @ pre)) (launch_process C task_id attempt_id state_dir source_root)"
proof -
  show "obeys (\<lambda>pre. start_ok C task_id attempt_id (es @ pre)) (launch_thread C task_id attempt_id)"
    unfolding launch_thread_def now_text_def mutate_metadata_def snapshot_def
    by (intro obeys_bnd_ask obeys_ask; use assms in \<open>auto simp: start_ok_def\<close>)
  show "obeys (\<lambda>pre. start_ok C task_id attempt_id (es @ pre)) (launch_process C task_id attempt_id state_dir source_root)"
    unfolding launch_process_def now_text_def mutate_metadata_def
    by (intro obeys_bnd_ask obeys_bnd_lift obeys_ret; use assms in \<open>auto simp: start_ok_def\<close>)
qed

lemma obeys_launch: "obeys (start_ok C task_id attempt_id) (launch C task_id attempt_id state_dir custom source_root)"
  unfolding launch_def snapshot_def
proof (rule obeys_bnd_ask)
  show "start_ok C task_id attempt_id [] (State (ReadSnapshot task_id r))" for r by (simp add: start_ok_def)
next
  fix found
  let ?read = "State (ReadSnapshot task_id (Inr found))"
  show "obeys (\<lambda>pre. start_ok C task_id attempt_id (?read # pre))
      (case found of None \<Rightarrow> ret None
       | Some state \<Rightarrow>
           if str_or (dget state ''attempt_id'') '''' \<noteq> attempt_id then ret (Some state)
           else bnd (if truthy (dget state ''worker_pid'')
                then bnd (lift (py_int (dget state ''worker_pid''))) (\<lambda>pid.
                     ask (\<lambda>tr. op_pid_alive (co_processes C) tr pid) (\<lambda>r. Process (PidAlive pid r)))
                else ret False) (\<lambda>alive.
             if alive then ret (Some state)
             else if custom then launch_thread C task_id attempt_id
             else launch_process C task_id attempt_id state_dir source_root))"
  proof (rule obeys_option)
    fix state
    assume found: "found = Some state"
    let ?pid = "dget state ''worker_pid''"
    let ?alive = "if truthy ?pid then bnd (lift (py_int ?pid)) (\<lambda>pid.
       ask (\<lambda>tr. op_pid_alive (co_processes C) tr pid) (\<lambda>r. Process (PidAlive pid r))) else ret False"
    have alive: "adds ?alive (\<lambda>b es. (\<forall>e \<in> set es. \<not> is_start e) \<and> (\<not> b \<longrightarrow> \<not> truthy ?pid \<or>
       (\<exists>pid. py_int ?pid = Inr pid \<and> Process (PidAlive pid (Inr False)) \<in> set es)))"
      by (intro adds_if adds_bnd_lift adds_ask adds_ret) auto
    have "emits (\<lambda>e. \<not> is_start e) ?alive" by (intro emits_intros) auto
    note quiet = obeys_emits [OF this, of "\<lambda>pre. start_ok C task_id attempt_id (?read # pre)"]
    show "obeys (\<lambda>pre. start_ok C task_id attempt_id (?read # pre))
      (if str_or (dget state ''attempt_id'') '''' \<noteq> attempt_id then ret (Some state)
       else bnd ?alive (\<lambda>alive. if alive then ret (Some state)
             else if custom then launch_thread C task_id attempt_id
             else launch_process C task_id attempt_id state_dir source_root))"
    proof (rule obeys_if, simp)
      assume "\<not> str_or (dget state ''attempt_id'') '''' \<noteq> attempt_id"
      then have attempt: "str_or (dget state ''attempt_id'') '''' = attempt_id" by simp
      have rest: "obeys (\<lambda>pre. start_ok C task_id attempt_id ((?read # es) @ pre)) m"
        if "m = launch_thread C task_id attempt_id \<or> m = launch_process C task_id attempt_id state_dir source_root"
          and "\<forall>e \<in> set es. \<not> is_start e"
          and "\<not> truthy ?pid \<or> (\<exists>pid. py_int ?pid = Inr pid \<and> Process (PidAlive pid (Inr False)) \<in> set es)" for m es
        using launch_parts_ok [of task_id state "?read # es" attempt_id C] attempt found that by auto
      show "obeys (\<lambda>pre. start_ok C task_id attempt_id (?read # pre))
        (bnd ?alive (\<lambda>alive. if alive then ret (Some state)
             else if custom then launch_thread C task_id attempt_id
             else launch_process C task_id attempt_id state_dir source_root))"
      proof (rule obeys_bnd [OF quiet alive], rule start_ok_other, assumption, rule obeys_if, simp)
        fix b es
        assume "(\<forall>e \<in> set es. \<not> is_start e) \<and> (\<not> b \<longrightarrow> \<not> truthy ?pid \<or>
          (\<exists>pid. py_int ?pid = Inr pid \<and> Process (PidAlive pid (Inr False)) \<in> set es))" "\<not> b"
        then show "obeys (\<lambda>pre. start_ok C task_id attempt_id (?read # es @ pre))
            (if custom then launch_thread C task_id attempt_id else launch_process C task_id attempt_id state_dir source_root)"
          using rest [of "if custom then launch_thread C task_id attempt_id else launch_process C task_id attempt_id state_dir source_root" es]
          by simp
      qed
    qed
  qed simp
qed

text \<open>
  C19 (launch_guarded). A launch starts at most one worker, thread or process, and only for the attempt the
  snapshot names when that attempt has no worker recorded or the recorded worker is not alive; a thread is
  started only after its identity has been written to the durable state.
\<close>

theorem launch_guarded:
  assumes "launch C task_id attempt_id state_dir custom source_root tr = (r, tr @ pre @ e # post)" and "is_start e"
  shows "(\<exists>state. State (ReadSnapshot task_id (Inr (Some state))) \<in> set pre \<and>
        str_or (dget state ''attempt_id'') '''' = attempt_id \<and>
        (\<not> truthy (dget state ''worker_pid'') \<or>
         (\<exists>pid. py_int (dget state ''worker_pid'') = Inr pid \<and> Process (PidAlive pid (Inr False)) \<in> set pre))) \<and>
     (\<forall>e' \<in> set (pre @ post). \<not> is_start e') \<and>
     (\<forall>th a. e = Process (StartThread th a) \<longrightarrow> (\<exists>started heartbeat d.
        State (MutateMetadata task_id (worker_identity (PInt (ht_pid (co_host C))) (PInt (ht_pgid (co_host C)))
          ''thread'' started heartbeat) (Inr d)) \<in> set pre))"
proof -
  from obeysD [OF obeys_launch assms(1)] have law: "lawful (start_ok C task_id attempt_id) (pre @ e # post)" by simp
  have "\<not> is_start e'" if "e' \<in> set post" for e'
  proof
    assume "is_start e'"
    from split_list [OF that] obtain ps qs where "post = ps @ e' # qs" by blast
    with lawful_split [OF law, of "pre @ e # ps" e' qs] \<open>is_start e'\<close> assms(2) show False by (auto simp: start_ok_def)
  qed
  with lawful_split [OF law refl] assms(2) show ?thesis unfolding start_ok_def by auto
qed

section \<open>Concrete runs\<close>

text \<open>A worker whose first execution stays incomplete and whose second one completes.\<close>

definition escalating_work :: "trace \<Rightarrow> invocation \<Rightarrow> obj option res" where
  "escalating_work tr iv = Inr (Some
    (if list_ex is_invoke tr then sample_run_receipt
     else [(''outcome'', PStr ''INCOMPLETE''), (''evidence_complete'', PBool False), (''provider'', PStr ''codex''),
           (''provider_calls'', PInt 1), (''provider_attempt_count'', PInt 1), (''failure_reason'', PNone)]))"

definition run_statuses :: "('a res \<times> trace) option \<Rightarrow> string list option" where
  "run_statuses x = (case x of Some (Inr _, tr) \<Rightarrow> Some (statuses tr) | _ \<Rightarrow> None)"

definition run_count :: "(event \<Rightarrow> bool) \<Rightarrow> ('a res \<times> trace) option \<Rightarrow> nat" where
  "run_count K x = (case x of Some (Inr _, tr) \<Rightarrow> length (filter K tr) | _ \<Rightarrow> 0)"

abbreviation sample_attempt :: "(trace \<Rightarrow> invocation \<Rightarrow> obj option res) \<Rightarrow> (dict res \<times> trace) option" where
  "sample_attempt work \<equiv> execute_attempt (sample_coordinator False work) ''t'' ''a'' None PNone []"

lemma sample_statuses: "run_statuses (sample_attempt sample_work) = Some [''TARGET_LEASED'', ''WORKER_RUNNING'', ''WORKER_COMPLETED'']"
  by code_simp

lemma escalating_invokes: "run_count is_invoke (sample_attempt escalating_work) = 2"
  by code_simp

lemma run_statusesE:
  assumes "run_statuses x = Some ss"
  obtains r tr where "x = Some (Inr r, tr)" and "statuses tr = ss"
  using assms by (auto simp: run_statuses_def split: option.splits prod.splits sum.splits)

lemma run_countE:
  assumes "run_count K x = n" and "0 < n"
  obtains r tr where "x = Some (Inr r, tr)" and "length (filter K tr) = n"
  using assms by (auto simp: run_count_def split: option.splits prod.splits sum.splits)

theorem fast_lane_single_worker_witness:
  "\<exists>r es c rq. sample_attempt escalating_work = Some (Inr r, es) \<and> length (filter is_invoke es) = 2 \<and>
     Contract (FastLane c rq (Inr False)) \<in> set es"
proof -
  from escalating_invokes obtain r es where run: "sample_attempt escalating_work = Some (Inr r, es)"
    and two: "length (filter is_invoke es) = 2" by (rule run_countE) simp
  with fast_lane_single_worker [of "sample_coordinator False escalating_work" "''t''" "''a''" None PNone "[]" "Inr r" es]
  show ?thesis by auto
qed

theorem status_order_witness:
  "\<exists>r es s0. sample_attempt sample_work = Some (Inr r, es) \<and> read_status ''t'' s0 es \<and>
     successively follows [s0, ''TARGET_LEASED'', ''WORKER_RUNNING'', ''WORKER_COMPLETED'']"
proof -
  from sample_statuses obtain r es where run: "sample_attempt sample_work = Some (Inr r, es)"
    and ss: "statuses es = [''TARGET_LEASED'', ''WORKER_RUNNING'', ''WORKER_COMPLETED'']" by (rule run_statusesE)
  from status_order [of "sample_coordinator False sample_work" "''t''" "''a''" None PNone "[]" "Inr r" es] run ss
  show ?thesis by auto
qed

theorem attempt_terminates_witness:
  "\<exists>r tr'. execute_attempt (sample_coordinator False escalating_work) ''t'' ''a'' None PNone [] = Some (r, tr')"
  by (rule attempt_terminates)
    (auto simp: sample_coordinator_def escalating_work_def sample_run_receipt_def attr_eq_Inr split: if_splits)

lemma statuses_split:
  assumes "statuses es = ss" and "s \<in> set ss"
  obtains pre t vs a answer post where "es = pre @ State (Checkpoint t s vs a answer) # post"
proof -
  from assms obtain e where e: "e \<in> set es" "checkpoint_status e = Some s"
    by (auto simp: statuses_def List.map_filter_def)
  then obtain t vs a answer where "e = State (Checkpoint t s vs a answer)" by (cases e rule: checkpoint_status.cases) auto
  with split_list [OF e(1)] that show thesis by blast
qed

theorem completion_accounted_witness:
  "\<exists>r pre t vs a answer post rn ob attempts.
     sample_attempt sample_work = Some (Inr r, pre @ State (Checkpoint t ''WORKER_COMPLETED'' vs a answer) # post) \<and>
     (''execution'', CObj ob) \<in> set vs \<and> (from_worker ob pre \<or> from_resolver ob pre) \<and> within_budget rn (attempts @ [ob])"
proof -
  from sample_statuses obtain r es where run: "sample_attempt sample_work = Some (Inr r, es)"
    and ss: "statuses es = [''TARGET_LEASED'', ''WORKER_RUNNING'', ''WORKER_COMPLETED'']" by (rule run_statusesE)
  have "''WORKER_COMPLETED'' \<in> set [''TARGET_LEASED'', ''WORKER_RUNNING'', ''WORKER_COMPLETED'']" by simp
  with ss obtain pre t vs a answer post where es: "es = pre @ State (Checkpoint t ''WORKER_COMPLETED'' vs a answer) # post"
    by (rule statuses_split)
  from completion_accounted [of "sample_coordinator False sample_work" "''t''" "''a''" None PNone "[]" "Inr r" pre t vs a answer post]
    run es show ?thesis by fastforce
qed

text \<open>Owned runs: a worker that raises, a custom runner that reports a status, and a launch.\<close>

definition failing_work :: "trace \<Rightarrow> invocation \<Rightarrow> obj option res" where
  "failing_work tr iv = Inl (RuntimeError, ''worker crashed'')"

definition sample_runner :: runner where
  "sample_runner tr contract request = Step ''WORKER_RUNNING'' [] (\<lambda>r. Finish (Inr [(''note'', PStr ''done'')]))"

fun is_failure :: "event \<Rightarrow> bool" where
  "is_failure (Finalization (FinalizeFailure t a exc r)) = (exc = (RuntimeError, ''worker crashed'') \<and> r = Inr ())"
| "is_failure _ = False"

lemma sample_owned_fails: "run_count is_failure (run_owned_attempt (sample_coordinator False failing_work) ''t'' ''a'' None []) = 1"
  by code_simp

lemma sample_custom: "run_count is_custom (run_owned_attempt (sample_coordinator False sample_work) ''t'' ''a'' (Some sample_runner) []) = 1"
  by code_simp

lemma sample_launch: "run_count is_start (Some (launch (sample_coordinator False sample_work) ''t'' ''a'' ''d'' True ''s'' [])) = 1"
  by code_simp

lemma filterE:
  assumes "length (filter K tr) = 1"
  obtains pre e post where "tr = pre @ e # post" and "K e"
proof -
  from assms have "filter K tr \<noteq> []" by auto
  then obtain e where "e \<in> set tr" "K e" by (auto simp: filter_empty_conv)
  with split_list [of e tr] that show thesis by blast
qed

theorem custom_runner_guarded_witness:
  "\<exists>r pre c rq post state. run_owned_attempt (sample_coordinator False sample_work) ''t'' ''a'' (Some sample_runner) [] =
       Some (Inr r, pre @ Custom c rq # post) \<and>
     State (ReadSnapshot ''t'' (Inr (Some state))) \<in> set pre \<and> owned (sample_coordinator False sample_work) ''a'' state"
proof -
  let ?C = "sample_coordinator False sample_work"
  from sample_custom obtain r tr where run: "run_owned_attempt ?C ''t'' ''a'' (Some sample_runner) [] = Some (Inr r, tr)"
    and one: "length (filter is_custom tr) = 1" by (rule run_countE) simp
  from one obtain pre e post where tr: "tr = pre @ e # post" "is_custom e" by (rule filterE)
  then obtain c rq where e: "e = Custom c rq" by (auto simp: is_custom_def split: event.splits)
  from custom_runner_guarded [of ?C "''t''" "''a''" sample_runner "[]" "Inr r" pre c rq post] run tr e
  show ?thesis by fastforce
qed

theorem launch_guarded_witness:
  "\<exists>r pre e post state. launch (sample_coordinator False sample_work) ''t'' ''a'' ''d'' True ''s'' [] = (Inr r, pre @ e # post) \<and>
     is_start e \<and> State (ReadSnapshot ''t'' (Inr (Some state))) \<in> set pre \<and> str_or (dget state ''attempt_id'') [] = ''a'' \<and>
     (\<forall>e' \<in> set (pre @ post). \<not> is_start e')"
proof -
  let ?C = "sample_coordinator False sample_work"
  from sample_launch obtain r tr where run: "launch ?C ''t'' ''a'' ''d'' True ''s'' [] = (Inr r, tr)"
    and one: "length (filter is_start tr) = 1" by (rule run_countE) simp_all
  from one obtain pre e post where tr: "tr = pre @ e # post" "is_start e" by (rule filterE)
  from launch_guarded [of ?C "''t''" "''a''" "''d''" True "''s''" "[]" "Inr r" pre e post] run tr
  show ?thesis by fastforce
qed

theorem owned_attempt_concluded_witness:
  "\<exists>tr' state answer tr2. run_owned_attempt (sample_coordinator False failing_work) ''t'' ''a'' None [] = Some (Inr (), tr') \<and>
     length (filter is_failure tr') = 1 \<and> owned (sample_coordinator False failing_work) ''a'' state \<and>
     attempt_result (sample_coordinator False failing_work) ''t'' ''a'' state None
       [State (ReadSnapshot ''t'' (Inr (Some state)))] = Some (answer, tr2)"
proof -
  let ?C = "sample_coordinator False failing_work"
  from sample_owned_fails obtain r tr' where run: "run_owned_attempt ?C ''t'' ''a'' None [] = Some (Inr r, tr')"
    and one: "length (filter is_failure tr') = 1" by (rule run_countE) simp
  have "tr' \<noteq> [State (ReadSnapshot ''t'' (Inr found))]" for found using one by auto
  with owned_attempt_concluded [of ?C "''t''" "''a''" None "[]" "Inr r" tr'] run one show ?thesis by auto
qed

end
