(* ===== verification/Hash_Chain.thy ===== *)
theory Hash_Chain
  imports Py_Prelude
begin

text \<open>
  Logs of sealed records, as the event and feedback stores keep them. The records of one key form a chain:
  each carries its position, the seal of the record before it (64 zeros for the first) and its own seal, the
  digest of the rest of its text. The locale states what a store provides of its records; the lemmas show
  what every such chain guarantees: positions are consecutive, each record points to its predecessor, and
  the last seal fixes the whole history of its key unless two texts have the same digest.
\<close>

section \<open>Tails\<close>

text \<open>The tail of a key: the number of its records and the seal of the last one.\<close>

type_synonym 'k tails = "('k \<times> int \<times> string) list"

definition genesis :: string where
  "genesis = replicate 64 CHR ''0''"

definition tail_at :: "'k tails \<Rightarrow> 'k \<Rightarrow> int \<times> string" where
  "tail_at ts k = (case map_of ts k of None \<Rightarrow> (0, genesis) | Some t \<Rightarrow> t)"

lemma tail_at_Nil [simp]: "tail_at [] k = (0, genesis)"
  by (simp add: tail_at_def)

lemma tail_at_Cons [simp]: "tail_at ((k, t) # ts) k' = (if k' = k then t else tail_at ts k')"
  by (simp add: tail_at_def)

lemma hex64_genesis: "hex64 genesis"
  by (simp add: hex64_def genesis_def is_hex_def list_all_iff)

section \<open>Chains\<close>

locale sealed_records =
  fixes H :: "string \<Rightarrow> string"
    and key :: "'r \<Rightarrow> 'k option" and position :: "'r \<Rightarrow> int"
    and parent :: "'r \<Rightarrow> string" and seal :: "'r \<Rightarrow> string" and body :: "'r \<Rightarrow> string"
    and proper :: "'r \<Rightarrow> bool"
  assumes body_binds: "proper r \<Longrightarrow> proper r' \<Longrightarrow> body r = body r' \<Longrightarrow> position r = position r' \<and> parent r = parent r'"
begin

definition of_key :: "'k \<Rightarrow> 'r list \<Rightarrow> 'r list" where
  "of_key k rs = filter (\<lambda>r. key r = Some k) rs"

definition tail :: "'k \<Rightarrow> 'r list \<Rightarrow> int \<times> string" where
  "tail k rs = (case of_key k rs of [] \<Rightarrow> (0, genesis) | xs \<Rightarrow> (int (length xs), seal (last xs)))"

definition link :: "'r list \<Rightarrow> 'r \<Rightarrow> bool" where
  "link rs r \<longleftrightarrow> (\<forall>k. key r = Some k \<longrightarrow>
     position r = fst (tail k rs) + 1 \<and> parent r = snd (tail k rs) \<and> seal r = H (body r) \<and> proper r)"

definition chained :: "'r list \<Rightarrow> bool" where
  "chained rs \<longleftrightarrow> (\<forall>i < length rs. link (take i rs) (rs ! i))"

lemma of_key_simps [simp]:
  "of_key k [] = []" "of_key k (rs @ [r]) = (if key r = Some k then of_key k rs @ [r] else of_key k rs)"
  by (simp_all add: of_key_def)

lemma tail_Nil [simp]: "tail k [] = (0, genesis)"
  by (simp add: tail_def)

lemma fst_tail: "fst (tail k rs) = int (length (of_key k rs))"
  by (simp add: tail_def split: list.splits)

lemma snd_tail: "of_key k rs \<noteq> [] \<Longrightarrow> snd (tail k rs) = seal (last (of_key k rs))"
  by (simp add: tail_def split: list.splits)

lemma tail_snoc: "tail k (rs @ [r]) = (if key r = Some k then (fst (tail k rs) + 1, seal r) else tail k rs)"
  by (auto simp: tail_def fst_tail [symmetric] split: list.splits)

lemma chained_Nil [simp]: "chained []"
  by (simp add: chained_def)

lemma chained_snoc: "chained (rs @ [r]) \<longleftrightarrow> chained rs \<and> link rs r"
  by (auto simp: chained_def nth_append less_Suc_eq)

lemma chained_prefix: "chained (rs @ rs') \<Longrightarrow> chained rs"
  by (induction rs' rule: rev_induct) (simp_all add: chained_snoc flip: append_assoc)

text \<open>The records of one key: consecutive positions, each pointing to its predecessor.\<close>

lemma chained_of_key:
  assumes "chained rs" and "i < length (of_key k rs)"
  shows "position (of_key k rs ! i) = int i + 1 \<and>
    parent (of_key k rs ! i) = (if i = 0 then genesis else seal (of_key k rs ! (i - 1))) \<and>
    seal (of_key k rs ! i) = H (body (of_key k rs ! i)) \<and> proper (of_key k rs ! i)"
  using assms
proof (induction rs arbitrary: i rule: rev_induct)
  case (snoc r rs)
  then have rs: "chained rs" "link rs r" by (simp_all add: chained_snoc)
  show ?case
  proof (cases "i < length (of_key k rs)")
    case True
    with snoc.IH [OF rs(1) True] snoc.prems show ?thesis by (auto simp: nth_append)
  next
    case False
    with snoc.prems have i: "key r = Some k" "i = length (of_key k rs)" by (auto split: if_splits)
    have "snd (tail k rs) = (if i = 0 then genesis else seal (of_key k rs ! (i - 1)))"
      by (cases "of_key k rs") (auto simp: tail_def i last_conv_nth)
    with rs(2) i show ?thesis by (auto simp: link_def fst_tail nth_append)
  qed
qed simp

text \<open>The seal of the last record fixes the history of its key.\<close>

lemma tail_binds:
  assumes "chained rs" and "chained rs'" and "of_key k rs \<noteq> []" and "of_key k rs' \<noteq> []"
    and "snd (tail k rs) = snd (tail k rs')"
  shows "map body (of_key k rs) = map body (of_key k rs') \<or>
    (\<exists>r \<in> set (of_key k rs). \<exists>r' \<in> set (of_key k rs'). body r \<noteq> body r' \<and> H (body r) = H (body r'))"
proof (rule disjCI)
  let ?xs = "of_key k rs" and ?ys = "of_key k rs'"
  assume no: "\<not> (\<exists>r \<in> set ?xs. \<exists>r' \<in> set ?ys. body r \<noteq> body r' \<and> H (body r) = H (body r'))"
  note X = chained_of_key [OF assms(1), where k = k] and Y = chained_of_key [OF assms(2), where k = k]
  have inj: "body (?xs ! i) = body (?ys ! j)"
    if "i < length ?xs" "j < length ?ys" "seal (?xs ! i) = seal (?ys ! j)" for i j
    using X [OF that(1)] Y [OF that(2)] that no nth_mem [OF that(1)] nth_mem [OF that(2)] by metis
  have last: "seal (?xs ! (length ?xs - 1)) = seal (?ys ! (length ?ys - 1))"
    using assms(3-5) by (simp add: snd_tail last_conv_nth)
  have ends: "length ?xs - 1 < length ?xs" "length ?ys - 1 < length ?ys" using assms(3,4) by auto
  have "position (?xs ! (length ?xs - 1)) = position (?ys ! (length ?ys - 1))"
    using body_binds inj [OF ends last] X [OF ends(1)] Y [OF ends(2)] by blast
  then have len: "length ?xs = length ?ys" using X [OF ends(1)] Y [OF ends(2)] ends by linarith
  have "body (?xs ! (length ?xs - Suc m)) = body (?ys ! (length ?xs - Suc m))" if "m < length ?xs" for m
    using that
  proof (induction m)
    case 0
    then show ?case using inj [of "length ?xs - 1" "length ?xs - 1"] last len by simp
  next
    case (Suc m)
    let ?i = "length ?xs - Suc m"
    have i: "?i < length ?xs" "0 < ?i" "?i - 1 = length ?xs - Suc (Suc m)" using Suc.prems by auto
    with X [of ?i] Y [of ?i] len Suc body_binds [of "?xs ! ?i" "?ys ! ?i"]
    have "seal (?xs ! (?i - 1)) = seal (?ys ! (?i - 1))" by auto
    with inj [of "?i - 1" "?i - 1"] i len show ?case by simp
  qed
  note rear = this
  have "body (?xs ! i) = body (?ys ! i)" if "i < length ?xs" for i
    using rear [of "length ?xs - Suc i"] that by simp
  with len show "map body ?xs = map body ?ys" by (auto intro: nth_equalityI)
qed

lemma of_key_facts:
  assumes "chained rs" and "r \<in> set (of_key k rs)"
  shows "r \<in> set rs" and "proper r" and "seal r = H (body r)"
proof -
  from assms(2) obtain i where "i < length (of_key k rs)" "r = of_key k rs ! i" by (auto simp: in_set_conv_nth)
  with chained_of_key [OF assms(1)] show "proper r" "seal r = H (body r)" by simp_all
  from assms(2) show "r \<in> set rs" by (simp add: of_key_def)
qed

lemma tail_binds_records:
  assumes "chained rs" and "chained rs'" and "of_key k rs \<noteq> []" and "of_key k rs' \<noteq> []"
    and "snd (tail k rs) = snd (tail k rs')"
  shows "list_all2 (\<lambda>r r'. proper r \<and> proper r' \<and> body r = body r' \<and> seal r = seal r') (of_key k rs) (of_key k rs') \<or>
    (\<exists>r \<in> set rs. \<exists>r' \<in> set rs'. proper r \<and> proper r' \<and> body r \<noteq> body r' \<and> H (body r) = H (body r'))"
  using tail_binds [OF assms]
proof
  assume "map body (of_key k rs) = map body (of_key k rs')"
  then have eq: "list_all2 (\<lambda>r r'. body r = body r') (of_key k rs) (of_key k rs')" by (simp add: list_all2_conv_all_nth list_eq_iff_nth_eq)
  have "list_all2 (\<lambda>r r'. proper r \<and> proper r' \<and> body r = body r' \<and> seal r = seal r') (of_key k rs) (of_key k rs')"
    by (rule list.rel_mono_strong [OF eq]) (use of_key_facts assms(1,2) in metis)
  then show ?thesis ..
qed (use of_key_facts assms(1,2) in blast)

end

end
