(* ===== verification/Decision_Log.thy ===== *)
theory Decision_Log
  imports Py_Json Hash_Chain
begin

text \<open>
  Developer feedback: the typed decision of \<open>kernel/feedback/contracts.py\<close> and the append-only stream
  \<open>DeveloperFeedbackDecisionStore\<close> of \<open>kernel/events/log_store.py\<close> that keeps it. Each record carries the
  digest of its predecessor of the same task and its own digest; a stream that does not check is refused as
  a whole.

  The stream is its list of lines: the number of bytes of a line with its terminator, whether it is blank,
  and what parsing it as JSON gives (objects as the list of their pairs), which for a line the store has
  written is the record after a dump and a load. The waiting for the file lock is a parameter: whether it was obtained
  before the timeout.
\<close>

section \<open>Tokens\<close>

definition is_upper :: "char \<Rightarrow> bool" where
  "is_upper c = (let n = (of_char c :: int) in 65 \<le> n \<and> n \<le> 90)"

definition is_alnum :: "char \<Rightarrow> bool" where
  "is_alnum c = (let n = (of_char c :: int) in is_upper c \<or> 97 \<le> n \<and> n \<le> 122 \<or> 48 \<le> n \<and> n \<le> 57)"

definition code_re :: "string \<Rightarrow> bool" where
  "code_re s = (case s of [] \<Rightarrow> False
     | c # cs \<Rightarrow> is_upper c \<and> length cs \<le> 63 \<and> list_all (\<lambda>c. is_upper c \<or> is_digit c \<or> c \<in> set ''_.:-'') cs)"

definition ref_re :: "string \<Rightarrow> bool" where
  "ref_re s = (case s of [] \<Rightarrow> False
     | c # cs \<Rightarrow> is_alnum c \<and> length cs \<le> 127 \<and> list_all (\<lambda>c. is_alnum c \<or> c \<in> set ''_.:/-'') cs)"

definition forbidden :: "char \<Rightarrow> bool" where
  "forbidden c = (let n = (of_char c :: int) in n \<le> 31 \<or> n = 127)"

definition AUTHORITY_FLAG_KEYS :: "string list" where
  "AUTHORITY_FLAG_KEYS = [''approval'', ''production'', ''route'']"

fun token :: "(string \<Rightarrow> bool) \<Rightarrow> string \<Rightarrow> pyval \<Rightarrow> string res" where
  "token pattern name (PStr s) =
     (if s = [] \<or> length s > 128 \<or> list_ex forbidden s \<or> \<not> pattern s \<or>
         list_ex (\<lambda>x. contains_text x s) [''?'', ''#'', [CHR 0x5C], ''//'', ''@'']
      then Inl (ValueError, ''invalid '' @ name @ '' token'') else Inr s)"
| "token pattern name v = Inl (ValueError, ''invalid '' @ name @ '' token'')"

definition tokens :: "(string \<Rightarrow> bool) \<Rightarrow> string \<Rightarrow> pyval \<Rightarrow> string list res" where
  "tokens pattern name v =
     bindr (raise_if (\<not> is_array v) ValueError (name @ '' must be a sequence'')) (\<lambda>_.
     bindr (raise_if (length (items_of v) > 32) ValueError (name @ '' exceeds stream ceiling'')) (\<lambda>_.
     map_res (token pattern name) (items_of v)))"

section \<open>Decisions\<close>

datatype feedback_decision = KEEP | REVISE | REJECT | INVESTIGATE

fun decision_value :: "feedback_decision \<Rightarrow> string" where
  "decision_value KEEP = ''KEEP''"
| "decision_value REVISE = ''REVISE''"
| "decision_value REJECT = ''REJECT''"
| "decision_value INVESTIGATE = ''INVESTIGATE''"

definition feedback_decisions :: "feedback_decision list" where
  "feedback_decisions = [KEEP, REVISE, REJECT, INVESTIGATE]"

definition parse_decision :: "pyval \<Rightarrow> feedback_decision res" where
  "parse_decision v = (case find (\<lambda>d. v = PStr (decision_value d)) feedback_decisions of
     Some d \<Rightarrow> Inr d | None \<Rightarrow> Inl (ValueError, py_repr v @ '' is not a valid FeedbackDecision''))"

definition FEEDBACK_SCHEMA :: string where
  "FEEDBACK_SCHEMA = ''nexus.developer_feedback_decision.v1''"

record feedback_args =
  fa_task_id :: pyval
  fa_decision_id :: pyval
  fa_decision :: pyval
  fa_reason_codes :: pyval
  fa_evidence_refs :: pyval
  fa_request_digest :: pyval
  fa_authority_flags :: "(pyval \<times> pyval) list"
  fa_schema :: pyval

definition feedback_defaults :: "pyval \<Rightarrow> pyval \<Rightarrow> pyval \<Rightarrow> feedback_args" where
  "feedback_defaults task_id decision_id decision =
     \<lparr> fa_task_id = task_id, fa_decision_id = decision_id, fa_decision = decision, fa_reason_codes = PTuple [],
       fa_evidence_refs = PTuple [], fa_request_digest = PStr '''',
       fa_authority_flags = map (\<lambda>k. (PStr k, PBool False)) AUTHORITY_FLAG_KEYS, fa_schema = PStr FEEDBACK_SCHEMA \<rparr>"

record feedback =
  fb_task_id :: string
  fb_decision_id :: string
  fb_decision :: feedback_decision
  fb_reason_codes :: "string list"
  fb_evidence_refs :: "string list"
  fb_request_digest :: string
  fb_authority_flags :: "(string \<times> bool) list"

fun ref_text :: "string \<Rightarrow> pyval \<Rightarrow> string res" where
  "ref_text name (PStr s) = (if ref_re s then Inr s else Inl (ValueError, ''invalid '' @ name))"
| "ref_text name v = Inl (ValueError, ''invalid '' @ name)"

fun digest_text :: "pyval \<Rightarrow> string res" where
  "digest_text (PStr s) = (if s = [] \<or> hex64 s then Inr s else Inl (ValueError, ''request_digest must be sha256''))"
| "digest_text v = Inl (ValueError, ''request_digest must be a string'')"

text \<open>The flags must be the three fixed keys, each once and each false.\<close>

definition authority_flags :: "(pyval \<times> pyval) list \<Rightarrow> (string \<times> bool) list res" where
  "authority_flags flags =
     bindr (raise_if (\<not> list_all (\<lambda>p. hashable (fst p)) flags) TypeError ''unhashable type'') (\<lambda>_.
     bindr (raise_if (\<not> distinct (map fst flags) \<or> set (map fst flags) \<noteq> set (map PStr AUTHORITY_FLAG_KEYS)) ValueError
              ''authority flags must use the fixed key set'') (\<lambda>_.
     bindr (raise_if (\<not> list_all (\<lambda>p. snd p = PBool False) flags) ValueError
              ''developer feedback cannot assert authority'') (\<lambda>_.
     Inr (map (\<lambda>p. (py_str (fst p), False)) flags))))"

definition make_feedback :: "feedback_args \<Rightarrow> feedback res" where
  "make_feedback fa =
     bindr (raise_if (fa_schema fa \<noteq> PStr FEEDBACK_SCHEMA) ValueError ''unsupported developer feedback schema'') (\<lambda>_.
     bindr (ref_text ''task_id'' (fa_task_id fa)) (\<lambda>task_id.
     bindr (ref_text ''decision_id'' (fa_decision_id fa)) (\<lambda>decision_id.
     bindr (parse_decision (fa_decision fa)) (\<lambda>decision.
     bindr (tokens code_re ''reason_codes'' (fa_reason_codes fa)) (\<lambda>reason_codes.
     bindr (tokens ref_re ''evidence_refs'' (fa_evidence_refs fa)) (\<lambda>evidence_refs.
     bindr (digest_text (fa_request_digest fa)) (\<lambda>request_digest.
     bindr (authority_flags (fa_authority_flags fa)) (\<lambda>flags.
     Inr \<lparr> fb_task_id = task_id, fb_decision_id = decision_id, fb_decision = decision, fb_reason_codes = reason_codes,
           fb_evidence_refs = evidence_refs, fb_request_digest = request_digest, fb_authority_flags = flags \<rparr>))))))))"

definition to_record :: "feedback \<Rightarrow> int \<Rightarrow> string \<Rightarrow> dict" where
  "to_record fb sequence parent_digest =
     [(''schema'', PStr FEEDBACK_SCHEMA), (''task_id'', PStr (fb_task_id fb)), (''decision_id'', PStr (fb_decision_id fb)),
      (''decision'', PStr (decision_value (fb_decision fb))), (''reason_codes'', PList (map PStr (fb_reason_codes fb))),
      (''evidence_refs'', PList (map PStr (fb_evidence_refs fb))), (''request_digest'', PStr (fb_request_digest fb)),
      (''authority_flags'', PDict (map (\<lambda>(k, v). (k, PBool v)) (fb_authority_flags fb))),
      (''sequence'', PInt sequence), (''parent_digest'', PStr parent_digest)]"

subsection \<open>Decisions from directives\<close>

record failure_pattern =
  fp_pattern_code :: string
  fp_description :: string
  fp_severity :: pyfloat

record directive =
  fd_identified_patterns :: "failure_pattern list"
  fd_retry_hints :: "string list"
  fd_is_actionable :: bool

text \<open>\<open>p.severity >= 0.9\<close>, where \<open>0.9\<close> is the nearest double.\<close>

fun severe :: "pyfloat \<Rightarrow> bool" where
  "severe (FFin r _) = (r \<ge> 8106479329266893 / 9007199254740992)"
| "severe (FInf neg) = (\<not> neg)"
| "severe FNan = False"

definition directive_decision :: "directive \<Rightarrow> feedback_decision" where
  "directive_decision fd =
     (if fd_is_actionable fd then REVISE
      else if fd_identified_patterns fd \<noteq> [] \<and> list_ex (\<lambda>p. severe (fp_severity p)) (fd_identified_patterns fd) then REJECT
      else if fd_identified_patterns fd \<noteq> [] then INVESTIGATE else KEEP)"

definition from_directive :: "pyval \<Rightarrow> pyval \<Rightarrow> directive \<Rightarrow> pyval \<Rightarrow> feedback res" where
  "from_directive task_id decision_id fd evidence_refs =
     make_feedback ((feedback_defaults task_id decision_id (PStr (decision_value (directive_decision fd))))
       \<lparr> fa_reason_codes := PTuple (map (\<lambda>p. PStr (fp_pattern_code p)) (fd_identified_patterns fd)),
         fa_evidence_refs := evidence_refs \<rparr>)"

section \<open>The stream\<close>

record decision_line =
  dl_size :: int
  dl_blank :: bool
  dl_value :: "pyval res"

record decision_stream =
  ds_lines :: "decision_line list"
  ds_terminated :: bool

definition MAX_RECORDS :: int where
  "MAX_RECORDS = 10000"

definition MAX_BYTES :: int where
  "MAX_BYTES = 8 * 1024 * 1024"

definition empty_stream :: decision_stream where
  "empty_stream = \<lparr> ds_lines = [], ds_terminated = False \<rparr>"

definition stream_size :: "decision_stream \<Rightarrow> int" where
  "stream_size st = sum_list (map dl_size (ds_lines st))"

definition fb_canonical :: "dict \<Rightarrow> string res" where
  "fb_canonical d = json_dumps False True (PDict d)"

definition RECORD_FIELDS :: "string list" where
  "RECORD_FIELDS = [''schema'', ''task_id'', ''decision_id'', ''decision'', ''reason_codes'', ''evidence_refs'',
     ''request_digest'', ''authority_flags'', ''sequence'', ''parent_digest'', ''record_digest'']"

fun text_of :: "pyval \<Rightarrow> string" where
  "text_of (PStr s) = s"
| "text_of v = []"

fun int_of :: "pyval \<Rightarrow> int" where
  "int_of (PInt i) = i"
| "int_of v = 0"

fun is_str_list :: "pyval \<Rightarrow> bool" where
  "is_str_list (PList xs) = list_all is_str xs"
| "is_str_list v = False"

fun is_hex_text :: "pyval \<Rightarrow> bool" where
  "is_hex_text (PStr s) = hex64 s"
| "is_hex_text v = False"

definition valid_flags :: "pyval \<Rightarrow> bool" where
  "valid_flags v = (case v of
     PDict flags \<Rightarrow> set (dkeys flags) = set AUTHORITY_FLAG_KEYS \<and> list_all (\<lambda>p. snd p = PBool False) flags
   | _ \<Rightarrow> False)"

definition valid_types :: "dict \<Rightarrow> bool" where
  "valid_types d =
    (is_str (dget d ''task_id'') \<and> is_str (dget d ''decision_id'') \<and> is_str_list (dget d ''reason_codes'') \<and>
     is_str_list (dget d ''evidence_refs'') \<and> is_str (dget d ''request_digest'') \<and> is_int (dget d ''sequence'') \<and>
     (dget d ''request_digest'' = PStr [] \<or> is_hex_text (dget d ''request_digest'')) \<and>
     is_hex_text (dget d ''parent_digest'') \<and> is_hex_text (dget d ''record_digest''))"

definition valid_grammar :: "dict \<Rightarrow> unit res" where
  "valid_grammar d =
     bindr (tokens ref_re ''task_id'' (PTuple [dget d ''task_id''])) (\<lambda>_.
     bindr (tokens ref_re ''decision_id'' (PTuple [dget d ''decision_id''])) (\<lambda>_.
     bindr (tokens code_re ''reason_codes'' (dget d ''reason_codes'')) (\<lambda>_.
     bindr (tokens ref_re ''evidence_refs'' (dget d ''evidence_refs'')) (\<lambda>_. Inr ()))))"

definition parse_record :: "pyval \<Rightarrow> dict res" where
  "parse_record v =
     (case v of
        PDict d \<Rightarrow>
          bindr (raise_if (dget d ''schema'' \<noteq> PStr FEEDBACK_SCHEMA) ValueError ''invalid decision record'') (\<lambda>_.
          bindr (raise_if (set (dkeys d) \<noteq> set RECORD_FIELDS) ValueError ''invalid decision fields'') (\<lambda>_.
          bindr (raise_if (\<not> hashable (dget d ''decision'')) TypeError ''unhashable type'') (\<lambda>_.
          bindr (raise_if (dget d ''decision'' \<notin> set (map (\<lambda>x. PStr (decision_value x)) feedback_decisions)) ValueError
                   ''invalid decision fields'') (\<lambda>_.
          bindr (raise_if (\<not> valid_flags (dget d ''authority_flags'')) ValueError ''invalid authority flags'') (\<lambda>_.
          bindr (raise_if (\<not> valid_types d) ValueError ''invalid decision field types'') (\<lambda>_.
          case valid_grammar d of
            Inl e \<Rightarrow> if is_value_error e then Inl (ValueError, ''invalid decision token grammar'') else Inl e
          | Inr _ \<Rightarrow> Inr d))))))
      | _ \<Rightarrow> Inl (ValueError, ''invalid decision record''))"

text \<open>The hook on the pairs of every JSON object: a repeated key is refused.\<close>

fun distinct_keys :: "pyval \<Rightarrow> bool" where
  "distinct_keys (PDict d) = (distinct (map fst d) \<and> (\<forall>p \<in> set d. distinct_keys (snd p)))"
| "distinct_keys (PList xs) = (\<forall>x \<in> set xs. distinct_keys x)"
| "distinct_keys v = True"

definition parse_line :: "decision_line \<Rightarrow> dict res" where
  "parse_line l =
     bindr (dl_value l) (\<lambda>v.
     bindr (raise_if (\<not> distinct_keys v) ValueError ''duplicate JSON key'') (\<lambda>_.
     parse_record v))"

fun scan_lines :: "(string \<Rightarrow> string) \<Rightarrow> string tails \<Rightarrow> decision_line list \<Rightarrow> dict list res" where
  "scan_lines H tails [] = Inr []"
| "scan_lines H tails (l # ls) =
     bindr (parse_line l) (\<lambda>d.
     let task = text_of (dget d ''task_id''); sequence = fst (tail_at tails task); parent = snd (tail_at tails task) in
     bindr (raise_if (dget d ''parent_digest'' \<noteq> PStr parent \<or> dget d ''sequence'' \<noteq> PInt (sequence + 1)) ValueError
              ''broken decision chain'') (\<lambda>_.
     bindr (fb_canonical (ddel ''record_digest'' d)) (\<lambda>text.
     bindr (raise_if (dget d ''record_digest'' \<noteq> PStr (H text)) ValueError ''tampered decision record'') (\<lambda>_.
     bindr (scan_lines H ((task, sequence + 1, H text) # tails) ls) (\<lambda>ds.
     Inr (d # ds))))))"

definition scan :: "(string \<Rightarrow> string) \<Rightarrow> decision_stream \<Rightarrow> (dict list \<times> string \<times> int) res" where
  "scan H st =
    (if ds_lines st = [] then Inr ([], genesis, 0)
     else
     bindr (raise_if (stream_size st > MAX_BYTES \<or> \<not> ds_terminated st \<or> list_all dl_blank (ds_lines st)) ValueError
              ''corrupt decision stream'') (\<lambda>_.
     bindr (scan_lines H [] (ds_lines st)) (\<lambda>ds.
     bindr (raise_if (int (length ds) > MAX_RECORDS) ValueError ''decision stream ceiling exceeded'') (\<lambda>_.
     Inr (ds, if ds = [] then genesis else text_of (dget (last ds) ''record_digest''), stream_size st)))))"

subsection \<open>Appending\<close>

definition sealed_record :: "(string \<Rightarrow> string) \<Rightarrow> feedback \<Rightarrow> int \<Rightarrow> string \<Rightarrow> dict res" where
  "sealed_record H fb sequence parent =
     bindr (fb_canonical (to_record fb sequence parent)) (\<lambda>text.
     Inr (dset ''record_digest'' (PStr (H text)) (to_record fb sequence parent)))"

definition written_line :: "dict \<Rightarrow> string \<Rightarrow> decision_line" where
  "written_line d text = \<lparr> dl_size = int (length text) + 1, dl_blank = False, dl_value = Inr (json_norm (PDict d)) \<rparr>"

text \<open>An earlier record with the same decision id: the same content is a replay, other content a conflict.\<close>

definition replay_of :: "feedback \<Rightarrow> dict \<Rightarrow> dict res" where
  "replay_of fb old =
     bindr (fb_canonical (to_record fb (int_of (dget old ''sequence'')) (text_of (dget old ''parent_digest'')))) (\<lambda>candidate.
     bindr (fb_canonical (ddel ''record_digest'' old)) (\<lambda>stored.
     bindr (raise_if (candidate \<noteq> stored) ValueError ''idempotency conflict'') (\<lambda>_. Inr old)))"

definition append_step :: "(string \<Rightarrow> string) \<Rightarrow> decision_stream \<Rightarrow> feedback \<Rightarrow> string option \<Rightarrow> ((dict \<times> bool) \<times> decision_line option) res" where
  "append_step H st fb expected_tail =
     bindr (scan H st) (\<lambda>(ds, _, size).
     let task_records = filter (\<lambda>d. dget d ''task_id'' = PStr (fb_task_id fb)) ds;
         sequence = int (length task_records) + 1;
         tail = (if task_records = [] then genesis else text_of (dget (last task_records) ''record_digest'')) in
     bindr (raise_if (expected_tail \<noteq> None \<and> expected_tail \<noteq> Some tail) ValueError ''stale expected tail'') (\<lambda>_.
     case find (\<lambda>d. dget d ''decision_id'' = PStr (fb_decision_id fb)) ds of
       Some old \<Rightarrow> bindr (replay_of fb old) (\<lambda>d. Inr ((d, True), None))
     | None \<Rightarrow>
         bindr (sealed_record H fb sequence tail) (\<lambda>d.
         bindr (fb_canonical d) (\<lambda>text.
         bindr (raise_if (size + int (length text) + 1 > MAX_BYTES \<or> int (length ds) \<ge> MAX_RECORDS) ValueError
                  ''decision stream ceiling exceeded'') (\<lambda>_.
         Inr ((d, False), Some (written_line d text)))))))"

definition append :: "(string \<Rightarrow> string) \<Rightarrow> bool \<Rightarrow> decision_stream \<Rightarrow> feedback \<Rightarrow> string option \<Rightarrow> (dict \<times> bool) res \<times> decision_stream" where
  "append H locked st fb expected_tail =
    (if \<not> locked then (Inl (OtherError ''TimeoutError'', ''decision stream lock timeout''), st)
     else case append_step H st fb expected_tail of
       Inl e \<Rightarrow> (Inl e, st)
     | Inr (r, None) \<Rightarrow> (Inr r, st)
     | Inr (r, Some l) \<Rightarrow> (Inr r, st\<lparr> ds_lines := ds_lines st @ [l], ds_terminated := True \<rparr>))"

text \<open>\<open>records[-limit:]\<close>.\<close>

definition last_items :: "int \<Rightarrow> 'a list \<Rightarrow> 'a list" where
  "last_items limit xs = (if limit > 0 then drop (length xs - nat limit) xs else drop (nat (- limit)) xs)"

definition read_recent :: "(string \<Rightarrow> string) \<Rightarrow> bool \<Rightarrow> decision_stream \<Rightarrow> int \<Rightarrow> dict list res" where
  "read_recent H locked st limit =
    (if \<not> locked then Inl (OtherError ''TimeoutError'', ''decision stream lock timeout'')
     else bindr (scan H st) (\<lambda>(ds, _, _). Inr (last_items limit ds)))"

section \<open>Lemmas\<close>

subsection \<open>Constructed decisions\<close>

definition flags_ok :: "(string \<times> bool) list \<Rightarrow> bool" where
  "flags_ok fs \<longleftrightarrow> distinct (map fst fs) \<and> set (map fst fs) = set AUTHORITY_FLAG_KEYS \<and> (\<forall>p \<in> set fs. \<not> snd p)"

definition fb_ok :: "feedback \<Rightarrow> bool" where
  "fb_ok fb \<longleftrightarrow> ref_re (fb_task_id fb) \<and> ref_re (fb_decision_id fb) \<and>
     length (fb_reason_codes fb) \<le> 32 \<and> (\<forall>s \<in> set (fb_reason_codes fb). token code_re ''reason_codes'' (PStr s) = Inr s) \<and>
     length (fb_evidence_refs fb) \<le> 32 \<and> (\<forall>s \<in> set (fb_evidence_refs fb). token ref_re ''evidence_refs'' (PStr s) = Inr s) \<and>
     (fb_request_digest fb = [] \<or> hex64 (fb_request_digest fb)) \<and>
     flags_ok (fb_authority_flags fb)"

lemma token_eq_Inr: "token pattern name v = Inr s \<Longrightarrow> v = PStr s \<and> token pattern name (PStr s) = Inr s"
  by (cases v) (auto split: if_splits)

lemma tokens_eq_Inr:
  "tokens pattern name v = Inr ss \<longleftrightarrow> is_array v \<and> length ss \<le> 32 \<and> items_of v = map PStr ss \<and>
     (\<forall>s \<in> set ss. token pattern name (PStr s) = Inr s)"
proof -
  have "map_res (token pattern name) vs = Inr ss \<longleftrightarrow> vs = map PStr ss \<and> (\<forall>s \<in> set ss. token pattern name (PStr s) = Inr s)" for vs
    by (induction vs arbitrary: ss) (auto simp: res_simps Cons_eq_map_conv dest: token_eq_Inr simp del: token.simps)
  then show ?thesis by (auto simp: tokens_def res_simps)
qed

lemma ref_text_eq_Inr: "ref_text name v = Inr s \<longleftrightarrow> v = PStr s \<and> ref_re s"
  by (cases v) auto

lemma digest_text_eq_Inr: "digest_text v = Inr s \<longleftrightarrow> v = PStr s \<and> (s = [] \<or> hex64 s)"
  by (cases v) auto

lemma authority_flags_ok:
  assumes "authority_flags flags = Inr fs"
  shows "flags_ok fs"
proof -
  from assms have fs: "distinct (map fst flags)" "set (map fst flags) = set (map PStr AUTHORITY_FLAG_KEYS)"
    "fs = map (\<lambda>p. (py_str (fst p), False)) flags"
    by (auto simp: authority_flags_def res_simps)
  have keys: "map fst fs = map py_str (map fst flags)" by (simp add: fs(3))
  have "inj_on py_str (set (map fst flags))" unfolding fs(2) by (auto simp: inj_on_def)
  with fs(1) have "distinct (map fst fs)" unfolding keys by (simp only: distinct_map)
  moreover have "py_str ` set (map fst flags) = set AUTHORITY_FLAG_KEYS" unfolding fs(2) by force
  then have "set (map fst fs) = set AUTHORITY_FLAG_KEYS" unfolding keys by (simp only: set_map)
  ultimately show ?thesis by (auto simp: flags_ok_def fs(3))
qed

lemma make_feedback_ok: "make_feedback fa = Inr fb \<Longrightarrow> fb_ok fb"
  by (auto simp: make_feedback_def res_simps fb_ok_def ref_text_eq_Inr digest_text_eq_Inr tokens_eq_Inr
      dest!: authority_flags_ok simp del: token.simps)

subsection \<open>Records read back\<close>

definition loaded :: "dict \<Rightarrow> dict" where
  "loaded d = map (\<lambda>p. (fst p, json_norm (snd p))) (sort_key fst d)"

lemma json_norm_PDict: "json_norm (PDict d) = PDict (loaded d)"
  by (simp add: loaded_def)

lemma dget_loaded: "dget (loaded d) k = json_norm (dget d k)"
  using map_of_json_norm [of d k] by (auto simp: dget_def dget_opt_def json_norm_PDict simp del: json_norm.simps(3) split: option.splits)

lemma distinct_map_fst_sort_key: "distinct (map fst (sort_key fst d)) = distinct (map fst d)"
  by (induction d) (auto simp: distinct_insort_key)

lemma dkeys_loaded: "set (dkeys (loaded d)) = set (dkeys d)" "distinct (dkeys (loaded d)) = distinct (dkeys d)"
  by (simp_all add: dkeys_def loaded_def comp_def distinct_map_fst_sort_key)

lemma ddel_loaded: "ddel k (loaded d) = loaded (ddel k d)"
  by (simp add: ddel_def loaded_def filter_map comp_def filter_sort)

lemma fb_canonical_loaded: "fb_canonical (loaded d) = fb_canonical d"
  using json_dumps_norm [of False True "PDict d"] by (simp add: fb_canonical_def json_norm_PDict del: json_norm.simps(3))

lemma contains_text_single [simp]: "contains_text [c] s \<longleftrightarrow> c \<in> set s"
  by (induction s) (auto simp: starts_with_def)

definition readable :: "feedback \<Rightarrow> bool" where
  "readable fb \<longleftrightarrow> \<not> contains_text ''//'' (fb_task_id fb) \<and> \<not> contains_text ''//'' (fb_decision_id fb)"

lemma ref_re_token:
  assumes "ref_re s"
  shows "token ref_re name (PStr s) = (if contains_text ''//'' s then Inl (ValueError, ''invalid '' @ name @ '' token'') else Inr s)"
proof -
  from assms obtain c cs where s: "s = c # cs" "is_alnum c" "length cs \<le> 127"
    "list_all (\<lambda>c. is_alnum c \<or> c \<in> set ''_.:/-'') cs" by (auto simp: ref_re_def split: list.splits)
  then have "is_alnum x \<or> x \<in> set ''_.:/-''" if "x \<in> set s" for x using that by (auto simp: list_all_iff)
  then have plain: "\<not> forbidden x \<and> x \<notin> {CHR ''?'', CHR ''#'', CHR 0x5C, CHR ''@''}" if "x \<in> set s" for x
    using that by (fastforce simp: is_alnum_def is_upper_def forbidden_def Let_def)
  then have "\<not> list_ex forbidden s" "CHR ''?'' \<notin> set s" "CHR ''#'' \<notin> set s" "CHR 0x5C \<notin> set s" "CHR ''@'' \<notin> set s"
    by (auto simp: list_ex_iff)
  moreover from s have "s \<noteq> []" "\<not> length s > 128" by auto
  ultimately show ?thesis using assms by (simp del: contains_text.simps)
qed

lemma valid_flags_loaded: "flags_ok fs \<Longrightarrow> valid_flags (json_norm (PDict (map (\<lambda>(k, v). (k, PBool v)) fs)))"
  by (auto simp: valid_flags_def flags_ok_def dkeys_def list_all_iff image_image case_prod_beta)

definition stored_record :: "(string \<Rightarrow> string) \<Rightarrow> feedback \<Rightarrow> int \<Rightarrow> string \<Rightarrow> string \<Rightarrow> dict" where
  "stored_record H fb n parent h = dset ''record_digest'' (PStr h) (to_record fb n parent)"

lemma dget_to_record:
  "dget (stored_record H fb n parent h) k =
    (if k = ''schema'' then PStr FEEDBACK_SCHEMA else if k = ''task_id'' then PStr (fb_task_id fb)
     else if k = ''decision_id'' then PStr (fb_decision_id fb) else if k = ''decision'' then PStr (decision_value (fb_decision fb))
     else if k = ''reason_codes'' then PList (map PStr (fb_reason_codes fb))
     else if k = ''evidence_refs'' then PList (map PStr (fb_evidence_refs fb))
     else if k = ''request_digest'' then PStr (fb_request_digest fb)
     else if k = ''authority_flags'' then PDict (map (\<lambda>(k, v). (k, PBool v)) (fb_authority_flags fb))
     else if k = ''sequence'' then PInt n else if k = ''parent_digest'' then PStr parent
     else if k = ''record_digest'' then PStr h else PNone)"
  by (simp add: stored_record_def to_record_def dget_def dget_opt_def)

lemma dkeys_stored_record: "dkeys (stored_record H fb n parent h) = RECORD_FIELDS"
  by (simp add: stored_record_def to_record_def dkeys_def RECORD_FIELDS_def)

lemma parse_stored_record:
  assumes "fb_ok fb" and "hex64 parent" and "hex64 h"
  shows "parse_record (PDict (loaded (stored_record H fb n parent h))) =
    (if readable fb then Inr (loaded (stored_record H fb n parent h)) else Inl (ValueError, ''invalid decision token grammar''))"
proof -
  let ?d = "loaded (stored_record H fb n parent h)"
  note get = dget_loaded dget_to_record
  have dec: "PStr (decision_value x) \<in> (\<lambda>x. PStr (decision_value x)) ` set feedback_decisions" for x
    by (cases x) (simp_all add: feedback_decisions_def)
  have flags: "valid_flags (json_norm (PDict (map (\<lambda>(k, v). (k, PBool v)) (fb_authority_flags fb))))"
    using assms(1) by (intro valid_flags_loaded) (simp add: fb_ok_def)
  have types: "valid_types ?d" using assms by (auto simp: valid_types_def get fb_ok_def list_all_iff)
  have strs: "json_norm (PList (map PStr ss)) = PList (map PStr ss)" for ss by (simp add: comp_def)
  have toks: "tokens code_re ''reason_codes'' (PList (map PStr (fb_reason_codes fb))) = Inr (fb_reason_codes fb)"
    "tokens ref_re ''evidence_refs'' (PList (map PStr (fb_evidence_refs fb))) = Inr (fb_evidence_refs fb)"
    using assms(1) by (simp_all add: tokens_eq_Inr fb_ok_def del: token.simps)
  have one: "tokens ref_re name (PTuple [PStr s]) = bindr (token ref_re name (PStr s)) (\<lambda>x. Inr [x])" for name s
    by (simp add: tokens_def del: token.simps)
  have grammar: "readable fb \<Longrightarrow> valid_grammar ?d = Inr ()" "\<not> readable fb \<Longrightarrow> \<exists>m. valid_grammar ?d = Inl (ValueError, m)"
    using assms(1) by (auto simp: valid_grammar_def get fb_ok_def readable_def ref_re_token toks strs one
        simp del: token.simps json_norm.simps(1))
  have "parse_record (PDict ?d) = (case valid_grammar ?d of
      Inl e \<Rightarrow> if is_value_error e then Inl (ValueError, ''invalid decision token grammar'') else Inl e | Inr _ \<Rightarrow> Inr ?d)"
    using flags types dec by (simp add: parse_record_def get dkeys_loaded dkeys_stored_record image_image del: json_norm.simps(3))
  with grammar show ?thesis by (cases "readable fb") (auto simp: is_value_error_def)
qed

subsection \<open>The chain of a task\<close>

definition fb_key :: "dict \<Rightarrow> string option" where
  "fb_key d = Some (text_of (dget d ''task_id''))"

definition fb_position :: "dict \<Rightarrow> int" where
  "fb_position d = int_of (dget d ''sequence'')"

definition fb_parent :: "dict \<Rightarrow> string" where
  "fb_parent d = text_of (dget d ''parent_digest'')"

definition fb_seal :: "dict \<Rightarrow> string" where
  "fb_seal d = text_of (dget d ''record_digest'')"

definition fb_body :: "dict \<Rightarrow> string" where
  "fb_body d = (case fb_canonical (ddel ''record_digest'' d) of Inr s \<Rightarrow> s | Inl _ \<Rightarrow> [])"

definition fb_proper :: "dict \<Rightarrow> bool" where
  "fb_proper d \<longleftrightarrow> distinct (map fst d) \<and> parse_record (PDict d) = Inr d"

lemma parse_record_eq_Inr:
  "parse_record v = Inr d \<Longrightarrow> v = PDict d \<and> dget d ''schema'' = PStr FEEDBACK_SCHEMA \<and> set (dkeys d) = set RECORD_FIELDS \<and>
     is_str (dget d ''decision'') \<and> valid_flags (dget d ''authority_flags'') \<and> valid_types d"
  by (auto simp: parse_record_def res_simps split: pyval.splits sum.splits if_splits)

lemma map_of_dget: "distinct (map fst d) \<Longrightarrow> (k, v) \<in> set d \<Longrightarrow> dget d k = v"
  by (simp add: dget_def dget_opt_def)

lemma is_str_plain: "is_str v \<Longrightarrow> json_ok v \<and> no_float v"
  by (cases v) auto

lemma is_int_plain: "is_int v \<Longrightarrow> json_ok v \<and> no_float v"
  by (cases v) auto

lemma is_str_list_plain: "is_str_list v \<Longrightarrow> json_ok v \<and> no_float v"
  by (cases v) (auto simp: list_all_iff dest: is_str_plain)

lemma is_hex_text_str: "is_hex_text v \<Longrightarrow> is_str v"
  by (cases v) auto

lemma valid_flags_plain: "valid_flags v \<Longrightarrow> json_ok v \<and> no_float v"
  by (cases v) (auto simp: valid_flags_def list_all_iff)

lemma fb_proper_plain:
  assumes "fb_proper d"
  shows "json_ok (PDict d) \<and> no_float (PDict d)"
proof -
  from assms have d: "distinct (map fst d)" and p: "parse_record (PDict d) = Inr d" by (simp_all add: fb_proper_def)
  note facts = parse_record_eq_Inr [OF p]
  have fields: "\<forall>k \<in> set RECORD_FIELDS. json_ok (dget d k) \<and> no_float (dget d k)"
    using facts unfolding valid_types_def
    by (simp add: RECORD_FIELDS_def is_str_plain is_int_plain is_str_list_plain is_hex_text_str valid_flags_plain)
  have "json_ok v \<and> no_float v" if "(k, v) \<in> set d" for k v
  proof -
    from that have "k \<in> set (dkeys d)" by (force simp: dkeys_def)
    with facts have "k \<in> set RECORD_FIELDS" by simp
    with fields map_of_dget [OF d that] show ?thesis by blast
  qed
  then show ?thesis by auto
qed

lemma fb_body_text:
  assumes "fb_proper d"
  shows "fb_canonical (ddel ''record_digest'' d) = Inr (fb_body d)"
proof -
  have "json_ok (PDict (ddel ''record_digest'' d)) \<and> no_float (PDict (ddel ''record_digest'' d))"
    using fb_proper_plain [OF assms] by (auto simp: ddel_def)
  then obtain s where "fb_canonical (ddel ''record_digest'' d) = Inr s"
    unfolding fb_canonical_def using json_dumps_total by blast
  then show ?thesis by (simp add: fb_body_def)
qed

lemma fb_body_fields:
  assumes "fb_proper d" and "fb_proper d'" and "fb_body d = fb_body d'" and "k \<noteq> ''record_digest''"
  shows "json_norm (dget d k) = json_norm (dget d' k)"
proof -
  let ?r = "ddel ''record_digest''"
  have plain: "no_float (PDict (?r d))" "no_float (PDict (?r d'))"
    using fb_proper_plain [OF assms(1)] fb_proper_plain [OF assms(2)] by (auto simp: ddel_def)
  from fb_body_text [OF assms(1)] fb_body_text [OF assms(2)] assms(3)
  have "json_norm (PDict (?r d)) = json_norm (PDict (?r d'))"
    unfolding fb_canonical_def by (intro json_dumps_determines_value [OF _ _ plain]) simp_all
  from json_norm_PDict_fields [OF this, of k] assms(4) show ?thesis
    by (auto simp: dget_def dget_opt_def split: option.splits)
qed

interpretation fb_chain: sealed_records H fb_key fb_position fb_parent fb_seal fb_body fb_proper for H
proof
  fix d d'
  assume p: "fb_proper d" "fb_proper d'" and b: "fb_body d = fb_body d'"
  from fb_body_fields [OF p b, of "''sequence''"] fb_body_fields [OF p b, of "''parent_digest''"]
  have norm: "json_norm (dget d ''sequence'') = json_norm (dget d' ''sequence'')"
    "json_norm (dget d ''parent_digest'') = json_norm (dget d' ''parent_digest'')" by simp_all
  from p obtain n h n' h' where "dget d ''sequence'' = PInt n" "dget d ''parent_digest'' = PStr h"
    "dget d' ''sequence'' = PInt n'" "dget d' ''parent_digest'' = PStr h'"
    unfolding fb_proper_def by (auto dest!: parse_record_eq_Inr simp: valid_types_def elim!: is_int.elims is_hex_text.elims)
  with norm show "fb_position d = fb_position d' \<and> fb_parent d = fb_parent d'" by (simp add: fb_position_def fb_parent_def)
qed

lemma parse_line_proper: "parse_line l = Inr d \<Longrightarrow> fb_proper d"
  by (auto simp: parse_line_def res_simps fb_proper_def dest: parse_record_eq_Inr)

lemma link_iff:
  assumes "fb_proper d" and "tail_at tails (text_of (dget d ''task_id'')) = fb_chain.tail (text_of (dget d ''task_id'')) rs"
  shows "fb_chain.link H rs d \<longleftrightarrow>
    dget d ''parent_digest'' = PStr (snd (tail_at tails (text_of (dget d ''task_id'')))) \<and>
    dget d ''sequence'' = PInt (fst (tail_at tails (text_of (dget d ''task_id''))) + 1) \<and>
    dget d ''record_digest'' = PStr (H (fb_body d))"
proof -
  from assms(1) obtain n h h' where "dget d ''sequence'' = PInt n" "dget d ''parent_digest'' = PStr h"
    "dget d ''record_digest'' = PStr h'"
    unfolding fb_proper_def by (auto dest!: parse_record_eq_Inr simp: valid_types_def elim!: is_int.elims is_hex_text.elims)
  with assms show ?thesis
    by (auto simp: fb_chain.link_def fb_key_def fb_position_def fb_parent_def fb_seal_def)
qed

lemma scan_lines_iff:
  assumes "\<And>k. tail_at tails k = fb_chain.tail k rs" and "fb_chain.chained H rs"
  shows "scan_lines H tails ls = Inr ds \<longleftrightarrow> list_all2 (\<lambda>l d. parse_line l = Inr d) ls ds \<and> fb_chain.chained H (rs @ ds)"
  using assms
proof (induction ls arbitrary: tails rs ds)
  case Nil
  then show ?case by auto
next
  case (Cons l ls)
  show ?case
  proof (cases "parse_line l")
    case (Inl e)
    then show ?thesis by (auto simp: list_all2_Cons1)
  next
    case (Inr d)
    let ?t = "text_of (dget d ''task_id'')"
    let ?tails = "(?t, fst (tail_at tails ?t) + 1, H (fb_body d)) # tails"
    have proper: "fb_proper d" by (rule parse_line_proper [OF Inr])
    note link = link_iff [OF proper Cons.prems(1), of H]
    have scan: "scan_lines H tails (l # ls) = Inr ds \<longleftrightarrow>
        (\<exists>ds'. ds = d # ds' \<and> fb_chain.link H rs d \<and> scan_lines H ?tails ls = Inr ds')"
      unfolding link by (auto simp: Inr Let_def res_simps fb_body_text [OF proper])
    have IH: "scan_lines H ?tails ls = Inr ds' \<longleftrightarrow>
        list_all2 (\<lambda>l d. parse_line l = Inr d) ls ds' \<and> fb_chain.chained H (rs @ d # ds')" if l: "fb_chain.link H rs d" for ds'
    proof -
      have "fb_key d = Some ?t" "fb_seal d = H (fb_body d)" using l link by (simp_all add: fb_key_def fb_seal_def)
      then have "tail_at ?tails k = fb_chain.tail k (rs @ [d])" for k
        using Cons.prems(1) by (auto simp: fb_chain.tail_snoc)
      moreover have "fb_chain.chained H (rs @ [d])" using l Cons.prems(2) by (simp add: fb_chain.chained_snoc)
      ultimately show ?thesis using Cons.IH [of ?tails "rs @ [d]" ds'] by simp
    qed
    have "fb_chain.link H rs d" if "fb_chain.chained H (rs @ d # ds')" for ds'
      using fb_chain.chained_prefix [of H "rs @ [d]" ds'] that by (simp add: fb_chain.chained_snoc)
    with scan IH show ?thesis by (auto simp: list_all2_Cons1 Inr)
  qed
qed

lemma scan_lines_start:
  "scan_lines H [] ls = Inr ds \<longleftrightarrow> list_all2 (\<lambda>l d. parse_line l = Inr d) ls ds \<and> fb_chain.chained H ds"
  using scan_lines_iff [of "[]" "[]" H ls ds] by simp

subsection \<open>Appending\<close>

lemma scan_facts:
  assumes "scan H st = Inr (ds, t, n)"
  shows "list_all2 (\<lambda>l d. parse_line l = Inr d) (ds_lines st) ds" "fb_chain.chained H ds" "n = stream_size st"
  using assms by (auto simp: scan_def res_simps scan_lines_start stream_size_def split: if_splits)

lemma scan_intro:
  assumes "list_all2 (\<lambda>l d. parse_line l = Inr d) (ds_lines st) ds" and "fb_chain.chained H ds"
    and "ds_terminated st" and "stream_size st \<le> MAX_BYTES" and "int (length ds) \<le> MAX_RECORDS"
    and "\<exists>l \<in> set (ds_lines st). \<not> dl_blank l"
  shows "\<exists>t. scan H st = Inr (ds, t, stream_size st)"
  using assms by (auto simp: scan_def res_simps scan_lines_start list_all_iff)

lemma chained_proper: "fb_chain.chained H ds \<Longrightarrow> d \<in> set ds \<Longrightarrow> fb_proper d"
  by (auto simp: fb_chain.chained_def fb_chain.link_def fb_key_def in_set_conv_nth)

lemma fb_proper_texts:
  assumes "fb_proper d"
  obtains task decision where "dget d ''task_id'' = PStr task" and "dget d ''decision_id'' = PStr decision" and "hex64 (fb_seal d)"
  using assms unfolding fb_proper_def fb_seal_def
  by (auto dest!: parse_record_eq_Inr simp: valid_types_def elim!: is_str.elims is_hex_text.elims)

lemma task_records:
  assumes "fb_chain.chained H ds"
  shows "filter (\<lambda>d. dget d ''task_id'' = PStr task) ds = fb_chain.of_key task ds"
  unfolding fb_chain.of_key_def
proof (rule filter_cong [OF refl])
  fix d
  assume "d \<in> set ds"
  then obtain task' where "dget d ''task_id'' = PStr task'" using fb_proper_texts [OF chained_proper [OF assms]] by metis
  then show "(dget d ''task_id'' = PStr task) = (fb_key d = Some task)" by (simp add: fb_key_def)
qed

lemma task_tail:
  assumes "fb_chain.chained H ds"
  shows "(if fb_chain.of_key task ds = [] then genesis else text_of (dget (last (fb_chain.of_key task ds)) ''record_digest'')) =
      snd (fb_chain.tail task ds)"
    and "hex64 (snd (fb_chain.tail task ds))"
proof -
  show *: "(if fb_chain.of_key task ds = [] then genesis else text_of (dget (last (fb_chain.of_key task ds)) ''record_digest'')) =
      snd (fb_chain.tail task ds)"
    using fb_chain.snd_tail [of task ds] by (auto simp: fb_seal_def [symmetric] fb_chain.tail_def split: list.splits)
  show "hex64 (snd (fb_chain.tail task ds))"
  proof (cases "fb_chain.of_key task ds = []")
    case True
    then show ?thesis by (simp add: fb_chain.tail_def hex64_genesis)
  next
    case False
    then have "last (fb_chain.of_key task ds) \<in> set ds" by (metis fb_chain.of_key_def filter_is_subset last_in_set subsetD)
    with fb_chain.snd_tail [OF False] show ?thesis by (metis fb_proper_texts chained_proper [OF assms])
  qed
qed

lemma to_record_text:
  assumes "fb_ok fb"
  obtains s where "fb_canonical (to_record fb n parent) = Inr s"
proof -
  have "json_ok (PDict (to_record fb n parent)) \<and> no_float (PDict (to_record fb n parent))"
    by (auto simp: to_record_def)
  then show thesis using that unfolding fb_canonical_def by (meson json_dumps_total)
qed

lemma stored_body:
  assumes "fb_canonical (to_record fb n parent) = Inr text"
  shows "fb_body (loaded (stored_record H fb n parent h)) = text"
proof -
  have "ddel ''record_digest'' (stored_record H fb n parent h) = to_record fb n parent"
    by (simp add: stored_record_def to_record_def ddel_def)
  then show ?thesis using assms by (simp add: fb_body_def ddel_loaded fb_canonical_loaded)
qed

lemma stored_distinct:
  assumes "fb_ok fb"
  shows "distinct_keys (json_norm (PDict (stored_record H fb n parent h)))"
proof -
  have flags: "distinct_keys (json_norm (PDict (map (\<lambda>(k, v). (k, PBool v)) (fb_authority_flags fb))))"
    using assms by (auto simp: fb_ok_def flags_ok_def distinct_map_fst_sort_key comp_def case_prod_beta)
  have "distinct (map fst (loaded (stored_record H fb n parent h)))"
    using dkeys_loaded(2) [of "stored_record H fb n parent h"] by (simp add: dkeys_def [symmetric] dkeys_stored_record RECORD_FIELDS_def)
  moreover have "distinct_keys (json_norm v)" if "(k, v) \<in> set (stored_record H fb n parent h)" for k v
    using that flags by (auto simp: stored_record_def to_record_def simp del: json_norm.simps(3))
  ultimately show ?thesis unfolding json_norm_PDict by (auto simp: loaded_def)
qed

lemma parse_written:
  assumes "fb_ok fb" and "hex64 parent" and "hex64 h"
  shows "parse_line (written_line (stored_record H fb n parent h) text) =
    (if readable fb then Inr (loaded (stored_record H fb n parent h)) else Inl (ValueError, ''invalid decision token grammar''))"
  using parse_stored_record [OF assms] stored_distinct [OF assms(1)]
  by (simp add: parse_line_def written_line_def json_norm_PDict del: json_norm.simps(3))

definition next_record :: "(string \<Rightarrow> string) \<Rightarrow> feedback \<Rightarrow> dict list \<Rightarrow> dict" where
  "next_record H fb ds =
    (let n = fst (fb_chain.tail (fb_task_id fb) ds) + 1; parent = snd (fb_chain.tail (fb_task_id fb) ds) in
     stored_record H fb n parent (H (case fb_canonical (to_record fb n parent) of Inr s \<Rightarrow> s | Inl _ \<Rightarrow> [])))"

lemma append_step_eq:
  assumes "scan H st = Inr (ds, t, n)"
  shows "append_step H st fb expected =
     bindr (raise_if (expected \<noteq> None \<and> expected \<noteq> Some (snd (fb_chain.tail (fb_task_id fb) ds))) ValueError
              ''stale expected tail'') (\<lambda>_.
     case find (\<lambda>d. dget d ''decision_id'' = PStr (fb_decision_id fb)) ds of
       Some old \<Rightarrow> bindr (replay_of fb old) (\<lambda>d. Inr ((d, True), None))
     | None \<Rightarrow>
         bindr (sealed_record H fb (fst (fb_chain.tail (fb_task_id fb) ds) + 1) (snd (fb_chain.tail (fb_task_id fb) ds))) (\<lambda>d.
         bindr (fb_canonical d) (\<lambda>text.
         bindr (raise_if (n + int (length text) + 1 > MAX_BYTES \<or> int (length ds) \<ge> MAX_RECORDS) ValueError
                  ''decision stream ceiling exceeded'') (\<lambda>_.
         Inr ((d, False), Some (written_line d text))))))"
proof -
  note ch = scan_facts(2) [OF assms]
  show ?thesis
    unfolding append_step_def assms bindr.simps prod.case Let_def task_records [OF ch] task_tail(1) [OF ch]
      fb_chain.fst_tail [symmetric] ..
qed

lemma append_new:
  assumes "scan H st = Inr (ds, t, n)" and "fb_ok fb" and "append H locked st fb expected = (Inr (d, False), st')"
  shows "d = next_record H fb ds \<and>
    (\<exists>s. st' = st\<lparr> ds_lines := ds_lines st @ [written_line d s], ds_terminated := True \<rparr> \<and>
       stream_size st + int (length s) + 1 \<le> MAX_BYTES) \<and>
    int (length ds) < MAX_RECORDS \<and> (\<forall>old \<in> set ds. dget old ''decision_id'' \<noteq> PStr (fb_decision_id fb))"
proof -
  note sc = scan_facts [OF assms(1)]
  let ?k = "fst (fb_chain.tail (fb_task_id fb) ds) + 1" and ?p = "snd (fb_chain.tail (fb_task_id fb) ds)"
  obtain s where s: "fb_canonical (to_record fb ?k ?p) = Inr s" using to_record_text [OF assms(2)] by metis
  from assms(3) obtain l where step: "append_step H st fb expected = Inr ((d, False), Some l)"
    and st': "st' = st\<lparr> ds_lines := ds_lines st @ [l], ds_terminated := True \<rparr>"
    by (auto simp: append_def append_step_def Let_def res_simps split: sum.splits option.splits if_splits)
  from step have none: "find (\<lambda>d. dget d ''decision_id'' = PStr (fb_decision_id fb)) ds = None"
    by (auto simp: append_step_eq [OF assms(1)] res_simps split: option.splits)
  with step s have "d = next_record H fb ds" "\<exists>s'. l = written_line d s' \<and> n + int (length s') + 1 \<le> MAX_BYTES"
    "int (length ds) < MAX_RECORDS"
    by (auto simp: append_step_eq [OF assms(1)] res_simps Let_def sealed_record_def next_record_def stored_record_def)
  moreover from none have "\<forall>old \<in> set ds. dget old ''decision_id'' \<noteq> PStr (fb_decision_id fb)"
    by (auto simp: find_None_iff)
  ultimately show ?thesis using st' sc(3) by blast
qed

lemma append_same: "append H locked st fb expected = (r, st') \<Longrightarrow> (\<And>d. r \<noteq> Inr (d, False)) \<Longrightarrow> st' = st"
  by (auto simp: append_def append_step_def Let_def res_simps split: if_splits sum.splits option.splits prod.splits)

lemma next_record_facts:
  assumes "fb_chain.chained H ds" and "fb_ok fb" and "\<And>s. hex64 (H s)"
  shows "parse_line (written_line (next_record H fb ds) s) =
      (if readable fb then Inr (loaded (next_record H fb ds)) else Inl (ValueError, ''invalid decision token grammar''))"
    and "readable fb \<Longrightarrow> fb_chain.chained H (ds @ [loaded (next_record H fb ds)])"
    and "dget (loaded (next_record H fb ds)) ''decision_id'' = PStr (fb_decision_id fb)"
proof -
  let ?k = "fst (fb_chain.tail (fb_task_id fb) ds) + 1" and ?p = "snd (fb_chain.tail (fb_task_id fb) ds)"
  obtain x where x: "fb_canonical (to_record fb ?k ?p) = Inr x" using to_record_text [OF assms(2)] by metis
  then have d: "next_record H fb ds = stored_record H fb ?k ?p (H x)" by (simp add: next_record_def Let_def)
  show parse: "parse_line (written_line (next_record H fb ds) s) =
      (if readable fb then Inr (loaded (next_record H fb ds)) else Inl (ValueError, ''invalid decision token grammar''))" for s
    unfolding d by (rule parse_written [OF assms(2) task_tail(2) [OF assms(1)] assms(3)])
  show "dget (loaded (next_record H fb ds)) ''decision_id'' = PStr (fb_decision_id fb)"
    by (simp add: d dget_loaded dget_to_record)
  assume "readable fb"
  then have proper: "fb_proper (loaded (next_record H fb ds))" using parse parse_line_proper by metis
  have get: "dget (loaded (next_record H fb ds)) ''task_id'' = PStr (fb_task_id fb)"
    "dget (loaded (next_record H fb ds)) ''sequence'' = PInt ?k" "dget (loaded (next_record H fb ds)) ''parent_digest'' = PStr ?p"
    "dget (loaded (next_record H fb ds)) ''record_digest'' = PStr (H x)" by (simp_all add: d dget_loaded dget_to_record)
  have "fb_body (loaded (next_record H fb ds)) = x" unfolding d by (rule stored_body [OF x])
  with get proper have "fb_chain.link H ds (loaded (next_record H fb ds))"
    by (auto simp: fb_chain.link_def fb_key_def [of "loaded (next_record H fb ds)"] fb_position_def [of "loaded (next_record H fb ds)"]
        fb_parent_def [of "loaded (next_record H fb ds)"] fb_seal_def [of "loaded (next_record H fb ds)"])
  with assms(1) show "fb_chain.chained H (ds @ [loaded (next_record H fb ds)])" by (simp add: fb_chain.chained_snoc)
qed

text \<open>A successful append of a readable decision is exactly one more record.\<close>

lemma append_scan:
  assumes "scan H st = Inr (ds, t, n)" and "fb_ok fb" and "readable fb" and "\<And>s. hex64 (H s)"
    and "append H locked st fb expected = (Inr (d, False), st')"
  shows "\<exists>t'. scan H st' = Inr (ds @ [loaded d], t', stream_size st')"
proof -
  note sc = scan_facts [OF assms(1)] and new = append_new [OF assms(1,2,5)]
  from new obtain s where st': "st' = st\<lparr> ds_lines := ds_lines st @ [written_line d s], ds_terminated := True \<rparr>"
    "stream_size st + int (length s) + 1 \<le> MAX_BYTES" by blast
  from new have d: "d = next_record H fb ds" by blast
  note next_facts = next_record_facts [OF sc(2) assms(2,4), folded d]
  have "stream_size st' \<le> MAX_BYTES" using st' by (simp add: stream_size_def written_line_def)
  moreover have "list_all2 (\<lambda>l d. parse_line l = Inr d) (ds_lines st') (ds @ [loaded d])"
    using sc(1) next_facts(1) [of s] assms(3) by (simp add: st'(1) list_all2_appendI)
  moreover have "int (length (ds @ [loaded d])) \<le> MAX_RECORDS" using new by simp
  ultimately show ?thesis using next_facts(2) [OF assms(3)]
    by (intro scan_intro) (simp_all add: st'(1) written_line_def)
qed

subsection \<open>Sequences of appends\<close>

type_synonym append_call = "bool \<times> feedback \<times> string option"

definition append_all :: "(string \<Rightarrow> string) \<Rightarrow> append_call list \<Rightarrow> decision_stream \<Rightarrow> decision_stream" where
  "append_all H calls st = foldl (\<lambda>st (locked, fb, expected). snd (append H locked st fb expected)) st calls"

text \<open>Calls with constructed decisions whose identifiers the stream can read back.\<close>

definition proper_calls :: "append_call list \<Rightarrow> bool" where
  "proper_calls calls \<longleftrightarrow> (\<forall>(locked, fb, expected) \<in> set calls. (\<exists>fa. make_feedback fa = Inr fb) \<and> readable fb)"

definition decision_ids :: "dict list \<Rightarrow> pyval list" where
  "decision_ids ds = map (\<lambda>d. dget d ''decision_id'') ds"

lemma append_all_simps [simp]:
  "append_all H [] st = st"
  "append_all H ((locked, fb, expected) # calls) st = append_all H calls (snd (append H locked st fb expected))"
  "append_all H (calls @ calls') st = append_all H calls' (append_all H calls st)"
  by (simp_all add: append_all_def)

lemma proper_calls_simps [simp]:
  "proper_calls []"
  "proper_calls ((locked, fb, expected) # calls) \<longleftrightarrow> (\<exists>fa. make_feedback fa = Inr fb) \<and> readable fb \<and> proper_calls calls"
  "proper_calls (calls @ calls') \<longleftrightarrow> proper_calls calls \<and> proper_calls calls'"
  by (simp_all add: proper_calls_def ball_Un)

lemma append_extends:
  assumes "scan H st = Inr (ds, t, n)" and "distinct (decision_ids ds)" and "fb_ok fb" and "readable fb" and "\<And>s. hex64 (H s)"
  shows "\<exists>ds' t' n'. scan H (snd (append H locked st fb expected)) = Inr (ds @ ds', t', n') \<and> distinct (decision_ids (ds @ ds'))"
proof -
  obtain r st' where app: "append H locked st fb expected = (r, st')" by fastforce
  show ?thesis
  proof (cases "\<exists>d. r = Inr (d, False)")
    case False
    with append_same [OF app] have "st' = st" by blast
    with app assms(1,2) show ?thesis by (auto intro!: exI [of _ "[]"])
  next
    case True
    then obtain d where r: "r = Inr (d, False)" by blast
    note new = append_new [OF assms(1,3) app [unfolded r]]
    have "dget (loaded d) ''decision_id'' = PStr (fb_decision_id fb)"
      using new next_record_facts(3) [OF scan_facts(2) [OF assms(1)] assms(3,5)] by simp
    with new assms(2) have "distinct (decision_ids (ds @ [loaded d]))" by (auto simp: decision_ids_def)
    with append_scan [OF assms(1,3,4,5) app [unfolded r]] app show ?thesis by auto
  qed
qed

lemma append_all_extends:
  assumes "scan H st = Inr (ds, t, n)" and "distinct (decision_ids ds)" and "proper_calls calls" and "\<And>s. hex64 (H s)"
  shows "\<exists>ds' t' n'. scan H (append_all H calls st) = Inr (ds @ ds', t', n') \<and> distinct (decision_ids (ds @ ds'))"
  using assms(1-3)
proof (induction calls arbitrary: st ds t n)
  case Nil
  then show ?case by (auto intro!: exI [of _ "[]"])
next
  case (Cons c calls)
  obtain locked fb expected where c: "c = (locked, fb, expected)" by (cases c)
  from Cons.prems(3) have fb: "fb_ok fb" "readable fb" "proper_calls calls" by (auto simp: c dest: make_feedback_ok)
  from append_extends [OF Cons.prems(1,2) fb(1,2) assms(4)] obtain ds1 t1 n1 where
    "scan H (snd (append H locked st fb expected)) = Inr (ds @ ds1, t1, n1)" "distinct (decision_ids (ds @ ds1))" by blast
  from Cons.IH [OF this fb(3)] show ?case by (auto simp: c)
qed

lemma scan_empty: "scan H empty_stream = Inr ([], genesis, 0)"
  by (simp add: scan_def empty_stream_def)

text \<open>The records of one task in a stream.\<close>

definition task_rows :: "string \<Rightarrow> dict list \<Rightarrow> dict list" where
  "task_rows task ds = filter (\<lambda>d. dget d ''task_id'' = PStr task) ds"

lemma task_rows_linked:
  assumes "fb_chain.chained H ds" and "i < length (task_rows task ds)"
  shows "dget (task_rows task ds ! i) ''sequence'' = PInt (int i + 1) \<and>
    dget (task_rows task ds ! i) ''parent_digest'' =
      (if i = 0 then PStr genesis else dget (task_rows task ds ! (i - 1)) ''record_digest'')"
proof -
  have rows: "task_rows task ds = fb_chain.of_key task ds" unfolding task_rows_def by (rule task_records [OF assms(1)])
  have fields: "\<exists>n h h'. dget d ''sequence'' = PInt n \<and> dget d ''parent_digest'' = PStr h \<and> dget d ''record_digest'' = PStr h'"
    if "fb_proper d" for d
    using that unfolding fb_proper_def
    by (auto dest!: parse_record_eq_Inr simp: valid_types_def elim!: is_int.elims is_hex_text.elims)
  from assms(2) have i: "i < length (fb_chain.of_key task ds)" "i - 1 < length (fb_chain.of_key task ds)" by (simp_all add: rows)
  show ?thesis
    using fb_chain.chained_of_key [OF assms(1) i(1)] fb_chain.chained_of_key [OF assms(1) i(2)] fields
    unfolding rows fb_position_def fb_parent_def fb_seal_def by (metis int_of.simps(1) text_of.simps(1))
qed

text \<open>
  C17 (decision_log_sound). Whatever constructed decisions, with no two adjacent slashes in their task and decision
  ids, are appended to an empty stream, with whatever expected tails and lock timeouts, the stream stays readable
  and append-only: later appends only add records after the earlier ones, no decision id occurs twice, and the
  records of each task are numbered from one with each record carrying the digest of the one before it. An
  appended decision with two adjacent slashes in an id makes the stream unreadable (\<open>slash_poisons_stream\<close>).
\<close>

theorem decision_log_sound:
  assumes "\<And>s. hex64 (H s)" and "proper_calls (calls @ calls')"
  shows "\<exists>ds ds' t n t' n'. scan H (append_all H calls empty_stream) = Inr (ds, t, n) \<and>
    scan H (append_all H (calls @ calls') empty_stream) = Inr (ds @ ds', t', n') \<and> distinct (decision_ids (ds @ ds')) \<and>
    (\<forall>task. \<forall>i < length (task_rows task (ds @ ds')).
       dget (task_rows task (ds @ ds') ! i) ''sequence'' = PInt (int i + 1) \<and>
       dget (task_rows task (ds @ ds') ! i) ''parent_digest'' =
         (if i = 0 then PStr genesis else dget (task_rows task (ds @ ds') ! (i - 1)) ''record_digest''))"
proof -
  from append_all_extends [OF scan_empty [of H] _ _ assms(1), of calls] assms(2) obtain ds t n where
    ds: "scan H (append_all H calls empty_stream) = Inr (ds, t, n)" "distinct (decision_ids ds)" by (auto simp: decision_ids_def)
  from append_all_extends [OF ds _ assms(1), of calls'] assms(2) obtain ds' t' n' where
    ds': "scan H (append_all H (calls @ calls') empty_stream) = Inr (ds @ ds', t', n')" "distinct (decision_ids (ds @ ds'))"
    by auto
  with ds(1) task_rows_linked [OF scan_facts(2) [OF ds'(1)]] show ?thesis by blast
qed

subsection \<open>Replays and conflicts\<close>

lemma find_append_None: "find P xs = None \<Longrightarrow> find P (xs @ ys) = find P ys"
  by (induction xs) (auto split: if_splits)

lemma replay_stored:
  assumes "fb_ok fb"
  shows "replay_of fb' (loaded (next_record H fb ds)) =
    (let n = fst (fb_chain.tail (fb_task_id fb) ds) + 1; parent = snd (fb_chain.tail (fb_task_id fb) ds) in
     bindr (fb_canonical (to_record fb' n parent)) (\<lambda>candidate.
     bindr (fb_canonical (to_record fb n parent)) (\<lambda>stored.
     bindr (raise_if (candidate \<noteq> stored) ValueError ''idempotency conflict'') (\<lambda>_. Inr (loaded (next_record H fb ds))))))"
proof -
  let ?n = "fst (fb_chain.tail (fb_task_id fb) ds) + 1" and ?p = "snd (fb_chain.tail (fb_task_id fb) ds)"
  obtain x where x: "fb_canonical (to_record fb ?n ?p) = Inr x" using to_record_text [OF assms] by metis
  then have d: "next_record H fb ds = stored_record H fb ?n ?p (H x)" by (simp add: next_record_def Let_def)
  have del: "ddel ''record_digest'' (stored_record H fb ?n ?p (H x)) = to_record fb ?n ?p"
    by (simp add: stored_record_def to_record_def ddel_def)
  show ?thesis
    by (simp add: replay_of_def d dget_loaded dget_to_record ddel_loaded del fb_canonical_loaded Let_def)
qed

lemma same_content:
  assumes "fb_canonical (to_record fb n p) = Inr s" and "fb_canonical (to_record fb' n p) = Inr s"
  shows "fb_task_id fb = fb_task_id fb' \<and> fb_decision fb = fb_decision fb' \<and> fb_reason_codes fb = fb_reason_codes fb' \<and>
    fb_evidence_refs fb = fb_evidence_refs fb' \<and> fb_request_digest fb = fb_request_digest fb'"
proof -
  have "no_float (PDict (to_record fb n p))" for fb by (auto simp: to_record_def)
  with assms have eq: "json_norm (PDict (to_record fb n p)) = json_norm (PDict (to_record fb' n p))"
    unfolding fb_canonical_def by (intro json_dumps_determines_value)
  have inj: "inj decision_value" by (rule injI, case_tac x; case_tac y; simp)
  note field = json_norm_PDict_fields [OF eq]
  have "PStr (fb_task_id fb) = PStr (fb_task_id fb')" using field [of "''task_id''"] by (simp add: to_record_def)
  moreover have "decision_value (fb_decision fb) = decision_value (fb_decision fb')"
    using field [of "''decision''"] by (simp add: to_record_def)
  moreover have "map PStr (fb_reason_codes fb) = map PStr (fb_reason_codes fb')"
    using field [of "''reason_codes''"] by (simp add: to_record_def comp_def)
  moreover have "map PStr (fb_evidence_refs fb) = map PStr (fb_evidence_refs fb')"
    using field [of "''evidence_refs''"] by (simp add: to_record_def comp_def)
  moreover have "PStr (fb_request_digest fb) = PStr (fb_request_digest fb')"
    using field [of "''request_digest''"] by (simp add: to_record_def)
  ultimately show ?thesis using inj by (simp add: inj_eq)
qed

text \<open>
  Once a decision has been appended, and whatever is appended after it, offering
  it again returns its stored record as a replay and writes nothing, and offering other content under the
  same decision id is refused as a conflict and writes nothing.
\<close>

theorem decision_idempotent:
  assumes "\<And>s. hex64 (H s)" and "scan H st = Inr (ds, t, n)" and "distinct (decision_ids ds)"
    and "make_feedback fa = Inr fb" and "readable fb"
    and "append H locked st fb expected = (Inr (d, False), st')" and "proper_calls calls"
    and "make_feedback fa' = Inr fb'" and "fb_decision_id fb' = fb_decision_id fb"
    and "fb_task_id fb' \<noteq> fb_task_id fb \<or> fb_decision fb' \<noteq> fb_decision fb \<or> fb_reason_codes fb' \<noteq> fb_reason_codes fb \<or>
      fb_evidence_refs fb' \<noteq> fb_evidence_refs fb \<or> fb_request_digest fb' \<noteq> fb_request_digest fb"
  shows "append H True (append_all H calls st') fb None = (Inr (loaded d, True), append_all H calls st') \<and>
    append H True (append_all H calls st') fb' None = (Inl (ValueError, ''idempotency conflict''), append_all H calls st')"
proof -
  have ok: "fb_ok fb" "fb_ok fb'" using assms(4,8) by (auto dest: make_feedback_ok)
  note new = append_new [OF assms(2) ok(1) assms(6)]
  then have d: "d = next_record H fb ds" by blast
  note id = next_record_facts(3) [OF scan_facts(2) [OF assms(2)] ok(1) assms(1), folded d]
  from append_scan [OF assms(2) ok(1) assms(5,1,6)] obtain t' where st': "scan H st' = Inr (ds @ [loaded d], t', stream_size st')" by blast
  have "distinct (decision_ids (ds @ [loaded d]))" using assms(3) new id by (auto simp: decision_ids_def)
  from append_all_extends [OF st' this assms(7,1)] obtain ds'' t'' n'' where
    later: "scan H (append_all H calls st') = Inr ((ds @ [loaded d]) @ ds'', t'', n'')" by blast
  have "find (\<lambda>x. dget x ''decision_id'' = PStr (fb_decision_id fb)) ds = None" using new by (auto simp: find_None_iff)
  then have found: "find (\<lambda>x. dget x ''decision_id'' = PStr (fb_decision_id fb)) ((ds @ [loaded d]) @ ds'') = Some (loaded d)"
    using id by (simp add: find_append_None)
  let ?k = "fst (fb_chain.tail (fb_task_id fb) ds) + 1" and ?p = "snd (fb_chain.tail (fb_task_id fb) ds)"
  obtain x y where x: "fb_canonical (to_record fb ?k ?p) = Inr x" and y: "fb_canonical (to_record fb' ?k ?p) = Inr y"
    using to_record_text [OF ok(1)] to_record_text [OF ok(2)] by metis
  have "x \<noteq> y" using same_content [OF x, of fb'] y assms(10) by auto
  then have "replay_of fb (loaded d) = Inr (loaded d)" "replay_of fb' (loaded d) = Inl (ValueError, ''idempotency conflict'')"
    using replay_stored [OF ok(1), of fb H ds] replay_stored [OF ok(1), of fb' H ds] by (simp_all add: Let_def x y d)
  then show ?thesis
    unfolding append_def append_step_eq [OF later] assms(9) found by simp
qed

subsection \<open>Tampering\<close>

text \<open>
  The digest of the last record of a task fixes the whole history of that task:
  two readable streams, whoever wrote them, whose last records of a task carry the same digest have the
  same records of that task, field by field, unless two different texts with the same digest occur in them.
\<close>

theorem decision_chain_binds:
  assumes "scan H st = Inr (ds, t, n)" and "scan H st' = Inr (ds', t', n')"
    and "task_rows task ds \<noteq> []" and "task_rows task ds' \<noteq> []"
    and "dget (last (task_rows task ds)) ''record_digest'' = dget (last (task_rows task ds')) ''record_digest''"
  shows "list_all2 (\<lambda>d d'. \<forall>k. json_norm (dget d k) = json_norm (dget d' k)) (task_rows task ds) (task_rows task ds') \<or>
    (\<exists>d \<in> set ds. \<exists>d' \<in> set ds'. \<exists>x y. fb_canonical (ddel ''record_digest'' d) = Inr x \<and>
       fb_canonical (ddel ''record_digest'' d') = Inr y \<and> x \<noteq> y \<and> H x = H y)"
proof -
  note ch = scan_facts(2) [OF assms(1)] scan_facts(2) [OF assms(2)]
  have rows: "task_rows task ds = fb_chain.of_key task ds" "task_rows task ds' = fb_chain.of_key task ds'"
    unfolding task_rows_def using task_records ch by blast+
  have seal: "snd (fb_chain.tail task ds) = snd (fb_chain.tail task ds')"
    using assms(3-5) by (simp add: rows fb_chain.snd_tail fb_seal_def)
  have same: "\<forall>k. json_norm (dget d k) = json_norm (dget d' k)"
    if "fb_proper d \<and> fb_proper d' \<and> fb_body d = fb_body d' \<and> fb_seal d = fb_seal d'" for d d'
  proof
    fix k
    have "is_str (dget x ''record_digest'')" if "fb_proper x" for x
      using that unfolding fb_proper_def by (auto dest!: parse_record_eq_Inr is_hex_text_str simp: valid_types_def)
    from this [of d] this [of d'] that have "dget d ''record_digest'' = dget d' ''record_digest''"
      by (auto simp: fb_seal_def elim!: is_str.elims)
    then show "json_norm (dget d k) = json_norm (dget d' k)"
      using fb_body_fields [of d d' k] that by (cases "k = ''record_digest''") auto
  qed
  from fb_chain.tail_binds_records [OF ch _ _ seal] assms(3,4) show ?thesis
    unfolding rows using same fb_body_text by (blast intro: list.rel_mono_strong)
qed

subsection \<open>Identifiers with adjacent slashes\<close>

lemma append_unreadable: "scan H st = Inl e \<Longrightarrow> append_all H calls st = st"
  by (induction calls) (auto simp: append_all_def append_def append_step_def)

text \<open>
  The constructor accepts a task or decision id with two adjacent slashes and
  \<open>append\<close> writes it, but reading refuses it: from then on the whole stream is unreadable, and every later
  append fails and changes nothing.
\<close>

theorem slash_poisons_stream:
  assumes "\<And>s. hex64 (H s)" and "scan H st = Inr (ds, t, n)" and "make_feedback fa = Inr fb" and "\<not> readable fb"
    and "append H locked st fb expected = (Inr (d, False), st')"
  shows "(\<exists>e. scan H st' = Inl e) \<and> append_all H calls st' = st'"
proof -
  have ok: "fb_ok fb" using assms(3) by (rule make_feedback_ok)
  note new = append_new [OF assms(2) ok assms(5)]
  then obtain s where st': "st' = st\<lparr> ds_lines := ds_lines st @ [written_line d s], ds_terminated := True \<rparr>" and d: "d = next_record H fb ds"
    by blast
  have bad: "parse_line (written_line d s) \<noteq> Inr x" for x
    using next_record_facts(1) [OF scan_facts(2) [OF assms(2)] ok assms(1), of s] assms(4) by (simp add: d)
  have "scan H st' \<noteq> Inr (ds', t', n')" for ds' t' n'
  proof
    assume "scan H st' = Inr (ds', t', n')"
    from scan_facts(1) [OF this] bad show False by (auto simp: st' list_all2_append1 list_all2_Cons1)
  qed
  then have "\<exists>e. scan H st' = Inl e" by (cases "scan H st'") auto
  with append_unreadable show ?thesis by blast
qed

section \<open>Concrete streams\<close>

definition sample_feedback :: "string \<Rightarrow> string \<Rightarrow> feedback" where
  "sample_feedback task decision =
     \<lparr> fb_task_id = task, fb_decision_id = decision, fb_decision = KEEP, fb_reason_codes = [], fb_evidence_refs = [],
       fb_request_digest = [], fb_authority_flags = map (\<lambda>k. (k, False)) AUTHORITY_FLAG_KEYS \<rparr>"

abbreviation first_append :: "string \<Rightarrow> (dict \<times> bool) res \<times> decision_stream" where
  "first_append task \<equiv> append sample_hash True empty_stream (sample_feedback task ''d1'') None"

lemma sample_feedback_made:
  "make_feedback (feedback_defaults (PStr ''t'') (PStr ''d1'') (PStr ''KEEP'')) = Inr (sample_feedback ''t'' ''d1'')"
  "make_feedback (feedback_defaults (PStr ''t'') (PStr ''d2'') (PStr ''KEEP'')) = Inr (sample_feedback ''t'' ''d2'')"
  "make_feedback (feedback_defaults (PStr ''u'') (PStr ''d1'') (PStr ''KEEP'')) = Inr (sample_feedback ''u'' ''d1'')"
  "make_feedback (feedback_defaults (PStr ''a//b'') (PStr ''d1'') (PStr ''KEEP'')) = Inr (sample_feedback ''a//b'' ''d1'')"
  "readable (sample_feedback ''t'' ''d1'')" "readable (sample_feedback ''t'' ''d2'')" "\<not> readable (sample_feedback ''a//b'' ''d1'')"
  by code_simp+

definition fresh_append :: "(dict \<times> bool) res \<times> decision_stream \<Rightarrow> bool" where
  "fresh_append x = (case fst x of Inr (d, False) \<Rightarrow> True | _ \<Rightarrow> False)"

lemma sample_appends: "fresh_append (first_append ''t'')" "fresh_append (first_append ''a//b'')"
  by code_simp+

lemma fresh_appendE:
  assumes "fresh_append x"
  obtains d st where "x = (Inr (d, False), st)"
  using assms by (cases x) (auto simp: fresh_append_def split: sum.splits prod.splits bool.splits)

theorem decision_log_sound_witness:
  "\<exists>ds ds' t n t' n'.
     scan sample_hash (append_all sample_hash [(True, sample_feedback ''t'' ''d1'', None)] empty_stream) = Inr (ds, t, n) \<and>
     scan sample_hash (append_all sample_hash [(True, sample_feedback ''t'' ''d1'', None), (True, sample_feedback ''t'' ''d2'', None)]
       empty_stream) = Inr (ds @ ds', t', n')"
proof -
  have "proper_calls ([(True, sample_feedback ''t'' ''d1'', None)] @ [(True, sample_feedback ''t'' ''d2'', None)])"
    using sample_feedback_made(1,2,5,6) by (auto simp: proper_calls_def)
  from decision_log_sound [where H = sample_hash, OF hex64_sample_hash this] show ?thesis
    unfolding append_Cons append_Nil by blast
qed

theorem decision_idempotent_witness:
  "\<exists>d st'. first_append ''t'' = (Inr (d, False), st') \<and>
     append sample_hash True st' (sample_feedback ''t'' ''d1'') None = (Inr (loaded d, True), st') \<and>
     append sample_hash True st' (sample_feedback ''u'' ''d1'') None = (Inl (ValueError, ''idempotency conflict''), st')"
proof -
  from sample_appends(1) obtain d st' where app: "first_append ''t'' = (Inr (d, False), st')" by (rule fresh_appendE)
  from decision_idempotent [where H = sample_hash, OF hex64_sample_hash scan_empty _ sample_feedback_made(1,5) app, of "[]",
      OF _ _ sample_feedback_made(3)] app
  show ?thesis by (auto simp: decision_ids_def sample_feedback_def)
qed

theorem slash_poisons_stream_witness:
  "\<exists>d st' e. first_append ''a//b'' = (Inr (d, False), st') \<and> scan sample_hash st' = Inl e"
proof -
  from sample_appends(2) obtain d st' where app: "first_append ''a//b'' = (Inr (d, False), st')" by (rule fresh_appendE)
  from slash_poisons_stream [where H = sample_hash, OF hex64_sample_hash scan_empty sample_feedback_made(4,7) app, of "[]"] app
  show ?thesis by blast
qed

theorem decision_chain_binds_witness:
  "\<exists>st ds t n. scan sample_hash st = Inr (ds, t, n) \<and> task_rows ''t'' ds \<noteq> [] \<and>
     (list_all2 (\<lambda>d d'. \<forall>k. json_norm (dget d k) = json_norm (dget d' k)) (task_rows ''t'' ds) (task_rows ''t'' ds) \<or>
      (\<exists>d \<in> set ds. \<exists>d' \<in> set ds. \<exists>x y. fb_canonical (ddel ''record_digest'' d) = Inr x \<and>
         fb_canonical (ddel ''record_digest'' d') = Inr y \<and> x \<noteq> y \<and> sample_hash x = sample_hash y))"
proof -
  from sample_appends(1) obtain d st' where app: "first_append ''t'' = (Inr (d, False), st')" by (rule fresh_appendE)
  have ok: "fb_ok (sample_feedback ''t'' ''d1'')" by (rule make_feedback_ok [OF sample_feedback_made(1)])
  from append_scan [where H = sample_hash, OF scan_empty ok sample_feedback_made(5) hex64_sample_hash app] obtain t' where
    scan: "scan sample_hash st' = Inr ([loaded d], t', stream_size st')" by auto
  have "d = next_record sample_hash (sample_feedback ''t'' ''d1'') []" using append_new [OF scan_empty ok app] by blast
  then have "dget (loaded d) ''task_id'' = PStr ''t''"
    by (simp add: next_record_def Let_def dget_loaded dget_to_record sample_feedback_def)
  then have rows: "task_rows ''t'' [loaded d] \<noteq> []" by (simp add: task_rows_def)
  from decision_chain_binds [OF scan scan rows rows refl] scan rows show ?thesis by blast
qed

end
