(* ===== verification/Event_Log.thy ===== *)
theory Event_Log
  imports Decision_Log Writer_Generation
begin

text \<open>
  The event log (\<open>JsonlEventLogStore\<close> of \<open>kernel/events/log_store.py\<close>), used without an owner context and
  without a writer factory: any number of store objects, in any number of processes, append JSON lines to one
  file, fenced by the installed writer generation. The attempt transitions of a task attempt form a chain of
  digests, which every append checks from the beginning of the file.
\<close>

section \<open>Texts\<close>

text \<open>\<open>default=str\<close>: an object of another class is written as its text.\<close>

fun stringified :: "pyval \<Rightarrow> pyval" where
  "stringified (PList xs) = PList (map stringified xs)"
| "stringified (PTuple xs) = PTuple (map stringified xs)"
| "stringified (PDict d) = PDict (map (\<lambda>p. (fst p, stringified (snd p))) d)"
| "stringified (PObj r) = PStr (py_str (PObj r))"
| "stringified v = v"

text \<open>\<open>json.loads(json.dumps(v))\<close>: tuples come back as lists, keys in the order they were written.\<close>

fun json_read :: "pyval \<Rightarrow> pyval" where
  "json_read (PList xs) = PList (map json_read xs)"
| "json_read (PTuple xs) = PList (map json_read xs)"
| "json_read (PDict d) = PDict (map (\<lambda>p. (fst p, json_read (snd p))) d)"
| "json_read v = v"

definition event_text :: "dict \<Rightarrow> string res" where
  "event_text d = json_dumps False True (stringified (PDict d))"

section \<open>The store\<close>

text \<open>A line of the file: blank, not JSON, or a JSON value.\<close>

datatype log_line = Blank | Garbled | Line pyval

text \<open>
  What the operations see of the file system: the documents with the generation manifest among them, the
  lines of the log if it exists, whether the quiescence hold exists, and what reading the state owner
  manifest gives (whether there is one, or an exception).
\<close>

record event_world =
  ew_files :: store
  ew_log :: "log_line list option"
  ew_hold :: bool
  ew_manifest :: "bool res"

type_synonym attempt = "string \<times> string"

record event_store =
  es_configured :: bool
  es_generation :: "writer_generation option"
  es_enforce :: bool
  es_tails :: "attempt tails"

definition new_store :: event_store where
  "new_store = \<lparr> es_configured = False, es_generation = None, es_enforce = False, es_tails = [] \<rparr>"

definition attempt_key :: "pyval \<Rightarrow> attempt option res" where
  "attempt_key record =
    (case record of
       PDict d \<Rightarrow>
        (if dget d ''event_type'' \<noteq> PStr ''attempt_transition'' then Inr None
         else case dget d ''payload'' of
           PDict payload \<Rightarrow>
            (case (dget payload ''task_id'', dget payload ''attempt_id'') of
               (PStr task_id, PStr attempt_id) \<Rightarrow>
                (if task_id = [] \<or> attempt_id = [] then Inl (ValueError, ''attempt transition identity is required'')
                 else case dget payload ''sequence'' of
                   PInt n \<Rightarrow> (if n < 1 then Inl (ValueError, ''attempt transition sequence must be a positive integer'')
                             else Inr (Some (task_id, attempt_id)))
                 | _ \<Rightarrow> Inl (ValueError, ''attempt transition sequence must be a positive integer''))
             | _ \<Rightarrow> Inl (ValueError, ''attempt transition identity is required''))
         | _ \<Rightarrow> Inl (ValueError, ''invalid attempt transition payload''))
     | _ \<Rightarrow> Inl (AttributeError, ''object has no attribute get''))"

definition record_digest :: "(string \<Rightarrow> string) \<Rightarrow> dict \<Rightarrow> string res" where
  "record_digest H d = bindr (event_text (ddel ''_attempt_record_digest'' d)) (\<lambda>s. Inr (H s))"

definition payload_sequence :: "dict \<Rightarrow> pyval" where
  "payload_sequence d = vget (dget d ''payload'') ''sequence''"

definition bind_attempt_record :: "(string \<Rightarrow> string) \<Rightarrow> attempt tails \<Rightarrow> dict \<Rightarrow> (dict \<times> attempt tails) res" where
  "bind_attempt_record H tails d =
     bindr (attempt_key (PDict d)) (\<lambda>found.
     case found of
       None \<Rightarrow> Inr (d, tails)
     | Some key \<Rightarrow>
         let expected = fst (tail_at tails key) + 1; parent = snd (tail_at tails key) in
         bindr (raise_if (payload_sequence d \<noteq> PInt expected) ValueError ''attempt transition sequence must be contiguous'') (\<lambda>_.
         let d1 = dset ''_attempt_parent_digest'' (PStr parent) d in
         bindr (record_digest H d1) (\<lambda>h.
         Inr (dset ''_attempt_record_digest'' (PStr h) d1, (key, expected, h) # tails))))"

fun scan_tails :: "(string \<Rightarrow> string) \<Rightarrow> attempt tails \<Rightarrow> log_line list \<Rightarrow> attempt tails res" where
  "scan_tails H tails [] = Inr tails"
| "scan_tails H tails (Blank # ls) = scan_tails H tails ls"
| "scan_tails H tails (Garbled # ls) = Inl (JSONDecodeError, ''Expecting value'')"
| "scan_tails H tails (Line v # ls) =
     bindr (attempt_key v) (\<lambda>found.
     case found of
       None \<Rightarrow> scan_tails H tails ls
     | Some key \<Rightarrow>
         let d = dict_of v; sequence = fst (tail_at tails key); parent = snd (tail_at tails key) in
         bindr (raise_if (payload_sequence d \<noteq> PInt (sequence + 1)) ValueError ''broken attempt transition sequence'') (\<lambda>_.
         bindr (raise_if (\<not> is_str (dget d ''_attempt_parent_digest'')) ValueError
                  ''legacy attempt transition missing parent digest'') (\<lambda>_.
         bindr (raise_if (dget d ''_attempt_parent_digest'' \<noteq> PStr parent) ValueError
                  ''tampered attempt transition parent'') (\<lambda>_.
         bindr (raise_if (\<not> is_str (dget d ''_attempt_record_digest'')) ValueError
                  ''legacy attempt transition missing record digest'') (\<lambda>_.
         bindr (record_digest H d) (\<lambda>h.
         bindr (raise_if (dget d ''_attempt_record_digest'' \<noteq> PStr h) ValueError
                  ''tampered attempt transition record'') (\<lambda>_.
         scan_tails H ((key, sequence + 1, h) # tails) ls)))))))"

definition scan_attempt_tails :: "(string \<Rightarrow> string) \<Rightarrow> event_world \<Rightarrow> attempt tails res" where
  "scan_attempt_tails H w = (case ew_log w of None \<Rightarrow> Inr [] | Some ls \<Rightarrow> scan_tails H [] ls)"

text \<open>
  Configuring a store: an error leaves it as it was.
\<close>

definition configure_checks ::
  "(string \<Rightarrow> string) \<Rightarrow> writer_generation option \<Rightarrow> bool \<Rightarrow> event_world \<Rightarrow> event_store res" where
  "configure_checks H generation enforce w =
     bindr (raise_if (ew_hold w) GenerationError ''EVENT_WRITER_ROOT_HELD'') (\<lambda>_.
     bindr (read_generation H (ew_files w)) (\<lambda>installed.
     bindr (raise_if (installed \<noteq> None \<and> generation = None) GenerationError ''GENERATION_REQUIRED'') (\<lambda>_.
     bindr (raise_if (enforce \<and> generation = None) GenerationError ''GENERATION_REQUIRED'') (\<lambda>_.
     bindr (raise_if (generation \<noteq> None \<and> installed \<noteq> generation) GenerationError ''GENERATION_TOKEN_MISMATCH'') (\<lambda>_.
     bindr (scan_attempt_tails H w) (\<lambda>tails.
     Inr \<lparr> es_configured = True, es_generation = generation, es_enforce = enforce \<or> installed \<noteq> None, es_tails = tails \<rparr>))))))"

definition configure_store ::
  "(string \<Rightarrow> string) \<Rightarrow> writer_generation option \<Rightarrow> bool \<Rightarrow> event_store \<Rightarrow> event_world \<Rightarrow> unit res \<times> event_store" where
  "configure_store H generation enforce es w =
    (case configure_checks H generation enforce w of Inl e \<Rightarrow> (Inl e, es) | Inr es' \<Rightarrow> (Inr (), es'))"

section \<open>Appending\<close>

text \<open>The checks before the lock is taken.\<close>

definition append_preflight :: "(string \<Rightarrow> string) \<Rightarrow> event_store \<Rightarrow> event_world \<Rightarrow> unit res" where
  "append_preflight H es w =
     bindr (read_generation H (ew_files w)) (\<lambda>installed.
     bindr (raise_if (installed \<noteq> es_generation es) GenerationError ''GENERATION_REQUIRED'') (\<lambda>_.
     if ew_hold w then Inl (GenerationError, ''EVENT_WRITER_CONTEXT_REQUIRED'')
     else bindr (ew_manifest w) (\<lambda>owned. raise_if owned GenerationError ''EVENT_WRITER_CONTEXT_REQUIRED'')))"

text \<open>Under the lock: the generation is read again, and the record is stamped with it.\<close>

definition check_generation_locked :: "(string \<Rightarrow> string) \<Rightarrow> event_store \<Rightarrow> event_world \<Rightarrow> dict \<Rightarrow> dict res" where
  "check_generation_locked H es w d =
     bindr (read_generation H (ew_files w)) (\<lambda>installed.
     case installed of
       None \<Rightarrow> bindr (raise_if (es_generation es \<noteq> None \<or> es_enforce es) GenerationError ''GENERATION_REQUIRED'') (\<lambda>_. Inr d)
     | Some g \<Rightarrow>
         bindr (raise_if (es_generation es \<noteq> Some g) GenerationError ''GENERATION_REQUIRED'') (\<lambda>_.
         let existing_generation = dget d ''_writer_generation''; existing_writer = dget d ''_writer_id'' in
         bindr (raise_if (\<not> is_none existing_generation \<and> \<not> py_eq existing_generation (PInt (wg_generation g))) GenerationError
                  ''GENERATION_RECORD_MISMATCH'') (\<lambda>_.
         bindr (raise_if (\<not> is_none existing_writer \<and> \<not> py_eq existing_writer (PStr (wg_writer_id g))) GenerationError
                  ''GENERATION_RECORD_MISMATCH'') (\<lambda>_.
         Inr (dset ''_writer_id'' (PStr (wg_writer_id g)) (dset ''_writer_generation'' (PInt (wg_generation g)) d))))))"

definition log_lines :: "event_world \<Rightarrow> log_line list" where
  "log_lines w = (case ew_log w of None \<Rightarrow> [] | Some ls \<Rightarrow> ls)"

definition written_event :: "dict \<Rightarrow> log_line" where
  "written_event d = Line (json_read (stringified (PDict d)))"

text \<open>
  The locked section. The dictionary of the caller is stamped and sealed in place, so it is returned too;
  \<open>io\<close> is an exception of the file system when the line is written, before anything is.
\<close>

definition append_locked ::
  "(string \<Rightarrow> string) \<Rightarrow> exn option \<Rightarrow> event_store \<Rightarrow> event_world \<Rightarrow> dict \<Rightarrow> unit res \<times> dict \<times> event_store \<times> event_world" where
  "append_locked H io es w d =
    (case check_generation_locked H es w d of
       Inl e \<Rightarrow> (Inl e, d, es, w)
     | Inr d1 \<Rightarrow>
        (case scan_attempt_tails H w of
           Inl e \<Rightarrow> (Inl e, d1, es, w)
         | Inr tails \<Rightarrow>
             let es1 = es\<lparr> es_tails := tails \<rparr> in
             (case bind_attempt_record H tails d1 of
                Inl e \<Rightarrow> (Inl e, d1, es1, w)
              | Inr (d2, tails2) \<Rightarrow>
                 (case io of
                    Some e \<Rightarrow> (Inl e, d2, es1, w)
                  | None \<Rightarrow> (Inr (), d2, es\<lparr> es_tails := tails2 \<rparr>,
                             w\<lparr> ew_log := Some (log_lines w @ [written_event d2]) \<rparr>)))))"

definition append_record ::
  "(string \<Rightarrow> string) \<Rightarrow> exn option \<Rightarrow> event_store \<Rightarrow> event_world \<Rightarrow> dict \<Rightarrow> unit res \<times> dict \<times> event_store \<times> event_world" where
  "append_record H io es w d =
    (if \<not> es_configured es then (Inr (), d, es, w)
     else case append_preflight H es w of
       Inl e \<Rightarrow> (Inl e, d, es, w)
     | Inr _ \<Rightarrow> append_locked H io es w d)"

section \<open>Reading\<close>

definition attempt_tail :: "(string \<Rightarrow> string) \<Rightarrow> event_store \<Rightarrow> event_world \<Rightarrow> attempt \<Rightarrow> int res \<times> event_store" where
  "attempt_tail H es w key =
    (case (if es_configured es then scan_attempt_tails H w else Inr []) of
       Inl e \<Rightarrow> (Inl e, es)
     | Inr tails \<Rightarrow> (Inr (fst (tail_at tails key)), es\<lparr> es_tails := tails \<rparr>))"

fun line_value :: "log_line \<Rightarrow> pyval option" where
  "line_value (Line v) = Some v"
| "line_value _ = None"

text \<open>\<open>text.strip().split()\<close> on line ends: the blank lines at both ends go, those between lines stay.\<close>

definition stripped_lines :: "log_line list \<Rightarrow> log_line list" where
  "stripped_lines ls = rev (dropWhile (\<lambda>l. l = Blank) (rev (dropWhile (\<lambda>l. l = Blank) ls)))"

definition recent_events ::
  "(string \<Rightarrow> string) \<Rightarrow> event_store \<Rightarrow> event_world \<Rightarrow> string \<Rightarrow> int \<Rightarrow> pyval list res \<times> event_store" where
  "recent_events H es w event_type limit =
    (if \<not> es_configured es \<or> ew_log w = None then (Inr [], es)
     else case scan_attempt_tails H w of
       Inl e \<Rightarrow> (Inl e, es)
     | Inr tails \<Rightarrow>
         (Inr (filter (\<lambda>v. event_type = [] \<or> vget v ''event_type'' = PStr event_type)
            (List.map_filter line_value (last_items limit (stripped_lines (log_lines w))))), es\<lparr> es_tails := tails \<rparr>))"

section \<open>Lemmas\<close>

subsection \<open>Records read back\<close>

lemma stringified_ok: "json_ok v \<Longrightarrow> stringified v = v"
proof (induction v rule: stringified.induct)
  case (3 d)
  have "(fst p, stringified (snd p)) = p" if "p \<in> set d" for p
    using 3 that by (cases p) auto
  then have "map (\<lambda>p. (fst p, stringified (snd p))) d = d" by (intro map_idI) auto
  then show ?case by simp
qed (auto intro: map_idI)

lemma json_ok_read: "json_ok (json_read v) = json_ok v"
  by (induction v rule: json_read.induct) auto

lemma float_texts_read: "float_texts (json_read v) = float_texts v"
  by (induction v rule: json_read.induct) auto

lemma json_dumps_read: "json_dumps a n (json_read v) = json_dumps a n v"
proof (induction v rule: json_read.induct)
  case (1 xs)
  then have "map_res (\<lambda>x. json_dumps a n (json_read x)) xs = map_res (json_dumps a n) xs" by (intro map_res_cong) simp_all
  then show ?case by (simp add: map_res_map)
next
  case (2 xs)
  then have "map_res (\<lambda>x. json_dumps a n (json_read x)) xs = map_res (json_dumps a n) xs" by (intro map_res_cong) simp_all
  then show ?case by (simp add: map_res_map)
next
  case (3 d)
  let ?e = "\<lambda>v p. bindr (json_dumps a n v) (\<lambda>s. Inr (json_str a (fst p) @ '':'' @ s))"
  from 3 have "map_res (\<lambda>p. ?e (json_read (snd p)) p) (sort_key fst d) = map_res (\<lambda>p. ?e (snd p) p) (sort_key fst d)"
    by (intro map_res_cong) simp_all
  then show ?case by (simp add: sort_key_fst_map_snd map_res_map)
qed auto

definition reloaded :: "dict \<Rightarrow> dict" where
  "reloaded d = map (\<lambda>p. (fst p, json_read (snd p))) d"

lemma json_read_PDict: "json_read (PDict d) = PDict (reloaded d)"
  by (simp add: reloaded_def)

lemma dget_reloaded: "dget (reloaded d) k = json_read (dget d k)"
proof -
  have "map_of (reloaded d) k = map_option json_read (map_of d k)" by (induction d) (auto simp: reloaded_def)
  then show ?thesis by (simp add: dget_def split: option.split)
qed

lemma ddel_reloaded: "ddel k (reloaded d) = reloaded (ddel k d)"
  by (simp add: ddel_def reloaded_def filter_map comp_def)

lemma json_ok_ddel: "json_ok (PDict d) \<Longrightarrow> json_ok (PDict (ddel k d))"
  by (auto simp: ddel_def)

lemma event_text_reloaded: "json_ok (PDict d) \<Longrightarrow> event_text (reloaded d) = event_text d"
  using json_dumps_read [of False True "PDict d"] json_ok_read [of "PDict d"]
  by (simp add: event_text_def stringified_ok json_read_PDict del: json_read.simps(3) stringified.simps(3))

lemma record_digest_reloaded: "json_ok (PDict d) \<Longrightarrow> record_digest H (reloaded d) = record_digest H d"
  using json_ok_ddel by (simp add: record_digest_def ddel_reloaded event_text_reloaded del: json_ok.simps)

lemma json_read_eq_scalar [simp]:
  "json_read v = PStr s \<longleftrightarrow> v = PStr s" "json_read v = PInt i \<longleftrightarrow> v = PInt i" "json_read v = PNone \<longleftrightarrow> v = PNone"
  by (cases v; auto)+

lemma attempt_key_cases:
  "attempt_key (PDict d) = Inr (Some key) \<longleftrightarrow> dget d ''event_type'' = PStr ''attempt_transition'' \<and>
     (\<exists>payload n. dget d ''payload'' = PDict payload \<and> dget payload ''task_id'' = PStr (fst key) \<and>
        dget payload ''attempt_id'' = PStr (snd key) \<and> fst key \<noteq> [] \<and> snd key \<noteq> [] \<and>
        dget payload ''sequence'' = PInt n \<and> 1 \<le> n)"
  by (cases key) (auto simp: attempt_key_def split: pyval.splits if_splits)

lemma attempt_key_None: "attempt_key (PDict d) = Inr None \<longleftrightarrow> dget d ''event_type'' \<noteq> PStr ''attempt_transition''"
  by (auto simp: attempt_key_def split: pyval.splits if_splits)

lemma attempt_key_dict: "attempt_key v = Inr found \<Longrightarrow> v = PDict (dict_of v)"
  by (auto simp: attempt_key_def split: pyval.splits)

lemma attempt_key_reloaded: "attempt_key (PDict d) = Inr found \<Longrightarrow> attempt_key (PDict (reloaded d)) = Inr found"
proof (cases found)
  case None
  then show "attempt_key (PDict d) = Inr found \<Longrightarrow> attempt_key (PDict (reloaded d)) = Inr found"
    by (simp add: attempt_key_None dget_reloaded)
next
  case (Some key)
  then show "attempt_key (PDict d) = Inr found \<Longrightarrow> attempt_key (PDict (reloaded d)) = Inr found"
    by (auto simp: attempt_key_cases dget_reloaded json_read_PDict simp del: json_read.simps(3))
qed

lemma payload_sequence_reloaded: "payload_sequence d = PInt n \<Longrightarrow> payload_sequence (reloaded d) = PInt n"
  by (cases "dget d ''payload''") (auto simp: dget_def [of "[]"] payload_sequence_def vget_def dget_reloaded json_read_PDict simp del: json_read.simps(3))

subsection \<open>The chain of an attempt\<close>

definition ev_key :: "dict \<Rightarrow> attempt option" where
  "ev_key d = (case attempt_key (PDict d) of Inr found \<Rightarrow> found | Inl _ \<Rightarrow> None)"

definition ev_position :: "dict \<Rightarrow> int" where
  "ev_position d = int_of (payload_sequence d)"

definition ev_parent :: "dict \<Rightarrow> string" where
  "ev_parent d = text_of (dget d ''_attempt_parent_digest'')"

definition ev_seal :: "dict \<Rightarrow> string" where
  "ev_seal d = text_of (dget d ''_attempt_record_digest'')"

definition ev_body :: "dict \<Rightarrow> string" where
  "ev_body d = (case event_text (ddel ''_attempt_record_digest'' d) of Inr s \<Rightarrow> s | Inl _ \<Rightarrow> [])"

text \<open>What reading JSON gives, and the shape of a sealed transition.\<close>

definition json_value :: "pyval \<Rightarrow> bool" where
  "json_value v \<longleftrightarrow> json_ok v \<and> float_texts v"

definition ev_proper :: "dict \<Rightarrow> bool" where
  "ev_proper d \<longleftrightarrow> json_value (PDict d) \<and> (\<exists>key. attempt_key (PDict d) = Inr (Some key)) \<and>
     is_str (dget d ''_attempt_parent_digest'') \<and> is_str (dget d ''_attempt_record_digest'')"

lemma event_text_total: "json_ok (PDict d) \<Longrightarrow> \<exists>s. event_text d = Inr s"
  using json_dumps_succeeds [of "PDict d" True False] by (simp add: event_text_def stringified_ok del: stringified.simps json_ok.simps json_dumps.simps)

lemma ev_body_text: "json_ok (PDict d) \<Longrightarrow> event_text (ddel ''_attempt_record_digest'' d) = Inr (ev_body d)"
  using event_text_total [OF json_ok_ddel, of d "''_attempt_record_digest''"] by (auto simp: ev_body_def simp del: json_ok.simps)

lemma record_digest_body: "json_ok (PDict d) \<Longrightarrow> record_digest H d = Inr (H (ev_body d))"
  by (simp add: record_digest_def ev_body_text del: json_ok.simps)

lemma ev_body_fields:
  assumes "json_value (PDict d)" and "json_value (PDict d')" and "ev_body d = ev_body d'" and "k \<noteq> ''_attempt_record_digest''"
  shows "json_shape (dget d k) = json_shape (dget d' k)"
proof -
  let ?r = "ddel ''_attempt_record_digest''"
  have plain: "float_texts (PDict (?r d))" "float_texts (PDict (?r d'))" "json_ok (PDict (?r d))" "json_ok (PDict (?r d'))"
    using assms(1,2) by (auto simp: ddel_def json_value_def)
  from ev_body_text [of d] ev_body_text [of d'] assms(1-3)
  have "json_dumps False True (PDict (?r d)) = Inr (ev_body d)" "json_dumps False True (PDict (?r d')) = Inr (ev_body d)"
    by (simp_all add: json_value_def event_text_def stringified_ok [OF plain(3)] stringified_ok [OF plain(4)]
        del: json_ok.simps stringified.simps)
  from json_shape_fields [OF json_dumps_determines_shape [OF this plain(1,2)], of k] assms(4) show ?thesis
    by (auto simp: dget_def split: option.splits)
qed

interpretation ev_chain: sealed_records H ev_key ev_position ev_parent ev_seal ev_body ev_proper for H
proof
  fix d d'
  assume p: "ev_proper d" "ev_proper d'" and b: "ev_body d = ev_body d'"
  then have v: "json_value (PDict d)" "json_value (PDict d')" by (simp_all add: ev_proper_def)
  from p obtain x x' n n' h h' where x: "dget d ''payload'' = PDict x" "dget d' ''payload'' = PDict x'"
    "dget x ''sequence'' = PInt n" "dget x' ''sequence'' = PInt n'"
    "dget d ''_attempt_parent_digest'' = PStr h" "dget d' ''_attempt_parent_digest'' = PStr h'"
    by (fastforce simp: ev_proper_def attempt_key_cases elim!: is_str.elims)
  have "json_shape (PDict x) = json_shape (PDict x')" using ev_body_fields [OF v b, of "''payload''"] x by simp
  from json_shape_fields [OF this, of "''sequence''"] x(3,4) have "n = n'" by (auto simp: dget_def split: option.splits)
  moreover have "h = h'" using ev_body_fields [OF v b, of "''_attempt_parent_digest''"] x by simp
  ultimately show "ev_position d = ev_position d' \<and> ev_parent d = ev_parent d'"
    using x by (simp add: ev_position_def ev_parent_def payload_sequence_def vget_def)
qed

text \<open>The records of a readable log.\<close>

fun log_records :: "log_line list \<Rightarrow> dict list option" where
  "log_records [] = Some []"
| "log_records (Blank # ls) = log_records ls"
| "log_records (Garbled # ls) = None"
| "log_records (Line v # ls) = (case attempt_key v of
     Inl _ \<Rightarrow> None | Inr _ \<Rightarrow> map_option (\<lambda>ds. dict_of v # ds) (log_records ls))"

definition json_lines :: "log_line list \<Rightarrow> bool" where
  "json_lines ls \<longleftrightarrow> (\<forall>v. Line v \<in> set ls \<longrightarrow> json_value v)"

lemma json_lines_simps [simp]:
  "json_lines []" "json_lines (Blank # ls) = json_lines ls" "json_lines (Garbled # ls) = json_lines ls"
  "json_lines (Line v # ls) = (json_value v \<and> json_lines ls)" "json_lines (ls @ ls') = (json_lines ls \<and> json_lines ls')"
  by (auto simp: json_lines_def)

lemma log_records_append:
  "log_records (ls @ ls') = (case log_records ls of None \<Rightarrow> None | Some ds \<Rightarrow> map_option (\<lambda>ds'. ds @ ds') (log_records ls'))"
proof (induction ls rule: log_records.induct)
  case (4 v ls)
  then show ?case by (cases "log_records ls'") (auto split: option.splits sum.splits)
next
  case 1
  show ?case by (cases "log_records ls'") simp_all
qed (auto split: option.splits)

lemma ev_link_iff:
  assumes "json_value (PDict d)" and "attempt_key (PDict d) = Inr (Some key)" and "tail_at tails key = ev_chain.tail key rs"
  shows "ev_chain.link H rs d \<longleftrightarrow> payload_sequence d = PInt (fst (tail_at tails key) + 1) \<and>
    dget d ''_attempt_parent_digest'' = PStr (snd (tail_at tails key)) \<and>
    is_str (dget d ''_attempt_record_digest'') \<and> dget d ''_attempt_record_digest'' = PStr (H (ev_body d))"
proof -
  have key: "ev_key d = Some key" by (simp add: ev_key_def assms(2))
  from assms(2) obtain n where n: "payload_sequence d = PInt n" by (auto simp: attempt_key_cases payload_sequence_def vget_def)
  have "is_str v \<longleftrightarrow> (\<exists>s. v = PStr s)" for v by (cases v) auto
  with assms n show ?thesis
    by (auto simp: ev_chain.link_def key ev_position_def ev_parent_def ev_seal_def ev_proper_def)
qed

lemma ev_link_other: "attempt_key (PDict d) = Inr None \<Longrightarrow> ev_chain.link H rs d"
  by (simp add: ev_chain.link_def ev_key_def)

lemma ev_chained_Cons_snoc: "ev_chain.chained H (rs @ d # ds) \<Longrightarrow> ev_chain.link H rs d"
  using ev_chain.chained_prefix [of H "rs @ [d]" ds] by (simp add: ev_chain.chained_snoc)

lemma ev_key_eq: "attempt_key (PDict d) = Inr found \<Longrightarrow> ev_key d = found"
  by (simp add: ev_key_def)

text \<open>One line: a linked record extends the tails, any other stops the scan.\<close>

lemma scan_line_linked:
  assumes "\<And>k. tail_at tails k = ev_chain.tail k rs" and "json_value (PDict d)" and "attempt_key (PDict d) = Inr found"
    and "ev_chain.link H rs d"
  shows "\<exists>tails1. scan_tails H tails (Line (PDict d) # ls) = scan_tails H tails1 ls \<and> (\<forall>k. tail_at tails1 k = ev_chain.tail k (rs @ [d]))"
proof (cases found)
  case None
  with assms show ?thesis by (intro exI [of _ tails]) (simp add: ev_chain.tail_snoc ev_key_eq)
next
  case (Some key)
  let ?tails = "(key, fst (tail_at tails key) + 1, H (ev_body d)) # tails"
  have dig: "record_digest H d = Inr (H (ev_body d))" using assms(2) by (intro record_digest_body) (simp add: json_value_def)
  note link = assms(4) [unfolded ev_link_iff [OF assms(2) assms(3) [unfolded Some] assms(1)]]
  have "scan_tails H tails (Line (PDict d) # ls) = scan_tails H ?tails ls"
    using link assms(3) Some by (simp add: Let_def dig raise_if_def)
  moreover have "ev_seal d = H (ev_body d)" using link by (simp add: ev_seal_def)
  then have "tail_at ?tails k = ev_chain.tail k (rs @ [d])" for k
    using assms(1) ev_key_eq [OF assms(3)] Some by (simp add: ev_chain.tail_snoc)
  ultimately show ?thesis by blast
qed

lemma scan_line_unlinked:
  assumes "\<And>k. tail_at tails k = ev_chain.tail k rs" and "json_value (PDict d)" and "attempt_key (PDict d) = Inr found"
    and "\<not> ev_chain.link H rs d"
  shows "\<exists>e. scan_tails H tails (Line (PDict d) # ls) = Inl e"
proof (cases found)
  case None
  with assms show ?thesis by (simp add: ev_link_other)
next
  case (Some key)
  have dig: "record_digest H d = Inr (H (ev_body d))" using assms(2) by (intro record_digest_body) (simp add: json_value_def)
  note link = assms(4) [unfolded ev_link_iff [OF assms(2) assms(3) [unfolded Some] assms(1)]]
  then show ?thesis using assms(3) Some by (auto simp: Let_def dig raise_if_def)
qed

text \<open>A scan succeeds exactly on chained records, and then gives the tails of the chains.\<close>

lemma scan_tails_iff:
  assumes "\<And>k. tail_at tails k = ev_chain.tail k rs" and "ev_chain.chained H rs" and "json_lines ls"
  shows "(\<exists>ds tails'. log_records ls = Some ds \<and> ev_chain.chained H (rs @ ds) \<and> scan_tails H tails ls = Inr tails' \<and>
      (\<forall>k. tail_at tails' k = ev_chain.tail k (rs @ ds))) \<or>
    (\<exists>e. scan_tails H tails ls = Inl e) \<and> (\<forall>ds. log_records ls = Some ds \<longrightarrow> \<not> ev_chain.chained H (rs @ ds))"
  using assms
proof (induction ls arbitrary: tails rs)
  case (Cons l ls)
  show ?case
  proof (cases l)
    case (Line v)
    show ?thesis
    proof (cases "attempt_key v")
      case (Inr found)
      then obtain d where d: "v = PDict d" "attempt_key (PDict d) = Inr found" by (metis attempt_key_dict)
      with Cons.prems Line have v: "json_value (PDict d)" by simp
      show ?thesis
      proof (cases "ev_chain.link H rs d")
        case True
        from scan_line_linked [OF Cons.prems(1) v d(2) True] obtain tails1 where
          step: "scan_tails H tails (Line (PDict d) # ls) = scan_tails H tails1 ls"
          and tl: "\<And>k. tail_at tails1 k = ev_chain.tail k (rs @ [d])" by blast
        have "ev_chain.chained H (rs @ [d])" using True Cons.prems(2) by (simp add: ev_chain.chained_snoc)
        from Cons.IH [OF tl this] Cons.prems(3) show ?thesis unfolding Line d(1) step by (auto simp: d(2))
      next
        case False
        with scan_line_unlinked [OF Cons.prems(1) v d(2) False, of ls] ev_chained_Cons_snoc show ?thesis
          unfolding Line d(1) by (auto simp: d(2))
      qed
    qed (simp add: Line)
  qed (use Cons in auto)
qed auto

subsection \<open>Appending\<close>

lemma attempt_key_cong:
  "dget d' ''event_type'' = dget d ''event_type'' \<Longrightarrow> dget d' ''payload'' = dget d ''payload'' \<Longrightarrow>
     attempt_key (PDict d') = attempt_key (PDict d)"
  by (simp add: attempt_key_def)

lemma json_value_dset: "json_value (PDict d) \<Longrightarrow> json_value v \<Longrightarrow> json_value (PDict (dset k v d))"
  using set_dset [of k v d] by (fastforce simp: json_value_def)

lemma json_value_scalars [simp]: "json_value (PStr s)" "json_value (PInt i)"
  by (simp_all add: json_value_def)

lemma json_value_reloaded: "json_value (PDict (reloaded d)) = json_value (PDict d)"
  by (simp add: json_value_def json_ok_read float_texts_read flip: json_read_PDict del: json_ok.simps float_texts.simps json_read.simps(3))

lemma ev_body_reloaded: "json_ok (PDict d) \<Longrightarrow> ev_body (reloaded d) = ev_body d"
  by (simp add: ev_body_def ddel_reloaded event_text_reloaded json_ok_ddel del: json_ok.simps)

definition sealed_fields :: "string set" where
  "sealed_fields = {''_attempt_parent_digest'', ''_attempt_record_digest''}"

lemma bind_attempt_record_facts:
  assumes "bind_attempt_record H tails d = Inr (d', tails')" and "json_value (PDict d)"
    and "\<And>k. tail_at tails k = ev_chain.tail k rs"
  shows "json_value (PDict d')" and "attempt_key (PDict d') = attempt_key (PDict d)" and "\<exists>found. attempt_key (PDict d) = Inr found"
    and "ev_chain.link H rs (reloaded d')" and "k \<notin> sealed_fields \<Longrightarrow> dget d' k = dget d k"
    and "tail_at tails' key = ev_chain.tail key (rs @ [reloaded d'])"
proof -
  from assms(1) obtain found where found: "attempt_key (PDict d) = Inr found" by (auto simp: bind_attempt_record_def res_simps)
  then show "\<exists>found. attempt_key (PDict d) = Inr found" by blast
  have all: "json_value (PDict d') \<and> attempt_key (PDict d') = attempt_key (PDict d) \<and> ev_chain.link H rs (reloaded d') \<and>
      (k \<notin> sealed_fields \<longrightarrow> dget d' k = dget d k) \<and> tail_at tails' key = ev_chain.tail key (rs @ [reloaded d'])" for k key
  proof (cases found)
    case None
    with assms found have d': "d' = d" "tails' = tails" by (auto simp: bind_attempt_record_def)
    have key: "attempt_key (PDict (reloaded d)) = Inr None" by (rule attempt_key_reloaded) (simp add: found None)
    from assms(2,3) d' ev_link_other [OF key] ev_key_eq [OF key] show ?thesis by (simp add: ev_chain.tail_snoc)
  next
    case (Some a)
    let ?n = "fst (tail_at tails a) + 1" and ?p = "snd (tail_at tails a)"
    let ?d1 = "dset ''_attempt_parent_digest'' (PStr ?p) d" let ?h = "H (ev_body ?d1)"
    have v1: "json_value (PDict ?d1)" using assms(2) by (intro json_value_dset) simp_all
    then have "record_digest H ?d1 = Inr ?h" by (intro record_digest_body) (simp add: json_value_def)
    with assms(1) found Some have n: "payload_sequence d = PInt ?n"
      and d': "d' = dset ''_attempt_record_digest'' (PStr ?h) ?d1" "tails' = (a, ?n, ?h) # tails"
      by (auto simp: bind_attempt_record_def Let_def res_simps)
    have v': "json_value (PDict d')" unfolding d' by (rule json_value_dset [OF v1]) simp
    have key: "attempt_key (PDict d') = Inr (Some a)" using found Some attempt_key_cong [of d' d] by (simp add: d')
    note rkey = attempt_key_reloaded [OF key]
    have "payload_sequence d' = PInt ?n" using n by (simp add: payload_sequence_def d')
    then have seq: "payload_sequence (reloaded d') = PInt ?n" by (rule payload_sequence_reloaded)
    have "ev_body d' = ev_body ?d1" by (simp add: ev_body_def d')
    then have body: "ev_body (reloaded d') = ev_body ?d1" using v' by (simp add: ev_body_reloaded json_value_def del: json_ok.simps)
    have fields: "dget (reloaded d') ''_attempt_parent_digest'' = PStr ?p" "dget (reloaded d') ''_attempt_record_digest'' = PStr ?h"
      by (simp_all add: dget_reloaded d')
    have "ev_chain.link H rs (reloaded d')"
      using ev_link_iff [OF _ rkey assms(3), of H] v' seq fields body by (simp add: json_value_reloaded)
    moreover have "tail_at tails' key = ev_chain.tail key (rs @ [reloaded d'])"
      using assms(3) ev_key_eq [OF rkey] fields(2) by (simp add: d'(2) ev_chain.tail_snoc ev_seal_def)
    ultimately show ?thesis using v' key found Some by (auto simp: d' sealed_fields_def)
  qed
  from all show "json_value (PDict d')" "attempt_key (PDict d') = attempt_key (PDict d)" "ev_chain.link H rs (reloaded d')"
    "k \<notin> sealed_fields \<Longrightarrow> dget d' k = dget d k" "tail_at tails' key = ev_chain.tail key (rs @ [reloaded d'])" by blast+
qed

text \<open>A world whose log can be read, with its records.\<close>

definition readable_log :: "(string \<Rightarrow> string) \<Rightarrow> event_world \<Rightarrow> dict list \<Rightarrow> bool" where
  "readable_log H w ds \<longleftrightarrow> json_lines (log_lines w) \<and> log_records (log_lines w) = Some ds \<and> ev_chain.chained H ds"

lemma log_lines_update [simp]: "log_lines (w\<lparr> ew_log := Some ls \<rparr>) = ls"
  by (simp add: log_lines_def)

lemma scan_log_lines: "scan_attempt_tails H w = scan_tails H [] (log_lines w)"
  by (simp add: scan_attempt_tails_def log_lines_def split: option.split)

lemma readable_scan:
  assumes "readable_log H w ds"
  obtains tails where "scan_attempt_tails H w = Inr tails" and "\<And>k. tail_at tails k = ev_chain.tail k ds"
  using scan_tails_iff [of "[]" "[]" H "log_lines w"] assms by (auto simp: scan_log_lines readable_log_def)

lemma scan_readable:
  assumes "scan_attempt_tails H w = Inr tails" and "json_lines (log_lines w)"
  obtains ds where "readable_log H w ds" and "\<And>k. tail_at tails k = ev_chain.tail k ds"
  using scan_tails_iff [of "[]" "[]" H "log_lines w"] assms by (auto simp: scan_log_lines readable_log_def)

lemma written_event_ok: "json_value (PDict d) \<Longrightarrow> written_event d = Line (PDict (reloaded d))"
  by (simp add: written_event_def stringified_ok json_value_def json_read_PDict del: stringified.simps json_ok.simps json_read.simps(3))

lemma check_generation_value:
  "check_generation_locked H es w d = Inr d' \<Longrightarrow> json_value (PDict d) \<Longrightarrow> json_value (PDict d')"
  by (auto simp: check_generation_locked_def res_simps Let_def json_value_dset split: option.splits)

lemma append_locked_cases:
  assumes "append_locked H io es w d = (r, d', es', w')" and "readable_log H w ds" and "json_value (PDict d)"
  obtains (refused) e where "r = Inl e" "w' = w"
  | (appended) d1 where "r = Inr ()" "check_generation_locked H es w d = Inr d1" "readable_log H w' (ds @ [reloaded d'])"
      "w' = w\<lparr> ew_log := ew_log w' \<rparr>" "\<And>k. k \<notin> sealed_fields \<Longrightarrow> dget d' k = dget d1 k" "attempt_key (PDict d') = attempt_key (PDict d1)"
proof (cases r)
  case (Inl e)
  with assms(1) have "w' = w" by (auto simp: append_locked_def Let_def split: sum.splits option.splits prod.splits)
  with Inl show ?thesis by (rule refused)
next
  case (Inr u)
  from readable_scan [OF assms(2)] obtain tails where tails: "scan_attempt_tails H w = Inr tails"
    "\<And>k. tail_at tails k = ev_chain.tail k ds" by blast
  from assms(1) Inr tails(1) obtain d1 tails2 where d1: "check_generation_locked H es w d = Inr d1"
    "bind_attempt_record H tails d1 = Inr (d', tails2)" "w' = w\<lparr> ew_log := Some (log_lines w @ [written_event d']) \<rparr>"
    by (auto simp: append_locked_def Let_def split: sum.splits option.splits prod.splits)
  note b = bind_attempt_record_facts [OF d1(2) check_generation_value [OF d1(1) assms(3)] tails(2)]
  from b(2,3) obtain found where "attempt_key (PDict d') = Inr found" by auto
  then have "attempt_key (PDict (reloaded d')) = Inr found" by (rule attempt_key_reloaded)
  with b(1,4) assms(2) have "readable_log H w' (ds @ [reloaded d'])"
    by (simp add: readable_log_def d1(3) log_records_append written_event_ok
        json_value_reloaded ev_chain.chained_snoc)
  with Inr d1 b(2,5) show ?thesis by (intro appended) (simp_all add: d1(3))
qed

section \<open>Writers in any order\<close>

text \<open>
  What happens to the log: any store object, whatever it was configured with, performs the locked section of an
  append (its earlier checks may have seen another state); anyone installs a generation; the quiescence hold
  and the owner manifest change. The records are those a predicate admits, made of JSON values: no object that
  would be written as its text, and finite floats with the text Python prints. While no generation is
  installed a generation stamp that the caller has set itself is written unchecked.
\<close>

inductive event_step :: "(string \<Rightarrow> string) \<Rightarrow> (dict \<Rightarrow> bool) \<Rightarrow> event_world \<Rightarrow> event_world \<Rightarrow> bool" for H P where
  event_append: "append_locked H io es w d = (r, d', es', w') \<Longrightarrow> json_value (PDict d) \<Longrightarrow> P d \<Longrightarrow> event_step H P w w'"
| event_install: "install_generation H (ew_files w) g expected = (files, r) \<Longrightarrow> wg_wf g \<Longrightarrow> event_step H P w (w\<lparr> ew_files := files \<rparr>)"
| event_outside: "event_step H P w (w\<lparr> ew_hold := hold, ew_manifest := manifest \<rparr>)"

definition any_record :: "dict \<Rightarrow> bool" where
  "any_record d = True"

definition unstamped :: "dict \<Rightarrow> bool" where
  "unstamped d \<longleftrightarrow> dget d ''_writer_generation'' = PNone"

definition stamp :: "dict \<Rightarrow> int" where
  "stamp d = int_of (dget d ''_writer_generation'')"

definition installed_number :: "writer_generation option \<Rightarrow> int" where
  "installed_number installed = (case installed of None \<Rightarrow> 0 | Some g \<Rightarrow> wg_generation g)"

definition event_inv :: "(string \<Rightarrow> string) \<Rightarrow> (dict \<Rightarrow> bool) \<Rightarrow> event_world \<Rightarrow> bool" where
  "event_inv H P w \<longleftrightarrow> (\<exists>ds installed. readable_log H w ds \<and> read_generation H (ew_files w) = Inr installed \<and>
     ((\<forall>d. P d \<longrightarrow> unstamped d) \<longrightarrow> sorted (map stamp ds) \<and> (\<forall>d \<in> set ds. stamp d \<le> installed_number installed)))"

lemma check_generation_stamp:
  assumes "check_generation_locked H es w d = Inr d'" and "read_generation H (ew_files w) = Inr installed"
    and "dget d ''_writer_generation'' = PNone"
  shows "int_of (dget d' ''_writer_generation'') = installed_number installed \<and> es_generation es = installed"
  using assms by (auto simp: check_generation_locked_def res_simps Let_def installed_number_def split: option.splits)

lemma json_read_int_of: "int_of (json_read v) = int_of v"
  by (cases v) simp_all

lemma event_append_inv:
  assumes "append_locked H io es w d = (r, d', es', w')" and "json_value (PDict d)" and "P d" and "event_inv H P w"
  shows "event_inv H P w'"
proof -
  from assms(4) obtain ds installed where inv: "readable_log H w ds" "read_generation H (ew_files w) = Inr installed"
    and stamps: "\<And>d. (\<And>d. P d \<Longrightarrow> unstamped d) \<Longrightarrow> sorted (map stamp ds) \<and> (\<forall>d \<in> set ds. stamp d \<le> installed_number installed)"
    by (auto simp: event_inv_def)
  from assms(1) inv(1) assms(2) show ?thesis
  proof (cases rule: append_locked_cases)
    case refused
    with assms(4) show ?thesis by simp
  next
    case (appended d1)
    have "stamp (reloaded d') = int_of (dget d1 ''_writer_generation'')"
      by (simp add: stamp_def dget_reloaded json_read_int_of appended(5) sealed_fields_def)
    then have new: "stamp (reloaded d') = installed_number installed" if "unstamped d"
      using check_generation_stamp [OF appended(2) inv(2)] that by (simp add: unstamped_def)
    have "ew_files w' = ew_files w" by (subst appended(4)) simp
    moreover have "sorted (map stamp (ds @ [reloaded d'])) \<and> (\<forall>d \<in> set (ds @ [reloaded d']). stamp d \<le> installed_number installed)"
      if "\<And>d. P d \<Longrightarrow> unstamped d"
      using stamps [OF that] new [OF that [OF assms(3)]] by (auto simp: sorted_append)
    ultimately show ?thesis
      unfolding event_inv_def using appended(3) inv(2) by (intro exI [of _ "ds @ [reloaded d']"] exI [of _ installed]) simp
  qed
qed

lemma install_number:
  assumes "install_generation H st g expected = (st', r)" and "wg_wf g" and "read_generation H st = Inr installed"
  shows "\<exists>installed'. read_generation H st' = Inr installed' \<and> installed_number installed \<le> installed_number installed'"
proof (cases r)
  case (Inl e)
  with assms have "st' = st" by (auto simp: install_generation_def split: sum.splits)
  with assms(3) show ?thesis by blast
next
  case (Inr g')
  with assms have i: "g' = g" "install_allowed installed g expected" by (auto simp: install_eq_Inr)
  from install_advances [OF assms(1) [unfolded Inr] assms(2)] have "read_generation H st' = Inr (Some g)" by blast
  moreover have "installed_number installed \<le> wg_generation g"
    using i(2) assms(2) by (auto simp: install_allowed_def installed_number_def wg_wf_def split: option.splits)
  ultimately show ?thesis by (auto simp: installed_number_def)
qed

lemma event_step_inv: "event_step H P w w' \<Longrightarrow> event_inv H P w \<Longrightarrow> event_inv H P w'"
proof (induction rule: event_step.induct)
  case (event_append io es w d r d' es' w')
  then show ?case using event_append_inv by blast
next
  case (event_install w g expected files r)
  from event_install(3) obtain ds installed where inv: "readable_log H w ds" "read_generation H (ew_files w) = Inr installed"
    "(\<forall>d. P d \<longrightarrow> unstamped d) \<longrightarrow> sorted (map stamp ds) \<and> (\<forall>d \<in> set ds. stamp d \<le> installed_number installed)"
    by (auto simp: event_inv_def)
  from install_number [OF event_install(1,2) inv(2)] obtain installed' where
    "read_generation H files = Inr installed'" "installed_number installed \<le> installed_number installed'" by blast
  with inv show ?case by (fastforce simp: event_inv_def readable_log_def log_lines_def)
next
  case (event_outside w hold manifest)
  then show ?case by (simp add: event_inv_def readable_log_def log_lines_def)
qed

definition fresh_world :: event_world where
  "fresh_world = \<lparr> ew_files = [], ew_log = None, ew_hold = False, ew_manifest = Inr False \<rparr>"

lemma fresh_world_inv: "event_inv H P fresh_world"
  by (simp add: event_inv_def fresh_world_def readable_log_def log_lines_def read_generation_def fs_get_def)

lemma reachable_event_inv: "(event_step H P)\<^sup>*\<^sup>* fresh_world w \<Longrightarrow> event_inv H P w"
  by (induction rule: rtranclp_induct) (auto intro: fresh_world_inv event_step_inv)

text \<open>The transitions of one attempt in a log.\<close>

definition attempt_rows :: "attempt \<Rightarrow> dict list \<Rightarrow> dict list" where
  "attempt_rows key ds = filter (\<lambda>d. attempt_key (PDict d) = Inr (Some key)) ds"

lemma attempt_rows_of_key: "attempt_rows key ds = ev_chain.of_key key ds"
  unfolding attempt_rows_def ev_chain.of_key_def by (rule filter_cong) (auto simp: ev_key_def split: sum.splits)

lemma attempt_rows_linked:
  assumes "ev_chain.chained H ds" and "i < length (attempt_rows key ds)"
  shows "payload_sequence (attempt_rows key ds ! i) = PInt (int i + 1) \<and>
    dget (attempt_rows key ds ! i) ''_attempt_parent_digest'' =
      (if i = 0 then PStr genesis else dget (attempt_rows key ds ! (i - 1)) ''_attempt_record_digest'')"
proof -
  let ?rows = "ev_chain.of_key key ds"
  have i: "i < length ?rows" "i - 1 < length ?rows" using assms(2) by (simp_all add: attempt_rows_of_key)
  have fields: "payload_sequence d = PInt (ev_position d)" "dget d ''_attempt_parent_digest'' = PStr (ev_parent d)"
    "dget d ''_attempt_record_digest'' = PStr (ev_seal d)" if "ev_proper d" for d
    using that by (auto simp: ev_proper_def attempt_key_cases payload_sequence_def vget_def ev_position_def ev_parent_def ev_seal_def
        elim!: is_str.elims)
  show ?thesis
    using ev_chain.chained_of_key [OF assms(1) i(1)] ev_chain.chained_of_key [OF assms(1) i(2)] fields
    unfolding attempt_rows_of_key by (cases "i = 0") auto
qed

text \<open>
  C11 (event_log_sound). However any stores append records of JSON values, generations are installed and holds
  come and go, starting from a project without a log: the log can always be read, so that appends go on, and the
  transitions of each attempt are numbered from one, each carrying the digest of the one before it. When no
  caller sets the generation stamp of a record itself, the stamps along the log moreover never decrease and
  never exceed the installed generation, so nothing of a superseded writer follows a record of its successor;
  a stamp set by the caller is written unchecked as long as no generation is installed, and then they can
  decrease (\<open>stamped_append_unchecked\<close>).
\<close>

theorem event_log_sound:
  assumes "(event_step H P)\<^sup>*\<^sup>* fresh_world w"
  shows "\<exists>ds tails installed. log_records (log_lines w) = Some ds \<and> scan_attempt_tails H w = Inr tails \<and>
    read_generation H (ew_files w) = Inr installed \<and>
    ((\<forall>d. P d \<longrightarrow> unstamped d) \<longrightarrow> sorted (map stamp ds) \<and> (\<forall>d \<in> set ds. stamp d \<le> installed_number installed)) \<and>
    (\<forall>key. fst (tail_at tails key) = int (length (attempt_rows key ds)) \<and>
      (\<forall>i < length (attempt_rows key ds).
         payload_sequence (attempt_rows key ds ! i) = PInt (int i + 1) \<and>
         dget (attempt_rows key ds ! i) ''_attempt_parent_digest'' =
           (if i = 0 then PStr genesis else dget (attempt_rows key ds ! (i - 1)) ''_attempt_record_digest'')))"
proof -
  from reachable_event_inv [OF assms] obtain ds installed where inv: "readable_log H w ds"
    "read_generation H (ew_files w) = Inr installed"
    "(\<forall>d. P d \<longrightarrow> unstamped d) \<longrightarrow> sorted (map stamp ds) \<and> (\<forall>d \<in> set ds. stamp d \<le> installed_number installed)"
    by (auto simp: event_inv_def)
  from readable_scan [OF inv(1)] obtain tails where tails: "scan_attempt_tails H w = Inr tails"
    "\<And>k. tail_at tails k = ev_chain.tail k ds" by blast
  have "fst (tail_at tails key) = int (length (attempt_rows key ds))" for key
    by (simp add: tails(2) ev_chain.fst_tail attempt_rows_of_key)
  with inv tails(1) attempt_rows_linked show ?thesis by (auto simp: readable_log_def)
qed

section \<open>One append\<close>

lemma check_generation_current:
  assumes "read_generation H (ew_files w) = Inr (es_generation es)" and "es_generation es = None \<longrightarrow> \<not> es_enforce es"
    and "dget d ''_writer_generation'' = PNone" and "dget d ''_writer_id'' = PNone"
  obtains d1 where "check_generation_locked H es w d = Inr d1"
    and "\<And>k. k \<notin> {''_writer_generation'', ''_writer_id''} \<Longrightarrow> dget d1 k = dget d k"
  using assms by (cases "es_generation es") (auto simp: check_generation_locked_def Let_def)

text \<open>A configured store that may append: it holds the installed generation and nothing stops direct writers.\<close>

definition writer_ready :: "(string \<Rightarrow> string) \<Rightarrow> event_store \<Rightarrow> event_world \<Rightarrow> bool" where
  "writer_ready H es w \<longleftrightarrow> es_configured es \<and> read_generation H (ew_files w) = Inr (es_generation es) \<and>
     (es_generation es = None \<longrightarrow> \<not> es_enforce es) \<and> \<not> ew_hold w \<and> ew_manifest w = Inr False"

definition log_at :: "(string \<Rightarrow> string) \<Rightarrow> event_world \<Rightarrow> attempt tails \<Rightarrow> bool" where
  "log_at H w tails \<longleftrightarrow> json_lines (log_lines w) \<and> scan_attempt_tails H w = Inr tails"

definition transition_record :: "dict \<Rightarrow> attempt \<Rightarrow> int \<Rightarrow> bool" where
  "transition_record d key n \<longleftrightarrow> json_value (PDict d) \<and> attempt_key (PDict d) = Inr (Some key) \<and> payload_sequence d = PInt n \<and>
     dget d ''_writer_generation'' = PNone \<and> dget d ''_writer_id'' = PNone"

lemma writer_ready_simps [simp]:
  "writer_ready H (es\<lparr> es_tails := ts \<rparr>) w = writer_ready H es w" "writer_ready H es (w\<lparr> ew_log := ls \<rparr>) = writer_ready H es w"
  by (simp_all add: writer_ready_def)

lemma ready_append:
  assumes "writer_ready H es w" and "transition_record d key n"
  obtains d1 where "append_record H None es w d = append_locked H None es w d" and "check_generation_locked H es w d = Inr d1"
    and "attempt_key (PDict d1) = Inr (Some key)" and "payload_sequence d1 = PInt n" and "json_value (PDict d1)"
proof -
  from assms have store: "es_configured es" "read_generation H (ew_files w) = Inr (es_generation es)"
      "es_generation es = None \<longrightarrow> \<not> es_enforce es" "\<not> ew_hold w" "ew_manifest w = Inr False"
    and rec: "json_value (PDict d)" "attempt_key (PDict d) = Inr (Some key)" "payload_sequence d = PInt n"
      "dget d ''_writer_generation'' = PNone" "dget d ''_writer_id'' = PNone" by (simp_all add: writer_ready_def transition_record_def)
  from check_generation_current [OF store(2,3) rec(4,5)] obtain d1 where d1: "check_generation_locked H es w d = Inr d1"
    "\<And>k. k \<notin> {''_writer_generation'', ''_writer_id''} \<Longrightarrow> dget d1 k = dget d k" by blast
  show ?thesis
  proof (rule that [OF _ d1(1)])
    show "append_record H None es w d = append_locked H None es w d" using store by (simp add: append_record_def append_preflight_def)
    show "attempt_key (PDict d1) = Inr (Some key)" "payload_sequence d1 = PInt n"
      using rec(2,3) attempt_key_cong [of d1 d] d1(2) by (simp_all add: payload_sequence_def)
    show "json_value (PDict d1)" by (rule check_generation_value [OF d1(1) rec(1)])
  qed
qed

lemma append_transition_accepted:
  assumes "writer_ready H es w" and "log_at H w tails" and "transition_record d key n" and "n = fst (tail_at tails key) + 1"
  obtains d' es' w' tails' where "append_record H None es w d = (Inr (), d', es', w')" and "writer_ready H es' w'" and "log_at H w' tails'"
    and "\<And>k. fst (tail_at tails' k) = (if k = key then n else fst (tail_at tails k))"
    and "log_lines w' = log_lines w @ [Line (PDict (reloaded d'))]"
proof -
  from assms(2) have scan: "json_lines (log_lines w)" "scan_attempt_tails H w = Inr tails" by (simp_all add: log_at_def)
  from scan_readable [OF scan(2,1)] obtain ds where ds: "readable_log H w ds" "\<And>k. tail_at tails k = ev_chain.tail k ds" by blast
  from ready_append [OF assms(1,3)] obtain d1 where pre: "append_record H None es w d = append_locked H None es w d"
    and d1: "check_generation_locked H es w d = Inr d1" "attempt_key (PDict d1) = Inr (Some key)" "payload_sequence d1 = PInt n"
    "json_value (PDict d1)" by blast
  have "json_ok (PDict (dset ''_attempt_parent_digest'' (PStr v) d1))" for v
    using json_value_dset [OF d1(4), of "PStr v"] by (simp add: json_value_def)
  then obtain d2 tails2 where b: "bind_attempt_record H tails d1 = Inr (d2, tails2)"
    using d1 assms(4) by (simp add: bind_attempt_record_def Let_def record_digest_body del: json_ok.simps)
  note facts = bind_attempt_record_facts [OF b d1(4) ds(2)]
  let ?w = "w\<lparr> ew_log := Some (log_lines w @ [written_event d2]) \<rparr>" and ?es = "es\<lparr> es_tails := tails2 \<rparr>"
  have app: "append_locked H None es w d = (Inr (), d2, ?es, ?w)" by (simp add: append_locked_def d1(1) scan(2) b)
  have lines: "log_lines ?w = log_lines w @ [Line (PDict (reloaded d2))]" using facts(1) by (simp add: written_event_ok)
  have "json_value (PDict d)" using assms(3) by (simp add: transition_record_def)
  with app ds(1) have read: "readable_log H ?w (ds @ [reloaded d2])" by (cases rule: append_locked_cases) simp_all
  then obtain tails' where tails': "scan_attempt_tails H ?w = Inr tails'" "\<And>k. tail_at tails' k = ev_chain.tail k (ds @ [reloaded d2])"
    by (rule readable_scan) blast
  have "ev_key (reloaded d2) = Some key" by (intro ev_key_eq attempt_key_reloaded) (simp add: facts(2) d1(2))
  then have tl: "fst (tail_at tails' k) = (if k = key then n else fst (tail_at tails k))" for k
    using assms(4) by (simp add: tails'(2) ev_chain.tail_snoc ds(2))
  show ?thesis
    by (rule that [of d2 ?es ?w tails', OF _ _ _ tl lines]) (use app pre assms(1) read tails'(1) in \<open>simp_all add: log_at_def readable_log_def\<close>)
qed

lemma append_transition_refused:
  assumes "writer_ready H es w" and "log_at H w tails" and "transition_record d key n" and "n \<noteq> fst (tail_at tails key) + 1"
  obtains d' es' where "append_record H None es w d = (Inl (ValueError, ''attempt transition sequence must be contiguous''), d', es', w)"
    and "writer_ready H es' w" and "es' = es\<lparr> es_tails := tails \<rparr>"
proof -
  from ready_append [OF assms(1,3)] obtain d1 where pre: "append_record H None es w d = append_locked H None es w d"
    and d1: "check_generation_locked H es w d = Inr d1" "attempt_key (PDict d1) = Inr (Some key)" "payload_sequence d1 = PInt n" by blast
  show ?thesis
    by (rule that [of d1 "es\<lparr> es_tails := tails \<rparr>"])
      (use assms pre d1 in \<open>simp_all add: append_locked_def log_at_def bind_attempt_record_def Let_def\<close>)
qed

text \<open>
  A configured store that holds the installed generation, in a project without hold and
  owner manifest and with a readable log, appends a transition exactly when it carries the number after the
  last one of its attempt. Then the line is the last one of the log, the tail of the attempt is the new number and the
  tails of the other attempts are what they were; otherwise the append is refused and the log is untouched.
\<close>

theorem attempt_append_outcome:
  assumes "writer_ready H es w" and "log_at H w tails" and "transition_record d key n"
  shows "if n = fst (tail_at tails key) + 1
    then \<exists>d' es' w'. append_record H None es w d = (Inr (), d', es', w') \<and>
      log_lines w' = log_lines w @ [Line (PDict (reloaded d'))] \<and>
      (\<forall>k. fst (attempt_tail H es' w' k) = Inr (if k = key then n else fst (tail_at tails k)))
    else \<exists>d' es'. append_record H None es w d = (Inl (ValueError, ''attempt transition sequence must be contiguous''), d', es', w)"
proof (cases "n = fst (tail_at tails key) + 1")
  case True
  from append_transition_accepted [OF assms True] obtain d' es' w' tails' where
    app: "append_record H None es w d = (Inr (), d', es', w')" "writer_ready H es' w'" "log_at H w' tails'"
    "\<And>k. fst (tail_at tails' k) = (if k = key then n else fst (tail_at tails k))"
    "log_lines w' = log_lines w @ [Line (PDict (reloaded d'))]" by blast
  then have "fst (attempt_tail H es' w' k) = Inr (if k = key then n else fst (tail_at tails k))" for k
    by (simp add: attempt_tail_def writer_ready_def log_at_def)
  with True app show ?thesis by auto
next
  case False
  from append_transition_refused [OF assms False] show ?thesis using False by (metis (full_types))
qed

text \<open>
  C31 (event_chain_binds). The digest in the tail of an attempt fixes all its transitions: two readable logs, whoever
  wrote them, whose tails of an attempt are at the same digest have the same transitions of that attempt,
  field by field (a fraction by its text), unless two different texts with the same digest occur in them.
\<close>

theorem event_chain_binds:
  assumes "json_lines (log_lines w)" and "scan_attempt_tails H w = Inr tails" and "log_records (log_lines w) = Some ds"
    and "json_lines (log_lines w')" and "scan_attempt_tails H w' = Inr tails'" and "log_records (log_lines w') = Some ds'"
    and "attempt_rows key ds \<noteq> []" and "attempt_rows key ds' \<noteq> []" and "snd (tail_at tails key) = snd (tail_at tails' key)"
  shows "list_all2 (\<lambda>d d'. \<forall>k. json_shape (dget d k) = json_shape (dget d' k)) (attempt_rows key ds) (attempt_rows key ds') \<or>
    (\<exists>d \<in> set ds. \<exists>d' \<in> set ds'. \<exists>x y. event_text (ddel ''_attempt_record_digest'' d) = Inr x \<and>
       event_text (ddel ''_attempt_record_digest'' d') = Inr y \<and> x \<noteq> y \<and> H x = H y)"
proof -
  from scan_readable [OF assms(2,1)] assms(3) have ch: "ev_chain.chained H ds" and t: "tail_at tails key = ev_chain.tail key ds"
    by (metis option.inject readable_log_def)+
  from scan_readable [OF assms(5,4)] assms(6) have ch': "ev_chain.chained H ds'" and t': "tail_at tails' key = ev_chain.tail key ds'"
    by (metis option.inject readable_log_def)+
  note rows = attempt_rows_of_key
  have same: "\<forall>k. json_shape (dget d k) = json_shape (dget d' k)"
    if "ev_proper d \<and> ev_proper d' \<and> ev_body d = ev_body d' \<and> ev_seal d = ev_seal d'" for d d'
  proof
    fix k
    have "dget d ''_attempt_record_digest'' = PStr (ev_seal d)" "dget d' ''_attempt_record_digest'' = PStr (ev_seal d')"
      using that by (auto simp: ev_proper_def ev_seal_def elim!: is_str.elims)
    then show "json_shape (dget d k) = json_shape (dget d' k)"
      using ev_body_fields [of d d' k] that by (cases "k = ''_attempt_record_digest''") (simp_all add: ev_proper_def)
  qed
  have body: "event_text (ddel ''_attempt_record_digest'' d) = Inr (ev_body d)" if "ev_proper d" for d
    using that by (intro ev_body_text) (simp add: ev_proper_def json_value_def)
  from ev_chain.tail_binds_records [OF ch ch', of key] assms(7-9) show ?thesis
    unfolding rows t t' using same body by (blast intro: list.rel_mono_strong)
qed

section \<open>A concrete log\<close>

definition sample_transition :: "int \<Rightarrow> dict" where
  "sample_transition n = [(''event_type'', PStr ''attempt_transition''), (''timestamp'', PFloat (FFin (3 / 2) ''1.5'')),
     (''payload'', PDict [(''task_id'', PStr ''t''), (''attempt_id'', PStr ''a''), (''sequence'', PInt n)])]"

definition sample_writer :: "writer_generation option \<Rightarrow> event_store" where
  "sample_writer generation = new_store\<lparr> es_configured := True, es_generation := generation \<rparr>"

definition world_of :: "unit res \<times> dict \<times> event_store \<times> event_world \<Rightarrow> event_world" where
  "world_of p = snd (snd (snd p))"

text \<open>A first transition without generations; then a generation is installed and its writer appends the second.\<close>

definition first_world :: event_world where
  "first_world = world_of (append_record sample_hash None (sample_writer None) fresh_world (sample_transition 1))"

definition taken_over :: event_world where
  "taken_over = first_world\<lparr> ew_files := fst (install_generation sample_hash [] (sample_generation 1) None) \<rparr>"

definition second_world :: event_world where
  "second_world = world_of (append_locked sample_hash None (sample_writer (Some (sample_generation 1))) taken_over (sample_transition 2))"

lemma sample_transition_ok:
  "json_value (PDict (sample_transition n))" "1 \<le> n \<Longrightarrow> attempt_key (PDict (sample_transition n)) = Inr (Some (''t'', ''a''))"
  "payload_sequence (sample_transition n) = PInt n" "dget (sample_transition n) ''_writer_generation'' = PNone"
  "dget (sample_transition n) ''_writer_id'' = PNone"
  by (simp_all add: sample_transition_def json_value_def attempt_key_cases payload_sequence_def vget_def dget_def
      number_char_def is_digit_def)

lemma fresh_world_facts: "read_generation H [] = Inr None" "log_lines fresh_world = []"
    "\<not> ew_hold fresh_world" "ew_manifest fresh_world = Inr False" "scan_attempt_tails H fresh_world = Inr []" "ew_files fresh_world = []"
  by (simp_all add: fresh_world_def read_generation_def fs_get_def log_lines_def scan_attempt_tails_def)

lemma sample_writer_simps [simp]: "es_configured (sample_writer g)" "es_generation (sample_writer g) = g" "\<not> es_enforce (sample_writer g)"
  by (simp_all add: sample_writer_def new_store_def)

lemma append_first_locked:
  "append_record H None (sample_writer None) fresh_world d = append_locked H None (sample_writer None) fresh_world d"
  by (simp add: append_record_def append_preflight_def fresh_world_facts)

lemma sample_worlds_reachable:
  "(event_step sample_hash unstamped)\<^sup>*\<^sup>* fresh_world first_world"
  "(event_step sample_hash unstamped)\<^sup>*\<^sup>* fresh_world second_world"
proof -
  have app: "event_step sample_hash unstamped w (world_of (append_locked sample_hash None es w (sample_transition n)))" for w es n
  proof (cases "append_locked sample_hash None es w (sample_transition n)")
    case (fields r d' es' w')
    from event_append [OF fields sample_transition_ok(1), of unstamped] sample_transition_ok(4) show ?thesis by (simp add: fields world_of_def unstamped_def)
  qed
  show first: "(event_step sample_hash unstamped)\<^sup>*\<^sup>* fresh_world first_world"
    unfolding first_world_def append_first_locked by (rule r_into_rtranclp, rule app)
  have "ew_files first_world = []"
    by (simp add: first_world_def append_first_locked world_of_def append_locked_def Let_def fresh_world_facts split: sum.split prod.split)
  then have "event_step sample_hash unstamped first_world taken_over" unfolding taken_over_def
    using event_install [of sample_hash first_world "sample_generation 1" None _ _ unstamped] sample_generation_wf [of 1]
    by (metis one_le_numeral order_refl prod.collapse)
  moreover have "event_step sample_hash unstamped taken_over second_world" unfolding second_world_def by (rule app)
  ultimately show "(event_step sample_hash unstamped)\<^sup>*\<^sup>* fresh_world second_world"
    using first by (meson rtranclp.rtrancl_into_rtrancl)
qed

lemma sample_worlds_scan:
  "scan_attempt_tails sample_hash first_world = Inr [((''t'', ''a''), 1, sample_hash [])]"
  "map_option (map stamp) (log_records (log_lines second_world)) = Some [0, 1]"
  "map_option (\<lambda>ds. length (attempt_rows (''t'', ''a'') ds)) (log_records (log_lines second_world)) = Some 2"
  by code_simp+

theorem event_log_sound_witness:
  "\<exists>ds tails. log_records (log_lines second_world) = Some ds \<and> map stamp ds = [0, 1] \<and> sorted (map stamp ds) \<and>
     scan_attempt_tails sample_hash second_world = Inr tails \<and> fst (tail_at tails (''t'', ''a'')) = 2"
  using event_log_sound [OF sample_worlds_reachable(2)] sample_worlds_scan(2,3) by fastforce

text \<open>
  A record whose caller sets the stamp 7 is appended while no generation is installed; after generation 1 has
  been installed its writer appends with stamp 1.
\<close>

definition stamped_world :: event_world where
  "stamped_world =
    (let w = world_of (append_record sample_hash None (sample_writer None) fresh_world
           (dset ''_writer_generation'' (PInt 7) (sample_transition 1)));
         w' = w\<lparr> ew_files := fst (install_generation sample_hash (ew_files w) (sample_generation 1) None) \<rparr> in
     world_of (append_record sample_hash None (sample_writer (Some (sample_generation 1))) w' (sample_transition 2)))"

theorem stamped_append_unchecked:
  "map_option (map stamp) (log_records (log_lines stamped_world)) = Some [7, 1]"
  by code_simp

lemma sample_ready: "writer_ready H (sample_writer None) fresh_world" "log_at H fresh_world []"
    "1 \<le> n \<Longrightarrow> transition_record (sample_transition n) (''t'', ''a'') n"
  using sample_transition_ok [of n] by (simp_all add: writer_ready_def log_at_def fresh_world_facts transition_record_def)

theorem attempt_append_outcome_witness:
  "\<exists>d' es' w'. append_record sample_hash None (sample_writer None) fresh_world (sample_transition 1) = (Inr (), d', es', w') \<and>
     fst (attempt_tail sample_hash es' w' (''t'', ''a'')) = Inr 1"
  using attempt_append_outcome [OF sample_ready(1,2) sample_ready(3) [of 1], of sample_hash] by auto

lemma first_world_records:
  "log_records (log_lines first_world) = Some [dict_of (the (line_value (hd (log_lines first_world))))]"
  "attempt_rows (''t'', ''a'') [dict_of (the (line_value (hd (log_lines first_world))))] \<noteq> []"
  by code_simp+

theorem event_chain_binds_witness:
  "\<exists>d. log_records (log_lines first_world) = Some [d] \<and>
    (list_all2 (\<lambda>d d'. \<forall>k. json_shape (dget d k) = json_shape (dget d' k)) (attempt_rows (''t'', ''a'') [d]) (attempt_rows (''t'', ''a'') [d]) \<or>
     (\<exists>x y. event_text (ddel ''_attempt_record_digest'' d) = Inr x \<and> event_text (ddel ''_attempt_record_digest'' d) = Inr y \<and>
        x \<noteq> y \<and> sample_hash x = sample_hash y))"
proof -
  have json: "json_lines (log_lines first_world)"
    using reachable_event_inv [OF sample_worlds_reachable(1)] by (auto simp: event_inv_def readable_log_def)
  note r = first_world_records and s = sample_worlds_scan(1)
  from event_chain_binds [OF json s r(1) json s r(1) r(2,2) refl] r(1) show ?thesis by auto
qed

end
