(* ===== verification/Event_Bus.thy ===== *)
theory Event_Bus
  imports Event_Log
begin

text \<open>
  The events of the runtime (\<open>kernel/events/contracts.py\<close>) and the bus that publishes them (\<open>NexusEventBus\<close> of
  \<open>kernel/events/transport.py\<close>), used without a writer factory. The clock, the fresh identifiers and the observers
  are parameters: an observer gets the payload, the bus and the log, may change all of them, by calling the bus or
  otherwise, and returns or raises. The signal queue comes from a binding of the host and is left out, and so are healing artifacts.
\<close>

section \<open>Attempt transitions\<close>

definition MAX_CONTINUITY_ITEMS :: nat where
  "MAX_CONTINUITY_ITEMS = 64"

definition REJECTED_STATES :: "string list" where
  "REJECTED_STATES = [''ATTEMPT_REJECTED'', ''REJECTED'']"

fun filled :: "pyval \<Rightarrow> bool" where
  "filled (PStr s) = (strip s \<noteq> [])"
| "filled _ = False"

definition continuity_sequence :: "string \<Rightarrow> pyval \<Rightarrow> pyval res" where
  "continuity_sequence name v =
    (if is_none v then Inr (PTuple [])
     else if is_array v then
       (if \<not> list_all filled (items_of v) then Inl (ValueError, name @ '' must contain non-empty strings'')
        else if length (items_of v) > MAX_CONTINUITY_ITEMS then Inl (ValueError, name @ '' exceeds bounded size 64'')
        else Inr (PTuple (items_of v)))
     else Inl (ValueError, name @ '' must be a list/tuple of non-empty strings''))"

definition TRANSITION_SCHEMA :: string where
  "TRANSITION_SCHEMA = ''nexus.attempt_transition.v1''"

record attempt_event =
  at_task_id :: pyval
  at_attempt_id :: pyval
  at_sequence :: pyval
  at_state :: pyval
  at_reason :: pyval
  at_continuity_event_type :: pyval
  at_strategy_delta :: pyval
  at_action :: pyval
  at_observation :: pyval
  at_do_not_repeat :: pyval
  at_unresolved_risks :: pyval
  at_unknowns :: pyval
  at_next_action :: pyval
  at_claim_ceiling :: pyval
  at_candidate_refs :: pyval
  at_evidence_refs :: pyval
  at_source_revision :: pyval
  at_contract_revision :: pyval
  at_timestamp :: pyval
  at_schema :: pyval

text \<open>The defaults of the fields after the four required ones; the timestamp is the clock's.\<close>

definition transition_defaults :: "pyval \<Rightarrow> pyval \<Rightarrow> pyval \<Rightarrow> pyval \<Rightarrow> pyfloat \<Rightarrow> attempt_event" where
  "transition_defaults task_id attempt_id sequence state now =
     \<lparr> at_task_id = task_id, at_attempt_id = attempt_id, at_sequence = sequence, at_state = state, at_reason = PStr [],
       at_continuity_event_type = PStr ''OBSERVATION_RECORDED'', at_strategy_delta = PStr [], at_action = PStr [],
       at_observation = PStr [], at_do_not_repeat = PTuple [], at_unresolved_risks = PTuple [], at_unknowns = PTuple [],
       at_next_action = PStr [], at_claim_ceiling = PStr [], at_candidate_refs = PTuple [], at_evidence_refs = PTuple [],
       at_source_revision = PStr [], at_contract_revision = PStr [], at_timestamp = PFloat now, at_schema = PStr TRANSITION_SCHEMA \<rparr>"

text \<open>\<open>isinstance(sequence, bool) or sequence < 1\<close>: an order with anything but a number raises.\<close>

fun sequence_check :: "pyval \<Rightarrow> unit res" where
  "sequence_check (PInt n) = raise_if (n < 1) ValueError ''sequence must be a positive integer''"
| "sequence_check (PBool b) = Inl (ValueError, ''sequence must be a positive integer'')"
| "sequence_check (PFloat (FFin r s)) = raise_if (r < 1) ValueError ''sequence must be a positive integer''"
| "sequence_check (PFloat (FInf neg)) = raise_if neg ValueError ''sequence must be a positive integer''"
| "sequence_check (PFloat FNan) = Inr ()"
| "sequence_check v = Inl (TypeError, ''not supported between instances'')"

fun is_tuple :: "pyval \<Rightarrow> bool" where
  "is_tuple (PTuple _) = True"
| "is_tuple _ = False"

fun is_number :: "pyval \<Rightarrow> bool" where
  "is_number (PInt _) = True"
| "is_number (PFloat _) = True"
| "is_number _ = False"

definition text_fields :: "attempt_event \<Rightarrow> dict" where
  "text_fields ev = [(''strategy_delta'', at_strategy_delta ev), (''next_action'', at_next_action ev),
     (''claim_ceiling'', at_claim_ceiling ev), (''action'', at_action ev), (''observation'', at_observation ev)]"

definition sequence_fields :: "attempt_event \<Rightarrow> dict" where
  "sequence_fields ev = [(''do_not_repeat'', at_do_not_repeat ev), (''unresolved_risks'', at_unresolved_risks ev),
     (''unknowns'', at_unknowns ev), (''candidate_refs'', at_candidate_refs ev), (''evidence_refs'', at_evidence_refs ev)]"

definition text_field_check :: "string \<times> pyval \<Rightarrow> unit res" where
  "text_field_check f = raise_if (\<not> is_str (snd f)) ValueError (fst f @ '' must be a string'')"

definition sequence_field_check :: "string \<times> pyval \<Rightarrow> unit res" where
  "sequence_field_check f =
     bindr (raise_if (\<not> is_tuple (snd f)) ValueError (fst f @ '' must be a tuple'')) (\<lambda>_.
     raise_if (length (items_of (snd f)) > MAX_CONTINUITY_ITEMS) ValueError (fst f @ '' exceeds bounded size 64''))"

text \<open>\<open>__post_init__\<close>: the fields are checked and kept as they are.\<close>

definition make_transition :: "attempt_event \<Rightarrow> attempt_event res" where
  "make_transition ev =
     bindr (raise_if (at_schema ev \<noteq> PStr TRANSITION_SCHEMA) ValueError ''unsupported attempt transition schema'') (\<lambda>_.
     bindr (raise_if (\<not> is_str (at_task_id ev) \<or> \<not> is_str (at_attempt_id ev)) ValueError
              ''task_id and attempt_id must be strings'') (\<lambda>_.
     bindr (raise_if (\<not> filled (at_task_id ev) \<or> \<not> filled (at_attempt_id ev)) ValueError
              ''task_id and attempt_id are required'') (\<lambda>_.
     bindr (sequence_check (at_sequence ev)) (\<lambda>_.
     bindr (raise_if (\<not> filled (at_state ev)) ValueError ''state is required'') (\<lambda>_.
     bindr (raise_if (\<not> is_str (at_reason ev)) ValueError ''reason must be a string'') (\<lambda>_.
     bindr (raise_if (\<not> filled (at_continuity_event_type ev)) ValueError ''continuity_event_type is required'') (\<lambda>_.
     bindr (raise_if (at_state ev \<in> set (map PStr REJECTED_STATES) \<and> at_continuity_event_type ev \<noteq> PStr ''ATTEMPT_REJECTED'')
              ValueError ''rejected state requires ATTEMPT_REJECTED continuity type'') (\<lambda>_.
     bindr (map_res text_field_check (text_fields ev)) (\<lambda>_.
     bindr (raise_if (\<not> is_str (at_source_revision ev) \<or> \<not> is_str (at_contract_revision ev)) ValueError
              ''source and contract revisions must be strings'') (\<lambda>_.
     bindr (raise_if (\<not> is_number (at_timestamp ev)) ValueError ''timestamp must be numeric'') (\<lambda>_.
     bindr (map_res sequence_field_check (sequence_fields ev)) (\<lambda>_.
     bindr (raise_if (list_ex (\<lambda>f. \<not> list_all filled (items_of (snd f))) (sequence_fields ev)) ValueError
              ''continuity fields must contain non-empty strings'') (\<lambda>_.
     Inr ev)))))))))))))"

definition listed :: "pyval \<Rightarrow> pyval" where
  "listed v = PList (items_of v)"

definition transition_to_dict :: "attempt_event \<Rightarrow> dict" where
  "transition_to_dict ev =
     [(''task_id'', at_task_id ev), (''attempt_id'', at_attempt_id ev), (''sequence'', at_sequence ev), (''state'', at_state ev),
      (''reason'', at_reason ev), (''continuity_event_type'', at_continuity_event_type ev), (''strategy_delta'', at_strategy_delta ev),
      (''action'', at_action ev), (''observation'', at_observation ev), (''do_not_repeat'', listed (at_do_not_repeat ev)),
      (''unresolved_risks'', listed (at_unresolved_risks ev)), (''unknowns'', listed (at_unknowns ev)),
      (''next_action'', at_next_action ev), (''claim_ceiling'', at_claim_ceiling ev), (''candidate_refs'', listed (at_candidate_refs ev)),
      (''evidence_refs'', listed (at_evidence_refs ev)), (''source_revision'', at_source_revision ev),
      (''contract_revision'', at_contract_revision ev), (''timestamp'', at_timestamp ev), (''schema'', at_schema ev)]"

text \<open>\<open>build_attempt_transition_event\<close>: the sequences are normalized first; the arguments are given as a transition.\<close>

definition build_attempt_transition_event :: "attempt_event \<Rightarrow> pyfloat \<Rightarrow> attempt_event res" where
  "build_attempt_transition_event args now =
     bindr (continuity_sequence ''do_not_repeat'' (at_do_not_repeat args)) (\<lambda>do_not_repeat.
     bindr (continuity_sequence ''unresolved_risks'' (at_unresolved_risks args)) (\<lambda>unresolved_risks.
     bindr (continuity_sequence ''unknowns'' (at_unknowns args)) (\<lambda>unknowns.
     bindr (continuity_sequence ''candidate_refs'' (at_candidate_refs args)) (\<lambda>candidate_refs.
     bindr (continuity_sequence ''evidence_refs'' (at_evidence_refs args)) (\<lambda>evidence_refs.
     make_transition (args\<lparr> at_do_not_repeat := do_not_repeat, at_unresolved_risks := unresolved_risks, at_unknowns := unknowns,
       at_candidate_refs := candidate_refs, at_evidence_refs := evidence_refs, at_timestamp := PFloat now,
       at_schema := PStr TRANSITION_SCHEMA \<rparr>))))))"

section \<open>Lifecycle events\<close>

definition PHASE_OBSERVER_HOOKS :: "string list" where
  "PHASE_OBSERVER_HOOKS = [''on_phase_start'', ''on_phase_end'', ''on_phase_fail'', ''on_phase_retry'', ''on_phase_block'',
     ''on_phase_cancel'', ''on_phase_timeout'', ''on_phase_reconcile'', ''on_task_terminal'']"

record nexus_event =
  ne_event_id :: string
  ne_task_id :: string
  ne_phase :: string
  ne_event_type :: string
  ne_payload :: dict
  ne_timestamp :: pyfloat
  ne_metadata :: dict

text \<open>Two readings of the clock: the milliseconds in the identifier and the timestamp.\<close>

definition build_lifecycle_hook_event :: "string \<Rightarrow> string \<Rightarrow> string \<Rightarrow> dict \<Rightarrow> int \<Rightarrow> pyfloat \<Rightarrow> nexus_event" where
  "build_lifecycle_hook_event task_id phase hook payload ms now =
     \<lparr> ne_event_id = ''evt_'' @ hook @ ''_'' @ phase @ ''_'' @ show_int ms, ne_task_id = task_id, ne_phase = phase,
       ne_event_type = ''lifecycle_hook'', ne_payload = dmerge [(''hook'', PStr hook)] payload, ne_timestamp = now, ne_metadata = [] \<rparr>"

definition build_phase_transition_event :: "string \<Rightarrow> string \<Rightarrow> string \<Rightarrow> dict \<Rightarrow> int \<Rightarrow> pyfloat \<Rightarrow> nexus_event" where
  "build_phase_transition_event task_id phase name payload ms now =
     \<lparr> ne_event_id = ''evt_'' @ name @ ''_'' @ phase @ ''_'' @ show_int ms, ne_task_id = task_id, ne_phase = phase,
       ne_event_type = ''phase_transition'', ne_payload = dmerge [(''transition'', PStr name)] payload, ne_timestamp = now, ne_metadata = [] \<rparr>"

definition build_phase_observer_event :: "string \<Rightarrow> string \<Rightarrow> string \<Rightarrow> dict \<Rightarrow> int \<Rightarrow> pyfloat \<Rightarrow> nexus_event res" where
  "build_phase_observer_event task_id phase hook payload ms now =
    (if hook \<notin> set PHASE_OBSERVER_HOOKS then Inl (ValueError, ''unknown_phase_observer_hook:'' @ hook)
     else Inr (build_lifecycle_hook_event task_id phase hook payload ms now))"

section \<open>The bus\<close>

text \<open>
  The state of the bus is that of the class; the path of the bus is the path of its store. The subscribed handlers
  and the broadcaster are kept by name.
\<close>

record event_bus =
  eb_store :: event_store
  eb_seq :: int
  eb_sequences :: "(attempt \<times> int) list"
  eb_subscribers :: "(string \<times> string) list"
  eb_broadcaster :: "string option"
  eb_errors :: int
  eb_last_error :: dict
  eb_production_root :: "string option"
  eb_root :: "string option"
  eb_writable :: bool
  eb_feedback :: bool

text \<open>
  What the named observers of the host do: a handler is called with the payload, which it may change for the
  observers after it, and may change the bus and the rest of the state \<open>'s\<close>, whether by publishing,
  emitting, subscribing or otherwise; then it returns or raises. (The lists inside a payload are shared with the
  dictionary of the caller; changing those in place is left out.)
\<close>

type_synonym 's observer = "dict \<Rightarrow> event_bus \<Rightarrow> 's \<Rightarrow> unit res \<times> dict \<times> event_bus \<times> 's"

record 's observers =
  ob_handler :: "string \<Rightarrow> 's observer"
  ob_remote :: "string \<Rightarrow> string \<Rightarrow> 's observer"

definition new_bus :: event_bus where
  "new_bus = \<lparr> eb_store = new_store, eb_seq = 0, eb_sequences = [], eb_subscribers = [], eb_broadcaster = None, eb_errors = 0,
     eb_last_error = [], eb_production_root = None, eb_root = None, eb_writable = False, eb_feedback = False \<rparr>"

definition set_remote_broadcaster :: "string \<Rightarrow> event_bus \<Rightarrow> event_bus" where
  "set_remote_broadcaster b bus = bus\<lparr> eb_broadcaster := Some b \<rparr>"

definition subscribe :: "string \<Rightarrow> string \<Rightarrow> event_bus \<Rightarrow> event_bus" where
  "subscribe event_type handler bus = bus\<lparr> eb_subscribers := eb_subscribers bus @ [(event_type, handler)] \<rparr>"

definition record_observer_error :: "string \<Rightarrow> string \<Rightarrow> exn \<Rightarrow> event_bus \<Rightarrow> event_bus" where
  "record_observer_error event_type observer e bus =
     bus\<lparr> eb_errors := eb_errors bus + 1,
          eb_last_error := [(''event_type'', PStr event_type), (''observer'', PStr observer), (''error_type'', PStr (exc_name (fst e))),
            (''error'', PStr (snd e)), (''observer_only'', PBool True)] \<rparr>"

definition observe ::
  "string \<Rightarrow> string \<Rightarrow> 's observer \<Rightarrow> dict \<times> event_bus \<times> 's \<Rightarrow> dict \<times> event_bus \<times> 's" where
  "observe event_type name f x =
    (case x of (payload, bus, s) \<Rightarrow>
     case f payload bus s of
       (Inr _, payload', bus', s') \<Rightarrow> (payload', bus', s')
     | (Inl e, payload', bus', s') \<Rightarrow> (payload', record_observer_error event_type name e bus', s'))"

definition handlers_of :: "string \<Rightarrow> event_bus \<Rightarrow> string list" where
  "handlers_of event_type bus = map snd (filter (\<lambda>p. fst p = event_type) (eb_subscribers bus))"

text \<open>The handlers are those subscribed before the first of them runs; the broadcaster is the one set after the last.\<close>

definition notify :: "'s observers \<Rightarrow> string \<Rightarrow> dict \<Rightarrow> event_bus \<Rightarrow> 's \<Rightarrow> event_bus \<times> 's" where
  "notify obs event_type payload bus s =
    (case fold (\<lambda>h. observe event_type ''subscriber'' (ob_handler obs h)) (handlers_of event_type bus) (payload, bus, s) of
       (payload1, bus1, s1) \<Rightarrow>
         (case eb_broadcaster bus1 of
            None \<Rightarrow> (bus1, s1)
          | Some b \<Rightarrow> snd (observe event_type ''remote_broadcaster'' (ob_remote obs b event_type) (payload1, bus1, s1))))"

definition observer_telemetry :: "event_bus \<Rightarrow> dict" where
  "observer_telemetry bus =
     [(''schema'', PStr ''nexus.event_observer_telemetry.v1''), (''observer_error_count'', PInt (eb_errors bus)),
      (''last_observer_error'', PDict (eb_last_error bus)), (''enforcement_authority'', PStr ''synchronous_lifecycle_guards''),
      (''observer_only'', PBool True)]"

subsection \<open>Publishing\<close>

definition local_payload :: "dict \<Rightarrow> int \<Rightarrow> pyfloat \<Rightarrow> string \<Rightarrow> dict" where
  "local_payload payload seq now uid =
     (let p = dset ''internal_ts'' (PFloat now) (dset ''_seq'' (PInt seq) payload) in
      case map_of p ''_trace_id'' of None \<Rightarrow> dset ''_trace_id'' (PStr uid) p | Some _ \<Rightarrow> p)"

definition event_record :: "string \<Rightarrow> dict \<Rightarrow> dict" where
  "event_record event_type payload =
     [(''event_type'', PStr event_type), (''timestamp'', dget payload ''internal_ts''), (''seq'', dget payload ''_seq''),
      (''payload'', PDict payload)]"

text \<open>The counter runs even when the append fails; observers are told only of what was appended.\<close>

definition publish ::
  "(string \<Rightarrow> string) \<Rightarrow> event_world observers \<Rightarrow> exn option \<Rightarrow> pyfloat \<Rightarrow> string \<Rightarrow> string \<Rightarrow> dict \<Rightarrow> event_bus \<Rightarrow>
     event_world \<Rightarrow> unit res \<times> event_bus \<times> event_world" where
  "publish H obs io now uid event_type payload bus w =
    (if event_type = ''developer_feedback_decision''
     then (Inl (ValueError, ''developer feedback decisions require the typed emitter''), bus, w)
     else
       let bus1 = bus\<lparr> eb_seq := eb_seq bus + 1 \<rparr>;
           p = local_payload payload (eb_seq bus1) now uid in
       case append_record H io (eb_store bus1) w (event_record event_type p) of
         (Inl e, _, es, w') \<Rightarrow> (Inl e, bus1\<lparr> eb_store := es \<rparr>, w')
       | (Inr _, _, es, w') \<Rightarrow> (Inr (), notify obs event_type p (bus1\<lparr> eb_store := es \<rparr>) w'))"

definition cached :: "event_bus \<Rightarrow> attempt \<Rightarrow> int" where
  "cached bus key = (case map_of (eb_sequences bus) key of None \<Rightarrow> 0 | Some n \<Rightarrow> n)"

text \<open>
  Transitions are emitted with integer numbers. (The log refuses any other number; only a bus without a log would keep
  one in its cache.)
\<close>

definition transition_key :: "attempt_event \<Rightarrow> attempt" where
  "transition_key ev = (text_of (at_task_id ev), text_of (at_attempt_id ev))"

definition emit_attempt_transition ::
  "(string \<Rightarrow> string) \<Rightarrow> event_world observers \<Rightarrow> exn option \<Rightarrow> pyfloat \<Rightarrow> string \<Rightarrow> attempt_event \<Rightarrow> event_bus \<Rightarrow>
     event_world \<Rightarrow> dict res \<times> event_bus \<times> event_world" where
  "emit_attempt_transition H obs io now uid ev bus w =
    (let key = transition_key ev; previous = cached bus key in
     if previous \<noteq> 0 \<and> \<not> py_eq (at_sequence ev) (PInt (previous + 1))
     then (Inl (ValueError, ''attempt transition sequence must be contiguous''), bus, w)
     else
       let payload = transition_to_dict ev in
       case publish H obs io now uid ''attempt_transition'' payload bus w of
         (Inl e, bus', w') \<Rightarrow> (Inl e, bus', w')
       | (Inr _, bus', w') \<Rightarrow> (Inr payload, bus'\<lparr> eb_sequences := (key, int_of (at_sequence ev)) # eb_sequences bus' \<rparr>, w'))"

definition next_attempt_sequence ::
  "(string \<Rightarrow> string) \<Rightarrow> attempt \<Rightarrow> event_bus \<Rightarrow> event_world \<Rightarrow> int res \<times> event_bus" where
  "next_attempt_sequence H key bus w =
    (case attempt_tail H (eb_store bus) w key of
       (Inl e, es) \<Rightarrow> (Inl e, bus\<lparr> eb_store := es \<rparr>)
     | (Inr persisted, es) \<Rightarrow> (Inr (max (cached bus key) persisted + 1), bus\<lparr> eb_store := es \<rparr>))"

subsection \<open>Binding the bus to a project\<close>

text \<open>The numbers of the attempts in the cache are read again from the log, and dropped when it has none.\<close>

definition refreshed_sequences :: "(string \<Rightarrow> string) \<Rightarrow> event_bus \<Rightarrow> event_world \<Rightarrow> (attempt \<times> int) list res" where
  "refreshed_sequences H bus w =
     bindr (map_res (\<lambda>key. bindr (fst (attempt_tail H (eb_store bus) w key)) (\<lambda>n. Inr (key, n))) (dedup (map fst (eb_sequences bus))))
       (\<lambda>tails. Inr (filter (\<lambda>p. snd p \<noteq> 0) tails))"

definition configure_bus ::
  "(string \<Rightarrow> string) \<Rightarrow> string \<Rightarrow> bool \<Rightarrow> bool \<Rightarrow> writer_generation option \<Rightarrow> bool \<Rightarrow> event_bus \<Rightarrow> event_world \<Rightarrow> unit res \<times> event_bus" where
  "configure_bus H project_root create production generation enforce bus w =
    (if eb_production_root bus \<noteq> None \<and> eb_production_root bus \<noteq> Some project_root
     then (Inl (RuntimeError, ''conflicting production event root''), bus)
     else
       let bus1 = (if production then bus\<lparr> eb_production_root := Some project_root \<rparr> else bus) in
       case configure_store H generation enforce (eb_store bus1) w of
         (Inl e, es) \<Rightarrow> (Inl e, bus1\<lparr> eb_store := es \<rparr>)
       | (Inr _, es) \<Rightarrow>
           let bus2 = bus1\<lparr> eb_store := es, eb_root := Some project_root, eb_writable := create, eb_feedback := create \<or> eb_feedback bus1 \<rparr> in
           (case refreshed_sequences H bus2 w of
              Inl e \<Rightarrow> (Inl e, bus2)
            | Inr sequences \<Rightarrow> (Inr (), bus2\<lparr> eb_sequences := sequences \<rparr>)))"

definition ensure_configured ::
  "(string \<Rightarrow> string) \<Rightarrow> string \<Rightarrow> bool \<Rightarrow> event_bus \<Rightarrow> event_world \<Rightarrow> unit res \<times> event_bus" where
  "ensure_configured H project_root production bus w =
    (if eb_root bus = Some project_root \<and> es_configured (eb_store bus) \<and> eb_writable bus
     then (Inr (), if production then bus\<lparr> eb_production_root := Some project_root \<rparr> else bus)
     else configure_bus H project_root True production None False bus w)"

subsection \<open>Feedback decisions\<close>

text \<open>Here the rest of the state that the observers may change is the decision stream and the event log.\<close>

definition emit_developer_feedback_decision ::
  "(string \<Rightarrow> string) \<Rightarrow> (decision_stream \<times> event_world) observers \<Rightarrow> bool \<Rightarrow> feedback \<Rightarrow> string option \<Rightarrow> event_bus \<Rightarrow>
     decision_stream \<Rightarrow> event_world \<Rightarrow> (dict \<times> bool) res \<times> event_bus \<times> decision_stream \<times> event_world" where
  "emit_developer_feedback_decision H obs locked fb expected_tail bus st w =
    (if \<not> eb_feedback bus then (Inl (RuntimeError, ''store is not configured''), bus, st, w)
     else case Decision_Log.append H locked st fb expected_tail of
       (Inl e, st') \<Rightarrow> (Inl e, bus, st', w)
     | (Inr (d, replayed), st') \<Rightarrow>
         (if replayed then (Inr (d, replayed), bus, st', w)
          else (Inr (d, replayed), notify obs ''developer_feedback_decision'' d bus (st', w))))"

subsection \<open>Other emitters and the audit\<close>

definition audit_failure_payload :: "string \<Rightarrow> string \<Rightarrow> string \<Rightarrow> dict" where
  "audit_failure_payload task_id reason evidence_id =
     [(''task_id'', PStr task_id), (''reason'', PStr reason), (''evidence_id'', PStr evidence_id)]"

definition learning_decision_payload :: "string \<Rightarrow> string \<Rightarrow> string list \<Rightarrow> dict" where
  "learning_decision_payload task_id action reasons =
     [(''task_id'', PStr task_id), (''action'', PStr action), (''reasons'', PList (map PStr reasons))]"

definition evidence_accepted_payload :: "string \<Rightarrow> string \<Rightarrow> string \<Rightarrow> dict" where
  "evidence_accepted_payload task_id evidence_id evidence_type =
     [(''task_id'', PStr task_id), (''evidence_id'', PStr evidence_id), (''evidence_type'', PStr evidence_type)]"

definition SEMANTIC_EVENT_TYPES :: "string list" where
  "SEMANTIC_EVENT_TYPES = [''audit_failed'', ''learning_decision'', ''evidence_accepted'', ''healing_artifact_announced'',
     ''lifecycle_hook'', ''phase_transition'', ''spec_bind'', ''attempt_transition'']"

definition RAW_EVENT_TYPES :: "string list" where
  "RAW_EVENT_TYPES = [''phase_start'', ''phase_end'', ''lifecycle_pre'', ''external_signal_injected'', ''persist_event'', ''test_event'']"

definition get_recent_events :: "(string \<Rightarrow> string) \<Rightarrow> string \<Rightarrow> int \<Rightarrow> event_bus \<Rightarrow> event_world \<Rightarrow> pyval list" where
  "get_recent_events H event_type limit bus w =
    (case fst (recent_events H (eb_store bus) w event_type limit) of Inr events \<Rightarrow> events | Inl _ \<Rightarrow> [])"

definition audit_policy :: "bool \<Rightarrow> string option \<Rightarrow> string res" where
  "audit_policy fail_on_raw raw_policy =
    (let p = (case raw_policy of None \<Rightarrow> (if fail_on_raw then ''block'' else ''warn'') | Some p \<Rightarrow> p) in
     bindr (raise_if (p \<notin> {''allow'', ''warn'', ''block'', ''strict''}) ValueError (''unsupported raw event policy: '' @ p)) (\<lambda>_. Inr p))"

definition audit_event_contracts :: "bool \<Rightarrow> string option \<Rightarrow> pyval list \<Rightarrow> dict res" where
  "audit_event_contracts fail_on_raw raw_policy events =
     bindr (audit_policy fail_on_raw raw_policy) (\<lambda>policy.
     let types = map (\<lambda>v. str_or (vget v ''event_type'') []) events;
         semantic = filter (\<lambda>t. t \<in> set SEMANTIC_EVENT_TYPES) types;
         raw = filter (\<lambda>t. t \<notin> set SEMANTIC_EVENT_TYPES \<and> t \<in> set RAW_EVENT_TYPES) types;
         unknown = filter (\<lambda>t. t \<notin> set SEMANTIC_EVENT_TYPES \<and> t \<notin> set RAW_EVENT_TYPES) types;
         fail_raw = (policy = ''block'' \<or> policy = ''strict'');
         count = (\<lambda>ts. PInt (int (length ts)));
         names = (\<lambda>ts. PList (map PStr (sort_strings ts))) in
     Inr [(''schema_version'', PStr ''nexus_event_contract_audit.v1''), (''events_scanned'', PInt (int (length events))),
       (''semantic_event_count'', count semantic), (''raw_event_count'', count raw), (''unknown_event_count'', count unknown),
       (''semantic_event_types'', names semantic), (''raw_event_types'', names raw), (''unknown_event_types'', names unknown),
       (''transition_status'', PStr (if raw \<noteq> [] then ''raw_events_present'' else ''semantic_only'')),
       (''strict_raw_mode'', PBool fail_raw), (''raw_policy'', PStr policy),
       (''warning_reasons'', PList (if \<not> (fail_raw \<and> raw \<noteq> []) \<and> policy = ''warn'' \<and> raw \<noteq> [] then [PStr ''raw_event_types_present''] else [])),
       (''failure_reasons'', PList ((if unknown \<noteq> [] then [PStr ''unknown_event_types_present''] else []) @
          (if fail_raw \<and> raw \<noteq> [] then [PStr ''raw_event_types_present''] else []))),
       (''passed'', PBool (unknown = [] \<and> \<not> (fail_raw \<and> raw \<noteq> [])))])"

section \<open>Lemmas\<close>

subsection \<open>Observers\<close>

text \<open>Observers that change neither the bus nor the rest of the state; they may raise and change the payload.\<close>

definition idle :: "'s observer \<Rightarrow> bool" where
  "idle f \<longleftrightarrow> (\<forall>p bus s. snd (snd (f p bus s)) = (bus, s))"

definition passive_observers :: "'s observers \<Rightarrow> bool" where
  "passive_observers obs \<longleftrightarrow> (\<forall>h. idle (ob_handler obs h)) \<and> (\<forall>b t. idle (ob_remote obs b t))"

text \<open>What is left for them to change of a bus: the error count and the last error.\<close>

definition same_bus :: "event_bus \<Rightarrow> event_bus \<Rightarrow> bool" where
  "same_bus bus bus' \<longleftrightarrow> bus' = bus\<lparr> eb_errors := eb_errors bus', eb_last_error := eb_last_error bus' \<rparr>"

lemma same_bus_refl: "same_bus bus bus"
  by (simp add: same_bus_def)

lemma same_bus_trans: "same_bus a b \<Longrightarrow> same_bus b c \<Longrightarrow> same_bus a c"
  by (cases a; cases b; cases c) (auto simp: same_bus_def)

lemma same_bus_fields:
  assumes "same_bus bus bus'"
  shows "eb_store bus' = eb_store bus" "eb_seq bus' = eb_seq bus" "eb_sequences bus' = eb_sequences bus"
    "eb_subscribers bus' = eb_subscribers bus" "eb_broadcaster bus' = eb_broadcaster bus" "cached bus' key = cached bus key"
  using assms by (cases bus; cases bus'; simp add: same_bus_def cached_def)+

lemma observe_idle:
  assumes "idle f"
  shows "\<exists>p' bus'. observe event_type name f (p, bus, s) = (p', bus', s) \<and> same_bus bus bus'"
proof -
  obtain r p' bus' s' where f: "f p bus s = (r, p', bus', s')" by (rule prod_cases4)
  with assms have "bus' = bus" "s' = s" unfolding idle_def by (metis prod.inject snd_conv)+
  with f show ?thesis by (cases r) (auto simp: observe_def record_observer_error_def same_bus_def)
qed

lemma fold_observe_idle:
  assumes "\<And>h. idle (f h)"
  shows "\<exists>p' bus'. fold (\<lambda>h. observe event_type name (f h)) hs (p, bus, s) = (p', bus', s) \<and> same_bus bus bus'"
proof (induction hs arbitrary: p bus)
  case (Cons h hs)
  obtain p1 bus1 where o: "observe event_type name (f h) (p, bus, s) = (p1, bus1, s)" "same_bus bus bus1"
    using observe_idle [OF assms] by blast
  obtain p2 bus2 where "fold (\<lambda>h. observe event_type name (f h)) hs (p1, bus1, s) = (p2, bus2, s)" "same_bus bus1 bus2"
    using Cons by blast
  with o same_bus_trans show ?case by fastforce
qed (simp add: same_bus_refl)

lemma notify_passive:
  assumes "passive_observers obs"
  shows "\<exists>bus'. notify obs event_type payload bus s = (bus', s) \<and> same_bus bus bus'"
proof -
  from assms have p: "\<And>h. idle (ob_handler obs h)" "\<And>b t. idle (ob_remote obs b t)" by (simp_all add: passive_observers_def)
  obtain p1 bus1 where f: "fold (\<lambda>h. observe event_type ''subscriber'' (ob_handler obs h)) (handlers_of event_type bus) (payload, bus, s) =
      (p1, bus1, s)" "same_bus bus bus1" using fold_observe_idle [where f = "ob_handler obs", OF p(1)] by blast
  show ?thesis
  proof (cases "eb_broadcaster bus1")
    case None
    with f show ?thesis by (simp add: notify_def)
  next
    case (Some b)
    from observe_idle [OF p(2)] obtain p2 bus2 where
      "observe event_type ''remote_broadcaster'' (ob_remote obs b event_type) (p1, bus1, s) = (p2, bus2, s)" "same_bus bus1 bus2" by blast
    with f Some same_bus_trans show ?thesis by (fastforce simp: notify_def)
  qed
qed

subsection \<open>Constructed transitions\<close>

lemma filled_iff: "filled v \<longleftrightarrow> (\<exists>s. v = PStr s \<and> strip s \<noteq> [])"
  by (cases v) auto

lemma is_str_iff: "is_str v \<longleftrightarrow> (\<exists>s. v = PStr s)"
  by (cases v) auto

definition transition_ok :: "attempt_event \<Rightarrow> bool" where
  "transition_ok ev \<longleftrightarrow> filled (at_task_id ev) \<and> filled (at_attempt_id ev) \<and> filled (at_state ev) \<and> is_str (at_reason ev) \<and>
     filled (at_continuity_event_type ev) \<and> (\<forall>f \<in> set (text_fields ev). is_str (snd f)) \<and> is_str (at_source_revision ev) \<and>
     is_str (at_contract_revision ev) \<and> is_number (at_timestamp ev) \<and> at_schema ev = PStr TRANSITION_SCHEMA \<and>
     (\<forall>f \<in> set (sequence_fields ev). is_tuple (snd f) \<and> length (items_of (snd f)) \<le> MAX_CONTINUITY_ITEMS \<and>
        list_all filled (items_of (snd f)))"

lemma make_transition_ok:
  assumes "make_transition ev = Inr ev'"
  shows "ev' = ev" and "transition_ok ev" and "sequence_check (at_sequence ev) = Inr ()"
proof -
  from assms have checks: "ev' = ev" "at_schema ev = PStr TRANSITION_SCHEMA" "filled (at_task_id ev)" "filled (at_attempt_id ev)"
      "sequence_check (at_sequence ev) = Inr ()" "filled (at_state ev)" "is_str (at_reason ev)" "filled (at_continuity_event_type ev)"
      "is_str (at_source_revision ev)" "is_str (at_contract_revision ev)" "is_number (at_timestamp ev)"
    and c: "\<not> list_ex (\<lambda>f. \<not> list_all filled (items_of (snd f))) (sequence_fields ev)"
    by (auto simp: make_transition_def res_simps)
  from assms obtain us vs where t: "map_res text_field_check (text_fields ev) = Inr us"
    and s: "map_res sequence_field_check (sequence_fields ev) = Inr vs" by (auto simp: make_transition_def res_simps)
  have "is_str (snd f)" if "f \<in> set (text_fields ev)" for f
    using map_res_unit [OF t that] by (simp add: text_field_check_def res_simps)
  moreover have "is_tuple (snd f) \<and> length (items_of (snd f)) \<le> MAX_CONTINUITY_ITEMS" if "f \<in> set (sequence_fields ev)" for f
    using map_res_unit [OF s that] by (simp add: sequence_field_check_def res_simps not_less)
  ultimately show "transition_ok ev" using checks c by (auto simp: transition_ok_def list_ex_iff)
  from checks show "ev' = ev" "sequence_check (at_sequence ev) = Inr ()" by simp_all
qed

lemma json_value_dict: "json_value (PDict d) \<longleftrightarrow> (\<forall>p \<in> set d. json_value (snd p))"
  by (auto simp: json_value_def)

lemma json_value_str: "is_str v \<Longrightarrow> json_value v"
  by (cases v) (simp_all add: json_value_def)

lemma json_value_filled: "filled v \<Longrightarrow> json_value v"
  by (cases v) (simp_all add: json_value_def)

lemma json_value_listed: "list_all filled (items_of v) \<Longrightarrow> json_value (listed v)"
  using json_value_filled by (auto simp: listed_def json_value_def list_all_iff)

lemma json_value_number: "is_number v \<Longrightarrow> float_texts v \<Longrightarrow> json_value v"
  by (cases v) (auto simp: json_value_def)

lemma transition_payload_value:
  assumes "transition_ok ev" and "at_sequence ev = PInt n" and "float_texts (at_timestamp ev)"
  shows "json_value (PDict (transition_to_dict ev))"
  using assms unfolding json_value_dict
  by (simp add: transition_to_dict_def transition_ok_def text_fields_def sequence_fields_def json_value_str json_value_filled
      json_value_listed json_value_number)

lemma dget_local_payload:
  "k \<notin> {''_seq'', ''internal_ts'', ''_trace_id''} \<Longrightarrow> dget (local_payload payload seq now uid) k = dget payload k"
  by (simp add: local_payload_def Let_def split: option.split)

lemma local_payload_value: "json_value (PDict payload) \<Longrightarrow> float_text now \<Longrightarrow> json_value (PDict (local_payload payload seq now uid))"
  by (simp add: local_payload_def Let_def json_value_dset json_value_def [of "PFloat now"] del: json_value_scalars split: option.split)
    (simp add: json_value_dset json_value_def [of "PFloat now"])

lemma dget_transition: "dget (transition_to_dict ev) ''task_id'' = at_task_id ev"
    "dget (transition_to_dict ev) ''attempt_id'' = at_attempt_id ev" "dget (transition_to_dict ev) ''sequence'' = at_sequence ev"
  by (simp_all add: transition_to_dict_def dget_def)

lemma dget_event_record: "dget (event_record event_type p) ''event_type'' = PStr event_type" "dget (event_record event_type p) ''payload'' = PDict p"
    "dget (event_record event_type p) ''_writer_generation'' = PNone" "dget (event_record event_type p) ''_writer_id'' = PNone"
  by (simp_all add: event_record_def dget_def)

lemma transition_recorded:
  assumes "make_transition args = Inr ev" and "at_sequence ev = PInt n" and "float_texts (at_timestamp ev)" and "float_text now"
  shows "transition_record (event_record ''attempt_transition'' (local_payload (transition_to_dict ev) seq now uid)) (transition_key ev) n"
proof -
  note ev = make_transition_ok [OF assms(1)]
  let ?p = "local_payload (transition_to_dict ev) seq now uid"
  from ev have ok: "transition_ok ev" and n: "1 \<le> n" using assms(2) by (simp_all add: res_simps)
  then obtain s a where ids: "at_task_id ev = PStr s" "at_attempt_id ev = PStr a" "s \<noteq> []" "a \<noteq> []"
    unfolding transition_ok_def filled_iff by (metis strip_Nil)
  have p: "dget ?p ''task_id'' = PStr s" "dget ?p ''attempt_id'' = PStr a" "dget ?p ''sequence'' = PInt n"
    using ids assms(2) by (simp_all add: dget_local_payload dget_transition)
  have v: "json_value (PDict ?p)" using transition_payload_value [OF ok assms(2,3)] assms(4) by (rule local_payload_value)
  have "json_value (dget ?p ''internal_ts'')" "json_value (dget ?p ''_seq'')"
    using assms(4) by (auto simp: local_payload_def Let_def json_value_def split: option.split)
  with v have "json_value (PDict (event_record ''attempt_transition'' ?p))" unfolding event_record_def by (subst json_value_dict) simp
  moreover have "attempt_key (PDict (event_record ''attempt_transition'' ?p)) = Inr (Some (transition_key ev))"
    using ids n p by (simp add: attempt_key_cases dget_event_record transition_key_def)
  ultimately show ?thesis
    using p by (simp add: transition_record_def dget_event_record payload_sequence_def vget_def)
qed

text \<open>
  C30 (transition_well_typed). A constructed transition with an integer number is a well-formed record for the
  log, whatever else its fields hold: published by the bus, it is a JSON value that carries the store's identity of
  its attempt and its number, and sets none of the store's own fields. So the log refuses it for its number only.
\<close>

theorem transition_well_typed:
  assumes "make_transition args = Inr ev" and "at_sequence ev = PInt n" and "float_texts (at_timestamp ev)" and "float_text now"
  shows "transition_record (event_record ''attempt_transition'' (local_payload (transition_to_dict ev) seq now uid)) (transition_key ev) n"
  using assms by (rule transition_recorded)

section \<open>Emitting transitions\<close>

text \<open>An accepted transition is in the log before the first observer runs; a refused one costs a number of the bus.\<close>

lemma publish_accepted:
  assumes "writer_ready H (eb_store bus) w" and "log_at H w tails" and "make_transition args = Inr ev" and "at_sequence ev = PInt n"
    and "float_texts (at_timestamp ev)" and "float_text now" and "n = fst (tail_at tails (transition_key ev)) + 1"
  obtains es w' tails' where "publish H obs None now uid ''attempt_transition'' (transition_to_dict ev) bus w =
      (Inr (), notify obs ''attempt_transition'' (local_payload (transition_to_dict ev) (eb_seq bus + 1) now uid)
         (bus\<lparr> eb_seq := eb_seq bus + 1, eb_store := es \<rparr>) w')"
    and "writer_ready H es w'" and "log_at H w' tails'" and "fst (tail_at tails' (transition_key ev)) = n"
proof -
  let ?r = "event_record ''attempt_transition'' (local_payload (transition_to_dict ev) (eb_seq bus + 1) now uid)"
  from append_transition_accepted [OF assms(1,2) transition_recorded [OF assms(3-6)] assms(7), of "eb_seq bus + 1" uid]
  obtain d' es w' tails' where app: "append_record H None (eb_store bus) w ?r = (Inr (), d', es, w')" "writer_ready H es w'"
    "log_at H w' tails'" "fst (tail_at tails' (transition_key ev)) = n" by metis
  show ?thesis by (rule that [OF _ app(2-4)]) (use app(1) in \<open>simp add: publish_def Let_def\<close>)
qed

lemma publish_refused:
  assumes "writer_ready H (eb_store bus) w" and "log_at H w tails" and "make_transition args = Inr ev" and "at_sequence ev = PInt n"
    and "float_texts (at_timestamp ev)" and "float_text now" and "n \<noteq> fst (tail_at tails (transition_key ev)) + 1"
  shows "publish H obs None now uid ''attempt_transition'' (transition_to_dict ev) bus w =
      (Inl (ValueError, ''attempt transition sequence must be contiguous''),
       bus\<lparr> eb_seq := eb_seq bus + 1, eb_store := eb_store bus\<lparr> es_tails := tails \<rparr> \<rparr>, w)"
proof -
  let ?r = "event_record ''attempt_transition'' (local_payload (transition_to_dict ev) (eb_seq bus + 1) now uid)"
  from append_transition_refused [OF assms(1,2) transition_recorded [OF assms(3-6)] assms(7), of "eb_seq bus + 1" uid]
  obtain d' where "append_record H None (eb_store bus) w ?r =
      (Inl (ValueError, ''attempt transition sequence must be contiguous''), d', eb_store bus\<lparr> es_tails := tails \<rparr>, w)" by metis
  then show ?thesis by (simp add: publish_def Let_def)
qed

lemma next_attempt_sequence_eq:
  "writer_ready H (eb_store bus) w \<Longrightarrow> log_at H w tails \<Longrightarrow>
     fst (next_attempt_sequence H key bus w) = Inr (max (cached bus key) (fst (tail_at tails key)) + 1)"
  by (simp add: next_attempt_sequence_def attempt_tail_def writer_ready_def log_at_def)

lemma tail_at_nonneg: "log_at H w tails \<Longrightarrow> 0 \<le> fst (tail_at tails key)"
  using scan_readable [of H w tails] ev_chain.fst_tail [of key] by (metis log_at_def of_nat_0_le_iff)

text \<open>
  C12 (emit_follows_log). On a bus that is ready to write (its store is configured and holds the installed
  generation, nothing stops direct writers) to a readable log, and whose cache holds nothing of an attempt or its last
  number in the log, the number that \<open>next_attempt_sequence\<close> promises is one more than the last of the log, and a
  transition of the attempt is emitted exactly when it carries that number. Then it is in the log before the first
  observer runs, the emission returns its dictionary whatever the observers do, and the promised number moves on by one
  if they are passive. Otherwise it is refused, no observer runs, the log is untouched, and of the bus only two things
  change: the tails the store has read, and, when the cache holds nothing of the attempt, the global sequence number,
  which is consumed.
\<close>

theorem emit_follows_log:
  assumes "writer_ready H (eb_store bus) w" and "log_at H w tails" and "make_transition args = Inr ev" and "at_sequence ev = PInt n"
    and "float_texts (at_timestamp ev)" and "float_text now" and "cached bus (transition_key ev) \<in> {0, fst (tail_at tails (transition_key ev))}"
  shows "\<exists>m. fst (next_attempt_sequence H (transition_key ev) bus w) = Inr m \<and> m = fst (tail_at tails (transition_key ev)) + 1 \<and>
    (if n = m
     then \<exists>es w1 tails1 bus' w'. writer_ready H es w1 \<and> log_at H w1 tails1 \<and> fst (tail_at tails1 (transition_key ev)) = n \<and>
       notify obs ''attempt_transition'' (local_payload (transition_to_dict ev) (eb_seq bus + 1) now uid)
         (bus\<lparr> eb_seq := eb_seq bus + 1, eb_store := es \<rparr>) w1 = (bus', w') \<and>
       emit_attempt_transition H obs None now uid ev bus w =
         (Inr (transition_to_dict ev), bus'\<lparr> eb_sequences := (transition_key ev, n) # eb_sequences bus' \<rparr>, w') \<and>
       (passive_observers obs \<longrightarrow>
         fst (next_attempt_sequence H (transition_key ev) (bus'\<lparr> eb_sequences := (transition_key ev, n) # eb_sequences bus' \<rparr>) w') = Inr (m + 1))
     else \<exists>ts. emit_attempt_transition H obs None now uid ev bus w =
       (Inl (ValueError, ''attempt transition sequence must be contiguous''),
        bus\<lparr> eb_seq := (if cached bus (transition_key ev) = 0 then eb_seq bus + 1 else eb_seq bus),
             eb_store := eb_store bus\<lparr> es_tails := ts \<rparr> \<rparr>, w))"
proof -
  let ?key = "transition_key ev" let ?m = "fst (tail_at tails ?key) + 1"
  have "max (cached bus ?key) (fst (tail_at tails ?key)) = fst (tail_at tails ?key)"
    using assms(7) tail_at_nonneg [OF assms(2), of ?key] by auto
  then have m: "fst (next_attempt_sequence H ?key bus w) = Inr ?m" using next_attempt_sequence_eq [OF assms(1,2), of ?key] by simp
  show ?thesis
  proof (cases "n = ?m")
    case True
    let ?p = "local_payload (transition_to_dict ev) (eb_seq bus + 1) now uid"
    from publish_accepted [OF assms(1-6) True, of obs uid] obtain es w1 tails1 where
      pub: "publish H obs None now uid ''attempt_transition'' (transition_to_dict ev) bus w =
        (Inr (), notify obs ''attempt_transition'' ?p (bus\<lparr> eb_seq := eb_seq bus + 1, eb_store := es \<rparr>) w1)"
        "writer_ready H es w1" "log_at H w1 tails1" "fst (tail_at tails1 ?key) = n" .
    obtain bus' w' where nt: "notify obs ''attempt_transition'' ?p (bus\<lparr> eb_seq := eb_seq bus + 1, eb_store := es \<rparr>) w1 = (bus', w')"
      by fastforce
    let ?bus = "bus'\<lparr> eb_sequences := (?key, n) # eb_sequences bus' \<rparr>"
    have em: "emit_attempt_transition H obs None now uid ev bus w = (Inr (transition_to_dict ev), ?bus, w')"
      using assms(4,7) True by (auto simp: emit_attempt_transition_def Let_def pub(1) nt)
    have "fst (next_attempt_sequence H ?key ?bus w') = Inr (?m + 1)" if "passive_observers obs"
    proof -
      from notify_passive [OF that] nt have w': "w' = w1" and same: "same_bus (bus\<lparr> eb_seq := eb_seq bus + 1, eb_store := es \<rparr>) bus'"
        by (metis prod.inject)+
      have "writer_ready H (eb_store ?bus) w'" using pub(2) same_bus_fields(1) [OF same] w' by simp
      from next_attempt_sequence_eq [OF this] pub(3,4) w' True show ?thesis by (simp add: cached_def)
    qed
    then show ?thesis
      by (intro exI [of _ ?m] conjI m refl) (use True pub nt em in auto)
  next
    case False
    show ?thesis
    proof (cases "cached bus ?key = 0")
      case True
      with publish_refused [OF assms(1-6) False, of obs uid] have "emit_attempt_transition H obs None now uid ev bus w =
        (Inl (ValueError, ''attempt transition sequence must be contiguous''),
         bus\<lparr> eb_seq := eb_seq bus + 1, eb_store := eb_store bus\<lparr> es_tails := tails \<rparr> \<rparr>, w)"
        by (simp add: emit_attempt_transition_def Let_def)
      with m False True show ?thesis by auto
    next
      case cached: False
      with assms(4,7) False have "emit_attempt_transition H obs None now uid ev bus w =
        (Inl (ValueError, ''attempt transition sequence must be contiguous''),
         bus\<lparr> eb_seq := eb_seq bus, eb_store := eb_store bus\<lparr> es_tails := es_tails (eb_store bus) \<rparr> \<rparr>, w)"
        by (auto simp: emit_attempt_transition_def Let_def)
      with m False cached show ?thesis by (auto intro: exI [of _ "es_tails (eb_store bus)"])
    qed
  qed
qed

text \<open>
  A cached number that is not the last one of the log, because another process has appended to the attempt since: no
  transition of the attempt can be emitted on this bus any more, whatever its number, although
  \<open>next_attempt_sequence\<close> still promises one; the cache stays as it is, so this lasts until the bus is configured again.
\<close>

theorem stale_cache_blocks:
  assumes "writer_ready H (eb_store bus) w" and "log_at H w tails" and "make_transition args = Inr ev" and "at_sequence ev = PInt n"
    and "float_texts (at_timestamp ev)" and "float_text now"
    and "cached bus (transition_key ev) \<notin> {0, fst (tail_at tails (transition_key ev))}"
  shows "\<exists>bus'. emit_attempt_transition H obs None now uid ev bus w =
      (Inl (ValueError, ''attempt transition sequence must be contiguous''), bus', w) \<and>
    writer_ready H (eb_store bus') w \<and> cached bus' (transition_key ev) = cached bus (transition_key ev)"
proof (cases "n = cached bus (transition_key ev) + 1")
  case True
  with assms(7) have "n \<noteq> fst (tail_at tails (transition_key ev)) + 1" by auto
  from publish_refused [OF assms(1-6) this, of obs uid] True assms(1,4) show ?thesis
    by (simp add: emit_attempt_transition_def Let_def cached_def)
next
  case False
  with assms(1,4,7) show ?thesis by (simp add: emit_attempt_transition_def Let_def)
qed

text \<open>
  An observer can bring this about in a single process: the handlers of a transition run before its number is put
  into the cache, so one that emits the next transition of the attempt, which succeeds as long as the cache is empty,
  leaves the cache behind the log. From then on every transition of the attempt is refused.
\<close>

theorem nested_emission_blocks:
  assumes "emit_attempt_transition H obs None now uid ev bus w = (Inr d, bus', w')" and "at_sequence ev = PInt n" and "n \<noteq> 0"
    and "writer_ready H (eb_store bus') w'" and "log_at H w' tails" and "fst (tail_at tails (transition_key ev)) \<noteq> n"
    and "make_transition args = Inr ev'" and "transition_key ev' = transition_key ev" and "at_sequence ev' = PInt n'"
    and "float_texts (at_timestamp ev')" and "float_text now'"
  shows "\<exists>bus''. emit_attempt_transition H obs None now' uid' ev' bus' w' =
    (Inl (ValueError, ''attempt transition sequence must be contiguous''), bus'', w')"
proof -
  have "cached bus' (transition_key ev) = n"
    using assms(1,2) by (auto simp: emit_attempt_transition_def Let_def cached_def split: if_splits prod.splits sum.splits)
  with assms(3,6,8) have "cached bus' (transition_key ev') \<notin> {0, fst (tail_at tails (transition_key ev'))}" by auto
  from stale_cache_blocks [OF assms(4,5,7,9,10,11) this] show ?thesis by blast
qed

section \<open>Concrete runs\<close>

definition sample_event :: "int \<Rightarrow> attempt_event" where
  "sample_event n = transition_defaults (PStr ''t'') (PStr ''a'') (PInt n) (PStr ''RUNNING'') (FFin (3 / 2) ''1.5'')"

definition sample_bus :: event_bus where
  "sample_bus = subscribe ''attempt_transition'' ''h'' (new_bus\<lparr> eb_store := sample_writer None \<rparr>)"

definition sample_observers :: "'s observers" where
  "sample_observers = \<lparr> ob_handler = (\<lambda>h p bus s. (Inl (ValueError, ''observer''), p, bus, s)),
     ob_remote = (\<lambda>b t p bus s. (Inr (), p, bus, s)) \<rparr>"

lemma sample_observers_passive [simp]: "passive_observers sample_observers"
  by (simp add: passive_observers_def idle_def sample_observers_def)

lemma sample_event_ok:
  "1 \<le> n \<Longrightarrow> make_transition (sample_event n) = Inr (sample_event n)" "at_sequence (sample_event n) = PInt n"
  "float_texts (at_timestamp (sample_event n))" "transition_key (sample_event n) = (''t'', ''a'')"
  by (simp_all add: sample_event_def transition_defaults_def make_transition_def text_fields_def sequence_fields_def text_field_check_def
      sequence_field_check_def REJECTED_STATES_def strip_def py_space_def MAX_CONTINUITY_ITEMS_def raise_if_def TRANSITION_SCHEMA_def
      number_char_def is_digit_def transition_key_def)

lemma sample_clock: "float_text (FFin (3 / 2) ''1.5'')"
  by (simp add: number_char_def is_digit_def)

lemma sample_bus_facts: "eb_store sample_bus = sample_writer None" "cached sample_bus k = 0" "eb_errors sample_bus = 0" "eb_seq sample_bus = 0"
  by (simp_all add: sample_bus_def subscribe_def new_bus_def cached_def)

lemma sample_published:
  assumes "writer_ready sample_hash (eb_store bus) w" and "log_at sample_hash w tails" and "1 \<le> n" and "n = fst (tail_at tails (''t'', ''a'')) + 1"
  shows "\<exists>bus' w' tails'. publish sample_hash sample_observers None (FFin (3 / 2) ''1.5'') ''u'' ''attempt_transition'' (transition_to_dict (sample_event n)) bus w =
      (Inr (), bus', w') \<and> writer_ready sample_hash (eb_store bus') w' \<and> log_at sample_hash w' tails' \<and> fst (tail_at tails' (''t'', ''a'')) = n"
proof -
  have n: "n = fst (tail_at tails (transition_key (sample_event n))) + 1" using assms(4) by (simp add: sample_event_ok(4))
  let ?p = "local_payload (transition_to_dict (sample_event n)) (eb_seq bus + 1) (FFin (3 / 2) ''1.5'') ''u''"
  from publish_accepted [OF assms(1,2) sample_event_ok(1) [OF assms(3)] sample_event_ok(2,3) sample_clock n, of sample_observers "''u''"]
  obtain es w1 tails1 where pub: "publish sample_hash sample_observers None (FFin (3 / 2) ''1.5'') ''u'' ''attempt_transition''
      (transition_to_dict (sample_event n)) bus w =
      (Inr (), notify sample_observers ''attempt_transition'' ?p (bus\<lparr> eb_seq := eb_seq bus + 1, eb_store := es \<rparr>) w1)"
    "writer_ready sample_hash es w1" "log_at sample_hash w1 tails1" "fst (tail_at tails1 (''t'', ''a'')) = n"
    unfolding sample_event_ok(4) .
  from notify_passive [OF sample_observers_passive, of "''attempt_transition''" ?p "bus\<lparr> eb_seq := eb_seq bus + 1, eb_store := es \<rparr>" w1]
  obtain bus' where b: "notify sample_observers ''attempt_transition'' ?p (bus\<lparr> eb_seq := eb_seq bus + 1, eb_store := es \<rparr>) w1 = (bus', w1)"
    "same_bus (bus\<lparr> eb_seq := eb_seq bus + 1, eb_store := es \<rparr>) bus'" by blast
  have "writer_ready sample_hash (eb_store bus') w1" using pub(2) same_bus_fields(1) [OF b(2)] by simp
  with pub b(1) show ?thesis by auto
qed

theorem transition_well_typed_witness:
  "transition_record (event_record ''attempt_transition'' (local_payload (transition_to_dict (sample_event 1)) 1 (FFin (3 / 2) ''1.5'') ''u''))
     (''t'', ''a'') 1"
  using transition_well_typed [OF sample_event_ok(1) [of 1] sample_event_ok(2,3) sample_clock, of 1 "''u''"] by (simp add: sample_event_ok(4))

theorem emit_follows_log_witness:
  "\<exists>bus' w'. emit_attempt_transition sample_hash sample_observers None (FFin (3 / 2) ''1.5'') ''u'' (sample_event 1) sample_bus fresh_world =
      (Inr (transition_to_dict (sample_event 1)), bus', w') \<and>
    fst (next_attempt_sequence sample_hash (''t'', ''a'') bus' w') = Inr 2"
proof -
  have "writer_ready sample_hash (eb_store sample_bus) fresh_world" by (simp add: sample_bus_facts sample_ready)
  from emit_follows_log [OF this sample_ready(2) sample_event_ok(1) [of 1] sample_event_ok(2,3) sample_clock, of sample_observers "''u''"]
  show ?thesis by (auto simp: sample_bus_facts sample_event_ok(4))
qed

text \<open>
  Two buses of two processes on one log: the first emits the first transition, the second the second one; then the
  first can emit nothing for the attempt any more.
\<close>

theorem stale_cache_blocks_witness:
  "\<exists>bus w bus'. fst (next_attempt_sequence sample_hash (''t'', ''a'') bus w) = Inr 3 \<and>
     emit_attempt_transition sample_hash sample_observers None (FFin (3 / 2) ''1.5'') ''u'' (sample_event 3) bus w =
       (Inl (ValueError, ''attempt transition sequence must be contiguous''), bus', w)"
proof -
  have ready: "writer_ready sample_hash (eb_store sample_bus) fresh_world" by (simp add: sample_bus_facts sample_ready)
  from sample_published [OF ready sample_ready(2), of 1] obtain bus1 :: event_bus and w1 t1 where
    one: "writer_ready sample_hash (eb_store bus1) w1" "log_at sample_hash w1 t1" "fst (tail_at t1 (''t'', ''a'')) = 1" by auto
  have "(2 :: int) = fst (tail_at t1 (''t'', ''a'')) + 1" by (simp add: one(3))
  from sample_published [OF one(1,2) _ this] obtain bus2 :: event_bus and w2 t2 where
    two: "writer_ready sample_hash (eb_store bus2) w2" "log_at sample_hash w2 t2" "fst (tail_at t2 (''t'', ''a'')) = 2" by force
  let ?bus = "bus2\<lparr> eb_sequences := [((''t'', ''a''), 1)] \<rparr>"
  have c: "cached ?bus (''t'', ''a'') = 1" by (simp add: cached_def)
  have ready2: "writer_ready sample_hash (eb_store ?bus) w2" using two(1) by simp
  have "cached ?bus (transition_key (sample_event 3)) \<notin> {0, fst (tail_at t2 (transition_key (sample_event 3)))}"
    by (simp add: sample_event_ok(4) c two(3))
  from stale_cache_blocks [OF ready2 two(2) sample_event_ok(1) [of 3] sample_event_ok(2,3) sample_clock this, of sample_observers "''u''"] obtain bus' where
    "emit_attempt_transition sample_hash sample_observers None (FFin (3 / 2) ''1.5'') ''u'' (sample_event 3) ?bus w2 =
       (Inl (ValueError, ''attempt transition sequence must be contiguous''), bus', w2)" by auto
  moreover have "fst (next_attempt_sequence sample_hash (''t'', ''a'') ?bus w2) = Inr 3"
    using next_attempt_sequence_eq [OF ready2 two(2), of "(''t'', ''a'')"] by (simp add: c two(3))
  ultimately show ?thesis by blast
qed

end
