(* ===== verification/Store_Lock.thy ===== *)
theory Store_Lock
  imports Main
begin

text \<open>
  The reentrant lock of the event store (\<open>event_store_lock\<close> and \<open>_after_fork_child\<close> of
  \<open>kernel/events/writer_generation.py\<close>): an advisory \<open>flock\<close> on the lock file and a registry per process that
  lets the thread which holds the lock enter again. The model has any number of processes and threads whose
  steps interleave, and forks in the middle of a locked section: the child keeps running inside the blocks
  its parent entered, but its registry has been emptied. A process is numbered in the order of its start and
  does not end; an open file description is a number.
\<close>

section \<open>The lock\<close>

text \<open>\<open>_HeldStoreLock\<close>: the registry entry of the lock path.\<close>

record held_lock =
  hl_fd :: nat
  hl_depth :: nat
  hl_pid :: nat
  hl_thread :: nat

text \<open>
  A \<open>with\<close> block a thread is in, with the process and the thread it was entered by: an outer block
  acquired the lock, an inner one found it held.
\<close>

datatype frame = Outer (frame_fd: nat) (frame_pid: nat) (frame_thread: nat) | Inner (frame_pid: nat) (frame_thread: nat)

type_synonym agent = "nat \<times> nat"

record lock_world =
  lw_registry :: "nat \<Rightarrow> held_lock option"
  lw_flock :: "nat option"
  lw_stack :: "agent \<Rightarrow> frame list"
  lw_trying :: "agent \<Rightarrow> (nat \<times> bool) option"
  lw_next_fd :: nat
  lw_next_pid :: nat

definition initial_world :: lock_world where
  "initial_world = \<lparr> lw_registry = (\<lambda>_. None), lw_flock = None, lw_stack = (\<lambda>_. []), lw_trying = (\<lambda>_. None),
     lw_next_fd = 0, lw_next_pid = 1 \<rparr>"

definition holds :: "lock_world \<Rightarrow> agent \<Rightarrow> bool" where
  "holds w a = (case lw_registry w (fst a) of None \<Rightarrow> False | Some h \<Rightarrow> hl_pid h = fst a \<and> hl_thread h = snd a)"

text \<open>Entering: a thread that holds the lock only counts; any other opens the lock file and polls.\<close>

definition enter :: "agent \<Rightarrow> lock_world \<Rightarrow> lock_world" where
  "enter a w =
    (if holds w a
     then w\<lparr> lw_registry := (lw_registry w)(fst a := map_option (\<lambda>h. h\<lparr> hl_depth := hl_depth h + 1 \<rparr>) (lw_registry w (fst a))),
             lw_stack := (lw_stack w)(a := Inner (fst a) (snd a) # lw_stack w a) \<rparr>
     else w\<lparr> lw_trying := (lw_trying w)(a \<mapsto> (lw_next_fd w, False)), lw_next_fd := lw_next_fd w + 1 \<rparr>)"

text \<open>One poll: the lock is taken when no description holds it.\<close>

definition poll :: "agent \<Rightarrow> lock_world \<Rightarrow> lock_world" where
  "poll a w =
    (case (lw_trying w a, lw_flock w) of
       (Some (fd, False), None) \<Rightarrow> w\<lparr> lw_flock := Some fd, lw_trying := (lw_trying w)(a \<mapsto> (fd, True)) \<rparr>
     | _ \<Rightarrow> w)"

text \<open>The deadline has passed: the description is closed and \<open>GENERATION_LOCK_TIMEOUT\<close> raised.\<close>

definition time_out :: "agent \<Rightarrow> lock_world \<Rightarrow> lock_world" where
  "time_out a w = (case lw_trying w a of Some (fd, False) \<Rightarrow> w\<lparr> lw_trying := (lw_trying w)(a := None) \<rparr> | _ \<Rightarrow> w)"

definition register :: "agent \<Rightarrow> lock_world \<Rightarrow> lock_world" where
  "register a w =
    (case lw_trying w a of
       Some (fd, True) \<Rightarrow>
         w\<lparr> lw_registry := (lw_registry w)(fst a \<mapsto> \<lparr> hl_fd = fd, hl_depth = 1, hl_pid = fst a, hl_thread = snd a \<rparr>),
            lw_trying := (lw_trying w)(a := None), lw_stack := (lw_stack w)(a := Outer fd (fst a) (snd a) # lw_stack w a) \<rparr>
     | _ \<Rightarrow> w)"

text \<open>Dropping the entry, unlocking and closing the description.\<close>

definition release :: "nat \<Rightarrow> nat \<Rightarrow> lock_world \<Rightarrow> lock_world" where
  "release pid fd w = w\<lparr> lw_registry := (lw_registry w)(pid := None),
     lw_flock := (if lw_flock w = Some fd then None else lw_flock w) \<rparr>"

text \<open>Leaving the innermost block: the entry is touched only when it is the one the block was entered with.\<close>

definition leave :: "agent \<Rightarrow> lock_world \<Rightarrow> lock_world" where
  "leave a w =
    (case lw_stack w a of
       [] \<Rightarrow> w
     | f # fs \<Rightarrow>
         let w' = w\<lparr> lw_stack := (lw_stack w)(a := fs) \<rparr> in
         (case lw_registry w (fst a) of
            None \<Rightarrow> w'
          | Some h \<Rightarrow>
              if hl_pid h = frame_pid f \<and> hl_thread h = frame_thread f
              then (case f of
                      Outer fd _ _ \<Rightarrow> release (fst a) fd w'
                    | Inner _ _ \<Rightarrow>
                        if hl_depth h - 1 = 0 then release (fst a) (hl_fd h) w'
                        else w'\<lparr> lw_registry := (lw_registry w')(fst a \<mapsto> h\<lparr> hl_depth := hl_depth h - 1 \<rparr>) \<rparr>)
              else w'))"

text \<open>A fork by a thread: the child runs that thread only, inside the same blocks, with an empty registry.\<close>

definition fork :: "agent \<Rightarrow> lock_world \<Rightarrow> lock_world" where
  "fork a w = w\<lparr> lw_registry := (lw_registry w)(lw_next_pid w := None),
     lw_stack := (lw_stack w)((lw_next_pid w, snd a) := lw_stack w a), lw_next_pid := lw_next_pid w + 1 \<rparr>"

text \<open>The steps of the threads, in any order. A thread that polls does nothing else.\<close>

inductive lock_step :: "lock_world \<Rightarrow> lock_world \<Rightarrow> bool" where
  step_enter: "fst a < lw_next_pid w \<Longrightarrow> lw_trying w a = None \<Longrightarrow> lock_step w (enter a w)"
| step_poll: "lock_step w (poll a w)"
| step_time_out: "lock_step w (time_out a w)"
| step_register: "lock_step w (register a w)"
| step_leave: "lw_trying w a = None \<Longrightarrow> lock_step w (leave a w)"
| step_fork: "fst a < lw_next_pid w \<Longrightarrow> lw_trying w a = None \<Longrightarrow> lock_step w (fork a w)"

inductive_cases lock_stepE: "lock_step w w'"

section \<open>The invariant\<close>

text \<open>The blocks a thread has entered itself and not left: the registry counts them.\<close>

definition own_frames :: "lock_world \<Rightarrow> agent \<Rightarrow> frame list" where
  "own_frames w a =
    (if holds w a
     then replicate (hl_depth (the (lw_registry w (fst a))) - 1) (Inner (fst a) (snd a)) @
       [Outer (hl_fd (the (lw_registry w (fst a)))) (fst a) (snd a)]
     else [])"

text \<open>Below them are only blocks that another process has entered before a fork.\<close>

definition inherits :: "nat \<Rightarrow> nat \<Rightarrow> frame list \<Rightarrow> frame list \<Rightarrow> bool" where
  "inherits n p own st \<longleftrightarrow> (\<exists>inherited. st = own @ inherited \<and> (\<forall>f \<in> set inherited. frame_pid f \<noteq> p \<and> frame_pid f < n))"

lemma inherits_simps [simp]:
  "inherits n p (f # own) (f # st) = inherits n p own st"
  "inherits n p [] st = (\<forall>f \<in> set st. frame_pid f \<noteq> p \<and> frame_pid f < n)"
  by (auto simp: inherits_def)

lemma inherits_Cons: "inherits n p (f # own) st \<Longrightarrow> \<exists>fs. st = f # fs \<and> inherits n p own fs"
  by (auto simp: inherits_def)

lemma inherits_mono: "inherits n p own st \<Longrightarrow> n \<le> m \<Longrightarrow> inherits m p own st"
  by (fastforce simp: inherits_def)

definition stacks_ok :: "lock_world \<Rightarrow> bool" where
  "stacks_ok w \<longleftrightarrow> (\<forall>a. inherits (lw_next_pid w) (fst a) (own_frames w a) (lw_stack w a)) \<and>
     (\<forall>a. lw_next_pid w \<le> fst a \<longrightarrow> lw_stack w a = [] \<and> lw_registry w (fst a) = None \<and> lw_trying w a = None)"

definition registry_ok :: "lock_world \<Rightarrow> bool" where
  "registry_ok w \<longleftrightarrow> (\<forall>p h. lw_registry w p = Some h \<longrightarrow>
     hl_pid h = p \<and> 1 \<le> hl_depth h \<and> lw_flock w = Some (hl_fd h) \<and> hl_fd h < lw_next_fd w \<and>
     lw_trying w (p, hl_thread h) = None)"

definition descriptions_ok :: "lock_world \<Rightarrow> bool" where
  "descriptions_ok w \<longleftrightarrow>
     (\<forall>a fd b. lw_trying w a = Some (fd, b) \<longrightarrow> fd < lw_next_fd w \<and> (b \<longrightarrow> lw_flock w = Some fd) \<and>
        (\<forall>p h. lw_registry w p = Some h \<longrightarrow> hl_fd h \<noteq> fd) \<and> (\<forall>a' b'. lw_trying w a' = Some (fd, b') \<longrightarrow> a' = a)) \<and>
     (\<forall>p p' h h'. lw_registry w p = Some h \<longrightarrow> lw_registry w p' = Some h' \<longrightarrow> hl_fd h = hl_fd h' \<longrightarrow> p = p')"

definition lock_inv :: "lock_world \<Rightarrow> bool" where
  "lock_inv w \<longleftrightarrow> stacks_ok w \<and> registry_ok w \<and> descriptions_ok w"

lemma lock_inv_initial: "lock_inv initial_world"
  by (simp add: lock_inv_def stacks_ok_def registry_ok_def descriptions_ok_def own_frames_def holds_def initial_world_def)

lemma holdsE:
  assumes "holds w a"
  obtains h where "lw_registry w (fst a) = Some h" and "hl_pid h = fst a" and "hl_thread h = snd a"
  using assms by (auto simp: holds_def split: option.splits)

lemma own_frames_held:
  "lw_registry w (fst a) = Some h \<Longrightarrow> hl_pid h = fst a \<Longrightarrow> hl_thread h = snd a \<Longrightarrow>
     own_frames w a = replicate (hl_depth h - 1) (Inner (fst a) (snd a)) @ [Outer (hl_fd h) (fst a) (snd a)]"
  by (simp add: own_frames_def holds_def)

lemma own_frames_free: "\<not> holds w a \<Longrightarrow> own_frames w a = []"
  by (simp add: own_frames_def)

text \<open>The blocks of a thread depend on the registry of its process only.\<close>

lemma own_frames_cong: "lw_registry w' (fst a) = lw_registry w (fst a) \<Longrightarrow> own_frames w' a = own_frames w a"
  by (simp add: own_frames_def holds_def)

text \<open>The parts of the invariant one by one.\<close>

lemma stack_facts:
  assumes "lock_inv w"
  shows "inherits (lw_next_pid w) (fst a) (own_frames w a) (lw_stack w a)"
    and "lw_next_pid w \<le> fst a \<Longrightarrow> lw_stack w a = [] \<and> lw_registry w (fst a) = None \<and> lw_trying w a = None"
  using assms unfolding lock_inv_def stacks_ok_def by blast+

lemma entry_facts:
  assumes "lock_inv w" and "lw_registry w p = Some h"
  shows "hl_pid h = p" "1 \<le> hl_depth h" "lw_flock w = Some (hl_fd h)" "hl_fd h < lw_next_fd w" "lw_trying w (p, hl_thread h) = None"
  using assms unfolding lock_inv_def registry_ok_def by blast+

lemma trying_facts:
  assumes "lock_inv w" and "lw_trying w a = Some (fd, b)"
  shows "fd < lw_next_fd w" "b \<Longrightarrow> lw_flock w = Some fd" "lw_registry w p = Some h \<Longrightarrow> hl_fd h \<noteq> fd"
    "lw_trying w a' = Some (fd, b') \<Longrightarrow> a' = a" "fst a < lw_next_pid w"
proof -
  show "fst a < lw_next_pid w" using stack_facts(2) [OF assms(1), of a] assms(2) by (metis not_less option.discI)
qed (use assms in \<open>unfold lock_inv_def descriptions_ok_def, blast+\<close>)

lemma lock_invI:
  assumes "\<And>a. inherits (lw_next_pid w) (fst a) (own_frames w a) (lw_stack w a)"
    and "\<And>a. lw_next_pid w \<le> fst a \<Longrightarrow> lw_stack w a = [] \<and> lw_registry w (fst a) = None \<and> lw_trying w a = None"
    and "\<And>p h. lw_registry w p = Some h \<Longrightarrow> hl_pid h = p \<and> 1 \<le> hl_depth h \<and> lw_flock w = Some (hl_fd h) \<and>
      hl_fd h < lw_next_fd w \<and> lw_trying w (p, hl_thread h) = None"
    and "\<And>a fd b. lw_trying w a = Some (fd, b) \<Longrightarrow> fd < lw_next_fd w \<and> (b \<longrightarrow> lw_flock w = Some fd)"
    and "\<And>a fd b p h. lw_trying w a = Some (fd, b) \<Longrightarrow> lw_registry w p = Some h \<Longrightarrow> hl_fd h \<noteq> fd"
    and "\<And>a a' fd b b'. lw_trying w a = Some (fd, b) \<Longrightarrow> lw_trying w a' = Some (fd, b') \<Longrightarrow> a' = a"
    and "\<And>p p' h h'. lw_registry w p = Some h \<Longrightarrow> lw_registry w p' = Some h' \<Longrightarrow> p = p'"
  shows "lock_inv w"
proof -
  have "stacks_ok w" unfolding stacks_ok_def using assms(1,2) by blast
  moreover have "registry_ok w" unfolding registry_ok_def using assms(3) by blast
  moreover have "descriptions_ok w" unfolding descriptions_ok_def
  proof (intro conjI allI impI)
    fix a fd b assume a: "lw_trying w a = Some (fd, b)"
    from assms(4) [OF a] show "fd < lw_next_fd w" and "b \<Longrightarrow> lw_flock w = Some fd" by simp_all
    show "hl_fd h \<noteq> fd" if "lw_registry w p = Some h" for p h using assms(5) [OF a that] .
    show "a' = a" if "lw_trying w a' = Some (fd, b')" for a' b' using assms(6) [OF a that] .
  next
    fix p p' h h' assume "lw_registry w p = Some h" "lw_registry w p' = Some h'"
    then show "p = p'" by (rule assms(7))
  qed
  ultimately show ?thesis by (simp add: lock_inv_def)
qed

text \<open>Whoever has the lock is alone: a second registry entry would be of the same description.\<close>

lemma one_entry:
  assumes "lock_inv w" and "lw_registry w p = Some h" and "lw_registry w p' = Some h'"
  shows "p = p'"
proof -
  have "hl_fd h = hl_fd h'" using entry_facts(3) [OF assms(1,2)] entry_facts(3) [OF assms(1,3)] by simp
  with assms show ?thesis unfolding lock_inv_def descriptions_ok_def by blast
qed

lemma no_entry_while_registering:
  assumes "lock_inv w" and "lw_trying w a = Some (fd, True)"
  shows "lw_registry w p = None"
proof (cases "lw_registry w p")
  case (Some h)
  with entry_facts(3) [OF assms(1) Some] trying_facts(2) [OF assms] trying_facts(3) [OF assms Some] show ?thesis by simp
qed

subsection \<open>Every step keeps it\<close>

lemma enter_held_inv:
  assumes inv: "lock_inv w" and a: "fst a < lw_next_pid w" "holds w a"
  shows "lock_inv (enter a w)"
proof -
  from a(2) obtain h where h: "lw_registry w (fst a) = Some h" "hl_pid h = fst a" "hl_thread h = snd a" by (rule holdsE)
  let ?h = "h\<lparr> hl_depth := hl_depth h + 1 \<rparr>"
  have w': "lw_registry (enter a w) = (lw_registry w)(fst a \<mapsto> ?h)"
    "lw_stack (enter a w) = (lw_stack w)(a := Inner (fst a) (snd a) # lw_stack w a)"
    "lw_flock (enter a w) = lw_flock w" "lw_trying (enter a w) = lw_trying w" "lw_next_fd (enter a w) = lw_next_fd w"
    "lw_next_pid (enter a w) = lw_next_pid w" using a h by (simp_all add: enter_def)
  have own: "own_frames (enter a w) a = Inner (fst a) (snd a) # own_frames w a"
    using entry_facts(2) [OF inv h(1)]
    by (cases "hl_depth h") (simp_all add: own_frames_held [of _ a ?h] own_frames_held [OF h] w' h replicate_append_same)
  have other: "own_frames (enter a w) b = own_frames w b" if "b \<noteq> a" for b
    using that h by (cases "fst b = fst a") (auto simp: own_frames_def holds_def w' prod_eq_iff)
  note E = entry_facts [OF inv] and T = trying_facts [OF inv]
  show ?thesis
  proof (rule lock_invI)
    show "inherits (lw_next_pid (enter a w)) (fst b) (own_frames (enter a w) b) (lw_stack (enter a w) b)" for b
      using stack_facts(1) [OF inv, of b] own other [of b] by (cases "b = a") (simp_all add: w')
    show "hl_pid g = q \<and> 1 \<le> hl_depth g \<and> lw_flock (enter a w) = Some (hl_fd g) \<and> hl_fd g < lw_next_fd (enter a w) \<and>
        lw_trying (enter a w) (q, hl_thread g) = None" if "lw_registry (enter a w) q = Some g" for q g
      using that E [OF h(1)] E [of q g] by (auto simp: w' split: if_splits)
    show "q = q'" if "lw_registry (enter a w) q = Some g" "lw_registry (enter a w) q' = Some g'" for q q' g g'
      using that one_entry [OF inv h(1)] by (auto simp: w' split: if_splits)
    show "hl_fd g \<noteq> fd" if "lw_trying (enter a w) b = Some (fd, x)" "lw_registry (enter a w) q = Some g" for b fd x q g
      using that T(3) [of b fd x q g] T(3) [of b fd x "fst a" h] h by (auto simp: w' split: if_splits)
  qed (use stack_facts(2) [OF inv] a(1) T h in \<open>auto simp: w' split: if_splits\<close>)
qed

lemma enter_free_inv:
  assumes inv: "lock_inv w" and a: "fst a < lw_next_pid w" "\<not> holds w a" "lw_trying w a = None"
  shows "lock_inv (enter a w)"
proof -
  have w': "lw_registry (enter a w) = lw_registry w" "lw_stack (enter a w) = lw_stack w" "lw_flock (enter a w) = lw_flock w"
    "lw_trying (enter a w) = (lw_trying w)(a \<mapsto> (lw_next_fd w, False))" "lw_next_fd (enter a w) = lw_next_fd w + 1"
    "lw_next_pid (enter a w) = lw_next_pid w" using a by (simp_all add: enter_def)
  have own: "own_frames (enter a w) b = own_frames w b" for b by (rule own_frames_cong) (simp add: w')
  note E = entry_facts [OF inv] and T = trying_facts [OF inv]
  show ?thesis
  proof (rule lock_invI)
    show "hl_pid g = q \<and> 1 \<le> hl_depth g \<and> lw_flock (enter a w) = Some (hl_fd g) \<and> hl_fd g < lw_next_fd (enter a w) \<and>
        lw_trying (enter a w) (q, hl_thread g) = None" if "lw_registry (enter a w) q = Some g" for q g
      using that E [of q g] a(2) by (auto simp: w' holds_def)
    show "b' = b" if "lw_trying (enter a w) b = Some (fd, x)" "lw_trying (enter a w) b' = Some (fd, y)" for b b' fd x y
      using that T(1) [of b fd x] T(1) [of b' fd y] T(4) [of b fd x b' y] by (auto simp: w' split: if_splits)
    show "hl_fd g \<noteq> fd" if "lw_trying (enter a w) b = Some (fd, x)" "lw_registry (enter a w) q = Some g" for b fd x q g
      using that T(3) [of b fd x q g] E(4) [of q g] by (auto simp: w' split: if_splits)
    show "fd < lw_next_fd (enter a w) \<and> (x \<longrightarrow> lw_flock (enter a w) = Some fd)" if "lw_trying (enter a w) b = Some (fd, x)" for b fd x
      using that T(1,2) [of b fd x] by (auto simp: w' split: if_splits)
    show "q = q'" if "lw_registry (enter a w) q = Some g" "lw_registry (enter a w) q' = Some g'" for q q' g g'
      using that one_entry [OF inv] by (simp add: w')
  qed (use stack_facts [OF inv] a(1) own in \<open>auto simp: w'\<close>)
qed

lemma poll_inv:
  assumes inv: "lock_inv w"
  shows "lock_inv (poll a w)"
proof (cases "\<exists>fd. lw_trying w a = Some (fd, False) \<and> lw_flock w = None")
  case True
  then obtain fd where fd: "lw_trying w a = Some (fd, False)" "lw_flock w = None" by blast
  have w': "lw_registry (poll a w) = lw_registry w" "lw_stack (poll a w) = lw_stack w" "lw_flock (poll a w) = Some fd"
    "lw_trying (poll a w) = (lw_trying w)(a \<mapsto> (fd, True))" "lw_next_fd (poll a w) = lw_next_fd w"
    "lw_next_pid (poll a w) = lw_next_pid w" using fd by (simp_all add: poll_def)
  have own: "own_frames (poll a w) b = own_frames w b" for b by (rule own_frames_cong) (simp add: w')
  have none: "lw_registry w q = None" for q using entry_facts(3) [OF inv, of q] fd(2) by (cases "lw_registry w q") auto
  note T = trying_facts [OF inv]
  have trying: "lw_trying w b = Some (e, x) \<or> (b = a \<and> e = fd)" if "lw_trying (poll a w) b = Some (e, x)" for b e x
    using that by (auto simp: w' split: if_splits)
  show ?thesis
  proof (rule lock_invI)
    show "e < lw_next_fd (poll a w) \<and> (x \<longrightarrow> lw_flock (poll a w) = Some e)" if "lw_trying (poll a w) b = Some (e, x)" for b e x
      using that T(1,2) [of b e x] T(1) [OF fd(1)] fd(2) by (auto simp: w' split: if_splits)
    show "b' = b" if "lw_trying (poll a w) b = Some (e, x)" "lw_trying (poll a w) b' = Some (e, y)" for b b' e x y
      using trying [OF that(1)] trying [OF that(2)] T(4) [of b e _ b'] fd(1) by blast
  qed (use stack_facts [OF inv] T(5) [OF fd(1)] own none in \<open>auto simp: w'\<close>)
next
  case False
  then have "poll a w = w" by (auto simp: poll_def split: option.splits prod.splits bool.splits)
  with assms show ?thesis by simp
qed

lemma time_out_inv:
  assumes inv: "lock_inv w"
  shows "lock_inv (time_out a w)"
proof (cases "\<exists>fd. lw_trying w a = Some (fd, False)")
  case True
  then have w': "lw_registry (time_out a w) = lw_registry w" "lw_stack (time_out a w) = lw_stack w" "lw_flock (time_out a w) = lw_flock w"
    "lw_trying (time_out a w) = (lw_trying w)(a := None)" "lw_next_fd (time_out a w) = lw_next_fd w"
    "lw_next_pid (time_out a w) = lw_next_pid w" by (auto simp: time_out_def)
  have own: "own_frames (time_out a w) b = own_frames w b" for b by (rule own_frames_cong) (simp add: w')
  have trying: "lw_trying w b = Some x" if "lw_trying (time_out a w) b = Some x" for b x
    using that by (auto simp: w' split: if_splits)
  note E = entry_facts [OF inv] and T = trying_facts [OF inv, OF trying]
  show ?thesis
  proof (rule lock_invI)
    show "hl_pid g = q \<and> 1 \<le> hl_depth g \<and> lw_flock (time_out a w) = Some (hl_fd g) \<and> hl_fd g < lw_next_fd (time_out a w) \<and>
        lw_trying (time_out a w) (q, hl_thread g) = None" if "lw_registry (time_out a w) q = Some g" for q g
      using that E [of q g] by (simp add: w')
    show "b' = b" if "lw_trying (time_out a w) b = Some (e, x)" "lw_trying (time_out a w) b' = Some (e, y)" for b b' e x y
      using T(4) [OF that(1) trying [OF that(2)]] .
    show "q = q'" if "lw_registry (time_out a w) q = Some g" "lw_registry (time_out a w) q' = Some g'" for q q' g g'
      using that one_entry [OF inv] by (simp add: w')
  qed (use stack_facts [OF inv] own T(1,2,3) in \<open>auto simp: w'\<close>)
next
  case False
  then have "time_out a w = w" by (auto simp: time_out_def split: option.splits prod.splits bool.splits)
  with assms show ?thesis by simp
qed

lemma register_inv:
  assumes inv: "lock_inv w"
  shows "lock_inv (register a w)"
proof (cases "\<exists>fd. lw_trying w a = Some (fd, True)")
  case True
  then obtain fd where fd: "lw_trying w a = Some (fd, True)" by blast
  let ?h = "\<lparr> hl_fd = fd, hl_depth = 1, hl_pid = fst a, hl_thread = snd a \<rparr>"
  have w': "lw_registry (register a w) = (lw_registry w)(fst a \<mapsto> ?h)" "lw_flock (register a w) = lw_flock w"
    "lw_stack (register a w) = (lw_stack w)(a := Outer fd (fst a) (snd a) # lw_stack w a)"
    "lw_trying (register a w) = (lw_trying w)(a := None)" "lw_next_fd (register a w) = lw_next_fd w"
    "lw_next_pid (register a w) = lw_next_pid w" using fd by (simp_all add: register_def)
  note none = no_entry_while_registering [OF inv fd] and T = trying_facts [OF inv]
  have before: "own_frames w b = []" for b by (simp add: own_frames_def holds_def none)
  have own: "own_frames (register a w) a = [Outer fd (fst a) (snd a)]" by (simp add: own_frames_def holds_def w')
  have other: "own_frames (register a w) b = []" if "b \<noteq> a" for b
    using that by (cases "fst b = fst a") (auto simp: own_frames_def holds_def w' none prod_eq_iff)
  have trying: "lw_trying w b = Some x \<and> b \<noteq> a" if "lw_trying (register a w) b = Some x" for b x
    using that by (auto simp: w' split: if_splits)
  show ?thesis
  proof (rule lock_invI)
    show "inherits (lw_next_pid (register a w)) (fst b) (own_frames (register a w) b) (lw_stack (register a w) b)" for b
      using stack_facts(1) [OF inv, of b] before [of b] own other [of b] by (cases "b = a") (simp_all add: w')
    show "hl_fd g \<noteq> e" if "lw_trying (register a w) b = Some (e, x)" "lw_registry (register a w) q = Some g" for b e x q g
      using trying [OF that(1)] that(2) T(4) [OF fd, of b x] by (auto simp: w' none split: if_splits)
    show "b' = b" if "lw_trying (register a w) b = Some (e, x)" "lw_trying (register a w) b' = Some (e, y)" for b b' e x y
      using trying [OF that(1)] trying [OF that(2)] T(4) [of b e x b' y] by blast
    show "e < lw_next_fd (register a w) \<and> (x \<longrightarrow> lw_flock (register a w) = Some e)"
      if "lw_trying (register a w) b = Some (e, x)" for b e x
      using trying [OF that] T(1,2) [of b e x] by (simp add: w')
  qed (use stack_facts(2) [OF inv] T(1,2,5) [OF fd] none in \<open>auto simp: w' split: if_splits\<close>)
next
  case False
  then have "register a w = w" by (auto simp: register_def split: option.splits prod.splits bool.splits)
  with assms show ?thesis by simp
qed

text \<open>Leaving the last block a thread has entered itself gives the lock back.\<close>

lemma leave_last_inv:
  assumes inv: "lock_inv w" and h: "lw_registry w (fst a) = Some h" "hl_pid h = fst a" "hl_thread h = snd a" "hl_depth h = 1"
  shows "lock_inv (leave a w)"
proof -
  obtain fs where fs: "lw_stack w a = Outer (hl_fd h) (fst a) (snd a) # fs" "inherits (lw_next_pid w) (fst a) [] fs"
    using stack_facts(1) [OF inv, of a] inherits_Cons by (fastforce simp: own_frames_held [OF h(1-3)] h(4))
  note flock = entry_facts(3) [OF inv h(1)]
  have w': "lw_registry (leave a w) = (lw_registry w)(fst a := None)" "lw_flock (leave a w) = None"
    "lw_stack (leave a w) = (lw_stack w)(a := fs)" "lw_trying (leave a w) = lw_trying w"
    "lw_next_fd (leave a w) = lw_next_fd w" "lw_next_pid (leave a w) = lw_next_pid w"
    using h fs flock by (simp_all add: leave_def release_def)
  have none: "lw_registry (leave a w) q = None" for q
    using one_entry [OF inv h(1), of q] by (cases "lw_registry w q") (auto simp: w')
  have own: "own_frames (leave a w) b = []" for b by (simp add: own_frames_def holds_def none)
  have other: "own_frames w b = []" if "b \<noteq> a" for b
  proof (rule own_frames_free, rule notI)
    assume "holds w b"
    then obtain g where g: "lw_registry w (fst b) = Some g" "hl_thread g = snd b" by (rule holdsE)
    from one_entry [OF inv h(1) g(1)] g h that show False by (simp add: prod_eq_iff)
  qed
  note T = trying_facts [OF inv]
  show ?thesis
  proof (rule lock_invI)
    show "inherits (lw_next_pid (leave a w)) (fst b) (own_frames (leave a w) b) (lw_stack (leave a w) b)" for b
      using stack_facts(1) [OF inv, of b] other [of b] own [of b] fs(2) by (cases "b = a") (simp_all add: w')
    show "lw_stack (leave a w) b = [] \<and> lw_registry (leave a w) (fst b) = None \<and> lw_trying (leave a w) b = None"
      if "lw_next_pid (leave a w) \<le> fst b" for b
      using stack_facts(2) [OF inv, of b] that fs(1) none by (auto simp: w'(3-))
    show "e < lw_next_fd (leave a w) \<and> (x \<longrightarrow> lw_flock (leave a w) = Some e)" if "lw_trying (leave a w) b = Some (e, x)" for b e x
      using T(1,2) [of b e x] T(3) [of b e x, OF _ h(1)] that flock by (auto simp: w')
    show "b' = b" if "lw_trying (leave a w) b = Some (e, x)" "lw_trying (leave a w) b' = Some (e, y)" for b b' e x y
      using that T(4) [of b e x b' y] by (simp add: w')
  qed (simp_all add: none)
qed

text \<open>Leaving an inner block counts down.\<close>

lemma leave_inner_inv:
  assumes inv: "lock_inv w" and h: "lw_registry w (fst a) = Some h" "hl_pid h = fst a" "hl_thread h = snd a" "1 < hl_depth h"
  shows "lock_inv (leave a w)"
proof -
  let ?h = "h\<lparr> hl_depth := hl_depth h - 1 \<rparr>"
  obtain n where n: "hl_depth h = Suc (Suc n)" using h(4) by (metis One_nat_def Suc_lessE less_natE)
  obtain fs where fs: "lw_stack w a = Inner (fst a) (snd a) # fs"
      "inherits (lw_next_pid w) (fst a) (replicate n (Inner (fst a) (snd a)) @ [Outer (hl_fd h) (fst a) (snd a)]) fs"
    using stack_facts(1) [OF inv, of a] inherits_Cons by (fastforce simp: own_frames_held [OF h(1-3)] n)
  have w': "lw_registry (leave a w) = (lw_registry w)(fst a \<mapsto> ?h)" "lw_flock (leave a w) = lw_flock w"
    "lw_stack (leave a w) = (lw_stack w)(a := fs)" "lw_trying (leave a w) = lw_trying w"
    "lw_next_fd (leave a w) = lw_next_fd w" "lw_next_pid (leave a w) = lw_next_pid w"
    using h fs by (simp_all add: leave_def n)
  have own: "own_frames (leave a w) a = replicate n (Inner (fst a) (snd a)) @ [Outer (hl_fd h) (fst a) (snd a)]"
    by (simp add: own_frames_held [of _ a ?h] w' h(2,3) n)
  have other: "own_frames (leave a w) b = own_frames w b" if "b \<noteq> a" for b
    using that h by (cases "fst b = fst a") (auto simp: own_frames_def holds_def w' prod_eq_iff)
  note E = entry_facts [OF inv] and T = trying_facts [OF inv]
  show ?thesis
  proof (rule lock_invI)
    show "inherits (lw_next_pid (leave a w)) (fst b) (own_frames (leave a w) b) (lw_stack (leave a w) b)" for b
      using stack_facts(1) [OF inv, of b] own other [of b] fs(2) by (cases "b = a") (simp_all add: w')
    show "hl_pid g = q \<and> 1 \<le> hl_depth g \<and> lw_flock (leave a w) = Some (hl_fd g) \<and> hl_fd g < lw_next_fd (leave a w) \<and>
        lw_trying (leave a w) (q, hl_thread g) = None" if "lw_registry (leave a w) q = Some g" for q g
      using that E [OF h(1)] E [of q g] n by (auto simp: w' split: if_splits)
    show "q = q'" if "lw_registry (leave a w) q = Some g" "lw_registry (leave a w) q' = Some g'" for q q' g g'
      using that one_entry [OF inv h(1)] by (auto simp: w' split: if_splits)
    show "hl_fd g \<noteq> fd" if "lw_trying (leave a w) b = Some (fd, x)" "lw_registry (leave a w) q = Some g" for b fd x q g
      using that T(3) [of b fd x q g] T(3) [of b fd x "fst a" h] h by (auto simp: w' split: if_splits)
    show "lw_stack (leave a w) b = [] \<and> lw_registry (leave a w) (fst b) = None \<and> lw_trying (leave a w) b = None"
      if "lw_next_pid (leave a w) \<le> fst b" for b
      using stack_facts(2) [OF inv, of b] that fs(1) h(1) by (auto simp: w')
    show "b' = b" if "lw_trying (leave a w) b = Some (e, x)" "lw_trying (leave a w) b' = Some (e, y)" for b b' e x y
      using that T(4) [of b e x b' y] by (simp add: w')
  qed (use T(1,2) in \<open>auto simp: w'\<close>)
qed

text \<open>A block of the parent process is left without touching the lock.\<close>

lemma leave_inherited:
  assumes inv: "lock_inv w" and free: "\<not> holds w a"
  shows "leave a w = w\<lparr> lw_stack := (lw_stack w)(a := tl (lw_stack w a)) \<rparr>"
proof (cases "lw_stack w a")
  case Nil
  then have "(lw_stack w)(a := []) = lw_stack w" by auto
  with Nil show ?thesis by (simp add: leave_def)
next
  case (Cons f fs)
  then have "frame_pid f \<noteq> fst a" using stack_facts(1) [OF inv, of a] by (simp add: own_frames_free [OF free])
  with Cons entry_facts(1) [OF inv, of "fst a"] show ?thesis by (auto simp: leave_def Let_def split: option.splits)
qed

lemma leave_inherited_inv:
  assumes inv: "lock_inv w" and free: "\<not> holds w a"
  shows "lock_inv (leave a w)"
proof -
  have w': "lw_registry (leave a w) = lw_registry w" "lw_flock (leave a w) = lw_flock w"
    "lw_stack (leave a w) = (lw_stack w)(a := tl (lw_stack w a))" "lw_trying (leave a w) = lw_trying w"
    "lw_next_fd (leave a w) = lw_next_fd w" "lw_next_pid (leave a w) = lw_next_pid w"
    by (simp_all add: leave_inherited [OF assms])
  have own: "own_frames (leave a w) b = own_frames w b" for b by (rule own_frames_cong) (simp add: w')
  have "inherits (lw_next_pid w) (fst a) [] (tl (lw_stack w a))"
    using stack_facts(1) [OF inv, of a] own_frames_free [OF free] by (cases "lw_stack w a") simp_all
  then have "inherits (lw_next_pid w) (fst b) (own_frames w b) (lw_stack (leave a w) b)" for b
    using stack_facts(1) [OF inv, of b] own_frames_free [OF free] by (cases "b = a") (simp_all add: w')
  moreover have "lw_stack (leave a w) b = []" if "lw_next_pid w \<le> fst b" for b
    using stack_facts(2) [OF inv that] by (cases "b = a") (simp_all add: w')
  ultimately have "stacks_ok (leave a w)"
    using stack_facts(2) [OF inv] unfolding stacks_ok_def own w'(1,4,6) by blast
  moreover have "registry_ok (leave a w)" "descriptions_ok (leave a w)"
    using inv unfolding lock_inv_def registry_ok_def descriptions_ok_def w' by blast+
  ultimately show ?thesis by (simp add: lock_inv_def)
qed

lemma leave_inv:
  assumes inv: "lock_inv w"
  shows "lock_inv (leave a w)"
proof (cases "holds w a")
  case True
  then obtain h where h: "lw_registry w (fst a) = Some h" "hl_pid h = fst a" "hl_thread h = snd a" by (rule holdsE)
  with entry_facts(2) [OF inv h(1)] leave_last_inv [OF inv h] leave_inner_inv [OF inv h] show ?thesis by fastforce
qed (rule leave_inherited_inv [OF inv])

lemma fork_inv:
  assumes inv: "lock_inv w" and a: "fst a < lw_next_pid w"
  shows "lock_inv (fork a w)"
proof -
  let ?n = "lw_next_pid w"
  have new: "lw_registry w ?n = None" using stack_facts(2) [OF inv, of "(?n, 0)"] by simp
  have w': "lw_registry (fork a w) = lw_registry w" "lw_flock (fork a w) = lw_flock w" "lw_trying (fork a w) = lw_trying w"
    "lw_stack (fork a w) = (lw_stack w)((?n, snd a) := lw_stack w a)" "lw_next_fd (fork a w) = lw_next_fd w"
    "lw_next_pid (fork a w) = ?n + 1" using new by (auto simp: fork_def)
  have own: "own_frames (fork a w) b = own_frames w b" for b by (rule own_frames_cong) (simp add: w')
  have "frame_pid f < ?n" if "f \<in> set (lw_stack w a)" for f
    using stack_facts(1) [OF inv, of a] that a by (auto simp: inherits_def own_frames_def split: if_splits)
  then have child: "inherits (?n + 1) ?n [] (lw_stack w a)" by (fastforce simp: less_Suc_eq)
  have "inherits (?n + 1) (fst b) (own_frames w b) (lw_stack (fork a w) b)" for b
  proof (cases "b = (?n, snd a)")
    case True
    with child new show ?thesis by (simp add: w' own_frames_def holds_def)
  next
    case False
    with inherits_mono [OF stack_facts(1) [OF inv], of "?n + 1" b] show ?thesis by (simp add: w')
  qed
  moreover have "lw_stack (fork a w) b = [] \<and> lw_registry w (fst b) = None \<and> lw_trying w b = None" if "?n + 1 \<le> fst b" for b
    using stack_facts(2) [OF inv, of b] that by (cases "b = (?n, snd a)") (simp_all add: w')
  ultimately have "stacks_ok (fork a w)" unfolding stacks_ok_def own w'(1,3,6) by blast
  moreover have "registry_ok (fork a w)" "descriptions_ok (fork a w)"
    using inv unfolding lock_inv_def registry_ok_def descriptions_ok_def w' by blast+
  ultimately show ?thesis by (simp add: lock_inv_def)
qed

lemma lock_step_inv: "lock_step w w' \<Longrightarrow> lock_inv w \<Longrightarrow> lock_inv w'"
proof (induction rule: lock_step.induct)
  case (step_enter a w)
  then show ?case by (cases "holds w a") (auto intro: enter_held_inv enter_free_inv)
qed (auto intro: poll_inv time_out_inv register_inv leave_inv fork_inv)

lemma reachable_lock_inv: "lock_step\<^sup>*\<^sup>* initial_world w \<Longrightarrow> lock_inv w"
  by (induction rule: rtranclp_induct) (auto intro: lock_inv_initial lock_step_inv)

section \<open>Mutual exclusion\<close>

text \<open>A thread is inside when one of the blocks it is in was entered by its own process.\<close>

definition own_depth :: "lock_world \<Rightarrow> agent \<Rightarrow> nat" where
  "own_depth w a = length (filter (\<lambda>f. frame_pid f = fst a) (lw_stack w a))"

lemma own_depth_free: "lock_inv w \<Longrightarrow> \<not> holds w a \<Longrightarrow> own_depth w a = 0"
  using stack_facts(1) [of w a] by (simp add: own_depth_def own_frames_free)

lemma own_depth_held:
  assumes inv: "lock_inv w" and h: "lw_registry w (fst a) = Some h" "hl_thread h = snd a"
  shows "own_depth w a = hl_depth h"
proof -
  note e = entry_facts [OF inv h(1)]
  have none: "filter (\<lambda>f. frame_pid f = fst a) xs = []" if "\<forall>f \<in> set xs. frame_pid f \<noteq> fst a \<and> frame_pid f < n" for xs n
    using that by simp
  from stack_facts(1) [OF inv, of a] obtain inherited where st: "lw_stack w a = own_frames w a @ inherited"
    and "\<forall>f \<in> set inherited. frame_pid f \<noteq> fst a \<and> frame_pid f < lw_next_pid w" by (auto simp: inherits_def)
  with none [OF this(2)] show ?thesis using e(1,2) h by (simp add: own_depth_def own_frames_held)
qed

lemma own_depth_entry:
  assumes inv: "lock_inv w" and "0 < own_depth w a"
  obtains h where "lw_registry w (fst a) = Some h" "hl_thread h = snd a" "hl_depth h = own_depth w a" "lw_flock w = Some (hl_fd h)"
proof -
  have "holds w a" using own_depth_free [OF inv, of a] assms(2) by auto
  then obtain h where h: "lw_registry w (fst a) = Some h" "hl_thread h = snd a" by (rule holdsE)
  from own_depth_held [OF inv h] entry_facts(3) [OF inv h(1)] h show ?thesis by (intro that) simp_all
qed

lemma leave_releases:
  assumes inv: "lock_inv w" and "own_depth w a = 1"
  shows "lw_flock (leave a w) = None \<and> (\<forall>p. lw_registry (leave a w) p = None)"
proof -
  from assms obtain h where h: "lw_registry w (fst a) = Some h" "hl_thread h = snd a" "hl_depth h = 1" "lw_flock w = Some (hl_fd h)"
    by (metis own_depth_entry zero_less_one)
  then have pid: "hl_pid h = fst a" using entry_facts(1) [OF inv] by blast
  obtain fs where "lw_stack w a = Outer (hl_fd h) (fst a) (snd a) # fs"
    using stack_facts(1) [OF inv, of a] inherits_Cons by (fastforce simp: own_frames_held [OF h(1) pid h(2)] h(3))
  with h pid have "lw_flock (leave a w) = None" "lw_registry (leave a w) = (lw_registry w)(fst a := None)"
    by (simp_all add: leave_def release_def)
  moreover have "lw_registry w p = None" if "p \<noteq> fst a" for p
    using one_entry [OF inv h(1), of p] that by (cases "lw_registry w p") auto
  ultimately show ?thesis by simp
qed

text \<open>
  C13 (store_lock_exclusive). In every state that the interleaved steps of any threads and processes reach from
  the free lock, forks inside the locked section included: of two threads that are inside a block they entered
  themselves, both are the same one; such a thread has the registry entry of its process, with the number of
  those blocks as its depth, and the operating system's lock is held by the description of that entry; leaving
  the last of them gives the lock back and empties the registries; a thread that is in blocks of its parent
  process only, after a fork, leaves them without touching the registry or the lock.
\<close>

theorem store_lock_exclusive:
  assumes "lock_step\<^sup>*\<^sup>* initial_world w"
  shows "(0 < own_depth w a \<longrightarrow> 0 < own_depth w b \<longrightarrow> a = b) \<and>
    (0 < own_depth w a \<longrightarrow> (\<exists>h. lw_registry w (fst a) = Some h \<and> hl_thread h = snd a \<and> hl_depth h = own_depth w a \<and>
       lw_flock w = Some (hl_fd h))) \<and>
    (own_depth w a = 1 \<longrightarrow> lw_flock (leave a w) = None \<and> (\<forall>p. lw_registry (leave a w) p = None)) \<and>
    (own_depth w a = 0 \<longrightarrow> lw_registry (leave a w) = lw_registry w \<and> lw_flock (leave a w) = lw_flock w)"
proof (intro conjI impI)
  note inv = reachable_lock_inv [OF assms]
  show "a = b" if "0 < own_depth w a" "0 < own_depth w b"
    using that by (metis one_entry [OF inv] own_depth_entry [OF inv] option.inject prod_eq_iff)
  show "\<exists>h. lw_registry w (fst a) = Some h \<and> hl_thread h = snd a \<and> hl_depth h = own_depth w a \<and> lw_flock w = Some (hl_fd h)"
    if "0 < own_depth w a" using own_depth_entry [OF inv that] by metis
  show "lw_flock (leave a w) = None" "\<forall>p. lw_registry (leave a w) p = None" if "own_depth w a = 1"
    using leave_releases [OF inv that] by simp_all
  show "lw_registry (leave a w) = lw_registry w" "lw_flock (leave a w) = lw_flock w" if "own_depth w a = 0"
  proof -
    have "\<not> holds w a" using own_depth_held [OF inv, of a] entry_facts(2) [OF inv, of "fst a"] that by (auto elim!: holdsE)
    from leave_inherited [OF inv this] show "lw_registry (leave a w) = lw_registry w" "lw_flock (leave a w) = lw_flock w" by simp_all
  qed
qed

text \<open>A thread enters twice and forks; the child leaves both blocks and starts to poll.\<close>

definition forked_world :: lock_world where
  "forked_world = enter (1, 7) (leave (1, 7) (leave (1, 7) (fork (0, 7) (enter (0, 7) (register (0, 7) (poll (0, 7)
     (enter (0, 7) initial_world)))))))"

lemmas lock_op_defs = initial_world_def holds_def enter_def poll_def register_def release_def leave_def fork_def

lemma forked_world_reachable: "lock_step\<^sup>*\<^sup>* initial_world forked_world"
proof -
  let ?a = "(0, 7)" and ?c = "(1, 7)"
  let ?w1 = "enter ?a initial_world" let ?w2 = "poll ?a ?w1" let ?w3 = "register ?a ?w2" let ?w4 = "enter ?a ?w3"
  let ?w5 = "fork ?a ?w4" let ?w6 = "leave ?c ?w5" let ?w7 = "leave ?c ?w6"
  note step = rtranclp.rtrancl_into_rtrancl [of lock_step initial_world]
  have 1: "lock_step\<^sup>*\<^sup>* initial_world ?w1" by (rule r_into_rtranclp, rule step_enter) (simp_all add: initial_world_def)
  have 3: "lock_step\<^sup>*\<^sup>* initial_world ?w3" by (rule step [OF step [OF 1 step_poll] step_register])
  have 4: "lock_step\<^sup>*\<^sup>* initial_world ?w4" by (rule step [OF 3 step_enter]) (simp_all add: lock_op_defs)
  have 5: "lock_step\<^sup>*\<^sup>* initial_world ?w5" by (rule step [OF 4 step_fork]) (simp_all add: lock_op_defs)
  have 6: "lock_step\<^sup>*\<^sup>* initial_world ?w6" by (rule step [OF 5 step_leave]) (simp add: lock_op_defs)
  have 7: "lock_step\<^sup>*\<^sup>* initial_world ?w7" by (rule step [OF 6 step_leave]) (simp add: lock_op_defs)
  show ?thesis unfolding forked_world_def by (rule step [OF 7 step_enter]) (simp_all add: lock_op_defs)
qed

theorem store_lock_exclusive_witness:
  "own_depth forked_world (0, 7) = 2 \<and> own_depth forked_world (1, 7) = 0 \<and> lw_flock (leave (1, 7) forked_world) = Some 0 \<and>
   (\<exists>h. lw_registry forked_world 0 = Some h \<and> hl_thread h = 7 \<and> hl_depth h = 2 \<and> lw_flock forked_world = Some (hl_fd h))"
proof -
  have d: "own_depth forked_world (0, 7) = 2" "own_depth forked_world (1, 7) = 0" "lw_flock forked_world = Some 0"
    by (simp_all add: own_depth_def forked_world_def lock_op_defs)
  show ?thesis
    using store_lock_exclusive [OF forked_world_reachable, of "(0, 7)" "(0, 7)"]
      store_lock_exclusive [OF forked_world_reachable, of "(1, 7)" "(0, 7)"] d by simp
qed

end
