(* ===== verification/Keyset_Paging.thy ===== *)
theory Keyset_Paging
  imports Py_Prelude
begin

text \<open>
  The contract of a listing that is read page by page, each page starting after the key of the last hit of
  the page before. The listing may change between two pages. A client that follows the cursors to the end
  sees every hit that is in the listing all the time, none twice, in the order of the keys.
\<close>

section \<open>Following the cursors\<close>

text \<open>
  \<open>pages page later s c hs t\<close>: a client that asks for the page after \<open>c\<close> when the state is \<open>s\<close>, and then for the next
  page as long as there is one, has collected \<open>hs\<close> when the last page is answered in state \<open>t\<close>; \<open>later\<close> says which
  changes happen between two pages.
\<close>

inductive pages ::
  "('s \<Rightarrow> 'k option \<Rightarrow> ('h list \<times> 'k option) option) \<Rightarrow> ('s \<Rightarrow> 's \<Rightarrow> bool) \<Rightarrow> 's \<Rightarrow> 'k option \<Rightarrow> 'h list \<Rightarrow> 's \<Rightarrow> bool"
  for page later where
  last_page: "page s c = Some (hs, None) \<Longrightarrow> pages page later s c hs s"
| next_page: "page s c = Some (hs, Some k) \<Longrightarrow> later s s' \<Longrightarrow> pages page later s' (Some k) rest t \<Longrightarrow>
     pages page later s c (hs @ rest) t"

fun above :: "'k::linorder option \<Rightarrow> 'k \<Rightarrow> bool" where
  "above None k = True"
| "above (Some c) k = (c < k)"

lemma above_trans: "above c k \<Longrightarrow> k < k' \<Longrightarrow> above c k'"
  by (cases c) auto

text \<open>A list of increasing keys, cut after some element.\<close>

lemma sorted_le_last:
  fixes key :: "'h \<Rightarrow> 'k::linorder"
  assumes "sorted_wrt (<) (map key xs)" and "x \<in> set xs"
  shows "key x \<le> key (last xs)"
  using assms by (cases xs rule: rev_cases) (auto simp: sorted_wrt_append)

lemma sorted_cut:
  fixes key :: "'h \<Rightarrow> 'k::linorder"
  assumes "sorted_wrt (<) (map key (xs @ ys))" and "xs \<noteq> []"
  shows "filter (\<lambda>h. key (last xs) < key h) (xs @ ys) = ys"
proof -
  have "\<not> key (last xs) < key x" if "x \<in> set xs" for x
    using assms(1) that sorted_le_last [of key xs x] by (auto simp: sorted_wrt_append)
  moreover have "key (last xs) < key y" if "y \<in> set ys" for y
    using assms that by (auto simp: sorted_wrt_append)
  ultimately show ?thesis by (simp add: filter_id_conv filter_empty_conv)
qed

section \<open>The contract\<close>

text \<open>
  \<open>listing s\<close> are the hits of state \<open>s\<close>, in the order of their keys. A page that is answered holds the first \<open>limit\<close>
  of them after the cursor, and a cursor exactly when there are more. \<open>later\<close> relates states over time; a hit that
  is in the listing before and after is in the listing in between.
\<close>

locale keyset_listing =
  fixes page :: "'s \<Rightarrow> 'k::linorder option \<Rightarrow> ('h list \<times> 'k option) option"
    and listing :: "'s \<Rightarrow> 'h list" and key :: "'h \<Rightarrow> 'k" and limit :: nat
    and invar :: "'s \<Rightarrow> bool" and later :: "'s \<Rightarrow> 's \<Rightarrow> bool"
  assumes page_answer: "invar s \<Longrightarrow> page s c = Some (hs, n) \<Longrightarrow> 0 < limit \<and>
      hs = take limit (filter (\<lambda>h. above c (key h)) (listing s)) \<and>
      n = (if limit < length (filter (\<lambda>h. above c (key h)) (listing s)) then Some (key (last hs)) else None)"
    and listing_sorted: "invar s \<Longrightarrow> sorted_wrt (<) (map key (listing s))"
    and later_refl: "later s s"
    and later_trans: "later s s' \<Longrightarrow> later s' t \<Longrightarrow> later s t"
    and later_invar: "invar s \<Longrightarrow> later s s' \<Longrightarrow> invar s'"
    and listing_between: "invar s \<Longrightarrow> later s s' \<Longrightarrow> later s' t \<Longrightarrow> h \<in> set (listing s) \<Longrightarrow> h \<in> set (listing t) \<Longrightarrow>
      h \<in> set (listing s')"
begin

abbreviation after :: "'k option \<Rightarrow> 's \<Rightarrow> 'h list" where
  "after c s \<equiv> filter (\<lambda>h. above c (key h)) (listing s)"

lemma sorted_after: "invar s \<Longrightarrow> sorted_wrt (<) (map key (after c s))"
  using listing_sorted [of s] by (simp add: sorted_wrt_map sorted_wrt_filter)

lemma pages_later: "pages page later s c hs t \<Longrightarrow> later s t"
  by (induction rule: pages.induct) (auto intro: later_refl later_trans)

text \<open>A page with a cursor splits the rest of the listing at the cursor.\<close>

lemma page_split:
  assumes "invar s" and "page s c = Some (hs, Some k)"
  shows "after c s = hs @ after (Some k) s" and "hs \<noteq> []" and "k = key (last hs)"
proof -
  let ?a = "after c s"
  have lim: "0 < limit" "limit < length ?a" and hs: "hs = take limit ?a" and k: "k = key (last hs)"
    using page_answer [OF assms] by (auto split: if_splits)
  show ne: "hs \<noteq> []" using lim hs by auto
  show "k = key (last hs)" by (rule k)
  have a: "?a = hs @ drop limit ?a" by (simp only: hs append_take_drop_id)
  have "last hs \<in> set ?a" using ne hs by (metis in_set_takeD last_in_set)
  then have ab: "above c k" using k by simp
  have "after (Some k) s = filter (\<lambda>h. k < key h) ?a"
    using above_trans [OF ab] by (auto intro!: filter_cong)
  also have "\<dots> = drop limit ?a"
    using sorted_cut [of key hs "drop limit ?a"] sorted_after [OF assms(1), of c] a ne k by simp
  finally show "?a = hs @ after (Some k) s" using a by simp
qed

lemma page_last:
  assumes "invar s" and "page s c = Some (hs, None)"
  shows "hs = after c s"
  using page_answer [OF assms] by (auto split: if_splits)

lemma page_hits:
  assumes "invar s" and "page s c = Some (hs, n)" and "h \<in> set hs"
  shows "h \<in> set (listing s)" and "above c (key h)"
proof -
  have "hs = take limit (after c s)" using page_answer [OF assms(1,2)] by simp
  then have "h \<in> set (after c s)" using assms(3) by (metis in_set_takeD)
  then show "h \<in> set (listing s)" and "above c (key h)" by simp_all
qed

text \<open>What a client sees that follows the cursors to the end.\<close>

lemma pages_sorted:
  "pages page later s c hs t \<Longrightarrow> invar s \<Longrightarrow> sorted_wrt (<) (map key hs) \<and> (\<forall>h \<in> set hs. above c (key h))"
proof (induction rule: pages.induct)
  case (last_page s c hs)
  then show ?case using page_last [OF last_page.prems last_page.hyps] sorted_after [OF last_page.prems] by simp
next
  case (next_page s c hs k s' rest t)
  note pg = next_page.prems next_page.hyps(1)
  have rest: "sorted_wrt (<) (map key rest)" "\<forall>h \<in> set rest. k < key h"
    using next_page.IH later_invar [OF next_page.prems next_page.hyps(2)] by auto
  have hs: "sorted_wrt (<) (map key hs)"
    using sorted_after [OF next_page.prems, of c] page_split(1) [OF pg] by (simp add: sorted_wrt_append)
  have le: "key h \<le> k" if "h \<in> set hs" for h using sorted_le_last [OF hs that] page_split(3) [OF pg] by simp
  have ab: "above c k" using page_hits(2) [OF pg last_in_set] page_split(2,3) [OF pg] by simp
  show ?case
    using hs rest le above_trans [OF ab] page_hits(2) [OF pg] by (fastforce simp: sorted_wrt_append)
qed

lemma pages_include:
  "pages page later s c hs t \<Longrightarrow> invar s \<Longrightarrow> h \<in> set (listing s) \<Longrightarrow> h \<in> set (listing t) \<Longrightarrow> above c (key h) \<Longrightarrow> h \<in> set hs"
proof (induction rule: pages.induct)
  case (last_page s c hs)
  then show ?case using page_last [OF last_page.prems(1) last_page.hyps] by simp
next
  case (next_page s c hs k s' rest t)
  have "h \<in> set (after c s)" using next_page.prems(2,4) by simp
  then have "h \<in> set hs \<or> h \<in> set (after (Some k) s)"
    unfolding page_split(1) [OF next_page.prems(1) next_page.hyps(1)] by simp
  moreover have "h \<in> set (listing s')"
    using listing_between [OF next_page.prems(1) next_page.hyps(2) pages_later [OF next_page.hyps(3)]] next_page.prems(2,3) by simp
  ultimately show ?case
    using next_page.IH [OF later_invar [OF next_page.prems(1) next_page.hyps(2)]] next_page.prems(3) by auto
qed

lemma pages_only:
  "pages page later s c hs t \<Longrightarrow> invar s \<Longrightarrow> h \<in> set hs \<Longrightarrow> \<exists>u. later s u \<and> later u t \<and> h \<in> set (listing u)"
proof (induction rule: pages.induct)
  case (last_page s c hs)
  then show ?case using page_hits(1) [OF last_page.prems(1) last_page.hyps] later_refl by blast
next
  case (next_page s c hs k s' rest t)
  note st = later_invar [OF next_page.prems(1) next_page.hyps(2)]
  show ?case
  proof (cases "h \<in> set hs")
    case True
    then show ?thesis
      using page_hits(1) [OF next_page.prems(1) next_page.hyps(1)] later_refl next_page.hyps(2)
        pages_later [OF next_page.hyps(3)] later_trans by blast
  next
    case False
    with next_page.prems(2) have "h \<in> set rest" by simp
    then show ?thesis using next_page.IH [OF st] next_page.hyps(2) later_trans by blast
  qed
qed

text \<open>When nothing changes and every page is answered, the pages end, and they make up the listing.\<close>

lemma pages_exist:
  assumes "invar s" and "\<And>c. \<exists>r. page s c = Some r"
  shows "pages page later s c (after c s) s"
proof (induction "length (after c s)" arbitrary: c rule: less_induct)
  case less
  obtain hs n where pg: "page s c = Some (hs, n)" using assms(2) by fast
  show ?case
  proof (cases n)
    case None
    then show ?thesis using pages.last_page [of page s c hs later] pg page_last [OF assms(1), of c hs] by simp
  next
    case (Some k)
    note sp = page_split [OF assms(1) pg [unfolded Some]]
    have "length (after (Some k) s) < length (after c s)" using sp(1,2) by (metis add_less_cancel_right add_0 length_append length_greater_0_conv)
    then have "pages page later s (Some k) (after (Some k) s) s" by (rule less)
    then have "pages page later s c (hs @ after (Some k) s) s"
      using pages.next_page [of page s c hs k later s] pg Some later_refl by blast
    then show ?thesis using sp(1) by simp
  qed
qed

end

end
