(* ===== verification/Context_Store.thy ===== *)
theory Context_Store
  imports Py_Json Keyset_Paging
begin

text \<open>
  The context store (\<open>context_store/models.py\<close>, \<open>access.py\<close>, \<open>store.py\<close>, \<open>service.py\<close>): items of context under a scope, written
  once for each idempotency key, sealed by digests, read by ranges and searched page by page; checkpoints
  that refer to items, and the service that guards every operation with an access policy. A transaction of
  the database is one step on its two tables; any number of services work on one database.
\<close>

section \<open>UTF-8\<close>

text \<open>
  \<open>s.encode("utf-8")\<close> and \<open>b.decode("utf-8")\<close>; a byte is the character of its number. The texts of the model have code
  points up to 255, whose encodings have one byte or two.
\<close>

definition utf8_char :: "char \<Rightarrow> string" where
  "utf8_char c = (let n = (of_char c :: nat) in
     if n < 128 then [c] else [char_of (192 + n div 64), char_of (128 + n mod 64)])"

definition utf8_encode :: "string \<Rightarrow> string" where
  "utf8_encode s = concat (map utf8_char s)"

fun utf8_decode :: "string \<Rightarrow> string option" where
  "utf8_decode [] = Some []"
| "utf8_decode (b # bs) = (let n = (of_char b :: nat) in
     if n < 128 then map_option (Cons b) (utf8_decode bs)
     else (case bs of
         [] \<Rightarrow> None
       | b' # bs' \<Rightarrow> (let m = (of_char b' :: nat) in
           if (n = 194 \<or> n = 195) \<and> 128 \<le> m \<and> m < 192
           then map_option (Cons (char_of ((n - 192) * 64 + (m - 128)))) (utf8_decode bs')
           else None)))"

lemma two_high_bits: "128 \<le> n \<Longrightarrow> n < 256 \<Longrightarrow> n div 64 = 2 \<or> n div 64 = 3" for n :: nat
  using div_le_mono [of 128 n 64] div_le_mono [of n 255 64] by auto

lemma utf8_decode_char: "utf8_decode (utf8_char c @ bs) = map_option (Cons c) (utf8_decode bs)"
proof (cases "(of_char c :: nat) < 128")
  case False
  let ?n = "of_char c :: nat"
  have n: "?n < 256" by (rule of_char_lt)
  have d: "?n div 64 = 2 \<or> ?n div 64 = 3" using n False by (intro two_high_bits) simp_all
  have m: "?n mod 64 < 64" "(?n div 64) * 64 + ?n mod 64 = ?n" by simp_all
  have b: "(of_char (char_of (192 + ?n div 64) :: char) :: nat) = 192 + ?n div 64"
      "(of_char (char_of (128 + ?n mod 64) :: char) :: nat) = 128 + ?n mod 64"
    using d m(1) by (auto simp: of_char_of)
  show ?thesis using False d m b by (auto simp: utf8_char_def Let_def)
qed (simp add: utf8_char_def)

lemma utf8_decode_encode [simp]: "utf8_decode (utf8_encode s) = Some s"
  by (induction s) (simp_all add: utf8_encode_def utf8_decode_char)

text \<open>Decoding succeeds on encodings only.\<close>

lemma utf8_two_bytes:
  assumes "(of_char b :: nat) = 194 \<or> (of_char b :: nat) = 195" and "128 \<le> (of_char b' :: nat)" and "(of_char b' :: nat) < 192"
  shows "utf8_char (char_of ((of_char b - 192) * 64 + (of_char b' - 128 :: nat))) = [b, b']"
proof -
  let ?n = "of_char b :: nat" and ?m = "of_char b' :: nat"
  have k: "(of_char (char_of ((?n - 192) * 64 + (?m - 128)) :: char) :: nat) = (?n - 192) * 64 + (?m - 128)"
    using assms by (auto simp: of_char_of)
  have "(x * 64 + y) div 64 = x \<and> (x * 64 + y) mod 64 = y" if "y < 64" for x y :: nat using that by simp
  moreover have "?m - 128 < 64" using assms(2,3) by linarith
  ultimately have "((?n - 192) * 64 + (?m - 128)) div 64 = ?n - 192 \<and> ((?n - 192) * 64 + (?m - 128)) mod 64 = ?m - 128" .
  moreover have "char_of ?n = b" "char_of ?m = b'" by simp_all
  ultimately show ?thesis using assms k by (auto simp: utf8_char_def Let_def)
qed

lemma utf8_encode_decode: "utf8_decode bs = Some t \<Longrightarrow> utf8_encode t = bs"
proof (induction bs arbitrary: t rule: utf8_decode.induct)
  case (2 b bs)
  show ?case
  proof (cases "(of_char b :: nat) < 128")
    case True
    with 2 show ?thesis by (auto simp: utf8_encode_def utf8_char_def)
  next
    case False
    with "2.prems" obtain b' bs' u where bs: "bs = b' # bs'" "(of_char b :: nat) = 194 \<or> (of_char b :: nat) = 195"
        "128 \<le> (of_char b' :: nat)" "(of_char b' :: nat) < 192" "utf8_decode bs' = Some u"
        "t = char_of ((of_char b - 192) * 64 + (of_char b' - 128 :: nat)) # u"
      by (auto simp: Let_def split: list.splits if_splits)
    have "utf8_encode u = bs'" using "2.IH"(2) [OF refl False bs(1) refl] bs by auto
    then show ?thesis using bs(1,6) utf8_two_bytes [OF bs(2-4)] by (simp add: utf8_encode_def)
  qed
qed (simp add: utf8_encode_def)

section \<open>Scopes and digests\<close>

text \<open>
  What comes from outside: SHA-256, the \<open>repr\<close> text of a floating-point number of a given value, the rounded
  difference of two of them, and the row SQLite returns first among rows that a query orders equally.
\<close>

text \<open>\<open>canonical\<close>; the values below hold text, \<open>None\<close> and finite numbers only, so that \<open>dumps\<close> never raises on them.\<close>

definition canonical :: "pyval \<Rightarrow> string" where
  "canonical v = (case json_dumps True True v of Inr s \<Rightarrow> s | Inl e \<Rightarrow> [])"

lemma canonical_dumps: "json_ok v \<Longrightarrow> json_dumps True True v = Inr (canonical v)"
  using json_dumps_succeeds [of v True True] by (auto simp: canonical_def)

record scope =
  project_id :: string
  repository_id :: string
  task_id :: string
  campaign_id :: "string option"
  attempt_id :: "string option"

definition required_text :: "string \<Rightarrow> pyval \<Rightarrow> string res" where
  "required_text msg v = (case v of
       PStr s \<Rightarrow> if strip s = [] then Inl (ValueError, msg) else Inr s
     | _ \<Rightarrow> Inl (ValueError, msg))"

definition optional_text :: "string \<Rightarrow> pyval \<Rightarrow> string option res" where
  "optional_text msg v = (if v = PNone then Inr None else bindr (required_text msg v) (\<lambda>s. Inr (Some s)))"

definition scope_init :: "pyval \<Rightarrow> pyval \<Rightarrow> pyval \<Rightarrow> pyval \<Rightarrow> pyval \<Rightarrow> scope res" where
  "scope_init p r t c a =
     bindr (required_text ''project_id is required'' p) (\<lambda>p'.
     bindr (required_text ''repository_id is required'' r) (\<lambda>r'.
     bindr (required_text ''task_id is required'' t) (\<lambda>t'.
     bindr (optional_text ''campaign_id must be a non-empty string when present'' c) (\<lambda>c'.
     bindr (optional_text ''attempt_id must be a non-empty string when present'' a) (\<lambda>a'.
       Inr \<lparr>project_id = p', repository_id = r', task_id = t', campaign_id = c', attempt_id = a'\<rparr>)))))"

section \<open>Tables\<close>

text \<open>The columns of \<open>items\<close> that the caller of \<open>ingest\<close> supplies, and the row with the columns the store adds.\<close>

record ingest_request =
  session_id :: string
  window_id :: string
  producer_id :: string
  role :: string
  payload :: string
  source_type :: string
  idempotency_key :: string
  subject_revision :: "string option"
  source_ref :: "string option"
  tool_namespace :: "string option"
  tool_name :: "string option"
  retention_class :: string

record item_row = ingest_request +
  item_id :: string
  scope_digest :: string
  row_project_id :: string
  row_repository_id :: string
  row_task_id :: string
  row_campaign_id :: "string option"
  row_attempt_id :: "string option"
  created_at :: rat
  content_digest :: string
  request_digest :: string
  record_digest :: string
  authority_class :: string

text \<open>A row of \<open>checkpoints\<close>; \<open>item_refs\<close> is the value the JSON text in the column denotes.\<close>

record checkpoint_row =
  checkpoint_id :: string
  cp_scope_digest :: string
  cp_session_id :: string
  cp_window_id :: string
  cp_producer_id :: string
  hint :: string
  item_refs :: pyval
  checkpoint_digest :: string
  cp_created_at :: rat

record context_db =
  items :: "item_row list"
  checkpoints :: "checkpoint_row list"

definition empty_db :: context_db where
  "empty_db = \<lparr>items = [], checkpoints = []\<rparr>"

record platform =
  sha256 :: "string \<Rightarrow> string"
  float_repr :: "rat \<Rightarrow> string"
  float_minus :: "rat \<Rightarrow> rat \<Rightarrow> rat"
  sql_first :: "checkpoint_row list \<Rightarrow> checkpoint_row"

definition digest_of :: "platform \<Rightarrow> pyval \<Rightarrow> string" where
  "digest_of P v = sha256 P (canonical v)"

definition py_time :: "platform \<Rightarrow> rat \<Rightarrow> pyval" where
  "py_time P t = PFloat (FFin t (float_repr P t))"

definition scope_dict :: "scope \<Rightarrow> dict" where
  "scope_dict s =
     [(''project_id'', PStr (project_id s)), (''repository_id'', PStr (repository_id s)),
      (''task_id'', PStr (task_id s)), (''campaign_id'', opt_str (campaign_id s)),
      (''attempt_id'', opt_str (attempt_id s))]"

definition scope_digest_of :: "platform \<Rightarrow> scope \<Rightarrow> string" where
  "scope_digest_of P s = digest_of P (PDict (scope_dict s))"

text \<open>The authority class of every row and receipt.\<close>

definition working_context :: string where
  "working_context = ''WORKING_CONTEXT_NON_AUTHORITATIVE''"

text \<open>The dictionaries that the request digest and the record digest are taken of.\<close>

definition request_dict :: "platform \<Rightarrow> scope \<Rightarrow> string \<Rightarrow> 'a ingest_request_scheme \<Rightarrow> dict" where
  "request_dict P s payload_text q =
     (''scope'', PStr (scope_digest_of P s)) # scope_dict s @
     [(''session_id'', PStr (session_id q)), (''window_id'', PStr (window_id q)),
      (''producer_id'', PStr (producer_id q)), (''role'', PStr (role q)), (''payload'', PStr payload_text),
      (''source_type'', PStr (source_type q)), (''source_ref'', opt_str (source_ref q)),
      (''subject_revision'', opt_str (subject_revision q)), (''tool_namespace'', opt_str (tool_namespace q)),
      (''tool_name'', opt_str (tool_name q)), (''retention_class'', PStr (retention_class q)),
      (''idempotency_key'', PStr (idempotency_key q))]"

definition record_dict :: "platform \<Rightarrow> item_row \<Rightarrow> dict" where
  "record_dict P r =
     [(''item_id'', PStr (item_id r)), (''scope_digest'', PStr (scope_digest r)),
      (''project_id'', PStr (row_project_id r)), (''repository_id'', PStr (row_repository_id r)),
      (''task_id'', PStr (row_task_id r)), (''campaign_id'', opt_str (row_campaign_id r)),
      (''attempt_id'', opt_str (row_attempt_id r)), (''created_at'', py_time P (created_at r)),
      (''idempotency_key'', PStr (idempotency_key r)), (''request_digest'', PStr (request_digest r)),
      (''content_digest'', PStr (content_digest r)), (''authority_class'', PStr (authority_class r)),
      (''retention_class'', PStr (retention_class r))]"

section \<open>The store\<close>

definition integrity_failure :: exn where
  "integrity_failure = (OtherError ''IntegrityError'', ''INTEGRITY_FAILURE'')"

definition validate_item_row :: "platform \<Rightarrow> scope \<Rightarrow> item_row \<Rightarrow> string res" where
  "validate_item_row P s r =
     (if scope_digest r \<noteq> scope_digest_of P s then Inl integrity_failure
      else if sha256 P (payload r) \<noteq> content_digest r then Inl integrity_failure
      else (case utf8_decode (payload r) of
          None \<Rightarrow> Inl integrity_failure
        | Some t \<Rightarrow>
            if digest_of P (PDict (request_dict P s t r)) \<noteq> request_digest r \<or> authority_class r \<noteq> working_context
            then Inl integrity_failure
            else if digest_of P (PDict (record_dict P r)) \<noteq> record_digest r then Inl integrity_failure
            else Inr (payload r)))"

text \<open>\<open>ContextStore.__init__\<close>: \<open>root\<close> is \<open>None\<close> or the text of the path.\<close>

record context_store =
  ttl_seconds :: "rat option"
  max_items :: "int option"

definition context_store_init :: "string option \<Rightarrow> rat option \<Rightarrow> int option \<Rightarrow> context_store res" where
  "context_store_init root_path ttl mx =
     (case root_path of
        None \<Rightarrow> Inl (ValueError, ''explicit store root is required'')
      | Some p \<Rightarrow> if strip p = [] then Inl (ValueError, ''explicit store root is required'')
                  else Inr \<lparr>ttl_seconds = ttl, max_items = mx\<rparr>)"

text \<open>The keyword arguments of \<open>ingest\<close>; \<open>arg_payload\<close> is \<open>None\<close> for a value that is not of class \<open>bytes\<close>.\<close>

record ingest_call =
  arg_session_id :: pyval
  arg_window_id :: pyval
  arg_producer_id :: pyval
  arg_role :: pyval
  arg_payload :: "string option"
  arg_source_type :: pyval
  arg_idempotency_key :: pyval
  arg_subject_revision :: "string option"
  arg_source_ref :: "string option"
  arg_tool_namespace :: "string option"
  arg_tool_name :: "string option"
  arg_retention_class :: string

definition check_call :: "ingest_call \<Rightarrow> ingest_request res" where
  "check_call a =
     bindr (raise_if (arg_source_type a = PStr ''retrieval_echo'') ValueError
              ''retrieval_echo cannot be indexed as a primary observation'') (\<lambda>_.
     (case arg_payload a of
        None \<Rightarrow> Inl (ValueError, ''payload must be non-empty bytes'')
      | Some b \<Rightarrow>
     bindr (raise_if (b = []) ValueError ''payload must be non-empty bytes'') (\<lambda>_.
     bindr (raise_if (utf8_decode b = None) (OtherError ''UnicodeDecodeError'') ''utf-8'') (\<lambda>_.
     bindr (required_text ''session_id must be non-empty'' (arg_session_id a)) (\<lambda>se.
     bindr (required_text ''window_id must be non-empty'' (arg_window_id a)) (\<lambda>wi.
     bindr (required_text ''producer_id must be non-empty'' (arg_producer_id a)) (\<lambda>pr.
     bindr (required_text ''role must be non-empty'' (arg_role a)) (\<lambda>ro.
     bindr (required_text ''source_type must be non-empty'' (arg_source_type a)) (\<lambda>so.
     bindr (required_text ''idempotency_key must be non-empty'' (arg_idempotency_key a)) (\<lambda>ik.
       Inr \<lparr>session_id = se, window_id = wi, producer_id = pr, role = ro, payload = b, source_type = so,
            idempotency_key = ik, subject_revision = arg_subject_revision a, source_ref = arg_source_ref a,
            tool_namespace = arg_tool_namespace a, tool_name = arg_tool_name a,
            retention_class = arg_retention_class a\<rparr>))))))))))"

record ingest_receipt =
  receipt_item_id :: string
  receipt_content_digest :: string
  receipt_request_digest :: string
  receipt_idempotency_key :: string
  replayed :: bool
  receipt_authority :: string

text \<open>\<open>_item_id\<close>, with the hexadecimal text of the fresh identifier as argument.\<close>

definition new_item_id :: "string \<Rightarrow> string" where
  "new_item_id u = ''ctx_'' @ u"

text \<open>The row that \<open>ingest\<close> inserts.\<close>

definition request_digest_of :: "platform \<Rightarrow> scope \<Rightarrow> 'a ingest_request_scheme \<Rightarrow> string" where
  "request_digest_of P s q = digest_of P (PDict (request_dict P s (the (utf8_decode (payload q))) q))"

definition unsealed_row :: "platform \<Rightarrow> scope \<Rightarrow> ingest_request \<Rightarrow> rat \<Rightarrow> string \<Rightarrow> item_row" where
  "unsealed_row P s q now u = ingest_request.extend q
     (item_row.fields (new_item_id u) (scope_digest_of P s) (project_id s) (repository_id s) (task_id s)
        (campaign_id s) (attempt_id s) now (sha256 P (payload q)) (request_digest_of P s q) [] working_context)"

definition new_row :: "platform \<Rightarrow> scope \<Rightarrow> ingest_request \<Rightarrow> rat \<Rightarrow> string \<Rightarrow> item_row" where
  "new_row P s q now u = (let r = unsealed_row P s q now u in
     r\<lparr>record_digest := digest_of P (PDict (record_dict P r))\<rparr>)"

text \<open>\<open>SELECT COUNT(*) ... >= max_items\<close>.\<close>

definition quota_reached :: "context_store \<Rightarrow> string \<Rightarrow> context_db \<Rightarrow> bool" where
  "quota_reached st sd db = (case max_items st of
       None \<Rightarrow> False
     | Some m \<Rightarrow> m \<le> int (length (filter (\<lambda>r. scope_digest r = sd) (items db))))"

definition receipt_of :: "item_row \<Rightarrow> bool \<Rightarrow> ingest_receipt" where
  "receipt_of r again = \<lparr>receipt_item_id = item_id r, receipt_content_digest = content_digest r,
     receipt_request_digest = request_digest r, receipt_idempotency_key = idempotency_key r,
     replayed = again, receipt_authority = working_context\<rparr>"

text \<open>The transaction of \<open>ingest\<close>: every exception rolls back. Identifiers are the primary key of the table.\<close>

definition ingest_request_locked ::
  "platform \<Rightarrow> context_store \<Rightarrow> rat \<Rightarrow> string \<Rightarrow> scope \<Rightarrow> ingest_request \<Rightarrow> context_db \<Rightarrow> ingest_receipt res \<times> context_db" where
  "ingest_request_locked P st now u s q db =
     (case find (\<lambda>r. scope_digest r = scope_digest_of P s \<and> idempotency_key r = idempotency_key q) (items db) of
        Some existing \<Rightarrow>
          (case validate_item_row P s existing of
             Inl e \<Rightarrow> (Inl e, db)
           | Inr _ \<Rightarrow>
               if request_digest existing \<noteq> request_digest_of P s q
               then (Inl (OtherError ''IdempotencyConflict'', ''IDEMPOTENCY_CONFLICT''), db)
               else (Inr (receipt_of existing True), db))
      | None \<Rightarrow>
          if quota_reached st (scope_digest_of P s) db
          then (Inl (OtherError ''QuotaExceeded'', ''QUOTA_EXCEEDED''), db)
          else if \<exists>r \<in> set (items db). item_id r = new_item_id u
          then (Inl (OtherError ''sqlite3.IntegrityError'', ''UNIQUE constraint failed: items.item_id''), db)
          else (Inr (receipt_of (new_row P s q now u) False), db\<lparr>items := items db @ [new_row P s q now u]\<rparr>))"

definition ingest ::
  "platform \<Rightarrow> context_store \<Rightarrow> rat \<Rightarrow> string \<Rightarrow> scope \<Rightarrow> ingest_call \<Rightarrow> context_db \<Rightarrow> ingest_receipt res \<times> context_db" where
  "ingest P st now u s a db =
     (case check_call a of
        Inl e \<Rightarrow> (Inl e, db)
      | Inr q \<Rightarrow> ingest_request_locked P st now u s q db)"

subsection \<open>Checkpoints\<close>

text \<open>What \<open>sqlite3\<close> accepts as a parameter of a statement.\<close>

fun bindable :: "pyval \<Rightarrow> bool" where
  "bindable (PList _) = False"
| "bindable (PTuple _) = False"
| "bindable (PDict _) = False"
| "bindable (PObj _) = False"
| "bindable _ = True"

text \<open>\<open>SELECT 1 FROM items WHERE scope_digest=? AND item_id=?\<close> for one reference.\<close>

definition check_ref :: "string \<Rightarrow> context_db \<Rightarrow> pyval \<Rightarrow> unit res" where
  "check_ref sd db x =
     (if \<not> bindable x then Inl (OtherError ''sqlite3.ProgrammingError'', ''Error binding parameter 2'')
      else raise_if (\<not> (\<exists>r \<in> set (items db). scope_digest r = sd \<and> PStr (item_id r) = x)) ValueError ''ITEM_REF_NOT_FOUND'')"

definition checkpoint_dict :: "platform \<Rightarrow> string \<Rightarrow> pyval list \<Rightarrow> checkpoint_row \<Rightarrow> dict" where
  "checkpoint_dict P hint_text refs c =
     [(''checkpoint_id'', PStr (checkpoint_id c)), (''created_at'', py_time P (cp_created_at c)),
      (''scope'', PStr (cp_scope_digest c)), (''session_id'', PStr (cp_session_id c)),
      (''window_id'', PStr (cp_window_id c)), (''producer_id'', PStr (cp_producer_id c)),
      (''hint'', PStr hint_text), (''item_refs'', PList refs)]"

record checkpoint_call =
  call_session_id :: string
  call_window_id :: string
  call_producer_id :: string
  call_hint :: string
  call_item_refs :: pyval

record checkpoint_receipt =
  receipt_checkpoint_id :: string
  receipt_checkpoint_digest :: string
  receipt_hint :: string
  receipt_item_refs :: pyval
  receipt_cp_authority :: string

definition unsealed_checkpoint :: "platform \<Rightarrow> scope \<Rightarrow> checkpoint_call \<Rightarrow> pyval list \<Rightarrow> rat \<Rightarrow> string \<Rightarrow> checkpoint_row" where
  "unsealed_checkpoint P s a refs now u =
     \<lparr>checkpoint_id = ''cp_'' @ u, cp_scope_digest = scope_digest_of P s, cp_session_id = call_session_id a,
      cp_window_id = call_window_id a, cp_producer_id = call_producer_id a, hint = utf8_encode (call_hint a),
      item_refs = PList refs, checkpoint_digest = [], cp_created_at = now\<rparr>"

definition new_checkpoint :: "platform \<Rightarrow> scope \<Rightarrow> checkpoint_call \<Rightarrow> pyval list \<Rightarrow> rat \<Rightarrow> string \<Rightarrow> checkpoint_row" where
  "new_checkpoint P s a refs now u = (let c = unsealed_checkpoint P s a refs now u in
     c\<lparr>checkpoint_digest := digest_of P (PDict (checkpoint_dict P (call_hint a) refs c))\<rparr>)"

definition store_checkpoint ::
  "platform \<Rightarrow> rat \<Rightarrow> string \<Rightarrow> scope \<Rightarrow> checkpoint_call \<Rightarrow> context_db \<Rightarrow> checkpoint_receipt res \<times> context_db" where
  "store_checkpoint P now u s a db =
     (if 4096 < length (utf8_encode (call_hint a)) then (Inl (ValueError, ''CHECKPOINT_TOO_LARGE''), db)
      else (case call_item_refs a of
          PTuple refs \<Rightarrow>
            if 64 < length refs then (Inl (ValueError, ''invalid item_refs''), db)
            else (case map_res (check_ref (scope_digest_of P s) db) refs of
                Inl e \<Rightarrow> (Inl e, db)
              | Inr _ \<Rightarrow>
                  let c = new_checkpoint P s a refs now u in
                  if \<exists>c' \<in> set (checkpoints db). checkpoint_id c' = checkpoint_id c
                  then (Inl (OtherError ''sqlite3.IntegrityError'', ''UNIQUE constraint failed: checkpoints.checkpoint_id''), db)
                  else (Inr \<lparr>receipt_checkpoint_id = checkpoint_id c, receipt_checkpoint_digest = checkpoint_digest c,
                             receipt_hint = call_hint a, receipt_item_refs = PTuple refs,
                             receipt_cp_authority = working_context\<rparr>,
                        db\<lparr>checkpoints := checkpoints db @ [c]\<rparr>))
        | _ \<Rightarrow> (Inl (ValueError, ''invalid item_refs''), db)))"

text \<open>\<open>ORDER BY created_at DESC LIMIT 1\<close>: one of the rows with the latest time.\<close>

definition latest_checkpoint :: "platform \<Rightarrow> scope \<Rightarrow> context_db \<Rightarrow> checkpoint_row option" where
  "latest_checkpoint P s db =
     (let rows = filter (\<lambda>c. cp_scope_digest c = scope_digest_of P s) (checkpoints db) in
      if rows = [] then None
      else Some (sql_first P (filter (\<lambda>c. \<forall>c' \<in> set rows. cp_created_at c' \<le> cp_created_at c) rows)))"

subsection \<open>Search and read\<close>

text \<open>\<open>created_at < now - ttl_seconds\<close>.\<close>

definition expired :: "platform \<Rightarrow> context_store \<Rightarrow> rat \<Rightarrow> rat \<Rightarrow> bool" where
  "expired P st now t = (case ttl_seconds st of None \<Rightarrow> False | Some d \<Rightarrow> t < float_minus P now d)"

definition cursor_of :: "string option \<Rightarrow> string option" where
  "cursor_of c = (if c = Some [] then None else c)"

definition row_matches :: "platform \<Rightarrow> context_store \<Rightarrow> rat \<Rightarrow> scope \<Rightarrow> string \<Rightarrow> item_row \<Rightarrow> bool" where
  "row_matches P st now s q r \<longleftrightarrow>
     scope_digest r = scope_digest_of P s \<and> \<not> expired P st now (created_at r) \<and> contains_text (utf8_encode q) (payload r)"

definition store_search ::
  "platform \<Rightarrow> context_store \<Rightarrow> rat \<Rightarrow> scope \<Rightarrow> string \<Rightarrow> int \<Rightarrow> string option \<Rightarrow> context_db \<Rightarrow> item_row list" where
  "store_search P st now s q limit c db =
     take (nat (limit + 1)) (sort_key item_id
       (filter (\<lambda>r. row_matches P st now s q r \<and> above (cursor_of c) (item_id r)) (items db)))"

definition store_read :: "platform \<Rightarrow> scope \<Rightarrow> string \<Rightarrow> context_db \<Rightarrow> item_row option" where
  "store_read P s i db = find (\<lambda>r. scope_digest r = scope_digest_of P s \<and> item_id r = i) (items db)"

section \<open>The service\<close>

record access_policy =
  can_read :: "scope \<Rightarrow> string \<Rightarrow> bool"
  can_write :: "scope \<Rightarrow> string \<Rightarrow> bool"

definition allow_all_fixture_policy :: access_policy where
  "allow_all_fixture_policy = \<lparr>can_read = (\<lambda>s p. p \<noteq> []), can_write = (\<lambda>s p. p \<noteq> [])\<rparr>"

record context_service =
  authenticated_principal :: string
  policy :: access_policy
  store :: context_store

definition service_init ::
  "string option \<Rightarrow> pyval \<Rightarrow> access_policy option \<Rightarrow> rat option \<Rightarrow> int option \<Rightarrow> context_service res" where
  "service_init root_path who pol ttl mx =
     (case pol of
        None \<Rightarrow> Inl (ValueError, ''trusted access_policy is required'')
      | Some p \<Rightarrow>
          bindr (required_text ''authenticated_principal is required'' who) (\<lambda>a.
          bindr (context_store_init root_path ttl mx) (\<lambda>st.
            Inr \<lparr>authenticated_principal = a, policy = p, store = st\<rparr>)))"

definition allowed :: "context_service \<Rightarrow> scope \<Rightarrow> bool \<Rightarrow> bool" where
  "allowed sv s write = (if write then can_write (policy sv) s (authenticated_principal sv)
                         else can_read (policy sv) s (authenticated_principal sv))"

definition scope_denied :: exn where
  "scope_denied = (OtherError ''PermissionError'', ''SCOPE_DENIED'')"

definition service_ingest ::
  "platform \<Rightarrow> context_service \<Rightarrow> rat \<Rightarrow> string \<Rightarrow> scope \<Rightarrow> ingest_call \<Rightarrow> context_db \<Rightarrow> ingest_receipt res \<times> context_db" where
  "service_ingest P sv now u s a db =
     (if \<not> allowed sv s True then (Inl scope_denied, db) else ingest P (store sv) now u s a db)"

definition service_checkpoint ::
  "platform \<Rightarrow> context_service \<Rightarrow> rat \<Rightarrow> string \<Rightarrow> scope \<Rightarrow> checkpoint_call \<Rightarrow> context_db \<Rightarrow> checkpoint_receipt res \<times> context_db" where
  "service_checkpoint P sv now u s a db =
     (if \<not> allowed sv s True then (Inl scope_denied, db) else store_checkpoint P now u s a db)"

record resume_bundle =
  bundle_hint :: string
  bundle_checkpoint_id :: "string option"
  bundle_item_refs :: "pyval list"
  bundle_authority :: string

definition resume :: "platform \<Rightarrow> context_service \<Rightarrow> rat \<Rightarrow> scope \<Rightarrow> context_db \<Rightarrow> resume_bundle res" where
  "resume P sv now s db =
     bindr (if allowed sv s False then Inr () else Inl scope_denied) (\<lambda>_.
     (case latest_checkpoint P s db of
        None \<Rightarrow> Inr \<lparr>bundle_hint = [], bundle_checkpoint_id = None, bundle_item_refs = [], bundle_authority = working_context\<rparr>
      | Some c \<Rightarrow>
          bindr (raise_if (expired P (store sv) now (cp_created_at c)) ValueError ''CHECKPOINT_EXPIRED'') (\<lambda>_.
          bindr (py_iter (item_refs c)) (\<lambda>refs.
          (case utf8_decode (hint c) of
             None \<Rightarrow> Inl (OtherError ''UnicodeDecodeError'', ''utf-8'')
           | Some h \<Rightarrow>
               bindr (raise_if (digest_of P (PDict (checkpoint_dict P h refs (c\<lparr>cp_scope_digest := scope_digest_of P s\<rparr>)))
                                  \<noteq> checkpoint_digest c)
                        (OtherError ''IntegrityError'') ''CHECKPOINT_INTEGRITY_FAILURE'') (\<lambda>_.
               Inr \<lparr>bundle_hint = h, bundle_checkpoint_id = Some (checkpoint_id c), bundle_item_refs = refs,
                    bundle_authority = working_context\<rparr>))))))"

record search_hit =
  hit_item_id :: string
  hit_session_id :: string
  hit_window_id :: string
  hit_role :: string
  hit_source_type :: string
  hit_subject_revision :: "string option"
  hit_content_digest :: string
  hit_authority :: string

definition hit_of :: "item_row \<Rightarrow> search_hit" where
  "hit_of r = \<lparr>hit_item_id = item_id r, hit_session_id = session_id r, hit_window_id = window_id r, hit_role = role r,
     hit_source_type = source_type r, hit_subject_revision = subject_revision r, hit_content_digest = content_digest r,
     hit_authority = working_context\<rparr>"

record search_page =
  page_items :: "search_hit list"
  next_cursor :: "string option"
  page_authority :: string

definition search ::
  "platform \<Rightarrow> context_service \<Rightarrow> rat \<Rightarrow> scope \<Rightarrow> pyval \<Rightarrow> int \<Rightarrow> string option \<Rightarrow> context_db \<Rightarrow> search_page res" where
  "search P sv now s query limit c db =
     bindr (if allowed sv s False then Inr () else Inl scope_denied) (\<lambda>_.
     (case query of
        PStr q \<Rightarrow>
          bindr (raise_if (q = []) ValueError ''literal query is required'') (\<lambda>_.
          bindr (raise_if (\<not> (1 \<le> limit \<and> limit \<le> 20)) ValueError ''limit must be between 1 and 20'') (\<lambda>_.
          let rows = store_search P (store sv) now s q limit c db in
          bindr (map_res (validate_item_row P s) rows) (\<lambda>_.
          let hits = map hit_of (take (nat limit) rows) in
          Inr \<lparr>page_items = hits,
               next_cursor = (if limit < int (length rows) \<and> hits \<noteq> [] then Some (hit_item_id (last hits)) else None),
               page_authority = working_context\<rparr>)))
      | _ \<Rightarrow> Inl (ValueError, ''literal query is required'')))"

record read_item_result =
  result_item_id :: string
  result_payload :: string
  result_content_digest :: string
  result_source_type :: string
  result_subject_revision :: "string option"
  freshness :: string
  result_byte_start :: int
  result_byte_end :: int
  result_authority :: string

text \<open>\<open>payload[i:j]\<close> for \<open>0 \<le> i\<close> and \<open>0 \<le> j\<close>.\<close>

definition py_slice :: "'a list \<Rightarrow> int \<Rightarrow> int \<Rightarrow> 'a list" where
  "py_slice xs i j = take (nat j - nat i) (drop (nat i) xs)"

definition freshness_of :: "string option \<Rightarrow> string option \<Rightarrow> string" where
  "freshness_of current subject = (case current of
       None \<Rightarrow> ''UNKNOWN_FRESHNESS''
     | Some c \<Rightarrow> if Some c = subject then ''CURRENT'' else ''STALE_FOR_EXECUTION'')"

definition read_item ::
  "platform \<Rightarrow> context_service \<Rightarrow> rat \<Rightarrow> scope \<Rightarrow> string \<Rightarrow> int \<Rightarrow> int option \<Rightarrow> string option \<Rightarrow> context_db \<Rightarrow>
     read_item_result res" where
  "read_item P sv now s i byte_start byte_end current db =
     bindr (if allowed sv s False then Inr () else Inl scope_denied) (\<lambda>_.
     bindr (raise_if (byte_start < 0 \<or> (case byte_end of None \<Rightarrow> False | Some e \<Rightarrow> e < byte_start)) ValueError
              ''invalid byte range'') (\<lambda>_.
     (case store_read P s i db of
        None \<Rightarrow> Inl (KeyError, ''ITEM_NOT_FOUND'')
      | Some r \<Rightarrow>
          bindr (validate_item_row P s r) (\<lambda>b.
          bindr (raise_if (expired P (store sv) now (created_at r)) ValueError ''ITEM_EXPIRED'') (\<lambda>_.
          let e = (case byte_end of None \<Rightarrow> int (length b) | Some e \<Rightarrow> e) in
          bindr (raise_if (65536 < e - byte_start) ValueError ''READ_TOO_LARGE'') (\<lambda>_.
          bindr (raise_if (int (length b) < e) ValueError ''READ_RANGE_OUT_OF_BOUNDS'') (\<lambda>_.
          Inr \<lparr>result_item_id = i, result_payload = py_slice b byte_start e, result_content_digest = content_digest r,
               result_source_type = source_type r, result_subject_revision = subject_revision r,
               freshness = freshness_of current (subject_revision r), result_byte_start = byte_start,
               result_byte_end = e, result_authority = working_context\<rparr>)))))))"

section \<open>Histories\<close>

text \<open>
  The operations that change the database, by services that share it, in the order of their transactions; each
  with the time it reads and the identifier it draws. \<open>exec_ops\<close> runs them one after another.
\<close>

datatype context_op =
    Ingest context_service rat string scope ingest_call
  | Checkpoint context_service rat string scope checkpoint_call

fun exec_op :: "platform \<Rightarrow> context_op \<Rightarrow> context_db \<Rightarrow> context_db" where
  "exec_op P (Ingest sv now u s a) db = snd (service_ingest P sv now u s a db)"
| "exec_op P (Checkpoint sv now u s a) db = snd (service_checkpoint P sv now u s a db)"

definition exec_ops :: "platform \<Rightarrow> context_op list \<Rightarrow> context_db \<Rightarrow> context_db" where
  "exec_ops P ops db = fold (exec_op P) ops db"

section \<open>What the digests bind\<close>

text \<open>The texts that are digested.\<close>

definition scope_text :: "scope \<Rightarrow> string" where
  "scope_text s = canonical (PDict (scope_dict s))"

definition request_text :: "platform \<Rightarrow> scope \<Rightarrow> 'a ingest_request_scheme \<Rightarrow> string" where
  "request_text P s q = canonical (PDict (request_dict P s (the (utf8_decode (payload q))) q))"

definition record_text :: "platform \<Rightarrow> item_row \<Rightarrow> string" where
  "record_text P r = canonical (PDict (record_dict P r))"

text \<open>Two texts that a digest confuses.\<close>

definition clash :: "platform \<Rightarrow> string \<Rightarrow> string \<Rightarrow> bool" where
  "clash P x y \<longleftrightarrow> x \<noteq> y \<and> sha256 P x = sha256 P y"

lemma canonical_fields:
  assumes "canonical (PDict d) = canonical (PDict e)" and "json_ok (PDict d)" and "json_ok (PDict e)"
    and "float_texts (PDict d)" and "float_texts (PDict e)"
  shows "map_option json_shape (map_of d k) = map_option json_shape (map_of e k)"
proof -
  have "json_dumps True True (PDict d) = Inr (canonical (PDict d))" "json_dumps True True (PDict e) = Inr (canonical (PDict d))"
    using canonical_dumps [OF assms(2)] canonical_dumps [OF assms(3)] assms(1) by simp_all
  then show ?thesis by (rule json_shape_fields [OF json_dumps_determines_shape [OF _ _ assms(4,5)]])
qed

lemma opt_str_plain [simp]: "json_ok (opt_str x)" "float_texts (opt_str x)" "json_shape (opt_str x) = opt_str x"
  by (cases x; simp add: opt_str_def)+

lemma opt_str_inject [simp]: "opt_str x = opt_str y \<longleftrightarrow> x = y"
  by (cases x; cases y; simp add: opt_str_def)

lemma scope_dict_plain: "json_ok (PDict (scope_dict s))" "float_texts (PDict (scope_dict s))"
  by (simp_all add: scope_dict_def)

lemma request_dict_plain: "json_ok (PDict (request_dict P s t q))" "float_texts (PDict (request_dict P s t q))"
  by (simp_all add: request_dict_def scope_dict_def)

lemma scope_text_inject:
  assumes "scope_text s = scope_text s'"
  shows "s = s'"
proof -
  note f = canonical_fields [OF assms [unfolded scope_text_def] scope_dict_plain(1,1,2,2)]
  show ?thesis
    using f [of "''project_id''"] f [of "''repository_id''"] f [of "''task_id''"] f [of "''campaign_id''"] f [of "''attempt_id''"]
    by (simp add: scope_dict_def)
qed

lemma request_text_inject:
  assumes "request_text P s q = request_text P s' q'"
  shows "s = s'" and "session_id q = session_id q'" and "window_id q = window_id q'" and "producer_id q = producer_id q'"
    and "role q = role q'" and "source_type q = source_type q'" and "source_ref q = source_ref q'"
    and "subject_revision q = subject_revision q'" and "tool_namespace q = tool_namespace q'" and "tool_name q = tool_name q'"
    and "retention_class q = retention_class q'" and "idempotency_key q = idempotency_key q'"
proof -
  note f = canonical_fields [OF assms [unfolded request_text_def] request_dict_plain(1,1,2,2)]
  note simps = request_dict_def scope_dict_def
  show "s = s'"
    using f [of "''project_id''"] f [of "''repository_id''"] f [of "''task_id''"] f [of "''campaign_id''"] f [of "''attempt_id''"]
    by (simp add: simps)
  show "session_id q = session_id q'" using f [of "''session_id''"] by (simp add: simps)
  show "window_id q = window_id q'" using f [of "''window_id''"] by (simp add: simps)
  show "producer_id q = producer_id q'" using f [of "''producer_id''"] by (simp add: simps)
  show "role q = role q'" using f [of "''role''"] by (simp add: simps)
  show "source_type q = source_type q'" using f [of "''source_type''"] by (simp add: simps)
  show "source_ref q = source_ref q'" using f [of "''source_ref''"] by (simp add: simps)
  show "subject_revision q = subject_revision q'" using f [of "''subject_revision''"] by (simp add: simps)
  show "tool_namespace q = tool_namespace q'" using f [of "''tool_namespace''"] by (simp add: simps)
  show "tool_name q = tool_name q'" using f [of "''tool_name''"] by (simp add: simps)
  show "retention_class q = retention_class q'" using f [of "''retention_class''"] by (simp add: simps)
  show "idempotency_key q = idempotency_key q'" using f [of "''idempotency_key''"] by (simp add: simps)
qed

text \<open>The \<open>repr\<close> texts of times: numbers with a fraction or an exponent, different for different times.\<close>

definition times_printable :: "platform \<Rightarrow> rat set \<Rightarrow> bool" where
  "times_printable P T \<longleftrightarrow> inj_on (float_repr P) T \<and> (\<forall>t \<in> T. float_text (FFin t (float_repr P t)))"

lemma record_dict_plain:
  "json_ok (PDict (record_dict P r))" "times_printable P T \<Longrightarrow> created_at r \<in> T \<Longrightarrow> float_texts (PDict (record_dict P r))"
  by (auto simp: record_dict_def py_time_def times_printable_def)

lemma record_text_inject:
  assumes "record_text P r = record_text P r'" and "times_printable P {created_at r, created_at r'}"
  shows "item_id r = item_id r'" and "scope_digest r = scope_digest r'" and "row_project_id r = row_project_id r'"
    and "row_repository_id r = row_repository_id r'" and "row_task_id r = row_task_id r'"
    and "row_campaign_id r = row_campaign_id r'" and "row_attempt_id r = row_attempt_id r'"
    and "created_at r = created_at r'" and "request_digest r = request_digest r'" and "content_digest r = content_digest r'"
    and "authority_class r = authority_class r'"
proof -
  note plain = record_dict_plain(1) record_dict_plain(2) [OF assms(2)]
  have fl: "float_texts (PDict (record_dict P r))" "float_texts (PDict (record_dict P r'))" by (rule plain(2); simp)+
  note f = canonical_fields [OF assms(1) [unfolded record_text_def] plain(1,1) fl]
  note simps = record_dict_def py_time_def
  show "item_id r = item_id r'" using f [of "''item_id''"] by (simp add: simps)
  show "scope_digest r = scope_digest r'" using f [of "''scope_digest''"] by (simp add: simps)
  show "row_project_id r = row_project_id r'" using f [of "''project_id''"] by (simp add: simps)
  show "row_repository_id r = row_repository_id r'" using f [of "''repository_id''"] by (simp add: simps)
  show "row_task_id r = row_task_id r'" using f [of "''task_id''"] by (simp add: simps)
  show "row_campaign_id r = row_campaign_id r'" using f [of "''campaign_id''"] by (simp add: simps)
  show "row_attempt_id r = row_attempt_id r'" using f [of "''attempt_id''"] by (simp add: simps)
  have "float_repr P (created_at r) = float_repr P (created_at r')" using f [of "''created_at''"] by (simp add: simps)
  then show "created_at r = created_at r'"
    using assms(2) inj_onD [of "float_repr P" "{created_at r, created_at r'}"] unfolding times_printable_def by blast
  show "request_digest r = request_digest r'" using f [of "''request_digest''"] by (simp add: simps)
  show "content_digest r = content_digest r'" using f [of "''content_digest''"] by (simp add: simps)
  show "authority_class r = authority_class r'" using f [of "''authority_class''"] by (simp add: simps)
qed

lemma validate_item_row_iff:
  "validate_item_row P s r = Inr b \<longleftrightarrow>
     b = payload r \<and> scope_digest r = sha256 P (scope_text s) \<and> content_digest r = sha256 P (payload r) \<and>
     utf8_decode (payload r) \<noteq> None \<and> request_digest r = sha256 P (request_text P s r) \<and>
     authority_class r = working_context \<and> record_digest r = sha256 P (record_text P r)"
proof (cases "utf8_decode (payload r)")
  case None
  then show ?thesis by (simp add: validate_item_row_def)
next
  case (Some t)
  have texts: "digest_of P (PDict (request_dict P s t r)) = sha256 P (request_text P s r)"
      "digest_of P (PDict (record_dict P r)) = sha256 P (record_text P r)" "scope_digest_of P s = sha256 P (scope_text s)"
    by (simp_all only: digest_of_def request_text_def record_text_def scope_text_def scope_digest_of_def Some option.sel)
  show ?thesis unfolding validate_item_row_def Some option.case texts by (simp add: eq_commute [of "sha256 P _"]) blast
qed

lemma validate_item_row_error: "validate_item_row P s r = Inl e \<Longrightarrow> e = integrity_failure"
  by (simp add: validate_item_row_def split: if_splits option.splits)

end
