(* ===== verification/Context_Safety.thy ===== *)
theory Context_Safety
  imports Context_Store
begin

text \<open>
  What holds of every database that services have written, in whatever order: items are written once for each
  key, rows stay intact and within the quota, reads return what was ingested under the scope, a search
  followed to its end is complete, and the latest checkpoint is resumed.
\<close>

section \<open>Steps\<close>

lemma required_text_iff: "required_text msg v = Inr s \<longleftrightarrow> v = PStr s \<and> strip s \<noteq> []"
  by (cases v) (auto simp: required_text_def)

lemma check_call_request:
  assumes "check_call a = Inr q"
  shows "arg_payload a = Some (payload q)" and "payload q \<noteq> []" and "utf8_decode (payload q) \<noteq> None"
    and "source_type q \<noteq> ''retrieval_echo''" and "strip (idempotency_key q) \<noteq> []"
    and "subject_revision q = arg_subject_revision a"
  using assms by (auto simp: check_call_def required_text_iff res_simps split: option.splits)

lemma new_row_simps [simp]:
  "item_id (new_row P s q now u) = new_item_id u" "scope_digest (new_row P s q now u) = scope_digest_of P s"
  "row_project_id (new_row P s q now u) = project_id s" "row_repository_id (new_row P s q now u) = repository_id s"
  "row_task_id (new_row P s q now u) = task_id s" "row_campaign_id (new_row P s q now u) = campaign_id s"
  "row_attempt_id (new_row P s q now u) = attempt_id s" "created_at (new_row P s q now u) = now"
  "content_digest (new_row P s q now u) = sha256 P (payload q)" "request_digest (new_row P s q now u) = request_digest_of P s q"
  "authority_class (new_row P s q now u) = working_context" "ingest_request.truncate (new_row P s q now u) = q"
  by (simp_all add: new_row_def unsealed_row_def Let_def ingest_request.defs item_row.defs)

lemma new_row_request [simp]:
  "session_id (new_row P s q now u) = session_id q" "window_id (new_row P s q now u) = window_id q"
  "producer_id (new_row P s q now u) = producer_id q" "role (new_row P s q now u) = role q"
  "payload (new_row P s q now u) = payload q" "source_type (new_row P s q now u) = source_type q"
  "idempotency_key (new_row P s q now u) = idempotency_key q" "subject_revision (new_row P s q now u) = subject_revision q"
  "source_ref (new_row P s q now u) = source_ref q" "tool_namespace (new_row P s q now u) = tool_namespace q"
  "tool_name (new_row P s q now u) = tool_name q" "retention_class (new_row P s q now u) = retention_class q"
  by (simp_all add: new_row_def unsealed_row_def Let_def ingest_request.defs item_row.defs)

lemma request_digest_text: "request_digest_of P s q = sha256 P (request_text P s q)"
  by (simp add: request_digest_of_def request_text_def digest_of_def)

lemma scope_digest_text: "scope_digest_of P s = sha256 P (scope_text s)"
  by (simp add: scope_digest_of_def scope_text_def digest_of_def)

lemma new_row_valid: "utf8_decode (payload q) \<noteq> None \<Longrightarrow> validate_item_row P s (new_row P s q now u) = Inr (payload q)"
proof -
  have "record_digest (new_row P s q now u) = sha256 P (record_text P (new_row P s q now u))"
    by (simp add: new_row_def Let_def digest_of_def record_text_def record_dict_def)
  moreover have "request_text P s (new_row P s q now u) = request_text P s q" by (simp add: request_text_def request_dict_def)
  moreover assume "utf8_decode (payload q) \<noteq> None"
  ultimately show ?thesis by (simp add: validate_item_row_iff scope_digest_text request_digest_text)
qed

text \<open>
  C25 (item_row_sealed). The record digest of a row fixes the row and its scope: two rows that
  pass validation with the same record digest agree in every column and belong to the same scope, unless two
  different texts that were digested (record, request or payload) have the same digest.
\<close>

theorem item_row_sealed:
  assumes "validate_item_row P s r = Inr b" and "validate_item_row P s' r' = Inr b'" and "record_digest r = record_digest r'"
    and "times_printable P {created_at r, created_at r'}"
  shows "(r = r' \<and> s = s') \<or> clash P (record_text P r) (record_text P r') \<or>
    clash P (request_text P s r) (request_text P s' r') \<or> clash P (payload r) (payload r')"
proof (rule disjCI)
  assume no: "\<not> (clash P (record_text P r) (record_text P r') \<or> clash P (request_text P s r) (request_text P s' r') \<or>
    clash P (payload r) (payload r'))"
  note v = assms(1,2) [unfolded validate_item_row_iff]
  have "record_text P r = record_text P r'" using v assms(3) no by (auto simp: clash_def)
  note rec = record_text_inject [OF this assms(4)]
  have "request_text P s r = request_text P s' r'" using v rec(9) no by (auto simp: clash_def)
  note req = request_text_inject [OF this]
  have "payload r = payload r'" using v rec(10) no by (auto simp: clash_def)
  with rec req assms(3) show "r = r' \<and> s = s'" by simp
qed

text \<open>An ingest writes one row, answers from a row that is there, or changes nothing.\<close>

lemma service_ingest_cases:
  assumes "service_ingest P sv now u s a db = (res, db')"
  obtains (refused) e where "res = Inl e" "db' = db"
  | (replay) q r where "allowed sv s True" "check_call a = Inr q" "r \<in> set (items db)" "scope_digest r = scope_digest_of P s"
      "idempotency_key r = idempotency_key q" "validate_item_row P s r = Inr (payload r)" "request_digest r = request_digest_of P s q"
      "res = Inr (receipt_of r True)" "db' = db"
  | (written) q where "allowed sv s True" "check_call a = Inr q"
      "\<forall>r \<in> set (items db). \<not> (scope_digest r = scope_digest_of P s \<and> idempotency_key r = idempotency_key q)"
      "\<not> quota_reached (store sv) (scope_digest_of P s) db" "\<forall>r \<in> set (items db). item_id r \<noteq> new_item_id u"
      "res = Inr (receipt_of (new_row P s q now u) False)" "db' = db\<lparr>items := items db @ [new_row P s q now u]\<rparr>"
proof (cases "allowed sv s True \<and> (\<exists>q. check_call a = Inr q)")
  case False
  then show ?thesis using assms refused by (auto simp: service_ingest_def ingest_def scope_denied_def split: if_splits sum.splits)
next
  case True
  then obtain q where q: "check_call a = Inr q" and al: "allowed sv s True" by blast
  have run: "ingest_request_locked P (store sv) now u s q db = (res, db')"
    using assms q al by (simp add: service_ingest_def ingest_def)
  let ?p = "\<lambda>r. scope_digest r = scope_digest_of P s \<and> idempotency_key r = idempotency_key q"
  show ?thesis
  proof (cases "find ?p (items db)")
    case None
    then have none: "\<forall>r \<in> set (items db). \<not> ?p r" by (simp add: find_None_iff)
    let ?no = "quota_reached (store sv) (scope_digest_of P s) db \<or> (\<exists>r \<in> set (items db). item_id r = new_item_id u)"
    show ?thesis
    proof (cases ?no)
      case True
      then have "\<exists>e. res = Inl e \<and> db' = db" using run None by (force simp: ingest_request_locked_def split: if_splits)
      then show ?thesis using refused by blast
    next
      case False
      then have "res = Inr (receipt_of (new_row P s q now u) False)" "db' = db\<lparr>items := items db @ [new_row P s q now u]\<rparr>"
        using run None by (simp_all add: ingest_request_locked_def)
      with False none show ?thesis using written [OF al q] by blast
    qed
  next
    case (Some r)
    then have r: "r \<in> set (items db)" "?p r" by (auto simp: find_Some_iff)
    show ?thesis
    proof (cases "validate_item_row P s r")
      case (Inr b)
      then have "b = payload r" by (simp add: validate_item_row_iff)
      then show ?thesis
        using run Some Inr refused replay [OF al q r(1)] r(2) by (auto simp: ingest_request_locked_def split: if_splits)
    qed (use run Some refused in \<open>auto simp: ingest_request_locked_def\<close>)
  qed
qed

lemma service_checkpoint_cases:
  assumes "service_checkpoint P sv now u s a db = (res, db')"
  obtains (refused) e where "res = Inl e" "db' = db"
  | (written) refs where "allowed sv s True" "call_item_refs a = PTuple refs" "length refs \<le> 64"
      "length (utf8_encode (call_hint a)) \<le> 4096"
      "\<forall>x \<in> set refs. \<exists>r \<in> set (items db). scope_digest r = scope_digest_of P s \<and> x = PStr (item_id r)"
      "\<forall>c \<in> set (checkpoints db). checkpoint_id c \<noteq> ''cp_'' @ u"
      "res = Inr \<lparr>receipt_checkpoint_id = ''cp_'' @ u,
         receipt_checkpoint_digest = checkpoint_digest (new_checkpoint P s a refs now u), receipt_hint = call_hint a,
         receipt_item_refs = PTuple refs, receipt_cp_authority = working_context\<rparr>"
      "db' = db\<lparr>checkpoints := checkpoints db @ [new_checkpoint P s a refs now u]\<rparr>"
proof -
  have id: "checkpoint_id (new_checkpoint P s a refs now u) = ''cp_'' @ u" for refs
    by (simp add: new_checkpoint_def unsealed_checkpoint_def Let_def)
  show ?thesis
  proof (cases "allowed sv s True \<and> (\<exists>refs. call_item_refs a = PTuple refs \<and> length refs \<le> 64 \<and>
      (\<exists>us. map_res (check_ref (scope_digest_of P s) db) refs = Inr us)) \<and> length (utf8_encode (call_hint a)) \<le> 4096")
    case False
    then show ?thesis
      using assms refused by (auto simp: service_checkpoint_def store_checkpoint_def scope_denied_def split: if_splits pyval.splits sum.splits)
  next
    case True
    then obtain refs us where refs: "allowed sv s True" "call_item_refs a = PTuple refs" "length refs \<le> 64"
        "map_res (check_ref (scope_digest_of P s) db) refs = Inr us" "length (utf8_encode (call_hint a)) \<le> 4096" by blast
    have ex: "\<forall>x \<in> set refs. \<exists>r \<in> set (items db). scope_digest r = scope_digest_of P s \<and> x = PStr (item_id r)"
    proof
      fix x assume "x \<in> set refs"
      then have "check_ref (scope_digest_of P s) db x = Inr ()" using refs(4) by (rule map_res_unit [rotated])
      then show "\<exists>r \<in> set (items db). scope_digest r = scope_digest_of P s \<and> x = PStr (item_id r)"
        by (auto simp: check_ref_def res_simps split: if_splits)
    qed
    note run = assms [unfolded service_checkpoint_def store_checkpoint_def Let_def refs(2) refs(4) pyval.case sum.case id]
    show ?thesis
    proof (cases "\<exists>c \<in> set (checkpoints db). checkpoint_id c = ''cp_'' @ u")
      case True
      with run refs(1,3,5)
      have "res = Inl (OtherError ''sqlite3.IntegrityError'', ''UNIQUE constraint failed: checkpoints.checkpoint_id'') \<and> db' = db"
        by simp
      then show ?thesis using refused by blast
    next
      case False
      with run refs(1,3,5) show ?thesis by (intro written [OF refs(1-3,5) ex]) simp_all
    qed
  qed
qed

section \<open>The invariant\<close>

text \<open>
  Identifiers and keys are unique, every row is intact under the scope it was written for, and checkpoints
  refer to items of their scope.
\<close>

definition item_key :: "item_row \<Rightarrow> string \<times> string" where
  "item_key r = (scope_digest r, idempotency_key r)"

definition row_written :: "platform \<Rightarrow> item_row \<Rightarrow> bool" where
  "row_written P r \<longleftrightarrow> (\<exists>s q now u. r = new_row P s q now u \<and> utf8_decode (payload q) \<noteq> None \<and> payload q \<noteq> [])"

definition refs_stored :: "context_db \<Rightarrow> checkpoint_row \<Rightarrow> bool" where
  "refs_stored db c \<longleftrightarrow> (\<exists>refs. item_refs c = PList refs \<and> length refs \<le> 64 \<and>
     (\<forall>x \<in> set refs. \<exists>r \<in> set (items db). scope_digest r = cp_scope_digest c \<and> x = PStr (item_id r)))"

definition context_db_ok :: "platform \<Rightarrow> context_db \<Rightarrow> bool" where
  "context_db_ok P db \<longleftrightarrow> distinct (map item_id (items db)) \<and> distinct (map item_key (items db)) \<and>
     (\<forall>r \<in> set (items db). row_written P r) \<and> distinct (map checkpoint_id (checkpoints db)) \<and>
     (\<forall>c \<in> set (checkpoints db). refs_stored db c)"

definition later_db :: "context_db \<Rightarrow> context_db \<Rightarrow> bool" where
  "later_db db db' \<longleftrightarrow> (\<exists>xs. items db' = items db @ xs) \<and> (\<exists>cs. checkpoints db' = checkpoints db @ cs)"

lemma later_db_refl [simp]: "later_db db db"
  by (simp add: later_db_def)

lemma later_db_trans: "later_db a b \<Longrightarrow> later_db b c \<Longrightarrow> later_db a c"
  by (auto simp: later_db_def)

lemma later_db_items: "later_db db db' \<Longrightarrow> r \<in> set (items db) \<Longrightarrow> r \<in> set (items db')"
  by (auto simp: later_db_def)

lemma refs_stored_mono: "refs_stored db c \<Longrightarrow> later_db db db' \<Longrightarrow> refs_stored db' c"
  unfolding refs_stored_def using later_db_items by blast

lemma new_checkpoint_simps [simp]:
  "checkpoint_id (new_checkpoint P s a refs now u) = ''cp_'' @ u" "cp_scope_digest (new_checkpoint P s a refs now u) = scope_digest_of P s"
  "item_refs (new_checkpoint P s a refs now u) = PList refs" "hint (new_checkpoint P s a refs now u) = utf8_encode (call_hint a)"
  "cp_created_at (new_checkpoint P s a refs now u) = now"
  by (simp_all add: new_checkpoint_def unsealed_checkpoint_def Let_def)

lemma exec_op_later: "later_db db (exec_op P op db)"
proof (cases op)
  case (Ingest sv now u s a)
  obtain res db' where run: "service_ingest P sv now u s a db = (res, db')" by force
  then show ?thesis by (cases rule: service_ingest_cases) (simp_all add: Ingest run later_db_def)
next
  case (Checkpoint sv now u s a)
  obtain res db' where run: "service_checkpoint P sv now u s a db = (res, db')" by force
  then show ?thesis by (cases rule: service_checkpoint_cases) (simp_all add: Checkpoint run later_db_def)
qed

lemma exec_op_ok:
  assumes "context_db_ok P db"
  shows "context_db_ok P (exec_op P op db)"
proof -
  have refs: "\<forall>c \<in> set (checkpoints db). refs_stored (exec_op P op db) c"
    using assms refs_stored_mono [OF _ exec_op_later] by (auto simp: context_db_ok_def)
  show ?thesis
  proof (cases op)
    case (Ingest sv now u s a)
    obtain res db' where run: "service_ingest P sv now u s a db = (res, db')" by force
    then show ?thesis
    proof (cases rule: service_ingest_cases)
      case (written q)
      have "row_written P (new_row P s q now u)" using check_call_request(2,3) [OF written(2)] by (auto simp: row_written_def)
      moreover have "new_item_id u \<notin> item_id ` set (items db)" using written(5) by auto
      moreover have "item_key (new_row P s q now u) \<notin> item_key ` set (items db)" using written(3) by (auto simp: item_key_def)
      ultimately show ?thesis
        using assms refs by (simp add: Ingest run written(7) context_db_ok_def)
    qed (use assms in \<open>simp_all add: Ingest run\<close>)
  next
    case (Checkpoint sv now u s a)
    obtain res db' where run: "service_checkpoint P sv now u s a db = (res, db')" by force
    then show ?thesis
    proof (cases rule: service_checkpoint_cases)
      case (written xs)
      have "refs_stored db' (new_checkpoint P s a xs now u)" using written(3,5) by (simp add: refs_stored_def written(8))
      moreover have "''cp_'' @ u \<notin> checkpoint_id ` set (checkpoints db)" using written(6) by auto
      ultimately show ?thesis using assms refs by (simp add: Checkpoint run written(8) context_db_ok_def)
    qed (use assms in \<open>simp_all add: Checkpoint run\<close>)
  qed
qed

lemma exec_ops_simps [simp]:
  "exec_ops P [] db = db" "exec_ops P (op # ops) db = exec_ops P ops (exec_op P op db)"
  "exec_ops P (ops @ ops') db = exec_ops P ops' (exec_ops P ops db)"
  by (simp_all add: exec_ops_def)

lemma exec_ops_later: "later_db db (exec_ops P ops db)"
  by (induction ops arbitrary: db) (auto intro: later_db_trans exec_op_later)

lemma exec_ops_ok: "context_db_ok P db \<Longrightarrow> context_db_ok P (exec_ops P ops db)"
  by (induction ops arbitrary: db) (auto intro: exec_op_ok)

lemma empty_db_ok [simp]: "context_db_ok P empty_db"
  by (simp add: context_db_ok_def empty_db_def)

lemma find_unique:
  assumes "distinct (map f xs)" and "r \<in> set xs"
  shows "find (\<lambda>x. f x = f r) xs = Some r"
  using assms by (induction xs) auto

lemma find_item_key:
  assumes "context_db_ok P db" and "r \<in> set (items db)"
  shows "find (\<lambda>x. scope_digest x = scope_digest r \<and> idempotency_key x = idempotency_key r) (items db) = Some r"
  using find_unique [of item_key "items db" r] assms by (simp add: context_db_ok_def item_key_def)

section \<open>Items are written once\<close>

text \<open>A receipt is that of an intact row of the request.\<close>

lemma service_ingest_receipt:
  assumes "service_ingest P sv now u s a db = (Inr rc, db')"
  obtains q r where "check_call a = Inr q" "r \<in> set (items db')" "rc = receipt_of r (replayed rc)" "scope_digest r = scope_digest_of P s"
    "idempotency_key r = idempotency_key q" "validate_item_row P s r = Inr (payload r)" "request_digest r = request_digest_of P s q"
  using assms
proof (cases rule: service_ingest_cases)
  case (written q)
  then show ?thesis
    using new_row_valid [OF check_call_request(3) [OF written(2)], of P s now u]
    by (intro that [of q "new_row P s q now u"]) (simp_all add: receipt_of_def)
qed (auto simp: receipt_of_def intro: that)

lemma ingest_on_stored:
  assumes "context_db_ok P db" and "r \<in> set (items db)" and "scope_digest r = scope_digest_of P s"
    and "idempotency_key r = idempotency_key q" and "validate_item_row P s r = Inr (payload r)"
    and "allowed sv s True" and "check_call a = Inr q"
  shows "service_ingest P sv now u s a db =
    (if request_digest r = request_digest_of P s q then Inr (receipt_of r True)
     else Inl (OtherError ''IdempotencyConflict'', ''IDEMPOTENCY_CONFLICT''), db)"
  using find_item_key [OF assms(1,2)] assms(3-7)
  by (simp add: service_ingest_def ingest_def ingest_request_locked_def)

lemma request_text_eq_request:
  assumes "request_text P s q = request_text P s q'" and "utf8_decode (payload q) \<noteq> None" and "utf8_decode (payload q') \<noteq> None"
  shows "q = (q' :: ingest_request)"
proof -
  have "map_of (request_dict P s t x) ''payload'' = Some (PStr t)" for t and x :: ingest_request
    by (simp add: request_dict_def scope_dict_def)
  then have "the (utf8_decode (payload q)) = the (utf8_decode (payload q'))"
    using canonical_fields [OF assms(1) [unfolded request_text_def] request_dict_plain(1,1,2,2), of "''payload''"] by simp
  then have "payload q = payload q'" using assms(2,3) utf8_encode_decode by (metis option.exhaust_sel)
  with request_text_inject [OF assms(1)] show ?thesis by simp
qed

text \<open>
  C15 (ingest_once). After an ingest has returned a receipt, and whatever else services have written
  since, every service that may write the scope answers the same call with the same receipt, marked as replayed,
  and a call with the same key and any other argument with a conflict; neither writes anything. A changed
  argument goes unnoticed only when the two request texts have the same digest.
\<close>

theorem ingest_once:
  assumes "service_ingest P sv now u s a (exec_ops P ops empty_db) = (Inr rc, db)" and "allowed sv' s True"
    and "db' = exec_ops P ops' db"
  shows "service_ingest P sv' now' u' s a db' = (Inr (rc\<lparr>replayed := True\<rparr>), db') \<and>
    (\<forall>a' q q'. check_call a = Inr q \<longrightarrow> check_call a' = Inr q' \<longrightarrow> idempotency_key q' = idempotency_key q \<longrightarrow> q' \<noteq> q \<longrightarrow>
       service_ingest P sv' now' u' s a' db' = (Inl (OtherError ''IdempotencyConflict'', ''IDEMPOTENCY_CONFLICT''), db') \<or>
       clash P (request_text P s q) (request_text P s q'))"
proof -
  from assms(1) obtain q r where r: "check_call a = Inr q" "r \<in> set (items db)" "rc = receipt_of r (replayed rc)"
      "scope_digest r = scope_digest_of P s" "idempotency_key r = idempotency_key q" "validate_item_row P s r = Inr (payload r)"
      "request_digest r = request_digest_of P s q"
    by (rule service_ingest_receipt)
  have "db = exec_ops P (ops @ [Ingest sv now u s a]) empty_db" using assms(1) by simp
  then have ok: "context_db_ok P db'" unfolding assms(3) using exec_ops_ok [OF empty_db_ok] by (metis exec_ops_simps(3))
  have mem: "r \<in> set (items db')" unfolding assms(3) by (rule later_db_items [OF exec_ops_later r(2)])
  note stored = ingest_on_stored [OF ok mem r(4) _ r(6) assms(2)]
  have "receipt_of r True = rc\<lparr>replayed := True\<rparr>" by (subst r(3)) (simp add: receipt_of_def)
  then have "service_ingest P sv' now' u' s a db' = (Inr (rc\<lparr>replayed := True\<rparr>), db')" using stored [OF r(5,1)] r(7) by simp
  moreover have "service_ingest P sv' now' u' s a' db' = (Inl (OtherError ''IdempotencyConflict'', ''IDEMPOTENCY_CONFLICT''), db') \<or>
      clash P (request_text P s q) (request_text P s q')"
    if "check_call a' = Inr q'" "idempotency_key q' = idempotency_key q" "q' \<noteq> q" for a' q'
  proof -
    have "request_text P s q \<noteq> request_text P s q'"
      using request_text_eq_request check_call_request(3) [OF r(1)] check_call_request(3) [OF that(1)] that(3) by metis
    then show ?thesis using stored [OF _ that(1)] that(2) r(5,7) by (auto simp: request_digest_text clash_def)
  qed
  ultimately show ?thesis using r(1) by auto
qed

section \<open>Reads return what was ingested\<close>

text \<open>The ingest that wrote a row.\<close>

lemma row_origin:
  assumes "r \<in> set (items (exec_ops P ops db))" and "r \<notin> set (items db)"
  obtains pre sv now u s a post q where "ops = pre @ Ingest sv now u s a # post" "check_call a = Inr q" "r = new_row P s q now u"
    "allowed sv s True" "fst (service_ingest P sv now u s a (exec_ops P pre db)) = Inr (receipt_of r False)"
  using assms
proof (induction ops arbitrary: db thesis)
  case (Cons op ops)
  show ?case
  proof (cases "r \<in> set (items (exec_op P op db))")
    case False
    show ?thesis
    proof (rule Cons.IH [OF _ _ False])
      show "r \<in> set (items (exec_ops P ops (exec_op P op db)))" using Cons.prems(2) by simp
      fix pre sv now u s a post q
      assume "ops = pre @ Ingest sv now u s a # post" "check_call a = Inr q" "r = new_row P s q now u" "allowed sv s True"
        "fst (service_ingest P sv now u s a (exec_ops P pre (exec_op P op db))) = Inr (receipt_of r False)"
      then show thesis by (intro Cons.prems(1) [of "op # pre" sv now u s a post q]) simp_all
    qed
  next
    case True
    show ?thesis
    proof (cases op)
      case (Ingest sv now u s a)
      obtain res db' where run: "service_ingest P sv now u s a db = (res, db')" by force
      then show ?thesis
      proof (cases rule: service_ingest_cases)
        case (written q)
        then have "r = new_row P s q now u" using True Cons.prems(3) Ingest run by auto
        then show ?thesis using written Ingest run by (intro Cons.prems(1) [of "[]" sv now u s a ops q]) simp_all
      qed (use True Cons.prems(3) Ingest run in auto)
    next
      case (Checkpoint sv now u s a)
      obtain res db' where run: "service_checkpoint P sv now u s a db = (res, db')" by force
      then show ?thesis by (cases rule: service_checkpoint_cases) (use True Cons.prems(3) Checkpoint run in auto)
    qed
  qed
qed simp

lemma read_item_success:
  assumes "read_item P sv now s i bs be current db = Inr res"
  obtains r where "allowed sv s False" "0 \<le> bs" "r \<in> set (items db)" "scope_digest r = scope_digest_of P s" "item_id r = i"
    "validate_item_row P s r = Inr (payload r)" "\<not> expired P (store sv) now (created_at r)"
    "result_byte_end res = (case be of None \<Rightarrow> int (length (payload r)) | Some e \<Rightarrow> e)"
    "result_byte_end res - bs \<le> 65536" "result_byte_end res \<le> int (length (payload r))"
    "result_payload res = py_slice (payload r) bs (result_byte_end res)" "result_content_digest res = content_digest r"
    "result_subject_revision res = subject_revision r" "result_source_type res = source_type r"
proof -
  from assms have al: "allowed sv s False" and bs: "0 \<le> bs" by (auto simp: read_item_def res_simps split: if_splits)
  with assms obtain r where rd: "store_read P s i db = Some r" by (auto simp: read_item_def res_simps split: option.splits)
  then have r: "r \<in> set (items db)" "scope_digest r = scope_digest_of P s" "item_id r = i"
    by (auto simp: store_read_def find_Some_iff)
  from assms rd obtain b where v: "validate_item_row P s r = Inr b" by (auto simp: read_item_def res_simps)
  then have b: "b = payload r" by (simp add: validate_item_row_iff)
  show ?thesis
    using assms al bs rd v [unfolded b]
    by (intro that [of r, OF al bs r v [unfolded b]]) (auto simp: read_item_def res_simps Let_def)
qed

text \<open>
  C14 (read_returns_ingested). Whatever services have written, a successful read under a scope, by a
  service that may read it, returns a range of at most 64 KiB of the payload of the one ingest that created the
  item, under the very scope of the read: with another scope both the scope texts and the request texts would
  have to share their digests.
\<close>

theorem read_returns_ingested:
  assumes "read_item P sv now s i bs be current (exec_ops P ops empty_db) = Inr res"
  shows "allowed sv s False \<and> length (result_payload res) \<le> 65536 \<and>
    (\<exists>pre sv' now' u s' a post b rc. ops = pre @ Ingest sv' now' u s' a # post \<and> allowed sv' s' True \<and>
       fst (service_ingest P sv' now' u s' a (exec_ops P pre empty_db)) = Inr rc \<and> \<not> replayed rc \<and>
       receipt_item_id rc = i \<and> receipt_content_digest rc = result_content_digest res \<and>
       arg_payload a = Some b \<and> result_payload res = py_slice b bs (result_byte_end res) \<and>
       result_subject_revision res = arg_subject_revision a \<and> \<not> expired P (store sv) now now' \<and>
       (s' = s \<or> clash P (scope_text s') (scope_text s) \<and> (\<exists>q. check_call a = Inr q \<and> clash P (request_text P s' q) (request_text P s q))))"
proof -
  from assms obtain r where r: "allowed sv s False" "0 \<le> bs" "r \<in> set (items (exec_ops P ops empty_db))"
      "scope_digest r = scope_digest_of P s" "item_id r = i" "validate_item_row P s r = Inr (payload r)"
      "\<not> expired P (store sv) now (created_at r)" "result_byte_end res - bs \<le> 65536"
      "result_payload res = py_slice (payload r) bs (result_byte_end res)" "result_content_digest res = content_digest r"
      "result_subject_revision res = subject_revision r"
    by (rule read_item_success)
  have "r \<notin> set (items empty_db)" by (simp add: empty_db_def)
  from row_origin [OF r(3) this] obtain pre sv' now' u s' a post q where o:
      "ops = pre @ Ingest sv' now' u s' a # post" "check_call a = Inr q" "r = new_row P s' q now' u" "allowed sv' s' True"
      "fst (service_ingest P sv' now' u s' a (exec_ops P pre empty_db)) = Inr (receipt_of r False)" by metis
  have q: "arg_payload a = Some (payload q)" "subject_revision q = arg_subject_revision a"
    by (rule check_call_request(1,6) [OF o(2)])+
  have "request_text P s (new_row P s' q now' u) = request_text P s q" by (simp add: request_text_def request_dict_def)
  then have "sha256 P (request_text P s' q) = sha256 P (request_text P s q)" "sha256 P (scope_text s') = sha256 P (scope_text s)"
    using r(4,6) o(3) by (simp_all add: validate_item_row_iff request_digest_text scope_digest_text)
  then have "s' = s \<or> clash P (scope_text s') (scope_text s) \<and> clash P (request_text P s' q) (request_text P s q)"
    using scope_text_inject [of s' s] request_text_inject(1) [of P s' q s q] by (auto simp: clash_def)
  moreover have "length (result_payload res) \<le> 65536" using r(2,8,9) by (simp add: py_slice_def)
  ultimately show ?thesis
    using r o(2,4) q by (intro conjI exI [of _ pre] exI [of _ sv'] exI [of _ now'] exI [of _ u] exI [of _ s'] exI [of _ a]
      exI [of _ post] exI [of _ "payload q"] exI [of _ "receipt_of r False"] o(1,5)) (auto simp: receipt_of_def o(3))
qed

section \<open>Integrity and quota\<close>

lemma row_written_valid: "row_written P r \<Longrightarrow> \<exists>s. validate_item_row P s r = Inr (payload r)"
  using new_row_valid by (fastforce simp: row_written_def)

definition scope_count :: "string \<Rightarrow> context_db \<Rightarrow> int" where
  "scope_count sd db = int (length (filter (\<lambda>r. scope_digest r = sd) (items db)))"

lemma exec_op_quota:
  assumes "scope_count sd db \<le> max 0 m" and "\<And>sv now u s a. op = Ingest sv now u s a \<Longrightarrow> max_items (store sv) = Some m"
  shows "scope_count sd (exec_op P op db) \<le> max 0 m"
proof (cases op)
  case (Ingest sv now u s a)
  obtain res db' where run: "service_ingest P sv now u s a db = (res, db')" by force
  then show ?thesis
  proof (cases rule: service_ingest_cases)
    case (written q)
    then show ?thesis
      using assms(1) assms(2) [OF Ingest] by (auto simp: Ingest run quota_reached_def scope_count_def split: option.splits)
  qed (use assms(1) in \<open>simp_all add: Ingest run\<close>)
next
  case (Checkpoint sv now u s a)
  obtain res db' where run: "service_checkpoint P sv now u s a db = (res, db')" by force
  then show ?thesis
    by (cases rule: service_checkpoint_cases) (use assms(1) in \<open>simp_all add: Checkpoint run scope_count_def\<close>)
qed

text \<open>
  C26 (context_store_invariant). Whatever services with the same quota write, identifiers and the
  pairs of scope and key stay unique, every row passes validation under a scope, every checkpoint refers to at
  most 64 items, all stored under its scope, and no scope has more items than the quota allows.
\<close>

theorem context_store_invariant:
  assumes "\<forall>op \<in> set ops. case op of Ingest sv now u s a \<Rightarrow> max_items (store sv) = Some m | Checkpoint sv now u s a \<Rightarrow> True"
    and "db = exec_ops P ops empty_db"
  shows "distinct (map item_id (items db)) \<and> distinct (map (\<lambda>r. (scope_digest r, idempotency_key r)) (items db)) \<and>
    (\<forall>r \<in> set (items db). \<exists>s. validate_item_row P s r = Inr (payload r)) \<and>
    (\<forall>c \<in> set (checkpoints db). \<exists>refs. item_refs c = PList refs \<and> length refs \<le> 64 \<and>
       (\<forall>x \<in> set refs. \<exists>r \<in> set (items db). scope_digest r = cp_scope_digest c \<and> x = PStr (item_id r))) \<and>
    (\<forall>sd. int (length (filter (\<lambda>r. scope_digest r = sd) (items db))) \<le> max 0 m)"
proof -
  have ok: "context_db_ok P db" unfolding assms(2) by (rule exec_ops_ok) simp
  have "scope_count sd (exec_ops P os db0) \<le> max 0 m"
    if "scope_count sd db0 \<le> max 0 m" "\<forall>op \<in> set os. case op of Ingest sv now u s a \<Rightarrow> max_items (store sv) = Some m | Checkpoint sv now u s a \<Rightarrow> True"
    for sd os db0
    using that
  proof (induction os arbitrary: db0)
    case (Cons op os)
    have "scope_count sd (exec_op P op db0) \<le> max 0 m" using Cons.prems by (intro exec_op_quota) (auto split: context_op.splits)
    with Cons show ?case by simp
  qed simp
  then have "scope_count sd db \<le> max 0 m" for sd unfolding assms(2) using assms(1) by (simp add: scope_count_def empty_db_def)
  then have quota: "\<forall>sd. int (length (filter (\<lambda>r. scope_digest r = sd) (items db))) \<le> max 0 m" by (simp add: scope_count_def)
  have keys: "distinct (map (\<lambda>r. (scope_digest r, idempotency_key r)) (items db))"
    using ok by (simp add: context_db_ok_def item_key_def [abs_def])
  show ?thesis
    using ok keys quota row_written_valid by (auto simp: context_db_ok_def refs_stored_def)
qed

section \<open>Search page by page\<close>

text \<open>
  A client of the search at some time on some database. Between two pages time passes and services write.
\<close>

definition context_page ::
  "platform \<Rightarrow> context_service \<Rightarrow> scope \<Rightarrow> string \<Rightarrow> int \<Rightarrow> rat \<times> context_db \<Rightarrow> string option \<Rightarrow>
     (search_hit list \<times> string option) option" where
  "context_page P sv s q limit w c = (case search P sv (fst w) s (PStr q) limit c (snd w) of
       Inl e \<Rightarrow> None | Inr p \<Rightarrow> Some (page_items p, next_cursor p))"

definition context_hits :: "platform \<Rightarrow> context_service \<Rightarrow> scope \<Rightarrow> string \<Rightarrow> rat \<times> context_db \<Rightarrow> search_hit list" where
  "context_hits P sv s q w =
     map hit_of (sort_key item_id (filter (row_matches P (store sv) (fst w) s q) (items (snd w))))"

definition context_later :: "platform \<Rightarrow> rat \<times> context_db \<Rightarrow> rat \<times> context_db \<Rightarrow> bool" where
  "context_later P w w' \<longleftrightarrow> fst w \<le> fst w' \<and> (\<exists>ops. snd w' = exec_ops P ops (snd w))"

text \<open>Rounded subtraction is monotone.\<close>

definition minus_monotone :: "platform \<Rightarrow> bool" where
  "minus_monotone P \<longleftrightarrow> (\<forall>t t' d. t \<le> t' \<longrightarrow> float_minus P t d \<le> float_minus P t' d)"

lemma row_matches_earlier:
  "minus_monotone P \<Longrightarrow> t \<le> t' \<Longrightarrow> row_matches P st t' s q r \<Longrightarrow> row_matches P st t s q r"
  unfolding row_matches_def expired_def minus_monotone_def by (auto split: option.splits) (meson order_less_le_trans)

lemma hit_of_id [simp]: "hit_item_id (hit_of r) = item_id r"
  by (simp add: hit_of_def)

lemma context_hits_iff:
  "h \<in> set (context_hits P sv s q w) \<longleftrightarrow> (\<exists>r \<in> set (items (snd w)). h = hit_of r \<and> row_matches P (store sv) (fst w) s q r)"
  by (auto simp: context_hits_def)

lemma row_id_nonempty: "context_db_ok P db \<Longrightarrow> r \<in> set (items db) \<Longrightarrow> item_id r \<noteq> []"
  by (auto simp: context_db_ok_def row_written_def new_item_id_def)

lemma after_cursor:
  assumes "context_db_ok P db"
  shows "filter (\<lambda>h. above c (hit_item_id h)) (context_hits P sv s q (t, db)) =
    map hit_of (sort_key item_id (filter (\<lambda>r. row_matches P (store sv) t s q r \<and> above (cursor_of c) (item_id r)) (items db)))"
proof -
  have "above c (item_id r) = above (cursor_of c) (item_id r)" if "r \<in> set (items db)" for r
    using row_id_nonempty [OF assms that] by (cases "item_id r") (auto simp: cursor_of_def)
  then have "filter (\<lambda>r. above c (item_id r)) (filter (row_matches P (store sv) t s q) (items db)) =
      filter (\<lambda>r. row_matches P (store sv) t s q r \<and> above (cursor_of c) (item_id r)) (items db)"
    by (auto intro!: filter_cong simp: conj_commute)
  then show ?thesis by (simp add: context_hits_def filter_map o_def filter_sort)
qed

lemma extra_row:
  "1 \<le> limit \<Longrightarrow> limit < int (length (take (nat (limit + 1)) xs)) \<and> map f (take (nat limit) (take (nat (limit + 1)) xs)) \<noteq> []
     \<longleftrightarrow> nat limit < length xs"
  by (cases xs) (auto simp: min_def)

interpretation ctx: keyset_listing "context_page P sv s q limit" "context_hits P sv s q" hit_item_id "nat limit"
  "\<lambda>w. context_db_ok P (snd w) \<and> minus_monotone P" "context_later P"
  for P :: platform and sv s q limit
proof
  fix w c hs n
  assume ok: "context_db_ok P (snd w) \<and> minus_monotone P" and pg: "context_page P sv s q limit w c = Some (hs, n)"
  obtain t db where w: "w = (t, db)" by force
  let ?rows = "sort_key item_id (filter (\<lambda>r. row_matches P (store sv) t s q r \<and> above (cursor_of c) (item_id r)) (items db))"
  have lim: "1 \<le> limit" and hs: "hs = map hit_of (take (nat limit) (take (nat (limit + 1)) ?rows))"
      and n: "n = (if limit < int (length (take (nat (limit + 1)) ?rows)) \<and> hs \<noteq> [] then Some (hit_item_id (last hs)) else None)"
    using pg by (auto simp: context_page_def search_def store_search_def w res_simps Let_def split: sum.splits if_splits)
  have after: "filter (\<lambda>h. above c (hit_item_id h)) (context_hits P sv s q w) = map hit_of ?rows"
    unfolding w by (rule after_cursor) (use ok w in simp)
  have "hs = take (nat limit) (map hit_of ?rows)" using lim unfolding hs by (simp add: take_map min_def)
  moreover have "limit < int (length (take (nat (limit + 1)) ?rows)) \<and> hs \<noteq> [] \<longleftrightarrow> nat limit < length (map hit_of ?rows)"
    unfolding hs length_map by (rule extra_row [OF lim])
  ultimately show "0 < nat limit \<and> hs = take (nat limit) (filter (\<lambda>h. above c (hit_item_id h)) (context_hits P sv s q w)) \<and>
      n = (if nat limit < length (filter (\<lambda>h. above c (hit_item_id h)) (context_hits P sv s q w)) then Some (hit_item_id (last hs)) else None)"
    using lim n unfolding after by simp
next
  fix w :: "rat \<times> context_db"
  assume "context_db_ok P (snd w) \<and> minus_monotone P"
  then have "distinct (map item_id (filter (row_matches P (store sv) (fst w) s q) (items (snd w))))"
    by (simp add: context_db_ok_def distinct_map_filter)
  then have "sorted_wrt (<) (map item_id (sort_key item_id (filter (row_matches P (store sv) (fst w) s q) (items (snd w)))))"
    by (simp add: strict_sorted_iff distinct_map)
  then show "sorted_wrt (<) (map hit_item_id (context_hits P sv s q w))" by (simp add: context_hits_def o_def)
next
  show "context_later P w w" for w using exec_ops_simps(1) [of P "snd w"] by (auto simp: context_later_def intro: exI [of _ "[]"])
next
  fix w w' w''
  assume "context_later P w w'" and "context_later P w' w''"
  then show "context_later P w w''" by (auto simp: context_later_def simp flip: exec_ops_simps(3))
next
  fix w w' :: "rat \<times> context_db"
  assume "context_db_ok P (snd w) \<and> minus_monotone P" and "context_later P w w'"
  then show "context_db_ok P (snd w') \<and> minus_monotone P" by (auto simp: context_later_def exec_ops_ok)
next
  fix w w' w'' h
  assume ok: "context_db_ok P (snd w) \<and> minus_monotone P" and l: "context_later P w w'" "context_later P w' w''"
    and h: "h \<in> set (context_hits P sv s q w)" "h \<in> set (context_hits P sv s q w'')"
  from h obtain r r' where r: "r \<in> set (items (snd w))" "h = hit_of r" and r': "r' \<in> set (items (snd w''))" "h = hit_of r'"
      "row_matches P (store sv) (fst w'') s q r'" by (auto simp: context_hits_iff)
  have db: "later_db (snd w) (snd w')" "later_db (snd w') (snd w'')" "context_db_ok P (snd w'')"
    using l ok by (auto simp: context_later_def exec_ops_later exec_ops_ok)
  have "r = r'"
    using db r r'(1,2) later_db_items [OF later_db_trans [OF db(1,2)] r(1)]
    by (metis context_db_ok_def distinct_map hit_of_id inj_onD)
  then show "h \<in> set (context_hits P sv s q w')"
    using later_db_items [OF db(1) r(1)] r(2) row_matches_earlier [OF conjunct2 [OF ok] _ r'(3)] l(2)
    by (auto simp: context_hits_iff context_later_def)
qed

text \<open>
  C16 (search_pages_stable). A client that starts a search on a database the services have written and
  follows the cursors to the end, while time passes and services go on writing between the pages, collects hits in
  increasing order of their identifiers, so none twice; each is an item of the scope that contains the query and
  had not expired at the start; and every such item that was there at the start and has not expired at the end
  is among them.
\<close>

theorem search_pages_stable:
  assumes "minus_monotone P" and "db = exec_ops P ops empty_db"
    and "pages (context_page P sv s q limit) (context_later P) (t, db) None hs (t', db')"
  shows "sorted_wrt (<) (map hit_item_id hs) \<and>
    (\<forall>h \<in> set hs. \<exists>r \<in> set (items db'). h = hit_of r \<and> row_matches P (store sv) t s q r) \<and>
    (\<forall>r \<in> set (items db). row_matches P (store sv) t' s q r \<longrightarrow> hit_of r \<in> set hs)"
proof -
  have inv: "context_db_ok P (snd (t, db)) \<and> minus_monotone P" using assms(1,2) exec_ops_ok by simp
  have lat: "context_later P (t, db) (t', db')" by (rule ctx.pages_later [OF assms(3)])
  have "\<exists>r \<in> set (items db'). h = hit_of r \<and> row_matches P (store sv) t s q r" if "h \<in> set hs" for h
  proof -
    from ctx.pages_only [OF assms(3) inv that] obtain w where w: "context_later P (t, db) w" "context_later P w (t', db')"
        "h \<in> set (context_hits P sv s q w)" by blast
    then obtain r where r: "r \<in> set (items (snd w))" "h = hit_of r" "row_matches P (store sv) (fst w) s q r"
      by (auto simp: context_hits_iff)
    have "later_db (snd w) db'" using w(2) by (auto simp: context_later_def exec_ops_later)
    with r w(1) show ?thesis
      using later_db_items row_matches_earlier [OF assms(1) _ r(3)] by (fastforce simp: context_later_def)
  qed
  moreover have "hit_of r \<in> set hs" if r: "r \<in> set (items db)" "row_matches P (store sv) t' s q r" for r
  proof (rule ctx.pages_include [OF assms(3) inv])
    have le: "t \<le> t'" and db: "later_db db db'" using lat by (auto simp: context_later_def exec_ops_later)
    show "hit_of r \<in> set (context_hits P sv s q (t, db))" "hit_of r \<in> set (context_hits P sv s q (t', db'))"
      using r later_db_items [OF db] row_matches_earlier [OF assms(1) le] by (auto simp: context_hits_iff)
  qed simp
  ultimately show ?thesis using ctx.pages_sorted [OF assms(3) inv] by blast
qed

text \<open>Every page is answered, unless a row of another scope is taken for one of the scope.\<close>

lemma context_page_answered:
  assumes "db = exec_ops P ops empty_db" and "allowed sv s False" and "q \<noteq> []" and "1 \<le> limit" and "limit \<le> 20"
    and "\<And>sv' now u s' a. Ingest sv' now u s' a \<in> set ops \<Longrightarrow> \<not> clash P (scope_text s') (scope_text s)"
  shows "\<exists>r. context_page P sv s q limit (t, db) c = Some r"
proof -
  let ?rows = "store_search P (store sv) t s q limit c db"
  have "validate_item_row P s r = Inr (payload r)" if "r \<in> set ?rows" for r
  proof -
    from that have r: "r \<in> set (items db)" "scope_digest r = scope_digest_of P s"
      unfolding store_search_def by (auto dest!: in_set_takeD simp: row_matches_def)
    have "r \<notin> set (items empty_db)" by (simp add: empty_db_def)
    from row_origin [OF r(1) [unfolded assms(1)] this] obtain pre sv' now u s' a post x where o:
        "ops = pre @ Ingest sv' now u s' a # post" "check_call a = Inr x" "r = new_row P s' x now u" by metis
    have "\<not> clash P (scope_text s') (scope_text s)" by (rule assms(6) [of sv' now u s' a]) (simp add: o(1))
    then have "s' = s" using r(2) o(3) scope_text_inject [of s' s] by (auto simp: clash_def scope_digest_text)
    then show ?thesis using new_row_valid [OF check_call_request(3) [OF o(2)]] o(3) by simp
  qed
  then have "map_res (validate_item_row P s) ?rows = Inr (map payload ?rows)" by (rule map_res_Inr_map)
  then show ?thesis using assms(2-5) by (simp add: context_page_def search_def Let_def)
qed

lemma search_pages_exist:
  assumes "minus_monotone P" and "db = exec_ops P ops empty_db" and "allowed sv s False" and "q \<noteq> []" and "1 \<le> limit" and "limit \<le> 20"
    and "\<And>sv' now u s' a. Ingest sv' now u s' a \<in> set ops \<Longrightarrow> \<not> clash P (scope_text s') (scope_text s)"
  shows "pages (context_page P sv s q limit) (context_later P) (t, db) None
      (map hit_of (sort_key item_id (filter (row_matches P (store sv) t s q) (items db)))) (t, db)"
proof -
  have inv: "context_db_ok P (snd (t, db)) \<and> minus_monotone P" using assms(1,2) exec_ops_ok by simp
  from ctx.pages_exist [OF inv context_page_answered [OF assms(2-7)], where c = None] show ?thesis by (simp add: context_hits_def)
qed

text \<open>
  C27 (search_pages_complete). On a database the services have written, when nothing changes, following
  the cursors from the first page ends, and the pages together are all matching items of the scope in the order of
  their identifiers, each once; unless the digests of two scopes collide.
\<close>

theorem search_pages_complete:
  assumes "minus_monotone P" and "db = exec_ops P ops empty_db" and "allowed sv s False" and "q \<noteq> []" and "1 \<le> limit" and "limit \<le> 20"
  shows "pages (context_page P sv s q limit) (context_later P) (t, db) None
      (map hit_of (sort_key item_id (filter (row_matches P (store sv) t s q) (items db)))) (t, db) \<or>
    (\<exists>sv' now u s' a. Ingest sv' now u s' a \<in> set ops \<and> clash P (scope_text s') (scope_text s))"
  using search_pages_exist [OF assms] by blast

section \<open>Checkpoints are resumed\<close>

lemma filter_eq_singleton: "distinct xs \<Longrightarrow> x \<in> set xs \<Longrightarrow> filter (\<lambda>y. y = x) xs = [x]"
  by (induction xs) (auto simp: filter_empty_conv)

lemma new_checkpoint_digest:
  "checkpoint_digest (new_checkpoint P s a refs now u) =
     digest_of P (PDict (checkpoint_dict P (call_hint a) refs (new_checkpoint P s a refs now u)))"
  by (simp add: new_checkpoint_def unsealed_checkpoint_def checkpoint_dict_def Let_def)

lemma new_checkpoint_scope [simp]:
  "(new_checkpoint P s a refs now u)\<lparr>cp_scope_digest := scope_digest_of P s\<rparr> = new_checkpoint P s a refs now u"
  by (simp add: new_checkpoint_def unsealed_checkpoint_def Let_def)

text \<open>
  C28 (resume_latest). After a checkpoint has returned a receipt, and whatever else services have written
  since, a service that may read the scope resumes from it (its hint, its identifier and its references, all
  still stored under the scope) as long as it has not expired and its time is later than that of every other
  checkpoint of the scope.
\<close>

theorem resume_latest:
  assumes "service_checkpoint P sv now u s a (exec_ops P ops empty_db) = (Inr rc, db)" and "db' = exec_ops P ops' db"
    and "\<And>c. sql_first P [c] = c" and "allowed sv' s False" and "\<not> expired P (store sv') now' now"
    and "\<forall>c \<in> set (checkpoints db'). cp_scope_digest c = scope_digest_of P s \<and> checkpoint_id c \<noteq> receipt_checkpoint_id rc \<longrightarrow> cp_created_at c < now"
  shows "resume P sv' now' s db' = Inr \<lparr>bundle_hint = call_hint a, bundle_checkpoint_id = Some (receipt_checkpoint_id rc),
      bundle_item_refs = items_of (call_item_refs a), bundle_authority = working_context\<rparr> \<and>
    (\<forall>x \<in> set (items_of (call_item_refs a)). \<exists>r \<in> set (items db'). scope_digest r = scope_digest_of P s \<and> x = PStr (item_id r))"
  using assms(1)
proof (cases rule: service_checkpoint_cases)
  case (written refs)
  let ?c = "new_checkpoint P s a refs now u"
  have ok: "context_db_ok P db'"
    using exec_ops_ok [OF empty_db_ok, of P "ops @ [Checkpoint sv now u s a] @ ops'"] assms(1,2) by simp
  have lat: "later_db db db'" unfolding assms(2) by (rule exec_ops_later)
  have c: "?c \<in> set (checkpoints db')" using lat written(8) by (auto simp: later_db_def)
  have id: "receipt_checkpoint_id rc = checkpoint_id ?c" using written(7) by simp
  let ?rows = "filter (\<lambda>c. cp_scope_digest c = scope_digest_of P s) (checkpoints db')"
  have other: "cp_created_at x < now" if "x \<in> set ?rows" "x \<noteq> ?c" for x
  proof -
    have "checkpoint_id x \<noteq> checkpoint_id ?c"
      using that(1) that(2) c ok inj_onD [of checkpoint_id "set (checkpoints db')" x ?c] by (auto simp: context_db_ok_def distinct_map)
    then show ?thesis using assms(6) that(1) id by simp
  qed
  have "filter (\<lambda>c. \<forall>c' \<in> set ?rows. cp_created_at c' \<le> cp_created_at c) ?rows = filter (\<lambda>c. c = ?c) ?rows"
  proof (rule filter_cong [OF refl])
    fix x assume x: "x \<in> set ?rows"
    show "(\<forall>c' \<in> set ?rows. cp_created_at c' \<le> cp_created_at x) \<longleftrightarrow> x = ?c"
      using other [OF x] other c by (cases "x = ?c") (force, fastforce)
  qed
  also have "\<dots> = [?c]"
  proof -
    have "distinct ?rows" using ok by (auto simp: context_db_ok_def distinct_map)
    moreover have "?c \<in> set ?rows" using c by simp
    ultimately show ?thesis by (rule filter_eq_singleton)
  qed
  finally have "filter (\<lambda>c. \<forall>c' \<in> set ?rows. cp_created_at c' \<le> cp_created_at c) ?rows = [?c]" .
  moreover have "?rows \<noteq> []" using c new_checkpoint_simps(2) by (metis (mono_tags, lifting) filter_empty_conv)
  ultimately have "latest_checkpoint P s db' = Some ?c" unfolding latest_checkpoint_def Let_def by (simp only: if_False assms(3))
  then have "resume P sv' now' s db' = Inr \<lparr>bundle_hint = call_hint a, bundle_checkpoint_id = Some (receipt_checkpoint_id rc),
      bundle_item_refs = items_of (call_item_refs a), bundle_authority = working_context\<rparr>"
    using assms(4,5) written(2) id by (simp add: resume_def new_checkpoint_digest)
  moreover have "\<forall>x \<in> set refs. \<exists>r \<in> set (items db'). scope_digest r = scope_digest_of P s \<and> x = PStr (item_id r)"
    using written(5,8) later_db_items [OF lat] by fastforce
  ultimately show ?thesis using written(2) by simp
qed simp

text \<open>
  A read that starts beyond the end of the payload and leaves the end open is not refused: the range it reports
  ends before it starts, which an explicit end may not.
\<close>

theorem read_beyond_end:
  assumes "store_read P s i db = Some r" and "validate_item_row P s r = Inr b" and "allowed sv s False"
    and "\<not> expired P (store sv) now (created_at r)" and "int (length b) < bs"
  shows "(\<exists>res. read_item P sv now s i bs None current db = Inr res \<and> result_payload res = [] \<and>
      result_byte_end res < result_byte_start res) \<and>
    read_item P sv now s i bs (Some (int (length b))) current db = Inl (ValueError, ''invalid byte range'')"
  using assms by (simp add: read_item_def py_slice_def)

section \<open>Concrete runs\<close>

definition sample_platform :: platform where
  "sample_platform = \<lparr>sha256 = (\<lambda>x. x), float_repr = (\<lambda>t. ''1.0''), float_minus = (\<lambda>t d. t - d), sql_first = hd\<rparr>"

definition sample_scope :: scope where
  "sample_scope = \<lparr>project_id = ''p'', repository_id = ''r'', task_id = ''t'', campaign_id = None, attempt_id = None\<rparr>"

definition sample_service :: context_service where
  "sample_service = \<lparr>authenticated_principal = ''me'', policy = allow_all_fixture_policy,
     store = \<lparr>ttl_seconds = Some 10, max_items = Some 2\<rparr>\<rparr>"

definition sample_request :: "string \<Rightarrow> ingest_request" where
  "sample_request b = \<lparr>session_id = ''s'', window_id = ''w'', producer_id = ''p'', role = ''user'', payload = b,
     source_type = ''chat'', idempotency_key = ''k'', subject_revision = None, source_ref = None, tool_namespace = None,
     tool_name = None, retention_class = ''default''\<rparr>"

definition sample_call :: "string \<Rightarrow> ingest_call" where
  "sample_call b = \<lparr>arg_session_id = PStr ''s'', arg_window_id = PStr ''w'', arg_producer_id = PStr ''p'',
     arg_role = PStr ''user'', arg_payload = Some b, arg_source_type = PStr ''chat'', arg_idempotency_key = PStr ''k'',
     arg_subject_revision = None, arg_source_ref = None, arg_tool_namespace = None, arg_tool_name = None,
     arg_retention_class = ''default''\<rparr>"

definition sample_ops :: "context_op list" where
  "sample_ops = [Ingest sample_service 0 ''1'' sample_scope (sample_call ''hi'')]"

lemma sample_request_simps [simp]:
  "payload (sample_request b) = b" "source_type (sample_request b) = ''chat''" "subject_revision (sample_request b) = None"
  "sha256 sample_platform x = x"
  by (simp_all add: sample_request_def sample_platform_def)

abbreviation "sample_row \<equiv> new_row sample_platform sample_scope (sample_request ''hi'') 0 ''1''"

lemma sample_check: "check_call (sample_call ''hi'') = Inr (sample_request ''hi'')" "check_call (sample_call ''ho'') = Inr (sample_request ''ho'')"
  by code_simp+

lemma sample_ingest:
  "service_ingest sample_platform sample_service 0 ''1'' sample_scope (sample_call ''hi'') empty_db =
     (Inr (receipt_of sample_row False), \<lparr>items = [sample_row], checkpoints = []\<rparr>)"
  by (simp add: service_ingest_def ingest_def sample_check ingest_request_locked_def empty_db_def quota_reached_def
      sample_service_def allowed_def allow_all_fixture_policy_def)

lemma sample_db: "exec_ops sample_platform sample_ops empty_db = \<lparr>items = [sample_row], checkpoints = []\<rparr>"
  by (simp add: sample_ops_def sample_ingest)

lemma sample_facts [simp]:
  "allowed sample_service s w" "\<not> clash sample_platform x y" "minus_monotone sample_platform"
  "times_printable sample_platform {t}" "sql_first sample_platform [c] = c"
  by (simp_all add: allowed_def sample_service_def allow_all_fixture_policy_def clash_def sample_platform_def minus_monotone_def
      times_printable_def number_char_def is_digit_def)

theorem ingest_once_witness:
  "service_ingest sample_platform sample_service 5 ''2'' sample_scope (sample_call ''hi'') \<lparr>items = [sample_row], checkpoints = []\<rparr> =
     (Inr ((receipt_of sample_row False)\<lparr>replayed := True\<rparr>), \<lparr>items = [sample_row], checkpoints = []\<rparr>) \<and>
   service_ingest sample_platform sample_service 5 ''2'' sample_scope (sample_call ''ho'') \<lparr>items = [sample_row], checkpoints = []\<rparr> =
     (Inl (OtherError ''IdempotencyConflict'', ''IDEMPOTENCY_CONFLICT''), \<lparr>items = [sample_row], checkpoints = []\<rparr>)"
proof -
  have run: "service_ingest sample_platform sample_service 0 ''1'' sample_scope (sample_call ''hi'') (exec_ops sample_platform [] empty_db) =
      (Inr (receipt_of sample_row False), \<lparr>items = [sample_row], checkpoints = []\<rparr>)"
    using sample_ingest by simp
  have "sample_request ''ho'' \<noteq> sample_request ''hi''" "idempotency_key (sample_request ''ho'') = idempotency_key (sample_request ''hi'')"
    by (simp_all add: sample_request_def)
  with ingest_once [OF run sample_facts(1) exec_ops_simps(1) [symmetric], where now' = 5 and u' = "''2''"] sample_check
  show ?thesis by auto
qed

lemma sample_row_valid: "validate_item_row sample_platform sample_scope sample_row = Inr ''hi''"
  using new_row_valid [OF check_call_request(3) [OF sample_check(1)]] by simp

theorem item_row_sealed_witness:
  "validate_item_row sample_platform sample_scope sample_row = Inr ''hi'' \<and>
   (sample_row = sample_row \<and> sample_scope = sample_scope \<or> clash sample_platform ''hi'' ''hi'' \<or>
    clash sample_platform (record_text sample_platform sample_row) (record_text sample_platform sample_row) \<or>
    clash sample_platform (request_text sample_platform sample_scope sample_row) (request_text sample_platform sample_scope sample_row))"
  using item_row_sealed [OF sample_row_valid sample_row_valid refl] sample_row_valid by simp

definition sample_result :: read_item_result where
  "sample_result = \<lparr>result_item_id = ''ctx_1'', result_payload = ''i'', result_content_digest = ''hi'', result_source_type = ''chat'',
     result_subject_revision = None, freshness = ''UNKNOWN_FRESHNESS'', result_byte_start = 1, result_byte_end = 2,
     result_authority = working_context\<rparr>"

lemma sample_read:
  "read_item sample_platform sample_service 5 sample_scope ''ctx_1'' 1 None None (exec_ops sample_platform sample_ops empty_db) =
     Inr sample_result"
proof -
  have live: "\<not> expired sample_platform (store sample_service) 5 0"
    by (simp add: expired_def sample_service_def sample_platform_def)
  show ?thesis
    using live sample_row_valid
    by (simp add: sample_db read_item_def store_read_def new_item_id_def py_slice_def sample_result_def freshness_of_def)
qed

theorem read_returns_ingested_witness:
  "\<exists>pre sv' now' u s' a post b rc. sample_ops = pre @ Ingest sv' now' u s' a # post \<and>
     fst (service_ingest sample_platform sv' now' u s' a (exec_ops sample_platform pre empty_db)) = Inr rc \<and>
     receipt_item_id rc = ''ctx_1'' \<and> arg_payload a = Some b \<and> ''i'' = py_slice b 1 2 \<and> s' = sample_scope"
  using read_returns_ingested [OF sample_read] by (auto simp: sample_result_def) blast

theorem context_store_invariant_witness:
  "length (filter (\<lambda>r. scope_digest r = scope_digest_of sample_platform sample_scope) (items (exec_ops sample_platform sample_ops empty_db))) = 1 \<and>
   distinct (map item_id (items (exec_ops sample_platform sample_ops empty_db)))"
  using context_store_invariant [of sample_ops 2 _ sample_platform, OF _ refl]
  by (simp add: sample_ops_def sample_service_def) (simp add: sample_db [unfolded sample_ops_def sample_service_def, simplified])

lemma sample_matches: "row_matches sample_platform (store sample_service) 5 sample_scope ''h'' sample_row"
proof -
  have "\<not> expired sample_platform (store sample_service) 5 0" by (simp add: expired_def sample_service_def sample_platform_def)
  moreover have "contains_text (utf8_encode ''h'') ''hi''" by code_simp
  ultimately show ?thesis by (simp add: row_matches_def)
qed

theorem search_pages_complete_witness:
  "pages (context_page sample_platform sample_service sample_scope ''h'' 1) (context_later sample_platform)
     (5, exec_ops sample_platform sample_ops empty_db) None [hit_of sample_row] (5, exec_ops sample_platform sample_ops empty_db)"
  using search_pages_complete [OF sample_facts(3) refl sample_facts(1), where q = "''h''" and limit = 1 and t = 5 and ops = sample_ops and s = sample_scope] sample_matches
  by (simp add: sample_db)

theorem search_pages_stable_witness:
  "pages (context_page sample_platform sample_service sample_scope ''h'' 1) (context_later sample_platform)
     (5, exec_ops sample_platform sample_ops empty_db) None [hit_of sample_row] (5, exec_ops sample_platform sample_ops empty_db) \<and>
   hit_of sample_row \<in> set [hit_of sample_row]"
proof -
  have pg: "pages (context_page sample_platform sample_service sample_scope ''h'' 1) (context_later sample_platform)
     (5, exec_ops sample_platform sample_ops empty_db) None [hit_of sample_row] (5, exec_ops sample_platform sample_ops empty_db)"
    using search_pages_exist [OF sample_facts(3) refl sample_facts(1) _ _ _ sample_facts(2), where q = "''h''" and limit = 1 and t = 5
      and ops = sample_ops and s = sample_scope]
      sample_matches by (simp add: sample_db)
  from search_pages_stable [OF sample_facts(3) refl pg] pg sample_matches show ?thesis by (simp add: sample_db)
qed

definition sample_cp_call :: checkpoint_call where
  "sample_cp_call = \<lparr>call_session_id = ''s'', call_window_id = ''w'', call_producer_id = ''p'', call_hint = ''go on'',
     call_item_refs = PTuple [PStr ''ctx_1'']\<rparr>"

theorem resume_latest_witness:
  "\<exists>rc db. service_checkpoint sample_platform sample_service 1 ''2'' sample_scope sample_cp_call (exec_ops sample_platform sample_ops empty_db) =
     (Inr rc, db) \<and>
     resume sample_platform sample_service 5 sample_scope db = Inr \<lparr>bundle_hint = ''go on'', bundle_checkpoint_id = Some ''cp_2'',
       bundle_item_refs = [PStr ''ctx_1''], bundle_authority = working_context\<rparr>"
proof -
  let ?c = "new_checkpoint sample_platform sample_scope sample_cp_call [PStr ''ctx_1''] 1 ''2''"
  have len: "length (utf8_encode ''go on'') \<le> 4096" by code_simp
  obtain rc where run: "service_checkpoint sample_platform sample_service 1 ''2'' sample_scope sample_cp_call
      (exec_ops sample_platform sample_ops empty_db) = (Inr rc, \<lparr>items = [sample_row], checkpoints = [?c]\<rparr>)"
      "receipt_checkpoint_id rc = ''cp_2''"
    using len by (simp add: sample_db service_checkpoint_def store_checkpoint_def sample_cp_call_def check_ref_def new_item_id_def Let_def)
  have live: "\<not> expired sample_platform (store sample_service) 5 1"
    by (simp add: expired_def sample_service_def sample_platform_def)
  from resume_latest [OF run(1) exec_ops_simps(1) [symmetric] sample_facts(5) sample_facts(1) live] run
  show ?thesis by (auto simp: sample_cp_call_def)
qed

end
