(* ===== verification/Continuity.thy ===== *)
theory Continuity
  imports Event_Log
begin

text \<open>
  Task continuity (\<open>task_context/continuity.py\<close>): the events of an attempt as a chain of digests, their projection to
  a snapshot, the resumption of a snapshot with later events, and the decoding of the transitions of the event
  log into continuity events.
\<close>

section \<open>Constants and text\<close>

definition MAX_COLLECTION_ITEMS :: nat where
  "MAX_COLLECTION_ITEMS = 64"

definition CONTINUITY_SCHEMA :: string where
  "CONTINUITY_SCHEMA = ''nexus.task_continuity.v1''"

definition EVENT_TYPES :: "string list" where
  "EVENT_TYPES = [''PLAN_FORMED'', ''OBSERVATION_RECORDED'', ''HYPOTHESIS_REVISED'', ''STRATEGY_CHANGED'',
     ''VERIFICATION_RESULT'', ''ATTEMPT_REJECTED'', ''ESCALATED'', ''COMPLETED'']"

definition CONTINUITY_REJECTED_STATES :: "string list" where
  "CONTINUITY_REJECTED_STATES = [''ATTEMPT_REJECTED'', ''REJECTED'']"

definition continuity_digest :: "(string \<Rightarrow> string) \<Rightarrow> pyval \<Rightarrow> string res" where
  "continuity_digest H v = bindr (json_dumps True True v) (\<lambda>s. Inr (H s))"

text \<open>\<open>_clean_text\<close>; the callers use it for its check only and keep the text as it is.\<close>

fun clean_text :: "pyval \<Rightarrow> string \<Rightarrow> bool \<Rightarrow> string res" where
  "clean_text (PStr s) name req =
     (if req \<and> strip s = [] then Inl (ValueError, name @ '' must be a non-empty string'') else Inr s)"
| "clean_text _ name req =
     Inl (ValueError, if req then name @ '' must be a non-empty string'' else name @ '' must be a string'')"

section \<open>Events\<close>

record continuity_event =
  ce_task_id :: string
  ce_attempt_id :: string
  ce_sequence :: int
  ce_event_type :: string
  ce_summary :: string
  ce_action :: string
  ce_observation :: string
  ce_rationale :: string
  ce_failure_reason :: string
  ce_strategy_delta :: string
  ce_do_not_repeat :: "string list"
  ce_evidence_refs :: "string list"
  ce_unresolved_risks :: "string list"
  ce_unknowns :: "string list"
  ce_next_action :: string
  ce_claim_ceiling :: string
  ce_source_revision :: string
  ce_contract_revision :: string
  ce_previous_hash :: string
  ce_event_hash :: string

text \<open>The fields without \<open>event_hash\<close>; \<open>wrap\<close> says whether collections are tuples (in the object) or lists (in \<open>to_dict\<close>).\<close>

definition event_payload :: "(pyval list \<Rightarrow> pyval) \<Rightarrow> continuity_event \<Rightarrow> dict" where
  "event_payload wrap e =
     [(''task_id'', PStr (ce_task_id e)), (''attempt_id'', PStr (ce_attempt_id e)), (''sequence'', PInt (ce_sequence e)),
      (''event_type'', PStr (ce_event_type e)), (''summary'', PStr (ce_summary e)), (''action'', PStr (ce_action e)),
      (''observation'', PStr (ce_observation e)), (''rationale'', PStr (ce_rationale e)),
      (''failure_reason'', PStr (ce_failure_reason e)), (''strategy_delta'', PStr (ce_strategy_delta e)),
      (''do_not_repeat'', wrap (map PStr (ce_do_not_repeat e))), (''evidence_refs'', wrap (map PStr (ce_evidence_refs e))),
      (''unresolved_risks'', wrap (map PStr (ce_unresolved_risks e))), (''unknowns'', wrap (map PStr (ce_unknowns e))),
      (''next_action'', PStr (ce_next_action e)), (''claim_ceiling'', PStr (ce_claim_ceiling e)),
      (''source_revision'', PStr (ce_source_revision e)), (''contract_revision'', PStr (ce_contract_revision e)),
      (''previous_hash'', PStr (ce_previous_hash e)), (''schema'', PStr CONTINUITY_SCHEMA)]"

definition sequence_of :: "pyval \<Rightarrow> int res" where
  "sequence_of v = (case v of
       PInt n \<Rightarrow> if n < 1 then Inl (ValueError, ''sequence must be a positive integer'') else Inr n
     | _ \<Rightarrow> Inl (ValueError, ''sequence must be a positive integer''))"

definition event_type_of :: "pyval \<Rightarrow> string res" where
  "event_type_of v =
     (if \<not> hashable v then Inl (TypeError, ''unhashable type'')
      else (case v of
          PStr t \<Rightarrow> if t \<in> set EVENT_TYPES then Inr t else Inl (ValueError, ''unsupported continuity event type'')
        | _ \<Rightarrow> Inl (ValueError, ''unsupported continuity event type'')))"

fun nonblank_str :: "pyval \<Rightarrow> bool" where
  "nonblank_str (PStr s) = (strip s \<noteq> [])"
| "nonblank_str _ = False"

definition str_val :: "pyval \<Rightarrow> string" where
  "str_val v = (case v of PStr s \<Rightarrow> s | _ \<Rightarrow> [])"

definition tuple_of :: "string \<Rightarrow> pyval \<Rightarrow> string list res" where
  "tuple_of name v = (case v of
       PTuple xs \<Rightarrow>
         if \<not> list_all nonblank_str xs then Inl (ValueError, name @ '' must contain non-empty strings'')
         else if MAX_COLLECTION_ITEMS < length xs then Inl (ValueError, name @ '' exceeds bounded size 64'')
         else Inr (map str_val xs)
     | _ \<Rightarrow> Inl (ValueError, name @ '' must contain non-empty strings''))"

text \<open>The constructor, on the keyword arguments with their defaults filled in.\<close>

definition event_defaults :: dict where
  "event_defaults =
     map (\<lambda>k. (k, PStr [])) [''action'', ''observation'', ''rationale'', ''failure_reason'', ''strategy_delta'', ''next_action'',
       ''claim_ceiling'', ''source_revision'', ''contract_revision'', ''previous_hash''] @
     map (\<lambda>k. (k, PTuple [])) [''do_not_repeat'', ''evidence_refs'', ''unresolved_risks'', ''unknowns''] @
     [(''schema'', PStr CONTINUITY_SCHEMA)]"

definition make_event :: "(string \<Rightarrow> string) \<Rightarrow> dict \<Rightarrow> continuity_event res" where
  "make_event H a =
     bindr (raise_if (dget a ''schema'' \<noteq> PStr CONTINUITY_SCHEMA) ValueError ''unsupported continuity schema'') (\<lambda>_.
     bindr (clean_text (dget a ''task_id'') ''task_id'' True) (\<lambda>ti.
     bindr (clean_text (dget a ''attempt_id'') ''attempt_id'' True) (\<lambda>ai.
     bindr (sequence_of (dget a ''sequence'')) (\<lambda>n.
     bindr (event_type_of (dget a ''event_type'')) (\<lambda>et.
     bindr (clean_text (dget a ''summary'') ''summary'' False) (\<lambda>su.
     bindr (clean_text (dget a ''action'') ''action'' False) (\<lambda>ac.
     bindr (clean_text (dget a ''observation'') ''observation'' False) (\<lambda>ob.
     bindr (clean_text (dget a ''rationale'') ''rationale'' False) (\<lambda>ra.
     bindr (clean_text (dget a ''failure_reason'') ''failure_reason'' False) (\<lambda>fr.
     bindr (clean_text (dget a ''strategy_delta'') ''strategy_delta'' False) (\<lambda>sd.
     bindr (clean_text (dget a ''next_action'') ''next_action'' False) (\<lambda>na.
     bindr (clean_text (dget a ''claim_ceiling'') ''claim_ceiling'' False) (\<lambda>cc.
     bindr (clean_text (dget a ''source_revision'') ''source_revision'' True) (\<lambda>sr.
     bindr (clean_text (dget a ''contract_revision'') ''contract_revision'' True) (\<lambda>cr.
     bindr (clean_text (dget a ''previous_hash'') ''previous_hash'' False) (\<lambda>ph.
     bindr (tuple_of ''do_not_repeat'' (dget a ''do_not_repeat'')) (\<lambda>dn.
     bindr (tuple_of ''evidence_refs'' (dget a ''evidence_refs'')) (\<lambda>er.
     bindr (tuple_of ''unresolved_risks'' (dget a ''unresolved_risks'')) (\<lambda>ur.
     bindr (tuple_of ''unknowns'' (dget a ''unknowns'')) (\<lambda>un.
     let e = \<lparr>ce_task_id = ti, ce_attempt_id = ai, ce_sequence = n, ce_event_type = et, ce_summary = su, ce_action = ac,
        ce_observation = ob, ce_rationale = ra, ce_failure_reason = fr, ce_strategy_delta = sd, ce_do_not_repeat = dn,
        ce_evidence_refs = er, ce_unresolved_risks = ur, ce_unknowns = un, ce_next_action = na, ce_claim_ceiling = cc,
        ce_source_revision = sr, ce_contract_revision = cr, ce_previous_hash = ph, ce_event_hash = []\<rparr> in
     bindr (continuity_digest H (PDict (event_payload PTuple e))) (\<lambda>h. Inr (e\<lparr>ce_event_hash := h\<rparr>))))))))))))))))))))))"

section \<open>Snapshots\<close>

record continuity_snapshot =
  sn_schema :: string
  sn_task_id :: string
  sn_attempt_id :: string
  sn_first_sequence :: int
  sn_last_sequence :: int
  sn_event_root :: string
  sn_source_revision :: string
  sn_contract_revision :: string
  sn_verified_facts :: "string list"
  sn_active_hypotheses :: "string list"
  sn_rejected_hypotheses :: "string list"
  sn_strategy_changes :: "string list"
  sn_applied_changes :: "string list"
  sn_failed_attempts :: "string list"
  sn_rejected_strategies :: "string list"
  sn_unresolved_risks :: "string list"
  sn_unknowns :: "string list"
  sn_evidence_refs :: "string list"
  sn_next_action :: string
  sn_claim_ceiling :: string
  sn_failure_reason :: string
  sn_digest :: string

definition content_dict :: "continuity_snapshot \<Rightarrow> dict" where
  "content_dict s =
     [(''schema'', PStr (sn_schema s)), (''task_id'', PStr (sn_task_id s)), (''attempt_id'', PStr (sn_attempt_id s)),
      (''first_sequence'', PInt (sn_first_sequence s)), (''last_sequence'', PInt (sn_last_sequence s)),
      (''event_root'', PStr (sn_event_root s)), (''source_revision'', PStr (sn_source_revision s)),
      (''contract_revision'', PStr (sn_contract_revision s)),
      (''verified_facts'', PTuple (map PStr (sn_verified_facts s))),
      (''active_hypotheses'', PTuple (map PStr (sn_active_hypotheses s))),
      (''rejected_hypotheses'', PTuple (map PStr (sn_rejected_hypotheses s))),
      (''strategy_changes'', PTuple (map PStr (sn_strategy_changes s))),
      (''applied_changes'', PTuple (map PStr (sn_applied_changes s))),
      (''failed_attempts'', PTuple (map PStr (sn_failed_attempts s))),
      (''rejected_strategies'', PTuple (map PStr (sn_rejected_strategies s))),
      (''unresolved_risks'', PTuple (map PStr (sn_unresolved_risks s))),
      (''unknowns'', PTuple (map PStr (sn_unknowns s))), (''evidence_refs'', PTuple (map PStr (sn_evidence_refs s))),
      (''next_action'', PStr (sn_next_action s)), (''claim_ceiling'', PStr (sn_claim_ceiling s)),
      (''failure_reason'', PStr (sn_failure_reason s))]"

definition seal_snapshot :: "(string \<Rightarrow> string) \<Rightarrow> continuity_snapshot \<Rightarrow> continuity_snapshot res" where
  "seal_snapshot H s = bindr (continuity_digest H (PDict (content_dict s))) (\<lambda>h. Inr (s\<lparr>sn_digest := h\<rparr>))"

definition validate_integrity :: "(string \<Rightarrow> string) \<Rightarrow> continuity_snapshot \<Rightarrow> unit res" where
  "validate_integrity H s = bindr (continuity_digest H (PDict (content_dict s))) (\<lambda>h.
     raise_if (sn_digest s \<noteq> h) ValueError ''snapshot tampered'')"

section \<open>Projection\<close>

fun validate_chain :: "(string \<Rightarrow> string) \<Rightarrow> continuity_event list \<Rightarrow> string \<Rightarrow> string \<Rightarrow> int \<Rightarrow> string \<Rightarrow> unit res" where
  "validate_chain H [] t a expected previous = Inr ()"
| "validate_chain H (e # es) t a expected previous =
     bindr (raise_if (ce_task_id e \<noteq> t \<or> ce_attempt_id e \<noteq> a) ValueError ''foreign task or attempt event'') (\<lambda>_.
     bindr (raise_if (ce_sequence e \<noteq> expected) ValueError ''continuity sequence gap'') (\<lambda>_.
     bindr (raise_if (ce_previous_hash e \<noteq> previous) ValueError ''continuity hash-chain mismatch'') (\<lambda>_.
     bindr (continuity_digest H (PDict (event_payload PList e))) (\<lambda>h.
     bindr (raise_if (ce_event_hash e \<noteq> h) ValueError ''continuity event tampered'') (\<lambda>_.
     validate_chain H es t a (expected + 1) (ce_event_hash e))))))"

definition validate_stream :: "(string \<Rightarrow> string) \<Rightarrow> continuity_event list \<Rightarrow> string \<Rightarrow> string \<Rightarrow> int \<Rightarrow> string \<Rightarrow> unit res" where
  "validate_stream H es t a start previous =
     bindr (raise_if (es = []) ValueError ''continuity event stream is empty'') (\<lambda>_. validate_chain H es t a start previous)"

text \<open>The lists and texts the loops of \<open>project\<close> and \<open>_project_tail\<close> collect, and their common body.\<close>

record collected =
  facts :: "string list"
  active :: "string list"
  rejected_hyps :: "string list"
  strategies :: "string list"
  applied :: "string list"
  failed :: "string list"
  rejected :: "string list"
  risks :: "string list"
  unknown_items :: "string list"
  evidence :: "string list"
  next_act :: string
  claim :: string
  failure :: string

definition nothing_collected :: collected where
  "nothing_collected = \<lparr>facts = [], active = [], rejected_hyps = [], strategies = [], applied = [], failed = [], rejected = [],
     risks = [], unknown_items = [], evidence = [], next_act = [], claim = [], failure = []\<rparr>"

definition collect :: "continuity_event \<Rightarrow> collected \<Rightarrow> collected" where
  "collect e c =
     (let rej = ce_event_type e = ''ATTEMPT_REJECTED''; keep = (\<lambda>x y. if x = [] then y else x) in
      \<lparr>facts = facts c @ (if ce_observation e = [] then [] else [ce_observation e]),
       active = active c @ (if ce_event_type e \<in> {''PLAN_FORMED'', ''HYPOTHESIS_REVISED''} \<and> ce_summary e \<noteq> [] then [ce_summary e] else []),
       rejected_hyps = rejected_hyps c @ (if rej then [ce_summary e] else []),
       strategies = strategies c @ (if ce_strategy_delta e = [] then [] else [ce_strategy_delta e]),
       applied = applied c @ (if ce_action e \<noteq> [] \<and> ce_event_type e = ''COMPLETED'' then [ce_action e] else []),
       failed = failed c @ (if rej then [ce_summary e] else []),
       rejected = rejected c @ (if rej then ce_do_not_repeat e else []),
       risks = risks c @ ce_unresolved_risks e,
       unknown_items = unknown_items c @ ce_unknowns e,
       evidence = evidence c @ ce_evidence_refs e,
       next_act = keep (ce_next_action e) (next_act c),
       claim = keep (ce_claim_ceiling e) (claim c),
       failure = keep (ce_failure_reason e) (failure c)\<rparr>)"

fun project_loop :: "string \<Rightarrow> string \<Rightarrow> collected \<Rightarrow> continuity_event list \<Rightarrow> collected res" where
  "project_loop source contract c [] = Inr c"
| "project_loop source contract c (e # es) =
     bindr (raise_if (ce_source_revision e \<noteq> source \<or> ce_contract_revision e \<noteq> contract) ValueError
              ''source or contract revision drift'') (\<lambda>_.
     project_loop source contract (collect e c) es)"

definition snapshot_of :: "string \<Rightarrow> string \<Rightarrow> int \<Rightarrow> int \<Rightarrow> string \<Rightarrow> string \<Rightarrow> string \<Rightarrow> collected \<Rightarrow> continuity_snapshot" where
  "snapshot_of t a first_seq last_seq event_root source contract c =
     \<lparr>sn_schema = CONTINUITY_SCHEMA, sn_task_id = t, sn_attempt_id = a, sn_first_sequence = first_seq, sn_last_sequence = last_seq,
      sn_event_root = event_root, sn_source_revision = source, sn_contract_revision = contract,
      sn_verified_facts = dedup (facts c), sn_active_hypotheses = dedup (active c),
      sn_rejected_hypotheses = dedup (rejected_hyps c), sn_strategy_changes = dedup (strategies c),
      sn_applied_changes = dedup (applied c), sn_failed_attempts = dedup (failed c), sn_rejected_strategies = dedup (rejected c),
      sn_unresolved_risks = dedup (risks c), sn_unknowns = dedup (unknown_items c), sn_evidence_refs = dedup (evidence c),
      sn_next_action = next_act c, sn_claim_ceiling = claim c, sn_failure_reason = failure c, sn_digest = []\<rparr>"

definition project :: "(string \<Rightarrow> string) \<Rightarrow> continuity_event list \<Rightarrow> continuity_snapshot res" where
  "project H es = (case es of
       [] \<Rightarrow> Inl (ValueError, ''continuity event stream is empty'')
     | e # _ \<Rightarrow>
         bindr (validate_stream H es (ce_task_id e) (ce_attempt_id e) 1 []) (\<lambda>_.
         bindr (project_loop (ce_source_revision e) (ce_contract_revision e) nothing_collected es) (\<lambda>c.
         seal_snapshot H (snapshot_of (ce_task_id e) (ce_attempt_id e) (ce_sequence e) (ce_sequence (last es))
           (ce_event_hash (last es)) (ce_source_revision e) (ce_contract_revision e) c))))"

definition recollected :: "continuity_snapshot \<Rightarrow> collected" where
  "recollected s = \<lparr>facts = sn_verified_facts s, active = sn_active_hypotheses s, rejected_hyps = sn_rejected_hypotheses s,
     strategies = sn_strategy_changes s, applied = sn_applied_changes s, failed = sn_failed_attempts s,
     rejected = sn_rejected_strategies s, risks = sn_unresolved_risks s, unknown_items = sn_unknowns s,
     evidence = sn_evidence_refs s, next_act = sn_next_action s, claim = sn_claim_ceiling s, failure = sn_failure_reason s\<rparr>"

definition project_tail :: "(string \<Rightarrow> string) \<Rightarrow> continuity_snapshot \<Rightarrow> continuity_event list \<Rightarrow> continuity_snapshot res" where
  "project_tail H s es = seal_snapshot H (snapshot_of (sn_task_id s) (sn_attempt_id s) (sn_first_sequence s)
     (ce_sequence (last es)) (ce_event_hash (last es)) (sn_source_revision s) (sn_contract_revision s)
     (fold collect es (recollected s)))"

record resume_context =
  rc_snapshot :: continuity_snapshot
  rc_next_action :: string
  rc_claim_ceiling :: string
  rc_failure_reason :: string
  rc_do_not_repeat :: "string list"
  rc_evidence_refs :: "string list"
  rc_unresolved_risks :: "string list"
  rc_source_revision :: string
  rc_contract_revision :: string

definition resume_snapshot ::
  "(string \<Rightarrow> string) \<Rightarrow> continuity_snapshot \<Rightarrow> continuity_event list \<Rightarrow> string \<Rightarrow> string \<Rightarrow> string \<Rightarrow> string \<Rightarrow> string option \<Rightarrow> resume_context res" where
  "resume_snapshot H s es t a source contract expected_hash =
     bindr (validate_integrity H s) (\<lambda>_.
     bindr (raise_if (sn_schema s \<noteq> CONTINUITY_SCHEMA \<or> sn_task_id s \<noteq> t \<or> sn_attempt_id s \<noteq> a) ValueError
              ''snapshot identity mismatch'') (\<lambda>_.
     bindr (raise_if (case expected_hash of None \<Rightarrow> False | Some h \<Rightarrow> h \<noteq> sn_digest s) ValueError ''snapshot hash mismatch'') (\<lambda>_.
     bindr (raise_if (sn_source_revision s \<noteq> source \<or> sn_contract_revision s \<noteq> contract) ValueError
              ''snapshot source or contract is stale'') (\<lambda>_.
     bindr (case es of
          [] \<Rightarrow> Inr s
        | e # _ \<Rightarrow>
            bindr (raise_if (\<exists>x \<in> set es. ce_source_revision x \<noteq> sn_source_revision s \<or> ce_contract_revision x \<noteq> sn_contract_revision s)
                     ValueError ''tail source or contract revision drift'') (\<lambda>_.
            bindr (raise_if (ce_sequence e \<noteq> sn_last_sequence s + 1 \<or> ce_previous_hash e \<noteq> sn_event_root s) ValueError
                     ''tail does not extend snapshot'') (\<lambda>_.
            bindr (validate_stream H es t a (sn_last_sequence s + 1) (sn_event_root s)) (\<lambda>_.
            project_tail H s es)))) (\<lambda>m.
     Inr \<lparr>rc_snapshot = m, rc_next_action = sn_next_action m, rc_claim_ceiling = sn_claim_ceiling m,
          rc_failure_reason = sn_failure_reason m, rc_do_not_repeat = sn_rejected_strategies m,
          rc_evidence_refs = sn_evidence_refs m, rc_unresolved_risks = sn_unresolved_risks m,
          rc_source_revision = sn_source_revision m, rc_contract_revision = sn_contract_revision m\<rparr>)))))"

section \<open>Decoding the event log\<close>

definition str_list_field :: "dict \<Rightarrow> string \<Rightarrow> string option \<Rightarrow> pyval res" where
  "str_list_field p name alias =
     (let v = dget_default p name (case alias of None \<Rightarrow> PTuple [] | Some k \<Rightarrow> dget_default p k (PTuple [])) in
      if v = PNone then Inr (PTuple [])
      else if \<not> (is_array v \<and> list_all nonblank_str (items_of v))
      then Inl (ValueError, name @ '' must be a list of non-empty strings'')
      else if MAX_COLLECTION_ITEMS < length (items_of v) then Inl (ValueError, name @ '' exceeds bounded size 64'')
      else Inr (PTuple (items_of v)))"

text \<open>The checks of a record before an event is made of it.\<close>

definition required_fields :: "string list" where
  "required_fields = [''task_id'', ''attempt_id'', ''sequence'', ''state'', ''source_revision'', ''contract_revision'']"

definition check_payload :: "string \<Rightarrow> string \<Rightarrow> dict \<Rightarrow> dict res" where
  "check_payload t a d = (case dget d ''payload'' of
       PDict p \<Rightarrow>
         bindr (raise_if (\<exists>k \<in> set required_fields. map_of p k = None) ValueError ''continuity fields are missing'') (\<lambda>_.
         bindr (raise_if (dget p ''task_id'' \<noteq> PStr t \<or> dget p ''attempt_id'' \<noteq> PStr a) ValueError ''foreign task or attempt event'') (\<lambda>_.
         bindr (raise_if (\<not> nonblank_str (dget p ''state'')) ValueError ''attempt transition state must be a non-empty string'') (\<lambda>_.
         bindr (raise_if (\<not> nonblank_str (dget p ''source_revision'')) ValueError ''source_revision must be a non-empty string'') (\<lambda>_.
         bindr (raise_if (\<not> nonblank_str (dget p ''contract_revision'')) ValueError ''contract_revision must be a non-empty string'') (\<lambda>_.
         Inr p)))))
     | _ \<Rightarrow> Inl (ValueError, ''attempt transition payload is missing''))"

definition check_seal :: "(string \<Rightarrow> string) \<Rightarrow> string \<Rightarrow> dict \<Rightarrow> string res" where
  "check_seal H record_previous d =
     bindr (raise_if (\<not> (is_str (dget d ''_attempt_parent_digest'') \<and> is_str (dget d ''_attempt_record_digest''))) ValueError
              ''continuity record digest fields are missing'') (\<lambda>_.
     bindr (continuity_digest H (PDict (ddel ''_attempt_record_digest'' d))) (\<lambda>h.
     bindr (raise_if (dget d ''_attempt_record_digest'' \<noteq> PStr h) ValueError ''continuity record tampered'') (\<lambda>_.
     bindr (raise_if (dget d ''_attempt_parent_digest'' \<noteq> PStr record_previous) ValueError ''continuity record parent mismatch'') (\<lambda>_.
     Inr h))))"

definition decoded_type :: "dict \<Rightarrow> string res" where
  "decoded_type p =
     (let rejected = str_val (dget p ''state'') \<in> set CONTINUITY_REJECTED_STATES in
      bindr (if dget p ''continuity_event_type'' = PNone
             then (if rejected then Inl (ValueError, ''rejected continuity event type is missing'') else Inr (PStr ''OBSERVATION_RECORDED''))
             else Inr (dget p ''continuity_event_type'')) (\<lambda>v.
      bindr (raise_if (\<not> nonblank_str v) ValueError ''continuity_event_type must be a non-empty string'') (\<lambda>_.
      bindr (raise_if (rejected \<and> v \<noteq> PStr ''ATTEMPT_REJECTED'') ValueError
               ''rejected state requires ATTEMPT_REJECTED continuity type'') (\<lambda>_.
      Inr (str_val v)))))"

definition decode_record ::
  "(string \<Rightarrow> string) \<Rightarrow> string \<Rightarrow> string \<Rightarrow> string \<Rightarrow> string \<Rightarrow> dict \<Rightarrow> (continuity_event \<times> string) res" where
  "decode_record H t a previous record_previous d =
     bindr (check_payload t a d) (\<lambda>p.
     bindr (check_seal H record_previous d) (\<lambda>h.
     bindr (decoded_type p) (\<lambda>et.
     bindr (str_list_field p ''do_not_repeat'' (Some ''rejected_strategies'')) (\<lambda>dn.
     bindr (str_list_field p ''evidence_refs'' None) (\<lambda>er.
     bindr (str_list_field p ''unresolved_risks'' None) (\<lambda>ur.
     bindr (str_list_field p ''unknowns'' None) (\<lambda>un.
     let get = (\<lambda>k. dget_default p k (PStr [])) in
     bindr (make_event H (dmerge event_defaults
        [(''task_id'', PStr t), (''attempt_id'', PStr a), (''sequence'', dget p ''sequence''), (''event_type'', PStr et),
         (''summary'', dget p ''state''), (''observation'', get ''observation''), (''failure_reason'', get ''reason''),
         (''strategy_delta'', get ''strategy_delta''), (''action'', get ''action''), (''do_not_repeat'', dn),
         (''evidence_refs'', er), (''unresolved_risks'', ur), (''unknowns'', un), (''next_action'', get ''next_action''),
         (''claim_ceiling'', get ''claim_ceiling''), (''source_revision'', dget p ''source_revision''),
         (''contract_revision'', dget p ''contract_revision''), (''previous_hash'', PStr previous)])) (\<lambda>e.
     Inr (e, h)))))))))"

fun decode_records ::
  "(string \<Rightarrow> string) \<Rightarrow> string \<Rightarrow> string \<Rightarrow> string \<Rightarrow> string \<Rightarrow> pyval list \<Rightarrow> continuity_event list res" where
  "decode_records H t a previous record_previous [] = Inr []"
| "decode_records H t a previous record_previous (v # vs) =
     (case v of
        PDict d \<Rightarrow>
          if dget d ''event_type'' \<noteq> PStr ''attempt_transition'' then decode_records H t a previous record_previous vs
          else bindr (decode_record H t a previous record_previous d) (\<lambda>(e, h).
               bindr (decode_records H t a (ce_event_hash e) h vs) (\<lambda>es. Inr (e # es)))
      | _ \<Rightarrow> decode_records H t a previous record_previous vs)"

definition events_from_attempt_records :: "(string \<Rightarrow> string) \<Rightarrow> pyval list \<Rightarrow> string \<Rightarrow> string \<Rightarrow> continuity_event list res" where
  "events_from_attempt_records H vs t a =
     bindr (decode_records H t a [] genesis vs) (\<lambda>es.
     bindr (raise_if (es = []) ValueError ''continuity event stream is empty'') (\<lambda>_. Inr es))"

section \<open>Chains\<close>

definition payload_text :: "continuity_event \<Rightarrow> string" where
  "payload_text e = (case json_dumps True True (PDict (event_payload PList e)) of Inr s \<Rightarrow> s | Inl _ \<Rightarrow> [])"

definition content_text :: "continuity_snapshot \<Rightarrow> string" where
  "content_text s = (case json_dumps True True (PDict (content_dict s)) of Inr s \<Rightarrow> s | Inl _ \<Rightarrow> [])"

lemma continuity_digest_total:
  "json_ok v \<Longrightarrow> continuity_digest H v = Inr (H (case json_dumps True True v of Inr s \<Rightarrow> s | Inl _ \<Rightarrow> []))"
  using json_dumps_succeeds [of v True True] by (auto simp: continuity_digest_def)

lemma event_payload_ok: "json_ok (PDict (event_payload PList e))"
  by (auto simp: event_payload_def)

lemma event_payload_tuple: "json_dumps a n (PDict (event_payload PTuple e)) = json_dumps a n (PDict (event_payload PList e))"
proof -
  have "json_norm (PDict (event_payload PTuple e)) = json_norm (PDict (event_payload PList e))" by (simp add: event_payload_def)
  then show ?thesis using json_dumps_norm by metis
qed

lemma event_digest [simp]:
  "continuity_digest H (PDict (event_payload PList e)) = Inr (H (payload_text e))"
  "continuity_digest H (PDict (event_payload PTuple e)) = Inr (H (payload_text e))"
proof -
  show "continuity_digest H (PDict (event_payload PList e)) = Inr (H (payload_text e))"
    using continuity_digest_total [OF event_payload_ok] by (simp add: payload_text_def)
  then show "continuity_digest H (PDict (event_payload PTuple e)) = Inr (H (payload_text e))"
    by (simp only: continuity_digest_def event_payload_tuple)
qed

lemma content_digest [simp]: "continuity_digest H (PDict (content_dict s)) = Inr (H (content_text s))"
  using continuity_digest_total [of "PDict (content_dict s)" H] by (auto simp: content_text_def content_dict_def)

text \<open>An event fits at a place of the chain.\<close>

definition fits :: "(string \<Rightarrow> string) \<Rightarrow> string \<Rightarrow> string \<Rightarrow> int \<Rightarrow> string \<Rightarrow> continuity_event \<Rightarrow> bool" where
  "fits H t a n previous e \<longleftrightarrow> ce_task_id e = t \<and> ce_attempt_id e = a \<and> ce_sequence e = n \<and> ce_previous_hash e = previous \<and>
     ce_event_hash e = H (payload_text e)"

lemma validate_chain_Cons: "validate_chain H (e # es) t a n previous = Inr () \<longleftrightarrow>
    fits H t a n previous e \<and> validate_chain H es t a (n + 1) (ce_event_hash e) = Inr ()"
  by (auto simp: fits_def res_simps)

lemmas chain_simps = validate_chain.simps(1) validate_chain_Cons

declare validate_chain.simps(2) [simp del]

lemma validate_chain_append:
  "validate_chain H (xs @ ys) t a n previous = Inr () \<longleftrightarrow> validate_chain H xs t a n previous = Inr () \<and>
     validate_chain H ys t a (n + int (length xs)) (if xs = [] then previous else ce_event_hash (last xs)) = Inr ()"
  by (induction xs arbitrary: n previous) (auto simp: chain_simps algebra_simps)

lemma validate_chain_last:
  "validate_chain H xs t a n previous = Inr () \<Longrightarrow> xs \<noteq> [] \<Longrightarrow> ce_sequence (last xs) = n + int (length xs) - 1"
  by (induction xs arbitrary: n previous) (auto simp: chain_simps fits_def)

lemma validate_chain_ids: "validate_chain H xs t a n previous = Inr () \<Longrightarrow> e \<in> set xs \<Longrightarrow> ce_task_id e = t \<and> ce_attempt_id e = a"
  by (induction xs arbitrary: n previous) (auto simp: chain_simps fits_def)

lemma project_loop_iff:
  "project_loop source contract c es = Inr c' \<longleftrightarrow>
     (\<forall>e \<in> set es. ce_source_revision e = source \<and> ce_contract_revision e = contract) \<and> c' = fold collect es c"
  by (induction es arbitrary: c) (auto simp: res_simps)

section \<open>Collections\<close>

text \<open>Removing duplicates commutes with collecting more.\<close>

lemma dedup_from_cong: "set seen = set seen' \<Longrightarrow> dedup_from seen xs = dedup_from seen' xs"
proof (induction xs arbitrary: seen seen')
  case (Cons x xs)
  then have "dedup_from (x # seen) xs = dedup_from (x # seen') xs" by (intro Cons.IH) simp
  then show ?case using Cons.prems Cons.IH [OF Cons.prems] by (simp only: dedup_from.simps)
qed simp

lemma dedup_from_append: "dedup_from seen (xs @ ys) = dedup_from seen xs @ dedup_from (xs @ seen) ys"
proof (induction seen xs rule: dedup_from.induct)
  case (2 seen x xs)
  then show ?case
    using dedup_from_cong [of "xs @ seen" "x # xs @ seen" ys] dedup_from_cong [of "xs @ x # seen" "x # xs @ seen" ys] by auto
qed simp

lemma dedup_dedup_append [simp]: "dedup (dedup xs @ ys) = dedup (xs @ ys)"
  using dedup_from_cong [of "dedup xs" xs ys] set_dedup [of xs] dedup_id [OF distinct_dedup, of xs]
  by (simp add: dedup_def dedup_from_append)

definition tidy :: "collected \<Rightarrow> collected" where
  "tidy c = c\<lparr>facts := dedup (facts c), active := dedup (active c), rejected_hyps := dedup (rejected_hyps c),
     strategies := dedup (strategies c), applied := dedup (applied c), failed := dedup (failed c),
     rejected := dedup (rejected c), risks := dedup (risks c), unknown_items := dedup (unknown_items c),
     evidence := dedup (evidence c)\<rparr>"

lemma tidy_collect: "tidy (collect e (tidy c)) = tidy (collect e c)"
  by (simp add: tidy_def collect_def Let_def)

lemma tidy_fold: "tidy (fold collect es (tidy c)) = tidy (fold collect es c)"
proof (induction es arbitrary: c)
  case Nil
  then show ?case by (simp add: tidy_def)
next
  case (Cons e es)
  have "tidy (fold collect (e # es) (tidy c)) = tidy (fold collect es (collect e (tidy c)))" by simp
  also have "\<dots> = tidy (fold collect es (tidy (collect e (tidy c))))" by (rule Cons.IH [symmetric])
  also have "\<dots> = tidy (fold collect es (collect e c))" unfolding tidy_collect by (rule Cons.IH)
  finally show ?case by simp
qed

lemma snapshot_of_tidy: "snapshot_of t a m n r s k (tidy c) = snapshot_of t a m n r s k c"
  by (simp add: snapshot_of_def tidy_def)

lemma recollected_snapshot: "recollected (snapshot_of t a m n r s k c\<lparr>sn_digest := h\<rparr>) = tidy c"
  by (simp add: recollected_def snapshot_of_def tidy_def)

lemma seal_snapshot_Inr: "seal_snapshot H s = Inr (s\<lparr>sn_digest := H (content_text s)\<rparr>)"
  by (simp add: seal_snapshot_def)

lemma sealed_integrity [simp]: "validate_integrity H (s\<lparr>sn_digest := H (content_text s)\<rparr>) = Inr ()"
proof -
  have "content_text (s\<lparr>sn_digest := h\<rparr>) = content_text s" for h by (simp add: content_text_def content_dict_def)
  then show ?thesis by (simp add: validate_integrity_def)
qed

section \<open>Resuming is projecting\<close>

lemma project_iff:
  assumes "es \<noteq> []"
  shows "project H es = Inr s \<longleftrightarrow>
    validate_chain H es (ce_task_id (hd es)) (ce_attempt_id (hd es)) 1 [] = Inr () \<and>
    (\<forall>e \<in> set es. ce_source_revision e = ce_source_revision (hd es) \<and> ce_contract_revision e = ce_contract_revision (hd es)) \<and>
    (let raw = snapshot_of (ce_task_id (hd es)) (ce_attempt_id (hd es)) (ce_sequence (hd es)) (ce_sequence (last es))
       (ce_event_hash (last es)) (ce_source_revision (hd es)) (ce_contract_revision (hd es)) (fold collect es nothing_collected) in
     s = raw\<lparr>sn_digest := H (content_text raw)\<rparr>)"
  using assms by (cases es) (auto simp: project_def validate_stream_def res_simps project_loop_iff seal_snapshot_Inr Let_def)

lemma resume_iff:
  assumes "validate_integrity H s0 = Inr ()" and "sn_schema s0 = CONTINUITY_SCHEMA"
  shows "(\<exists>c. resume_snapshot H s0 ys (sn_task_id s0) (sn_attempt_id s0) (sn_source_revision s0) (sn_contract_revision s0) None = Inr c \<and>
      rc_snapshot c = s) \<longleftrightarrow>
    (if ys = [] then s = s0
     else validate_chain H ys (sn_task_id s0) (sn_attempt_id s0) (sn_last_sequence s0 + 1) (sn_event_root s0) = Inr () \<and>
       (\<forall>x \<in> set ys. ce_source_revision x = sn_source_revision s0 \<and> ce_contract_revision x = sn_contract_revision s0) \<and>
       project_tail H s0 ys = Inr s)"
proof (cases ys)
  case Nil
  then show ?thesis using assms by (auto simp: resume_snapshot_def)
next
  case (Cons x xs)
  have "ce_sequence x = sn_last_sequence s0 + 1 \<and> ce_previous_hash x = sn_event_root s0"
    if "validate_chain H ys (sn_task_id s0) (sn_attempt_id s0) (sn_last_sequence s0 + 1) (sn_event_root s0) = Inr ()"
    using that Cons by (simp add: chain_simps fits_def)
  then show ?thesis using assms by (auto simp: Cons resume_snapshot_def validate_stream_def res_simps)
qed

text \<open>
  C21 (resume_is_projection). A snapshot taken of a prefix of the events of an attempt and resumed with the
  remaining ones gives exactly the snapshot of all events, and does so exactly when all events can be projected;
  duplicates, the latest texts and the digest of the snapshot included.
\<close>

theorem resume_is_projection:
  assumes "es \<noteq> []"
  shows "project H (es @ later) = Inr s \<longleftrightarrow>
    (\<exists>s0 c. project H es = Inr s0 \<and>
       resume_snapshot H s0 later (ce_task_id (hd es)) (ce_attempt_id (hd es)) (ce_source_revision (hd es))
         (ce_contract_revision (hd es)) None = Inr c \<and> rc_snapshot c = s)"
proof -
  let ?e = "hd es"
  let ?chain = "\<lambda>xs n h. validate_chain H xs (ce_task_id ?e) (ce_attempt_id ?e) n h = Inr ()"
  let ?same = "\<lambda>xs. \<forall>x \<in> set xs. ce_source_revision x = ce_source_revision ?e \<and> ce_contract_revision x = ce_contract_revision ?e"
  let ?snap = "\<lambda>x c. snapshot_of (ce_task_id ?e) (ce_attempt_id ?e) (ce_sequence ?e) (ce_sequence x) (ce_event_hash x)
       (ce_source_revision ?e) (ce_contract_revision ?e) c"
  let ?raw = "?snap (last es) (fold collect es nothing_collected)"
  define s0 where "s0 = ?raw\<lparr>sn_digest := H (content_text ?raw)\<rparr>"
  have p0: "project H es = Inr x \<longleftrightarrow> ?chain es 1 [] \<and> ?same es \<and> x = s0" for x
    unfolding s0_def using project_iff [OF assms, of H x] by (simp add: Let_def)
  have f: "validate_integrity H s0 = Inr ()" "sn_schema s0 = CONTINUITY_SCHEMA" "sn_task_id s0 = ce_task_id ?e"
      "sn_attempt_id s0 = ce_attempt_id ?e" "sn_source_revision s0 = ce_source_revision ?e"
      "sn_contract_revision s0 = ce_contract_revision ?e" "sn_last_sequence s0 = ce_sequence (last es)"
      "sn_event_root s0 = ce_event_hash (last es)" "sn_first_sequence s0 = ce_sequence ?e"
    unfolding s0_def by (simp, simp_all add: snapshot_of_def)
  note res = resume_iff [OF f(1,2), of later s, unfolded f(3-8)]
  show ?thesis
  proof (cases "later = []")
    case True
    then show ?thesis using p0 res by (auto simp: append_Nil2)
  next
    case False
    let ?full = "?snap (last later) (fold collect (es @ later) nothing_collected)"
    define full where "full = ?full\<lparr>sn_digest := H (content_text ?full)\<rparr>"
    have all: "project H (es @ later) = Inr s \<longleftrightarrow> ?chain es 1 [] \<and> ?chain later (1 + int (length es)) (ce_event_hash (last es)) \<and>
        ?same es \<and> ?same later \<and> s = full"
      unfolding full_def using project_iff [of "es @ later" H s] assms False by (auto simp: Let_def validate_chain_append)
    have "recollected s0 = tidy (fold collect es nothing_collected)" unfolding s0_def by (rule recollected_snapshot)
    moreover have "?snap (last later) (fold collect later (tidy (fold collect es nothing_collected))) = ?full"
      by (subst (1 2) snapshot_of_tidy [symmetric]) (simp add: tidy_fold)
    ultimately have pt: "project_tail H s0 later = Inr full"
      unfolding full_def by (simp only: project_tail_def f seal_snapshot_Inr)
    show ?thesis
    proof (cases "?chain es 1 []")
      case True
      then have "ce_sequence (last es) + 1 = 1 + int (length es)" using validate_chain_last [OF True assms] by simp
      then have "(\<exists>c. resume_snapshot H s0 later (ce_task_id ?e) (ce_attempt_id ?e) (ce_source_revision ?e) (ce_contract_revision ?e) None =
          Inr c \<and> rc_snapshot c = s) \<longleftrightarrow> ?chain later (1 + int (length es)) (ce_event_hash (last es)) \<and> ?same later \<and> s = full"
        using res False by (simp only: pt sum.inject if_False eq_commute [of full s])
      then show ?thesis unfolding all p0 using True by blast
    next
      case no_chain: False
      then show ?thesis unfolding all p0 by blast
    qed
  qed
qed

section \<open>Escaped and plain texts\<close>

text \<open>
  The event log digests texts in which only control characters are escaped, the decoder texts with everything
  beyond ASCII escaped, and DEL, the last ASCII character, too. The two agree exactly on the texts without such
  characters; these are called ASCII here.
\<close>

definition ascii :: "string \<Rightarrow> bool" where
  "ascii s \<longleftrightarrow> list_all (\<lambda>c. (of_char c :: nat) < 127) s"

lemma ascii_simps [simp]: "ascii []" "ascii (c # s) \<longleftrightarrow> (of_char c :: nat) < 127 \<and> ascii s" "ascii (s @ s') \<longleftrightarrow> ascii s \<and> ascii s'"
  by (simp_all add: ascii_def)

lemma ascii_concat: "ascii (concat ss) \<longleftrightarrow> (\<forall>s \<in> set ss. ascii s)"
  by (induction ss) auto

lemma ascii_join: "ascii sep \<Longrightarrow> ascii (join sep ss) \<longleftrightarrow> (\<forall>s \<in> set ss. ascii s)"
  by (induction sep ss rule: join.induct) auto

lemma json_char_plain: "ascii (json_char False c) \<Longrightarrow> json_char True c = json_char False c"
  by (auto simp: json_char_def Let_def split: if_splits)

lemma hex_digit_ascii: "d < 16 \<Longrightarrow> (of_char (hex_digit d) :: nat) < 127"
  by (simp add: of_char_hex_digit hex_code_def)

lemma json_char_ascii: "ascii (json_char True c)"
proof -
  have "(of_char c :: nat) div 16 < 16" using of_char_lt [of c] by (simp add: less_mult_imp_div_less)
  then show ?thesis by (auto simp: json_char_def Let_def hex_digit_ascii)
qed

lemma json_str_plain: "ascii (json_str False s) \<Longrightarrow> json_str True s = json_str False s"
  by (auto simp: json_str_def ascii_concat json_char_plain intro!: arg_cong [of _ _ concat])

lemma json_str_ascii: "ascii (json_str True s)"
  by (auto simp: json_str_def ascii_concat json_char_ascii)

lemma number_text_ascii: "list_all number_char t \<Longrightarrow> ascii t"
  unfolding ascii_def by (erule list.pred_mono_strong) (auto simp: number_char_def is_digit_def Let_def)

lemma show_int_ascii: "ascii (show_int i)"
  by (rule number_text_ascii [OF show_int_number_chars(1)])

lemma json_float_ascii: "json_float n f = Inr s \<Longrightarrow> float_text f \<Longrightarrow> ascii s"
  by (cases f) (auto simp: number_text_ascii split: if_splits)

lemma map_res_mono:
  assumes "map_res f xs = Inr ys" and "\<And>x y. x \<in> set xs \<Longrightarrow> y \<in> set ys \<Longrightarrow> f x = Inr y \<Longrightarrow> g x = Inr y"
  shows "map_res g xs = Inr ys"
  using list.rel_mono_strong [OF assms(1) [unfolded map_res_eq_Inr]] assms(2) by (simp add: map_res_eq_Inr)

lemma map_res_mem: "map_res f xs = Inr ys \<Longrightarrow> y \<in> set ys \<Longrightarrow> \<exists>x \<in> set xs. f x = Inr y"
  by (induction xs arbitrary: ys) (auto simp: res_simps)

lemma json_dumps_plain:
  "json_dumps False n v = Inr s \<Longrightarrow> ascii s \<Longrightarrow> json_dumps True n v = Inr s"
proof (induction v arbitrary: s rule: json_norm.induct)
  case (1 xs)
  then obtain ss where ss: "map_res (json_dumps False n) xs = Inr ss" "s = ''['' @ join '','' ss @ '']''" by (auto simp: res_simps)
  have "map_res (json_dumps True n) xs = Inr ss"
    by (rule map_res_mono [OF ss(1)]) (use 1 ss(2) in \<open>simp add: ascii_join\<close>)
  then show ?case using ss(2) by simp
next
  case (2 xs)
  then obtain ss where ss: "map_res (json_dumps False n) xs = Inr ss" "s = ''['' @ join '','' ss @ '']''" by (auto simp: res_simps)
  have "map_res (json_dumps True n) xs = Inr ss"
    by (rule map_res_mono [OF ss(1)]) (use 2 ss(2) in \<open>simp add: ascii_join\<close>)
  then show ?case using ss(2) by simp
next
  case (3 d)
  let ?f = "\<lambda>a p. bindr (json_dumps a n (snd p)) (\<lambda>s. Inr (json_str a (fst p) @ '':'' @ s))"
  from "3.prems" obtain ss where ss: "map_res (?f False) (sort_key fst d) = Inr ss" "s = ''{'' @ join '','' ss @ ''}''"
    by (auto simp: res_simps)
  have "map_res (?f True) (sort_key fst d) = Inr ss"
  proof (rule map_res_mono [OF ss(1)])
    fix p x
    assume p: "p \<in> set (sort_key fst d)" and x: "x \<in> set ss" and f: "?f False p = Inr x"
    have "ascii x" using "3.prems"(2) x ss(2) by (simp add: ascii_join)
    with f "3.IH" [OF p] show "?f True p = Inr x" by (auto simp: res_simps json_str_plain)
  qed
  then show ?case using ss(2) by simp
qed (auto simp: json_str_plain)

lemma json_dumps_ascii: "json_dumps True n v = Inr s \<Longrightarrow> float_texts v \<Longrightarrow> ascii s"
proof (induction v arbitrary: s rule: json_norm.induct)
  case (1 xs)
  then obtain ss where ss: "map_res (json_dumps True n) xs = Inr ss" "s = ''['' @ join '','' ss @ '']''" by (auto simp: res_simps)
  then show ?case using 1 map_res_mem [OF ss(1)] by (fastforce simp: ascii_join)
next
  case (2 xs)
  then obtain ss where ss: "map_res (json_dumps True n) xs = Inr ss" "s = ''['' @ join '','' ss @ '']''" by (auto simp: res_simps)
  then show ?case using 2 map_res_mem [OF ss(1)] by (fastforce simp: ascii_join)
next
  case (3 d)
  let ?f = "\<lambda>p. bindr (json_dumps True n (snd p)) (\<lambda>s. Inr (json_str True (fst p) @ '':'' @ s))"
  from "3.prems" obtain ss where ss: "map_res ?f (sort_key fst d) = Inr ss" "s = ''{'' @ join '','' ss @ ''}''"
    by (auto simp: res_simps)
  have "ascii x" if "x \<in> set ss" for x
  proof -
    from map_res_mem [OF ss(1) that] obtain p where p: "p \<in> set (sort_key fst d)" "?f p = Inr x" by blast
    then show ?thesis using "3.IH" [OF p(1)] "3.prems"(2) by (auto simp: res_simps json_str_ascii)
  qed
  then show ?case using ss(2) by (simp add: ascii_join)
qed (auto simp: json_str_ascii show_int_ascii elim!: json_float_ascii split: if_splits)

section \<open>The log and its decoder\<close>

lemma payload_text_hash [simp]: "payload_text (e\<lparr>ce_event_hash := h\<rparr>) = payload_text e"
  by (simp add: payload_text_def event_payload_def)

lemma clean_text_Inr: "clean_text v name req = Inr s \<longleftrightarrow> v = PStr s \<and> (req \<longrightarrow> strip s \<noteq> [])"
  by (cases v) auto

lemma sequence_of_Inr: "sequence_of v = Inr n \<longleftrightarrow> v = PInt n \<and> 1 \<le> n"
  by (cases v) (auto simp: sequence_of_def)

lemma make_event_facts:
  assumes "make_event H a = Inr e"
  shows "dget a ''task_id'' = PStr (ce_task_id e)" and "dget a ''attempt_id'' = PStr (ce_attempt_id e)"
    and "dget a ''sequence'' = PInt (ce_sequence e)" and "dget a ''previous_hash'' = PStr (ce_previous_hash e)"
    and "ce_event_hash e = H (payload_text e)"
proof -
  show "dget a ''task_id'' = PStr (ce_task_id e)" "dget a ''attempt_id'' = PStr (ce_attempt_id e)"
      "dget a ''sequence'' = PInt (ce_sequence e)" "dget a ''previous_hash'' = PStr (ce_previous_hash e)"
    using assms by (auto simp: make_event_def res_simps clean_text_Inr sequence_of_Inr Let_def)
  have "\<exists>e'. e = e'\<lparr>ce_event_hash := H (payload_text e')\<rparr>" using assms unfolding make_event_def Let_def bindr_eq_Inr event_digest by blast
  then show "ce_event_hash e = H (payload_text e)" by (auto simp del: continuity_event.update_defs)
qed

lemma dget_dmerge: "distinct (map fst e) \<Longrightarrow> dget (dmerge d e) k = (case map_of e k of None \<Rightarrow> dget d k | Some v \<Rightarrow> v)"
  by (simp add: dget_def map_of_dmerge map_add_def split: option.splits)

lemma decode_record_facts:
  assumes "decode_record H t a previous record_previous d = Inr (e, h)"
  shows "ce_task_id e = t" and "ce_attempt_id e = a" and "PInt (ce_sequence e) = payload_sequence d" and "ce_previous_hash e = previous"
    and "ce_event_hash e = H (payload_text e)" and "check_seal H record_previous d = Inr h"
proof -
  from assms obtain p et dn er ur un where p: "check_payload t a d = Inr p" "check_seal H record_previous d = Inr h" and
      e: "make_event H (dmerge event_defaults
        [(''task_id'', PStr t), (''attempt_id'', PStr a), (''sequence'', dget p ''sequence''), (''event_type'', PStr et),
         (''summary'', dget p ''state''), (''observation'', dget_default p ''observation'' (PStr [])),
         (''failure_reason'', dget_default p ''reason'' (PStr [])), (''strategy_delta'', dget_default p ''strategy_delta'' (PStr [])),
         (''action'', dget_default p ''action'' (PStr [])), (''do_not_repeat'', dn), (''evidence_refs'', er), (''unresolved_risks'', ur),
         (''unknowns'', un), (''next_action'', dget_default p ''next_action'' (PStr [])),
         (''claim_ceiling'', dget_default p ''claim_ceiling'' (PStr [])), (''source_revision'', dget p ''source_revision''),
         (''contract_revision'', dget p ''contract_revision''), (''previous_hash'', PStr previous)]) = Inr e"
    unfolding decode_record_def Let_def bindr_eq_Inr by blast
  have "dget d ''payload'' = PDict p" using p(1) by (auto simp: check_payload_def res_simps split: pyval.splits)
  then have seq: "dget p ''sequence'' = payload_sequence d" by (simp add: payload_sequence_def vget_def)
  show "check_seal H record_previous d = Inr h" by (rule p(2))
  note f = make_event_facts [OF e]
  show "ce_event_hash e = H (payload_text e)" by (rule f(5))
  show "ce_task_id e = t" "ce_attempt_id e = a" "PInt (ce_sequence e) = payload_sequence d" "ce_previous_hash e = previous"
    using f(1-4) seq by (simp_all add: dget_dmerge)
qed

lemma decode_records_chain:
  assumes "decode_records H t a previous record_previous (map PDict rows) = Inr es"
    and "\<forall>d \<in> set rows. dget d ''event_type'' = PStr ''attempt_transition''"
    and "\<forall>i < length rows. payload_sequence (rows ! i) = PInt (n + int i)"
  shows "length es = length rows \<and> validate_chain H es t a n previous = Inr ()"
  using assms
proof (induction rows arbitrary: previous record_previous n es)
  case (Cons d rows)
  from Cons.prems(1,2) obtain e h es' where e: "decode_record H t a previous record_previous d = Inr (e, h)"
      "decode_records H t a (ce_event_hash e) h (map PDict rows) = Inr es'" "es = e # es'"
    by (auto simp: res_simps split: prod.splits)
  have "payload_sequence ((d # rows) ! 0) = PInt (n + int 0)" using Cons.prems(3) by blast
  then have "fits H t a n previous e" using decode_record_facts(1-5) [OF e(1)] by (simp add: fits_def)
  moreover have "length es' = length rows \<and> validate_chain H es' t a (n + 1) (ce_event_hash e) = Inr ()"
  proof (rule Cons.IH [OF e(2)])
    show "\<forall>i < length rows. payload_sequence (rows ! i) = PInt (n + 1 + int i)"
      using Cons.prems(3) [rule_format, of "Suc _"] by (simp add: algebra_simps)
  qed (use Cons.prems(2) in simp)
  ultimately show ?case by (simp add: e(3) chain_simps)
qed (simp add: chain_simps)

lemma readable_reachable:
  assumes "(event_step H any_record)\<^sup>*\<^sup>* fresh_world w" and "log_records (log_lines w) = Some ds"
  shows "ev_chain.chained H ds"
  using reachable_event_inv [OF assms(1)] assms(2) by (auto simp: event_inv_def readable_log_def)

text \<open>
  C22 (log_continuity_sound). Whatever the stores have written, when the decoding of the transitions of an attempt in
  the event log succeeds, every one of them has become an event with its number, and the events form a chain without
  gaps; so their projection succeeds exactly when source and contract revision never change, and covers
  them all. Decoding does not always succeed: C23 gives the intact transitions it refuses for their digest, and it
  also refuses payloads that lack what an event needs.
\<close>

theorem log_continuity_sound:
  assumes "(event_step H any_record)\<^sup>*\<^sup>* fresh_world w" and "log_records (log_lines w) = Some ds" and "rows = attempt_rows (t, a) ds"
    and "events_from_attempt_records H (map PDict rows) t a = Inr es"
  shows "length es = length rows \<and> validate_chain H es t a 1 [] = Inr () \<and>
    ((\<exists>s. project H es = Inr s) \<longleftrightarrow>
      (\<forall>e \<in> set es. ce_source_revision e = ce_source_revision (hd es) \<and> ce_contract_revision e = ce_contract_revision (hd es))) \<and>
    (\<forall>s. project H es = Inr s \<longrightarrow> sn_task_id s = t \<and> sn_attempt_id s = a \<and> sn_last_sequence s = int (length rows))"
proof -
  from assms(4) have dec: "decode_records H t a [] genesis (map PDict rows) = Inr es" and ne: "es \<noteq> []"
    by (auto simp: events_from_attempt_records_def res_simps)
  have "\<forall>d \<in> set rows. dget d ''event_type'' = PStr ''attempt_transition''"
    unfolding assms(3) by (auto simp: attempt_rows_def attempt_key_cases)
  moreover have "\<forall>i < length rows. payload_sequence (rows ! i) = PInt (1 + int i)"
    unfolding assms(3) using attempt_rows_linked [OF readable_reachable [OF assms(1,2)]] by (simp add: add.commute)
  ultimately have ch: "length es = length rows" "validate_chain H es t a 1 [] = Inr ()"
    using decode_records_chain [OF dec] by auto
  have ids: "ce_task_id (hd es) = t" "ce_attempt_id (hd es) = a" using validate_chain_ids [OF ch(2), of "hd es"] ne by auto
  have lst: "ce_sequence (last es) = int (length rows)" using validate_chain_last [OF ch(2) ne] ch(1) by simp
  note p = project_iff [OF ne, unfolded ids]
  have "sn_task_id s = t \<and> sn_attempt_id s = a \<and> sn_last_sequence s = int (length rows)" if "project H es = Inr s" for s
    using that unfolding p by (auto simp: Let_def snapshot_of_def lst)
  moreover have "(\<exists>s. project H es = Inr s) \<longleftrightarrow>
      (\<forall>e \<in> set es. ce_source_revision e = ce_source_revision (hd es) \<and> ce_contract_revision e = ce_contract_revision (hd es))"
    unfolding p Let_def using ch(2) by blast
  ultimately show ?thesis using ch by blast
qed

text \<open>
  C23 (decoder_accepts_ascii). A transition that the store has sealed passes the check of its digest in the decoder
  when its text has only ASCII characters other than DEL. When it has any other character it is refused as tampered,
  unless the escaped and the plain text have the same digest: the store digests the plain text, the decoder the
  escaped one.
\<close>

theorem decoder_accepts_ascii:
  assumes "(event_step H any_record)\<^sup>*\<^sup>* fresh_world w" and "log_records (log_lines w) = Some ds" and "rows = attempt_rows key ds"
    and "i < length rows"
  shows "if ascii (ev_body (rows ! i))
    then check_seal H (if i = 0 then genesis else ev_seal (rows ! (i - 1))) (rows ! i) = Inr (ev_seal (rows ! i))
    else check_seal H (if i = 0 then genesis else ev_seal (rows ! (i - 1))) (rows ! i) = Inl (ValueError, ''continuity record tampered'') \<or>
      (\<exists>x. json_dumps True True (PDict (ddel ''_attempt_record_digest'' (rows ! i))) = Inr x \<and> x \<noteq> ev_body (rows ! i) \<and>
         H x = H (ev_body (rows ! i)))"
proof -
  let ?d = "rows ! i" and ?u = "PDict (ddel ''_attempt_record_digest'' (rows ! i))"
  let ?parent = "if i = 0 then genesis else ev_seal (rows ! (i - 1))"
  note ch = readable_reachable [OF assms(1,2)]
  have fields: "dget d ''_attempt_record_digest'' = PStr (ev_seal d)" "json_value (PDict d)" "is_str (dget d ''_attempt_parent_digest'')"
      "ev_seal d = H (ev_body d)"
    if "d \<in> set rows" for d
    using ev_chain.of_key_facts [OF ch that [unfolded assms(3) attempt_rows_of_key]]
    by (auto simp: ev_proper_def ev_seal_def elim!: is_str.elims)
  have mem: "?d \<in> set rows" using assms(4) by simp
  have val: "json_ok (PDict ?d)" "json_ok ?u" "float_texts ?u"
    using fields(2) [OF mem] by (simp_all add: json_value_def ddel_def)
  have parent: "dget ?d ''_attempt_parent_digest'' = PStr ?parent"
  proof -
    have "i - 1 < length rows" using assms(4) by simp
    then have "dget (rows ! (i - 1)) ''_attempt_record_digest'' = PStr (ev_seal (rows ! (i - 1)))" by (intro fields(1) nth_mem)
    then show ?thesis using attempt_rows_linked [OF ch assms(4) [unfolded assms(3)]] unfolding assms(3) by (cases "i = 0") simp_all
  qed
  have plain: "json_dumps False True ?u = Inr (ev_body ?d)"
    using ev_body_text [OF val(1)] unfolding event_text_def stringified_ok [OF val(2)] .
  have "\<exists>x. json_dumps True True ?u = Inr x" by (rule json_dumps_succeeds [OF val(2)]) simp
  then obtain x where x: "json_dumps True True ?u = Inr x" by (rule exE)
  have seal: "check_seal H ?parent ?d = (if H x = H (ev_body ?d) then Inr (ev_seal ?d) else Inl (ValueError, ''continuity record tampered''))"
    using fields(1,3,4) [OF mem] parent
    by (simp add: check_seal_def continuity_digest_def x del: json_dumps.simps)
  show ?thesis
  proof (cases "ascii (ev_body ?d)")
    case True
    then have "x = ev_body ?d" using json_dumps_plain [OF plain] x by simp
    then show ?thesis using True seal by simp
  next
    case False
    then have "x \<noteq> ev_body ?d" using json_dumps_ascii [OF x val(3)] by auto
    then show ?thesis using False seal x by (auto simp del: json_dumps.simps)
  qed
qed

section \<open>Concrete runs\<close>

definition sample_event :: "int \<Rightarrow> string \<Rightarrow> continuity_event" where
  "sample_event n previous = \<lparr>ce_task_id = ''t'', ce_attempt_id = ''a'', ce_sequence = n, ce_event_type = ''PLAN_FORMED'', ce_summary = ''plan'',
     ce_action = [], ce_observation = ''seen'', ce_rationale = [], ce_failure_reason = [], ce_strategy_delta = [], ce_do_not_repeat = [],
     ce_evidence_refs = [''ref''], ce_unresolved_risks = [], ce_unknowns = [], ce_next_action = ''go'', ce_claim_ceiling = [],
     ce_source_revision = ''r'', ce_contract_revision = ''c'', ce_previous_hash = previous, ce_event_hash = sample_hash []\<rparr>"

lemma sample_event_simps [simp]:
  "ce_task_id (sample_event n p) = ''t''" "ce_attempt_id (sample_event n p) = ''a''" "ce_source_revision (sample_event n p) = ''r''"
  "ce_contract_revision (sample_event n p) = ''c''" "ce_event_hash (sample_event n p) = sample_hash []"
  "fits sample_hash ''t'' ''a'' n p (sample_event n p)"
  by (simp_all add: sample_event_def fits_def sample_hash_def)

theorem resume_is_projection_witness:
  "\<exists>s s0 c. project sample_hash [sample_event 1 [], sample_event 2 (sample_hash [])] = Inr s \<and> project sample_hash [sample_event 1 []] = Inr s0 \<and>
     resume_snapshot sample_hash s0 [sample_event 2 (sample_hash [])] ''t'' ''a'' ''r'' ''c'' None = Inr c \<and> rc_snapshot c = s"
proof -
  obtain s where s: "project sample_hash ([sample_event 1 []] @ [sample_event 2 (sample_hash [])]) = Inr s"
    using project_iff [of "[sample_event 1 [], sample_event 2 (sample_hash [])]" sample_hash] by (auto simp: chain_simps Let_def)
  with resume_is_projection [of "[sample_event 1 []]" sample_hash "[sample_event 2 (sample_hash [])]" s] show ?thesis by auto
qed

text \<open>A transition with a given state, appended to an empty log; texts are their own digests.\<close>

definition state_transition :: "string \<Rightarrow> dict" where
  "state_transition state = [(''event_type'', PStr ''attempt_transition''),
     (''payload'', PDict [(''task_id'', PStr ''t''), (''attempt_id'', PStr ''a''), (''sequence'', PInt 1), (''state'', PStr state),
       (''source_revision'', PStr ''r''), (''contract_revision'', PStr ''c'')])]"

definition state_world :: "string \<Rightarrow> event_world" where
  "state_world state = world_of (append_locked (\<lambda>x. x) None (sample_writer None) fresh_world (state_transition state))"

definition state_rows :: "string \<Rightarrow> dict list" where
  "state_rows state = attempt_rows (''t'', ''a'') (the (log_records (log_lines (state_world state))))"

lemma state_world_reachable: "(event_step (\<lambda>x. x) any_record)\<^sup>*\<^sup>* fresh_world (state_world state)"
proof (cases "append_locked (\<lambda>x. x) None (sample_writer None) fresh_world (state_transition state)")
  case (fields r d' es' w')
  have "json_value (PDict (state_transition state))" "any_record (state_transition state)"
    by (simp_all add: state_transition_def json_value_def any_record_def)
  from event_append [OF fields this(1), of any_record] this(2) show ?thesis by (simp add: state_world_def fields world_of_def)
qed

lemma state_world_records:
  "log_records (log_lines (state_world ''RUNNING'')) \<noteq> None" "length (state_rows ''RUNNING'') = 1"
  "log_records (log_lines (state_world [CHR 0xE9])) \<noteq> None" "length (state_rows [CHR 0xE9]) = 1"
  "ascii (ev_body (state_rows ''RUNNING'' ! 0))" "\<not> ascii (ev_body (state_rows [CHR 0xE9] ! 0))"
  by code_simp+

lemma state_world_decodes:
  "map_sum (\<lambda>e. e) (map ce_sequence) (events_from_attempt_records (\<lambda>x. x) (map PDict (state_rows ''RUNNING'')) ''t'' ''a'') = Inr [1]"
  by code_simp

theorem log_continuity_sound_witness:
  "\<exists>es. events_from_attempt_records (\<lambda>x. x) (map PDict (state_rows ''RUNNING'')) ''t'' ''a'' = Inr es \<and>
     validate_chain (\<lambda>x. x) es ''t'' ''a'' 1 [] = Inr () \<and> (\<exists>s. project (\<lambda>x. x) es = Inr s \<and> sn_last_sequence s = 1)"
proof -
  obtain ds where ds: "log_records (log_lines (state_world ''RUNNING'')) = Some ds" using state_world_records(1) by auto
  obtain es where es: "events_from_attempt_records (\<lambda>x. x) (map PDict (state_rows ''RUNNING'')) ''t'' ''a'' = Inr es" "length es = 1"
    using state_world_decodes
    by (cases "events_from_attempt_records (\<lambda>x. x) (map PDict (state_rows ''RUNNING'')) ''t'' ''a''") (auto simp: length_Suc_conv)
  have "state_rows ''RUNNING'' = attempt_rows (''t'', ''a'') ds" by (simp add: state_rows_def ds)
  from log_continuity_sound [OF state_world_reachable ds this es(1)] es state_world_records(2)
  show ?thesis by (auto simp: length_Suc_conv)
qed

theorem decoder_accepts_ascii_witness:
  "check_seal (\<lambda>x. x) genesis (state_rows ''RUNNING'' ! 0) = Inr (ev_seal (state_rows ''RUNNING'' ! 0)) \<and>
   check_seal (\<lambda>x. x) genesis (state_rows [CHR 0xE9] ! 0) = Inl (ValueError, ''continuity record tampered'')"
proof -
  obtain ds ds' where ds: "log_records (log_lines (state_world ''RUNNING'')) = Some ds" "log_records (log_lines (state_world [CHR 0xE9])) = Some ds'"
    using state_world_records(1,3) by auto
  have rows: "state_rows ''RUNNING'' = attempt_rows (''t'', ''a'') ds" "state_rows [CHR 0xE9] = attempt_rows (''t'', ''a'') ds'"
    by (simp_all add: state_rows_def ds)
  from decoder_accepts_ascii [OF state_world_reachable ds(1) rows(1), of 0] decoder_accepts_ascii [OF state_world_reachable ds(2) rows(2), of 0]
    state_world_records(2,4,5,6)
  show ?thesis by simp
qed

end
