(* ===== verification/Rehydration.thy ===== *)
theory Rehydration
  imports Continuity
begin

text \<open>
  \<open>build_rehydration_projection\<close> of \<open>task_context/continuity.py\<close>: the durable state of a task and a continuity snapshot are
  joined into one read-only projection, only when they speak of the same task, attempt and revisions.
\<close>

section \<open>Checks\<close>

text \<open>\<open>str(v or "").strip()\<close>, and \<open>... or None\<close>.\<close>

definition stripped_or :: "pyval \<Rightarrow> string" where
  "stripped_or v = strip (str_or v [])"

definition or_None :: "string \<Rightarrow> string option" where
  "or_None s = (if s = [] then None else Some s)"

text \<open>\<open>a or b or ... or ""\<close>.\<close>

definition first_truthy :: "pyval list \<Rightarrow> pyval" where
  "first_truthy vs = foldr py_or vs (PStr [])"

definition mapping_or_empty :: "pyval \<Rightarrow> dict" where
  "mapping_or_empty v = (if is_mapping v then dict_of v else [])"

definition check_mappings :: "dict \<Rightarrow> unit list res" where
  "check_mappings d = map_res (\<lambda>k.
     raise_if (dget d k \<noteq> PNone \<and> \<not> is_mapping (dget d k)) ValueError
       (''REHYDRATION_MALFORMED_STATE: '' @ k @ '' must be a mapping''))
     [''candidate'', ''promotion_packet'', ''verified_receipt'', ''contract'']"

definition check_work_claim :: "dict \<Rightarrow> unit res" where
  "check_work_claim d = (let wc = dget d ''work_claim'' in
     if wc = PNone then Inr ()
     else if \<not> is_mapping wc then Inl (ValueError, ''REHYDRATION_WORK_CLAIM_MISMATCH: work_claim must be a mapping'')
     else raise_if (\<not> is_mapping (dget (dict_of wc) ''identity'')) ValueError
            ''REHYDRATION_WORK_CLAIM_MISMATCH: work_claim identity must be a mapping'')"

definition resolve_task :: "dict \<Rightarrow> continuity_snapshot \<Rightarrow> string res" where
  "resolve_task d s = (let st = stripped_or (dget d ''task_id''); sn = strip (sn_task_id s) in
     if st = [] then Inl (ValueError, ''REHYDRATION_TASK_MISMATCH: task_id missing in task state'')
     else if sn \<noteq> [] \<and> st \<noteq> sn
     then Inl (ValueError, ''REHYDRATION_TASK_MISMATCH: state has '' @ st @ '', continuity has '' @ sn)
     else Inr st)"

definition resolve_attempt :: "dict \<Rightarrow> continuity_snapshot \<Rightarrow> pyval \<Rightarrow> string res" where
  "resolve_attempt d s requested =
     (let st = stripped_or (dget d ''attempt_id''); sn = strip (sn_attempt_id s); rq = stripped_or requested;
          target = (if rq \<noteq> [] then rq else if st \<noteq> [] then st else sn) in
      if target = [] then Inl (ValueError, ''REHYDRATION_ATTEMPT_MISMATCH: attempt_id could not be resolved'')
      else if rq \<noteq> [] \<and> st \<noteq> [] \<and> rq \<noteq> st
      then Inl (ValueError, ''REHYDRATION_ATTEMPT_MISMATCH: requested '' @ rq @ '', state has '' @ st)
      else if sn \<noteq> [] \<and> target \<noteq> sn
      then Inl (ValueError, ''REHYDRATION_ATTEMPT_MISMATCH: target '' @ target @ '', continuity has '' @ sn)
      else Inr target)"

text \<open>A revision of the state against that of the snapshot; \<open>unknown\<close> on either side agrees with everything.\<close>

definition resolve_revision :: "string \<Rightarrow> string \<Rightarrow> string \<Rightarrow> string option res" where
  "resolve_revision label st sn =
     (if st \<noteq> [] \<and> sn \<noteq> [] \<and> st \<noteq> ''unknown'' \<and> sn \<noteq> ''unknown'' \<and> st \<noteq> sn
      then Inl (ValueError, ''REHYDRATION_'' @ label @ ''_REVISION_MISMATCH: state has '' @ st @ '', continuity has '' @ sn)
      else Inr (or_None (if st \<noteq> [] then st else if sn \<noteq> ''unknown'' then sn else [])))"

definition state_source :: "dict \<Rightarrow> string" where
  "state_source d = (let c = mapping_or_empty (dget d ''contract'') in
     strip (py_str (first_truthy [dget d ''source_revision'', dget d ''controller_revision'', dget c ''controller_revision'',
       dget c ''source_revision''])))"

definition state_contract :: "dict \<Rightarrow> string" where
  "state_contract d = (let c = mapping_or_empty (dget d ''contract'') in
     strip (py_str (first_truthy [dget d ''contract_revision'', dget d ''contract_hash'', dget c ''contract_hash'',
       dget c ''contract_revision''])))"

definition work_claim_binding :: "dict \<Rightarrow> string \<Rightarrow> string \<Rightarrow> string \<Rightarrow> pyval res" where
  "work_claim_binding d task attempt sn_source = (let wc = dget d ''work_claim'' in
     if wc = PNone then Inr PNone
     else let w = dict_of wc; i = dict_of (dget w ''identity'') in
       bindr (raise_if (truthy (dget i ''task_id'') \<and> strip (py_str (dget i ''task_id'')) \<noteq> task) ValueError
                ''REHYDRATION_WORK_CLAIM_MISMATCH: work_claim task_id mismatch'') (\<lambda>_.
       bindr (raise_if (truthy (dget i ''attempt_id'') \<and> strip (py_str (dget i ''attempt_id'')) \<noteq> attempt) ValueError
                ''REHYDRATION_WORK_CLAIM_MISMATCH: work_claim attempt_id mismatch'') (\<lambda>_.
       bindr (raise_if (truthy (dget i ''source_hash'') \<and> sn_source \<noteq> [] \<and> sn_source \<noteq> ''unknown'' \<and>
                strip (py_str (dget i ''source_hash'')) \<noteq> sn_source) ValueError
                ''REHYDRATION_WORK_CLAIM_MISMATCH: work_claim source_hash mismatch'') (\<lambda>_.
       Inr (PDict (map (\<lambda>k. (k, dget w k)) [''claim_id'', ''generation'', ''fencing_token'', ''status'', ''claimed_at''] @
         [(''identity'', PDict i)]))))))"

section \<open>Parts of the projection\<close>

definition binding_of :: "pyval \<Rightarrow> pyval \<Rightarrow> pyval \<Rightarrow> pyval \<Rightarrow> pyval" where
  "binding_of commit tree state receipt =
     (if truthy commit \<or> truthy tree \<or> truthy state \<or> truthy receipt
      then PDict [(''candidate_commit_sha'', commit), (''candidate_tree_sha'', tree), (''candidate_state_hash'', state),
                  (''verified_receipt_hash'', receipt)]
      else PNone)"

definition candidate_binding :: "dict \<Rightarrow> dict option \<Rightarrow> pyval" where
  "candidate_binding d envelope =
     (case (case envelope of None \<Rightarrow> None | Some env \<Rightarrow> map_of env ''candidate'') of
        Some cand \<Rightarrow>
          (if is_mapping cand
           then (let c = dict_of cand in binding_of (dget c ''candidate_commit_sha'') (dget c ''candidate_tree_sha'')
                   (dget c ''candidate_state_hash'') (dget c ''verified_receipt_hash''))
           else PNone)
      | None \<Rightarrow>
          (let c = mapping_or_empty (dget d ''candidate''); p = mapping_or_empty (dget d ''promotion_packet'');
               v = mapping_or_empty (dget d ''verified_receipt'');
               pick = (\<lambda>k. py_or (py_or (dget d k) (dget c k)) (dget p k)) in
           binding_of (pick ''candidate_commit_sha'') (pick ''candidate_tree_sha'') (pick ''candidate_state_hash'')
             (py_or (pick ''verified_receipt_hash'') (dget v ''receipt_hash''))))"

definition phase_receipts_of :: "dict \<Rightarrow> pyval" where
  "phase_receipts_of d = py_or (dget d ''phase_receipts'') (dget (mapping_or_empty (dget d ''promotion_packet'')) ''phase_receipts'')"

definition authority_value :: "dict \<Rightarrow> string \<Rightarrow> pyval" where
  "authority_value d k =
     (if dget d k = PNone \<and> k \<in> {''task_card_path'', ''task_card_hash''}
      then dget (mapping_or_empty (dget d ''contract'')) k else dget d k)"

definition authority_binding :: "dict \<Rightarrow> dict" where
  "authority_binding d =
     filter (\<lambda>p. snd p \<noteq> PNone) (map (\<lambda>k. (k, authority_value d k))
       [''authority_revision'', ''lifecycle_revision'', ''authority_epoch'', ''standing_grant_id'', ''approval_id'',
        ''task_card_path'', ''task_card_hash'', ''execution_lane'']) @
     (let r = phase_receipts_of d in
      if r = PNone then [] else [(''phase_receipts'', if is_array r then PList (items_of r) else r)])"

definition missing_bindings :: "dict \<Rightarrow> continuity_snapshot \<Rightarrow> string list" where
  "missing_bindings d s =
     (if sn_applied_changes s = [] then [''completed_actions''] else []) @
     (if sn_verified_facts s = [] then [''verified_observations''] else []) @
     (if truthy (dget d ''authority_revision'') then [] else [''authority_revision'']) @
     (if truthy (phase_receipts_of d) then [] else [''phase_receipts''])"

definition str_items :: "string list \<Rightarrow> pyval" where
  "str_items xs = PList (map PStr xs)"

definition continuation_of :: "dict \<Rightarrow> continuity_snapshot \<Rightarrow> dict option \<Rightarrow> dict" where
  "continuation_of d s envelope =
     [(''failure_reason'', if sn_failure_reason s \<noteq> [] then PStr (sn_failure_reason s)
        else PStr (py_str (first_truthy [dget d ''error'', dget d ''reason'']))),
      (''failed_attempts'', str_items (sn_failed_attempts s)), (''rejected_strategies'', str_items (sn_rejected_strategies s)),
      (''do_not_repeat'', str_items (sn_rejected_strategies s)), (''unresolved_risks'', str_items (sn_unresolved_risks s)),
      (''unknowns'', str_items (sn_unknowns s)), (''evidence_refs'', str_items (sn_evidence_refs s)),
      (''next_action'', first_truthy [PStr (sn_next_action s), case envelope of None \<Rightarrow> PStr [] | Some env \<Rightarrow> dget env ''next_action'']),
      (''claim_ceiling'', if sn_claim_ceiling s \<noteq> [] then PStr (sn_claim_ceiling s) else PStr (str_or (dget d ''claim_ceiling'') []))] @
     (if sn_applied_changes s = [] then [] else [(''completed_actions'', str_items (sn_applied_changes s))]) @
     (if sn_verified_facts s = [] then [] else [(''verified_observations'', str_items (sn_verified_facts s))])"

record rehydration =
  rh_schema :: string
  rh_task_identity :: "string \<times> string"
  rh_revision_binding :: "string option \<times> string option"
  rh_authority_binding :: dict
  rh_continuation :: dict
  rh_current_task_action :: "dict option"
  rh_candidate_binding :: pyval
  rh_work_claim_binding :: pyval
  rh_missing_durable_bindings :: "string list"

definition rehydration_to_dict :: "rehydration \<Rightarrow> dict" where
  "rehydration_to_dict r =
     [(''schema'', PStr (rh_schema r)),
      (''task_identity'', PDict [(''task_id'', PStr (fst (rh_task_identity r))), (''attempt_id'', PStr (snd (rh_task_identity r)))]),
      (''revision_binding'', PDict [(''source_revision'', opt_str (fst (rh_revision_binding r))),
         (''contract_revision'', opt_str (snd (rh_revision_binding r)))]),
      (''authority_binding'', PDict (rh_authority_binding r)), (''continuation'', PDict (rh_continuation r)),
      (''current_task_action'', case rh_current_task_action r of None \<Rightarrow> PNone | Some e \<Rightarrow> PDict e),
      (''candidate_binding'', rh_candidate_binding r), (''work_claim_binding'', rh_work_claim_binding r),
      (''missing_durable_bindings'', str_items (rh_missing_durable_bindings r))]"

definition build_rehydration_projection ::
  "(string \<Rightarrow> string) \<Rightarrow> pyval \<Rightarrow> continuity_snapshot \<Rightarrow> dict option \<Rightarrow> pyval \<Rightarrow> rehydration res" where
  "build_rehydration_projection H task_state s envelope requested =
     bindr (validate_integrity H s) (\<lambda>_.
     bindr (raise_if (\<not> is_mapping task_state) ValueError ''REHYDRATION_MALFORMED_STATE: task_state must be a mapping'') (\<lambda>_.
     let d = dict_of task_state in
     bindr (check_mappings d) (\<lambda>_.
     bindr (check_work_claim d) (\<lambda>_.
     bindr (resolve_task d s) (\<lambda>task.
     bindr (resolve_attempt d s requested) (\<lambda>attempt.
     bindr (resolve_revision ''SOURCE'' (state_source d) (strip (sn_source_revision s))) (\<lambda>source.
     bindr (resolve_revision ''CONTRACT'' (state_contract d) (strip (sn_contract_revision s))) (\<lambda>contract.
     bindr (work_claim_binding d task attempt (strip (sn_source_revision s))) (\<lambda>wc.
     Inr \<lparr>rh_schema = ''nexus.task_rehydration_projection.v1'', rh_task_identity = (task, attempt),
          rh_revision_binding = (source, contract), rh_authority_binding = authority_binding d,
          rh_continuation = continuation_of d s envelope, rh_current_task_action = envelope,
          rh_candidate_binding = candidate_binding d envelope, rh_work_claim_binding = wc,
          rh_missing_durable_bindings = missing_bindings d s\<rparr>)))))))))"

section \<open>What a projection joins\<close>

lemma resolve_task_Inr:
  "resolve_task d s = Inr t \<longleftrightarrow> t = stripped_or (dget d ''task_id'') \<and> t \<noteq> [] \<and> strip (sn_task_id s) \<in> {[], t}"
  by (auto simp: resolve_task_def Let_def)

lemma resolve_attempt_Inr:
  "resolve_attempt d s rq = Inr a \<longleftrightarrow> a \<noteq> [] \<and> stripped_or rq \<in> {[], a} \<and> stripped_or (dget d ''attempt_id'') \<in> {[], a} \<and>
     strip (sn_attempt_id s) \<in> {[], a} \<and> (stripped_or rq = [] \<and> stripped_or (dget d ''attempt_id'') = [] \<longrightarrow> strip (sn_attempt_id s) = a)"
  by (auto simp: resolve_attempt_def Let_def)

lemma resolve_revision_Inr:
  "resolve_revision label st sn = Inr r \<Longrightarrow> st = [] \<or> sn = [] \<or> st = ''unknown'' \<or> sn = ''unknown'' \<or> st = sn"
  by (auto simp: resolve_revision_def split: if_splits)

lemma work_claim_Inr:
  assumes "work_claim_binding d task attempt src = Inr wc"
  shows "dget d ''work_claim'' = PNone \<and> wc = PNone \<or>
    (\<exists>i. dget (dict_of wc) ''identity'' = PDict i \<and> (truthy (dget i ''task_id'') \<longrightarrow> strip (py_str (dget i ''task_id'')) = task) \<and>
       (truthy (dget i ''attempt_id'') \<longrightarrow> strip (py_str (dget i ''attempt_id'')) = attempt) \<and>
       (truthy (dget i ''source_hash'') \<and> src \<notin> {[], ''unknown''} \<longrightarrow> strip (py_str (dget i ''source_hash'')) = src))"
proof (cases "dget d ''work_claim'' = PNone")
  case True
  then show ?thesis using assms by (simp add: work_claim_binding_def)
next
  case False
  let ?i = "dict_of (dget (dict_of (dget d ''work_claim'')) ''identity'')"
  have "dget (dict_of wc) ''identity'' = PDict ?i" using assms False by (auto simp: work_claim_binding_def Let_def res_simps dget_def)
  moreover have "truthy (dget ?i ''task_id'') \<longrightarrow> strip (py_str (dget ?i ''task_id'')) = task"
      "truthy (dget ?i ''attempt_id'') \<longrightarrow> strip (py_str (dget ?i ''attempt_id'')) = attempt"
      "truthy (dget ?i ''source_hash'') \<and> src \<notin> {[], ''unknown''} \<longrightarrow> strip (py_str (dget ?i ''source_hash'')) = src"
    using assms False by (auto simp: work_claim_binding_def Let_def res_simps)
  ultimately show ?thesis by blast
qed

text \<open>
  C24 (rehydration_joins_same_task). A projection is only built from an intact snapshot and a state
  mapping of the same task and attempt, also the requested one; known revisions of state and snapshot agree, a
  work claim that is carried over belongs to that task and attempt; and what the snapshot
  says must not be repeated or is still at risk is carried over entirely.
\<close>

theorem rehydration_joins_same_task:
  assumes "build_rehydration_projection H task_state s envelope requested = Inr r" and "rh_task_identity r = (task, attempt)"
  shows "validate_integrity H s = Inr () \<and> is_mapping task_state \<and> task \<noteq> [] \<and> attempt \<noteq> [] \<and>
    task = stripped_or (vget task_state ''task_id'') \<and> strip (sn_task_id s) \<in> {[], task} \<and>
    stripped_or requested \<in> {[], attempt} \<and> stripped_or (vget task_state ''attempt_id'') \<in> {[], attempt} \<and>
    strip (sn_attempt_id s) \<in> {[], attempt} \<and>
    (state_source (dict_of task_state) \<in> {[], ''unknown'', strip (sn_source_revision s)} \<or> strip (sn_source_revision s) \<in> {[], ''unknown''}) \<and>
    (state_contract (dict_of task_state) \<in> {[], ''unknown'', strip (sn_contract_revision s)} \<or>
       strip (sn_contract_revision s) \<in> {[], ''unknown''}) \<and>
    (rh_work_claim_binding r \<noteq> PNone \<longrightarrow> (\<exists>i. vget (rh_work_claim_binding r) ''identity'' = PDict i \<and>
       (truthy (dget i ''task_id'') \<longrightarrow> strip (py_str (dget i ''task_id'')) = task) \<and>
       (truthy (dget i ''attempt_id'') \<longrightarrow> strip (py_str (dget i ''attempt_id'')) = attempt))) \<and>
    dget (rh_continuation r) ''do_not_repeat'' = PList (map PStr (sn_rejected_strategies s)) \<and>
    dget (rh_continuation r) ''unresolved_risks'' = PList (map PStr (sn_unresolved_risks s))"
proof -
  let ?d = "dict_of task_state"
  from assms obtain source contract where r:
      "validate_integrity H s = Inr ()" "is_mapping task_state" "resolve_task ?d s = Inr task"
      "resolve_attempt ?d s requested = Inr attempt"
      "resolve_revision ''SOURCE'' (state_source ?d) (strip (sn_source_revision s)) = Inr source"
      "resolve_revision ''CONTRACT'' (state_contract ?d) (strip (sn_contract_revision s)) = Inr contract"
      "work_claim_binding ?d task attempt (strip (sn_source_revision s)) = Inr (rh_work_claim_binding r)"
      "rh_continuation r = continuation_of ?d s envelope"
    by (auto simp: build_rehydration_projection_def res_simps Let_def)
  have cont: "dget (rh_continuation r) ''do_not_repeat'' = PList (map PStr (sn_rejected_strategies s))"
      "dget (rh_continuation r) ''unresolved_risks'' = PList (map PStr (sn_unresolved_risks s))"
    unfolding r(8) by (simp_all add: continuation_of_def dget_def str_items_def)
  have "rh_work_claim_binding r \<noteq> PNone \<longrightarrow> (\<exists>i. vget (rh_work_claim_binding r) ''identity'' = PDict i \<and>
      (truthy (dget i ''task_id'') \<longrightarrow> strip (py_str (dget i ''task_id'')) = task) \<and>
      (truthy (dget i ''attempt_id'') \<longrightarrow> strip (py_str (dget i ''attempt_id'')) = attempt))"
    using work_claim_Inr [OF r(7)] by (auto simp: vget_def)
  with cont r(1,2) r(3) [unfolded resolve_task_Inr] r(4) [unfolded resolve_attempt_Inr]
    resolve_revision_Inr [OF r(5)] resolve_revision_Inr [OF r(6)]
  show ?thesis by (auto simp: vget_def)
qed

definition sample_state :: pyval where
  "sample_state = PDict [(''task_id'', PStr ''t''), (''attempt_id'', PStr ''a''), (''source_revision'', PStr ''r'')]"

theorem rehydration_joins_same_task_witness:
  "\<exists>s r. project sample_hash [sample_event 1 []] = Inr s \<and>
     build_rehydration_projection sample_hash sample_state s None PNone = Inr r \<and> rh_task_identity r = (''t'', ''a'') \<and>
     dget (rh_continuation r) ''do_not_repeat'' = PList (map PStr (sn_rejected_strategies s))"
proof -
  obtain s where s: "project sample_hash [sample_event 1 []] = Inr s" "validate_integrity sample_hash s = Inr ()"
      "sn_task_id s = ''t''" "sn_attempt_id s = ''a''" "sn_source_revision s = ''r''" "sn_contract_revision s = ''c''"
    using project_iff [of "[sample_event 1 []]" sample_hash] by (auto simp: chain_simps Let_def) (auto simp: snapshot_of_def)
  let ?d = "dict_of sample_state"
  have st: "stripped_or (dget ?d ''task_id'') = ''t''" "stripped_or (dget ?d ''attempt_id'') = ''a''" "stripped_or PNone = []"
      "strip ''t'' = ''t''" "strip ''a'' = ''a''" "strip ''r'' = ''r''" "state_source ?d = ''r''" "state_contract ?d = []"
      "check_mappings ?d = Inr [(), (), (), ()]" "check_work_claim ?d = Inr ()" "dget ?d ''work_claim'' = PNone" "is_mapping sample_state"
    by code_simp+
  have "resolve_task ?d s = Inr ''t''" "resolve_attempt ?d s PNone = Inr ''a''" "work_claim_binding ?d ''t'' ''a'' ''r'' = Inr PNone"
    using s(3-5) st by (simp_all add: resolve_task_Inr resolve_attempt_Inr work_claim_binding_def)
  then have "\<exists>r. build_rehydration_projection sample_hash sample_state s None PNone = Inr r \<and> rh_task_identity r = (''t'', ''a'')"
    using s(2,5,6) st by (simp add: build_rehydration_projection_def resolve_revision_def Let_def)
  then obtain r where r: "build_rehydration_projection sample_hash sample_state s None PNone = Inr r" "rh_task_identity r = (''t'', ''a'')"
    by blast
  from rehydration_joins_same_task [OF r]
  have "dget (rh_continuation r) ''do_not_repeat'' = PList (map PStr (sn_rejected_strategies s))" by (elim conjE)
  with r s(1) show ?thesis by blast
qed

end
