(* ===== verification/Spec2Isabelle.thy ===== *)
theory Spec2Isabelle
  imports Retry_Service Handoff_Lineage Effect_Journal Effect_Authorization Execution_State Bounded_Decision Context_Budget Coordinator_Owner
    Event_Bus Store_Lock Context_Safety Rehydration
begin

text \<open>
  A verification development of the execution core of \<open>nexus_runtime\<close>, the Python package under
  \<open>src/src/nexus_runtime\<close>. File names below are relative to it.

  \<^bold>\<open>The program.\<close> A host submits tasks. The coordinator (\<open>execution_coordination/coordinator.py\<close>) runs an attempt of a
  task: it admits the request, obtains an effect authorization, prepares a target, invokes model workers
  within budgets and deadlines, escalates between providers and records every status in the durable state.
  Around it are the stores and decision procedures it relies on: the execution state store, workflow
  checkpoints with handoffs between sessions, the effect journal that makes external effects happen at most
  once, the writer generation that fences superseded writers, the lock of the event store, the event log with
  its bus, the feedback decision log, the resolution of model calls, bounded decisions, the context budget and the
  context store, and the retry service with bounded reconciliation, which starts a new attempt of a failed task.

  \<^bold>\<open>Foundations.\<close>
  \<^item> \<open>Py_Prelude\<close>: Python values (\<open>pyval\<close>), dictionaries as association lists in insertion order, exceptions as a
    sum type (\<open>res\<close>), text functions, conversions, equality and truth; the collection \<open>res_simps\<close>.
  \<^item> \<open>Py_Json\<close>, \<open>Json_Normal\<close>: \<open>json.dumps\<close> with sorted keys, the value that reading back gives, and that equal texts
    come from equal values; normalization of JSON values.
  \<^item> \<open>Json_Store\<close>, \<open>Cas_Store\<close>: directories of JSON documents with atomic replacement; the locale of compare-and-set
    documents (at most one winner for each revision) that the checkpoint store and the generation manifest interpret.
  \<^item> \<open>Hash_Chain\<close>: the locale of logs of sealed records, interpreted by the append-only logs.
  \<^item> \<open>Keyset_Paging\<close>: the locale of listings read page by page with a cursor while they change; what a client that follows
    the cursors sees. The search of the context store is its interpretation.
  \<^item> \<open>Port_Calls\<close>: programs that call ports. A port is a function of the history of all calls made so far, so it
    may answer anything and differently each time; the rules (\<open>triple\<close>, \<open>emits\<close>, \<open>adds\<close>, \<open>limited\<close>, \<open>obeys\<close>) follow the
    structure of a program.

  \<^bold>\<open>Components.\<close>
  \<^item> \<open>Task_Lifecycle\<close> (\<open>task_lifecycle.py\<close>, \<open>task_retry/attempt_budget.py\<close>, \<open>task_retry/retry_identity.py\<close>): status families,
    attempt budgets, fresh retry identities.
  \<^item> \<open>Bounded_Reconciliation\<close>, \<open>Retry_Service\<close> (\<open>task_retry/\<close>): residual packets, the eligibility of a repair successor,
    and \<open>retry_task\<close> with its four ports; a retry submits at most one request, behind every gate, and repairs once.
  \<^item> \<open>Workflow_Checkpoint\<close>, \<open>Checkpoint_Store\<close>, \<open>Handoff_Lineage\<close> (\<open>workflow_checkpoint.py\<close>, \<open>handoff_lineage.py\<close>): checkpoints
    and their hashes, the store with compare-and-set writes, handoffs, lineage reconstruction and successor
    binding; sessions interleave as sequences of reads, writes that advance what they read, and effect records.
    Binding a successor is one step, although the code takes its lock several times for it.
  \<^item> \<open>Writer_Generation\<close>, \<open>Store_Lock\<close> (\<open>kernel/events/writer_generation.py\<close>): the generation manifest as a compare-and-set
    document, and the reentrant lock as a step relation over threads, processes and forks.
  \<^item> \<open>Effect_Journal\<close> (\<open>kernel/events/effect_journal.py\<close>): reservation, transitions, reconciliation and \<open>execute\<close>, with a crash
    possible after every durable write; a refinement of an abstract ledger. The operation and the reconcile port are
    callbacks on the store, called where the code calls them: the ledger holds for callbacks that do not write the
    journal, and what happens to a nested execution otherwise is proved too.
  \<^item> \<open>Decision_Log\<close> (\<open>kernel/feedback/contracts.py\<close>, the decision store of \<open>kernel/events/log_store.py\<close>): constructed
    feedback decisions and their append-only stream, an interpretation of \<open>Hash_Chain\<close>.
  \<^item> \<open>Event_Log\<close> (the event log of \<open>kernel/events/log_store.py\<close>): any number of stores append to one file under the installed
    generation; the transitions of each attempt are a second interpretation of \<open>Hash_Chain\<close>. \<open>Event_Bus\<close>
    (\<open>kernel/events/contracts.py\<close>, \<open>kernel/events/transport.py\<close>): attempt transitions, publication, and the
    numbering of transitions on top of the log. Observers are functions of the payload, the bus and the log that may
    change all of them, so a handler can publish and emit.
  \<^item> \<open>Continuity\<close>, \<open>Rehydration\<close> (\<open>task_context/continuity.py\<close>): continuity events and their chain, snapshots, projection and
    resumption, which agree; the decoding of the transitions of the event log; the join of a snapshot with the
    durable state.
  \<^item> \<open>Effect_Authorization\<close> (\<open>execution_coordination/effect_authorization.py\<close>): authorizations, freshness, narrowing projections.
  \<^item> \<open>Execution_State\<close> (\<open>execution_state/store.py\<close>): task identifiers, contained paths, snapshots, writes and mutations
    under any configuration; the invariant is that of the configurations that validate their writes.
  \<^item> \<open>Model_Call_Resolution\<close>, \<open>Bounded_Decision\<close> (\<open>execution_coordination/\<close>): fail-safe verdicts on whether a model call is
    needed; eligibility, packets and validated responses of a bounded choice.
  \<^item> \<open>Context_Budget\<close> (\<open>task_context/budget.py\<close>): the greedy selection of context sources and its receipt.
  \<^item> \<open>Context_Store\<close>, \<open>Context_Safety\<close> (\<open>context_store/\<close>): scopes, digests, the tables of items and checkpoints, ingest,
    checkpoint, resume, search and ranged reads behind the access guard; histories of operations by any number of
    services: items are written once for each key, sealed, within the quota, read back under their scope only, and
    found by a search followed to its end.
  \<^item> \<open>Worker_Escalation\<close>, \<open>Coordinator_Ports\<close>, \<open>Coordinator_Observation\<close>, \<open>Coordinator\<close> (\<open>execution_coordination/coordinator.py\<close>,
    \<open>ports.py\<close>): the escalation policy; the ports with the event each call leaves in the history and the effect
    authorization gate; observation and telemetry records; \<open>execute_attempt\<close>, \<open>run_owned_attempt\<close> with custom
    runners, and \<open>launch\<close>. \<open>Coordinator_Safety\<close>, \<open>Coordinator_Budget\<close>, \<open>Coordinator_Order\<close> and \<open>Coordinator_Owner\<close> hold what is
    proved of them: invocations are guarded, completions accounted for, statuses ordered, attempts end and are
    concluded.

  \<^bold>\<open>Correspondence.\<close> A data class is a record, its \<open>__post_init__\<close> a constructor that returns a result; an
  enumeration is a datatype; a method that changes files takes the store and returns it; every raise is a
  branch with the exception class and its message. A section under a file lock is one step; \<open>Store_Lock\<close>
  justifies this for the event store. Where several sessions work on one store, their operations are
  sequences of such steps in any order. What the sources get from outside is a parameter: the digest
  function \<open>H\<close> (hypotheses on it, where needed, say that it gives 64 hexadecimal digits; collisions are never
  excluded but appear as a second case), the clock, the calendar, parsing of decimal fractions, the
  floating-point test that scores sum to one, the rounded difference of two times, fresh identifiers, the row SQLite
  picks among equally ordered ones, the access policy, the model-call resolver and the ports.

  \<^bold>\<open>Loops and bounds.\<close> Loops over data are recursive functions; the reconstruction of a lineage recurses over
  attempts with a handoff file (a measure on the unvisited ones). The loop of an attempt is
  a \<open>while\<close> whose result is \<open>None\<close> only when it never ends; \<open>attempt_terminates\<close> shows that it ends when receipts account for
  at least one call. No fuel is used.

  \<^bold>\<open>Not modelled.\<close> File modes, symbolic links, \<open>fsync\<close> and partial writes; the heartbeat thread and the
  process-group callback of a worker; text beyond one-byte characters. Components that drive host processes,
  probe executables or rank free text (the unified runtime, transports, writer quiescence, capability
  registry and planning, context assembly, memory adapters) are listed in the manifest with the reason.
\<close>

end
